(* ===== verification/Go_Prelude.thy ===== *)
theory Go_Prelude
  imports Main "HOL-Library.Word" "HOL-Library.List_Lexorder" "HOL-Library.Char_ord"
    "HOL-Library.Signed_Division"
begin

unbundle bit_operations_syntax

text \<open>
  The vocabulary every component shares: Go strings (byte lists), the
  operations of the standard packages \<open>strings\<close>, \<open>strconv\<close> and
  \<open>unicode/utf8\<close> that the service uses, uuids as sixteen bytes
  (\<open>internal/core/domain/helpers.go\<close>), durations and instants as integers
  (nanoseconds), and the \<open>named_theorems\<close> collections of the development.
\<close>

named_theorems go_str \<open>definitions of the string operations\<close>
named_theorems rl_defs \<open>definitions of the rate-limit components\<close>
named_theorems auth_defs \<open>definitions of the authentication components\<close>

type_synonym duration = int
type_synonym instant = int

abbreviation second :: duration where "second \<equiv> 1000000000"
abbreviation minute :: duration where "minute \<equiv> 60 * second"
abbreviation hour :: duration where "hour \<equiv> 60 * minute"

section \<open>Uuids\<close>

type_synonym uuid = "128 word"

abbreviation uuid_nil :: uuid where "uuid_nil \<equiv> 0"

text \<open>Byte \<open>i\<close> of the array \<open>[16]byte\<close>, most significant byte first.\<close>

definition uuid_byte :: "uuid \<Rightarrow> nat \<Rightarrow> 8 word" where
  "uuid_byte u i = ucast (drop_bit (8 * (15 - i)) u)"

definition UUIDVersion :: "uuid \<Rightarrow> int" where
  "UUIDVersion u = uint (drop_bit 4 (uuid_byte u 6))"

definition IsUUIDV7 :: "uuid \<Rightarrow> bool" where
  "IsUUIDV7 u = (if u = uuid_nil then False else UUIDVersion u = 7)"

text \<open>\<open>fresh\<close> is what \<open>uuid.NewV7\<close> returns at this call.\<close>

definition EnsureUUIDV7 :: "uuid \<Rightarrow> uuid \<Rightarrow> uuid" where
  "EnsureUUIDV7 fresh u = (if u = uuid_nil then fresh else u)"

text \<open>A version-7 uuid for the concrete runs.\<close>

definition uuid7 :: "nat \<Rightarrow> uuid" where
  "uuid7 n = 0x70008000000000000000 + of_nat n"

lemma EnsureUUIDV7_v7: "IsUUIDV7 fresh \<Longrightarrow> EnsureUUIDV7 fresh u \<noteq> uuid_nil"
  by (auto simp: EnsureUUIDV7_def IsUUIDV7_def split: if_splits)

section \<open>Strings\<close>

definition HasPrefix :: "string \<Rightarrow> string \<Rightarrow> bool" where
  "HasPrefix s p = (take (length p) s = p)"

definition HasSuffix :: "string \<Rightarrow> string \<Rightarrow> bool" where
  "HasSuffix s p = (length p \<le> length s \<and> drop (length s - length p) s = p)"

fun Contains :: "string \<Rightarrow> string \<Rightarrow> bool" where
  "Contains [] p = (p = [])"
| "Contains (c # cs) p = (HasPrefix (c # cs) p \<or> Contains cs p)"

text \<open>\<open>strings.Split\<close> by a one-byte separator.\<close>

fun split_on :: "char \<Rightarrow> string \<Rightarrow> string list" where
  "split_on c [] = [[]]"
| "split_on c (x # xs) =
     (if x = c then [] # split_on c xs
      else (case split_on c xs of [] \<Rightarrow> [[x]] | p # ps \<Rightarrow> (x # p) # ps))"

fun join_with :: "string \<Rightarrow> string list \<Rightarrow> string" where
  "join_with sep [] = []"
| "join_with sep [s] = s"
| "join_with sep (s # t # ss) = s @ sep @ join_with sep (t # ss)"

lemma split_on_nonempty [simp]: "split_on c s \<noteq> []"
  by (induction s) (auto split: list.splits)

lemma split_on_no_sep: "c \<notin> set s \<Longrightarrow> split_on c s = [s]"
  by (induction s) auto

lemma split_on_append:
  "c \<notin> set s \<Longrightarrow> split_on c (s @ c # t) = s # split_on c t"
  by (induction s) auto

text \<open>\<open>strconv.Itoa\<close> and \<open>%d\<close>.\<close>

definition digit_char :: "nat \<Rightarrow> char" where
  "digit_char d = char_of (48 + d)"

fun nat_digits :: "nat \<Rightarrow> string" where
  "nat_digits n = (if n < 10 then [digit_char n] else nat_digits (n div 10) @ [digit_char (n mod 10)])"

declare nat_digits.simps [simp del]

definition itoa :: "int \<Rightarrow> string" where
  "itoa i = (if i < 0 then CHR ''-'' # nat_digits (nat (- i)) else nat_digits (nat i))"

text \<open>Reading the digits back; \<open>itoa\<close> loses nothing.\<close>

definition digit_val :: "char \<Rightarrow> nat" where
  "digit_val c = of_char c - 48"

definition is_digit_char :: "char \<Rightarrow> bool" where
  "is_digit_char c = (let n = (of_char c :: nat) in 48 \<le> n \<and> n \<le> 57)"

definition digits_val :: "string \<Rightarrow> nat" where
  "digits_val s = foldl (\<lambda>n c. 10 * n + digit_val c) 0 s"

lemma digit_char_code: "d < 10 \<Longrightarrow> (of_char (digit_char d) :: nat) = 48 + d"
  by (simp add: digit_char_def)

lemma nat_digits_val: "digits_val (nat_digits n) = n"
proof (induction n rule: nat_digits.induct)
  case (1 n)
  show ?case
  proof (cases "n < 10")
    case True
    then show ?thesis by (simp add: nat_digits.simps[of n] digits_val_def digit_val_def digit_char_code)
  next
    case False
    with 1 have "digits_val (nat_digits (n div 10)) = n div 10" by simp
    with False show ?thesis
      by (simp add: nat_digits.simps[of n] digits_val_def digit_val_def digit_char_code)
  qed
qed

lemma nat_digits_digits: "list_all is_digit_char (nat_digits n)"
proof (induction n rule: nat_digits.induct)
  case (1 n)
  have "is_digit_char (digit_char (n mod 10))" "n < 10 \<Longrightarrow> is_digit_char (digit_char n)"
    by (simp_all add: is_digit_char_def digit_char_code)
  with 1 show ?case by (simp add: nat_digits.simps[of n])
qed

lemma nat_digits_nonempty: "nat_digits n \<noteq> []"
  by (subst nat_digits.simps) simp

lemma nat_digits_inj: "nat_digits m = nat_digits n \<Longrightarrow> m = n"
  by (metis nat_digits_val)

lemma minus_not_digit: "\<not> is_digit_char (CHR ''-'')"
  by (simp add: is_digit_char_def)

lemma nat_digits_no_minus: "nat_digits n \<noteq> CHR ''-'' # s"
  using nat_digits_digits[of n] minus_not_digit by auto

lemma itoa_inj: "itoa i = itoa j \<Longrightarrow> i = j"
  using nat_digits_no_minus nat_digits_no_minus[symmetric]
  by (auto simp: itoa_def dest!: nat_digits_inj split: if_splits)

lemma itoa_chars: "c \<in> set (itoa i) \<Longrightarrow> is_digit_char c \<or> c = CHR ''-''"
  using nat_digits_digits by (auto simp: itoa_def list_all_iff split: if_splits)

text \<open>
  \<open>time.Duration.String\<close>: below a second in ns, \<open>\<mu>s\<close> or ms, otherwise hours,
  minutes and seconds, the fraction without its trailing zeros.
\<close>

definition pad_digits :: "nat \<Rightarrow> nat \<Rightarrow> string" where
  "pad_digits n v = (let d = nat_digits v in replicate (n - length d) (CHR ''0'') @ d)"

definition duration_frac :: "nat \<Rightarrow> nat \<Rightarrow> string" where
  "duration_frac v prec =
     (let f = rev (dropWhile (\<lambda>c. c = CHR ''0'') (rev (pad_digits prec (v mod 10 ^ prec))))
      in if f = [] then [] else CHR ''.'' # f)"

definition duration_string :: "duration \<Rightarrow> string" where
  "duration_string d =
     (let u = nat \<bar>d\<bar>; sign = (if d < 0 then ''-'' else []) in
      if u = 0 then ''0s''
      else if u < 1000 then sign @ nat_digits u @ ''ns''
      else if u < 1000000 then sign @ nat_digits (u div 1000) @ duration_frac u 3 @ [CHR 0xC2, CHR 0xB5, CHR ''s'']
      else if u < 1000000000 then sign @ nat_digits (u div 1000000) @ duration_frac u 6 @ ''ms''
      else let secs = u div 1000000000; mins = secs div 60; hours = mins div 60 in
        sign @ (if hours > 0 then nat_digits hours @ ''h'' else [])
        @ (if mins > 0 then nat_digits (mins mod 60) @ ''m'' else [])
        @ nat_digits (secs mod 60) @ duration_frac u 9 @ ''s'')"

text \<open>\<open>uuid.UUID.String\<close>: the bytes in lower-case hexadecimal, grouped 4-2-2-2-6.\<close>

definition hex_digit :: "nat \<Rightarrow> char" where
  "hex_digit d = (if d < 10 then char_of (48 + d) else char_of (87 + d))"

definition byte_hex :: "8 word \<Rightarrow> string" where
  "byte_hex b = [hex_digit (unat b div 16), hex_digit (unat b mod 16)]"

definition bytes_hex :: "uuid \<Rightarrow> nat \<Rightarrow> nat \<Rightarrow> string" where
  "bytes_hex u i n = concat (map (\<lambda>j. byte_hex (uuid_byte u j)) [i ..< i + n])"

definition uuid_string :: "uuid \<Rightarrow> string" where
  "uuid_string u = bytes_hex u 0 4 @ ''-'' @ bytes_hex u 4 2 @ ''-'' @ bytes_hex u 6 2 @ ''-'' @
     bytes_hex u 8 2 @ ''-'' @ bytes_hex u 10 6"

lemma hex_digit_plain:
  assumes "d < 16" shows "CHR '';'' \<noteq> hex_digit d"
proof
  assume h: "CHR '';'' = hex_digit d"
  have "of_char (hex_digit d) = (if d < 10 then 48 + d else 87 + d)"
    using assms by (simp add: hex_digit_def)
  with h[symmetric] show False by (auto split: if_splits)
qed

lemma unat_byte: "unat (b :: 8 word) < 256"
proof -
  have "unat b < 2 ^ LENGTH(8)" by (rule unsigned_less)
  then show ?thesis by simp
qed

lemma bytes_hex_plain: "CHR '';'' \<notin> set (bytes_hex u i n)"
proof -
  have "CHR '';'' \<notin> set (byte_hex b)" for b
    using hex_digit_plain[of "unat b div 16"] hex_digit_plain[of "unat b mod 16"] unat_byte[of b]
    by (simp add: byte_hex_def less_mult_imp_div_less)
  then show ?thesis by (simp add: bytes_hex_def)
qed

lemma uuid_string_no_semicolon: "CHR '';'' \<notin> set (uuid_string u)"
  using bytes_hex_plain by (auto simp: uuid_string_def)

section \<open>White space\<close>

text \<open>
  The runes of \<open>unicode.IsSpace\<close>, as the bytes UTF-8 writes them with: the six
  ASCII ones, U+0085 and U+00A0 (two bytes), U+1680, U+2000 to U+200A,
  U+2028, U+2029, U+202F, U+205F and U+3000 (three bytes).  The result is how
  many bytes the white-space rune at the front takes, 0 when there is none.
\<close>

definition ascii_space :: "char \<Rightarrow> bool" where
  "ascii_space c = (let n = (of_char c :: nat) in n = 32 \<or> (9 \<le> n \<and> n \<le> 13))"

definition space2 :: "char \<Rightarrow> char \<Rightarrow> bool" where
  "space2 b c = (b = CHR 0xC2 \<and> (c = CHR 0x85 \<or> c = CHR 0xA0))"

definition space3 :: "char \<Rightarrow> char \<Rightarrow> char \<Rightarrow> bool" where
  "space3 b c d =
     ((b = CHR 0xE1 \<and> c = CHR 0x9A \<and> d = CHR 0x80) \<or>
      (b = CHR 0xE2 \<and> c = CHR 0x80 \<and>
         (let n = (of_char d :: nat) in (0x80 \<le> n \<and> n \<le> 0x8A) \<or> n = 0xA8 \<or> n = 0xA9 \<or> n = 0xAF)) \<or>
      (b = CHR 0xE2 \<and> c = CHR 0x81 \<and> d = CHR 0x9F) \<or>
      (b = CHR 0xE3 \<and> c = CHR 0x80 \<and> d = CHR 0x80))"

fun lead_space :: "string \<Rightarrow> nat" where
  "lead_space [] = 0"
| "lead_space [a] = (if ascii_space a then 1 else 0)"
| "lead_space [a, b] = (if ascii_space a then 1 else if space2 a b then 2 else 0)"
| "lead_space (a # b # c # s) =
     (if ascii_space a then 1 else if space2 a b then 2 else if space3 a b c then 3 else 0)"

text \<open>The same at the end: the argument is the reversed string.\<close>

fun trail_space :: "string \<Rightarrow> nat" where
  "trail_space [] = 0"
| "trail_space [a] = (if ascii_space a then 1 else 0)"
| "trail_space [b, a] = (if ascii_space b then 1 else if space2 a b then 2 else 0)"
| "trail_space (c # b # a # s) =
     (if ascii_space c then 1 else if space2 b c then 2 else if space3 a b c then 3 else 0)"

function trim_left :: "string \<Rightarrow> string" where
  "trim_left s = (let n = lead_space s in if n = 0 \<or> s = [] then s else trim_left (drop n s))"
  by pat_completeness auto
termination
  by (relation "measure length") auto

function trim_rev :: "string \<Rightarrow> string" where
  "trim_rev s = (let n = trail_space s in if n = 0 \<or> s = [] then s else trim_rev (drop n s))"
  by pat_completeness auto
termination
  by (relation "measure length") auto

declare trim_left.simps [simp del] trim_rev.simps [simp del]

definition TrimSpace :: "string \<Rightarrow> string" where
  "TrimSpace s = rev (trim_rev (rev (trim_left s)))"

text \<open>\<open>strings.ContainsFunc(s, unicode.IsSpace)\<close>.\<close>

fun has_space :: "string \<Rightarrow> bool" where
  "has_space [] = False"
| "has_space (c # cs) = (lead_space (c # cs) \<noteq> 0 \<or> has_space cs)"

lemma trim_left_length: "length (trim_left s) \<le> length s"
proof (induction s rule: trim_left.induct)
  case (1 s)
  then show ?case by (subst trim_left.simps) (force simp: Let_def)
qed

lemma trim_left_suffix: "\<exists>p. s = p @ trim_left s"
proof (induction s rule: trim_left.induct)
  case (1 s)
  show ?case
  proof (cases "lead_space s = 0 \<or> s = []")
    case True then show ?thesis by (subst trim_left.simps) auto
  next
    case False
    with 1 obtain p where p: "drop (lead_space s) s = p @ trim_left (drop (lead_space s) s)"
      by (auto simp: Let_def)
    have "trim_left s = trim_left (drop (lead_space s) s)"
      using False by (subst trim_left.simps) (simp add: Let_def)
    then have "s = (take (lead_space s) s @ p) @ trim_left s"
      using p by (metis append.assoc append_take_drop_id)
    then show ?thesis by blast
  qed
qed

text \<open>After a trim no white space is left at the front of what was trimmed.\<close>

lemma lead_space_trim_left [simp]: "lead_space (trim_left s) = 0"
proof (induction s rule: trim_left.induct)
  case (1 s)
  then show ?case by (subst trim_left.simps) (auto simp: Let_def)
qed

lemma trail_space_trim_rev [simp]: "trail_space (trim_rev s) = 0"
proof (induction s rule: trim_rev.induct)
  case (1 s)
  then show ?case by (subst trim_rev.simps) (auto simp: Let_def)
qed

lemma trim_left_id: "lead_space s = 0 \<Longrightarrow> trim_left s = s"
  by (subst trim_left.simps) simp

lemma trim_rev_id: "trail_space s = 0 \<Longrightarrow> trim_rev s = s"
  by (subst trim_rev.simps) simp

lemma has_space_lead: "\<not> has_space s \<Longrightarrow> lead_space s = 0"
  by (cases s) auto

lemma has_space_append: "\<not> has_space (xs @ ys) \<Longrightarrow> \<not> has_space ys"
  by (induction xs) auto

lemma has_space_trail:
  assumes "\<not> has_space s" shows "trail_space (rev s) = 0"
proof -
  have e: "\<not> has_space ys" if "s = xs @ ys" for xs ys
    using assms that has_space_append by blast
  consider "s = []" | a where "s = [a]" | a b where "s = [a, b]"
    | xs a b c where "s = xs @ [a, b, c]"
    by (metis append.assoc append_Cons append_Nil rev_exhaust)
  then show ?thesis
  proof cases
    case 1 then show ?thesis by simp
  next
    case 2 with assms show ?thesis by (auto split: if_splits)
  next
    case 3 with assms show ?thesis by (auto split: if_splits)
  next
    case (4 xs a b c)
    have "\<not> has_space [a, b, c]" "\<not> has_space [b, c]" "\<not> has_space [c]"
      using e[of xs "[a, b, c]"] e[of "xs @ [a]" "[b, c]"] e[of "xs @ [a, b]" "[c]"] 4 by auto
    with 4 show ?thesis by (auto split: if_splits)
  qed
qed

lemma TrimSpace_no_space: "\<not> has_space s \<Longrightarrow> TrimSpace s = s"
  by (simp add: TrimSpace_def trim_left_id has_space_lead trim_rev_id has_space_trail)

lemma TrimSpace_Nil [simp]: "TrimSpace [] = []"
  by (simp add: TrimSpace_def trim_left_id trim_rev_id)

lemma trim_rev_length: "length (trim_rev s) \<le> length s"
proof (induction s rule: trim_rev.induct)
  case (1 s)
  then show ?case by (subst trim_rev.simps) (force simp: Let_def)
qed

lemma TrimSpace_length: "length (TrimSpace s) \<le> length s"
  unfolding TrimSpace_def using trim_left_length[of s] trim_rev_length[of "rev (trim_left s)"] by simp

section \<open>UTF-8\<close>

text \<open>
  How many bytes the encoding at the front takes, 0 when the front byte
  starts no well-formed rune (\<open>utf8.DecodeRuneInString\<close> reports
  \<open>RuneError\<close> with width 1 there).
\<close>

definition cont_byte :: "nat \<Rightarrow> bool" where
  "cont_byte n = (0x80 \<le> n \<and> n \<le> 0xBF)"

definition second_ok :: "nat \<Rightarrow> nat \<Rightarrow> bool" where
  "second_ok b c =
     (if b = 0xE0 then 0xA0 \<le> c \<and> c \<le> 0xBF
      else if b = 0xED then 0x80 \<le> c \<and> c \<le> 0x9F
      else if b = 0xF0 then 0x90 \<le> c \<and> c \<le> 0xBF
      else if b = 0xF4 then 0x80 \<le> c \<and> c \<le> 0x8F
      else cont_byte c)"

definition rune_len :: "string \<Rightarrow> nat" where
  "rune_len s =
     (case map (of_char :: char \<Rightarrow> nat) (take 4 s) of
        [] \<Rightarrow> 0
      | b # r \<Rightarrow>
          if b < 0x80 then 1
          else if 0xC2 \<le> b \<and> b \<le> 0xDF then
            (case r of c # _ \<Rightarrow> if cont_byte c then 2 else 0 | [] \<Rightarrow> 0)
          else if 0xE0 \<le> b \<and> b \<le> 0xEF then
            (case r of c # d # _ \<Rightarrow> if second_ok b c \<and> cont_byte d then 3 else 0 | _ \<Rightarrow> 0)
          else if 0xF0 \<le> b \<and> b \<le> 0xF4 then
            (case r of c # d # e # _ \<Rightarrow> if second_ok b c \<and> cont_byte d \<and> cont_byte e then 4 else 0 | _ \<Rightarrow> 0)
          else 0)"

function valid_utf8 :: "string \<Rightarrow> bool" where
  "valid_utf8 s =
     (if s = [] then True else if rune_len s = 0 then False else valid_utf8 (drop (rune_len s) s))"
  by pat_completeness auto
termination
  by (relation "measure length") auto

text \<open>\<open>strings.ToValidUTF8(s, "")\<close>: the bytes of no rune are left out.\<close>

function to_valid_utf8 :: "string \<Rightarrow> string" where
  "to_valid_utf8 s =
     (if s = [] then []
      else if rune_len s = 0 then to_valid_utf8 (drop 1 s)
      else take (rune_len s) s @ to_valid_utf8 (drop (rune_len s) s))"
  by pat_completeness auto
termination
  by (relation "measure length") auto

declare valid_utf8.simps [simp del] to_valid_utf8.simps [simp del]

lemma to_valid_utf8_id: "valid_utf8 s \<Longrightarrow> to_valid_utf8 s = s"
proof (induction s rule: valid_utf8.induct)
  case (1 s)
  show ?case
  proof (cases "s = []")
    case True then show ?thesis by (simp add: to_valid_utf8.simps)
  next
    case False
    with "1.prems" have n: "rune_len s \<noteq> 0" and v: "valid_utf8 (drop (rune_len s) s)"
      using valid_utf8.simps[of s] by (auto split: if_splits)
    from "1.IH" False n v have "to_valid_utf8 (drop (rune_len s) s) = drop (rune_len s) s"
      by blast
    with False n show ?thesis by (simp add: to_valid_utf8.simps[of s])
  qed
qed

end
