(* ===== verification/Go_Regex.thy ===== *)
theory Go_Regex
  imports Go_Prelude
begin

text \<open>
  The fragment of Go's \<open>regexp\<close> the service's anchored patterns use: classes,
  sequence, alternation and bounded repetition, matched by derivatives.  The
  language of a pattern is \<open>rx_lang\<close>, and \<open>rx_match_iff\<close> says the matcher
  decides it, so a proof about a pattern never unfolds the matcher.
\<close>

datatype rx = RNone | REps | RCls "char \<Rightarrow> bool" | RAlt rx rx | RSeq rx rx

fun rx_nullable :: "rx \<Rightarrow> bool" where
  "rx_nullable RNone = False"
| "rx_nullable REps = True"
| "rx_nullable (RCls p) = False"
| "rx_nullable (RAlt r s) = (rx_nullable r \<or> rx_nullable s)"
| "rx_nullable (RSeq r s) = (rx_nullable r \<and> rx_nullable s)"

fun rx_alt :: "rx \<Rightarrow> rx \<Rightarrow> rx" where
  "rx_alt RNone s = s"
| "rx_alt r RNone = r"
| "rx_alt r s = RAlt r s"

fun rx_seq :: "rx \<Rightarrow> rx \<Rightarrow> rx" where
  "rx_seq RNone s = RNone"
| "rx_seq REps s = s"
| "rx_seq r s = RSeq r s"

fun rx_deriv :: "char \<Rightarrow> rx \<Rightarrow> rx" where
  "rx_deriv c RNone = RNone"
| "rx_deriv c REps = RNone"
| "rx_deriv c (RCls p) = (if p c then REps else RNone)"
| "rx_deriv c (RAlt r s) = rx_alt (rx_deriv c r) (rx_deriv c s)"
| "rx_deriv c (RSeq r s) =
     (if rx_nullable r then rx_alt (rx_seq (rx_deriv c r) s) (rx_deriv c s)
      else rx_seq (rx_deriv c r) s)"

fun rx_match :: "rx \<Rightarrow> string \<Rightarrow> bool" where
  "rx_match r [] = rx_nullable r"
| "rx_match r (c # cs) = rx_match (rx_deriv c r) cs"

fun rx_lit :: "string \<Rightarrow> rx" where
  "rx_lit [] = REps"
| "rx_lit (c # cs) = RSeq (RCls (\<lambda>x. x = c)) (rx_lit cs)"

fun rx_alts :: "rx list \<Rightarrow> rx" where
  "rx_alts [] = RNone"
| "rx_alts [r] = r"
| "rx_alts (r # s # rs) = RAlt r (rx_alts (s # rs))"

definition rx_opt :: "rx \<Rightarrow> rx" where
  "rx_opt r = RAlt REps r"

text \<open>\<open>r{n}\<close> and \<open>r{0,n}\<close>.\<close>

fun rx_times :: "nat \<Rightarrow> rx \<Rightarrow> rx" where
  "rx_times 0 r = REps"
| "rx_times (Suc n) r = RSeq r (rx_times n r)"

fun rx_upto :: "nat \<Rightarrow> rx \<Rightarrow> rx" where
  "rx_upto 0 r = REps"
| "rx_upto (Suc n) r = RAlt REps (RSeq r (rx_upto n r))"

fun rx_lang :: "rx \<Rightarrow> string set" where
  "rx_lang RNone = {}"
| "rx_lang REps = {[]}"
| "rx_lang (RCls p) = {[c] |c. p c}"
| "rx_lang (RAlt r s) = rx_lang r \<union> rx_lang s"
| "rx_lang (RSeq r s) = {u @ v |u v. u \<in> rx_lang r \<and> v \<in> rx_lang s}"

lemma rx_nullable_iff: "rx_nullable r = ([] \<in> rx_lang r)"
  by (induction r) auto

lemma rx_lang_alt [simp]: "rx_lang (rx_alt r s) = rx_lang r \<union> rx_lang s"
  by (induction r s rule: rx_alt.induct) auto

lemma rx_lang_seq [simp]: "rx_lang (rx_seq r s) = rx_lang (RSeq r s)"
  by (induction r s rule: rx_seq.induct) auto

lemma rx_deriv_iff: "cs \<in> rx_lang (rx_deriv c r) \<longleftrightarrow> c # cs \<in> rx_lang r"
proof (induction r arbitrary: cs)
  case (RSeq r s)
  have "c # cs \<in> rx_lang (RSeq r s) \<longleftrightarrow>
      (rx_nullable r \<and> c # cs \<in> rx_lang s) \<or>
      (\<exists>u v. cs = u @ v \<and> c # u \<in> rx_lang r \<and> v \<in> rx_lang s)"
    by (auto simp: rx_nullable_iff Cons_eq_append_conv)
  with RSeq show ?case by auto
qed (auto split: if_splits)

theorem rx_match_iff: "rx_match r s \<longleftrightarrow> s \<in> rx_lang r"
  by (induction s arbitrary: r) (simp_all add: rx_nullable_iff rx_deriv_iff)

lemma rx_lang_lit [simp]: "rx_lang (rx_lit s) = {s}"
  by (induction s) auto

lemma rx_lang_opt [simp]: "rx_lang (rx_opt r) = insert [] (rx_lang r)"
  by (simp add: rx_opt_def)

lemma rx_lang_upto_set:
  assumes "\<And>t. t \<in> rx_lang r \<Longrightarrow> set t \<subseteq> A"
  shows "s \<in> rx_lang (rx_upto n r) \<Longrightarrow> set s \<subseteq> A"
proof (induction n arbitrary: s)
  case (Suc n)
  then show ?case using assms by fastforce
qed simp

end
