(* ===== verification/Validation.thy ===== *)
theory Validation
  imports Go_Regex
begin

text \<open>
  \<open>internal/core/domain/validation.go\<close> and \<open>list_expressions.go\<close>: the
  validators every input of the service goes through, with the list of errors
  they accumulate.  What the file takes from outside the repository (Unicode
  tables and case mapping, \<open>net/mail\<close>, \<open>net/url\<close>, the query parsers of
  \<open>qfv\<close>) is a field of a record the definitions take as an argument.
\<close>

section \<open>Errors\<close>

record ValidationError =
  Field :: string
  Message :: string
  Code :: string

text \<open>
  What \<open>Add\<close> tells apart: one \<open>ValidationError\<close>, several
  (\<open>ValidationErrors\<close>), or any other error, of which it keeps the text.
\<close>

datatype verror = VOne ValidationError | VMany "ValidationError list" | VOther string

abbreviation verr :: "string \<Rightarrow> string \<Rightarrow> string \<Rightarrow> ValidationError" where
  "verr f m c \<equiv> \<lparr>Field = f, Message = m, Code = c\<rparr>"

fun Add :: "ValidationError list \<Rightarrow> verror option \<Rightarrow> ValidationError list" where
  "Add errs None = errs"
| "Add errs (Some (VOne e)) = errs @ [e]"
| "Add errs (Some (VMany es)) = errs @ es"
| "Add errs (Some (VOther t)) = errs @ [verr [] t ''VALIDATION_ERROR'']"

definition AddError :: "ValidationError list \<Rightarrow> string \<Rightarrow> string \<Rightarrow> string \<Rightarrow> ValidationError list" where
  "AddError errs field message code = errs @ [verr field message code]"

definition HasErrors :: "ValidationError list \<Rightarrow> bool" where
  "HasErrors errs = (length errs > 0)"

definition ValidationError_Error :: "ValidationError \<Rightarrow> string" where
  "ValidationError_Error e =
     ''validation error in field '' @ [CHR 0x27] @ Field e @ [CHR 0x27] @ '': '' @ Message e"

definition ValidationErrors_Error :: "ValidationError list \<Rightarrow> string" where
  "ValidationErrors_Error es =
     (case es of
        [e] \<Rightarrow> ValidationError_Error e
      | _ \<Rightarrow> ''validation failed with '' @ itoa (int (length es)) @ '' errors: '' @
             join_with '', '' (map ValidationError_Error es))"

text \<open>\<open>if errs.HasErrors() { return &errs }; return nil\<close>, the end of every \<open>Validate\<close>.\<close>

definition errs_result :: "ValidationError list \<Rightarrow> verror option" where
  "errs_result errs = (if HasErrors errs then Some (VMany errs) else None)"

lemma Add_eq_append: "\<exists>x. Add errs o_err = errs @ x \<and> (o_err = None \<longrightarrow> x = [])"
  by (cases "(errs, o_err)" rule: Add.cases) auto

lemma Add_VOne_ne [simp]: "Add errs (Some (VOne e)) \<noteq> []"
  by simp

lemma AddError_ne [simp]: "AddError errs f m c \<noteq> []"
  by (simp add: AddError_def)

lemma errs_result_None [simp]: "errs_result errs = None \<longleftrightarrow> errs = []"
  by (simp add: errs_result_def HasErrors_def)

section \<open>Strings\<close>

definition MaxStringLength :: int where "MaxStringLength = 10000"
definition MaxEmailLength :: int where "MaxEmailLength = 254"
definition MaxURLLength :: int where "MaxURLLength = 2048"
definition MaxPaginationLimit :: int where "MaxPaginationLimit = 1000"
definition MaxFilterExpressionLength :: int where "MaxFilterExpressionLength = 2048"
definition MaxSortExpressionLength :: int where "MaxSortExpressionLength = 1024"
definition MaxFieldsExpressionLength :: int where "MaxFieldsExpressionLength = 1024"
definition MinPasswordComplexityScore :: int where "MinPasswordComplexityScore = 3"
definition ValidUserEmailMinLength :: int where "ValidUserEmailMinLength = 6"
definition ValidUserPasswordMinLength :: int where "ValidUserPasswordMinLength = 8"
definition ValidUserPasswordMaxLength :: int where "ValidUserPasswordMaxLength = 72"

lemmas length_bounds =
  MaxStringLength_def MaxEmailLength_def MaxURLLength_def MaxPaginationLimit_def
  MaxFilterExpressionLength_def MaxSortExpressionLength_def MaxFieldsExpressionLength_def
  MinPasswordComplexityScore_def ValidUserEmailMinLength_def ValidUserPasswordMinLength_def
  ValidUserPasswordMaxLength_def

record StringValidationOptions =
  FieldName :: string
  MinLength :: int
  MaxLength :: int
  TrimWhitespace :: bool
  AllowEmpty :: bool
  NoControlChars :: bool
  NoHTMLTags :: bool
  NoScriptTags :: bool
  NoNullBytes :: bool
  NormalizeUnicode :: bool

text \<open>\<open>[\x00-\x1f\x7f]\<close>: a class of one-byte runes.\<close>

definition control_char :: "char \<Rightarrow> bool" where
  "control_char c = (let n = (of_char c :: nat) in n < 32 \<or> n = 127)"

definition controlCharRegex :: "string \<Rightarrow> bool" where
  "controlCharRegex s = list_ex control_char s"

text \<open>\<open><[^>]*>\<close>: some \<open><\<close> with a \<open>>\<close> after it.\<close>

definition htmlTagRegex :: "string \<Rightarrow> bool" where
  "htmlTagRegex s = List.member (dropWhile (\<lambda>c. c \<noteq> CHR ''<'') s) (CHR ''>'')"

text \<open>
  \<open>(?i)<script[^>]*>.*?</script>\<close>.  Case folding lets the two bytes of
  U+017F stand for an \<open>s\<close>; \<open>.\<close> does not match a line feed.
\<close>

definition ascii_lower :: "char \<Rightarrow> char" where
  "ascii_lower c = (let n = (of_char c :: nat) in if 65 \<le> n \<and> n \<le> 90 then char_of (n + 32) else c)"

fun eat_ci :: "string \<Rightarrow> string \<Rightarrow> string option" where
  "eat_ci [] s = Some s"
| "eat_ci (p # ps) [] = None"
| "eat_ci (p # ps) (c # cs) =
     (if ascii_lower c = p then eat_ci ps cs
      else if p = CHR ''s'' \<and> c = CHR 0xC5 \<and> take 1 cs = [CHR 0xBF] then eat_ci ps (drop 1 cs)
      else None)"

fun closes_script :: "string \<Rightarrow> bool" where
  "closes_script [] = False"
| "closes_script (c # cs) =
     (eat_ci ''</script>'' (c # cs) \<noteq> None \<or> (c \<noteq> CHR 0x0A \<and> closes_script cs))"

fun scriptTagRegex :: "string \<Rightarrow> bool" where
  "scriptTagRegex [] = False"
| "scriptTagRegex (c # cs) =
     ((case eat_ci ''<script'' (c # cs) of
         None \<Rightarrow> False
       | Some r \<Rightarrow> (case dropWhile (\<lambda>x. x \<noteq> CHR ''>'') r of [] \<Rightarrow> False | _ # r' \<Rightarrow> closes_script r'))
      \<or> scriptTagRegex cs)"

definition ValidateString :: "string \<Rightarrow> StringValidationOptions \<Rightarrow> ValidationError + string" where
  "ValidateString value0 opts =
    (if value0 = [] \<and> AllowEmpty opts then Inr []
     else let value = (if TrimWhitespace opts then TrimSpace value0 else value0); n = int (length value) in
     if value = [] \<and> \<not> AllowEmpty opts then Inl (verr (FieldName opts) ''cannot be empty'' ''REQUIRED'')
     else if n > MaxStringLength then
       Inl (verr (FieldName opts) (''exceeds maximum length of '' @ itoa MaxStringLength @ '' characters'') ''TOO_LONG'')
     else if MinLength opts > 0 \<and> MaxLength opts > 0 \<and> (n < MinLength opts \<or> n > MaxLength opts) then
       Inl (verr (FieldName opts)
         (''must be between '' @ itoa (MinLength opts) @ '' and '' @ itoa (MaxLength opts) @ '' characters'') ''INVALID_LENGTH'')
     else if \<not> (MinLength opts > 0 \<and> MaxLength opts > 0) \<and> n < MinLength opts then
       Inl (verr (FieldName opts) (''must be at least '' @ itoa (MinLength opts) @ '' characters long'') ''TOO_SHORT'')
     else if \<not> (MinLength opts > 0 \<and> MaxLength opts > 0) \<and> MaxLength opts > 0 \<and> n > MaxLength opts then
       Inl (verr (FieldName opts) (''must be at most '' @ itoa (MaxLength opts) @ '' characters long'') ''TOO_LONG'')
     else if NoNullBytes opts \<and> Contains value [CHR 0x00] then
       Inl (verr (FieldName opts) ''contains invalid null bytes'' ''INVALID_CHARACTERS'')
     else if NoControlChars opts \<and> controlCharRegex value then
       Inl (verr (FieldName opts) ''contains invalid control characters'' ''INVALID_CHARACTERS'')
     else if NoHTMLTags opts \<and> htmlTagRegex value then
       Inl (verr (FieldName opts) ''contains HTML tags which are not allowed'' ''INVALID_CONTENT'')
     else if NoScriptTags opts \<and> scriptTagRegex value then
       Inl (verr (FieldName opts) ''contains script tags which are not allowed'' ''INVALID_CONTENT'')
     else if \<not> valid_utf8 value then
       Inl (verr (FieldName opts) ''contains invalid UTF-8 characters'' ''INVALID_ENCODING'')
     else if NormalizeUnicode opts then
       (let normalized = to_valid_utf8 value in if normalized \<noteq> value then Inr normalized else Inr value)
     else Inr value)"

text \<open>The \<open>error\<close> half of a \<open>(string, error)\<close> result.\<close>

definition err_of :: "ValidationError + 'a \<Rightarrow> verror option" where
  "err_of r = (case r of Inl e \<Rightarrow> Some (VOne e) | Inr _ \<Rightarrow> None)"

lemma err_of_simps [simp]: "err_of (Inl e) = Some (VOne e)" "err_of (Inr a) = None"
  by (simp_all add: err_of_def)

definition ValidateUUID :: "uuid \<Rightarrow> int \<Rightarrow> string \<Rightarrow> verror option" where
  "ValidateUUID u requiredVersion fieldName =
    (if u = uuid_nil then Some (VOne (verr fieldName ''UUID cannot be nil or empty'' ''REQUIRED''))
     else if requiredVersion > 0 \<and> UUIDVersion u \<noteq> requiredVersion then
       Some (VOne (verr fieldName (''UUID must be version '' @ itoa requiredVersion) ''INVALID_VERSION''))
     else None)"

lemma ValidateUUID_7 [simp]: "ValidateUUID u 7 f = None \<longleftrightarrow> IsUUIDV7 u"
  by (simp add: ValidateUUID_def IsUUIDV7_def)

section \<open>Passwords, addresses and URLs\<close>

text \<open>
  \<open>to_lower\<close> is \<open>strings.ToLower\<close>, the predicates are those of package
  \<open>unicode\<close> on code points, \<open>parse_address\<close> is \<open>mail.ParseAddress\<close>
  (the \<open>Address\<close> field of the result) and \<open>parse_url\<close> is \<open>url.Parse\<close>
  (scheme, host, and what \<open>String\<close> renders).
\<close>

record text_env =
  to_lower :: "string \<Rightarrow> string"
  is_lower :: "nat \<Rightarrow> bool"
  is_upper :: "nat \<Rightarrow> bool"
  is_digit :: "nat \<Rightarrow> bool"
  is_punct :: "nat \<Rightarrow> bool"
  is_symbol :: "nat \<Rightarrow> bool"
  parse_address :: "string \<Rightarrow> string option"
  parse_url :: "string \<Rightarrow> (string \<times> string \<times> string) option"

text \<open>The runes a \<open>range\<close> over a string yields; an invalid byte is U+FFFD.\<close>

definition rune_at :: "string \<Rightarrow> nat" where
  "rune_at s =
     (case map (of_char :: char \<Rightarrow> nat) (take (rune_len s) s) of
        [b] \<Rightarrow> b
      | [b, c] \<Rightarrow> (b - 0xC0) * 64 + (c - 0x80)
      | [b, c, d] \<Rightarrow> ((b - 0xE0) * 64 + (c - 0x80)) * 64 + (d - 0x80)
      | [b, c, d, e] \<Rightarrow> (((b - 0xF0) * 64 + (c - 0x80)) * 64 + (d - 0x80)) * 64 + (e - 0x80)
      | _ \<Rightarrow> 0xFFFD)"

function runes :: "string \<Rightarrow> nat list" where
  "runes s = (if s = [] then [] else rune_at s # runes (drop (max 1 (rune_len s)) s))"
  by pat_completeness auto
termination
  by (relation "measure length") auto

declare runes.simps [simp del]

text \<open>The class of a rune, in the order of the \<open>switch\<close>.\<close>

datatype rune_class = CLower | CUpper | CDigit | CSpecial | CNone

definition classify :: "'a text_env_scheme \<Rightarrow> nat \<Rightarrow> rune_class" where
  "classify env r =
     (if is_lower env r then CLower else if is_upper env r then CUpper
      else if is_digit env r then CDigit else if is_punct env r \<or> is_symbol env r then CSpecial else CNone)"

definition calculatePasswordComplexity :: "'a text_env_scheme \<Rightarrow> string \<Rightarrow> int" where
  "calculatePasswordComplexity env password =
     (let cs = map (classify env) (runes password) in
        of_bool (List.member cs CLower) + of_bool (List.member cs CUpper) + of_bool (List.member cs CDigit)
      + of_bool (List.member cs CSpecial) + of_bool (int (length password) \<ge> 12))"

definition commonPasswords :: "string list" where
  "commonPasswords = [
    ''password'', ''passw0rd'', ''password1'', ''password12'', ''password123'', ''password1234'',
    ''p@ssw0rd'', ''p@ssword'', ''123456'', ''1234567'', ''12345678'', ''123456789'',
    ''1234567890'', ''12345678910'', ''987654321'', ''1q2w3e4r'', ''1qaz2wsx'', ''qwerty'',
    ''qwerty123'', ''qwertyuiop'', ''qwerty1234'', ''asdfgh'', ''asdfghjkl'', ''zxcvbnm'',
    ''abc123'', ''abcd1234'', ''abcdefgh'', ''a1b2c3d4'', ''letmein'', ''welcome'', ''welcome1'',
    ''welcome123'', ''admin'', ''admin123'', ''administrator'', ''root'', ''toor'', ''user'',
    ''guest'', ''test'', ''test123'', ''testtest'', ''changeme'', ''default'', ''secret'',
    ''iloveyou'', ''monkey'', ''dragon'', ''sunshine'', ''princess'', ''football'', ''baseball'',
    ''master'', ''superman'', ''batman'', ''trustno1'', ''whatever'', ''111111'', ''11111111'',
    ''000000'', ''00000000'', ''121212'', ''123123'', ''123321'', ''654321'', ''666666'',
    ''888888'', ''aaaaaa'', ''aaaaaaaa'', ''zaq12wsx'', ''michael'', ''jennifer'', ''computer'',
    ''internet'', ''login'', ''starwars'', ''hello123'']"

definition ValidatePassword :: "'a text_env_scheme \<Rightarrow> string \<Rightarrow> string \<Rightarrow> verror option" where
  "ValidatePassword env password fieldName =
    (if password = [] then Some (VOne (verr fieldName ''password is required'' ''REQUIRED''))
     else if int (length password) < ValidUserPasswordMinLength then
       Some (VOne (verr fieldName
         (''password must be at least '' @ itoa ValidUserPasswordMinLength @ '' characters long'') ''TOO_SHORT''))
     else if int (length password) > ValidUserPasswordMaxLength then
       Some (VOne (verr fieldName
         (''password must be at most '' @ itoa ValidUserPasswordMaxLength @ '' characters long'') ''TOO_LONG''))
     else if List.member commonPasswords (to_lower env password) then
       Some (VOne (verr fieldName ''password is too common and easily guessable'' ''WEAK_PASSWORD''))
     else if calculatePasswordComplexity env password < MinPasswordComplexityScore then
       Some (VOne (verr fieldName
         ''password must contain a mix of uppercase, lowercase, numbers, and special characters'' ''WEAK_PASSWORD''))
     else None)"

definition ValidateLoginPassword :: "string \<Rightarrow> string \<Rightarrow> verror option" where
  "ValidateLoginPassword password fieldName =
    (if password = [] then Some (VOne (verr fieldName ''password is required'' ''REQUIRED''))
     else if int (length password) > ValidUserPasswordMaxLength then
       Some (VOne (verr fieldName
         (''password must be at most '' @ itoa ValidUserPasswordMaxLength @ '' characters long'') ''TOO_LONG''))
     else None)"

definition ValidateEmail :: "'a text_env_scheme \<Rightarrow> string \<Rightarrow> string \<Rightarrow> ValidationError + string" where
  "ValidateEmail env email0 fieldName =
    (if email0 = [] then Inl (verr fieldName ''email address is required'' ''REQUIRED'')
     else let email = TrimSpace (to_lower env email0);
       invalid = verr fieldName ''invalid email format'' ''INVALID_FORMAT'';
       short = verr fieldName
         (''email address must be at least '' @ itoa ValidUserEmailMinLength @ '' characters long'') ''TOO_SHORT'' in
     if int (length email) > MaxEmailLength then
       Inl (verr fieldName
         (''email address exceeds maximum length of '' @ itoa MaxEmailLength @ '' characters'') ''TOO_LONG'')
     else if int (length email) < ValidUserEmailMinLength then Inl short
     else case parse_address env email of
       None \<Rightarrow> Inl invalid
     | Some normalizedEmail \<Rightarrow>
         if parse_address env normalizedEmail \<noteq> Some normalizedEmail \<or> has_space normalizedEmail then Inl invalid
         else if int (length normalizedEmail) < ValidUserEmailMinLength then Inl short
         else (case split_on (CHR ''@'') normalizedEmail of
           [localPart, domain] \<Rightarrow>
             if length localPart = 0 \<or> length localPart > 64 then
               Inl (verr fieldName ''email local part must be between 1 and 64 characters'' ''INVALID_FORMAT'')
             else if length domain = 0 \<or> length domain > 253 then
               Inl (verr fieldName ''email domain must be between 1 and 253 characters'' ''INVALID_FORMAT'')
             else if Contains normalizedEmail ''..'' then
               Inl (verr fieldName ''email contains consecutive dots'' ''INVALID_FORMAT'')
             else Inr normalizedEmail
         | _ \<Rightarrow> Inl invalid))"

definition ValidateURL :: "'a text_env_scheme \<Rightarrow> string \<Rightarrow> string \<Rightarrow> ValidationError + string" where
  "ValidateURL env url0 fieldName =
    (if url0 = [] then Inl (verr fieldName ''URL is required'' ''REQUIRED'')
     else let urlStr = TrimSpace url0 in
     if int (length urlStr) > MaxURLLength then
       Inl (verr fieldName (''URL exceeds maximum length of '' @ itoa MaxURLLength @ '' characters'') ''TOO_LONG'')
     else case parse_url env urlStr of
       None \<Rightarrow> Inl (verr fieldName ''invalid URL format'' ''INVALID_FORMAT'')
     | Some (scheme, host, rendered) \<Rightarrow>
         if scheme \<noteq> ''http'' \<and> scheme \<noteq> ''https'' then
           Inl (verr fieldName ''URL must use http or https scheme'' ''INVALID_SCHEME'')
         else if host = [] then Inl (verr fieldName ''URL must have a valid host'' ''INVALID_HOST'')
         else Inr rendered)"

section \<open>Pagination limits and list expressions\<close>

definition ValidatePagination :: "int \<Rightarrow> int \<Rightarrow> string \<Rightarrow> verror option" where
  "ValidatePagination limit offset fieldPrefix =
    (if limit < 0 then Some (VOne (verr (fieldPrefix @ ''limit'') ''limit cannot be negative'' ''INVALID_VALUE''))
     else if limit > MaxPaginationLimit then
       Some (VOne (verr (fieldPrefix @ ''limit'') (''limit cannot exceed '' @ itoa MaxPaginationLimit) ''TOO_LARGE''))
     else if offset < 0 then
       Some (VOne (verr (fieldPrefix @ ''offset'') ''offset cannot be negative'' ''INVALID_VALUE''))
     else None)"

definition ValidateFilterExpression :: "string \<Rightarrow> string \<Rightarrow> verror option" where
  "ValidateFilterExpression expr fieldName =
    (if expr = [] then None
     else if int (length expr) > MaxFilterExpressionLength then
       Some (VOne (verr fieldName
         (''filter expression exceeds maximum length of '' @ itoa MaxFilterExpressionLength @ '' characters'') ''TOO_LONG''))
     else None)"

definition ValidateSortExpression :: "string \<Rightarrow> string \<Rightarrow> verror option" where
  "ValidateSortExpression expr fieldName =
    (if expr = [] then None
     else if int (length expr) > MaxSortExpressionLength then
       Some (VOne (verr fieldName
         (''sort expression exceeds maximum length of '' @ itoa MaxSortExpressionLength @ '' characters'') ''TOO_LONG''))
     else None)"

definition ValidateFieldsExpression :: "string \<Rightarrow> string \<Rightarrow> verror option" where
  "ValidateFieldsExpression expr fieldName =
    (if expr = [] then None
     else if int (length expr) > MaxFieldsExpressionLength then
       Some (VOne (verr fieldName
         (''fields expression exceeds maximum length of '' @ itoa MaxFieldsExpressionLength @ '' characters'') ''TOO_LONG''))
     else None)"

text \<open>
  A \<open>qfv\<close> parser is its verdict on an expression: \<open>None\<close> when it parses,
  otherwise the \<open>Field\<close> of every error it reports (\<open>qfvFieldNames\<close>).
\<close>

type_synonym qfv_parser = "string \<Rightarrow> string list option"

record listExpressions =
  sortParser :: qfv_parser
  filterParser :: qfv_parser
  fieldsParser :: qfv_parser
  le_sort :: string
  le_filter :: string
  le_fields :: string
  sortFields :: "string list"
  filterFields :: "string list"
  partialFields :: "string list"

text \<open>\<open>^[A-Za-z_][A-Za-z0-9_.]{0,63}$\<close>\<close>

definition ident_start :: "char \<Rightarrow> bool" where
  "ident_start c = (let n = (of_char c :: nat) in (65 \<le> n \<and> n \<le> 90) \<or> (97 \<le> n \<and> n \<le> 122) \<or> n = 95)"

definition ident_part :: "char \<Rightarrow> bool" where
  "ident_part c = (let n = (of_char c :: nat) in ident_start c \<or> (48 \<le> n \<and> n \<le> 57) \<or> n = 46)"

definition listIdentifier :: "string \<Rightarrow> bool" where
  "listIdentifier s = (case s of [] \<Rightarrow> False | c # cs \<Rightarrow> ident_start c \<and> list_all ident_part cs \<and> length cs \<le> 63)"

definition listExpressionError ::
  "string \<Rightarrow> string list \<Rightarrow> string list \<Rightarrow> string \<Rightarrow> string \<Rightarrow> ValidationError" where
  "listExpressionError field names allowed unknownSuffix invalid =
     (case find (\<lambda>name. listIdentifier name \<and> \<not> List.member allowed name) names of
        Some name \<Rightarrow> verr field ([CHR 0x27] @ name @ [CHR 0x27] @ unknownSuffix) ''INVALID_EXPRESSION''
      | None \<Rightarrow> verr field invalid ''INVALID_EXPRESSION'')"

definition boundedExpression ::
  "ValidationError list \<Rightarrow> string \<Rightarrow> string \<Rightarrow> (string \<Rightarrow> string \<Rightarrow> verror option) \<Rightarrow> ValidationError list \<times> string" where
  "boundedExpression errs expression field check =
     (case check expression field of Some e \<Rightarrow> (Add errs (Some e), []) | None \<Rightarrow> (errs, expression))"

definition parse_step ::
  "qfv_parser \<Rightarrow> string \<Rightarrow> (string list \<Rightarrow> ValidationError) \<Rightarrow> ValidationError list \<Rightarrow> ValidationError list" where
  "parse_step parser expression report errs =
     (if expression \<noteq> [] then
        (case parser expression of None \<Rightarrow> errs | Some names \<Rightarrow> Add errs (Some (VOne (report names))))
      else errs)"

definition validateListExpressions :: "ValidationError list \<Rightarrow> listExpressions \<Rightarrow> ValidationError list" where
  "validateListExpressions errs0 inp =
     (let (errs1, s) = boundedExpression errs0 (le_sort inp) ''sort'' ValidateSortExpression;
          (errs2, f) = boundedExpression errs1 (le_filter inp) ''filter'' ValidateFilterExpression;
          (errs3, p) = boundedExpression errs2 (le_fields inp) ''fields'' ValidateFieldsExpression;
          errs4 = parse_step (sortParser inp) s (\<lambda>ns. listExpressionError ''sort'' ns (sortFields inp)
             '' is not a sortable field'' (''must be a comma-separated list of '' @ [CHR 0x27] @ ''field asc'' @ [CHR 0x27] @
               '' or '' @ [CHR 0x27] @ ''field desc'' @ [CHR 0x27])) errs3;
          errs5 = parse_step (filterParser inp) f (\<lambda>ns. listExpressionError ''filter'' ns (filterFields inp)
             '' is not a filterable field'' ''is not a valid filter expression'') errs4
      in parse_step (fieldsParser inp) p (\<lambda>ns. listExpressionError ''fields'' ns (partialFields inp)
             '' is not a selectable field'' ''must be a comma-separated list of field names'') errs5)"

section \<open>What the validators promise\<close>

lemma eat_ci_set: "eat_ci ps s = Some r \<Longrightarrow> set r \<subseteq> set s"
proof (induction ps s rule: eat_ci.induct)
  case (3 p ps c cs)
  have "set (drop 1 cs) \<subseteq> set cs" by (rule set_drop_subset)
  with 3 show ?case by (fastforce split: if_splits)
qed auto

lemma eat_ci_lt:
  assumes "eat_ci (CHR ''<'' # ps) (c # cs) = Some r"
  shows "c = CHR ''<'' \<and> eat_ci ps cs = Some r"
proof -
  have e: "ascii_lower c = CHR ''<''" and r: "eat_ci ps cs = Some r"
    using assms by (auto split: if_splits)
  have "c = CHR ''<''"
  proof (cases "65 \<le> (of_char c :: nat) \<and> (of_char c :: nat) \<le> 90")
    case True
    then have "of_char (ascii_lower c) = (of_char c :: nat) + 32"
      by (simp add: ascii_lower_def)
    with True e show ?thesis by simp
  next
    case False
    then have "ascii_lower c = c" by (simp only: ascii_lower_def Let_def if_False)
    with e show ?thesis by simp
  qed
  with r show ?thesis by blast
qed

lemma htmlTagRegex_Cons: "htmlTagRegex cs \<Longrightarrow> htmlTagRegex (c # cs)"
  by (auto simp: htmlTagRegex_def dest: set_dropWhileD)

lemma scriptTagRegex_html: "scriptTagRegex s \<Longrightarrow> htmlTagRegex s"
proof (induction s)
  case (Cons c cs)
  show ?case
  proof (cases "scriptTagRegex cs")
    case True
    then have "htmlTagRegex cs" by (rule Cons.IH)
    then show ?thesis by (rule htmlTagRegex_Cons)
  next
    case False
    with Cons.prems obtain r where r: "eat_ci ''<script'' (c # cs) = Some r"
      and g: "dropWhile (\<lambda>x. x \<noteq> CHR ''>'') r \<noteq> []"
      unfolding scriptTagRegex.simps by (metis (no_types, lifting) list.simps(4) option.case_eq_if option.collapse)
    from r have c: "c = CHR ''<''" and r': "eat_ci ''script'' cs = Some r"
      using eat_ci_lt by blast+
    from g have "CHR ''>'' \<in> set r" by (auto simp: dropWhile_eq_Nil_conv)
    with eat_ci_set[OF r'] have "CHR ''>'' \<in> set cs" by auto
    with c show ?thesis by (simp add: htmlTagRegex_def)
  qed
qed simp

lemma Contains_single: "Contains s [c] \<longleftrightarrow> c \<in> set s"
  by (induction s) (auto simp: HasPrefix_def)

definition trimmed :: "StringValidationOptions \<Rightarrow> string \<Rightarrow> string" where
  "trimmed opts s = (if TrimWhitespace opts then TrimSpace s else s)"

definition length_ok :: "StringValidationOptions \<Rightarrow> string \<Rightarrow> bool" where
  "length_ok opts v =
     (let n = int (length v) in MinLength opts \<le> n \<and> (MaxLength opts > 0 \<longrightarrow> n \<le> MaxLength opts))"

text \<open>
  A string \<open>ValidateString\<close> accepts is the (trimmed) input itself, whatever
  \<open>NormalizeUnicode\<close> says, and it meets every rule the options switch on:
  the length bounds of the field and of the service, no null byte, no control
  character, no tag, and well-formed UTF-8.  The one exception is the empty
  string of an optional field, which skips the bounds.
\<close>

theorem ValidateString_accepts:
  assumes "ValidateString s opts = Inr v"
  shows "v = trimmed opts s \<and> valid_utf8 v \<and> int (length v) \<le> MaxStringLength
    \<and> (s \<noteq> [] \<or> \<not> AllowEmpty opts \<longrightarrow> length_ok opts v)
    \<and> (v = [] \<longrightarrow> AllowEmpty opts)
    \<and> (NoNullBytes opts \<longrightarrow> CHR 0x00 \<notin> set v)
    \<and> (NoControlChars opts \<longrightarrow> list_all (\<lambda>c. \<not> control_char c) v)
    \<and> (NoHTMLTags opts \<longrightarrow> \<not> htmlTagRegex v \<and> \<not> scriptTagRegex v)"
proof (cases "s = [] \<and> AllowEmpty opts")
  case True
  with assms have "v = []" by (simp add: ValidateString_def)
  with True show ?thesis
    by (simp add: trimmed_def length_bounds valid_utf8.simps htmlTagRegex_def)
next
  case False
  have v: "v = trimmed opts s" and u: "valid_utf8 v"
    using assms False to_valid_utf8_id[of "trimmed opts s"]
    by (auto simp: ValidateString_def trimmed_def Let_def split: if_splits)
  have r: "int (length v) \<le> MaxStringLength \<and> length_ok opts v \<and> (v = [] \<longrightarrow> AllowEmpty opts)
    \<and> (NoNullBytes opts \<longrightarrow> CHR 0x00 \<notin> set v) \<and> (NoControlChars opts \<longrightarrow> \<not> controlCharRegex v)
    \<and> (NoHTMLTags opts \<longrightarrow> \<not> htmlTagRegex v)"
    unfolding v using assms False
    by (simp add: ValidateString_def trimmed_def [symmetric] length_ok_def Let_def Contains_single split: if_split_asm)
      arith+
  then have "NoControlChars opts \<longrightarrow> list_all (\<lambda>c. \<not> control_char c) v"
    by (auto simp: controlCharRegex_def list_all_iff list_ex_iff)
  with v u r scriptTagRegex_html[of v] show ?thesis by blast
qed

definition name_opts :: StringValidationOptions where
  "name_opts = \<lparr>FieldName = ''name'', MinLength = 2, MaxLength = 100, TrimWhitespace = True,
     AllowEmpty = False, NoControlChars = True, NoHTMLTags = True, NoScriptTags = True,
     NoNullBytes = True, NormalizeUnicode = True\<rparr>"

lemma ValidateString_run: "ValidateString ''  burst '' name_opts = Inr ''burst''"
  by code_simp

theorem ValidateString_accepts_witness:
  "''burst'' = trimmed name_opts ''  burst '' \<and> length_ok name_opts ''burst''"
  using ValidateString_accepts[OF ValidateString_run] by (metis list.distinct(1))

text \<open>
  Where tags are refused the script-tag rule adds nothing: a text that
  holds a script element holds a tag, so \<open>NoScriptTags\<close> changes neither the
  verdict nor the message of a field that also sets \<open>NoHTMLTags\<close> (every
  field of the service sets both).
\<close>

theorem NoScriptTags_subsumed:
  assumes "NoHTMLTags opts"
  shows "ValidateString s (opts\<lparr>NoScriptTags := b\<rparr>) = ValidateString s opts"
proof -
  have "\<not> htmlTagRegex v \<Longrightarrow> \<not> scriptTagRegex v" for v
    using scriptTagRegex_html by blast
  with assms show ?thesis
    unfolding ValidateString_def Let_def
    by (simp cong: if_cong)
qed

theorem NoScriptTags_subsumed_witness:
  "ValidateString ''<script>x</script>'' (name_opts\<lparr>NoScriptTags := False\<rparr>)
     = ValidateString ''<script>x</script>'' name_opts"
  by (rule NoScriptTags_subsumed) (simp add: name_opts_def)

text \<open>
  What may be chosen as a password may be typed as one: every password
  \<open>ValidatePassword\<close> accepts passes \<open>ValidateLoginPassword\<close>, is one bcrypt
  compares in full (at most 72 bytes), is not on the list of common
  passwords in any case, and mixes at least three classes of runes when it is
  shorter than twelve bytes, two otherwise.
\<close>

theorem accepted_password:
  assumes "ValidatePassword env p f = None"
  shows "ValidateLoginPassword p g = None \<and> 8 \<le> length p \<and> length p \<le> 72
    \<and> to_lower env p \<notin> set commonPasswords
    \<and> card (classify env ` set (runes p) - {CNone}) \<ge> (if length p < 12 then 3 else 2)"
proof -
  have c: "of_bool (CLower \<in> S) + of_bool (CUpper \<in> S) + of_bool (CDigit \<in> S)
      + of_bool (CSpecial \<in> S) = int (card (S - {CNone}))" for S
  proof -
    have "S - {CNone} = (if CLower \<in> S then {CLower} else {}) \<union>
       (if CUpper \<in> S then {CUpper} else {}) \<union> (if CDigit \<in> S then {CDigit} else {})
       \<union> (if CSpecial \<in> S then {CSpecial} else {})"
      (is "_ = ?u")
    proof (rule set_eqI)
      fix x show "x \<in> S - {CNone} \<longleftrightarrow> x \<in> ?u" by (cases x) auto
    qed
    moreover have "int (card ?u) = of_bool (CLower \<in> S) + of_bool (CUpper \<in> S)
        + of_bool (CDigit \<in> S) + of_bool (CSpecial \<in> S)"
      by simp
    ultimately show ?thesis by simp
  qed
  have "3 \<le> calculatePasswordComplexity env p"
    and b: "8 \<le> length p \<and> length p \<le> 72 \<and> to_lower env p \<notin> set commonPasswords"
    using assms by (auto simp: ValidatePassword_def length_bounds List.member_iff split: if_split_asm)
  then have "card (classify env ` set (runes p) - {CNone}) \<ge> (if length p < 12 then 3 else 2)"
    by (cases "length p < 12") (simp_all add: calculatePasswordComplexity_def c)
  with b show ?thesis by (auto simp: ValidateLoginPassword_def length_bounds)
qed

text \<open>ASCII tables, for the concrete runs.\<close>

definition ascii_env :: text_env where
  "ascii_env = \<lparr>to_lower = map ascii_lower, is_lower = (\<lambda>r. 97 \<le> r \<and> r \<le> 122), is_upper = (\<lambda>r. 65 \<le> r \<and> r \<le> 90),
     is_digit = (\<lambda>r. 48 \<le> r \<and> r \<le> 57), is_punct = (\<lambda>r. List.member [33, 45, 46, 95] r),
     is_symbol = (\<lambda>r. List.member [36, 43, 61] r), parse_address = (\<lambda>s. Some s),
     parse_url = (\<lambda>s. Some (''https'', s, s))\<rparr>"

lemma runes_run: "runes ''Tr0ub4dor'' = [84, 114, 48, 117, 98, 52, 100, 111, 114]"
  by (simp add: runes.simps rune_at_def rune_len_def)

lemma complexity_run: "calculatePasswordComplexity ascii_env ''Tr0ub4dor'' = 3"
  unfolding calculatePasswordComplexity_def runes_run by code_simp

lemma not_common_run: "\<not> List.member commonPasswords (to_lower ascii_env ''Tr0ub4dor'')"
  by code_simp

lemma ValidatePassword_run: "ValidatePassword ascii_env ''Tr0ub4dor'' ''password'' = None"
  using complexity_run not_common_run by (simp add: ValidatePassword_def length_bounds)

theorem accepted_password_witness:
  "ValidateLoginPassword ''Tr0ub4dor'' ''password'' = None"
  using accepted_password[OF ValidatePassword_run] by blast

text \<open>
  Address validation is idempotent: an address it accepted is accepted
  again, unchanged, by a second check (the handler's and then the use case's).
  The hypotheses are that lower-casing leaves the accepted address alone and
  that \<open>net/mail\<close> never returns an address longer than what it parsed.
\<close>

theorem ValidateEmail_idempotent:
  assumes "ValidateEmail env e f = Inr v"
    and lower: "to_lower env v = v"
    and shorter: "\<And>s a. parse_address env s = Some a \<Longrightarrow> length a \<le> length s"
  shows "ValidateEmail env v g = Inr v \<and> 6 \<le> length v \<and> length v \<le> 254 \<and> \<not> has_space v"
proof -
  let ?e = "TrimSpace (to_lower env e)"
  from assms(1) have p: "parse_address env ?e = Some v" and r: "parse_address env v = Some v"
    and s: "\<not> has_space v" and n: "6 \<le> length v" "length ?e \<le> 254"
    and parts: "\<exists>l d. split_on (CHR ''@'') v = [l, d] \<and> \<not> (length l = 0 \<or> length l > 64)
      \<and> \<not> (length d = 0 \<or> length d > 253)" and dots: "\<not> Contains v ''..''"
    by (auto simp: ValidateEmail_def Let_def length_bounds split: if_splits option.splits list.splits)
  have l: "length v \<le> 254" using shorter[OF p] n by simp
  obtain lp d where "split_on (CHR ''@'') v = [lp, d]" "\<not> (length lp = 0 \<or> length lp > 64)"
    "\<not> (length d = 0 \<or> length d > 253)" using parts by blast
  with lower r s n l dots have "ValidateEmail env v g = Inr v"
    by (auto simp: ValidateEmail_def Let_def length_bounds TrimSpace_no_space)
  with n l s show ?thesis by simp
qed

lemma ValidateEmail_run: "ValidateEmail ascii_env '' Ada@Example.com'' ''email'' = Inr ''ada@example.com''"
  by code_simp

theorem ValidateEmail_idempotent_witness:
  "ValidateEmail ascii_env ''ada@example.com'' ''mail'' = Inr ''ada@example.com''"
proof -
  have "to_lower ascii_env ''ada@example.com'' = ''ada@example.com''" by code_simp
  moreover have "parse_address ascii_env s = Some a \<Longrightarrow> length a \<le> length s" for s a
    by (simp add: ascii_env_def)
  ultimately show ?thesis using ValidateEmail_idempotent[OF ValidateEmail_run] by blast
qed

lemma boundedExpression_length:
  assumes "boundedExpression errs e f check = (errs', e')"
    and "\<And>s. check s f = None \<Longrightarrow> int (length s) \<le> n" and "0 \<le> n"
  shows "int (length e') \<le> n"
  using assms by (auto simp: boundedExpression_def split: option.splits)

lemma expression_bounds:
  "ValidateSortExpression s f = None \<Longrightarrow> int (length s) \<le> MaxSortExpressionLength"
  "ValidateFilterExpression s f = None \<Longrightarrow> int (length s) \<le> MaxFilterExpressionLength"
  "ValidateFieldsExpression s f = None \<Longrightarrow> int (length s) \<le> MaxFieldsExpressionLength"
  by (auto simp: ValidateSortExpression_def ValidateFilterExpression_def ValidateFieldsExpression_def
      length_bounds split: if_splits)

lemma parse_step_cong:
  "p e = q e \<Longrightarrow> parse_step p e report errs = parse_step q e report errs"
  by (simp add: parse_step_def)

text \<open>
  No list parser is ever given an expression over its length: three
  parsers that agree with the configured ones on the expressions within bounds
  (and may do anything at all, overflow included, beyond them) give the same
  verdict on every input.
\<close>

theorem parsers_see_bounded_expressions:
  assumes "\<And>s. int (length s) \<le> MaxSortExpressionLength \<Longrightarrow> sp s = sortParser inp s"
    and "\<And>s. int (length s) \<le> MaxFilterExpressionLength \<Longrightarrow> fp s = filterParser inp s"
    and "\<And>s. int (length s) \<le> MaxFieldsExpressionLength \<Longrightarrow> pp s = fieldsParser inp s"
  shows "validateListExpressions errs (inp\<lparr>sortParser := sp, filterParser := fp, fieldsParser := pp\<rparr>)
    = validateListExpressions errs inp"
proof -
  obtain e1 s where 1: "boundedExpression errs (le_sort inp) ''sort'' ValidateSortExpression = (e1, s)"
    by fastforce
  obtain e2 f where 2: "boundedExpression e1 (le_filter inp) ''filter'' ValidateFilterExpression = (e2, f)"
    by fastforce
  obtain e3 p where 3: "boundedExpression e2 (le_fields inp) ''fields'' ValidateFieldsExpression = (e3, p)"
    by fastforce
  have "sp s = sortParser inp s"
    using boundedExpression_length[OF 1 expression_bounds(1)] assms(1) by (simp add: length_bounds)
  moreover have "fp f = filterParser inp f"
    using boundedExpression_length[OF 2 expression_bounds(2)] assms(2) by (simp add: length_bounds)
  moreover have "pp p = fieldsParser inp p"
    using boundedExpression_length[OF 3 expression_bounds(3)] assms(3) by (simp add: length_bounds)
  ultimately show ?thesis
    by (simp add: validateListExpressions_def 1 2 3 parse_step_def)
qed

definition demo_list :: listExpressions where
  "demo_list = \<lparr>sortParser = (\<lambda>s. if length s \<le> 1024 then None else Some []), filterParser = (\<lambda>_. Some [''nme'']),
     fieldsParser = (\<lambda>_. None), le_sort = replicate 1025 (CHR ''a''), le_filter = ''nme = 1'', le_fields = [],
     sortFields = [''name''], filterFields = [''name''], partialFields = [''name'']\<rparr>"

theorem parsers_see_bounded_expressions_witness:
  "validateListExpressions [] (demo_list\<lparr>sortParser := (\<lambda>_. None), filterParser := filterParser demo_list,
     fieldsParser := fieldsParser demo_list\<rparr>) = validateListExpressions [] demo_list"
  by (rule parsers_see_bounded_expressions) (simp_all add: demo_list_def length_bounds)

end
