(* ===== verification/RateLimitRules.thy ===== *)
theory RateLimitRules
  imports Validation "HOL-Library.Product_Lexorder" "HOL-Library.Multiset" "HOL-Library.AList"
begin

text \<open>
  \<open>internal/core/domain/rate_limits.go\<close> and \<open>rate_limits_resolution.go\<close>:
  a rate-limit rule and its windows, the validators of the create and update
  inputs, the enforceability check of the loader, and the ladder that picks
  the rules of a request.  Strings typed as \<open>RateLimitScope\<close> and the like stay
  strings, as in Go, so that the \<open>default\<close> branches are branches of the model.
\<close>

section \<open>Data\<close>

record RateLimitWindow =
  wCreatedAt :: instant
  wUpdatedAt :: instant
  wSystem :: "bool option"
  wPeriod :: duration
  wRequests :: int
  wBurst :: int
  wSerialID :: int
  wID :: uuid
  wRateLimit :: uuid

record RateLimit =
  rCreatedAt :: instant
  rUpdatedAt :: instant
  rSystem :: "bool option"
  rEnabled :: "bool option"
  rName :: string
  rDescription :: string
  rTarget :: string
  rTargetKind :: string
  rScope :: string
  rAudience :: string
  rStrategy :: string
  rMethods :: "string list"
  rWindows :: "RateLimitWindow list"
  rSerialID :: int
  rID :: uuid

definition validRateLimitStrategies :: "string list" where
  "validRateLimitStrategies = [''token_bucket'', ''leaky_bucket'']"

definition validRateLimitScopes :: "string list" where
  "validRateLimitScopes = [''ip'', ''user'', ''token'', ''project'', ''global'']"

definition validRateLimitAudiences :: "string list" where
  "validRateLimitAudiences = [''any'', ''guest'', ''auth'']"

definition validRateLimitTargetKinds :: "string list" where
  "validRateLimitTargetKinds = [''endpoint'', ''prefix'', ''global'']"

definition joinStrategies :: string where
  "joinStrategies = join_with '', '' validRateLimitStrategies"

text \<open>A returned \<open>fmt.Errorf\<close> is \<open>Some\<close> of its text.\<close>

definition IsValidRateLimitStrategy :: "string \<Rightarrow> string option" where
  "IsValidRateLimitStrategy s =
     (if s = [] then Some (''strategy cannot be empty, must be one of '' @ joinStrategies)
      else if \<not> List.member validRateLimitStrategies s then
        Some (''invalid strategy: '' @ s @ '', must be one of '' @ joinStrategies)
      else None)"

text \<open>\<open>^(\*|\/SEG(\/SEG){0,7}\/?)$\<close> where \<open>SEG\<close> is \<open>[a-z_]{1,50}\<close>, bare or in braces.\<close>

definition word_cls :: "char \<Rightarrow> bool" where
  "word_cls c = (let n = (of_char c :: nat) in (97 \<le> n \<and> n \<le> 122) \<or> n = 95)"

definition word_rx :: rx where
  "word_rx = RSeq (RCls word_cls) (rx_upto 49 (RCls word_cls))"

definition target_seg :: rx where
  "target_seg = RAlt word_rx (RSeq (rx_lit ''{'') (RSeq word_rx (rx_lit ''}'')))"

definition rateLimitTargetRe :: rx where
  "rateLimitTargetRe =
     RAlt (rx_lit ''*'')
       (RSeq (rx_lit ''/'') (RSeq target_seg (RSeq (rx_upto 7 (RSeq (rx_lit ''/'') target_seg)) (rx_opt (rx_lit ''/'')))))"

definition IsValidRateLimitTarget :: "string \<Rightarrow> string option" where
  "IsValidRateLimitTarget target =
     (if target = [] then Some ''target cannot be empty''
      else if \<not> rx_match rateLimitTargetRe target then
        Some (''invalid target: '' @ target @
          '', must be a route template such as /projects/{project_id}/generate, a prefix such as /projects/, or * for the global rule'')
      else None)"

definition EffectiveBurst :: "RateLimitWindow \<Rightarrow> int" where
  "EffectiveBurst w = (if wBurst w \<le> 0 then wRequests w else wBurst w)"

definition AnyMethod :: "RateLimit \<Rightarrow> bool" where
  "AnyMethod r = (length (rMethods r) = 1 \<and> rMethods r ! 0 = ''*'')"

definition MatchesMethod :: "RateLimit \<Rightarrow> string \<Rightarrow> bool" where
  "MatchesMethod r meth =
     (if AnyMethod r then True
      else if List.member (rMethods r) meth then True
      else meth = ''HEAD'' \<and> List.member (rMethods r) ''GET'')"

definition MatchesAudience :: "RateLimit \<Rightarrow> bool \<Rightarrow> bool" where
  "MatchesAudience r authenticated =
     (if rAudience r = ''any'' then True
      else if rAudience r = ''auth'' then authenticated
      else if rAudience r = ''guest'' then \<not> authenticated
      else False)"

definition IsEnabled :: "RateLimit \<Rightarrow> bool" where
  "IsEnabled r = (rEnabled r = None \<or> rEnabled r = Some True)"

definition IsSystem :: "RateLimit \<Rightarrow> bool" where
  "IsSystem r = (rSystem r = Some True)"

definition SortedWindows :: "RateLimit \<Rightarrow> RateLimitWindow list" where
  "SortedWindows r = sort_key wPeriod (rWindows r)"

definition DecidedPreAuth :: "string \<Rightarrow> bool" where
  "DecidedPreAuth scope = (scope = ''ip'' \<or> scope = ''global'')"

definition EnforceabilityProblem :: "RateLimit \<Rightarrow> string" where
  "EnforceabilityProblem r =
     (if length (rWindows r) = 0 then ''the rule has no window, so it carries no budget''
      else case IsValidRateLimitStrategy (rStrategy r) of
        Some e \<Rightarrow> ''the rule names a strategy no limiter can be built from: '' @ e
      | None \<Rightarrow> [])"

section \<open>Validation of the inputs\<close>

record CreateRateLimitInput =
  iEnabled :: "bool option"
  iName :: string
  iDescription :: string
  iTarget :: string
  iTargetKind :: string
  iScope :: string
  iAudience :: string
  iStrategy :: string
  iMethods :: "string list"
  iWindows :: "RateLimitWindow list"
  iID :: uuid

text \<open>\<open>UpdateRateLimitInput\<close> has the same fields and the same rules.\<close>

type_synonym UpdateRateLimitInput = CreateRateLimitInput

definition rl_string_opts :: "string \<Rightarrow> int \<Rightarrow> int \<Rightarrow> StringValidationOptions" where
  "rl_string_opts field mn mx = \<lparr>FieldName = field, MinLength = mn, MaxLength = mx, TrimWhitespace = True,
     AllowEmpty = False, NoControlChars = True, NoHTMLTags = True, NoScriptTags = True,
     NoNullBytes = True, NormalizeUnicode = True\<rparr>"

definition valid_actions :: "string list" where
  "valid_actions = [''GET'', ''POST'', ''PUT'', ''DELETE'', ''PATCH'', ''OPTIONS'', ''HEAD'', ''*'']"

definition GetValidActions :: string where
  "GetValidActions = join_with '', '' valid_actions"

fun methods_loop :: "string list \<Rightarrow> string list \<Rightarrow> ValidationError list \<Rightarrow> ValidationError list" where
  "methods_loop seen [] errs = errs"
| "methods_loop seen (m # ms) errs =
     (if List.member seen m then methods_loop seen ms (AddError errs ''methods'' (''duplicate method: '' @ m) ''DUPLICATE'')
      else methods_loop (m # seen) ms
        (if \<not> List.member valid_actions m then
           AddError errs ''methods'' (''invalid method: '' @ m @ '', must be one of '' @ GetValidActions @ '' in Uppercase'') ''INVALID_FORMAT''
         else errs))"

definition validateRateLimitMethods :: "ValidationError list \<Rightarrow> string list \<Rightarrow> ValidationError list" where
  "validateRateLimitMethods errs ms =
     (if length ms = 0 then AddError errs ''methods'' ''must name at least one method, or * for any'' ''REQUIRED''
      else if List.member ms ''*'' \<and> length ms > 1 then
        AddError errs ''methods'' ''* cannot be combined with named methods; use * alone for any verb'' ''INVALID_COMBINATION''
      else methods_loop [] ms errs)"

definition RateLimitMinPeriod :: duration where "RateLimitMinPeriod = 1 * second"
definition RateLimitMaxPeriod :: duration where "RateLimitMaxPeriod = 24 * hour"
definition RateLimitMaxWindows :: int where "RateLimitMaxWindows = 5"

definition window_errors :: "duration list \<Rightarrow> nat \<Rightarrow> RateLimitWindow \<Rightarrow> ValidationError list \<Rightarrow> ValidationError list" where
  "window_errors seen i w errs =
     (let field = ''windows['' @ itoa (int i) @ '']'';
          e1 = (if List.member seen (wPeriod w) then
                  AddError errs field (''duplicate period: '' @ duration_string (wPeriod w)) ''DUPLICATE'' else errs);
          e2 = (if wRequests w < 1 then AddError e1 field ''requests must be at least 1'' ''OUT_OF_RANGE'' else e1);
          e3 = (if wPeriod w < RateLimitMinPeriod \<or> wPeriod w > RateLimitMaxPeriod then
                  AddError e2 field (''period must be between '' @ duration_string RateLimitMinPeriod @ '' and ''
                    @ duration_string RateLimitMaxPeriod) ''OUT_OF_RANGE'' else e2)
      in if wBurst w < 0 then
           AddError e3 field ''burst cannot be negative; use 0 to mean the same as requests'' ''OUT_OF_RANGE'' else e3)"

fun windows_loop :: "duration list \<Rightarrow> nat \<Rightarrow> RateLimitWindow list \<Rightarrow> ValidationError list \<Rightarrow> ValidationError list" where
  "windows_loop seen i [] errs = errs"
| "windows_loop seen i (w # ws) errs = windows_loop (wPeriod w # seen) (Suc i) ws (window_errors seen i w errs)"

definition validateRateLimitWindows :: "ValidationError list \<Rightarrow> RateLimitWindow list \<Rightarrow> ValidationError list" where
  "validateRateLimitWindows errs ws =
     (if length ws = 0 then
        AddError errs ''windows'' ''must define at least one window; a rule with no window has no budget'' ''REQUIRED''
      else if int (length ws) > RateLimitMaxWindows then
        AddError errs ''windows'' (''at most '' @ itoa RateLimitMaxWindows @ '' windows per rule'') ''TOO_MANY''
      else windows_loop [] 0 ws errs)"

definition validateRateLimitCommon :: "ValidationError list \<Rightarrow> CreateRateLimitInput \<Rightarrow> ValidationError list" where
  "validateRateLimitCommon errs inp =
     (let kind = iTargetKind inp; target = iTarget inp; scope = iScope inp; audience = iAudience inp;
        e1 = Add errs (err_of (ValidateString (iName inp) (rl_string_opts ''name'' 2 100)));
        e2 = Add e1 (err_of (ValidateString (iDescription inp) (rl_string_opts ''description'' 2 1024)));
        e3 = (if \<not> List.member validRateLimitTargetKinds kind then
                AddError e2 ''target_kind'' ''must be one of endpoint, prefix, global'' ''INVALID_VALUE'' else e2);
        e4 = (case IsValidRateLimitTarget target of
                Some t \<Rightarrow> AddError e3 ''target'' t ''INVALID_FORMAT'' | None \<Rightarrow> e3);
        e5 = (if kind = ''global'' \<and> target \<noteq> ''*'' then
                AddError e4 ''target'' ''a global rule must target *'' ''INVALID_VALUE''
              else if kind \<noteq> ''global'' \<and> target = ''*'' then
                AddError e4 ''target'' ''* is only valid for a global rule'' ''INVALID_VALUE'' else e4);
        e6 = (if kind = ''prefix'' \<and> \<not> HasSuffix target ''/'' then
                AddError e5 ''target''
                  ''a prefix target must end with /, so that /projects/ cannot also match /projects_archive'' ''INVALID_FORMAT''
              else e5);
        e7 = validateRateLimitMethods e6 (iMethods inp);
        e8 = (if \<not> List.member validRateLimitScopes scope then
                AddError e7 ''scope'' ''must be one of ip, user, token, project, global'' ''INVALID_VALUE'' else e7);
        e9 = (if \<not> List.member validRateLimitAudiences audience then
                AddError e8 ''audience'' ''must be one of any, guest, auth'' ''INVALID_VALUE'' else e8);
        e10 = (if audience = ''guest'' \<and> (scope = ''user'' \<or> scope = ''token'') then
                AddError e9 ''scope''
                  ''a guest rule cannot be scoped to user or token; guests have neither, so every caller would share one bucket''
                  ''INVALID_COMBINATION'' else e9);
        e11 = (case IsValidRateLimitStrategy (iStrategy inp) of
                Some t \<Rightarrow> AddError e10 ''strategy'' t ''INVALID_VALUE'' | None \<Rightarrow> e10)
      in validateRateLimitWindows e11 (iWindows inp))"

definition CreateRateLimitInput_Validate :: "CreateRateLimitInput \<Rightarrow> verror option" where
  "CreateRateLimitInput_Validate inp =
     errs_result (validateRateLimitCommon (Add [] (ValidateUUID (iID inp) 7 ''id'')) inp)"

definition UpdateRateLimitInput_Validate :: "UpdateRateLimitInput \<Rightarrow> verror option" where
  "UpdateRateLimitInput_Validate inp =
     errs_result (validateRateLimitCommon (Add [] (ValidateUUID (iID inp) 7 ''id'')) inp)"

definition DeleteRateLimitInput_Validate :: "uuid \<Rightarrow> verror option" where
  "DeleteRateLimitInput_Validate u = errs_result (Add [] (ValidateUUID u 7 ''id''))"

section \<open>The ladder\<close>

record RateLimitRequest =
  reqMethod :: string
  reqPattern :: string
  reqAuthenticated :: bool

record RateLimitMatch =
  mRule :: RateLimit
  mWhy :: string
  mSpecificity :: int

text \<open>The dash of the explanations, as the bytes of the source file.\<close>

definition em_dash :: string where
  "em_dash = [CHR 0x20, CHR 0xE2, CHR 0x80, CHR 0x94, CHR 0x20]"

definition rateLimitTier :: "RateLimit \<Rightarrow> string \<Rightarrow> (int \<times> string) option" where
  "rateLimitTier r pattern =
     (let named = \<not> AnyMethod r in
      if rTargetKind r = ''endpoint'' then
        (if rTarget r \<noteq> pattern then None
         else if named then Some (6, ''exact endpoint and a named verb'' @ em_dash @ ''the most specific match there is'')
         else Some (5, ''exact endpoint, any verb'' @ em_dash @ ''one budget shared across every method on this route''))
      else if rTargetKind r = ''prefix'' then
        (if \<not> HasPrefix pattern (rTarget r) then None
         else if named then Some (4, ''prefix '' @ rTarget r @ '' and a named verb'' @ em_dash @ ''no endpoint rule matched'')
         else Some (3, ''prefix '' @ rTarget r @ '', any verb''))
      else if rTargetKind r = ''global'' then
        (if named then Some (2, ''global, named verb'' @ em_dash @ ''no endpoint or prefix rule matched'')
         else Some (1, ''global'' @ em_dash @ ''no more specific rule matched in this scope''))
      else None)"

definition rateLimitBeats :: "int \<Rightarrow> RateLimit \<Rightarrow> RateLimitMatch \<Rightarrow> bool" where
  "rateLimitBeats tier candidate current =
     (if tier \<noteq> mSpecificity current then tier > mSpecificity current
      else rName candidate < rName (mRule current))"

text \<open>One turn of the loop over the rules; \<open>best\<close> is the map from scopes.\<close>

definition resolve_step ::
  "RateLimitRequest \<Rightarrow> (string \<times> RateLimitMatch) list \<Rightarrow> RateLimit \<Rightarrow> (string \<times> RateLimitMatch) list" where
  "resolve_step req best r =
     (if \<not> IsEnabled r then best
      else if \<not> MatchesAudience r (reqAuthenticated req) then best
      else if \<not> MatchesMethod r (reqMethod req) then best
      else case rateLimitTier r (reqPattern req) of
        None \<Rightarrow> best
      | Some (tier, why) \<Rightarrow>
          (case map_of best (rScope r) of
             Some current \<Rightarrow>
               if \<not> rateLimitBeats tier r current then best
               else AList.update (rScope r) \<lparr>mRule = r, mWhy = why, mSpecificity = tier\<rparr> best
           | None \<Rightarrow> AList.update (rScope r) \<lparr>mRule = r, mWhy = why, mSpecificity = tier\<rparr> best))"

text \<open>
  The comparison of the final sort: specificity descending, then scope, then
  name.  The matches come out of a Go map, whose order is not fixed, so the
  order the association list has here must not matter
  (\<open>match_order_total\<close>).
\<close>

definition match_key :: "RateLimitMatch \<Rightarrow> int \<times> string \<times> string" where
  "match_key m = (- mSpecificity m, rScope (mRule m), rName (mRule m))"

definition ResolveRateLimits :: "RateLimit list \<Rightarrow> RateLimitRequest \<Rightarrow> RateLimitMatch list" where
  "ResolveRateLimits rules req = sort_key match_key (map snd (foldl (resolve_step req) [] rules))"

lemmas [rl_defs] =
  IsEnabled_def MatchesAudience_def MatchesMethod_def AnyMethod_def rateLimitTier_def rateLimitBeats_def

section \<open>What the ladder answers\<close>

definition applies :: "RateLimitRequest \<Rightarrow> RateLimit \<Rightarrow> int \<Rightarrow> string \<Rightarrow> bool" where
  "applies req r t w =
     (IsEnabled r \<and> MatchesAudience r (reqAuthenticated req) \<and> MatchesMethod r (reqMethod req)
      \<and> rateLimitTier r (reqPattern req) = Some (t, w))"

text \<open>A winner at least as good as a candidate: a higher tier, or the same tier and a name not after it.\<close>

definition no_worse :: "RateLimitMatch \<Rightarrow> int \<Rightarrow> string \<Rightarrow> bool" where
  "no_worse m t n = (mSpecificity m > t \<or> (mSpecificity m = t \<and> rName (mRule m) \<le> n))"

definition best_inv :: "RateLimitRequest \<Rightarrow> RateLimit list \<Rightarrow> (string \<times> RateLimitMatch) list \<Rightarrow> bool" where
  "best_inv req rs best =
     (distinct (map fst best)
      \<and> (\<forall>s m. (s, m) \<in> set best \<longrightarrow> s = rScope (mRule m) \<and> mRule m \<in> set rs
           \<and> applies req (mRule m) (mSpecificity m) (mWhy m))
      \<and> (\<forall>r t w. r \<in> set rs \<and> applies req r t w \<longrightarrow>
           (\<exists>m. map_of best (rScope r) = Some m \<and> no_worse m t (rName r))))"

lemma best_cover:
  "best_inv req rs best \<Longrightarrow> r \<in> set rs \<Longrightarrow> applies req r t w \<Longrightarrow>
     \<exists>m. map_of best (rScope r) = Some m \<and> no_worse m t (rName r)"
  unfolding best_inv_def by blast

lemma best_sound:
  "best_inv req rs best \<Longrightarrow> (s, m) \<in> set best \<Longrightarrow>
     s = rScope (mRule m) \<and> mRule m \<in> set rs \<and> applies req (mRule m) (mSpecificity m) (mWhy m)"
  unfolding best_inv_def by blast

lemma applies_fun: "applies req r t w \<Longrightarrow> applies req r t' w' \<Longrightarrow> t' = t \<and> w' = w"
  by (simp add: applies_def)

lemma resolve_step_skip:
  "(\<And>t w. \<not> applies req r t w) \<Longrightarrow> resolve_step req best r = best"
  by (auto simp: resolve_step_def applies_def split: option.split)

lemma resolve_step_hit:
  "applies req r t w \<Longrightarrow> resolve_step req best r =
     (case map_of best (rScope r) of
        Some m \<Rightarrow> if rateLimitBeats t r m
          then AList.update (rScope r) \<lparr>mRule = r, mWhy = w, mSpecificity = t\<rparr> best else best
      | None \<Rightarrow> AList.update (rScope r) \<lparr>mRule = r, mWhy = w, mSpecificity = t\<rparr> best)"
  by (auto simp: resolve_step_def applies_def split: option.split)

lemma beats_no_worse:
  "no_worse m t' n \<Longrightarrow> rateLimitBeats t r m \<Longrightarrow> no_worse \<lparr>mRule = r, mWhy = w, mSpecificity = t\<rparr> t' n"
  by (auto simp: no_worse_def rateLimitBeats_def split: if_splits)

lemma not_beats_no_worse: "\<not> rateLimitBeats t r m \<Longrightarrow> no_worse m t (rName r)"
  by (auto simp: no_worse_def rateLimitBeats_def split: if_splits)

lemma set_update: "(s, m) \<in> set (AList.update k v al) \<Longrightarrow> distinct (map fst al) \<Longrightarrow>
    (s = k \<and> m = v) \<or> (s \<noteq> k \<and> (s, m) \<in> set al)"
proof -
  assume a: "(s, m) \<in> set (AList.update k v al)" and d: "distinct (map fst al)"
  have "map_of (AList.update k v al) s = Some m"
    using a d by (simp add: AList.distinct_update)
  then have "((map_of al)(k \<mapsto> v)) s = Some m" by (simp add: AList.update_conv')
  then show ?thesis by (auto split: if_splits dest: map_of_SomeD)
qed

lemma best_inv_update:
  assumes i: "best_inv req rs best" and a: "applies req r t w"
    and m: "\<And>m. map_of best (rScope r) = Some m \<Longrightarrow> rateLimitBeats t r m"
  shows "best_inv req (rs @ [r]) (AList.update (rScope r) \<lparr>mRule = r, mWhy = w, mSpecificity = t\<rparr> best)"
    (is "best_inv req _ (AList.update _ ?m best)")
proof -
  have d: "distinct (map fst best)" using i by (simp add: best_inv_def)
  have 2: "s = rScope (mRule x) \<and> mRule x \<in> set (rs @ [r]) \<and> applies req (mRule x) (mSpecificity x) (mWhy x)"
    if "(s, x) \<in> set (AList.update (rScope r) ?m best)" for s x
    using set_update[OF that d] i a by (auto simp: best_inv_def)
  have 3: "\<exists>y. map_of (AList.update (rScope r) ?m best) (rScope q) = Some y \<and> no_worse y t' (rName q)"
    if q: "q \<in> set (rs @ [r])" "applies req q t' w'" for q t' w'
  proof (cases "rScope q = rScope r")
    case False
    with q have "q \<in> set rs" by auto
    with best_cover[OF i _ q(2)] False show ?thesis by (auto simp: AList.update_conv' simp del: map_of_eq_Some_iff)
  next
    case True
    have "no_worse ?m t' (rName q)"
    proof (cases "q = r")
      case True
      with q a have "t' = t" using applies_fun by blast
      with True show ?thesis by (simp add: no_worse_def)
    next
      case False
      with q have "q \<in> set rs" by auto
      with best_cover[OF i _ q(2)]
      obtain y where y: "map_of best (rScope q) = Some y" "no_worse y t' (rName q)" by blast
      with True m have "rateLimitBeats t r y" by simp
      with y show ?thesis by (blast intro: beats_no_worse)
    qed
    with True show ?thesis by (simp add: AList.update_conv')
  qed
  show ?thesis unfolding best_inv_def using d 2 3 by (auto simp: AList.distinct_update)
qed

lemma best_inv_keep:
  assumes i: "best_inv req rs best"
    and k: "\<And>t w. applies req r t w \<Longrightarrow> \<exists>m. map_of best (rScope r) = Some m \<and> \<not> rateLimitBeats t r m"
  shows "best_inv req (rs @ [r]) best"
proof -
  have "\<exists>m. map_of best (rScope q) = Some m \<and> no_worse m t (rName q)"
    if "q \<in> set (rs @ [r])" "applies req q t w" for q t w
  proof (cases "q = r")
    case True with that(2) k not_beats_no_worse show ?thesis by blast
  next
    case False with that best_cover[OF i] show ?thesis by auto
  qed
  moreover have "s = rScope (mRule m) \<and> mRule m \<in> set (rs @ [r]) \<and> applies req (mRule m) (mSpecificity m) (mWhy m)"
    if "(s, m) \<in> set best" for s m
    using best_sound[OF i that] by auto
  moreover have "distinct (map fst best)" using i by (simp add: best_inv_def)
  ultimately show ?thesis unfolding best_inv_def by blast
qed

lemma best_inv_step:
  assumes i: "best_inv req rs best"
  shows "best_inv req (rs @ [r]) (resolve_step req best r)"
proof (cases "\<exists>t w. applies req r t w")
  case False
  then have "resolve_step req best r = best" by (simp add: resolve_step_skip)
  moreover have "best_inv req (rs @ [r]) best" using False by (intro best_inv_keep[OF i]) blast
  ultimately show ?thesis by simp
next
  case True
  then obtain t w where a: "applies req r t w" by blast
  show ?thesis
  proof (cases "\<exists>m. map_of best (rScope r) = Some m \<and> \<not> rateLimitBeats t r m")
    case True
    then have "resolve_step req best r = best" by (auto simp: resolve_step_hit[OF a])
    with True i a show ?thesis by (auto dest: applies_fun intro!: best_inv_keep)
  next
    case False
    then have "resolve_step req best r = AList.update (rScope r) \<lparr>mRule = r, mWhy = w, mSpecificity = t\<rparr> best"
      by (auto simp: resolve_step_hit[OF a] split: option.split)
    with best_inv_update[OF i a] False show ?thesis by simp
  qed
qed

lemma best_inv_fold: "best_inv req rs (foldl (resolve_step req) [] rs)"
  by (induction rs rule: rev_induct) (auto simp: best_inv_step, simp add: best_inv_def)

abbreviation best_map :: "RateLimit list \<Rightarrow> RateLimitRequest \<Rightarrow> (string \<times> RateLimitMatch) list" where
  "best_map rules req \<equiv> foldl (resolve_step req) [] rules"

lemma winner_distinct: "distinct (map (\<lambda>m. rScope (mRule m)) (ResolveRateLimits rules req))"
proof -
  have k: "map fst (best_map rules req) = map (\<lambda>m. rScope (mRule m)) (map snd (best_map rules req))"
    using best_sound[OF best_inv_fold[of req rules]] by auto
  have "distinct (map (\<lambda>m. rScope (mRule m)) (map snd (best_map rules req)))"
    using best_inv_fold[of req rules] unfolding k[symmetric] by (simp add: best_inv_def)
  moreover have "mset (map (\<lambda>m. rScope (mRule m)) (ResolveRateLimits rules req))
      = mset (map (\<lambda>m. rScope (mRule m)) (map snd (best_map rules req)))"
    unfolding ResolveRateLimits_def by (simp only: mset_map mset_sort)
  ultimately show ?thesis using mset_eq_imp_distinct_iff by blast
qed

lemma winner_sorted: "sorted (map match_key (ResolveRateLimits rules req))"
  by (simp add: ResolveRateLimits_def)

lemma winner_in:
  "m \<in> set (ResolveRateLimits rules req) \<Longrightarrow>
     mRule m \<in> set rules \<and> applies req (mRule m) (mSpecificity m) (mWhy m)"
  using best_sound[OF best_inv_fold[of req rules]] by (auto simp: ResolveRateLimits_def)

lemma winner_cover:
  assumes "r \<in> set rules" "applies req r t w"
  obtains m where "m \<in> set (ResolveRateLimits rules req)" "rScope (mRule m) = rScope r" "no_worse m t (rName r)"
proof -
  from best_cover[OF best_inv_fold assms]
  obtain m where m: "map_of (best_map rules req) (rScope r) = Some m" "no_worse m t (rName r)" by blast
  from map_of_SomeD[OF m(1)] best_sound[OF best_inv_fold[of req rules]]
  have "rScope (mRule m) = rScope r" "m \<in> set (map snd (best_map rules req))" by force+
  with m show ?thesis by (intro that) (auto simp: ResolveRateLimits_def)
qed

lemma winner_unique:
  "m \<in> set (ResolveRateLimits rules req) \<Longrightarrow> m' \<in> set (ResolveRateLimits rules req) \<Longrightarrow>
     rScope (mRule m) = rScope (mRule m') \<Longrightarrow> m = m'"
  using winner_distinct[of rules req] by (auto simp: distinct_map dest: inj_onD)

text \<open>
  C39. The ladder answers at most one rule per scope, each one of the rules that
  apply, at the tier it won on, most specific first; and no rule that applies
  is left without an answer in its scope that is at least as specific (and,
  at the same tier, not later by name).
\<close>

theorem ResolveRateLimits_winners:
  "distinct (map (\<lambda>m. rScope (mRule m)) (ResolveRateLimits rules req))
   \<and> sorted (map match_key (ResolveRateLimits rules req))
   \<and> (\<forall>m. m \<in> set (ResolveRateLimits rules req) \<longrightarrow>
        mRule m \<in> set rules \<and> applies req (mRule m) (mSpecificity m) (mWhy m))
   \<and> (\<forall>r t w. r \<in> set rules \<and> applies req r t w \<longrightarrow>
        (\<exists>m. m \<in> set (ResolveRateLimits rules req) \<and> rScope (mRule m) = rScope r \<and> no_worse m t (rName r)))"
  using winner_distinct winner_sorted winner_in winner_cover by metis

definition demo_rule :: "string \<Rightarrow> string \<Rightarrow> string \<Rightarrow> string \<Rightarrow> string list \<Rightarrow> RateLimit" where
  "demo_rule name kind target scope ms = \<lparr>rCreatedAt = 0, rUpdatedAt = 0, rSystem = None, rEnabled = None,
     rName = name, rDescription = name, rTarget = target, rTargetKind = kind, rScope = scope, rAudience = ''any'',
     rStrategy = ''token_bucket'', rMethods = ms, rWindows = [\<lparr>wCreatedAt = 0, wUpdatedAt = 0, wSystem = None,
       wPeriod = minute, wRequests = 10, wBurst = 0, wSerialID = 1, wID = uuid7 1, wRateLimit = uuid7 2\<rparr>],
     rSerialID = 1, rID = uuid7 2\<rparr>"

definition demo_rules :: "RateLimit list" where
  "demo_rules = [demo_rule ''all'' ''global'' ''*'' ''ip'' [''*''],
     demo_rule ''users'' ''prefix'' ''/users/'' ''ip'' [''GET''],
     demo_rule ''user'' ''endpoint'' ''/users/{user_id}'' ''ip'' [''*''],
     demo_rule ''tenant'' ''prefix'' ''/'' ''project'' [''*'']]"

definition demo_request :: "string \<Rightarrow> RateLimitRequest" where
  "demo_request meth = \<lparr>reqMethod = meth, reqPattern = ''/users/{user_id}'', reqAuthenticated = False\<rparr>"

lemmas rl_run = ResolveRateLimits_def resolve_step_def rl_defs demo_rules_def demo_rule_def
  demo_request_def HasPrefix_def match_key_def less_eq_prod_def

lemma resolve_run:
  "map (\<lambda>m. (rName (mRule m), mSpecificity m)) (ResolveRateLimits demo_rules (demo_request ''HEAD''))
     = [(''user'', 5), (''tenant'', 3)]"
  by (simp add: rl_run)

theorem ResolveRateLimits_winners_witness:
  "map (\<lambda>m. (rName (mRule m), mSpecificity m)) (ResolveRateLimits demo_rules (demo_request ''HEAD''))
     = [(''user'', 5), (''tenant'', 3)]
   \<and> sorted (map match_key (ResolveRateLimits demo_rules (demo_request ''HEAD'')))"
  using ResolveRateLimits_winners[of demo_rules "demo_request ''HEAD''"] resolve_run by blast

text \<open>
  The answer depends on the set of rules only: loading them in another order
  (or iterating the Go map in another order) gives the same list, provided no
  two rules of a scope share a name, as the unique index on names has it.
\<close>

theorem ResolveRateLimits_order:
  assumes same: "set rules' = set rules"
    and names: "\<And>r q. r \<in> set rules \<Longrightarrow> q \<in> set rules \<Longrightarrow> rScope r = rScope q \<Longrightarrow> rName r = rName q \<Longrightarrow> r = q"
  shows "ResolveRateLimits rules' req = ResolveRateLimits rules req"
proof -
  have sub: "set (ResolveRateLimits rs req) \<subseteq> set (ResolveRateLimits rs' req)"
    if rs: "set rs = set rules" "set rs' = set rules" for rs rs'
  proof
    fix m assume m: "m \<in> set (ResolveRateLimits rs req)"
    note a = winner_in[OF m]
    from a rs obtain m' where m': "m' \<in> set (ResolveRateLimits rs' req)"
      "rScope (mRule m') = rScope (mRule m)" "no_worse m' (mSpecificity m) (rName (mRule m))"
      using winner_cover[of "mRule m" rs'] by metis
    note a' = winner_in[OF m'(1)]
    from a' rs obtain m2 where m2: "m2 \<in> set (ResolveRateLimits rs req)"
      "rScope (mRule m2) = rScope (mRule m')" "no_worse m2 (mSpecificity m') (rName (mRule m'))"
      using winner_cover[of "mRule m'" rs] by metis
    have "m2 = m" using winner_unique[OF m2(1) m] m2 m' by simp
    with m' m2 have e: "mSpecificity m = mSpecificity m'" "rName (mRule m) = rName (mRule m')"
      by (auto simp: no_worse_def)
    with names[of "mRule m" "mRule m'"] a a' rs m' have "mRule m = mRule m'" by simp
    with a a' e have "m = m'" by (auto simp: applies_def)
    with m' show "m \<in> set (ResolveRateLimits rs' req)" by simp
  qed
  then have s: "set (ResolveRateLimits rules' req) = set (ResolveRateLimits rules req)"
    using same by blast
  have d: "distinct (map match_key (ResolveRateLimits rs req))" for rs
    using winner_distinct[of rs req] by (auto simp: distinct_map inj_on_def match_key_def)
  have "map match_key (ResolveRateLimits rules' req) = map match_key (ResolveRateLimits rules req)"
    using s by (intro sorted_distinct_set_unique winner_sorted d) simp
  moreover have "inj_on match_key (set (ResolveRateLimits rules' req) \<union> set (ResolveRateLimits rules req))"
    using d[of rules] s by (simp add: distinct_map)
  ultimately show ?thesis by (rule map_inj_on)
qed

theorem ResolveRateLimits_order_witness:
  "ResolveRateLimits (rev demo_rules) (demo_request ''GET'') = ResolveRateLimits demo_rules (demo_request ''GET'')"
proof (rule ResolveRateLimits_order)
  have "distinct (map (\<lambda>r. (rScope r, rName r)) demo_rules)"
    by (simp add: demo_rules_def demo_rule_def)
  then show "r = q" if "r \<in> set demo_rules" "q \<in> set demo_rules" "rScope r = rScope q" "rName r = rName q" for r q
    using that by (auto simp: distinct_map dest: inj_onD)
qed simp

text \<open>
  A HEAD request never slips past a bound its GET twin is under: whatever rule
  answers for a scope on GET, some rule answers for that scope on HEAD, and on
  the same tier or a higher one.
\<close>

theorem HEAD_is_bounded_like_GET:
  assumes "m \<in> set (ResolveRateLimits rules (req\<lparr>reqMethod := ''GET''\<rparr>))"
  shows "\<exists>h. h \<in> set (ResolveRateLimits rules (req\<lparr>reqMethod := ''HEAD''\<rparr>))
    \<and> rScope (mRule h) = rScope (mRule m) \<and> mSpecificity h \<ge> mSpecificity m"
proof -
  from winner_in[OF assms] have r: "mRule m \<in> set rules"
    and "applies (req\<lparr>reqMethod := ''HEAD''\<rparr>) (mRule m) (mSpecificity m) (mWhy m)"
    by (auto simp: applies_def MatchesMethod_def List.member_iff split: if_splits)
  from winner_cover[OF this] show ?thesis
    by (metis no_worse_def less_imp_le order_refl)
qed

theorem HEAD_is_bounded_like_GET_witness:
  "\<exists>h. h \<in> set (ResolveRateLimits demo_rules (demo_request ''GET''\<lparr>reqMethod := ''HEAD''\<rparr>))
    \<and> rScope (mRule h) = ''ip''"
proof -
  have "list_ex (\<lambda>m. rScope (mRule m) = ''ip'') (ResolveRateLimits demo_rules (demo_request ''GET''\<lparr>reqMethod := ''GET''\<rparr>))"
    by (simp add: rl_run)
  then obtain m where "m \<in> set (ResolveRateLimits demo_rules (demo_request ''GET''\<lparr>reqMethod := ''GET''\<rparr>))"
    and "rScope (mRule m) = ''ip''" unfolding list_ex_iff by blast
  from HEAD_is_bounded_like_GET[OF this(1)] this(2) show ?thesis by auto
qed

section \<open>What a validated rule is\<close>

definition window_ok :: "RateLimitWindow \<Rightarrow> bool" where
  "window_ok w = (1 \<le> wRequests w \<and> second \<le> wPeriod w \<and> wPeriod w \<le> 24 * hour \<and> 0 \<le> wBurst w)"

lemma window_errors_Nil:
  "window_errors seen i w errs = [] \<longleftrightarrow> errs = [] \<and> wPeriod w \<notin> set seen \<and> window_ok w"
  by (auto simp: window_errors_def Let_def AddError_def window_ok_def RateLimitMinPeriod_def RateLimitMaxPeriod_def
      List.member_iff)

lemma windows_loop_Nil:
  "windows_loop seen i ws errs = [] \<longleftrightarrow>
     errs = [] \<and> distinct (map wPeriod ws) \<and> set (map wPeriod ws) \<inter> set seen = {} \<and> list_all window_ok ws"
  by (induction seen i ws errs rule: windows_loop.induct) (auto simp: window_errors_Nil)

lemma methods_loop_Nil:
  "methods_loop seen ms errs = [] \<longleftrightarrow>
     errs = [] \<and> distinct ms \<and> set ms \<inter> set seen = {} \<and> set ms \<subseteq> set valid_actions"
  by (induction seen ms errs rule: methods_loop.induct) (auto simp: AddError_def List.member_iff)

lemma validateRateLimitWindows_Nil:
  "validateRateLimitWindows errs ws = [] \<longleftrightarrow>
     errs = [] \<and> 0 < length ws \<and> length ws \<le> 5 \<and> distinct (map wPeriod ws) \<and> list_all window_ok ws"
  by (auto simp: validateRateLimitWindows_def windows_loop_Nil AddError_def RateLimitMaxWindows_def)

lemma validateRateLimitMethods_Nil:
  "validateRateLimitMethods errs ms = [] \<longleftrightarrow>
     errs = [] \<and> ms \<noteq> [] \<and> (''*'' \<in> set ms \<longrightarrow> length ms = 1) \<and> distinct ms \<and> set ms \<subseteq> set valid_actions"
  by (auto simp: validateRateLimitMethods_def methods_loop_Nil AddError_def List.member_iff Suc_lessI
      simp flip: length_greater_0_conv)

text \<open>The rules of one input, as a predicate.\<close>

definition rule_ok :: "CreateRateLimitInput \<Rightarrow> bool" where
  "rule_ok inp =
     ((\<exists>v. ValidateString (iName inp) (rl_string_opts ''name'' 2 100) = Inr v)
      \<and> (\<exists>v. ValidateString (iDescription inp) (rl_string_opts ''description'' 2 1024) = Inr v)
      \<and> iTargetKind inp \<in> set validRateLimitTargetKinds
      \<and> rx_match rateLimitTargetRe (iTarget inp)
      \<and> (iTargetKind inp = ''global'' \<longleftrightarrow> iTarget inp = ''*'')
      \<and> (iTargetKind inp = ''prefix'' \<longrightarrow> HasSuffix (iTarget inp) ''/'')
      \<and> iMethods inp \<noteq> [] \<and> distinct (iMethods inp) \<and> set (iMethods inp) \<subseteq> set valid_actions
      \<and> (''*'' \<in> set (iMethods inp) \<longrightarrow> length (iMethods inp) = 1)
      \<and> iScope inp \<in> set validRateLimitScopes
      \<and> iAudience inp \<in> set validRateLimitAudiences
      \<and> \<not> (iAudience inp = ''guest'' \<and> (iScope inp = ''user'' \<or> iScope inp = ''token''))
      \<and> iStrategy inp \<in> set validRateLimitStrategies
      \<and> 0 < length (iWindows inp) \<and> length (iWindows inp) \<le> 5
      \<and> distinct (map wPeriod (iWindows inp)) \<and> list_all window_ok (iWindows inp))"

lemma Add_err_of_Nil: "Add errs (err_of r) = [] \<longleftrightarrow> errs = [] \<and> (\<exists>v. r = Inr v)"
  by (cases r) auto

lemma Add_Nil_None: "Add errs (ValidateUUID u 7 f) = [] \<longleftrightarrow> errs = [] \<and> IsUUIDV7 u"
  by (auto simp: ValidateUUID_def IsUUIDV7_def)

lemma IsValidRateLimitStrategy_None: "IsValidRateLimitStrategy s = None \<longleftrightarrow> s \<in> set validRateLimitStrategies"
  by (auto simp: IsValidRateLimitStrategy_def List.member_iff validRateLimitStrategies_def)

lemma rx_target_nonempty: "\<not> rx_match rateLimitTargetRe []"
  by (simp add: rateLimitTargetRe_def)

lemma IsValidRateLimitTarget_None: "IsValidRateLimitTarget t = None \<longleftrightarrow> rx_match rateLimitTargetRe t"
  using rx_target_nonempty by (auto simp: IsValidRateLimitTarget_def simp del: rx_match.simps)

lemma case_err_Nil: "(case x of Some t \<Rightarrow> AddError errs f t c | None \<Rightarrow> errs) = [] \<longleftrightarrow> errs = [] \<and> x = None"
  by (auto split: option.split)

lemma if_AddError_Nil: "(if b then AddError errs f t c else errs) = [] \<longleftrightarrow> errs = [] \<and> \<not> b"
  by auto

lemma if2_AddError_Nil:
  "(if b then AddError errs f t c else if b' then AddError errs f' t' c' else errs) = [] \<longleftrightarrow> errs = [] \<and> \<not> b \<and> \<not> b'"
  by auto

lemma validateRateLimitCommon_Nil: "validateRateLimitCommon errs inp = [] \<longleftrightarrow> errs = [] \<and> rule_ok inp"
  unfolding validateRateLimitCommon_def Let_def validateRateLimitWindows_Nil case_err_Nil if_AddError_Nil
    if2_AddError_Nil validateRateLimitMethods_Nil Add_err_of_Nil IsValidRateLimitStrategy_None
    IsValidRateLimitTarget_None List.member_iff rule_ok_def
  by blast

text \<open>
  The create and the update validator accept the same rules, the ones that
  meet \<open>rule_ok\<close>; and a stored rule with the windows and strategy of an
  accepted input is one the loader enforces, every window of it with a
  capacity of at least one request and a period the store can hold.
\<close>

theorem validated_rule_is_enforceable:
  "(CreateRateLimitInput_Validate inp = None \<longleftrightarrow> IsUUIDV7 (iID inp) \<and> rule_ok inp)
   \<and> UpdateRateLimitInput_Validate inp = CreateRateLimitInput_Validate inp
   \<and> (CreateRateLimitInput_Validate inp = None \<longrightarrow> rWindows r = iWindows inp \<longrightarrow> rStrategy r = iStrategy inp
        \<longrightarrow> EnforceabilityProblem r = [] \<and> (\<forall>w. w \<in> set (rWindows r) \<longrightarrow> 1 \<le> EffectiveBurst w \<and> second \<le> wPeriod w))"
proof -
  have v: "CreateRateLimitInput_Validate inp = None \<longleftrightarrow> IsUUIDV7 (iID inp) \<and> rule_ok inp"
    by (simp only: CreateRateLimitInput_Validate_def errs_result_None validateRateLimitCommon_Nil Add_Nil_None) blast
  have "EnforceabilityProblem r = [] \<and> 1 \<le> EffectiveBurst w \<and> second \<le> wPeriod w"
    if "rule_ok inp" "rWindows r = iWindows inp" "rStrategy r = iStrategy inp" "w \<in> set (rWindows r)" for w
    using that IsValidRateLimitStrategy_None[of "rStrategy r"]
    by (auto simp: rule_ok_def EnforceabilityProblem_def EffectiveBurst_def list_all_iff window_ok_def)
  moreover have "EnforceabilityProblem r = []"
    if "rule_ok inp" "rWindows r = iWindows inp" "rStrategy r = iStrategy inp"
    using that IsValidRateLimitStrategy_None[of "rStrategy r"] by (simp add: rule_ok_def EnforceabilityProblem_def)
  ultimately show ?thesis
    using v by (auto simp: UpdateRateLimitInput_Validate_def CreateRateLimitInput_Validate_def)
qed

definition demo_input :: CreateRateLimitInput where
  "demo_input = \<lparr>iEnabled = Some True, iName = ''users'', iDescription = ''user routes'', iTarget = ''/users/{user_id}'',
     iTargetKind = ''endpoint'', iScope = ''ip'', iAudience = ''any'', iStrategy = ''leaky_bucket'',
     iMethods = [''GET'', ''PUT''], iWindows = rWindows (demo_rule ''users'' ''endpoint'' ''/'' ''ip'' []), iID = uuid7 5\<rparr>"

lemma demo_input_accepted: "CreateRateLimitInput_Validate demo_input = None"
  by code_simp

theorem validated_rule_is_enforceable_witness:
  "EnforceabilityProblem (demo_rule ''users'' ''endpoint'' ''/users/'' ''ip'' []\<lparr>rStrategy := ''leaky_bucket''\<rparr>) = []"
proof -
  have "rWindows (demo_rule ''users'' ''endpoint'' ''/users/'' ''ip'' []\<lparr>rStrategy := ''leaky_bucket''\<rparr>) = iWindows demo_input"
    "rStrategy (demo_rule ''users'' ''endpoint'' ''/users/'' ''ip'' []\<lparr>rStrategy := ''leaky_bucket''\<rparr>) = iStrategy demo_input"
    by (simp_all add: demo_input_def demo_rule_def)
  with validated_rule_is_enforceable[of demo_input] demo_input_accepted show ?thesis by blast
qed

end
