(* ===== verification/RateLimitMirror.thy ===== *)
theory RateLimitMirror
  imports RateLimitRules
begin

text \<open>
  \<open>internal/core/usecase/rate_limits_mirror.go\<close>: the in-memory copy of the
  enabled, enforceable rules.  The pointer that is nil until the first load is
  an option; what the repository's \<open>SelectAll\<close> answered is an argument of
  \<open>Reload\<close>.  A run of the mirror is a list of events.
\<close>

section \<open>State and operations\<close>

record RateLimitRules =
  mirrorRules :: "RateLimit list option"
  lastReload :: instant
  reloadFailures :: int
  loadedFlag :: bool

definition NewRateLimitRules :: RateLimitRules where
  "NewRateLimitRules = \<lparr>mirrorRules = None, lastReload = 0, reloadFailures = 0, loadedFlag = False\<rparr>"

fun EnforceableRateLimits :: "RateLimit list \<Rightarrow> RateLimit list" where
  "EnforceableRateLimits [] = []"
| "EnforceableRateLimits (r # rs) =
     (if \<not> IsEnabled r then EnforceableRateLimits rs
      else if EnforceabilityProblem r \<noteq> [] then EnforceableRateLimits rs
      else r # EnforceableRateLimits rs)"

definition Rules :: "RateLimitRules \<Rightarrow> RateLimit list option" where
  "Rules st = mirrorRules st"

definition Resolve :: "RateLimitRules \<Rightarrow> RateLimitRequest \<Rightarrow> RateLimitMatch list \<times> bool" where
  "Resolve st req = (case Rules st of None \<Rightarrow> ([], False) | Some rules \<Rightarrow> (ResolveRateLimits rules req, True))"

definition Reload :: "instant \<Rightarrow> string + RateLimit list \<Rightarrow> RateLimitRules \<Rightarrow> string option \<times> RateLimitRules" where
  "Reload now answer st =
     (case answer of
        Inl e \<Rightarrow> (Some e, st\<lparr>reloadFailures := reloadFailures st + 1\<rparr>)
      | Inr rules \<Rightarrow> (None, st\<lparr>mirrorRules := Some (EnforceableRateLimits rules), lastReload := now, loadedFlag := True\<rparr>))"

definition Apply :: "RateLimit list \<Rightarrow> RateLimitRules \<Rightarrow> RateLimitRules" where
  "Apply rules st = st\<lparr>mirrorRules := Some (EnforceableRateLimits rules), loadedFlag := True\<rparr>"

definition Size :: "RateLimitRules \<Rightarrow> int" where
  "Size st = (case mirrorRules st of None \<Rightarrow> 0 | Some rs \<Rightarrow> int (length rs))"

definition staleForever :: duration where
  "staleForever = 2 ^ 63 - 1"

definition Staleness :: "instant \<Rightarrow> RateLimitRules \<Rightarrow> duration" where
  "Staleness now st = (if lastReload st = 0 then staleForever else now - lastReload st)"

definition Loaded :: "RateLimitRules \<Rightarrow> bool" where
  "Loaded st = loadedFlag st"

section \<open>Runs\<close>

datatype mirror_event = EReload instant "string + RateLimit list" | EApply "RateLimit list"

fun mirror_step :: "mirror_event \<Rightarrow> RateLimitRules \<Rightarrow> RateLimitRules" where
  "mirror_step (EReload now a) st = snd (Reload now a st)"
| "mirror_step (EApply rules) st = Apply rules st"

definition mirror_run :: "mirror_event list \<Rightarrow> RateLimitRules" where
  "mirror_run es = foldl (\<lambda>st e. mirror_step e st) NewRateLimitRules es"

text \<open>The rules the last event that brought any brought, none before the first.\<close>

fun brought :: "mirror_event \<Rightarrow> RateLimit list option" where
  "brought (EReload now (Inl e)) = None"
| "brought (EReload now (Inr rules)) = Some rules"
| "brought (EApply rules) = Some rules"

fun last_brought :: "mirror_event list \<Rightarrow> RateLimit list option" where
  "last_brought [] = None"
| "last_brought (e # es) = (case last_brought es of None \<Rightarrow> brought e | Some r \<Rightarrow> Some r)"

lemma EnforceableRateLimits_filter:
  "EnforceableRateLimits rs = filter (\<lambda>r. IsEnabled r \<and> EnforceabilityProblem r = []) rs"
  by (induction rs) auto

lemma EnforceableRateLimits_idem [simp]:
  "EnforceableRateLimits (EnforceableRateLimits rs) = EnforceableRateLimits rs"
  by (simp add: EnforceableRateLimits_filter)

lemma last_brought_snoc: "last_brought (es @ [e]) = (case brought e of None \<Rightarrow> last_brought es | Some r \<Rightarrow> Some r)"
  by (induction es) (auto split: option.splits)

lemma mirror_run_snoc: "mirror_run (es @ [e]) = mirror_step e (mirror_run es)"
  by (simp add: mirror_run_def)

lemma mirror_step_rules:
  "mirrorRules (mirror_step e st) =
     (case brought e of None \<Rightarrow> mirrorRules st | Some r \<Rightarrow> Some (EnforceableRateLimits r))"
  by (cases e rule: brought.cases) (auto simp: Reload_def Apply_def)

lemma mirror_step_loaded: "loadedFlag (mirror_step e st) = (brought e \<noteq> None \<or> loadedFlag st)"
  by (cases e rule: brought.cases) (auto simp: Reload_def Apply_def)

lemma mirror_run_rules: "mirrorRules (mirror_run es) = map_option EnforceableRateLimits (last_brought es)"
proof (induction es rule: rev_induct)
  case Nil show ?case by (simp add: mirror_run_def NewRateLimitRules_def)
next
  case (snoc e es)
  then show ?case
    by (auto simp: mirror_run_snoc mirror_step_rules last_brought_snoc split: option.split)
qed

lemma mirror_run_loaded: "loadedFlag (mirror_run es) \<longleftrightarrow> mirrorRules (mirror_run es) \<noteq> None"
proof (induction es rule: rev_induct)
  case Nil show ?case by (simp add: mirror_run_def NewRateLimitRules_def)
next
  case (snoc e es)
  then show ?case
    by (auto simp: mirror_run_snoc mirror_step_rules mirror_step_loaded split: option.split)
qed

text \<open>
  After any run of reloads, failed reloads and local writes, the mirror
  answers from the enforceable part of the rules it was given last: a failed
  reload never clears it, it is unknown exactly until something was loaded,
  and once known it stays known.  \<open>Loaded\<close> says the same thing.
\<close>

theorem mirror_serves_the_last_copy:
  "Resolve (mirror_run es) req =
     (case last_brought es of
        None \<Rightarrow> ([], False)
      | Some rules \<Rightarrow> (ResolveRateLimits (EnforceableRateLimits rules) req, True))
   \<and> Loaded (mirror_run es) = (last_brought es \<noteq> None)
   \<and> (last_brought es \<noteq> None \<longrightarrow> Rules (mirror_run (es @ es')) \<noteq> None)"
proof -
  have "last_brought (es @ es') \<noteq> None" if "last_brought es \<noteq> None"
    using that by (induction es) (auto split: option.splits)
  then show ?thesis
    by (auto simp: Resolve_def Rules_def Loaded_def mirror_run_loaded mirror_run_rules split: option.split)
qed

text \<open>
  A mirrored answer, and the rules it was loaded from.
\<close>

definition broken_rule :: RateLimit where
  "broken_rule = (demo_rule ''broken'' ''endpoint'' ''/users/{user_id}'' ''ip'' [''GET''])\<lparr>rStrategy := ''sliding''\<rparr>"

theorem mirror_serves_the_last_copy_witness:
  "Resolve (mirror_run [EReload 5 (Inr (broken_rule # demo_rules)), EReload 9 (Inl ''down'')]) (demo_request ''GET'')
     = (ResolveRateLimits (EnforceableRateLimits (broken_rule # demo_rules)) (demo_request ''GET''), True)
   \<and> Rules (mirror_run ([EReload 5 (Inr (broken_rule # demo_rules)), EReload 9 (Inl ''down'')] @ [EReload 11 (Inl ''x'')])) \<noteq> None"
  using mirror_serves_the_last_copy[of "[EReload 5 (Inr (broken_rule # demo_rules)), EReload 9 (Inl ''down'')]"
      "demo_request ''GET''" "[EReload 11 (Inl ''x'')]"]
  by simp

text \<open>
  A rule that cannot be enforced never shadows one that can: every rule the
  mirror answers with is enabled, has a window and a strategy a limiter can be
  built from, and an enforceable rule that applies is answered in its scope by
  itself or by an enforceable rule at least as specific.
\<close>

theorem broken_rules_never_shadow:
  assumes "last_brought es = Some rules"
  shows "(\<forall>m. m \<in> set (fst (Resolve (mirror_run es) req)) \<longrightarrow>
            IsEnabled (mRule m) \<and> rWindows (mRule m) \<noteq> [] \<and> rStrategy (mRule m) \<in> set validRateLimitStrategies)
    \<and> (\<forall>r t w. r \<in> set rules \<and> EnforceabilityProblem r = [] \<and> applies req r t w \<longrightarrow>
          (\<exists>m. m \<in> set (fst (Resolve (mirror_run es) req)) \<and> rScope (mRule m) = rScope r
             \<and> EnforceabilityProblem (mRule m) = [] \<and> no_worse m t (rName r)))"
proof -
  have R: "fst (Resolve (mirror_run es) req) = ResolveRateLimits (EnforceableRateLimits rules) req"
    using assms by (simp add: Resolve_def Rules_def mirror_run_rules)
  have e: "IsEnabled (mRule m) \<and> EnforceabilityProblem (mRule m) = []"
    if "m \<in> set (ResolveRateLimits (EnforceableRateLimits rules) req)" for m
    using winner_in[OF that] by (simp add: EnforceableRateLimits_filter)
  have "rWindows r \<noteq> [] \<and> rStrategy r \<in> set validRateLimitStrategies" if "EnforceabilityProblem r = []" for r
    using that by (auto simp: EnforceabilityProblem_def IsValidRateLimitStrategy_None[symmetric] split: if_splits option.splits)
  with e have 1: "IsEnabled (mRule m) \<and> rWindows (mRule m) \<noteq> [] \<and> rStrategy (mRule m) \<in> set validRateLimitStrategies"
    if "m \<in> set (ResolveRateLimits (EnforceableRateLimits rules) req)" for m
    using that by blast
  have 2: "\<exists>m. m \<in> set (ResolveRateLimits (EnforceableRateLimits rules) req) \<and> rScope (mRule m) = rScope r
             \<and> EnforceabilityProblem (mRule m) = [] \<and> no_worse m t (rName r)"
    if "r \<in> set rules" "EnforceabilityProblem r = []" "applies req r t w" for r t w
  proof -
    from that have "r \<in> set (EnforceableRateLimits rules)"
      by (simp add: EnforceableRateLimits_filter applies_def)
    from winner_cover[OF this that(3)] e show ?thesis by metis
  qed
  show ?thesis unfolding R using 1 2 by blast
qed

lemma demo_brought: "last_brought [EApply (broken_rule # demo_rules)] = Some (broken_rule # demo_rules)"
  by simp

theorem broken_rules_never_shadow_witness:
  "list_all (\<lambda>m. rStrategy (mRule m) \<in> set validRateLimitStrategies)
     (fst (Resolve (mirror_run [EApply (broken_rule # demo_rules)]) (demo_request ''GET'')))"
  using broken_rules_never_shadow[OF demo_brought] unfolding list_all_iff by blast

end
