(* ===== verification/RateLimitBreaker.thy ===== *)
theory RateLimitBreaker
  imports Go_Prelude
begin

text \<open>
  The port \<open>internal/core/port/driven/ratelimit\<close> (a budget, a decision, a
  limiter) and its circuit breaker, \<open>internal/adapter/driven/ratelimitbreaker/breaker.go\<close>.
  A call carries a context: when it reaches the limiter, when the store has
  answered, and whether the caller had given up by then.  The locale
  \<open>limiter_port\<close> is the contract of the port; the breaker keeps it
  (\<open>sublocale guarded\<close>).
\<close>

section \<open>The port\<close>

record Budget =
  bStrategy :: string
  bPeriod :: duration
  bRequests :: int
  bBurst :: int

record Decision =
  dRetryAfter :: duration
  dRemaining :: int
  dAllowed :: bool

datatype limiter_error =
    InvalidBudget int duration
  | InvalidStrategy string
  | BreakerOpen
  | StoreFault string
  | Canceled

record call_ctx =
  cNow :: instant
  cDone :: instant
  cCancelled :: bool

type_synonym 's limiter = "call_ctx \<Rightarrow> string \<Rightarrow> Budget \<Rightarrow> 's \<Rightarrow> (limiter_error + Decision) \<times> 's"

text \<open>
  What the middleware relies on: the limiter keeps its own invariant, and a
  refusal never names a moment in the past.
\<close>

locale limiter_port =
  fixes allow :: "'s limiter"
    and ok :: "'s \<Rightarrow> bool"
  assumes ok_allow: "ok s \<Longrightarrow> ok (snd (allow ctx k b s))"
    and refusal: "ok s \<Longrightarrow> fst (allow ctx k b s) = Inr d \<Longrightarrow> \<not> dAllowed d \<Longrightarrow> 0 \<le> dRetryAfter d"
begin

definition runs :: "(call_ctx \<times> string \<times> Budget) list \<Rightarrow> 's \<Rightarrow> 's" where
  "runs cs s = foldl (\<lambda>s (ctx, k, b). snd (allow ctx k b s)) s cs"

lemma ok_runs: "ok s \<Longrightarrow> ok (runs cs s)"
  by (induction cs arbitrary: s) (auto simp: runs_def ok_allow)

lemma refusal_after_runs:
  "ok s \<Longrightarrow> fst (allow ctx k b (runs cs s)) = Inr d \<Longrightarrow> \<not> dAllowed d \<Longrightarrow> 0 \<le> dRetryAfter d"
  using ok_runs refusal by blast

end

section \<open>The breaker\<close>

record BreakerConfig =
  Threshold :: int
  Cooldown :: duration

text \<open>\<open>openUntil\<close> is \<open>None\<close> for the zero time.\<close>

record Breaker =
  openUntil :: "instant option"
  consecutiveFailures :: int
  probing :: bool

definition NewBreaker :: Breaker where
  "NewBreaker = \<lparr>openUntil = None, consecutiveFailures = 0, probing = False\<rparr>"

definition admit :: "instant \<Rightarrow> Breaker \<Rightarrow> bool \<times> Breaker" where
  "admit now b =
     (case openUntil b of
        None \<Rightarrow> (True, b)
      | Some u \<Rightarrow> if now < u then (False, b) else if probing b then (False, b) else (True, b\<lparr>probing := True\<rparr>))"

text \<open>
  \<open>failed\<close> is \<open>err != nil\<close>, \<open>cancelled\<close> that the context or the error is a
  cancellation.  The second result is the argument of \<open>OnStateChange\<close>, when
  the state changed.
\<close>

definition record_outcome ::
  "BreakerConfig \<Rightarrow> instant \<Rightarrow> bool \<Rightarrow> bool \<Rightarrow> Breaker \<Rightarrow> Breaker \<times> bool option" where
  "record_outcome cfg now failed cancelled b =
     (if failed \<and> cancelled then (b\<lparr>probing := False\<rparr>, None)
      else let wasOpen = (openUntil b \<noteq> None); b1 = b\<lparr>probing := False\<rparr>;
        b2 = (if \<not> failed then b1\<lparr>consecutiveFailures := 0, openUntil := None\<rparr>
              else let n = consecutiveFailures b1 + 1; b3 = b1\<lparr>consecutiveFailures := n\<rparr> in
                if n \<ge> Threshold cfg then b3\<lparr>openUntil := Some (now + Cooldown cfg)\<rparr> else b3);
        isOpen = (openUntil b2 \<noteq> None) in
      if wasOpen \<noteq> isOpen then (b2, Some isOpen) else (b2, None))"

definition is_cancelled :: "call_ctx \<Rightarrow> (limiter_error + Decision) \<Rightarrow> bool" where
  "is_cancelled ctx r = (cCancelled ctx \<or> r = Inl Canceled)"

definition is_error :: "(limiter_error + Decision) \<Rightarrow> bool" where
  "is_error r = (case r of Inl _ \<Rightarrow> True | Inr _ \<Rightarrow> False)"

definition BreakerAllow :: "BreakerConfig \<Rightarrow> 's limiter \<Rightarrow> (Breaker \<times> 's) limiter" where
  "BreakerAllow cfg allow ctx k budget bs =
     (case bs of (b, s) \<Rightarrow>
        let (go, b1) = admit (cNow ctx) b in
        if \<not> go then (Inl BreakerOpen, (b1, s))
        else let (r, s1) = allow ctx k budget s;
                 b2 = fst (record_outcome cfg (cDone ctx) (is_error r) (is_cancelled ctx r) b1)
             in (r, (b2, s1)))"

text \<open>\<open>New\<close>: a threshold or a cooldown that is not positive leaves the limiter unwrapped.\<close>

definition NewBreakerLimiter :: "BreakerConfig \<Rightarrow> 's limiter \<Rightarrow> (Breaker \<times> 's) limiter" where
  "NewBreakerLimiter cfg allow ctx k budget bs =
     (if Threshold cfg \<le> 0 \<or> Cooldown cfg \<le> 0 then
        (let (r, s1) = allow ctx k budget (snd bs) in (r, (fst bs, s1)))
      else BreakerAllow cfg allow ctx k budget bs)"

definition OpenAt :: "instant \<Rightarrow> Breaker \<Rightarrow> bool" where
  "OpenAt now b = (case openUntil b of None \<Rightarrow> False | Some u \<Rightarrow> now < u)"

section \<open>The invariant\<close>

definition breaker_ok :: "BreakerConfig \<Rightarrow> Breaker \<Rightarrow> bool" where
  "breaker_ok cfg b =
     (0 \<le> consecutiveFailures b
      \<and> (openUntil b = None \<longrightarrow> consecutiveFailures b < Threshold cfg)
      \<and> (openUntil b \<noteq> None \<longrightarrow> Threshold cfg \<le> consecutiveFailures b)
      \<and> (probing b \<longrightarrow> openUntil b \<noteq> None))"

lemma breaker_ok_new: "0 < Threshold cfg \<Longrightarrow> breaker_ok cfg NewBreaker"
  by (simp add: breaker_ok_def NewBreaker_def)

lemma breaker_ok_admit: "breaker_ok cfg b \<Longrightarrow> breaker_ok cfg (snd (admit now b))"
  by (auto simp: breaker_ok_def admit_def split: option.split)

lemma breaker_ok_record:
  assumes "breaker_ok cfg b" "0 < Threshold cfg"
  shows "breaker_ok cfg (fst (record_outcome cfg now failed cancelled b))"
  using assms by (auto simp: breaker_ok_def record_outcome_def Let_def)

lemma record_outcome_closes:
  "record_outcome cfg now False cancelled b =
     (\<lparr>openUntil = None, consecutiveFailures = 0, probing = False\<rparr>, if openUntil b = None then None else Some False)"
  by (cases b) (auto simp: record_outcome_def Let_def)

lemma admit_blocked: "OpenAt now b \<Longrightarrow> admit now b = (False, b)"
  by (auto simp: OpenAt_def admit_def split: option.splits)

locale breaker_over = limiter_port +
  fixes cfg :: BreakerConfig
  assumes threshold: "0 < Threshold cfg"

sublocale breaker_over \<subseteq> guarded: limiter_port "NewBreakerLimiter cfg allow" "\<lambda>(b, s). breaker_ok cfg b \<and> ok s"
proof
  fix ctx k b s
  assume s: "case s of (b, s) \<Rightarrow> breaker_ok cfg b \<and> ok s"
  then show "case snd (NewBreakerLimiter cfg allow ctx k b s) of (b, s) \<Rightarrow> breaker_ok cfg b \<and> ok s"
    using breaker_ok_admit[of cfg "fst s" "cNow ctx"] ok_allow[of "snd s" ctx k b] threshold
    by (auto simp: NewBreakerLimiter_def BreakerAllow_def Let_def breaker_ok_record split: prod.splits)
next
  fix ctx k b s d
  assume s: "case s of (b, s) \<Rightarrow> breaker_ok cfg b \<and> ok s"
    and r: "fst (NewBreakerLimiter cfg allow ctx k b s) = Inr d" "\<not> dAllowed d"
  have "fst (allow ctx k b (snd s)) = Inr d"
    using r(1) by (auto simp: NewBreakerLimiter_def BreakerAllow_def Let_def split: prod.splits if_splits)
  with s r(2) show "0 \<le> dRetryAfter d" using refusal by auto
qed

section \<open>Requests in flight\<close>

text \<open>
  \<open>Allow\<close> does not hold the mutex over the call of the store, so requests
  overlap: an event admits a request, or reports the outcome of one that was
  admitted.  \<open>inFlight\<close> are the requests that reached the store and have
  not reported.
\<close>

record breaker_sys =
  sysBreaker :: Breaker
  inFlight :: "nat set"
  clock :: instant

inductive breaker_step :: "BreakerConfig \<Rightarrow> breaker_sys \<Rightarrow> breaker_sys \<Rightarrow> bool" for cfg where
  Admit: "clock s \<le> t \<Longrightarrow> i \<notin> inFlight s \<Longrightarrow> admit t (sysBreaker s) = (True, b) \<Longrightarrow>
     breaker_step cfg s \<lparr>sysBreaker = b, inFlight = insert i (inFlight s), clock = t\<rparr>"
| Reject: "clock s \<le> t \<Longrightarrow> admit t (sysBreaker s) = (False, b) \<Longrightarrow>
     breaker_step cfg s \<lparr>sysBreaker = b, inFlight = inFlight s, clock = t\<rparr>"
| Report: "clock s \<le> t \<Longrightarrow> i \<in> inFlight s \<Longrightarrow> fst (record_outcome cfg t failed cancelled (sysBreaker s)) = b \<Longrightarrow>
     breaker_step cfg s \<lparr>sysBreaker = b, inFlight = inFlight s - {i}, clock = t\<rparr>"

definition breaker_init :: breaker_sys where
  "breaker_init = \<lparr>sysBreaker = NewBreaker, inFlight = {}, clock = 0\<rparr>"

inductive breaker_reach :: "BreakerConfig \<Rightarrow> breaker_sys \<Rightarrow> bool" for cfg where
  Init: "breaker_reach cfg breaker_init"
| Step: "breaker_reach cfg s \<Longrightarrow> breaker_step cfg s s' \<Longrightarrow> breaker_reach cfg s'"

inductive_cases breaker_stepE: "breaker_step cfg s s'"

lemma breaker_ok_step:
  "breaker_step cfg s s' \<Longrightarrow> breaker_ok cfg (sysBreaker s) \<Longrightarrow> 0 < Threshold cfg \<Longrightarrow> breaker_ok cfg (sysBreaker s')"
  by (erule breaker_stepE) (auto dest: breaker_ok_admit[where now = "clock s'"] simp: breaker_ok_record)

lemma breaker_reach_ok:
  "breaker_reach cfg s \<Longrightarrow> 0 < Threshold cfg \<Longrightarrow> breaker_ok cfg (sysBreaker s)"
  by (induction rule: breaker_reach.induct)
     (auto simp: breaker_init_def breaker_ok_new intro: breaker_ok_step)

section \<open>What the breaker promises\<close>

text \<open>
  While the breaker is open no request reaches the store, whatever else is
  in flight: no step taken before \<open>openUntil\<close> adds a request.  And it is
  open only after at least \<open>Threshold\<close> consecutive failures.
\<close>

theorem open_breaker_admits_nothing:
  assumes "breaker_reach cfg s" "0 < Threshold cfg" "openUntil (sysBreaker s) = Some u"
    and "breaker_step cfg s s'" "clock s' < u"
  shows "inFlight s' \<subseteq> inFlight s \<and> Threshold cfg \<le> consecutiveFailures (sysBreaker s)"
proof -
  have "Threshold cfg \<le> consecutiveFailures (sysBreaker s)"
    using breaker_reach_ok[OF assms(1,2)] assms(3) by (simp add: breaker_ok_def)
  moreover from assms(4) have "inFlight s' \<subseteq> inFlight s"
    using assms(3,5) by cases (auto simp: admit_def)
  ultimately show ?thesis by blast
qed

definition demo_cfg :: BreakerConfig where
  "demo_cfg = \<lparr>Threshold = 1, Cooldown = 5 * second\<rparr>"

definition opened :: Breaker where
  "opened = \<lparr>openUntil = Some (5 * second + 10), consecutiveFailures = 1, probing = False\<rparr>"

lemma demo_opened: "breaker_reach demo_cfg \<lparr>sysBreaker = opened, inFlight = {}, clock = 10\<rparr>"
proof -
  have "breaker_step demo_cfg breaker_init \<lparr>sysBreaker = NewBreaker, inFlight = {1}, clock = 5\<rparr>"
    using breaker_step.Admit[of breaker_init 5 1 NewBreaker demo_cfg] by (simp add: breaker_init_def NewBreaker_def admit_def)
  then have 1: "breaker_reach demo_cfg \<lparr>sysBreaker = NewBreaker, inFlight = {1}, clock = 5\<rparr>"
    by (rule breaker_reach.Step[OF breaker_reach.Init])
  have "breaker_step demo_cfg \<lparr>sysBreaker = NewBreaker, inFlight = {1}, clock = 5\<rparr>
      \<lparr>sysBreaker = opened, inFlight = {}, clock = 10\<rparr>"
    using breaker_step.Report[of "\<lparr>sysBreaker = NewBreaker, inFlight = {1}, clock = 5\<rparr>" 10 1 demo_cfg True False opened]
    by (simp add: NewBreaker_def record_outcome_def opened_def demo_cfg_def)
  with 1 show ?thesis by (rule breaker_reach.Step)
qed

theorem open_breaker_admits_nothing_witness:
  "Threshold demo_cfg \<le> consecutiveFailures opened"
proof -
  have "breaker_step demo_cfg \<lparr>sysBreaker = opened, inFlight = {}, clock = 10\<rparr>
      \<lparr>sysBreaker = opened, inFlight = {}, clock = 11\<rparr>"
    using breaker_step.Reject[of "\<lparr>sysBreaker = opened, inFlight = {}, clock = 10\<rparr>" 11 opened demo_cfg]
    by (simp add: opened_def admit_def)
  with open_breaker_admits_nothing[OF demo_opened, of "5 * second + 10"] show ?thesis
    by (simp add: demo_cfg_def opened_def)
qed

definition breaker_calls ::
  "BreakerConfig \<Rightarrow> 's limiter \<Rightarrow> string \<Rightarrow> Budget \<Rightarrow> call_ctx list \<Rightarrow> Breaker \<times> 's \<Rightarrow> Breaker \<times> 's" where
  "breaker_calls cfg allow k budget cs bs = foldl (\<lambda>bs ctx. snd (NewBreakerLimiter cfg allow ctx k budget bs)) bs cs"

definition store_calls :: "'s limiter \<Rightarrow> string \<Rightarrow> Budget \<Rightarrow> call_ctx list \<Rightarrow> 's \<Rightarrow> 's" where
  "store_calls allow k budget cs s = foldl (\<lambda>s ctx. snd (allow ctx k budget s)) s cs"

definition outage :: "'s limiter \<Rightarrow> bool" where
  "outage allow = (\<forall>ctx k b s. \<exists>e. fst (allow ctx k b s) = Inl e \<and> e \<noteq> Canceled)"

lemma breaker_calls_open:
  assumes "openUntil b = Some u" "\<And>ctx. ctx \<in> set cs \<Longrightarrow> cNow ctx < u" "0 < Threshold cfg" "0 < Cooldown cfg"
  shows "breaker_calls cfg allow k budget cs (b, s) = (b, s)"
  using assms(2)
proof (induction cs)
  case (Cons ctx cs)
  then have "admit (cNow ctx) b = (False, b)" using assms(1) by (simp add: admit_def)
  then have "snd (NewBreakerLimiter cfg allow ctx k budget (b, s)) = (b, s)"
    using assms(3,4) by (simp add: NewBreakerLimiter_def BreakerAllow_def)
  with Cons show ?case by (simp add: breaker_calls_def)
qed (simp add: breaker_calls_def)

lemma failing_call:
  assumes "outage allow" "\<not> cCancelled ctx" "0 < Cooldown cfg" "0 \<le> c" "c < Threshold cfg"
  shows "snd (NewBreakerLimiter cfg allow ctx k budget (\<lparr>openUntil = None, consecutiveFailures = c, probing = p\<rparr>, s))
     = (\<lparr>openUntil = (if Threshold cfg \<le> c + 1 then Some (cDone ctx + Cooldown cfg) else None),
         consecutiveFailures = c + 1, probing = False\<rparr>, snd (allow ctx k budget s))"
proof -
  obtain e s1 where e: "allow ctx k budget s = (Inl e, s1)" "e \<noteq> Canceled"
    using assms(1) by (metis outage_def prod.collapse)
  then show ?thesis
    using assms by (auto simp: NewBreakerLimiter_def BreakerAllow_def admit_def record_outcome_def
        is_error_def is_cancelled_def Let_def)
qed

lemma breaker_calls_failing:
  assumes "outage allow" "0 < Cooldown cfg"
    and "\<And>ctx. ctx \<in> set cs \<Longrightarrow> \<not> cCancelled ctx \<and> t \<le> cDone ctx \<and> cNow ctx < t + Cooldown cfg"
    and "0 \<le> c" "c < Threshold cfg"
  shows "snd (breaker_calls cfg allow k budget cs (\<lparr>openUntil = None, consecutiveFailures = c, probing = False\<rparr>, s))
    = store_calls allow k budget (take (nat (Threshold cfg - c)) cs) s"
  using assms(3-)
proof (induction cs arbitrary: c s)
  case (Cons ctx cs)
  let ?s1 = "snd (allow ctx k budget s)"
  have f: "\<not> cCancelled ctx" "t \<le> cDone ctx" using Cons.prems(1) by auto
  note call = failing_call[OF assms(1) f(1) assms(2) Cons.prems(2,3), of k budget False s]
  have n: "nat (Threshold cfg - c) = Suc (nat (Threshold cfg - (c + 1)))"
    using Cons.prems(3) by simp
  show ?case
  proof (cases "Threshold cfg \<le> c + 1")
    case True
    let ?b = "\<lparr>openUntil = Some (cDone ctx + Cooldown cfg), consecutiveFailures = c + 1, probing = False\<rparr>"
    have "breaker_calls cfg allow k budget cs (?b, ?s1) = (?b, ?s1)"
    proof (rule breaker_calls_open)
      show "cNow x < cDone ctx + Cooldown cfg" if "x \<in> set cs" for x
        using Cons.prems(1)[of x] f that by simp
    qed (use Cons.prems assms(2) in simp_all)
    with call True n show ?thesis by (simp add: breaker_calls_def store_calls_def)
  next
    case False
    with Cons.IH[of "c + 1" ?s1] Cons.prems call n show ?thesis
      by (simp add: breaker_calls_def store_calls_def)
  qed
qed (simp add: breaker_calls_def store_calls_def)

text \<open>
  An outage costs at most \<open>Threshold\<close> failed round trips per cooldown:
  however many calls follow one another against a store that answers none of
  them, the store sees the first \<open>Threshold\<close> only.
\<close>

theorem outage_costs_threshold_calls:
  assumes "outage allow" "0 < Threshold cfg" "0 < Cooldown cfg"
    and "\<And>ctx. ctx \<in> set cs \<Longrightarrow> \<not> cCancelled ctx \<and> t \<le> cDone ctx \<and> cNow ctx < t + Cooldown cfg"
  shows "snd (breaker_calls cfg allow k budget cs (NewBreaker, s))
    = store_calls allow k budget (take (nat (Threshold cfg)) cs) s"
  unfolding NewBreaker_def
  using breaker_calls_failing[OF assms(1,3,4), of cs 0 k budget s] assms(2) by simp

definition dead_store :: "nat limiter" where
  "dead_store ctx k b n = (Inl (StoreFault ''dial''), n + 1)"

definition ctx_at :: "instant \<Rightarrow> call_ctx" where
  "ctx_at t = \<lparr>cNow = t, cDone = t + 1, cCancelled = False\<rparr>"

theorem outage_costs_threshold_calls_witness:
  "snd (breaker_calls \<lparr>Threshold = 2, Cooldown = 100\<rparr> dead_store ''k''
     \<lparr>bStrategy = ''token_bucket'', bPeriod = second, bRequests = 1, bBurst = 0\<rparr>
     (map ctx_at [1, 2, 3, 4, 5]) (NewBreaker, 0)) = 2"
proof -
  have "outage dead_store" by (simp add: outage_def dead_store_def)
  then have "snd (breaker_calls \<lparr>Threshold = 2, Cooldown = 100\<rparr> dead_store ''k''
     \<lparr>bStrategy = ''token_bucket'', bPeriod = second, bRequests = 1, bBurst = 0\<rparr>
     (map ctx_at [1, 2, 3, 4, 5]) (NewBreaker, 0))
     = store_calls dead_store ''k'' \<lparr>bStrategy = ''token_bucket'', bPeriod = second, bRequests = 1, bBurst = 0\<rparr>
       (take (nat (Threshold \<lparr>Threshold = 2, Cooldown = 100\<rparr>)) (map ctx_at [1, 2, 3, 4, 5])) 0"
    by (rule outage_costs_threshold_calls[where t = 0]) (auto simp: ctx_at_def)
  then show ?thesis by (simp add: store_calls_def dead_store_def ctx_at_def)
qed

text \<open>
  C38. Recovery: once the cooldown has passed the next call is the probe.
  While it is out everyone else is refused; if the store answers it the
  breaker is as good as new, and if it fails the breaker is open for another
  cooldown from that moment.
\<close>

theorem probe_decides:
  assumes b: "openUntil b = Some u" "u \<le> cNow ctx" "\<not> probing b" "breaker_ok cfg b"
    and cfg: "0 < Threshold cfg" "0 < Cooldown cfg"
    and live: "\<not> is_cancelled ctx (fst (allow ctx k budget s))"
  shows "(\<forall>t. \<not> fst (admit t (snd (admit (cNow ctx) b))))
    \<and> fst (NewBreakerLimiter cfg allow ctx k budget (b, s)) = fst (allow ctx k budget s)
    \<and> (let b' = fst (snd (NewBreakerLimiter cfg allow ctx k budget (b, s))) in
        if is_error (fst (allow ctx k budget s)) then openUntil b' = Some (cDone ctx + Cooldown cfg) \<and> \<not> probing b'
        else b' = NewBreaker)"
proof -
  have a: "admit (cNow ctx) b = (True, b\<lparr>probing := True\<rparr>)" using b by (simp add: admit_def)
  obtain r s1 where r: "allow ctx k budget s = (r, s1)" by fastforce
  have "Threshold cfg \<le> consecutiveFailures b" using b by (simp add: breaker_ok_def)
  then show ?thesis
    using a r b cfg live
    by (auto simp: NewBreakerLimiter_def BreakerAllow_def record_outcome_def Let_def admit_def NewBreaker_def)
qed

theorem probe_decides_witness:
  "openUntil (fst (snd (NewBreakerLimiter demo_cfg dead_store (ctx_at (6 * second)) ''k''
     \<lparr>bStrategy = ''token_bucket'', bPeriod = second, bRequests = 1, bBurst = 0\<rparr> (opened, 0))))
   = Some (11 * second + 1)"
  using probe_decides[of opened "5 * second + 10" "ctx_at (6 * second)" demo_cfg dead_store "''k''"
      "\<lparr>bStrategy = ''token_bucket'', bPeriod = second, bRequests = 1, bBurst = 0\<rparr>" 0]
  by (simp add: opened_def ctx_at_def demo_cfg_def breaker_ok_def is_cancelled_def dead_store_def is_error_def Let_def)

text \<open>
  Half-open does not always admit exactly one probe.  A request admitted
  before the breaker opened and cancelled after the probe went out clears
  \<open>probing\<close>, and a second probe follows while the first has not reported: a
  reachable state has two requests in flight that were both admitted after
  the breaker opened and before anything closed it.
\<close>

theorem straggler_admits_a_second_probe:
  "\<exists>s s'. breaker_reach demo_cfg s \<and> breaker_step demo_cfg s s'
     \<and> openUntil (sysBreaker s) = Some (5 * second + 10) \<and> inFlight s = {2}
     \<and> openUntil (sysBreaker s') = Some (5 * second + 10) \<and> inFlight s' = {2, 3}"
proof -
  let ?st = "\<lambda>b f t. \<lparr>sysBreaker = b, inFlight = f, clock = t\<rparr>"
  let ?c = "NewBreaker" and ?o = "opened" and ?p = "opened\<lparr>probing := True\<rparr>"
  note defs = NewBreaker_def opened_def demo_cfg_def admit_def record_outcome_def breaker_init_def
  have "breaker_step demo_cfg breaker_init (?st ?c {0} 1)"
    using breaker_step.Admit[of breaker_init 1 0 ?c demo_cfg] by (simp add: defs)
  note 1 = breaker_reach.Step[OF breaker_reach.Init this]
  have "breaker_step demo_cfg (?st ?c {0} 1) (?st ?c {0, 1} 2)"
    using breaker_step.Admit[of "?st ?c {0} 1" 2 1 ?c demo_cfg] by (simp add: defs insert_commute insert_Diff_if)
  note 2 = breaker_reach.Step[OF 1 this]
  have "breaker_step demo_cfg (?st ?c {0, 1} 2) (?st ?o {0} 10)"
    using breaker_step.Report[of "?st ?c {0, 1} 2" 10 1 demo_cfg True False ?o] by (simp add: defs insert_commute insert_Diff_if)
  note 3 = breaker_reach.Step[OF 2 this]
  have "breaker_step demo_cfg (?st ?o {0} 10) (?st ?p {0, 2} (6 * second))"
    using breaker_step.Admit[of "?st ?o {0} 10" "6 * second" 2 ?p demo_cfg] by (simp add: defs insert_commute insert_Diff_if)
  note 4 = breaker_reach.Step[OF 3 this]
  have "breaker_step demo_cfg (?st ?p {0, 2} (6 * second)) (?st ?o {2} (7 * second))"
    using breaker_step.Report[of "?st ?p {0, 2} (6 * second)" "7 * second" 0 demo_cfg True True ?o]
    by (simp add: defs insert_commute insert_Diff_if)
  note 5 = breaker_reach.Step[OF 4 this]
  have "breaker_step demo_cfg (?st ?o {2} (7 * second)) (?st ?p {2, 3} (8 * second))"
    using breaker_step.Admit[of "?st ?o {2} (7 * second)" "8 * second" 3 ?p demo_cfg] by (simp add: defs insert_commute insert_Diff_if)
  with 5 show ?thesis by (intro exI conjI) (auto simp: opened_def)
qed

end
