(* ===== verification/RateLimitStores.thy ===== *)
theory RateLimitStores
  imports RateLimitBreaker "HOL-Library.AList"
begin

text \<open>
  The stores behind the port: the shared fixed-window counter
  (\<open>internal/adapter/driven/ratelimitvalkey/adapter.go\<close>), the in-process
  buckets (\<open>ratelimitmemory/adapter.go\<close>) and the login throttle
  (\<open>throttlememory/adapter.go\<close>).  The Valkey client and the limiter library
  are records of functions the definitions take as arguments.  Each store is
  an interpretation of \<open>limiter_port\<close>, and so is each behind a breaker; the
  throttle has a contract of its own, \<open>throttle_port\<close>.
\<close>

section \<open>The shared counter\<close>

record 'v valkey_client =
  vk_incr :: "string \<Rightarrow> 'v \<Rightarrow> (string + int) \<times> 'v"
  vk_pexpire :: "string \<Rightarrow> int \<Rightarrow> 'v \<Rightarrow> string option \<times> 'v"

definition KeyPrefix :: string where "KeyPrefix = ''ratelimit:''"

definition capacity :: "Budget \<Rightarrow> int" where
  "capacity b = (if bBurst b > bRequests b then bBurst b else bRequests b)"

definition decide :: "int \<Rightarrow> Budget \<Rightarrow> duration \<Rightarrow> Decision" where
  "decide count b resetsIn =
     (let limit = capacity b in
      if count > limit then \<lparr>dRetryAfter = resetsIn, dRemaining = 0, dAllowed = False\<rparr>
      else \<lparr>dRetryAfter = 0, dRemaining = limit - count, dAllowed = True\<rparr>)"

text \<open>\<open>Duration.Milliseconds\<close> truncates, \<open>Time.UnixMilli\<close> rounds down.\<close>

definition milliseconds :: "duration \<Rightarrow> int" where
  "milliseconds d = d sdiv 1000000"

definition window_period :: "Budget \<Rightarrow> int" where
  "window_period b = (let p = milliseconds (bPeriod b) in if p \<le> 0 then 1 else p)"

definition vkWindowKey :: "string \<Rightarrow> Budget \<Rightarrow> instant \<Rightarrow> string \<times> duration" where
  "vkWindowKey key b now =
     (let period = window_period b; ms = now div 1000000; index = ms sdiv period in
      (KeyPrefix @ key @ '':'' @ itoa index, ((index + 1) * period - ms) * 1000000))"

definition vk_expire :: "'v valkey_client \<Rightarrow> string \<Rightarrow> duration \<Rightarrow> 'v \<Rightarrow> string option \<times> 'v" where
  "vk_expire client key period v =
     (case vk_pexpire client key (milliseconds (period + second)) v of
        (Some e, v1) \<Rightarrow> (Some (''ratelimitvalkey: pexpire: '' @ e), v1)
      | (None, v1) \<Rightarrow> (None, v1))"

definition ValkeyAllow :: "'v valkey_client \<Rightarrow> 'v limiter" where
  "ValkeyAllow client ctx key b v =
     (if bPeriod b \<le> 0 \<or> bRequests b \<le> 0 then (Inl (InvalidBudget (bRequests b) (bPeriod b)), v)
      else let (wkey, resetsIn) = vkWindowKey key b (cNow ctx) in
        case vk_incr client wkey v of
          (Inl e, v1) \<Rightarrow> (Inl (StoreFault (''ratelimitvalkey: incr: '' @ e)), v1)
        | (Inr count, v1) \<Rightarrow>
            if count = 1 then
              (case vk_expire client wkey (bPeriod b) v1 of (_, v2) \<Rightarrow> (Inr (decide count b resetsIn), v2))
            else (Inr (decide count b resetsIn), v1))"

lemma resets_bounds: "0 < snd (vkWindowKey key b now)"
  and resets_upper: "0 \<le> now \<Longrightarrow> snd (vkWindowKey key b now) \<le> window_period b * 1000000"
proof -
  have p: "0 < window_period b" by (simp add: window_period_def Let_def)
  let ?ms = "now div 1000000" and ?p = "window_period b"
  have e: "(?ms sdiv ?p + 1) * ?p - ?ms = ?p - ?ms smod ?p"
    using sdiv_mult_smod_eq[of ?ms ?p] by (simp add: algebra_simps)
  have "?ms smod ?p < ?p" using smod_int_range[of ?p ?ms] p by simp
  with e show "0 < snd (vkWindowKey key b now)"
    by (simp add: vkWindowKey_def Let_def)
  show "snd (vkWindowKey key b now) \<le> window_period b * 1000000" if "0 \<le> now"
  proof -
    have "0 \<le> ?ms" using that by simp
    then have "(?ms sdiv ?p + 1) * ?p - ?ms \<le> ?p" using p e smod_int_compares(2)[of ?ms ?p] by linarith
    then have "((?ms sdiv ?p + 1) * ?p - ?ms) * 1000000 \<le> ?p * 1000000" by (rule mult_right_mono) simp
    then show ?thesis by (simp add: vkWindowKey_def Let_def del: mult_le_cancel_right)
  qed
qed

interpretation valkey: limiter_port "ValkeyAllow client" "\<lambda>_. True" for client
proof
  fix ctx k b s d
  assume "fst (ValkeyAllow client ctx k b s) = Inr d" "\<not> dAllowed d"
  then show "0 \<le> dRetryAfter d"
    using resets_bounds[of k b "cNow ctx"]
    by (auto simp: ValkeyAllow_def decide_def Let_def split: prod.splits sum.splits if_splits)
qed simp

text \<open>
  \<open>INCR\<close> and \<open>PEXPIRE\<close> as Valkey documents them.  The server has a clock of
  its own, in milliseconds, which only moves forward, and keeps for a key its
  count and the deadline it expires at, if any.  A key whose deadline has
  passed is gone; \<open>INCR\<close> starts a key that is not there at one, without a
  deadline, and leaves the deadline of one that is there; \<open>PEXPIRE\<close> sets the
  deadline, and deletes the key when the time is not positive.  A command that
  failed on the way back may or may not have been carried out.
\<close>

type_synonym counter = "(int \<times> int option) option"

definition unexpired :: "int \<Rightarrow> counter \<Rightarrow> counter" where
  "unexpired now e = (case e of Some (n, Some d) \<Rightarrow> if d < now then None else e | _ \<Rightarrow> e)"

definition count_of :: "counter \<Rightarrow> int" where
  "count_of e = (case e of None \<Rightarrow> 0 | Some (n, _) \<Rightarrow> n)"

definition incremented :: "counter \<Rightarrow> int \<times> int option" where
  "incremented e = (case e of None \<Rightarrow> (1, None) | Some (n, d) \<Rightarrow> (n + 1, d))"

definition expiring :: "int \<Rightarrow> int \<Rightarrow> counter \<Rightarrow> counter" where
  "expiring now ttl e =
     (case unexpired now e of None \<Rightarrow> None | Some (n, _) \<Rightarrow> if ttl \<le> 0 then None else Some (n, Some (now + ttl)))"

definition counts_up :: "'v valkey_client \<Rightarrow> ('v \<Rightarrow> int) \<Rightarrow> ('v \<Rightarrow> string \<Rightarrow> counter) \<Rightarrow> bool" where
  "counts_up client clk table =
     ((\<forall>k v r v'. vk_incr client k v = (r, v') \<longrightarrow> clk v \<le> clk v'
         \<and> (let e = incremented (unexpired (clk v') (table v k)) in
            case r of Inr n \<Rightarrow> n = fst e \<and> table v' k = Some e
            | Inl _ \<Rightarrow> table v' k = table v k \<or> table v' k = Some e))
      \<and> (\<forall>k ttl v r v'. vk_pexpire client k ttl v = (r, v') \<longrightarrow> clk v \<le> clk v'
         \<and> (table v' k = expiring (clk v') ttl (table v k) \<or> r \<noteq> None \<and> table v' k = table v k)))"

fun valkey_run :: "'v valkey_client \<Rightarrow> string \<Rightarrow> Budget \<Rightarrow> call_ctx list \<Rightarrow> 'v \<Rightarrow> int \<times> 'v" where
  "valkey_run client k b [] v = (0, v)"
| "valkey_run client k b (ctx # cs) v =
     (case ValkeyAllow client ctx k b v of (r, v1) \<Rightarrow>
        (case valkey_run client k b cs v1 of (n, v2) \<Rightarrow>
           ((case r of Inr d \<Rightarrow> if dAllowed d then n + 1 else n | Inl _ \<Rightarrow> n), v2)))"

definition window_index :: "Budget \<Rightarrow> instant \<Rightarrow> int" where
  "window_index b now = now div 1000000 sdiv window_period b"

lemma vkWindowKey_same:
  "window_index b t = window_index b t' \<Longrightarrow> fst (vkWindowKey k b t) = fst (vkWindowKey k b t')"
  by (simp add: vkWindowKey_def window_index_def Let_def)

definition window_end :: "Budget \<Rightarrow> instant \<Rightarrow> int" where
  "window_end b t = (window_index b t + 1) * window_period b"

text \<open>
  The clocks: when a call is done the server's clock is at most \<open>early\<close>
  milliseconds behind, and at most \<open>late\<close> ahead of, what the caller's own
  clock read as the call began.
\<close>

fun timely :: "'v valkey_client \<Rightarrow> ('v \<Rightarrow> int) \<Rightarrow> int \<Rightarrow> int \<Rightarrow> string \<Rightarrow> Budget \<Rightarrow> call_ctx list \<Rightarrow> 'v \<Rightarrow> bool" where
  "timely client clk early late k b [] v = True"
| "timely client clk early late k b (ctx # cs) v =
     (let v1 = snd (ValkeyAllow client ctx k b v); now = cNow ctx div 1000000 in
      now - early \<le> clk v1 \<and> clk v1 \<le> now + late \<and> timely client clk early late k b cs v1)"

definition lasting :: "int \<Rightarrow> counter \<Rightarrow> bool" where
  "lasting until e = (\<forall>n d. e = Some (n, Some d) \<longrightarrow> until \<le> d)"

lemma window_bounds:
  assumes "0 \<le> now"
  shows "now div 1000000 < window_end b now \<and> window_end b now \<le> now div 1000000 + window_period b"
proof -
  let ?ms = "now div 1000000" and ?p = "window_period b"
  have p: "0 < ?p" by (simp add: window_period_def Let_def)
  have e: "(?ms sdiv ?p + 1) * ?p - ?ms = ?p - ?ms smod ?p"
    using sdiv_mult_smod_eq[of ?ms ?p] by (simp add: algebra_simps)
  have "?ms smod ?p < ?p" using smod_int_range[of ?p ?ms] p by simp
  moreover have "0 \<le> ?ms smod ?p" using assms p smod_int_compares(2)[of ?ms ?p] by simp
  ultimately show ?thesis using e by (simp add: window_end_def window_index_def)
qed

lemma ttl_covers: "0 < bPeriod b \<Longrightarrow> window_period b + 999 \<le> milliseconds (bPeriod b + second)"
  by (auto simp: window_period_def milliseconds_def Let_def signed_divide_int_def zdiv_mono1 split: if_splits)

lemma lasting_unexpired: "lasting until e \<Longrightarrow> now \<le> until \<Longrightarrow> unexpired now e = e"
  by (auto simp: lasting_def unexpired_def split: option.splits)

lemma lasting_incremented: "lasting until e \<Longrightarrow> lasting until (Some (incremented e))"
  by (auto simp: lasting_def incremented_def split: option.splits)

lemma count_of_incremented: "count_of (Some (incremented e)) = count_of e + 1"
  by (simp add: count_of_def incremented_def split: option.split prod.split)

lemma expiring_count:
  "lasting until e \<Longrightarrow> now \<le> until \<Longrightarrow> 0 < ttl \<Longrightarrow> until \<le> now + ttl
    \<Longrightarrow> count_of (expiring now ttl e) = count_of e \<and> lasting until (expiring now ttl e)"
  by (auto simp: expiring_def lasting_unexpired) (auto simp: count_of_def lasting_def split: option.splits)

lemma vk_expire_keeps:
  assumes c: "counts_up client clk table" and r: "vk_expire client wk period v = (r, v1)"
    and l: "lasting until (table v wk)" and t: "clk v1 \<le> until" "0 < milliseconds (period + second)"
      "until \<le> clk v1 + milliseconds (period + second)"
  shows "clk v \<le> clk v1 \<and> count_of (table v1 wk) = count_of (table v wk) \<and> lasting until (table v1 wk)"
proof -
  let ?t = "milliseconds (period + second)"
  obtain r0 where r0: "vk_pexpire client wk ?t v = (r0, v1)"
    using r by (auto simp: vk_expire_def split: prod.splits option.splits)
  with c have "clk v \<le> clk v1
      \<and> (table v1 wk = expiring (clk v1) ?t (table v wk) \<or> r0 \<noteq> None \<and> table v1 wk = table v wk)"
    unfolding counts_up_def by blast
  with expiring_count[OF l t(1,2,3)] l show ?thesis by metis
qed

lemma ValkeyAllow_counts:
  assumes c: "counts_up client clk table" and r: "ValkeyAllow client ctx k b v = (r, v1)"
    and w: "fst (vkWindowKey k b (cNow ctx)) = wk"
    and l: "lasting until (table v wk)" and t: "clk v1 \<le> until"
      "until \<le> clk v1 + window_period b + 999"
  shows "count_of (table v wk) \<le> count_of (table v1 wk) \<and> lasting until (table v1 wk)
    \<and> (\<forall>d. r = Inr d \<longrightarrow> count_of (table v1 wk) = count_of (table v wk) + 1
        \<and> (dAllowed d \<longleftrightarrow> count_of (table v wk) + 1 \<le> capacity b))"
proof (cases "bPeriod b \<le> 0 \<or> bRequests b \<le> 0")
  case True with r l show ?thesis by (auto simp: ValkeyAllow_def)
next
  case False
  obtain ri where ri: "vkWindowKey k b (cNow ctx) = (wk, ri)" using w by (metis prod.collapse)
  obtain a v' where a: "vk_incr client wk v = (a, v')" by fastforce
  let ?e = "incremented (unexpired (clk v') (table v wk))"
  have i: "case a of Inr n \<Rightarrow> n = fst ?e \<and> table v' wk = Some ?e
      | Inl _ \<Rightarrow> table v' wk = table v wk \<or> table v' wk = Some ?e"
    using c a unfolding counts_up_def Let_def by blast
  show ?thesis
  proof (cases a)
    case (Inl e)
    with a ri r False have v1: "v1 = v'" "\<And>d. r \<noteq> Inr d" by (auto simp: ValkeyAllow_def)
    have "unexpired (clk v') (table v wk) = table v wk" using lasting_unexpired[OF l] t(1) v1(1) by simp
    with i Inl v1 l show ?thesis
      by (auto simp: count_of_incremented lasting_incremented)
  next
    case (Inr n)
    obtain x where x: "v1 = v' \<and> n \<noteq> 1 \<or> vk_expire client wk (bPeriod b) v' = (x, v1)"
      and r2: "r = Inr (decide n b ri)"
      using r a ri Inr False by (auto simp: ValkeyAllow_def split: prod.splits if_splits)
    have mono: "clk v' \<le> clk v1"
      using x c unfolding vk_expire_def counts_up_def by (auto split: prod.splits option.splits)
    then have lv: "unexpired (clk v') (table v wk) = table v wk" using lasting_unexpired[OF l] t(1) by simp
    with i Inr have n: "table v' wk = Some (incremented (table v wk))" "n = count_of (table v wk) + 1"
      using count_of_incremented[of "table v wk"] by (auto simp: count_of_def split: prod.splits)
    have l': "lasting until (table v' wk)" using n lasting_incremented[OF l] by simp
    have ttl: "window_period b + 999 \<le> milliseconds (bPeriod b + second)" "0 < window_period b"
      using False ttl_covers by (auto simp: window_period_def Let_def)
    have "count_of (table v1 wk) = count_of (table v' wk) \<and> lasting until (table v1 wk)"
      using x vk_expire_keeps[OF c _ l' t(1)] l' t(2) ttl by fastforce
    with n r2 show ?thesis by (auto simp: count_of_incremented decide_def Let_def)
  qed
qed

text \<open>
  C37. Within one window the shared counter admits no more than the capacity of
  the budget, whichever replicas the requests reach, one after another, and
  whatever commands fail on the way; requests already counted in the window
  are part of it.  The time to live is what this takes: a counter that expired
  inside its window would start over.  The second of slack pays for the
  clocks: it is enough as long as what a replica's clock is ahead of the
  server's, and what the server is behind it by the time the call is done,
  come to no more than a second together.
\<close>

theorem valkey_window_budget:
  assumes "counts_up client clk table"
    and "\<And>ctx. ctx \<in> set cs \<Longrightarrow> 0 \<le> cNow ctx \<and> window_index b (cNow ctx) = window_index b t"
    and "timely client clk early late k b cs v" and "early + late \<le> 1000"
    and "lasting (window_end b t - 1 + late) (table v (fst (vkWindowKey k b t)))"
  shows "count_of (table v (fst (vkWindowKey k b t))) + fst (valkey_run client k b cs v)
    \<le> max (count_of (table v (fst (vkWindowKey k b t)))) (capacity b)"
  using assms(2,3,5)
proof (induction cs arbitrary: v)
  case (Cons ctx cs)
  let ?wk = "fst (vkWindowKey k b t)" and ?now = "cNow ctx div 1000000"
  obtain r v1 where r: "ValkeyAllow client ctx k b v = (r, v1)" by fastforce
  have n: "0 \<le> cNow ctx" "window_index b (cNow ctx) = window_index b t" using Cons.prems(1) by auto
  have w: "fst (vkWindowKey k b (cNow ctx)) = ?wk" by (rule vkWindowKey_same) (rule n(2))
  have e: "?now < window_end b t \<and> window_end b t \<le> ?now + window_period b"
    using window_bounds[OF n(1), of b] n(2) by (simp add: window_end_def)
  have t: "?now - early \<le> clk v1" "clk v1 \<le> ?now + late" "timely client clk early late k b cs v1"
    using Cons.prems(2) r by (auto simp: Let_def)
  have "clk v1 \<le> window_end b t - 1 + late" "window_end b t - 1 + late \<le> clk v1 + window_period b + 999"
    using e t assms(4) by linarith+
  note step = ValkeyAllow_counts[OF assms(1) r w Cons.prems(3) this]
  have IH: "count_of (table v1 ?wk) + fst (valkey_run client k b cs v1) \<le> max (count_of (table v1 ?wk)) (capacity b)"
    using Cons step t(3) by simp
  with r step show ?case by (auto split: prod.splits sum.splits)
qed simp

text \<open>A counter table with a clock, ten milliseconds a command, for the concrete runs.\<close>

definition table_client :: "(int \<times> (string \<Rightarrow> counter)) valkey_client" where
  "table_client = \<lparr>
     vk_incr = (\<lambda>k (c, m). let e = incremented (unexpired (c + 10) (m k)) in (Inr (fst e), (c + 10, m(k := Some e)))),
     vk_pexpire = (\<lambda>k ttl (c, m). (None, (c + 10, m(k := expiring (c + 10) ttl (m k)))))\<rparr>"

definition per_minute :: "int \<Rightarrow> int \<Rightarrow> Budget" where
  "per_minute n burst = \<lparr>bStrategy = ''token_bucket'', bPeriod = minute, bRequests = n, bBurst = burst\<rparr>"

lemma table_client_counts: "counts_up table_client fst snd"
  by (auto simp: counts_up_def table_client_def Let_def)

theorem valkey_window_budget_witness:
  "fst (valkey_run table_client ''k'' (per_minute 2 0) (map ctx_at [1, 2, 20000003]) (0, \<lambda>_. None)) \<le> 2"
proof -
  let ?cs = "map ctx_at [1, 2, 20000003]" and ?v = "(0::int, \<lambda>_::string. None :: counter)"
  have "0 \<le> cNow ctx \<and> window_index (per_minute 2 0) (cNow ctx) = window_index (per_minute 2 0) 0"
    if "ctx \<in> set ?cs" for ctx
    using that by (auto simp: window_index_def window_period_def milliseconds_def per_minute_def signed_divide_int_def ctx_at_def)
  moreover have "timely table_client fst 5 500 ''k'' (per_minute 2 0) ?cs ?v"
    by (simp add: ValkeyAllow_def vk_expire_def table_client_def per_minute_def vkWindowKey_def window_period_def
      milliseconds_def Let_def ctx_at_def unexpired_def incremented_def expiring_def)
  moreover have "lasting (window_end (per_minute 2 0) 0 - 1 + 500) (snd ?v (fst (vkWindowKey ''k'' (per_minute 2 0) 0)))"
    by (simp add: lasting_def)
  ultimately have "count_of (snd ?v (fst (vkWindowKey ''k'' (per_minute 2 0) 0)))
     + fst (valkey_run table_client ''k'' (per_minute 2 0) ?cs ?v)
     \<le> max (count_of (snd ?v (fst (vkWindowKey ''k'' (per_minute 2 0) 0)))) (capacity (per_minute 2 0))"
    by (intro valkey_window_budget[OF table_client_counts, where early = 5 and late = 500]) auto
  then show ?thesis by (simp add: capacity_def per_minute_def count_of_def)
qed

section \<open>The in-process buckets\<close>

text \<open>
  The library (\<open>github.com/slashdevops/ratelimiter\<close>): which strategies parse,
  a fresh limiter for a limit, whether a limiter is a \<open>Reserver\<close>, and its
  operations on the limiter's own state.
\<close>

record 'l limiter_lib =
  ParseStrategy :: "string \<Rightarrow> bool"
  NewLimiterFunc :: "string \<Rightarrow> int \<Rightarrow> duration \<Rightarrow> int \<Rightarrow> instant \<Rightarrow> string + 'l"
  is_Reserver :: "'l \<Rightarrow> bool"
  lib_Allow :: "instant \<Rightarrow> 'l \<Rightarrow> bool \<times> 'l"
  lib_Reserve :: "instant \<Rightarrow> 'l \<Rightarrow> (bool \<times> duration) \<times> 'l"
  lib_Cancel :: "instant \<Rightarrow> 'l \<Rightarrow> 'l"

record 'l bucket_entry =
  eSeen :: instant
  eLimiter :: 'l
  eBudget :: Budget

type_synonym 'l buckets = "(string \<times> 'l bucket_entry) list"

definition retryAfterFor :: "Budget \<Rightarrow> duration" where
  "retryAfterFor b =
     (if bRequests b \<le> 0 \<or> bPeriod b \<le> 0 then second
      else let d = bPeriod b sdiv bRequests b in if d \<le> 0 then second else d)"

definition limiterFor ::
  "'l limiter_lib \<Rightarrow> instant \<Rightarrow> string \<Rightarrow> Budget \<Rightarrow> 'l buckets \<Rightarrow> (limiter_error + 'l) \<times> 'l buckets" where
  "limiterFor lib now key b m =
     (let build =
        (if \<not> ParseStrategy lib (bStrategy b) then (Inl (InvalidStrategy (bStrategy b)), m)
         else case NewLimiterFunc lib (bStrategy b) (bRequests b) (bPeriod b) (bBurst b) now of
           Inl e \<Rightarrow> (Inl (StoreFault e), m)
         | Inr l \<Rightarrow> (Inr l, AList.update key \<lparr>eSeen = now, eLimiter = l, eBudget = b\<rparr> m))
      in case map_of m key of
        Some e \<Rightarrow> if eBudget e = b then (Inr (eLimiter e), AList.update key (e\<lparr>eSeen := now\<rparr>) m) else build
      | None \<Rightarrow> build)"

text \<open>The limiter is shared with the entry: what a call did to it is written back.\<close>

definition put_limiter :: "string \<Rightarrow> 'l \<Rightarrow> 'l buckets \<Rightarrow> 'l buckets" where
  "put_limiter key l m = (case map_of m key of Some e \<Rightarrow> AList.update key (e\<lparr>eLimiter := l\<rparr>) m | None \<Rightarrow> m)"

definition MemoryAllow :: "'l limiter_lib \<Rightarrow> 'l buckets limiter" where
  "MemoryAllow lib ctx key b m =
     (case limiterFor lib (cNow ctx) key b m of
        (Inl e, m1) \<Rightarrow> (Inl e, m1)
      | (Inr lim, m1) \<Rightarrow>
          if \<not> is_Reserver lib lim then
            (case lib_Allow lib (cNow ctx) lim of (okay, lim1) \<Rightarrow>
               if okay then (Inr \<lparr>dRetryAfter = 0, dRemaining = - 1, dAllowed = True\<rparr>, put_limiter key lim1 m1)
               else (Inr \<lparr>dRetryAfter = retryAfterFor b, dRemaining = 0, dAllowed = False\<rparr>, put_limiter key lim1 m1))
          else case lib_Reserve lib (cNow ctx) lim of ((okay, delay), lim1) \<Rightarrow>
            if \<not> okay then (Inr \<lparr>dRetryAfter = 0, dRemaining = 0, dAllowed = False\<rparr>, put_limiter key lim1 m1)
            else if delay > 0 then
              (Inr \<lparr>dRetryAfter = delay, dRemaining = 0, dAllowed = False\<rparr>,
               put_limiter key (lib_Cancel lib (cNow ctx) lim1) m1)
            else (Inr \<lparr>dRetryAfter = 0, dRemaining = - 1, dAllowed = True\<rparr>, put_limiter key lim1 m1))"

definition swept :: "instant \<Rightarrow> duration \<Rightarrow> 'l bucket_entry \<Rightarrow> bool" where
  "swept now idle e = (eSeen e < now - idle \<and> eSeen e < now - bPeriod (eBudget e))"

definition Sweep :: "instant \<Rightarrow> duration \<Rightarrow> 'l buckets \<Rightarrow> int \<times> 'l buckets" where
  "Sweep now idle m =
     (let kept = filter (\<lambda>(k, e). \<not> swept now idle e) m in (int (length m) - int (length kept), kept))"

definition BucketsSize :: "'l buckets \<Rightarrow> int" where
  "BucketsSize m = int (length m)"

lemma retryAfterFor_nonneg: "0 \<le> retryAfterFor b"
  by (simp add: retryAfterFor_def Let_def)

interpretation memory: limiter_port "MemoryAllow lib" "\<lambda>_. True" for lib
proof
  fix ctx k b s d
  assume "fst (MemoryAllow lib ctx k b s) = Inr d" "\<not> dAllowed d"
  then show "0 \<le> dRetryAfter d"
    using retryAfterFor_nonneg[of b] by (auto simp: MemoryAllow_def split: prod.splits sum.splits if_splits)
qed simp

interpretation guarded_valkey: breaker_over "ValkeyAllow client" "\<lambda>_. True" "\<lparr>Threshold = 5, Cooldown = 5 * second\<rparr>" for client
  by unfold_locales simp

lemma map_of_put: "map_of (put_limiter key l m) =
    (case map_of m key of Some e \<Rightarrow> (map_of m)(key \<mapsto> e\<lparr>eLimiter := l\<rparr>) | None \<Rightarrow> map_of m)"
  by (auto simp: put_limiter_def AList.update_conv' split: option.split)

lemma limiterFor_other: "k \<noteq> key \<Longrightarrow> map_of (snd (limiterFor lib now key b m)) k = map_of m k"
  by (auto simp: limiterFor_def Let_def AList.update_conv' split: option.split sum.split)

lemma limiterFor_entry:
  assumes "limiterFor lib now key b m = (Inr l, m1)"
  shows "map_of m1 key = Some \<lparr>eSeen = now, eLimiter = l, eBudget = b\<rparr>"
  using assms by (auto simp: limiterFor_def Let_def AList.update_conv' split: option.splits sum.splits if_splits)

lemma MemoryAllow_other: "k \<noteq> key \<Longrightarrow> map_of (snd (MemoryAllow lib ctx key b m)) k = map_of m k"
proof -
  assume k: "k \<noteq> key"
  obtain r m1 where r: "limiterFor lib (cNow ctx) key b m = (r, m1)" by fastforce
  then have "map_of m1 k = map_of m k" using limiterFor_other[OF k, of lib "cNow ctx" b m] by simp
  moreover have "map_of (put_limiter key l m1) k = map_of m1 k" for l
    using k by (auto simp: map_of_put split: option.split)
  ultimately show ?thesis using r by (auto simp: MemoryAllow_def split: prod.split sum.split)
qed

lemma MemoryAllow_ok:
  assumes "limiterFor lib (cNow ctx) key b m = (Inr l, m1)" "is_Reserver lib l"
    and "lib_Reserve lib (cNow ctx) l = ((okay, delay), l1)"
  shows "MemoryAllow lib ctx key b m =
    (if \<not> okay then (Inr \<lparr>dRetryAfter = 0, dRemaining = 0, dAllowed = False\<rparr>, put_limiter key l1 m1)
     else if delay > 0 then (Inr \<lparr>dRetryAfter = delay, dRemaining = 0, dAllowed = False\<rparr>,
       put_limiter key (lib_Cancel lib (cNow ctx) l1) m1)
     else (Inr \<lparr>dRetryAfter = 0, dRemaining = - 1, dAllowed = True\<rparr>, put_limiter key l1 m1))"
  using assms by (simp add: MemoryAllow_def)

text \<open>
  A bucket answers for its own key and budget only: a call leaves every
  other bucket alone, a budget that changed starts on a limiter built from the
  new parameters, one that did not keeps its limiter, and a request refused for
  now gives its token back, so it costs the caller nothing.  The hypothesis is
  the library's: cancelling a reservation that had to wait restores the bucket.
\<close>

theorem memory_buckets:
  assumes cancel: "\<And>t l d l1. lib_Reserve lib t l = ((True, d), l1) \<Longrightarrow> d > 0 \<Longrightarrow> lib_Cancel lib t l1 = l"
  shows "(\<forall>k. k \<noteq> key \<longrightarrow> map_of (snd (MemoryAllow lib ctx key b m)) k = map_of m k)
    \<and> (\<forall>l m1. limiterFor lib (cNow ctx) key b m = (Inr l, m1) \<longrightarrow>
          (\<forall>e. map_of m key = Some e \<and> eBudget e = b \<longrightarrow> l = eLimiter e)
        \<and> ((\<forall>e. map_of m key = Some e \<longrightarrow> eBudget e \<noteq> b) \<longrightarrow>
             NewLimiterFunc lib (bStrategy b) (bRequests b) (bPeriod b) (bBurst b) (cNow ctx) = Inr l)
        \<and> (\<forall>d. is_Reserver lib l \<longrightarrow> fst (MemoryAllow lib ctx key b m) = Inr d \<longrightarrow> \<not> dAllowed d \<longrightarrow> dRetryAfter d > 0 \<longrightarrow>
             map_of (snd (MemoryAllow lib ctx key b m)) key = Some \<lparr>eSeen = cNow ctx, eLimiter = l, eBudget = b\<rparr>))"
proof -
  have 3: "map_of (snd (MemoryAllow lib ctx key b m)) key = Some \<lparr>eSeen = cNow ctx, eLimiter = l, eBudget = b\<rparr>"
    if l: "limiterFor lib (cNow ctx) key b m = (Inr l, m1)" and rs: "is_Reserver lib l"
      and r: "fst (MemoryAllow lib ctx key b m) = Inr d" "\<not> dAllowed d" "dRetryAfter d > 0" for l m1 d
  proof -
    obtain okay delay l1 where v: "lib_Reserve lib (cNow ctx) l = ((okay, delay), l1)"
      by (metis prod.collapse)
    note eq = MemoryAllow_ok[OF l rs v]
    with r have "okay \<and> delay > 0" by (auto split: if_splits)
    with cancel v eq show ?thesis by (auto simp: map_of_put limiterFor_entry[OF l])
  qed
  have 1: "l = eLimiter e" if "limiterFor lib (cNow ctx) key b m = (Inr l, m1)" "map_of m key = Some e" "eBudget e = b" for l m1 e
    using that by (simp add: limiterFor_def)
  have 2: "NewLimiterFunc lib (bStrategy b) (bRequests b) (bPeriod b) (bBurst b) (cNow ctx) = Inr l"
    if "limiterFor lib (cNow ctx) key b m = (Inr l, m1)" "\<forall>e. map_of m key = Some e \<longrightarrow> eBudget e \<noteq> b" for l m1
    using that by (auto simp: limiterFor_def Let_def split: option.splits sum.splits if_splits)
  show ?thesis
    by (intro conjI allI impI)
       (rule MemoryAllow_other, assumption | elim conjE, rule 1, assumption+ | rule 2, assumption+ | rule 3, assumption+)+
qed

text \<open>
  A token bucket kept as the tokens it holds, in units of one token per
  nanosecond of the period, for the concrete runs.
\<close>

record demo_bucket =
  tkLevel :: int
  tkLast :: instant
  tkCap :: int
  tkRate :: int
  tkCost :: int

definition tk_fill :: "instant \<Rightarrow> demo_bucket \<Rightarrow> int" where
  "tk_fill now l = min (tkCap l) (tkLevel l + (now - tkLast l) * tkRate l)"

definition token_lib :: "demo_bucket limiter_lib" where
  "token_lib = \<lparr>ParseStrategy = (\<lambda>s. s = ''token_bucket''),
     NewLimiterFunc = (\<lambda>s n p b now. let c = (if b = 0 then n else b) * p in
       Inr \<lparr>tkLevel = c, tkLast = now, tkCap = c, tkRate = n, tkCost = p\<rparr>),
     is_Reserver = (\<lambda>_. True),
     lib_Allow = (\<lambda>now l. (True, l)),
     lib_Reserve = (\<lambda>now l. if tk_fill now l \<ge> tkCost l
        then ((True, 0), l\<lparr>tkLevel := tk_fill now l - tkCost l, tkLast := now\<rparr>)
        else ((True, tkCost l - tk_fill now l), l)),
     lib_Cancel = (\<lambda>now l. l)\<rparr>"

lemma token_lib_cancel: "lib_Reserve token_lib t l = ((True, d), l1) \<Longrightarrow> d > 0 \<Longrightarrow> lib_Cancel token_lib t l1 = l"
  by (auto simp: token_lib_def split: if_splits)

definition empty_bucket :: "demo_bucket bucket_entry" where
  "empty_bucket = \<lparr>eSeen = 0, eLimiter = \<lparr>tkLevel = 0, tkLast = 0, tkCap = 60 * minute, tkRate = 1, tkCost = minute\<rparr>,
     eBudget = per_minute 1 60\<rparr>"

theorem memory_buckets_witness:
  "map_of (snd (MemoryAllow token_lib (ctx_at 5) ''a'' (per_minute 1 0) [(''b'', empty_bucket)])) ''b'' = Some empty_bucket"
proof -
  have "\<forall>k. k \<noteq> ''a'' \<longrightarrow>
      map_of (snd (MemoryAllow token_lib (ctx_at 5) ''a'' (per_minute 1 0) [(''b'', empty_bucket)])) k
        = map_of [(''b'', empty_bucket)] k"
    by (rule memory_buckets[THEN conjunct1]) (rule token_lib_cancel)
  then show ?thesis by simp
qed

text \<open>
  The sweep drops no bucket that was used within its own period or within
  the idle time, and keeps every other entry as it is; it reports how many it
  dropped.
\<close>

theorem sweep_keeps_live_buckets:
  "(\<forall>k e. (k, e) \<in> set (snd (Sweep now idle m)) \<longleftrightarrow> (k, e) \<in> set m \<and> \<not> swept now idle e)
   \<and> (\<forall>k e. (k, e) \<in> set m \<and> now - eSeen e \<le> max idle (bPeriod (eBudget e)) \<longrightarrow> (k, e) \<in> set (snd (Sweep now idle m)))
   \<and> fst (Sweep now idle m) = BucketsSize m - BucketsSize (snd (Sweep now idle m))"
  by (auto simp: Sweep_def swept_def BucketsSize_def Let_def max_def split: if_splits)

theorem sweep_keeps_live_buckets_witness:
  "(''k'', empty_bucket) \<in> set (snd (Sweep (9 * minute) (10 * minute) [(''k'', empty_bucket)]))"
proof -
  have "(''k'', empty_bucket) \<in> set [(''k'', empty_bucket)]" by simp
  moreover have "9 * minute - eSeen empty_bucket \<le> max (10 * minute) (bPeriod (eBudget empty_bucket))"
    by (simp add: empty_bucket_def)
  ultimately show ?thesis
    using sweep_keeps_live_buckets[of "9 * minute" "10 * minute" "[(''k'', empty_bucket)]"] by blast
qed

text \<open>
  Dropping an idle bucket is not always indistinguishable from keeping it.
  A burst above the requests takes longer than the period to refill: a bucket
  of one request a minute with a burst of 60, spent and left for eleven
  minutes, is swept by the ten-minute idle time with 11 tokens in it, and the
  next request finds a bucket of 60.
\<close>

theorem sweep_refills_large_bursts:
  "\<exists>now m. bRequests (eBudget empty_bucket) < bBurst (eBudget empty_bucket)
     \<and> m = snd (Sweep now (10 * minute) [(''k'', empty_bucket)])
     \<and> (now - eSeen empty_bucket) * bRequests (eBudget empty_bucket)
         < bBurst (eBudget empty_bucket) * bPeriod (eBudget empty_bucket)
     \<and> m = []
     \<and> map_option (\<lambda>e. tkLevel (eLimiter e))
         (map_of (snd (MemoryAllow token_lib (ctx_at now) ''k'' (per_minute 1 60) [(''k'', empty_bucket)])) ''k'')
         = Some (10 * minute)
     \<and> map_option (\<lambda>e. tkLevel (eLimiter e))
         (map_of (snd (MemoryAllow token_lib (ctx_at now) ''k'' (per_minute 1 60) m)) ''k'')
         = Some (59 * minute)"
  by (rule exI[of _ "11 * minute"])
     (simp add: Sweep_def swept_def empty_bucket_def per_minute_def MemoryAllow_def limiterFor_def token_lib_def
       ctx_at_def tk_fill_def put_limiter_def)

section \<open>The throttle\<close>

text \<open>
  \<open>throttlememory\<close>: a bucket per key, taken from and put back by the
  library; \<open>fresh\<close> is \<open>NewRateLimiterFunc(refill, MaxAttempts)\<close>.
\<close>

definition ThrottleAttempt ::
  "'l limiter_lib \<Rightarrow> (instant \<Rightarrow> 'l) \<Rightarrow> instant \<Rightarrow> string \<Rightarrow> (string \<Rightarrow> 'l option) \<Rightarrow> (duration \<times> bool) \<times> (string \<Rightarrow> 'l option)" where
  "ThrottleAttempt lib fresh now key m =
     (let l = (case m key of Some l \<Rightarrow> l | None \<Rightarrow> fresh now) in
      if \<not> is_Reserver lib l then
        (case lib_Allow lib now l of (okay, l1) \<Rightarrow> ((0, okay), m(key \<mapsto> l1)))
      else case lib_Reserve lib now l of ((okay, delay), l1) \<Rightarrow>
        if \<not> okay \<or> delay > 0 then ((delay, False), m(key \<mapsto> lib_Cancel lib now l1))
        else ((0, True), m(key \<mapsto> l1)))"

definition ThrottleSucceed :: "string \<Rightarrow> (string \<Rightarrow> 'l option) \<Rightarrow> (string \<Rightarrow> 'l option)" where
  "ThrottleSucceed key m = m(key := None)"

locale throttle_port =
  fixes attempt :: "instant \<Rightarrow> string \<Rightarrow> 't \<Rightarrow> (duration \<times> bool) \<times> 't"
    and succeed :: "string \<Rightarrow> 't \<Rightarrow> 't"
    and view :: "'t \<Rightarrow> string \<Rightarrow> 'v"
    and unseen :: 'v
  assumes attempt_other: "k \<noteq> k' \<Longrightarrow> view (snd (attempt now k t)) k' = view t k'"
    and succeed_view: "view (succeed k t) = (view t)(k := unseen)"
    and attempt_view: "view t k = view t' k \<Longrightarrow>
      fst (attempt now k t) = fst (attempt now k t') \<and> view (snd (attempt now k t)) k = view (snd (attempt now k t')) k"
begin

text \<open>After a success a key is answered as one that was never seen, whatever others did since.\<close>

lemma forgiven:
  assumes "view t0 k = unseen" "k' \<noteq> k"
  shows "fst (attempt now k (snd (attempt now' k' (succeed k t)))) = fst (attempt now k t0)"
  using attempt_view[of "snd (attempt now' k' (succeed k t))" k t0 now] attempt_other[OF assms(2)] assms(1) succeed_view
  by simp

end

interpretation throttle_memory: throttle_port "ThrottleAttempt lib fresh" ThrottleSucceed "\<lambda>m k. m k" None
  for lib fresh
  by unfold_locales
    (auto simp: ThrottleAttempt_def ThrottleSucceed_def Let_def split: prod.splits option.splits)

text \<open>
  Succeeding forgets a key's attempts and no one else's: the next attempt on
  it is answered as the first one ever was, even after attempts on other keys.
\<close>

theorem throttle_success_forgives:
  assumes "k' \<noteq> k"
  shows "fst (ThrottleAttempt lib fresh now k (snd (ThrottleAttempt lib fresh now' k' (ThrottleSucceed k m))))
       = fst (ThrottleAttempt lib fresh now k Map.empty)
    \<and> (ThrottleSucceed k m) k' = m k'"
  using throttle_memory.forgiven[of Map.empty k k' lib fresh now now' m] assms
  by (simp add: ThrottleSucceed_def)

definition demo_fresh :: "instant \<Rightarrow> demo_bucket" where
  "demo_fresh now = \<lparr>tkLevel = 1, tkLast = now, tkCap = 1, tkRate = 0, tkCost = 1\<rparr>"

theorem throttle_success_forgives_witness:
  "fst (ThrottleAttempt token_lib demo_fresh 9 ''ada''
      (snd (ThrottleAttempt token_lib demo_fresh 8 ''bob'' (ThrottleSucceed ''ada'' Map.empty)))) = (0, True)"
proof -
  have n: "''bob'' \<noteq> ''ada''" by simp
  have "fst (ThrottleAttempt token_lib demo_fresh 9 ''ada'' Map.empty) = (0, True)"
    by (simp add: ThrottleAttempt_def token_lib_def tk_fill_def demo_fresh_def)
  with throttle_success_forgives[OF n, of token_lib demo_fresh 9 8 Map.empty] show ?thesis by simp
qed

end
