(* ===== verification/ClientIP.thy ===== *)
theory ClientIP
  imports Go_Prelude
begin

text \<open>
  \<open>internal/adapter/driving/http/middleware/clientip.go\<close> and
  \<open>ratelimit_exempt.go\<close>: which address a request is attributed to, and
  which requests no limiter sees.  Addresses and prefixes are those of
  \<open>net/netip\<close>, as words; reading and writing them as text is a record of
  functions.
\<close>

section \<open>Addresses\<close>

datatype Addr = V4 "32 word" | V6 "128 word" string

record Prefix =
  pAddr :: Addr
  pBits :: nat

fun Unmap :: "Addr \<Rightarrow> Addr" where
  "Unmap (V4 a) = V4 a"
| "Unmap (V6 a z) = (if drop_bit 32 a = 0xFFFF then V4 (ucast a) else V6 a z)"

fun WithoutZone :: "Addr \<Rightarrow> Addr" where
  "WithoutZone (V4 a) = V4 a"
| "WithoutZone (V6 a z) = V6 a []"

fun BitLen :: "Addr \<Rightarrow> nat" where
  "BitLen (V4 a) = 32"
| "BitLen (V6 a z) = 128"

text \<open>\<open>Prefix.Contains\<close>: same family, no zone, equal in the leading bits.\<close>

fun prefix_contains :: "Prefix \<Rightarrow> Addr \<Rightarrow> bool" where
  "prefix_contains p (V4 a) =
     (case pAddr p of V4 b \<Rightarrow> pBits p \<le> 32 \<and> drop_bit (32 - pBits p) (a XOR b) = 0 | V6 _ _ \<Rightarrow> False)"
| "prefix_contains p (V6 a z) =
     (case pAddr p of V4 _ \<Rightarrow> False
      | V6 b _ \<Rightarrow> pBits p \<le> 128 \<and> z = [] \<and> drop_bit (128 - pBits p) (a XOR b) = 0)"

definition Masked :: "Prefix \<Rightarrow> Prefix" where
  "Masked p = p\<lparr>pAddr := (case pAddr p of
       V4 a \<Rightarrow> V4 (push_bit (32 - pBits p) (drop_bit (32 - pBits p) a))
     | V6 a z \<Rightarrow> V6 (push_bit (128 - pBits p) (drop_bit (128 - pBits p) a)) [])\<rparr>"

record ip_text =
  ParsePrefix :: "string \<Rightarrow> Prefix option"
  ParseAddr :: "string \<Rightarrow> Addr option"
  ParseAddrPort :: "string \<Rightarrow> Addr option"
  SplitHost :: "string \<Rightarrow> string option"
  addr_string :: "Addr \<Rightarrow> string"

section \<open>The request\<close>

text \<open>
  What the middleware reads of an \<open>*http.Request\<close>.  A header has one value
  per line; \<open>Header.Get\<close> answers the first.
\<close>

record http_request =
  Method :: string
  RemoteAddr :: string
  URLPath :: string
  Pattern :: string
  Header :: "string \<Rightarrow> string list"
  PathValue :: "string \<Rightarrow> string"

definition header_get :: "http_request \<Rightarrow> string \<Rightarrow> string" where
  "header_get r name = (case Header r name of [] \<Rightarrow> [] | v # _ \<Rightarrow> v)"

section \<open>The resolver\<close>

fun ParseIPMatchers :: "ip_text \<Rightarrow> string list \<Rightarrow> string \<Rightarrow> string + Prefix list" where
  "ParseIPMatchers ip [] what = Inr []"
| "ParseIPMatchers ip (raw # rest) what =
     (let entry = TrimSpace raw in
      if entry = [] then ParseIPMatchers ip rest what
      else case ParsePrefix ip entry of
        Some p \<Rightarrow> (case ParseIPMatchers ip rest what of Inl e \<Rightarrow> Inl e | Inr ps \<Rightarrow> Inr (Masked p # ps))
      | None \<Rightarrow>
          (case ParseAddr ip entry of
             None \<Rightarrow> Inl (what @ '' '' @ [CHR 0x22] @ entry @ [CHR 0x22] @ '' is neither a CIDR block nor an IP address'')
           | Some a \<Rightarrow>
               (case ParseIPMatchers ip rest what of Inl e \<Rightarrow> Inl e
                | Inr ps \<Rightarrow> Inr (\<lparr>pAddr = Unmap a, pBits = BitLen (Unmap a)\<rparr> # ps))))"

definition isTrusted :: "Prefix list \<Rightarrow> Addr \<Rightarrow> bool" where
  "isTrusted trusted addr = list_ex (\<lambda>p. prefix_contains p (Unmap addr)) trusted"

definition parseChainAddr :: "ip_text \<Rightarrow> string \<Rightarrow> Addr option" where
  "parseChainAddr ip entry =
     (let trimmed = TrimSpace entry in
      if trimmed = [] then None
      else case ParseAddr ip trimmed of
        Some a \<Rightarrow> Some (WithoutZone (Unmap a))
      | None \<Rightarrow> (case ParseAddrPort ip trimmed of Some a \<Rightarrow> Some (WithoutZone (Unmap a)) | None \<Rightarrow> None))"

definition peerAddr :: "ip_text \<Rightarrow> string \<Rightarrow> Addr option" where
  "peerAddr ip remoteAddr =
     (case ParseAddrPort ip remoteAddr of
        Some a \<Rightarrow> Some (WithoutZone (Unmap a))
      | None \<Rightarrow>
          (case ParseAddr ip remoteAddr of
             Some a \<Rightarrow> Some (WithoutZone (Unmap a))
           | None \<Rightarrow>
               (case SplitHost ip remoteAddr of
                  None \<Rightarrow> None
                | Some host \<Rightarrow> (case ParseAddr ip host of None \<Rightarrow> None | Some a \<Rightarrow> Some (WithoutZone (Unmap a))))))"

text \<open>The hops from right to left; \<open>leftmost\<close> is the last one read.\<close>

fun walk_hops :: "ip_text \<Rightarrow> Prefix list \<Rightarrow> Addr option \<Rightarrow> string list \<Rightarrow> Addr option" where
  "walk_hops ip trusted leftmost [] = leftmost"
| "walk_hops ip trusted leftmost (hop # hops) =
     (case parseChainAddr ip hop of
        None \<Rightarrow> None
      | Some a \<Rightarrow> if \<not> isTrusted trusted a then Some a else walk_hops ip trusted (Some a) hops)"

definition walkForwardedFor :: "ip_text \<Rightarrow> Prefix list \<Rightarrow> string \<Rightarrow> Addr option" where
  "walkForwardedFor ip trusted header = walk_hops ip trusted None (rev (split_on (CHR '','') header))"

definition ClientIP :: "ip_text \<Rightarrow> Prefix list \<Rightarrow> http_request \<Rightarrow> string" where
  "ClientIP ip trusted r =
     (case peerAddr ip (RemoteAddr r) of
        None \<Rightarrow> RemoteAddr r
      | Some peer \<Rightarrow>
          if \<not> isTrusted trusted peer then addr_string ip peer
          else let forwarded = header_get r ''X-Forwarded-For''; realIP = TrimSpace (header_get r ''X-Real-IP'') in
            if forwarded \<noteq> [] then
              (case walkForwardedFor ip trusted forwarded of Some client \<Rightarrow> addr_string ip client | None \<Rightarrow> addr_string ip peer)
            else if realIP \<noteq> [] then
              (case parseChainAddr ip realIP of Some a \<Rightarrow> addr_string ip a | None \<Rightarrow> addr_string ip peer)
            else addr_string ip peer)"

definition TrustsAnything :: "Prefix list \<Rightarrow> bool" where
  "TrustsAnything trusted = (length trusted > 0)"

section \<open>Exemptions\<close>

record RateLimitExemptions =
  exTrusted :: "Prefix list"
  excluded :: "Prefix list"
  bypassPrefixes :: "string list"

definition NewRateLimitExemptions ::
  "ip_text \<Rightarrow> Prefix list \<Rightarrow> string list \<Rightarrow> string list \<Rightarrow> string + RateLimitExemptions" where
  "NewRateLimitExemptions ip trusted excludedIPs prefixes =
     (case ParseIPMatchers ip excludedIPs ''excluded IP'' of
        Inl e \<Rightarrow> Inl e
      | Inr ps \<Rightarrow> Inr \<lparr>exTrusted = trusted, excluded = ps,
          bypassPrefixes = filter (\<lambda>p. p \<noteq> []) (map TrimSpace prefixes)\<rparr>)"

definition ipExcluded :: "ip_text \<Rightarrow> RateLimitExemptions \<Rightarrow> string \<Rightarrow> bool" where
  "ipExcluded ip ex s =
     (if length (excluded ex) = 0 then False
      else case ParseAddr ip s of None \<Rightarrow> False | Some a \<Rightarrow> list_ex (\<lambda>p. prefix_contains p (Unmap a)) (excluded ex))"

definition bypassed :: "string \<Rightarrow> string list \<Rightarrow> bool" where
  "bypassed path prefixes = list_ex (\<lambda>p. HasPrefix path p) prefixes"

text \<open>The receiver may be nil.\<close>

definition Exempt :: "ip_text \<Rightarrow> RateLimitExemptions option \<Rightarrow> http_request \<Rightarrow> bool" where
  "Exempt ip ref r =
     (case ref of
        None \<Rightarrow> False
      | Some ex \<Rightarrow> if bypassed (URLPath r) (bypassPrefixes ex) then True
          else ipExcluded ip ex (ClientIP ip (exTrusted ex) r))"

text \<open>A middleware maps a handler to a handler; a handler acts on the state.\<close>

type_synonym 's handler = "http_request \<Rightarrow> 's \<Rightarrow> 's"
type_synonym 's middleware = "'s handler \<Rightarrow> 's handler"

definition Wrap :: "ip_text \<Rightarrow> RateLimitExemptions option \<Rightarrow> 's middleware option \<Rightarrow> 's middleware" where
  "Wrap ip ref limiter next =
     (case limiter of
        None \<Rightarrow> next
      | Some l \<Rightarrow> (\<lambda>r. if Exempt ip ref r then next r else l next r))"

section \<open>What the resolver promises\<close>

lemma Unmap_idem [simp]: "Unmap (Unmap a) = Unmap a"
  by (cases a) auto

lemma walk_hops_rightmost:
  assumes "\<And>h. h \<in> set post \<Longrightarrow> \<exists>a. parseChainAddr ip h = Some a \<and> isTrusted trusted a"
    and "parseChainAddr ip h = Some a" "\<not> isTrusted trusted a"
  shows "walk_hops ip trusted l (post @ h # pre) = Some a"
  using assms(1)
proof (induction post arbitrary: l)
  case Nil then show ?case using assms(2,3) by simp
next
  case (Cons x post)
  then obtain b where "parseChainAddr ip x = Some b" "isTrusted trusted b" by (meson list.set_intros(1))
  moreover have "walk_hops ip trusted (Some b) (post @ h # pre) = Some a"
    by (rule Cons.IH) (rule Cons.prems, simp)
  ultimately show ?case by simp
qed

text \<open>
  C36. A client cannot choose the address it is counted under.  From a peer that
  is not a trusted proxy every header is ignored; from a trusted one the
  address is the rightmost hop of the chain that is not itself a trusted
  proxy, whatever the client wrote to the left of it.
\<close>

theorem ClientIP_not_spoofable:
  assumes "peerAddr ip (RemoteAddr r) = Some peer"
  shows "(\<not> isTrusted trusted peer \<longrightarrow> ClientIP ip trusted (r\<lparr>Header := hd'\<rparr>) = addr_string ip peer)
    \<and> (isTrusted trusted peer
        \<and> split_on (CHR '','') (header_get r ''X-Forwarded-For'') = pre @ hop # post
        \<and> header_get r ''X-Forwarded-For'' \<noteq> []
        \<and> parseChainAddr ip hop = Some a \<and> \<not> isTrusted trusted a
        \<and> (\<forall>h. h \<in> set post \<longrightarrow> (\<exists>b. parseChainAddr ip h = Some b \<and> isTrusted trusted b))
        \<longrightarrow> ClientIP ip trusted r = addr_string ip a)"
proof -
  have "walkForwardedFor ip trusted (header_get r ''X-Forwarded-For'') = Some a"
    if "split_on (CHR '','') (header_get r ''X-Forwarded-For'') = pre @ hop # post"
      "parseChainAddr ip hop = Some a" "\<not> isTrusted trusted a"
      "\<forall>h. h \<in> set post \<longrightarrow> (\<exists>b. parseChainAddr ip h = Some b \<and> isTrusted trusted b)"
    using that walk_hops_rightmost[of "rev post" ip trusted hop a None "rev pre"]
    by (simp add: walkForwardedFor_def)
  then show ?thesis using assms by (simp add: ClientIP_def Let_def)
qed

text \<open>
  Addresses written as one byte, for the concrete runs: \<open>a\<close> is the proxy
  10.0.0.1, any other letter the address 203.0.113.n.
\<close>

definition demo_ip :: ip_text where
  "demo_ip = \<lparr>ParsePrefix = (\<lambda>s. None),
     ParseAddr = (\<lambda>s. case s of [c] \<Rightarrow> Some (if c = CHR ''a'' then V4 0x0A000001 else V4 (0xCB007100 + of_char c)) | _ \<Rightarrow> None),
     ParseAddrPort = (\<lambda>s. None), SplitHost = (\<lambda>s. None),
     addr_string = (\<lambda>x. case x of V4 w \<Rightarrow> (if w = 0x0A000001 then ''a'' else [char_of (unat (w AND 0xFF))]) | V6 _ _ \<Rightarrow> [])\<rparr>"

definition demo_proxies :: "Prefix list" where
  "demo_proxies = [\<lparr>pAddr = V4 0x0A000000, pBits = 8\<rparr>]"

definition demo_http :: "string \<Rightarrow> string list \<Rightarrow> http_request" where
  "demo_http peer xff = \<lparr>Method = ''GET'', RemoteAddr = peer, URLPath = ''/users'', Pattern = ''GET /users'',
     Header = (\<lambda>n. if n = ''X-Forwarded-For'' then xff else []), PathValue = (\<lambda>_. [])\<rparr>"

lemma demo_ip_simps:
  "peerAddr demo_ip ''a'' = Some (V4 0x0A000001)" "isTrusted demo_proxies (V4 0x0A000001)"
  "parseChainAddr demo_ip ''c'' = Some (V4 0xCB007163)" "\<not> isTrusted demo_proxies (V4 0xCB007163)"
  "parseChainAddr demo_ip ''a'' = Some (V4 0x0A000001)"
  "addr_string demo_ip (V4 0xCB007163) = ''c''"
  by code_simp+

theorem ClientIP_not_spoofable_witness:
  "ClientIP demo_ip demo_proxies (demo_http ''a'' [''x,c,a'']) = ''c''"
proof -
  have p: "peerAddr demo_ip (RemoteAddr (demo_http ''a'' [''x,c,a''])) = Some (V4 0x0A000001)"
    using demo_ip_simps by (simp add: demo_http_def)
  have "split_on (CHR '','') (header_get (demo_http ''a'' [''x,c,a'']) ''X-Forwarded-For'') = [''x''] @ ''c'' # [''a'']"
    "header_get (demo_http ''a'' [''x,c,a'']) ''X-Forwarded-For'' \<noteq> []"
    by (simp_all add: demo_http_def header_get_def)
  with ClientIP_not_spoofable[OF p, of demo_proxies "Header (demo_http ''a'' [''x,c,a''])" "[''x'']" "''c''" "[''a'']" "V4 0xCB007163"]
    demo_ip_simps show ?thesis by simp
qed

text \<open>
  Only the first \<open>X-Forwarded-For\<close> line is read.  Behind a trusted proxy
  that adds its own line after the client's (rather than extending it), the
  address is decided by the line the client wrote, whatever the lines the
  proxies added say.
\<close>

theorem ClientIP_reads_the_first_line:
  assumes "Header r ''X-Forwarded-For'' = line # added"
  shows "ClientIP ip trusted r = ClientIP ip trusted (r\<lparr>Header := (Header r)(''X-Forwarded-For'' := [line])\<rparr>)
    \<and> (\<forall>peer a. peerAddr ip (RemoteAddr r) = Some peer \<and> isTrusted trusted peer \<and> line \<noteq> [] \<and> CHR '','' \<notin> set line
          \<and> parseChainAddr ip line = Some a \<longrightarrow> ClientIP ip trusted r = addr_string ip a)"
proof -
  have "header_get r ''X-Forwarded-For'' = line" using assms by (simp add: header_get_def)
  then have 2: "ClientIP ip trusted r = addr_string ip a"
    if "peerAddr ip (RemoteAddr r) = Some peer" "isTrusted trusted peer" "line \<noteq> []" "CHR '','' \<notin> set line"
      "parseChainAddr ip line = Some a" for peer a
    using that by (simp add: ClientIP_def Let_def walkForwardedFor_def split_on_no_sep)
  have 1: "ClientIP ip trusted r = ClientIP ip trusted (r\<lparr>Header := (Header r)(''X-Forwarded-For'' := [line])\<rparr>)"
  proof -
    let ?r = "r\<lparr>Header := (Header r)(''X-Forwarded-For'' := [line])\<rparr>"
    have "header_get ?r ''X-Forwarded-For'' = header_get r ''X-Forwarded-For''"
      "header_get ?r ''X-Real-IP'' = header_get r ''X-Real-IP''" "RemoteAddr ?r = RemoteAddr r"
      using assms by (simp_all add: header_get_def)
    then show ?thesis unfolding ClientIP_def by (simp only:)
  qed
  from 1 2 show ?thesis by blast
qed

theorem ClientIP_reads_the_first_line_witness:
  "ClientIP demo_ip demo_proxies (demo_http ''a'' [''c'', ''x,a'']) = ''c''"
proof -
  have h: "Header (demo_http ''a'' [''c'', ''x,a'']) ''X-Forwarded-For'' = ''c'' # [''x,a'']"
    and p: "peerAddr demo_ip (RemoteAddr (demo_http ''a'' [''c'', ''x,a''])) = Some (V4 0x0A000001)"
    using demo_ip_simps by (simp_all add: demo_http_def)
  show ?thesis
    using ClientIP_reads_the_first_line[OF h, of demo_ip demo_proxies, THEN conjunct2] p demo_ip_simps by simp
qed

text \<open>
  An exempt request does not reach the limiter at all: wrapped or not, and
  whatever the limiter would have done, the handler acts on the state the
  request arrived in; every other request goes through the limiter.  A nil
  exemption list exempts nothing.
\<close>

theorem Wrap_skips_the_limiter:
  "(Exempt ip ref r \<longrightarrow> Wrap ip ref (Some l) next r = next r)
   \<and> (\<not> Exempt ip ref r \<longrightarrow> Wrap ip ref (Some l) next r = l next r)
   \<and> Wrap ip ref None next = next
   \<and> \<not> Exempt ip None r
   \<and> (\<forall>ex p. p \<in> set (bypassPrefixes ex) \<and> HasPrefix (URLPath r) p \<longrightarrow> Exempt ip (Some ex) r)"
  by (auto simp: Wrap_def Exempt_def bypassed_def list_ex_iff)

definition demo_exempt :: RateLimitExemptions where
  "demo_exempt = \<lparr>exTrusted = [], excluded = [], bypassPrefixes = [''/users'']\<rparr>"

theorem Wrap_skips_the_limiter_witness:
  "Wrap demo_ip (Some demo_exempt) (Some (\<lambda>n r s. s + 1)) (\<lambda>r s. s) (demo_http ''c'' []) = (\<lambda>s :: nat. s)"
proof -
  have "''/users'' \<in> set (bypassPrefixes demo_exempt)" "HasPrefix (URLPath (demo_http ''c'' [])) ''/users''"
    by (simp_all add: demo_http_def HasPrefix_def demo_exempt_def)
  with Wrap_skips_the_limiter[of demo_ip "Some demo_exempt" "demo_http ''c'' []" "\<lambda>n r s. s + 1" "\<lambda>r s. s :: nat"]
  show ?thesis by blast
qed

end
