(* ===== verification/RateLimitMiddleware.thy ===== *)
theory RateLimitMiddleware
  imports RateLimitMirror RateLimitStores ClientIP
begin

text \<open>
  \<open>internal/adapter/driving/http/middleware/ratelimit.go\<close>: the two-stage
  limiter.  A request is resolved by the mirror, its rules become buckets, and
  the buckets are charged in order against the per-replica limiter and the
  shared counter.  The world is what a charge can change: the stores behind
  the limiters, the metrics, and the response.
\<close>

section \<open>Configuration and state\<close>

datatype RateLimitStage = RateLimitStagePreAuth | RateLimitStagePostAuth

datatype RateLimitFailMode = RateLimitFailClosed | RateLimitFailLocal

text \<open>Claims of a verified token: a JSON object; \<open>CString\<close> is what \<open>.(string)\<close> accepts.\<close>

datatype claim = CString string | CNumber int | COther

type_synonym claims = "string \<Rightarrow> claim option"

record bucket =
  bkKey :: string
  bkRule :: string
  bkScope :: string
  bkStrategy :: string
  bkBudget :: Budget

record RateLimitMetrics =
  storeUp :: bool
  decisions :: "(bucket \<times> bool) list"
  storeFaults :: "(bucket \<times> string) list"
  ruleFaults :: "bucket list"

record response =
  rspHeader :: "string \<Rightarrow> string option"
  rspStatus :: int
  rspCode :: string
  rspMessage :: string

record 's world =
  store :: 's
  metrics :: "RateLimitMetrics option"
  rsp :: response

record 's RateLimitConfig =
  cfgShared :: "'s limiter option"
  cfgLocal :: "'s limiter option"
  cfgIP :: ip_text
  cfgTrusted :: "Prefix list"
  cfgRouter :: "(http_request \<Rightarrow> string) option"
  cfgStage :: RateLimitStage
  cfgFailMode :: RateLimitFailMode

section \<open>Metrics and headers\<close>

definition NewRateLimitMetrics :: RateLimitMetrics where
  "NewRateLimitMetrics = \<lparr>storeUp = True, decisions = [], storeFaults = [], ruleFaults = []\<rparr>"

definition recordDecision :: "bucket \<Rightarrow> bool \<Rightarrow> RateLimitMetrics option \<Rightarrow> RateLimitMetrics option" where
  "recordDecision b allowed = map_option (\<lambda>m. m\<lparr>decisions := decisions m @ [(b, allowed)]\<rparr>)"

definition recordStoreFault :: "bucket \<Rightarrow> string \<Rightarrow> RateLimitMetrics option \<Rightarrow> RateLimitMetrics option" where
  "recordStoreFault b mode = map_option (\<lambda>m. m\<lparr>storeUp := False, storeFaults := storeFaults m @ [(b, mode)]\<rparr>)"

definition recordRuleFault :: "bucket \<Rightarrow> RateLimitMetrics option \<Rightarrow> RateLimitMetrics option" where
  "recordRuleFault b = map_option (\<lambda>m. m\<lparr>ruleFaults := ruleFaults m @ [b]\<rparr>)"

definition recordStoreOK :: "RateLimitMetrics option \<Rightarrow> RateLimitMetrics option" where
  "recordStoreOK = map_option (\<lambda>m. m\<lparr>storeUp := True\<rparr>)"

definition StoreUp :: "RateLimitMetrics option \<Rightarrow> bool" where
  "StoreUp m = (case m of None \<Rightarrow> True | Some m \<Rightarrow> storeUp m)"

definition secondsCeil :: "duration \<Rightarrow> int" where
  "secondsCeil d = (if d \<le> 0 then 0 else (d + second - 1) sdiv second)"

definition set_header :: "string \<Rightarrow> string \<Rightarrow> response \<Rightarrow> response" where
  "set_header k v r = r\<lparr>rspHeader := (rspHeader r)(k \<mapsto> v)\<rparr>"

text \<open>\<open>respond.WriteJSONMessageWithCode\<close>: the status, the code and the message of the body.\<close>

definition write_json :: "int \<Rightarrow> string \<Rightarrow> string \<Rightarrow> response \<Rightarrow> response" where
  "write_json status code msg r = r\<lparr>rspStatus := status, rspCode := code, rspMessage := msg\<rparr>"

definition writeRateLimitHeaders :: "bucket \<Rightarrow> Decision \<Rightarrow> response \<Rightarrow> response" where
  "writeRateLimitHeaders b d r =
     (let limit = (if bBurst (bkBudget b) \<le> 0 then bRequests (bkBudget b) else bBurst (bkBudget b));
          r1 = set_header ''RateLimit-Limit'' (itoa limit) r;
          r2 = (if dRemaining d \<ge> 0 then set_header ''RateLimit-Remaining'' (itoa (dRemaining d)) r1 else r1)
      in if dRetryAfter d > 0 then set_header ''RateLimit-Reset'' (itoa (secondsCeil (dRetryAfter d))) r2 else r2)"

definition failModeName :: "'s RateLimitConfig \<Rightarrow> string" where
  "failModeName conf = (if cfgFailMode conf = RateLimitFailLocal then ''local'' else ''closed'')"

section \<open>From a request to its buckets\<close>

text \<open>The text up to and including the last blank goes.\<close>

fun after_last_space :: "string \<Rightarrow> string" where
  "after_last_space [] = []"
| "after_last_space (c # cs) =
     (if CHR '' '' \<in> set cs then after_last_space cs else if c = CHR '' '' then cs else c # cs)"

definition from_slash :: "string \<Rightarrow> string" where
  "from_slash p = (if CHR ''/'' \<in> set p then dropWhile (\<lambda>c. c \<noteq> CHR ''/'') p else p)"

definition TrimSuffix :: "string \<Rightarrow> string \<Rightarrow> string" where
  "TrimSuffix s suf = (if HasSuffix s suf then take (length s - length suf) s else s)"

definition normalisePattern :: "string \<Rightarrow> string" where
  "normalisePattern p = (if p = [] then [] else TrimSuffix (from_slash (after_last_space p)) ''{$}'')"

definition stage_pattern :: "'s RateLimitConfig \<Rightarrow> http_request \<Rightarrow> string" where
  "stage_pattern conf r =
     (if cfgStage conf = RateLimitStagePostAuth then normalisePattern (Pattern r)
      else case cfgRouter conf of None \<Rightarrow> [] | Some route \<Rightarrow> normalisePattern (route r))"

definition appliesInThisStage :: "RateLimitStage \<Rightarrow> RateLimit \<Rightarrow> bool" where
  "appliesInThisStage stage r =
     (if rAudience r = ''auth'' then stage = RateLimitStagePostAuth
      else if stage = RateLimitStagePreAuth then DecidedPreAuth (rScope r)
      else \<not> DecidedPreAuth (rScope r))"

definition claim_string :: "claims option \<Rightarrow> string \<Rightarrow> string option" where
  "claim_string cl name =
     (case cl of None \<Rightarrow> None
      | Some c \<Rightarrow> (case c name of Some (CString s) \<Rightarrow> Some s | _ \<Rightarrow> None))"

definition scopeKey :: "string \<Rightarrow> http_request \<Rightarrow> claims option \<Rightarrow> string \<Rightarrow> string option" where
  "scopeKey scope r cl ip =
     (if scope = ''ip'' then (if ip \<noteq> [] then Some (''ip:'' @ ip) else None)
      else if scope = ''global'' then Some ''global''
      else if scope = ''user'' then
        (case claim_string cl ''sub'' of Some s \<Rightarrow> if s \<noteq> [] then Some (''user:'' @ s) else None | None \<Rightarrow> None)
      else if scope = ''token'' then
        (case claim_string cl ''jti'' of Some s \<Rightarrow> if s \<noteq> [] then Some (''token:'' @ s) else None | None \<Rightarrow> None)
      else if scope = ''project'' then
        (let i = PathValue r ''project_id'' in if i \<noteq> [] then Some (''project:'' @ i) else None)
      else None)"

definition windowKey :: "RateLimitWindow \<Rightarrow> string" where
  "windowKey w = duration_string (wPeriod w) @ '':'' @ itoa (wRequests w) @ '':'' @ itoa (wBurst w)"

definition window_bucket :: "RateLimit \<Rightarrow> string \<Rightarrow> RateLimitWindow \<Rightarrow> bucket" where
  "window_bucket rule scopeValue w =
     \<lparr>bkKey = uuid_string (rID rule) @ '':'' @ windowKey w @ '':'' @ scopeValue, bkRule = rName rule, bkScope = rScope rule,
       bkStrategy = rStrategy rule,
       bkBudget = \<lparr>bStrategy = rStrategy rule, bPeriod = wPeriod w, bRequests = wRequests w, bBurst = wBurst w\<rparr>\<rparr>"

definition rule_buckets ::
  "'s RateLimitConfig \<Rightarrow> http_request \<Rightarrow> claims option \<Rightarrow> string \<Rightarrow> RateLimit \<Rightarrow> bucket list" where
  "rule_buckets conf r cl ip rule =
     (if \<not> appliesInThisStage (cfgStage conf) rule then []
      else case scopeKey (rScope rule) r cl ip of
        None \<Rightarrow> []
      | Some v \<Rightarrow> map (window_bucket rule v) (SortedWindows rule))"

definition budgetsFor ::
  "'s RateLimitConfig \<Rightarrow> RateLimitMatch list \<Rightarrow> bool \<Rightarrow> http_request \<Rightarrow> claims option \<Rightarrow> string \<Rightarrow> bucket list" where
  "budgetsFor conf matches known r cl ip =
     (if \<not> known then [] else concat (map (\<lambda>m. rule_buckets conf r cl ip (mRule m)) matches))"

section \<open>Charging\<close>

datatype spend_error = RuleFault limiter_error | SharedFault limiter_error

definition spend :: "'s RateLimitConfig \<Rightarrow> call_ctx \<Rightarrow> bucket \<Rightarrow> 's \<Rightarrow> (spend_error + Decision) \<times> 's" where
  "spend conf ctx b s =
     (let shared = (\<lambda>local s1. case cfgShared conf of
            None \<Rightarrow> (Inr local, s1)
          | Some allow \<Rightarrow>
              (case allow ctx (bkKey b) (bkBudget b) s1 of (Inl e, s2) \<Rightarrow> (Inl (SharedFault e), s2) | (Inr d, s2) \<Rightarrow> (Inr d, s2)))
      in case cfgLocal conf of
        None \<Rightarrow> shared \<lparr>dRetryAfter = 0, dRemaining = - 1, dAllowed = True\<rparr> s
      | Some allow \<Rightarrow>
          (case allow ctx (bkKey b) (bkBudget b) s of
             (Inl e, s1) \<Rightarrow> (Inl (RuleFault e), s1)
           | (Inr d, s1) \<Rightarrow> if \<not> dAllowed d then (Inr d, s1) else shared d s1))"

definition refuse_fault :: "response \<Rightarrow> response" where
  "refuse_fault r = write_json 429 ''RATE_LIMIT_UNAVAILABLE'' ''rate limiting is temporarily unavailable, please retry shortly''
     (set_header ''Retry-After'' (itoa (secondsCeil (5 * second))) r)"

definition refuse_spent :: "Decision \<Rightarrow> response \<Rightarrow> response" where
  "refuse_spent d r = write_json 429 ''RATE_LIMIT_EXCEEDED'' ''too many requests''
     (set_header ''Retry-After'' (itoa (max (secondsCeil (dRetryAfter d)) 1)) r)"

fun charge :: "'s RateLimitConfig \<Rightarrow> call_ctx \<Rightarrow> bucket list \<Rightarrow> 's world \<Rightarrow> bool \<times> 's world" where
  "charge conf ctx [] w = (True, w)"
| "charge conf ctx (b # bs) w =
     (case spend conf ctx b (store w) of
        (Inl (RuleFault e), s) \<Rightarrow>
          charge conf ctx bs (w\<lparr>store := s, metrics := recordRuleFault b (metrics w)\<rparr>)
      | (Inl (SharedFault e), s) \<Rightarrow>
          (let w1 = w\<lparr>store := s, metrics := recordStoreFault b (failModeName conf) (metrics w)\<rparr> in
           if cfgFailMode conf = RateLimitFailLocal then charge conf ctx bs w1
           else (False, w1\<lparr>rsp := refuse_fault (rsp w1)\<rparr>))
      | (Inr d, s) \<Rightarrow>
          (let w1 = w\<lparr>store := s, metrics := recordDecision b (dAllowed d) (recordStoreOK (metrics w)),
                 rsp := writeRateLimitHeaders b d (rsp w)\<rparr> in
           if \<not> dAllowed d then (False, w1\<lparr>rsp := refuse_spent d (rsp w1)\<rparr>)
           else charge conf ctx bs w1))"

text \<open>
  The middleware: whether the next handler runs, and the world it runs in.
  \<open>resolve\<close> is the mirror's \<open>Resolve\<close>.
\<close>

definition request_buckets ::
  "'s RateLimitConfig \<Rightarrow> (RateLimitRequest \<Rightarrow> RateLimitMatch list \<times> bool) \<Rightarrow> http_request \<Rightarrow> claims option \<Rightarrow> bucket list" where
  "request_buckets conf resolve r cl =
     (let ip = ClientIP (cfgIP conf) (cfgTrusted conf) r;
          p = stage_pattern conf r;
          pattern = (if p = [] then URLPath r else p);
          (matches, known) = resolve \<lparr>reqMethod = Method r, reqPattern = pattern, reqAuthenticated = cl \<noteq> None\<rparr>
      in budgetsFor conf matches known r cl ip)"

definition RateLimitMdw ::
  "'s RateLimitConfig \<Rightarrow> (RateLimitRequest \<Rightarrow> RateLimitMatch list \<times> bool) \<Rightarrow> call_ctx \<Rightarrow> http_request \<Rightarrow> claims option
     \<Rightarrow> 's world \<Rightarrow> bool \<times> 's world" where
  "RateLimitMdw conf resolve ctx r cl w =
     (let budgets = request_buckets conf resolve r cl in
      if budgets = [] then (True, w) else charge conf ctx budgets w)"

section \<open>What the limiter promises\<close>

text \<open>The answers a charge gets, in order, up to the first one that decides.\<close>

definition decisive :: "'s RateLimitConfig \<Rightarrow> spend_error + Decision \<Rightarrow> bool" where
  "decisive conf r =
     (case r of
        Inl (RuleFault e) \<Rightarrow> False
      | Inl (SharedFault e) \<Rightarrow> cfgFailMode conf \<noteq> RateLimitFailLocal
      | Inr d \<Rightarrow> \<not> dAllowed d)"

fun answers :: "'s RateLimitConfig \<Rightarrow> call_ctx \<Rightarrow> bucket list \<Rightarrow> 's \<Rightarrow> (bucket \<times> (spend_error + Decision)) list" where
  "answers conf ctx [] s = []"
| "answers conf ctx (b # bs) s =
     (let (r, s1) = spend conf ctx b s in (b, r) # (if decisive conf r then [] else answers conf ctx bs s1))"

text \<open>Whether the store was up after these answers: rule faults say nothing about it.\<close>

fun up_after :: "bool \<Rightarrow> (bucket \<times> (spend_error + Decision)) list \<Rightarrow> bool" where
  "up_after up [] = up"
| "up_after up ((b, Inl (RuleFault e)) # rs) = up_after up rs"
| "up_after up ((b, Inl (SharedFault e)) # rs) = up_after False rs"
| "up_after up ((b, Inr d) # rs) = up_after True rs"

definition is_shared_fault :: "spend_error + Decision \<Rightarrow> bool" where
  "is_shared_fault r = (case r of Inl (SharedFault e) \<Rightarrow> True | _ \<Rightarrow> False)"

definition rule_fault_buckets :: "(bucket \<times> (spend_error + Decision)) list \<Rightarrow> bucket list" where
  "rule_fault_buckets rs = map fst (filter (\<lambda>(b, r). case r of Inl (RuleFault e) \<Rightarrow> True | _ \<Rightarrow> False) rs)"

lemma answers_nonempty [simp]: "answers conf ctx (b # bs) s \<noteq> []"
  by (simp add: Let_def split: prod.split)

lemma charge_admits:
  "fst (charge conf ctx bs w) \<longleftrightarrow> list_all (\<lambda>(b, r). \<not> decisive conf r) (answers conf ctx bs (store w))"
  by (induction conf ctx bs w rule: charge.induct)
     (auto simp: Let_def decisive_def split: prod.split sum.split spend_error.split)

lemma charge_metrics:
  assumes "metrics w = Some m"
  shows "\<exists>m'. metrics (snd (charge conf ctx bs w)) = Some m'
    \<and> storeUp m' = up_after (storeUp m) (answers conf ctx bs (store w))
    \<and> ruleFaults m' = ruleFaults m @ rule_fault_buckets (answers conf ctx bs (store w))"
  using assms
proof (induction conf ctx bs w arbitrary: m rule: charge.induct)
  case (2 conf ctx b bs w)
  obtain r s where r: "spend conf ctx b (store w) = (r, s)" by fastforce
  show ?case
  proof (cases r)
    case (Inl e)
    show ?thesis
    proof (cases e)
      case (RuleFault le)
      with 2(1)[OF r[symmetric] Inl RuleFault, of "m\<lparr>ruleFaults := ruleFaults m @ [b]\<rparr>"] 2(4) Inl r
      show ?thesis by (auto simp: recordRuleFault_def decisive_def rule_fault_buckets_def)
    next
      case (SharedFault le)
      with 2(2)[OF r[symmetric] Inl SharedFault refl,
          of "m\<lparr>storeUp := False, storeFaults := storeFaults m @ [(b, failModeName conf)]\<rparr>"] 2(4) Inl r
      show ?thesis
        by (auto simp: recordStoreFault_def decisive_def rule_fault_buckets_def Let_def)
    qed
  next
    case (Inr d)
    with 2(3)[OF r[symmetric] Inr refl,
        of "m\<lparr>storeUp := True, decisions := decisions m @ [(b, dAllowed d)]\<rparr>"] 2(4) r
    show ?thesis
      by (auto simp: recordStoreOK_def recordDecision_def decisive_def rule_fault_buckets_def Let_def)
  qed
qed (simp add: rule_fault_buckets_def)

lemma secondsCeil_nonneg: "0 \<le> secondsCeil d"
  by (auto simp: secondsCeil_def signed_divide_int_def intro: pos_imp_zdiv_nonneg_iff[THEN iffD2])

lemma charge_refusal:
  assumes "\<not> fst (charge conf ctx bs w)"
  shows "rspStatus (rsp (snd (charge conf ctx bs w))) = 429
    \<and> rspCode (rsp (snd (charge conf ctx bs w))) =
        (if is_shared_fault (snd (last (answers conf ctx bs (store w)))) then ''RATE_LIMIT_UNAVAILABLE'' else ''RATE_LIMIT_EXCEEDED'')
    \<and> (\<exists>n. n \<ge> 1 \<and> rspHeader (rsp (snd (charge conf ctx bs w))) ''Retry-After'' = Some (itoa n))"
  using assms
proof (induction conf ctx bs w rule: charge.induct)
  case (2 conf ctx b bs w)
  obtain r s where r: "spend conf ctx b (store w) = (r, s)" by fastforce
  have l: "last (answers conf ctx (b # bs) (store w)) =
     (if decisive conf r \<or> bs = [] then (b, r) else last (answers conf ctx bs s))"
  proof -
    have "answers conf ctx (b # bs) (store w) = (b, r) # (if decisive conf r then [] else answers conf ctx bs s)"
      using r by simp
    moreover have "answers conf ctx bs s \<noteq> []" if "bs \<noteq> []"
      using that answers_nonempty by (metis list.exhaust)
    ultimately show ?thesis by auto
  qed
  have five: "secondsCeil (5 * second) = 5" by (simp add: secondsCeil_def signed_divide_int_def)
  show ?case
  proof (cases "decisive conf r")
    case True
    then show ?thesis using r l five
      by (auto simp: decisive_def is_shared_fault_def refuse_fault_def refuse_spent_def write_json_def set_header_def Let_def
          split: sum.splits spend_error.splits intro: exI[of _ 5] max.cobounded2)
  next
    case False
    then have "bs \<noteq> []" using 2(4) r by (auto simp: decisive_def Let_def split: sum.splits spend_error.splits)
    with False l 2 r show ?thesis
      by (auto simp: decisive_def Let_def split: sum.splits spend_error.splits)
  qed
qed simp

text \<open>
  What a charge decides.  The request goes on exactly when no answer was
  decisive: every bucket allowed it, or was a rule no limiter can be built
  from (skipped), or was unanswered by the shared store in local mode.  A
  refusal is a 429 with a positive \<open>Retry-After\<close>, and its code says whether
  a budget was spent or the store was down; a rule fault is counted under its
  own name and never reports the store as down.
\<close>

theorem charge_verdict:
  assumes "charge conf ctx bs w = (go, w')" and "answers conf ctx bs (store w) = rs"
  shows "(go \<longleftrightarrow> list_all (\<lambda>(b, r). \<not> decisive conf r) rs)
    \<and> (\<not> go \<longrightarrow> rspStatus (rsp w') = 429
        \<and> rspCode (rsp w') = (if is_shared_fault (snd (last rs)) then ''RATE_LIMIT_UNAVAILABLE'' else ''RATE_LIMIT_EXCEEDED'')
        \<and> (\<exists>n. n \<ge> 1 \<and> rspHeader (rsp w') ''Retry-After'' = Some (itoa n)))
    \<and> (\<forall>m. metrics w = Some m \<longrightarrow>
        (\<exists>m'. metrics w' = Some m' \<and> storeUp m' = up_after (storeUp m) rs
           \<and> ruleFaults m' = ruleFaults m @ rule_fault_buckets rs))"
  using charge_admits[of conf ctx bs w] charge_refusal[of conf ctx bs w] charge_metrics[of w _ conf ctx bs] assms
  by simp

definition demo_conf :: "RateLimitStage \<Rightarrow> RateLimitFailMode \<Rightarrow> nat RateLimitConfig" where
  "demo_conf stage mode = \<lparr>cfgShared = Some dead_store, cfgLocal = None, cfgIP = demo_ip, cfgTrusted = [],
     cfgRouter = Some Pattern, cfgStage = stage, cfgFailMode = mode\<rparr>"

definition demo_world :: "nat world" where
  "demo_world = \<lparr>store = 0, metrics = Some NewRateLimitMetrics,
     rsp = \<lparr>rspHeader = Map.empty, rspStatus = 200, rspCode = [], rspMessage = []\<rparr>\<rparr>"

definition demo_bk :: bucket where
  "demo_bk = \<lparr>bkKey = ''k'', bkRule = ''r'', bkScope = ''ip'', bkStrategy = ''token_bucket'', bkBudget = per_minute 1 0\<rparr>"

theorem charge_verdict_witness:
  "\<not> fst (charge (demo_conf RateLimitStagePreAuth RateLimitFailClosed) (ctx_at 1) [demo_bk] demo_world)
   \<and> fst (charge (demo_conf RateLimitStagePreAuth RateLimitFailLocal) (ctx_at 1) [demo_bk] demo_world)"
proof -
  have a: "answers (demo_conf RateLimitStagePreAuth m) (ctx_at 1) [demo_bk] (store demo_world)
      = [(demo_bk, Inl (SharedFault (StoreFault ''dial'')))]" for m
    by (simp add: demo_conf_def demo_world_def spend_def dead_store_def decisive_def)
  have "fst (charge (demo_conf RateLimitStagePreAuth m) (ctx_at 1) [demo_bk] demo_world) \<longleftrightarrow> m = RateLimitFailLocal" for m
    using charge_verdict[OF prod.collapse[symmetric] a, of m] by (auto simp: decisive_def demo_conf_def)
  then show ?thesis by simp
qed

text \<open>
  No rule is charged twice for a request: of the two stages exactly one
  charges it, whatever its scope and audience, so in the other it has no bucket.
\<close>

theorem rule_charged_in_one_stage:
  "appliesInThisStage RateLimitStagePreAuth rule \<noteq> appliesInThisStage RateLimitStagePostAuth rule
   \<and> (cfgStage pre = RateLimitStagePreAuth \<and> cfgStage post = RateLimitStagePostAuth \<longrightarrow>
        rule_buckets pre r cl ip rule = [] \<or> rule_buckets post r' cl' ip' rule = [])"
  by (auto simp: appliesInThisStage_def rule_buckets_def)

theorem rule_charged_in_one_stage_witness:
  "rule_buckets (demo_conf RateLimitStagePostAuth RateLimitFailClosed) (demo_http ''c'' []) None ''c''
     (demo_rule ''r'' ''global'' ''*'' ''ip'' [''*'']) = []"
proof -
  have "rule_buckets (demo_conf RateLimitStagePreAuth RateLimitFailClosed) (demo_http ''c'' []) None ''c''
     (demo_rule ''r'' ''global'' ''*'' ''ip'' [''*'']) \<noteq> []"
    by (simp add: rule_buckets_def appliesInThisStage_def DecidedPreAuth_def demo_conf_def demo_rule_def scopeKey_def
        SortedWindows_def)
  then show ?thesis
    using rule_charged_in_one_stage[of "demo_rule ''r'' ''global'' ''*'' ''ip'' [''*'']"
        "demo_conf RateLimitStagePreAuth RateLimitFailClosed" "demo_conf RateLimitStagePostAuth RateLimitFailClosed"
        "demo_http ''c'' []" None "''c''" "demo_http ''c'' []" None "''c''"]
    by (auto simp: demo_conf_def)
qed

lemma insort_key_map: "insort_key g (f x) (map f xs) = map f (insort_key (\<lambda>x. g (f x)) x xs)"
  by (induction xs) auto

lemma sort_key_map: "sort_key g (map f xs) = map f (sort_key (\<lambda>x. g (f x)) xs)"
  by (induction xs) (simp_all add: insort_key_map)

definition window_numbers :: "RateLimitWindow \<Rightarrow> duration \<times> int \<times> int" where
  "window_numbers w = (wPeriod w, wRequests w, wBurst w)"

lemma sorted_numbers: "map window_numbers (SortedWindows r) = sort_key fst (map window_numbers (rWindows r))"
  by (simp add: SortedWindows_def sort_key_map window_numbers_def)

definition number_bucket :: "uuid \<Rightarrow> string \<Rightarrow> string \<Rightarrow> duration \<times> int \<times> int \<Rightarrow> string \<times> Budget" where
  "number_bucket u strategy v n =
     (case n of (p, rq, bu) \<Rightarrow>
        (uuid_string u @ '':'' @ (duration_string p @ '':'' @ itoa rq @ '':'' @ itoa bu) @ '':'' @ v,
         \<lparr>bStrategy = strategy, bPeriod = p, bRequests = rq, bBurst = bu\<rparr>))"

lemma window_bucket_number:
  "(bkKey (window_bucket rule v w), bkBudget (window_bucket rule v w))
     = number_bucket (rID rule) (rStrategy rule) v (window_numbers w)"
  by (simp add: window_bucket_def number_bucket_def window_numbers_def windowKey_def)

lemma append_sep_inj:
  assumes "a @ x # b = c @ x # d" "x \<notin> set a" "x \<notin> set c" shows "a = c \<and> b = d"
  using assms by (induction a arbitrary: c) (auto simp: Cons_eq_append_conv append_eq_Cons_conv)

lemma colon_not_itoa: "CHR '':'' \<notin> set (itoa i)"
  using itoa_chars[of "CHR '':''" i] by (auto simp: is_digit_char_def)

text \<open>
  A bucket is rebuilt when, and only when, a rule's numbers change.  Editing
  a rule (its name, its description, the ids of its windows, their order) keeps
  every key and budget as long as the rule's id, scope, strategy and the
  numbers of its windows stay; and two windows of one period with different
  numbers never share a key.
\<close>

theorem buckets_follow_the_numbers:
  assumes "rID rule' = rID rule" "rScope rule' = rScope rule" "rAudience rule' = rAudience rule"
    and "rStrategy rule' = rStrategy rule"
    and "map window_numbers (rWindows rule') = map window_numbers (rWindows rule)"
  shows "map (\<lambda>b. (bkKey b, bkBudget b)) (rule_buckets conf r cl ip rule')
       = map (\<lambda>b. (bkKey b, bkBudget b)) (rule_buckets conf r cl ip rule)
    \<and> (\<forall>w w'. wPeriod w = wPeriod w' \<and> windowKey w = windowKey w' \<longrightarrow> window_numbers w = window_numbers w')"
proof -
  have "map (\<lambda>b. (bkKey b, bkBudget b)) (map (window_bucket q v) (SortedWindows q))
      = map (number_bucket (rID q) (rStrategy q) v) (sort_key fst (map window_numbers (rWindows q)))" for q v
    unfolding sorted_numbers[symmetric] by (simp add: window_bucket_number)
  then have 1: "map (\<lambda>b. (bkKey b, bkBudget b)) (rule_buckets conf r cl ip rule')
       = map (\<lambda>b. (bkKey b, bkBudget b)) (rule_buckets conf r cl ip rule)"
    using assms by (simp add: rule_buckets_def appliesInThisStage_def split: option.split)
  have 2: "window_numbers w = window_numbers w'" if "wPeriod w = wPeriod w'" "windowKey w = windowKey w'" for w w'
  proof -
    have "itoa (wRequests w) @ CHR '':'' # itoa (wBurst w) = itoa (wRequests w') @ CHR '':'' # itoa (wBurst w')"
      using that by (simp add: windowKey_def)
    from append_sep_inj[OF this colon_not_itoa colon_not_itoa] that show ?thesis
      by (auto simp: window_numbers_def dest: itoa_inj)
  qed
  from 1 2 show ?thesis by blast
qed

theorem buckets_follow_the_numbers_witness:
  "map (\<lambda>b. (bkKey b, bkBudget b)) (rule_buckets (demo_conf RateLimitStagePreAuth RateLimitFailClosed) (demo_http ''c'' []) None ''c''
      ((demo_rule ''r'' ''global'' ''*'' ''ip'' [''*''])\<lparr>rDescription := ''edited'', rName := ''renamed''\<rparr>))
   = map (\<lambda>b. (bkKey b, bkBudget b)) (rule_buckets (demo_conf RateLimitStagePreAuth RateLimitFailClosed) (demo_http ''c'' []) None ''c''
      (demo_rule ''r'' ''global'' ''*'' ''ip'' [''*'']))"
  by (rule buckets_follow_the_numbers[THEN conjunct1]) simp_all

lemma guest_project_accepted:
  "CreateRateLimitInput_Validate (demo_input\<lparr>iAudience := ''guest'', iScope := ''project''\<rparr>) = None"
  by code_simp

text \<open>
  A guest rule keyed on the project is accepted and never enforced: the
  validator takes the combination, the pre-auth stage leaves project rules to
  the post-auth stage, and there the caller is authenticated, so the ladder
  never answers with it.
\<close>

theorem guest_project_rule_never_enforced:
  assumes "rAudience rule = ''guest''" "rScope rule = ''project''"
    and "cfgStage pre = RateLimitStagePreAuth" "reqAuthenticated req"
  shows "CreateRateLimitInput_Validate (demo_input\<lparr>iAudience := ''guest'', iScope := ''project''\<rparr>) = None
    \<and> rule_buckets pre r None ip rule = []
    \<and> (\<forall>m. m \<in> set (ResolveRateLimits rules req) \<longrightarrow> mRule m \<noteq> rule)"
proof -
  note guest_project_accepted
  moreover have "rule_buckets pre r None ip rule = []"
    using assms by (simp add: rule_buckets_def appliesInThisStage_def DecidedPreAuth_def)
  moreover have "mRule m \<noteq> rule" if "m \<in> set (ResolveRateLimits rules req)" for m
    using winner_in[OF that] assms by (auto simp: applies_def MatchesAudience_def)
  ultimately show ?thesis by blast
qed

definition guest_rule :: "string \<Rightarrow> RateLimit" where
  "guest_rule scope = (demo_rule ''guests'' ''global'' ''*'' scope [''*''])\<lparr>rAudience := ''guest''\<rparr>"

theorem guest_project_rule_never_enforced_witness:
  "list_all (\<lambda>m. mRule m \<noteq> guest_rule ''project'')
     (ResolveRateLimits [guest_rule ''project''] (demo_request ''GET''\<lparr>reqAuthenticated := True\<rparr>))"
  unfolding list_all_iff
  using guest_project_rule_never_enforced[of "guest_rule ''project''" "demo_conf RateLimitStagePreAuth RateLimitFailClosed"
      "demo_request ''GET''\<lparr>reqAuthenticated := True\<rparr>"]
  by (simp add: guest_rule_def demo_rule_def demo_conf_def)

text \<open>
  A guest rule keyed on the address charges signed-in callers too: the
  pre-auth stage runs before any token is read, so the request counts as a
  guest's whatever its \<open>Authorization\<close> header holds, and the rule's buckets
  are charged.
\<close>

theorem guest_ip_rule_charges_everyone:
  assumes "cfgStage conf = RateLimitStagePreAuth" "ClientIP (cfgIP conf) (cfgTrusted conf) r \<noteq> []"
    and "rScope rule = ''ip''" "rAudience rule = ''guest''" "rTargetKind rule = ''global''" "AnyMethod rule" "IsEnabled rule"
    and "rWindows rule \<noteq> []"
  shows "let rt = r\<lparr>Header := (Header r)(''Authorization'' := [token])\<rparr> in
    request_buckets conf (\<lambda>req. (ResolveRateLimits [rule] req, True)) rt None \<noteq> []
    \<and> (\<forall>b. b \<in> set (request_buckets conf (\<lambda>req. (ResolveRateLimits [rule] req, True)) rt None) \<longrightarrow> bkRule b = rName rule)"
proof -
  let ?rt = "r\<lparr>Header := (Header r)(''Authorization'' := [token])\<rparr>"
  have "header_get ?rt ''X-Forwarded-For'' = header_get r ''X-Forwarded-For''"
    "header_get ?rt ''X-Real-IP'' = header_get r ''X-Real-IP''" "RemoteAddr ?rt = RemoteAddr r"
    by (simp_all add: header_get_def)
  then have ip: "ClientIP (cfgIP conf) (cfgTrusted conf) ?rt = ClientIP (cfgIP conf) (cfgTrusted conf) r"
    unfolding ClientIP_def by (simp only:)
  have m: "map mRule (ResolveRateLimits [rule] \<lparr>reqMethod = me, reqPattern = pa, reqAuthenticated = False\<rparr>) = [rule]" for me pa
    using assms by (simp add: ResolveRateLimits_def resolve_step_def MatchesAudience_def MatchesMethod_def rateLimitTier_def)
  have k: "scopeKey (rScope rule) ?rt None ip0 = Some (''ip:'' @ ip0)" if "ip0 \<noteq> []" for ip0
    using that assms by (simp add: scopeKey_def)
  have "SortedWindows rule \<noteq> []"
    using assms(8) by (metis SortedWindows_def set_empty set_sort)
  then have "rule_buckets conf ?rt None (ClientIP (cfgIP conf) (cfgTrusted conf) r) rule
      = map (window_bucket rule (''ip:'' @ ClientIP (cfgIP conf) (cfgTrusted conf) r)) (SortedWindows rule)
     \<and> SortedWindows rule \<noteq> []"
    using assms k by (simp add: rule_buckets_def appliesInThisStage_def DecidedPreAuth_def)
  moreover have "request_buckets conf (\<lambda>req. (ResolveRateLimits [rule] req, True)) ?rt None
      = rule_buckets conf ?rt None (ClientIP (cfgIP conf) (cfgTrusted conf) r) rule"
  proof -
    let ?p = "if stage_pattern conf ?rt = [] then URLPath ?rt else stage_pattern conf ?rt"
    obtain mm where "ResolveRateLimits [rule] \<lparr>reqMethod = Method ?rt, reqPattern = ?p, reqAuthenticated = False\<rparr> = [mm]"
      "mRule mm = rule"
      using m[of "Method ?rt" ?p] by (auto simp: map_eq_Cons_conv)
    then show ?thesis by (simp add: request_buckets_def Let_def budgetsFor_def ip del: if_split)
  qed
  ultimately show ?thesis by (auto simp: Let_def window_bucket_def)
qed

theorem guest_ip_rule_charges_everyone_witness:
  "request_buckets (demo_conf RateLimitStagePreAuth RateLimitFailClosed) (\<lambda>req. (ResolveRateLimits [guest_rule ''ip''] req, True))
     ((demo_http ''c'' [])\<lparr>Header := (Header (demo_http ''c'' []))(''Authorization'' := [''Bearer x''])\<rparr>) None \<noteq> []"
proof -
  have "ClientIP demo_ip [] (demo_http ''c'' []) \<noteq> []" by code_simp
  then show ?thesis
    using guest_ip_rule_charges_everyone[of "demo_conf RateLimitStagePreAuth RateLimitFailClosed" "demo_http ''c'' []"
        "guest_rule ''ip''" "''Bearer x''"]
    by (simp add: guest_rule_def demo_rule_def demo_conf_def IsEnabled_def AnyMethod_def Let_def)
qed

end
