(* ===== verification/ResourceLimits.thy ===== *)
theory ResourceLimits
  imports Go_Prelude "HOL-Library.AList" "HOL-Library.Product_Lexorder"
begin

text \<open>
  Resource limits: the domain types (\<open>internal/core/domain/resources_limits.go\<close>),
  the repository's transactions (\<open>internal/adapter/driven/repositorypg/resources_limits.go\<close>),
  the use case that signs and verifies the counters
  (\<open>internal/core/usecase/resources_limits.go\<close>) and the reservation helpers
  (\<open>usecase/helpers.go\<close>).  The tables are part of the state; each transaction
  holds its row lock to the end, so it is one step; which statements fail is an
  argument.  ECDSA is a pair of functions.
\<close>

section \<open>Data\<close>

definition ResourcesLimitsUnlimited :: int where "ResourcesLimitsUnlimited = - 1"

record ResourcesLimitsScope =
  scID :: "uuid option"
  scType :: string

definition ResourceTypesForScope :: "string \<Rightarrow> string list" where
  "ResourceTypesForScope t =
     (if t = ''system'' then [''users'', ''idps'']
      else if t = ''user'' then [''projects'']
      else if t = ''project'' then [''products'']
      else [])"

record CheckUsageOutput =
  coSignature :: "string option"
  coSoftLimit :: int
  coHardLimit :: int
  coUsage :: int
  coHasUsageRow :: bool

record ResourcesLimitsRecountOutput =
  Previous :: int
  Actual :: int
  HadUsageRow :: bool

definition Drift :: "ResourcesLimitsRecountOutput \<Rightarrow> int" where
  "Drift o1 = Previous o1 - Actual o1"

definition Corrected :: "ResourcesLimitsRecountOutput \<Rightarrow> bool" where
  "Corrected o1 = (Previous o1 \<noteq> Actual o1)"

record ResourcesLimitsStatus =
  stSoftLimit :: int
  stHardLimit :: int
  stCurrentUsage :: int
  CanCreate :: bool
  SoftLimitReached :: bool
  TamperDetected :: bool

datatype limits_error =
    InvalidScopeTypeError string
  | InvalidResourceTypeError string
  | HardLimitReachedError string int int
  | InvalidSignatureError
  | SignError
  | PgError

section \<open>The tables\<close>

record usage_row =
  uUsage :: int
  uSignature :: "string option"

text \<open>A counter is keyed by scope type, resource type and scope id.\<close>

type_synonym ukey = "string \<times> string \<times> uuid"

record limits_state =
  limit_rows :: "(ukey \<times> (int \<times> int)) list"
  usage_rows :: "(ukey \<times> usage_row) list"
  tbl_users :: nat
  tbl_idps :: nat
  tbl_projects_users :: "(uuid \<times> uuid) list"
  tbl_projects :: "uuid \<Rightarrow> bool option"
  tbl_products :: "(uuid \<times> bool) list"
  tamperCounter :: int
  driftCounter :: int

datatype pg_stmt = PgBegin | PgResolve | PgLock | PgCount | PgWrite | PgSignature | PgCommit

type_synonym pg_faults = "pg_stmt \<Rightarrow> bool"

definition no_faults :: pg_faults where "no_faults s = False"

type_synonym signer = "int \<Rightarrow> string option"
type_synonym verifier = "int \<Rightarrow> string option \<Rightarrow> limits_error option"

text \<open>The scope id of the rows: the zero uuid for a scope without one.\<close>

definition scope_uuid :: "ResourcesLimitsScope \<Rightarrow> uuid" where
  "scope_uuid scope = (case scID scope of None \<Rightarrow> uuid_nil | Some u \<Rightarrow> u)"

definition ukey_of :: "ResourcesLimitsScope \<Rightarrow> string \<Rightarrow> ukey" where
  "ukey_of scope rt = (scType scope, rt, scope_uuid scope)"

text \<open>
  \<open>resolveLimitCTE\<close>: the row of the scope, else the default row of the scope
  type joined to the scope's own counter, else the sentinels.
\<close>

definition resolved :: "ukey \<Rightarrow> limits_state \<Rightarrow> CheckUsageOutput" where
  "resolved k db =
     (let (t, rt, u) = k;
          joined = (\<lambda>(soft, hard). case map_of (usage_rows db) k of
              Some r \<Rightarrow> \<lparr>coSignature = Some (case uSignature r of None \<Rightarrow> [] | Some s \<Rightarrow> s),
                  coSoftLimit = soft, coHardLimit = hard, coUsage = uUsage r, coHasUsageRow = True\<rparr>
            | None \<Rightarrow> \<lparr>coSignature = Some [], coSoftLimit = soft, coHardLimit = hard, coUsage = 0, coHasUsageRow = False\<rparr>)
      in case map_of (limit_rows db) (t, rt, u) of
           Some l \<Rightarrow> joined l
         | None \<Rightarrow>
             (case map_of (limit_rows db) (t, rt, uuid_nil) of
                Some l \<Rightarrow> joined l
              | None \<Rightarrow> \<lparr>coSignature = Some [], coSoftLimit = - 1, coHardLimit = - 1, coUsage = - 1, coHasUsageRow = False\<rparr>))"

definition validateScope :: "ResourcesLimitsScope \<Rightarrow> string \<Rightarrow> limits_error option" where
  "validateScope scope rt =
     (if scType scope = [] then Some (InvalidScopeTypeError ''invalid scope type. It must not be empty'')
      else if scID scope = Some uuid_nil then Some (InvalidScopeTypeError ''scope ID must not be nil for specific scopes'')
      else if rt = [] then Some (InvalidResourceTypeError ''invalid resource type. It must not be empty'')
      else None)"

text \<open>\<open>UPDATE resources_usage SET signature\<close>.\<close>

definition store_signature :: "ukey \<Rightarrow> string \<Rightarrow> limits_state \<Rightarrow> limits_state" where
  "store_signature k sig db =
     (case map_of (usage_rows db) k of
        None \<Rightarrow> db
      | Some r \<Rightarrow> db\<lparr>usage_rows := AList.update k (r\<lparr>uSignature := Some sig\<rparr>) (usage_rows db)\<rparr>)"

definition set_usage :: "ukey \<Rightarrow> int \<Rightarrow> limits_state \<Rightarrow> limits_state" where
  "set_usage k n db =
     db\<lparr>usage_rows := AList.update k (case map_of (usage_rows db) k of
          None \<Rightarrow> \<lparr>uUsage = n, uSignature = None\<rparr> | Some r \<Rightarrow> r\<lparr>uUsage := n\<rparr>) (usage_rows db)\<rparr>"

text \<open>
  The end of every counter transaction: sign the value just written, store
  the signature, commit; anything that fails rolls back to \<open>db0\<close>.
\<close>

definition sign_and_commit ::
  "pg_faults \<Rightarrow> signer \<Rightarrow> ukey \<Rightarrow> int \<Rightarrow> limits_state \<Rightarrow> limits_state \<Rightarrow> (limits_error + int) \<times> limits_state" where
  "sign_and_commit pg sign k newUsage db0 db1 =
     (case sign newUsage of
        None \<Rightarrow> (Inl SignError, db0)
      | Some sig \<Rightarrow>
          if pg PgSignature then (Inl PgError, db0)
          else if pg PgCommit then (Inl PgError, db0)
          else (Inr newUsage, store_signature k sig db1))"

section \<open>The repository\<close>

definition repo_ReserveUsage ::
  "pg_faults \<Rightarrow> ResourcesLimitsScope \<Rightarrow> string \<Rightarrow> verifier option \<Rightarrow> signer \<Rightarrow> limits_state
     \<Rightarrow> (limits_error + int) \<times> limits_state" where
  "repo_ReserveUsage pg scope rt verify sign db =
     (case validateScope scope rt of
        Some e \<Rightarrow> (Inl e, db)
      | None \<Rightarrow>
          if pg PgBegin then (Inl PgError, db)
          else if pg PgResolve then (Inl PgError, db)
          else if pg PgLock then (Inl PgError, db)
          else let k = ukey_of scope rt; hard = coHardLimit (resolved k db); row = map_of (usage_rows db) k;
              usage = (case row of None \<Rightarrow> 0 | Some r \<Rightarrow> uUsage r);
              bad = (case row of None \<Rightarrow> None
                 | Some r \<Rightarrow> (case verify of None \<Rightarrow> None | Some v \<Rightarrow> v (uUsage r) (uSignature r)));
              newUsage = (case row of
                 None \<Rightarrow> (if hard = ResourcesLimitsUnlimited \<or> hard \<ge> 1 then Some 1 else None)
               | Some r \<Rightarrow> (if (hard = ResourcesLimitsUnlimited \<or> hard \<ge> 1)
                     \<and> (hard = ResourcesLimitsUnlimited \<or> uUsage r < hard) then Some (uUsage r + 1) else None))
            in case bad of
              Some e \<Rightarrow> (Inl e, db)
            | None \<Rightarrow>
                if pg PgWrite then (Inl PgError, db)
                else case newUsage of
                  None \<Rightarrow> (Inl (HardLimitReachedError rt hard usage), db)
                | Some n \<Rightarrow> sign_and_commit pg sign k n db (set_usage k n db))"

text \<open>
  \<open>mutateUsage\<close> on the counter statement's effect: the value it returns, or
  no row.
\<close>

definition mutateUsage ::
  "pg_faults \<Rightarrow> ukey \<Rightarrow> signer \<Rightarrow> int option \<Rightarrow> limits_state \<Rightarrow> (limits_error + int) \<times> limits_state" where
  "mutateUsage pg k sign counter db =
     (if pg PgBegin then (Inl PgError, db)
      else if pg PgWrite then (Inl PgError, db)
      else case counter of
        None \<Rightarrow> (Inr 0, db)
      | Some n \<Rightarrow> sign_and_commit pg sign k n db (set_usage k n db))"

definition repo_IncrementUsage ::
  "pg_faults \<Rightarrow> ResourcesLimitsScope \<Rightarrow> string \<Rightarrow> signer \<Rightarrow> limits_state \<Rightarrow> (limits_error + int) \<times> limits_state" where
  "repo_IncrementUsage pg scope rt sign db =
     (case validateScope scope rt of
        Some e \<Rightarrow> (Inl e, db)
      | None \<Rightarrow>
          let k = ukey_of scope rt in
          mutateUsage pg k sign (Some (case map_of (usage_rows db) k of None \<Rightarrow> 1 | Some r \<Rightarrow> uUsage r + 1)) db)"

definition repo_DecrementUsage ::
  "pg_faults \<Rightarrow> ResourcesLimitsScope \<Rightarrow> string \<Rightarrow> signer \<Rightarrow> limits_state \<Rightarrow> (limits_error + int) \<times> limits_state" where
  "repo_DecrementUsage pg scope rt sign db =
     (case validateScope scope rt of
        Some e \<Rightarrow> (Inl e, db)
      | None \<Rightarrow>
          let k = ukey_of scope rt in
          mutateUsage pg k sign
            (case map_of (usage_rows db) k of None \<Rightarrow> None | Some r \<Rightarrow> if uUsage r > 0 then Some (uUsage r - 1) else None) db)"

definition repo_CheckUsage ::
  "pg_faults \<Rightarrow> ResourcesLimitsScope \<Rightarrow> string \<Rightarrow> limits_state \<Rightarrow> limits_error + CheckUsageOutput" where
  "repo_CheckUsage pg scope rt db =
     (case validateScope scope rt of
        Some e \<Rightarrow> Inl e
      | None \<Rightarrow> if pg PgResolve then Inl PgError else Inr (resolved (ukey_of scope rt) db))"

text \<open>\<open>resourceCountQueries\<close>: what each resource type counts; \<open>None\<close> when there is no query.\<close>

definition resourceCountQueries :: "string \<Rightarrow> (uuid \<Rightarrow> limits_state \<Rightarrow> int) option" where
  "resourceCountQueries rt =
     (if rt = ''users'' then Some (\<lambda>u db. int (tbl_users db))
      else if rt = ''idps'' then Some (\<lambda>u db. int (tbl_idps db))
      else if rt = ''projects'' then
        Some (\<lambda>u db. int (length (filter (\<lambda>(p, user). user = u \<and> tbl_projects db p = Some False) (tbl_projects_users db))))
      else if rt = ''products'' then
        Some (\<lambda>u db. int (length (filter (\<lambda>(p, sys). p = u \<and> \<not> sys) (tbl_products db))))
      else None)"

definition repo_RecountUsage ::
  "pg_faults \<Rightarrow> ResourcesLimitsScope \<Rightarrow> string \<Rightarrow> signer \<Rightarrow> limits_state
     \<Rightarrow> (limits_error + ResourcesLimitsRecountOutput) \<times> limits_state" where
  "repo_RecountUsage pg scope rt sign db =
     (case validateScope scope rt of
        Some e \<Rightarrow> (Inl e, db)
      | None \<Rightarrow>
          (case resourceCountQueries rt of
             None \<Rightarrow> (Inl (InvalidResourceTypeError (''resource type '' @ rt @ '' has no reconciliation query'')), db)
           | Some count \<Rightarrow>
               if pg PgBegin then (Inl PgError, db)
               else if pg PgLock then (Inl PgError, db)
               else if pg PgCount then (Inl PgError, db)
               else if pg PgWrite then (Inl PgError, db)
               else let k = ukey_of scope rt; row = map_of (usage_rows db) k; actual = count (scope_uuid scope) db in
                 case sign_and_commit pg sign k actual db (set_usage k actual db) of
                   (Inl e, db1) \<Rightarrow> (Inl e, db1)
                 | (Inr _, db1) \<Rightarrow>
                     (Inr \<lparr>Previous = (case row of None \<Rightarrow> 0 | Some r \<Rightarrow> uUsage r), Actual = actual, HadUsageRow = (row \<noteq> None)\<rparr>, db1)))"

text \<open>\<open>ORDER BY scope_type, resource_type, scope_id\<close>.\<close>

definition SelectTrackedScopes :: "pg_faults \<Rightarrow> limits_state \<Rightarrow> limits_error + ukey list" where
  "SelectTrackedScopes pg db = (if pg PgResolve then Inl PgError else Inr (sort (map fst (usage_rows db))))"

section \<open>The use case\<close>

record ecdsa =
  SignASN1 :: "string \<Rightarrow> string option"
  VerifyASN1 :: "string \<Rightarrow> string option \<Rightarrow> bool"

definition signature_payload :: "ResourcesLimitsScope \<Rightarrow> string \<Rightarrow> int \<Rightarrow> string" where
  "signature_payload scope rt count =
     ''scope_type='' @ scType scope @ ''&scope_id='' @ (case scID scope of None \<Rightarrow> [] | Some u \<Rightarrow> uuid_string u)
       @ ''&resource_type='' @ rt @ ''&count='' @ itoa count"

definition createSignature :: "ecdsa \<Rightarrow> ResourcesLimitsScope \<Rightarrow> string \<Rightarrow> signer" where
  "createSignature key scope rt count = SignASN1 key (signature_payload scope rt count)"

definition verifySignature :: "ecdsa \<Rightarrow> ResourcesLimitsScope \<Rightarrow> string \<Rightarrow> verifier" where
  "verifySignature key scope rt count sig =
     (if \<not> VerifyASN1 key (signature_payload scope rt count) sig then Some InvalidSignatureError else None)"

definition use_case_guard :: "ResourcesLimitsScope \<Rightarrow> string \<Rightarrow> limits_error option" where
  "use_case_guard scope rt =
     (if scType scope = [] then Some (InvalidScopeTypeError ''invalid scope type. It must not be empty'')
      else if rt = [] then Some (InvalidResourceTypeError ''invalid resource type. It must not be empty'')
      else None)"

definition CheckUsage ::
  "ecdsa \<Rightarrow> pg_faults \<Rightarrow> ResourcesLimitsScope \<Rightarrow> string \<Rightarrow> limits_state
     \<Rightarrow> (limits_error + ResourcesLimitsStatus) \<times> limits_state" where
  "CheckUsage key pg scope rt db =
     (case use_case_guard scope rt of
        Some e \<Rightarrow> (Inl e, db)
      | None \<Rightarrow>
          (case repo_CheckUsage pg scope rt db of
             Inl e \<Rightarrow> (Inl e, db)
           | Inr check \<Rightarrow>
               let tampered = (coHasUsageRow check \<and> verifySignature key scope rt (coUsage check) (coSignature check) \<noteq> None);
                   db1 = (if tampered then db\<lparr>tamperCounter := tamperCounter db + 1\<rparr> else db);
                   status = (if coHardLimit check = ResourcesLimitsUnlimited \<or> coSoftLimit check = ResourcesLimitsUnlimited
                       \<or> coUsage check = ResourcesLimitsUnlimited
                     then \<lparr>stSoftLimit = ResourcesLimitsUnlimited, stHardLimit = ResourcesLimitsUnlimited,
                       stCurrentUsage = max (coUsage check) 0, CanCreate = True, SoftLimitReached = False, TamperDetected = False\<rparr>
                     else \<lparr>stSoftLimit = coSoftLimit check, stHardLimit = coHardLimit check, stCurrentUsage = coUsage check,
                       CanCreate = (coUsage check < coHardLimit check),
                       SoftLimitReached = (coUsage check \<ge> coSoftLimit check \<and> coUsage check < coHardLimit check),
                       TamperDetected = False\<rparr>);
                   status1 = status\<lparr>TamperDetected := tampered\<rparr>
               in (Inr (if tampered then status1\<lparr>CanCreate := False\<rparr> else status1), db1)))"

fun check_all ::
  "ecdsa \<Rightarrow> pg_faults \<Rightarrow> ResourcesLimitsScope \<Rightarrow> string list \<Rightarrow> limits_state
     \<Rightarrow> (limits_error + (string \<times> ResourcesLimitsStatus) list) \<times> limits_state" where
  "check_all key pg scope [] db = (Inr [], db)"
| "check_all key pg scope (rt # rts) db =
     (case CheckUsage key pg scope rt db of
        (Inl e, db1) \<Rightarrow> (Inl e, db1)
      | (Inr s, db1) \<Rightarrow>
          (case check_all key pg scope rts db1 of
             (Inl e, db2) \<Rightarrow> (Inl e, db2)
           | (Inr ss, db2) \<Rightarrow> (Inr ((rt, s) # ss), db2)))"

definition StatusByScope ::
  "ecdsa \<Rightarrow> pg_faults \<Rightarrow> ResourcesLimitsScope \<Rightarrow> limits_state
     \<Rightarrow> (limits_error + (string \<times> uuid \<times> (string \<times> ResourcesLimitsStatus) list)) \<times> limits_state" where
  "StatusByScope key pg scope db =
     (let rts = ResourceTypesForScope (scType scope) in
      if length rts = 0 then (Inl (InvalidScopeTypeError (''unknown scope type '' @ scType scope)), db)
      else case check_all key pg scope rts db of
        (Inl e, db1) \<Rightarrow> (Inl e, db1)
      | (Inr ss, db1) \<Rightarrow> (Inr (scType scope, scope_uuid scope, ss), db1))"

definition ReserveUsage ::
  "ecdsa \<Rightarrow> pg_faults \<Rightarrow> ResourcesLimitsScope \<Rightarrow> string \<Rightarrow> limits_state \<Rightarrow> limits_error option \<times> limits_state" where
  "ReserveUsage key pg scope rt db =
     (case use_case_guard scope rt of
        Some e \<Rightarrow> (Some e, db)
      | None \<Rightarrow>
          (case repo_ReserveUsage pg scope rt (Some (verifySignature key scope rt)) (createSignature key scope rt) db of
             (Inl e, db1) \<Rightarrow> (Some e, db1)
           | (Inr _, db1) \<Rightarrow> (None, db1)))"

definition RecountUsage ::
  "ecdsa \<Rightarrow> pg_faults \<Rightarrow> ResourcesLimitsScope \<Rightarrow> string \<Rightarrow> limits_state
     \<Rightarrow> (limits_error + ResourcesLimitsRecountOutput) \<times> limits_state" where
  "RecountUsage key pg scope rt db =
     (case use_case_guard scope rt of
        Some e \<Rightarrow> (Inl e, db)
      | None \<Rightarrow>
          (case repo_RecountUsage pg scope rt (createSignature key scope rt) db of
             (Inl e, db1) \<Rightarrow> (Inl e, db1)
           | (Inr out, db1) \<Rightarrow>
               (Inr out, if Corrected out then db1\<lparr>driftCounter := driftCounter db1 + Drift out\<rparr> else db1)))"

definition tracked_scope :: "ukey \<Rightarrow> ResourcesLimitsScope" where
  "tracked_scope k = (case k of (t, rt, u) \<Rightarrow> \<lparr>scID = (if u \<noteq> uuid_nil then Some u else None), scType = t\<rparr>)"

text \<open>\<open>faults k\<close> are the statements that fail while the counter \<open>k\<close> is recounted.\<close>

fun reconcile_loop ::
  "ecdsa \<Rightarrow> (ukey \<Rightarrow> pg_faults) \<Rightarrow> ukey list \<Rightarrow> int \<Rightarrow> limits_state \<Rightarrow> int \<times> limits_state" where
  "reconcile_loop key faults [] corrected db = (corrected, db)"
| "reconcile_loop key faults (k # ks) corrected db =
     (case RecountUsage key (faults k) (tracked_scope k) (fst (snd k)) db of
        (Inl e, db1) \<Rightarrow> reconcile_loop key faults ks corrected db1
      | (Inr out, db1) \<Rightarrow> reconcile_loop key faults ks (if Corrected out then corrected + 1 else corrected) db1)"

definition ReconcileAll ::
  "ecdsa \<Rightarrow> pg_faults \<Rightarrow> (ukey \<Rightarrow> pg_faults) \<Rightarrow> limits_state \<Rightarrow> (limits_error + int) \<times> limits_state" where
  "ReconcileAll key pg faults db =
     (case SelectTrackedScopes pg db of
        Inl e \<Rightarrow> (Inl e, db)
      | Inr ks \<Rightarrow> (case reconcile_loop key faults ks 0 db of (n, db1) \<Rightarrow> (Inr n, db1)))"

definition IncrementUsage ::
  "ecdsa \<Rightarrow> pg_faults \<Rightarrow> ResourcesLimitsScope \<Rightarrow> string \<Rightarrow> limits_state \<Rightarrow> limits_error option \<times> limits_state" where
  "IncrementUsage key pg scope rt db =
     (if rt = [] then (Some (InvalidResourceTypeError ''invalid resource type. It must not be empty''), db)
      else case repo_IncrementUsage pg scope rt (createSignature key scope rt) db of
        (Inl e, db1) \<Rightarrow> (Some e, db1)
      | (Inr _, db1) \<Rightarrow> (None, db1))"

definition DecrementUsage ::
  "ecdsa \<Rightarrow> pg_faults \<Rightarrow> ResourcesLimitsScope \<Rightarrow> string \<Rightarrow> limits_state \<Rightarrow> limits_error option \<times> limits_state" where
  "DecrementUsage key pg scope rt db =
     (if rt = [] then (Some (InvalidResourceTypeError ''invalid resource type. It must not be empty''), db)
      else case repo_DecrementUsage pg scope rt (createSignature key scope rt) db of
        (Inl e, db1) \<Rightarrow> (Some e, db1)
      | (Inr _, db1) \<Rightarrow> (None, db1))"

definition ReserveResourceSlot ::
  "ecdsa \<Rightarrow> pg_faults \<Rightarrow> ResourcesLimitsScope \<Rightarrow> string \<Rightarrow> limits_state \<Rightarrow> limits_error option \<times> limits_state" where
  "ReserveResourceSlot key pg scope rt db = ReserveUsage key pg scope rt db"

text \<open>The error of a release is logged, not returned.\<close>

definition ReleaseResourceSlot ::
  "ecdsa \<Rightarrow> pg_faults \<Rightarrow> ResourcesLimitsScope \<Rightarrow> string \<Rightarrow> limits_state \<Rightarrow> limits_state" where
  "ReleaseResourceSlot key pg scope rt db = snd (DecrementUsage key pg scope rt db)"

section \<open>Counters and their signatures\<close>

definition counter :: "ukey \<Rightarrow> limits_state \<Rightarrow> int" where
  "counter k db = (case map_of (usage_rows db) k of None \<Rightarrow> 0 | Some r \<Rightarrow> uUsage r)"

definition hard_limit :: "ukey \<Rightarrow> limits_state \<Rightarrow> int option" where
  "hard_limit k db = (let h = coHardLimit (resolved k db) in if h = - 1 then None else Some h)"

definition row_signed :: "ecdsa \<Rightarrow> ukey \<Rightarrow> usage_row \<Rightarrow> bool" where
  "row_signed key k r = VerifyASN1 key (signature_payload (tracked_scope k) (fst (snd k)) (uUsage r)) (uSignature r)"

definition signed :: "ecdsa \<Rightarrow> limits_state \<Rightarrow> bool" where
  "signed key db = (\<forall>k r. map_of (usage_rows db) k = Some r \<longrightarrow> row_signed key k r)"

text \<open>What the service relies on of ECDSA: a signature it made verifies.\<close>

definition signs :: "ecdsa \<Rightarrow> bool" where
  "signs key = (\<forall>p s. SignASN1 key p = Some s \<longrightarrow> VerifyASN1 key p (Some s))"

lemma tracked_scope_ukey: "validateScope scope rt = None \<Longrightarrow> tracked_scope (ukey_of scope rt) = scope"
  by (cases scope) (auto simp: validateScope_def tracked_scope_def ukey_of_def scope_uuid_def split: if_splits option.splits)

lemma limit_rows_set [simp]:
  "limit_rows (set_usage k n db) = limit_rows db" "limit_rows (store_signature k s db) = limit_rows db"
  by (auto simp: set_usage_def store_signature_def split: option.split)

lemma rows_after_write:
  "map_of (usage_rows (store_signature k s (set_usage k n db)))
     = (map_of (usage_rows db))(k \<mapsto> \<lparr>uUsage = n, uSignature = Some s\<rparr>)"
  by (auto simp: set_usage_def store_signature_def AList.update_conv' split: option.split)

lemma resolved_hard: "limit_rows db' = limit_rows db \<Longrightarrow> coHardLimit (resolved k db') = coHardLimit (resolved k db)"
  by (auto simp: resolved_def Let_def split: option.split prod.split)

lemma hard_limit_cong: "limit_rows db' = limit_rows db \<Longrightarrow> hard_limit k db' = hard_limit k db"
  using resolved_hard[of db' db k] by (simp add: hard_limit_def)

text \<open>A transaction either writes the counter, signed, or leaves everything as it was.\<close>

definition wrote :: "ukey \<Rightarrow> int \<Rightarrow> signer \<Rightarrow> limits_state \<Rightarrow> limits_state \<Rightarrow> bool" where
  "wrote k n sign db db' =
     (\<exists>s. sign n = Some s \<and> db' = store_signature k s (set_usage k n db))"

lemma sign_and_commit_cases:
  assumes "sign_and_commit pg sign k n db (set_usage k n db) = (r, db')"
  shows "(\<exists>e. r = Inl e \<and> db' = db) \<or> (r = Inr n \<and> wrote k n sign db db')"
  using assms by (auto simp: sign_and_commit_def wrote_def split: option.splits if_splits)

lemma wrote_facts:
  assumes "wrote k n sign db db'"
  shows "limit_rows db' = limit_rows db" "counter k db' = n"
    and "\<And>k'. k' \<noteq> k \<Longrightarrow> map_of (usage_rows db') k' = map_of (usage_rows db) k'"
  using assms by (auto simp: wrote_def counter_def rows_after_write)

lemma wrote_signed:
  assumes "wrote (ukey_of scope rt) n (createSignature key scope rt) db db'" "signs key"
    and "validateScope scope rt = None"
  shows "\<exists>r. map_of (usage_rows db') (ukey_of scope rt) = Some r \<and> uUsage r = n \<and> row_signed key (ukey_of scope rt) r"
  using assms tracked_scope_ukey[OF assms(3)]
  by (auto simp: wrote_def rows_after_write row_signed_def signs_def createSignature_def ukey_of_def)

lemma wrote_keeps_signed:
  assumes "wrote (ukey_of scope rt) n (createSignature key scope rt) db db'" "signs key"
    and "validateScope scope rt = None" "signed key db"
  shows "signed key db'"
  unfolding signed_def
proof (intro allI impI)
  fix k r assume r: "map_of (usage_rows db') k = Some r"
  show "row_signed key k r"
  proof (cases "k = ukey_of scope rt")
    case True with r wrote_signed[OF assms(1-3)] show ?thesis by auto
  next
    case False
    with r wrote_facts(3)[OF assms(1) False] have "map_of (usage_rows db) k = Some r" by simp
    with assms(4) show ?thesis unfolding signed_def by blast
  qed
qed

lemma repo_ReserveUsage_cases:
  assumes "repo_ReserveUsage pg scope rt v sign db = (r, db')"
  shows "(\<exists>e. r = Inl e \<and> db' = db)
    \<or> (validateScope scope rt = None
       \<and> (\<exists>n. r = Inr n \<and> n = counter (ukey_of scope rt) db + 1
          \<and> (hard_limit (ukey_of scope rt) db = None \<or> (\<exists>h. hard_limit (ukey_of scope rt) db = Some h \<and> n \<le> h))
          \<and> (\<forall>f row. v = Some f \<and> map_of (usage_rows db) (ukey_of scope rt) = Some row \<longrightarrow> f (uUsage row) (uSignature row) = None)
          \<and> wrote (ukey_of scope rt) n sign db db'))"
  using assms
  by (auto simp: repo_ReserveUsage_def Let_def counter_def hard_limit_def ResourcesLimitsUnlimited_def
      split: option.splits if_splits dest!: sign_and_commit_cases)

lemma ReserveUsage_cases:
  assumes "ReserveUsage key pg scope rt db = (r, db')"
  shows "(\<exists>e. r = Some e \<and> db' = db)
    \<or> (r = None \<and> validateScope scope rt = None
       \<and> (hard_limit (ukey_of scope rt) db = None
          \<or> (\<exists>h. hard_limit (ukey_of scope rt) db = Some h \<and> counter (ukey_of scope rt) db + 1 \<le> h))
       \<and> (\<forall>row. map_of (usage_rows db) (ukey_of scope rt) = Some row \<longrightarrow> row_signed key (ukey_of scope rt) row)
       \<and> wrote (ukey_of scope rt) (counter (ukey_of scope rt) db + 1) (createSignature key scope rt) db db')"
proof -
  have v: "verifySignature key scope rt (uUsage row) (uSignature row) = None \<longleftrightarrow> row_signed key (ukey_of scope rt) row"
    if "validateScope scope rt = None" for row
    using tracked_scope_ukey[OF that] by (simp add: verifySignature_def row_signed_def ukey_of_def)
  show ?thesis
  proof (cases "use_case_guard scope rt")
    case (Some e) with assms show ?thesis by (auto simp: ReserveUsage_def)
  next
    case None
    obtain q db1 where q: "repo_ReserveUsage pg scope rt (Some (verifySignature key scope rt)) (createSignature key scope rt) db = (q, db1)"
      by fastforce
    from repo_ReserveUsage_cases[OF q] show ?thesis
    proof
      assume "\<exists>e. q = Inl e \<and> db1 = db"
      with assms None q show ?thesis by (auto simp: ReserveUsage_def)
    next
      assume "validateScope scope rt = None \<and> (\<exists>n. q = Inr n \<and> n = counter (ukey_of scope rt) db + 1
          \<and> (hard_limit (ukey_of scope rt) db = None \<or> (\<exists>h. hard_limit (ukey_of scope rt) db = Some h \<and> n \<le> h))
          \<and> (\<forall>f row. Some (verifySignature key scope rt) = Some f \<and> map_of (usage_rows db) (ukey_of scope rt) = Some row
               \<longrightarrow> f (uUsage row) (uSignature row) = None)
          \<and> wrote (ukey_of scope rt) n (createSignature key scope rt) db db1)"
      with assms None q v show ?thesis by (auto simp: ReserveUsage_def)
    qed
  qed
qed

lemma DecrementUsage_cases:
  assumes "DecrementUsage key pg scope rt db = (r, db')"
  shows "db' = db
    \<or> (r = None \<and> validateScope scope rt = None \<and> 0 < counter (ukey_of scope rt) db
       \<and> wrote (ukey_of scope rt) (counter (ukey_of scope rt) db - 1) (createSignature key scope rt) db db')"
  using assms
  by (auto simp: DecrementUsage_def repo_DecrementUsage_def mutateUsage_def Let_def counter_def
      split: option.splits if_splits sum.splits prod.splits dest!: sign_and_commit_cases)

lemma IncrementUsage_cases:
  assumes "IncrementUsage key pg scope rt db = (r, db')"
  shows "(\<exists>e. r = Some e \<and> db' = db)
    \<or> (r = None \<and> validateScope scope rt = None
       \<and> wrote (ukey_of scope rt) (counter (ukey_of scope rt) db + 1) (createSignature key scope rt) db db')"
  using assms
  by (auto simp: IncrementUsage_def repo_IncrementUsage_def mutateUsage_def Let_def counter_def
      split: option.splits if_splits sum.splits prod.splits dest!: sign_and_commit_cases)

section \<open>The slots\<close>

text \<open>
  What the services that create resources rely on: a slot is claimed before
  the resource is made and given back when making it failed.
\<close>

locale usage_slots =
  fixes reserve :: "'f \<Rightarrow> 's \<Rightarrow> bool \<times> 's"
    and release :: "'f \<Rightarrow> 's \<Rightarrow> 's"
    and usage :: "'s \<Rightarrow> int"
    and limit :: "'s \<Rightarrow> int option"
  assumes reserve_claims: "reserve f s = (True, s') \<Longrightarrow>
      usage s' = usage s + 1 \<and> limit s' = limit s \<and> (limit s = None \<or> (\<exists>h. limit s = Some h \<and> usage s' \<le> h))"
    and reserve_refuses: "reserve f s = (False, s') \<Longrightarrow> s' = s"
    and release_gives: "limit (release f s) = limit s \<and>
      (usage (release f s) = usage s \<or> (0 < usage s \<and> usage (release f s) = usage s - 1))"
begin

text \<open>A run: \<open>Inl\<close> claims a slot, \<open>Inr\<close> gives one back.\<close>

fun run :: "('f + 'f) list \<Rightarrow> 's \<Rightarrow> 's" where
  "run [] s = s"
| "run (Inl f # os) s = run os (snd (reserve f s))"
| "run (Inr f # os) s = run os (release f s)"

lemma reserve_step: "limit (snd (reserve f s)) = limit s
    \<and> (\<forall>h. limit s = Some h \<longrightarrow> usage (snd (reserve f s)) \<le> max h (usage s))"
proof (cases "reserve f s")
  case (Pair ok s')
  then show ?thesis
    using reserve_claims[of f s s'] reserve_refuses[of f s s'] by (cases ok) auto
qed

lemma run_bounded:
  "limit (run os s) = limit s \<and> (\<forall>h. limit s = Some h \<longrightarrow> usage (run os s) \<le> max h (usage s))"
proof (induction os s rule: run.induct)
  case (2 f os s)
  then show ?case using reserve_step[of f s] by (auto simp: max_def split: if_splits)
next
  case (3 f os s)
  then show ?case using release_gives[of f s] by (auto simp: max_def split: if_splits)
qed simp

end

definition reserve_slot ::
  "ecdsa \<Rightarrow> ResourcesLimitsScope \<Rightarrow> string \<Rightarrow> pg_faults \<Rightarrow> limits_state \<Rightarrow> bool \<times> limits_state" where
  "reserve_slot key scope rt pg db = (case ReserveResourceSlot key pg scope rt db of (r, db1) \<Rightarrow> (r = None, db1))"

interpretation slots: usage_slots "reserve_slot key scope rt" "\<lambda>pg. ReleaseResourceSlot key pg scope rt"
  "counter (ukey_of scope rt)" "hard_limit (ukey_of scope rt)" for key scope rt
proof
  fix f s s' assume "reserve_slot key scope rt f s = (True, s')"
  then have "ReserveUsage key f scope rt s = (None, s')"
    by (auto simp: reserve_slot_def ReserveResourceSlot_def split: prod.splits)
  from ReserveUsage_cases[OF this]
  have w: "wrote (ukey_of scope rt) (counter (ukey_of scope rt) s + 1) (createSignature key scope rt) s s'"
    and l: "hard_limit (ukey_of scope rt) s = None
       \<or> (\<exists>h. hard_limit (ukey_of scope rt) s = Some h \<and> counter (ukey_of scope rt) s + 1 \<le> h)"
    by auto
  from l wrote_facts(2)[OF w] hard_limit_cong[OF wrote_facts(1)[OF w]]
  show "counter (ukey_of scope rt) s' = counter (ukey_of scope rt) s + 1
      \<and> hard_limit (ukey_of scope rt) s' = hard_limit (ukey_of scope rt) s
      \<and> (hard_limit (ukey_of scope rt) s = None
         \<or> (\<exists>h. hard_limit (ukey_of scope rt) s = Some h \<and> counter (ukey_of scope rt) s' \<le> h))"
    by simp
next
  fix f s s' assume "reserve_slot key scope rt f s = (False, s')"
  then obtain e where "ReserveUsage key f scope rt s = (Some e, s')"
    by (auto simp: reserve_slot_def ReserveResourceSlot_def split: prod.splits)
  from ReserveUsage_cases[OF this] show "s' = s" by auto
next
  fix f s
  let ?s = "ReleaseResourceSlot key f scope rt s"
  obtain r where "DecrementUsage key f scope rt s = (r, ?s)"
    by (metis ReleaseResourceSlot_def prod.collapse)
  from DecrementUsage_cases[OF this]
  have "?s = s \<or> (0 < counter (ukey_of scope rt) s
      \<and> wrote (ukey_of scope rt) (counter (ukey_of scope rt) s - 1) (createSignature key scope rt) s ?s)"
    by blast
  then show "hard_limit (ukey_of scope rt) ?s = hard_limit (ukey_of scope rt) s
      \<and> (counter (ukey_of scope rt) ?s = counter (ukey_of scope rt) s
         \<or> (0 < counter (ukey_of scope rt) s \<and> counter (ukey_of scope rt) ?s = counter (ukey_of scope rt) s - 1))"
    using wrote_facts(1,2) hard_limit_cong by metis
qed

text \<open>
  A reservation is atomic and never oversells: it either fails and changes
  nothing, or raises exactly its own counter by one to a value within the hard
  limit, with a signature that verifies, having verified the one it found.
\<close>

theorem reservation_is_atomic:
  assumes "ReserveUsage key pg scope rt db = (r, db')" "signs key"
  shows "(r \<noteq> None \<longrightarrow> db' = db)
    \<and> (r = None \<longrightarrow>
         counter (ukey_of scope rt) db' = counter (ukey_of scope rt) db + 1
       \<and> (\<forall>h. hard_limit (ukey_of scope rt) db = Some h \<longrightarrow> counter (ukey_of scope rt) db' \<le> h)
       \<and> (\<forall>row. map_of (usage_rows db) (ukey_of scope rt) = Some row \<longrightarrow> row_signed key (ukey_of scope rt) row)
       \<and> (\<exists>row. map_of (usage_rows db') (ukey_of scope rt) = Some row \<and> row_signed key (ukey_of scope rt) row)
       \<and> (\<forall>k. k \<noteq> ukey_of scope rt \<longrightarrow> map_of (usage_rows db') k = map_of (usage_rows db) k)
       \<and> limit_rows db' = limit_rows db)"
proof (cases r)
  case (Some e) with ReserveUsage_cases[OF assms(1)] show ?thesis by auto
next
  case None
  with ReserveUsage_cases[OF assms(1)] have v: "validateScope scope rt = None"
    and l: "hard_limit (ukey_of scope rt) db = None
       \<or> (\<exists>h. hard_limit (ukey_of scope rt) db = Some h \<and> counter (ukey_of scope rt) db + 1 \<le> h)"
    and c: "\<forall>row. map_of (usage_rows db) (ukey_of scope rt) = Some row \<longrightarrow> row_signed key (ukey_of scope rt) row"
    and w: "wrote (ukey_of scope rt) (counter (ukey_of scope rt) db + 1) (createSignature key scope rt) db db'"
    by auto
  note wrote_facts[OF w] wrote_signed[OF w assms(2) v]
  with None l c show ?thesis by auto
qed

text \<open>A transparent signature scheme, for the concrete runs.\<close>

definition demo_key :: ecdsa where
  "demo_key = \<lparr>SignASN1 = (\<lambda>p. Some (CHR ''s'' # p)), VerifyASN1 = (\<lambda>p s. s = Some (CHR ''s'' # p))\<rparr>"

definition demo_scope :: ResourcesLimitsScope where
  "demo_scope = \<lparr>scID = None, scType = ''system''\<rparr>"

definition demo_db :: "int \<Rightarrow> int \<Rightarrow> limits_state" where
  "demo_db soft hard = \<lparr>limit_rows = [((''system'', ''users'', uuid_nil), (soft, hard))], usage_rows = [],
     tbl_users = 2, tbl_idps = 0, tbl_projects_users = [], tbl_projects = Map.empty, tbl_products = [],
     tamperCounter = 0, driftCounter = 0\<rparr>"

lemma demo_key_signs: "signs demo_key"
  by (simp add: signs_def demo_key_def)

lemmas limits_run = ReserveUsage_def use_case_guard_def repo_ReserveUsage_def validateScope_def no_faults_def
  resolved_def ukey_of_def scope_uuid_def demo_scope_def demo_db_def ResourcesLimitsUnlimited_def sign_and_commit_def
  createSignature_def demo_key_def set_usage_def store_signature_def Let_def

lemma reserve_run: "fst (ReserveUsage demo_key no_faults demo_scope ''users'' (demo_db 1 2)) = None"
  by (simp add: limits_run)

theorem reservation_is_atomic_witness:
  "counter (ukey_of demo_scope ''users'') (snd (ReserveUsage demo_key no_faults demo_scope ''users'' (demo_db 1 2)))
     = counter (ukey_of demo_scope ''users'') (demo_db 1 2) + 1"
  using reservation_is_atomic[OF prod.collapse[symmetric] demo_key_signs] reserve_run by blast

text \<open>
  C20. No sequence of reservations and releases, whichever of their statements
  fail, takes a counter past its hard limit (or further past it, when the
  limit was lowered under it).
\<close>

theorem slots_never_oversold:
  assumes "hard_limit (ukey_of scope rt) db = Some h"
  shows "counter (ukey_of scope rt)
     (foldl (\<lambda>db (claim, pg). if claim then snd (ReserveResourceSlot key pg scope rt db) else ReleaseResourceSlot key pg scope rt db) db os)
     \<le> max h (counter (ukey_of scope rt) db)"
proof -
  have "foldl (\<lambda>db (claim, pg). if claim then snd (ReserveResourceSlot key pg scope rt db) else ReleaseResourceSlot key pg scope rt db) db os
      = slots.run key scope rt (map (\<lambda>(claim, pg). if claim then Inl pg else Inr pg) os) db"
    by (induction os arbitrary: db) (auto simp: reserve_slot_def split: prod.split)
  with slots.run_bounded[of scope rt key _ db] assms show ?thesis by simp
qed

theorem slots_never_oversold_witness:
  "counter (ukey_of demo_scope ''users'')
     (foldl (\<lambda>db (claim, pg). if claim then snd (ReserveResourceSlot demo_key pg demo_scope ''users'' db)
        else ReleaseResourceSlot demo_key pg demo_scope ''users'' db) (demo_db 1 2) (replicate 5 (True, no_faults))) \<le> 2"
proof -
  have "hard_limit (ukey_of demo_scope ''users'') (demo_db 1 2) = Some 2" "counter (ukey_of demo_scope ''users'') (demo_db 1 2) = 0"
    by (simp_all add: hard_limit_def counter_def limits_run)
  from slots_never_oversold[OF this(1), of demo_key "replicate 5 (True, no_faults)"] this(2) show ?thesis by simp
qed

section \<open>Recounting\<close>

lemma repo_RecountUsage_cases:
  assumes "repo_RecountUsage pg scope rt sign db = (r, db')"
  shows "(\<exists>e. r = Inl e \<and> db' = db)
    \<or> (validateScope scope rt = None \<and> (\<exists>count. resourceCountQueries rt = Some count
         \<and> wrote (ukey_of scope rt) (count (scope_uuid scope) db) sign db db'
         \<and> r = Inr \<lparr>Previous = counter (ukey_of scope rt) db, Actual = count (scope_uuid scope) db,
               HadUsageRow = (map_of (usage_rows db) (ukey_of scope rt) \<noteq> None)\<rparr>))"
proof (cases "validateScope scope rt")
  case (Some e) with assms show ?thesis by (auto simp: repo_RecountUsage_def)
next
  case None
  show ?thesis
  proof (cases "resourceCountQueries rt")
    case None with assms \<open>validateScope scope rt = None\<close> show ?thesis by (auto simp: repo_RecountUsage_def)
  next
    case (Some count)
    let ?k = "ukey_of scope rt" and ?n = "count (scope_uuid scope) db"
    obtain q d where q: "sign_and_commit pg sign ?k ?n db (set_usage ?k ?n db) = (q, d)" by fastforce
    from sign_and_commit_cases[OF q] show ?thesis
      using assms None Some q
      by (auto simp: repo_RecountUsage_def Let_def counter_def split: if_splits)
  qed
qed

text \<open>The tables the counts read, which no counter transaction touches.\<close>

definition same_tables :: "limits_state \<Rightarrow> limits_state \<Rightarrow> bool" where
  "same_tables db db' = (tbl_users db' = tbl_users db \<and> tbl_idps db' = tbl_idps db
     \<and> tbl_projects_users db' = tbl_projects_users db \<and> tbl_projects db' = tbl_projects db \<and> tbl_products db' = tbl_products db)"

definition actual_count :: "ukey \<Rightarrow> limits_state \<Rightarrow> int" where
  "actual_count k db = (case resourceCountQueries (fst (snd k)) of None \<Rightarrow> 0 | Some count \<Rightarrow> count (snd (snd k)) db)"

definition countable :: "ukey \<Rightarrow> bool" where
  "countable k = (fst k \<noteq> [] \<and> resourceCountQueries (fst (snd k)) \<noteq> None)"

lemma actual_count_cong: "same_tables db db' \<Longrightarrow> actual_count k db' = actual_count k db"
  by (simp add: actual_count_def resourceCountQueries_def same_tables_def)

lemma ukey_tracked: "ukey_of (tracked_scope k) (fst (snd k)) = k"
  by (cases k) (simp add: tracked_scope_def ukey_of_def scope_uuid_def)

lemma wrote_tables: "wrote k n sign db db' \<Longrightarrow> same_tables db db'"
  by (auto simp: wrote_def same_tables_def set_usage_def store_signature_def split: option.split)

definition repaired :: "ecdsa \<Rightarrow> ukey \<Rightarrow> int \<Rightarrow> limits_state \<Rightarrow> bool" where
  "repaired key k n db = (\<exists>r. map_of (usage_rows db) k = Some r \<and> uUsage r = n \<and> row_signed key k r)"

lemma repaired_cong: "usage_rows db' = usage_rows db \<Longrightarrow> repaired key k n db' = repaired key k n db"
  by (simp add: repaired_def)

lemma RecountUsage_repairs:
  assumes k: "countable k" and key: "signs key" "\<And>p. SignASN1 key p \<noteq> None"
    and r: "RecountUsage key no_faults (tracked_scope k) (fst (snd k)) db = (r, db')"
  shows "repaired key k (actual_count k db) db' \<and> same_tables db db'
    \<and> (\<forall>k'. k' \<noteq> k \<longrightarrow> map_of (usage_rows db') k' = map_of (usage_rows db) k')
    \<and> (\<exists>out. r = Inr out \<and> Actual out = actual_count k db \<and> Previous out = counter k db)"
proof -
  let ?sc = "tracked_scope k" and ?rt = "fst (snd k)"
  have rt: "?rt \<noteq> []" using k by (auto simp: countable_def resourceCountQueries_def)
  have v: "validateScope ?sc ?rt = None" "use_case_guard ?sc ?rt = None"
    using k rt by (auto simp: countable_def validateScope_def use_case_guard_def tracked_scope_def split: prod.splits)
  have u: "scope_uuid ?sc = snd (snd k)" by (cases k) (simp add: tracked_scope_def scope_uuid_def)
  obtain count where c: "resourceCountQueries ?rt = Some count" using k by (auto simp: countable_def)
  obtain q d where q: "repo_RecountUsage no_faults ?sc ?rt (createSignature key ?sc ?rt) db = (q, d)" by fastforce
  obtain sig where sig: "createSignature key ?sc ?rt (count (scope_uuid ?sc) db) = Some sig"
    using key(2) by (metis createSignature_def not_Some_eq)
  have "\<nexists>e. q = Inl e"
    using q v c sig by (auto simp: repo_RecountUsage_def no_faults_def sign_and_commit_def Let_def)
  with repo_RecountUsage_cases[OF q] c
  have w: "wrote (ukey_of ?sc ?rt) (count (scope_uuid ?sc) db) (createSignature key ?sc ?rt) db d"
    and o: "q = Inr \<lparr>Previous = counter (ukey_of ?sc ?rt) db, Actual = count (scope_uuid ?sc) db,
               HadUsageRow = (map_of (usage_rows db) (ukey_of ?sc ?rt) \<noteq> None)\<rparr>"
    by auto
  have a: "count (scope_uuid ?sc) db = actual_count k db" using c u by (simp add: actual_count_def)
  have d: "usage_rows db' = usage_rows d \<and> same_tables d db'
    \<and> r = Inr \<lparr>Previous = counter (ukey_of ?sc ?rt) db, Actual = count (scope_uuid ?sc) db,
               HadUsageRow = (map_of (usage_rows db) (ukey_of ?sc ?rt) \<noteq> None)\<rparr>"
    using r q v o by (auto simp: RecountUsage_def same_tables_def)
  have "repaired key k (actual_count k db) d"
    using wrote_signed[OF w key(1) v(1)] by (simp add: repaired_def ukey_tracked a)
  moreover have "map_of (usage_rows d) k' = map_of (usage_rows db) k'" if "k' \<noteq> k" for k'
    using wrote_facts(3)[OF w] that by (simp add: ukey_tracked)
  moreover have "same_tables db db'" using wrote_tables[OF w] d by (auto simp: same_tables_def)
  ultimately show ?thesis using d a by (auto simp: ukey_tracked repaired_def)
qed

lemma reconcile_loop_repairs:
  assumes key: "signs key" "\<And>p. SignASN1 key p \<noteq> None" and f: "\<And>k. faults k = no_faults"
  shows "(\<And>k. k \<in> set ks \<Longrightarrow> countable k) \<Longrightarrow> reconcile_loop key faults ks n db = (m, db') \<Longrightarrow>
    same_tables db db' \<and> (\<forall>k. k \<in> set ks \<longrightarrow> repaired key k (actual_count k db) db')
    \<and> (\<forall>k. k \<notin> set ks \<longrightarrow> map_of (usage_rows db') k = map_of (usage_rows db) k)"
proof (induction ks arbitrary: n db m db')
  case (Cons k ks)
  obtain r d where r: "RecountUsage key no_faults (tracked_scope k) (fst (snd k)) db = (r, d)" by fastforce
  note one = RecountUsage_repairs[OF Cons.prems(1)[OF list.set_intros(1)] key r]
  have fk: "faults k = no_faults" by (rule f)
  obtain n' where "reconcile_loop key faults ks n' d = (m, db')"
    using Cons.prems(2) r fk by (auto split: sum.splits if_splits)
  note rest = Cons.IH[OF Cons.prems(1)[OF list.set_intros(2)] this]
  have "repaired key k (actual_count k db) db'"
  proof (cases "k \<in> set ks")
    case True with rest one actual_count_cong show ?thesis by metis
  next
    case False
    with rest have "map_of (usage_rows db') k = map_of (usage_rows d) k" by blast
    with one show ?thesis by (simp add: repaired_def)
  qed
  moreover have "same_tables db db'" using one rest by (auto simp: same_tables_def)
  moreover have "repaired key k' (actual_count k' db) db'" if "k' \<in> set ks" for k'
    using rest one that actual_count_cong by metis
  moreover have "map_of (usage_rows db') k' = map_of (usage_rows db) k'" if "k' \<notin> set (k # ks)" for k'
  proof -
    have "k' \<notin> set ks" "k' \<noteq> k" using that by auto
    then have "map_of (usage_rows db') k' = map_of (usage_rows d) k'" "map_of (usage_rows d) k' = map_of (usage_rows db) k'"
      using rest one by blast+
    then show ?thesis by simp
  qed
  ultimately show ?case by auto
qed (simp add: same_tables_def)

text \<open>
  Reconciliation repairs every counter there is: after a run whose statements
  succeed, each tracked counter holds what its table says and carries a
  signature that verifies, whatever was stored before, and no row was added
  or lost.
\<close>

theorem reconciliation_repairs_every_counter:
  assumes "signs key" "\<And>p. SignASN1 key p \<noteq> None"
    and "\<And>k. k \<in> set (map fst (usage_rows db)) \<Longrightarrow> countable k"
    and "ReconcileAll key no_faults (\<lambda>_. no_faults) db = (r, db')"
  shows "(\<exists>n. r = Inr n)
    \<and> (\<forall>k. k \<in> set (map fst (usage_rows db)) \<longrightarrow> repaired key k (actual_count k db) db')
    \<and> (\<forall>k. k \<notin> set (map fst (usage_rows db)) \<longrightarrow> map_of (usage_rows db') k = None)"
proof -
  obtain m where m: "reconcile_loop key (\<lambda>_. no_faults) (sort (map fst (usage_rows db))) 0 db = (m, db')" "r = Inr m"
    using assms(4) by (auto simp: ReconcileAll_def SelectTrackedScopes_def no_faults_def split: prod.splits)
  have "map_of (usage_rows db) k = None" if "k \<notin> set (map fst (usage_rows db))" for k
    using that by (simp add: map_of_eq_None_iff)
  with reconcile_loop_repairs[OF assms(1,2) refl _ m(1)] assms(3) m(2) show ?thesis by simp
qed

definition drifted :: limits_state where
  "drifted = (demo_db 1 2)\<lparr>usage_rows := [((''system'', ''users'', uuid_nil), \<lparr>uUsage = 7, uSignature = None\<rparr>)]\<rparr>"

theorem reconciliation_repairs_every_counter_witness:
  "repaired demo_key (''system'', ''users'', uuid_nil) 2 (snd (ReconcileAll demo_key no_faults (\<lambda>_. no_faults) drifted))"
proof -
  have "SignASN1 demo_key p \<noteq> None" for p by (simp add: demo_key_def)
  moreover have "countable k" if "k \<in> set (map fst (usage_rows drifted))" for k
    using that by (auto simp: drifted_def countable_def resourceCountQueries_def)
  ultimately have "\<forall>k. k \<in> set (map fst (usage_rows drifted)) \<longrightarrow>
      repaired demo_key k (actual_count k drifted) (snd (ReconcileAll demo_key no_faults (\<lambda>_. no_faults) drifted))"
    using reconciliation_repairs_every_counter[OF demo_key_signs _ _ prod.collapse[symmetric]] by blast
  then show ?thesis by (simp add: drifted_def actual_count_def resourceCountQueries_def demo_db_def)
qed

section \<open>What the counters do not promise\<close>

text \<open>
  A tampered counter is laundered by the next release.  \<open>CheckUsage\<close> flags
  a row whose signature does not verify and \<open>ReserveUsage\<close> refuses on it,
  but \<open>DecrementUsage\<close> (and \<open>IncrementUsage\<close>) sign whatever value they
  find: after one release of a counter rewritten by hand, the row verifies and
  reservations succeed from the forged value.
\<close>

theorem release_launders_a_forged_counter:
  "\<exists>db. \<not> signed demo_key db
     \<and> fst (ReserveUsage demo_key no_faults demo_scope ''users'' db) = Some InvalidSignatureError
     \<and> signed demo_key (ReleaseResourceSlot demo_key no_faults demo_scope ''users'' db)
     \<and> fst (ReserveUsage demo_key no_faults demo_scope ''users''
             (ReleaseResourceSlot demo_key no_faults demo_scope ''users'' db)) = None"
  by (rule exI[of _ "(demo_db 5 10)\<lparr>usage_rows := [((''system'', ''users'', uuid_nil), \<lparr>uUsage = 1, uSignature = None\<rparr>)]\<rparr>"])
     (auto simp: limits_run signed_def row_signed_def ReleaseResourceSlot_def DecrementUsage_def repo_DecrementUsage_def
       mutateUsage_def tracked_scope_def verifySignature_def)

text \<open>
  A limit row with no soft limit hides its hard limit: the status says the
  scope is unlimited and may create, whatever the hard limit and the usage,
  while a reservation at the limit is refused.
\<close>

theorem soft_unlimited_hides_the_hard_limit:
  "\<exists>db. limit_rows db = [((''system'', ''users'', uuid_nil), (- 1, 0))]
     \<and> fst (CheckUsage demo_key no_faults demo_scope ''users'' db)
        = Inr \<lparr>stSoftLimit = - 1, stHardLimit = - 1, stCurrentUsage = 0, CanCreate = True, SoftLimitReached = False,
            TamperDetected = False\<rparr>
     \<and> fst (ReserveUsage demo_key no_faults demo_scope ''users'' db) = Some (HardLimitReachedError ''users'' 0 0)"
  by (rule exI[of _ "demo_db (- 1) 0"]) (simp add: limits_run CheckUsage_def repo_CheckUsage_def)

text \<open>
  With no limit row at all the status loses the count: a scope whose counter
  says 5 is reported as using 0, and a forged signature on it goes unnoticed.
\<close>

theorem unlimited_status_loses_the_count:
  assumes "validateScope scope rt = None" "map_of (limit_rows db) (ukey_of scope rt) = None"
    and "map_of (limit_rows db) (scType scope, rt, uuid_nil) = None"
  shows "CheckUsage key no_faults scope rt db
     = (Inr \<lparr>stSoftLimit = - 1, stHardLimit = - 1, stCurrentUsage = 0, CanCreate = True, SoftLimitReached = False,
          TamperDetected = False\<rparr>, db)"
  using assms
  by (auto simp: CheckUsage_def use_case_guard_def repo_CheckUsage_def no_faults_def resolved_def ukey_of_def
      validateScope_def ResourcesLimitsUnlimited_def split: if_splits)

theorem unlimited_status_loses_the_count_witness:
  "CheckUsage demo_key no_faults demo_scope ''users'' (drifted\<lparr>limit_rows := []\<rparr>)
     = (Inr \<lparr>stSoftLimit = - 1, stHardLimit = - 1, stCurrentUsage = 0, CanCreate = True, SoftLimitReached = False,
          TamperDetected = False\<rparr>, drifted\<lparr>limit_rows := []\<rparr>)
   \<and> counter (ukey_of demo_scope ''users'') (drifted\<lparr>limit_rows := []\<rparr>) = 7"
proof -
  have "validateScope demo_scope ''users'' = None" by (simp add: validateScope_def demo_scope_def)
  moreover have "counter (ukey_of demo_scope ''users'') (drifted\<lparr>limit_rows := []\<rparr>) = 7"
    by (simp add: counter_def drifted_def ukey_of_def demo_scope_def scope_uuid_def)
  ultimately show ?thesis using unlimited_status_loses_the_count[of demo_scope "''users''" "drifted\<lparr>limit_rows := []\<rparr>" demo_key] by simp
qed

end
