(* ===== verification/RevokedTokens.thy ===== *)
theory RevokedTokens
  imports Go_Prelude
begin

text \<open>
  The token denylist: the table and statements of
  \<open>internal/adapter/driven/repositorypg/revoked_tokens.go\<close>, and the in-memory
  mirror of its access tokens in
  \<open>internal/core/usecase/revoked_access_tokens.go\<close>.  The table is an
  association list keyed by jti (its primary key); every statement runs
  atomically at the instant \<open>now\<close> of the database and has an outcome: it ran,
  it did not, or it ran and the answer was lost.
\<close>

section \<open>Token types and records\<close>

type_synonym TokenType = string

definition TokenTypeAccess :: TokenType where "TokenTypeAccess = ''access''"
definition TokenTypeRefresh :: TokenType where "TokenTypeRefresh = ''refresh''"
definition TokenTypeEmailVerification :: TokenType where "TokenTypeEmailVerification = ''email_verification''"
definition TokenTypePasswordReset :: TokenType where "TokenTypePasswordReset = ''password_reset''"
definition TokenTypePersonalAccess :: TokenType where "TokenTypePersonalAccess = ''personal_access''"
definition TokenTypeBearer :: TokenType where "TokenTypeBearer = ''Bearer''"
definition TokenTypeIDPSignin :: TokenType where "TokenTypeIDPSignin = ''idp_signin''"
definition TokenTypeIDPRegister :: TokenType where "TokenTypeIDPRegister = ''idp_register''"
definition TokenTypeIDPLink :: TokenType where "TokenTypeIDPLink = ''idp_link''"

lemmas token_types [auth_defs] = TokenTypeAccess_def TokenTypeRefresh_def TokenTypeEmailVerification_def
  TokenTypePasswordReset_def TokenTypePersonalAccess_def TokenTypeBearer_def TokenTypeIDPSignin_def
  TokenTypeIDPRegister_def TokenTypeIDPLink_def

definition TokenType_IsValid :: "TokenType \<Rightarrow> bool" where
  "TokenType_IsValid tt = (tt \<in> set [TokenTypeAccess, TokenTypeRefresh, TokenTypeEmailVerification,
     TokenTypePasswordReset, TokenTypePersonalAccess, TokenTypeBearer, TokenTypeIDPSignin,
     TokenTypeIDPRegister, TokenTypeIDPLink])"

record TokenRevocation =
  rvRevokedAt :: instant
  rvExpiresAt :: instant
  rvJTI :: uuid
  rvUserID :: uuid
  rvReplacedBy :: uuid

definition Rotated :: "TokenRevocation \<Rightarrow> bool" where
  "Rotated r = (rvReplacedBy r \<noteq> uuid_nil)"

section \<open>The table\<close>

record revoked_row =
  rtUser :: uuid
  rtType :: TokenType
  rtExpires :: instant
  rtRevokedAt :: instant
  rtReplacedBy :: "uuid option"

type_synonym denylist = "(uuid \<times> revoked_row) list"

datatype pg_outcome = Done | NotRun | AckLost
datatype store_error = InvalidInput string | QueryFailed

text \<open>The CHECK constraint of the table (\<open>00014_revoked_tokens.sql\<close>) has no Bearer.\<close>

definition storable_type :: "TokenType \<Rightarrow> bool" where
  "storable_type tt = (TokenType_IsValid tt \<and> tt \<noteq> TokenTypeBearer)"

text \<open>\<open>INSERT ... ON CONFLICT (jti) DO NOTHING\<close>: whether this statement inserted the row.\<close>

definition insert_row :: "uuid \<Rightarrow> revoked_row \<Rightarrow> denylist \<Rightarrow> bool \<times> denylist" where
  "insert_row jti row t = (if map_of t jti = None then (True, (jti, row) # t) else (False, t))"

definition exec_insert :: "pg_outcome \<Rightarrow> uuid \<Rightarrow> revoked_row \<Rightarrow> denylist \<Rightarrow> (store_error + bool) \<times> denylist" where
  "exec_insert pg jti row t =
     (if \<not> storable_type (rtType row) then (Inl QueryFailed, t)
      else case pg of
        NotRun \<Rightarrow> (Inl QueryFailed, t)
      | Done \<Rightarrow> (let (fresh, t') = insert_row jti row t in (Inr fresh, t'))
      | AckLost \<Rightarrow> (Inl QueryFailed, snd (insert_row jti row t)))"

section \<open>The statements\<close>

definition dl_Revoke ::
  "pg_outcome \<Rightarrow> instant \<Rightarrow> uuid \<Rightarrow> uuid \<Rightarrow> TokenType \<Rightarrow> instant \<Rightarrow> denylist \<Rightarrow> store_error option \<times> denylist" where
  "dl_Revoke pg now jti user tt expiresAt t =
     (if jti = uuid_nil then (Some (InvalidInput ''jti is empty''), t)
      else if \<not> TokenType_IsValid tt then (Some (InvalidInput ''token type is invalid''), t)
      else case exec_insert pg jti \<lparr>rtUser = user, rtType = tt, rtExpires = expiresAt, rtRevokedAt = now, rtReplacedBy = None\<rparr> t of
        (Inl e, t') \<Rightarrow> (Some e, t')
      | (Inr _, t') \<Rightarrow> (None, t'))"

definition dl_Rotate ::
  "pg_outcome \<Rightarrow> instant \<Rightarrow> uuid \<Rightarrow> uuid \<Rightarrow> uuid \<Rightarrow> instant \<Rightarrow> denylist \<Rightarrow> store_error option \<times> denylist" where
  "dl_Rotate pg now oldJTI newJTI user expiresAt t =
     (if oldJTI = uuid_nil \<or> newJTI = uuid_nil then (Some (InvalidInput ''jti is empty''), t)
      else case exec_insert pg oldJTI \<lparr>rtUser = user, rtType = TokenTypeRefresh, rtExpires = expiresAt,
          rtRevokedAt = now, rtReplacedBy = Some newJTI\<rparr> t of
        (Inl e, t') \<Rightarrow> (Some e, t')
      | (Inr _, t') \<Rightarrow> (None, t'))"

text \<open>\<open>RETURNING jti\<close> answers a row exactly when this statement inserted it.\<close>

definition dl_Consume ::
  "pg_outcome \<Rightarrow> instant \<Rightarrow> uuid \<Rightarrow> uuid \<Rightarrow> TokenType \<Rightarrow> instant \<Rightarrow> denylist \<Rightarrow> (store_error + bool) \<times> denylist" where
  "dl_Consume pg now jti user tt expiresAt t =
     (if jti = uuid_nil then (Inl (InvalidInput ''jti is empty''), t)
      else if \<not> TokenType_IsValid tt then (Inl (InvalidInput ''token type is invalid''), t)
      else exec_insert pg jti \<lparr>rtUser = user, rtType = tt, rtExpires = expiresAt, rtRevokedAt = now, rtReplacedBy = None\<rparr> t)"

definition dl_Get :: "pg_outcome \<Rightarrow> instant \<Rightarrow> uuid \<Rightarrow> denylist \<Rightarrow> store_error + TokenRevocation option" where
  "dl_Get pg now jti t =
     (if jti = uuid_nil then Inl (InvalidInput ''jti is empty'')
      else if pg \<noteq> Done then Inl QueryFailed
      else case map_of t jti of
        None \<Rightarrow> Inr None
      | Some row \<Rightarrow>
          if rtExpires row > now
          then Inr (Some \<lparr>rvRevokedAt = rtRevokedAt row, rvExpiresAt = rtExpires row, rvJTI = jti, rvUserID = rtUser row,
                 rvReplacedBy = (case rtReplacedBy row of None \<Rightarrow> uuid_nil | Some s \<Rightarrow> s)\<rparr>)
          else Inr None)"

text \<open>
  The recursive query of \<open>RevokeChain\<close>.  Each element is a row of \<open>chain\<close>: its
  jti, its successor, and \<open>is_cycle\<close>; \<open>path\<close> is what the CYCLE clause
  remembers, and a row already on it is emitted once more, marked, and not
  followed.
\<close>

function chain_rows :: "uuid list \<Rightarrow> uuid \<Rightarrow> denylist \<Rightarrow> (uuid \<times> uuid option \<times> bool) list" where
  "chain_rows path jti t =
     (case map_of t jti of
        None \<Rightarrow> []
      | Some row \<Rightarrow>
          if jti \<in> set path then [(jti, rtReplacedBy row, True)]
          else (jti, rtReplacedBy row, False) #
            (case rtReplacedBy row of None \<Rightarrow> [] | Some next \<Rightarrow> chain_rows (jti # path) next t))"
  by pat_completeness auto
termination
proof (relation "measure (\<lambda>(path, jti, t). card (fst ` set t - set path))", goal_cases)
  case 1 show ?case by simp
next
  case (2 path jti t row)
  then have "jti \<in> fst ` set t - set path"
    by (metis DiffI image_eqI map_of_SomeD fst_conv)
  then have "fst ` set t - set (jti # path) \<subset> fst ` set t - set path" by auto
  then show ?case by (auto intro!: psubset_card_mono)
qed

declare chain_rows.simps [simp del]

definition tips :: "(uuid \<times> uuid option \<times> bool) list \<Rightarrow> denylist \<Rightarrow> uuid list" where
  "tips chain t = [s. (_, Some s, False) \<leftarrow> chain, map_of t s = None]"

definition dl_RevokeChain ::
  "pg_outcome \<Rightarrow> instant \<Rightarrow> uuid \<Rightarrow> uuid \<Rightarrow> instant \<Rightarrow> denylist \<Rightarrow> (store_error + uuid) \<times> denylist" where
  "dl_RevokeChain pg now jti user expiresAt t =
     (if jti = uuid_nil then (Inl (InvalidInput ''jti is empty''), t)
      else if pg = NotRun then (Inl QueryFailed, t)
      else case tips (chain_rows [] jti t) t of
        [] \<Rightarrow> (if pg = AckLost then Inl QueryFailed else Inr uuid_nil, t)
      | tip # _ \<Rightarrow>
          (let (inserted, t') = insert_row tip \<lparr>rtUser = user, rtType = TokenTypeRefresh, rtExpires = expiresAt,
              rtRevokedAt = now, rtReplacedBy = None\<rparr> t
           in (if pg = AckLost then Inl QueryFailed else Inr (if inserted then tip else uuid_nil), t')))"

definition dl_DeleteExpired :: "pg_outcome \<Rightarrow> instant \<Rightarrow> denylist \<Rightarrow> (store_error + int) \<times> denylist" where
  "dl_DeleteExpired pg now t =
     (let t' = filter (\<lambda>(_, row). rtExpires row > now) t in
      case pg of
        NotRun \<Rightarrow> (Inl QueryFailed, t)
      | AckLost \<Rightarrow> (Inl QueryFailed, t')
      | Done \<Rightarrow> (Inr (int (length t) - int (length t')), t'))"

definition dl_SelectUnexpiredJTIs :: "pg_outcome \<Rightarrow> instant \<Rightarrow> TokenType \<Rightarrow> denylist \<Rightarrow> store_error + uuid list" where
  "dl_SelectUnexpiredJTIs pg now tt t =
     (if \<not> TokenType_IsValid tt then Inl (InvalidInput ''token type is invalid'')
      else if pg \<noteq> Done then Inl QueryFailed
      else Inr [jti. (jti, row) \<leftarrow> t, rtType row = tt \<and> rtExpires row > now])"

lemmas dl_defs [auth_defs] = dl_Revoke_def dl_Rotate_def dl_Consume_def dl_Get_def dl_RevokeChain_def
  dl_DeleteExpired_def dl_SelectUnexpiredJTIs_def exec_insert_def insert_row_def storable_type_def TokenType_IsValid_def

section \<open>Runs of the table\<close>

text \<open>
  Any sequence of statements, each at its own instant: what the handlers of
  every replica and the sweep do to the table.
\<close>

datatype dl_op =
    ORevoke pg_outcome uuid uuid TokenType instant
  | ORotate pg_outcome uuid uuid uuid instant
  | OConsume pg_outcome uuid uuid TokenType instant
  | ORevokeChain pg_outcome uuid uuid instant
  | OSweep pg_outcome

fun dl_exec :: "instant \<Rightarrow> dl_op \<Rightarrow> denylist \<Rightarrow> denylist" where
  "dl_exec now (ORevoke pg jti user tt e) t = snd (dl_Revoke pg now jti user tt e t)"
| "dl_exec now (ORotate pg old new user e) t = snd (dl_Rotate pg now old new user e t)"
| "dl_exec now (OConsume pg jti user tt e) t = snd (dl_Consume pg now jti user tt e t)"
| "dl_exec now (ORevokeChain pg jti user e) t = snd (dl_RevokeChain pg now jti user e t)"
| "dl_exec now (OSweep pg) t = snd (dl_DeleteExpired pg now t)"

fun dl_run :: "(instant \<times> dl_op) list \<Rightarrow> denylist \<Rightarrow> denylist" where
  "dl_run [] t = t"
| "dl_run ((now, op) # ops) t = dl_run ops (dl_exec now op t)"

lemma map_of_filter_keep:
  "map_of t j = Some row \<Longrightarrow> P row \<Longrightarrow> map_of (filter (\<lambda>(_, row). P row) t) j = Some row"
  by (induction t) (auto split: if_splits)

lemma insert_row_keeps: "map_of t j = Some row \<Longrightarrow> map_of (snd (insert_row k r t)) j = Some row"
  by (auto simp: insert_row_def)

lemma exec_insert_keeps: "map_of t j = Some row \<Longrightarrow> map_of (snd (exec_insert pg k r t)) j = Some row"
  using insert_row_keeps[of t j row k r] by (auto simp: exec_insert_def split: pg_outcome.split prod.split)

lemma dl_Revoke_snd:
  "snd (dl_Revoke pg now jti user tt e t) =
     (if jti = uuid_nil \<or> \<not> TokenType_IsValid tt then t else
      snd (exec_insert pg jti \<lparr>rtUser = user, rtType = tt, rtExpires = e, rtRevokedAt = now, rtReplacedBy = None\<rparr> t))"
  by (auto simp: dl_Revoke_def split: prod.split sum.split)

lemma dl_Rotate_snd:
  "snd (dl_Rotate pg now old new user e t) =
     (if old = uuid_nil \<or> new = uuid_nil then t else
      snd (exec_insert pg old \<lparr>rtUser = user, rtType = TokenTypeRefresh, rtExpires = e, rtRevokedAt = now, rtReplacedBy = Some new\<rparr> t))"
  by (auto simp: dl_Rotate_def split: prod.split sum.split)

lemma dl_Consume_snd:
  "snd (dl_Consume pg now jti user tt e t) =
     (if jti = uuid_nil \<or> \<not> TokenType_IsValid tt then t else
      snd (exec_insert pg jti \<lparr>rtUser = user, rtType = tt, rtExpires = e, rtRevokedAt = now, rtReplacedBy = None\<rparr> t))"
  by (auto simp: dl_Consume_def)

lemma dl_RevokeChain_keeps: "map_of t j = Some row \<Longrightarrow> map_of (snd (dl_RevokeChain pg now k u e t)) j = Some row"
  by (auto simp: dl_RevokeChain_def insert_row_def split: list.split)

lemma dl_exec_keeps:
  assumes "map_of t j = Some row" "now < rtExpires row"
  shows "map_of (dl_exec now op t) j = Some row"
proof (cases op)
  case (OSweep pg)
  have "map_of (filter (\<lambda>(_, row). rtExpires row > now) t) j = Some row"
    by (rule map_of_filter_keep) (use assms in auto)
  then show ?thesis using assms OSweep by (simp add: dl_DeleteExpired_def Let_def split: pg_outcome.split)
qed (use assms in \<open>simp_all add: dl_Revoke_snd dl_Rotate_snd dl_Consume_snd exec_insert_keeps dl_RevokeChain_keeps\<close>)

lemma dl_run_keeps:
  "map_of t j = Some row \<Longrightarrow> list_all (\<lambda>(now, _). now < rtExpires row) ops \<Longrightarrow> map_of (dl_run ops t) j = Some row"
proof (induction ops arbitrary: t)
  case (Cons op ops)
  obtain now o' where op: "op = (now, o')" by fastforce
  have "map_of (dl_exec now o' t) j = Some row" by (rule dl_exec_keeps[OF Cons.prems(1)]) (use Cons.prems(2) op in simp)
  from Cons.IH[OF this] Cons.prems(2) op show ?case by simp
qed simp

lemma dl_Consume_first_use:
  assumes "dl_Consume pg now j u tt e t = (Inr True, t')"
  shows "map_of t' j = Some \<lparr>rtUser = u, rtType = tt, rtExpires = e, rtRevokedAt = now, rtReplacedBy = None\<rparr> \<and> j \<noteq> uuid_nil"
  using assms by (auto simp: dl_Consume_def exec_insert_def insert_row_def split: if_splits pg_outcome.splits)

lemma dl_Consume_spent: "map_of t j \<noteq> None \<Longrightarrow> fst (dl_Consume pg now j u tt e t) \<noteq> Inr True"
  by (auto simp: dl_Consume_def exec_insert_def insert_row_def split: pg_outcome.split)

lemma dl_Get_live:
  "map_of t j = Some row \<Longrightarrow> now < rtExpires row \<Longrightarrow> j \<noteq> uuid_nil \<Longrightarrow>
   \<exists>r. dl_Get Done now j t = Inr (Some r) \<and> rvExpiresAt r = rtExpires row \<and> rvUserID r = rtUser row
     \<and> rvReplacedBy r = (case rtReplacedBy row of None \<Rightarrow> uuid_nil | Some s \<Rightarrow> s)"
  by (simp add: dl_Get_def)

text \<open>
  A single-use token is spent once: after a \<open>Consume\<close> that answered "first
  use", no later \<open>Consume\<close> of the same jti answers it again before the token
  expires, whatever statements, sweeps and lost answers come in between, and
  \<open>Get\<close> finds it refused.
\<close>

theorem single_use_token:
  assumes "dl_Consume pg now j u tt e t = (Inr True, t')"
    and "list_all (\<lambda>(at, _). at < e) ops" "later < e"
  shows "fst (dl_Consume pg' later j u' tt' e' (dl_run ops t')) \<noteq> Inr True
    \<and> (\<exists>r. dl_Get Done later j (dl_run ops t') = Inr (Some r) \<and> rvUserID r = u \<and> \<not> Rotated r)"
proof -
  let ?row = "\<lparr>rtUser = u, rtType = tt, rtExpires = e, rtRevokedAt = now, rtReplacedBy = None\<rparr>"
  have j: "map_of t' j = Some ?row" "j \<noteq> uuid_nil" using dl_Consume_first_use[OF assms(1)] by simp_all
  have k: "map_of (dl_run ops t') j = Some ?row" using dl_run_keeps[OF j(1)] assms(2) by simp
  obtain r where "dl_Get Done later j (dl_run ops t') = Inr (Some r)" "rvUserID r = u" "rvReplacedBy r = uuid_nil"
    using dl_Get_live[OF k _ j(2), of later] assms(3) by auto
  moreover have "fst (dl_Consume pg' later j u' tt' e' (dl_run ops t')) \<noteq> Inr True"
    by (rule dl_Consume_spent) (simp add: k)
  ultimately show ?thesis by (simp add: Rotated_def)
qed

theorem single_use_token_witness:
  "fst (dl_Consume Done 30 (uuid7 1) (uuid7 9) ''idp_link'' 100
     (dl_run [(20, OSweep Done), (25, ORevokeChain Done (uuid7 1) (uuid7 9) 100)]
        (snd (dl_Consume Done 10 (uuid7 1) (uuid7 9) ''idp_link'' 100 [])))) \<noteq> Inr True"
proof -
  have "dl_Consume Done 10 (uuid7 1) (uuid7 9) ''idp_link'' 100 [] =
      (Inr True, snd (dl_Consume Done 10 (uuid7 1) (uuid7 9) ''idp_link'' 100 []))"
    by (simp add: dl_defs token_types uuid7_def)
  from single_use_token[OF this, where later = 30 and pg' = Done and u' = "uuid7 9" and tt' = "''idp_link''" and e' = 100
      and ops = "[(20, OSweep Done), (25, ORevokeChain Done (uuid7 1) (uuid7 9) 100)]"]
  show ?thesis by simp
qed

section \<open>The chain of a rotated token\<close>

text \<open>The tokens that followed one another by rotation, from a jti on.\<close>

inductive reaches :: "denylist \<Rightarrow> uuid \<Rightarrow> uuid \<Rightarrow> bool" for t :: denylist and j :: uuid where
  here: "reaches t j j"
| next_link: "reaches t j k \<Longrightarrow> map_of t k = Some row \<Longrightarrow> rtReplacedBy row = Some s \<Longrightarrow> reaches t j s"

lemma chain_rows_row:
  "map_of t j = Some row \<Longrightarrow> chain_rows path j t =
     (if j \<in> set path then [(j, rtReplacedBy row, True)]
      else (j, rtReplacedBy row, False) #
        (case rtReplacedBy row of None \<Rightarrow> [] | Some next \<Rightarrow> chain_rows (j # path) next t))"
  by (subst chain_rows.simps) simp

lemma chain_rows_empty: "map_of t j = None \<Longrightarrow> chain_rows path j t = []"
  by (subst chain_rows.simps) simp

lemma chain_rows_start:
  "map_of t j = Some row \<Longrightarrow> j \<notin> set path \<Longrightarrow> (j, rtReplacedBy row, False) \<in> set (chain_rows path j t)"
  by (subst chain_rows.simps) simp

lemma chain_rows_False:
  assumes "(k, s, False) \<in> set (chain_rows path j t)"
  obtains r where "map_of t j = Some r" "j \<notin> set path"
proof (cases "map_of t j")
  case None with assms show ?thesis by (simp add: chain_rows_empty)
next
  case (Some r) with assms that show ?thesis by (auto simp: chain_rows_row split: if_splits)
qed

lemma chain_rows_closed:
  "(k, Some s, False) \<in> set (chain_rows path j t) \<Longrightarrow> map_of t s = Some row \<Longrightarrow> s \<notin> set path \<Longrightarrow>
   (s, rtReplacedBy row, False) \<in> set (chain_rows path j t)"
proof (induction path j t rule: chain_rows.induct)
  case (1 path j t)
  obtain r where r: "map_of t j = Some r" and p: "j \<notin> set path" using 1(2) by (rule chain_rows_False)
  note e = chain_rows_row[OF r, of path, unfolded if_not_P[OF p]]
  show ?case
  proof (cases "rtReplacedBy r")
    case None with 1(2) e r p show ?thesis by auto
  next
    case (Some n)
    note e' = e[unfolded Some option.case]
    show ?thesis
    proof (cases "s = j")
      case True then show ?thesis using chain_rows_start[OF r p] 1(3) r by simp
    next
      case sj: False
      show ?thesis
      proof (cases "(k, Some s, False) \<in> set (chain_rows (j # path) n t)")
        case True
        from 1(1)[OF r p Some True 1(3)] sj 1(4) show ?thesis by (simp add: e')
      next
        case False
        with 1(2) have "s = n" by (simp add: e')
        with chain_rows_start[of t s row "j # path"] sj 1(3,4) show ?thesis by (simp add: e')
      qed
    qed
  qed
qed

text \<open>Only the last row of the walk can name a successor that has no row.\<close>

lemma chain_rows_open_end:
  "(k, Some s, False) \<in> set (chain_rows path j t) \<Longrightarrow> map_of t s = None \<Longrightarrow>
   last (chain_rows path j t) = (k, Some s, False)"
proof (induction path j t rule: chain_rows.induct)
  case (1 path j t)
  obtain r where r: "map_of t j = Some r" and p: "j \<notin> set path" using 1(2) by (rule chain_rows_False)
  note e = chain_rows_row[OF r, of path, unfolded if_not_P[OF p]]
  show ?case
  proof (cases "rtReplacedBy r")
    case None with 1(2) e r p show ?thesis by auto
  next
    case (Some n)
    note e' = e[unfolded Some option.case]
    show ?thesis
    proof (cases "(k, Some s, False) \<in> set (chain_rows (j # path) n t)")
      case True
      then have "chain_rows (j # path) n t \<noteq> []" by auto
      with 1(1)[OF r p Some True 1(3)] show ?thesis by (simp add: e')
    next
      case False
      with 1(2) have "s = n" "k = j" by (simp_all add: e')
      with 1(3) show ?thesis by (simp add: e' chain_rows_empty Some)
    qed
  qed
qed

lemma reaches_listed:
  "reaches t j k \<Longrightarrow> map_of t j \<noteq> None \<Longrightarrow> map_of t k = Some row \<Longrightarrow>
   (k, rtReplacedBy row, False) \<in> set (chain_rows [] j t)"
proof (induction arbitrary: row rule: reaches.induct)
  case here then show ?case by (simp add: chain_rows_start)
next
  case (next_link k r s)
  then have "(k, Some s, False) \<in> set (chain_rows [] j t)" by metis
  with chain_rows_closed[OF this] next_link.prems show ?case by simp
qed

lemma tips_mem: "s \<in> set (tips chain t) \<longleftrightarrow> (\<exists>k. (k, Some s, False) \<in> set chain) \<and> map_of t s = None"
  by (force simp: tips_def split: option.splits bool.splits)

lemma reaches_open:
  assumes "reaches t j k" "map_of t j \<noteq> None" "map_of t k = None"
  shows "k \<in> set (tips (chain_rows [] j t) t)"
  using assms(1)
proof (cases rule: reaches.cases)
  case here with assms show ?thesis by simp
next
  case (next_link k' row)
  with reaches_listed[OF next_link(1) assms(2) next_link(2)] assms(3) show ?thesis
    by (auto simp: tips_mem)
qed

lemma tips_unique: "s \<in> set (tips (chain_rows [] j t) t) \<Longrightarrow> s' \<in> set (tips (chain_rows [] j t) t) \<Longrightarrow> s = s'"
  unfolding tips_mem using chain_rows_open_end by (metis option.inject prod.inject)

text \<open>Writing a row with no successor for a jti that had none adds nothing to the chain.\<close>

lemma reaches_insert:
  assumes "reaches ((tip, row) # t) j k" "rtReplacedBy row = None" "map_of t tip = None"
  shows "reaches t j k"
  using assms
proof (induction rule: reaches.induct)
  case (next_link k r s)
  then show ?case by (auto split: if_splits intro: reaches.next_link)
qed (rule reaches.here)

lemma RevokeChain_table:
  assumes "dl_RevokeChain pg now j u e t = (Inr tip, t')"
  shows "(tips (chain_rows [] j t) t = [] \<and> t' = t \<and> tip = uuid_nil) \<or>
    (\<exists>rest. tips (chain_rows [] j t) t = tip # rest \<and> map_of t tip = None \<and>
      t' = (tip, \<lparr>rtUser = u, rtType = TokenTypeRefresh, rtExpires = e, rtRevokedAt = now, rtReplacedBy = None\<rparr>) # t)"
proof (cases "tips (chain_rows [] j t) t")
  case (Cons s rest)
  then have "map_of t s = None" using tips_mem[of s "chain_rows [] j t" t] by simp
  with Cons assms show ?thesis by (auto simp: dl_RevokeChain_def insert_row_def split: if_splits)
qed (use assms in \<open>auto simp: dl_RevokeChain_def split: if_splits\<close>)

lemma RevokeChain_closes:
  assumes r: "dl_RevokeChain pg now j u e t = (Inr tip, t')" and j: "map_of t j \<noteq> None" and k: "reaches t' j k"
  shows "map_of t' k \<noteq> None \<and> reaches t j k \<and> (map_of t k = None \<longrightarrow> (\<exists>row. map_of t' k = Some row \<and> rtExpires row = e))
    \<and> (\<forall>row. map_of t k = Some row \<longrightarrow> map_of t' k = Some row)"
  using RevokeChain_table[OF r]
proof (elim disjE exE conjE)
  assume "tips (chain_rows [] j t) t = []" "t' = t"
  with reaches_open[OF _ j] k show ?thesis by force
next
  fix rest
  assume t: "tips (chain_rows [] j t) t = tip # rest" "map_of t tip = None"
    "t' = (tip, \<lparr>rtUser = u, rtType = TokenTypeRefresh, rtExpires = e, rtRevokedAt = now, rtReplacedBy = None\<rparr>) # t"
  then have "reaches t j k" using k by (auto intro: reaches_insert)
  moreover from this have "k = tip" if "map_of t k = None"
    using reaches_open[OF _ j that] tips_unique[of k j t tip] t(1) by simp
  moreover have "map_of t' k = Some row" if "map_of t k = Some row" for row
    using that t(2,3) by auto
  moreover have "\<exists>row. map_of t' tip = Some row \<and> rtExpires row = e" using t(3) by simp
  ultimately show ?thesis by (cases "map_of t k") auto
qed

text \<open>
  Ending a session: once \<open>RevokeChain\<close> has run on a token that has a row,
  every token the chain leads to, the live one at its tip included, is
  refused until it expires, when the rotations carried the expiry over as
  \<open>rotateRefreshToken\<close> does.
\<close>

theorem RevokeChain_ends_the_session:
  assumes "dl_RevokeChain pg now j u e t = (Inr tip, t')" "map_of t j \<noteq> None"
    and "\<And>k row. map_of t k = Some row \<Longrightarrow> reaches t j k \<Longrightarrow> rtExpires row = e"
    and "reaches t' j k" "k \<noteq> uuid_nil" "later < e"
  shows "\<exists>r. dl_Get Done later k t' = Inr (Some r)"
proof -
  note c = RevokeChain_closes[OF assms(1,2,4)]
  obtain row where row: "map_of t' k = Some row" using c by auto
  have "rtExpires row = e" using c row assms(3) by (cases "map_of t k") auto
  with dl_Get_live[OF row _ assms(5)] assms(6) show ?thesis by auto
qed

definition chain_of_three :: denylist where
  "chain_of_three = dl_run [(10, ORotate Done (uuid7 4) (uuid7 2) (uuid7 9) 100), (20, ORotate Done (uuid7 2) (uuid7 3) (uuid7 9) 100)] []"

definition chain_link :: "instant \<Rightarrow> uuid \<Rightarrow> revoked_row" where
  "chain_link at next = \<lparr>rtUser = uuid7 9, rtType = TokenTypeRefresh, rtExpires = 100, rtRevokedAt = at, rtReplacedBy = Some next\<rparr>"

lemma chain_link [simp]: "rtReplacedBy (chain_link at next) = Some next" "rtExpires (chain_link at next) = 100"
  by (simp_all add: chain_link_def)

lemma uuid7_distinct: "uuid7 4 \<noteq> uuid7 2" "uuid7 4 \<noteq> uuid7 3" "uuid7 2 \<noteq> uuid7 3" "uuid7 2 \<noteq> uuid7 4" "uuid7 3 \<noteq> uuid7 4" "uuid7 3 \<noteq> uuid7 2"
  "uuid7 4 \<noteq> uuid_nil" "uuid7 2 \<noteq> uuid_nil" "uuid7 3 \<noteq> uuid_nil"
  by (simp_all add: uuid7_def)

lemma chain_of_three: "chain_of_three = [(uuid7 2, chain_link 20 (uuid7 3)), (uuid7 4, chain_link 10 (uuid7 2))]"
  by (simp add: chain_of_three_def chain_link_def dl_Rotate_snd exec_insert_def insert_row_def storable_type_def
    TokenType_IsValid_def token_types uuid7_distinct)

lemma chain_of_three_revoked:
  "dl_RevokeChain Done 50 (uuid7 4) (uuid7 9) 100 chain_of_three = (Inr (uuid7 3),
     (uuid7 3, \<lparr>rtUser = uuid7 9, rtType = TokenTypeRefresh, rtExpires = 100, rtRevokedAt = 50, rtReplacedBy = None\<rparr>) # chain_of_three)"
  by (simp add: dl_RevokeChain_def chain_of_three chain_rows.simps tips_def insert_row_def uuid7_distinct)

theorem RevokeChain_ends_the_session_witness:
  "\<exists>r. dl_Get Done 60 (uuid7 3) (snd (dl_RevokeChain Done 50 (uuid7 4) (uuid7 9) 100 chain_of_three)) = Inr (Some r)"
proof -
  let ?t = chain_of_three
  let ?t' = "snd (dl_RevokeChain Done 50 (uuid7 4) (uuid7 9) 100 ?t)"
  have r: "dl_RevokeChain Done 50 (uuid7 4) (uuid7 9) 100 ?t = (Inr (uuid7 3), ?t')"
    by (simp add: chain_of_three_revoked)
  have e: "rtExpires row = 100" if "map_of ?t k = Some row" for k row
    using that by (auto simp: chain_of_three split: if_splits)
  have m: "map_of ?t' (uuid7 4) = Some (chain_link 10 (uuid7 2))" "map_of ?t' (uuid7 2) = Some (chain_link 20 (uuid7 3))"
    unfolding chain_of_three_revoked by (simp_all add: chain_of_three uuid7_distinct)
  have "reaches ?t' (uuid7 4) (uuid7 3)"
    by (rule reaches.next_link[OF reaches.next_link[OF reaches.here m(1)] m(2)]) simp_all
  moreover have "map_of ?t (uuid7 4) \<noteq> None" by (simp add: chain_of_three)
  ultimately show ?thesis using RevokeChain_ends_the_session[OF r _ _ _ uuid7_distinct(9), of 60] e by simp
qed

end
