(* ===== verification/RevokedMirror.thy ===== *)
theory RevokedMirror
  imports RevokedTokens "HOL-Library.AList"
begin

text \<open>
  The in-memory mirror of the revoked access tokens
  (\<open>internal/core/usecase/revoked_access_tokens.go\<close>): the set of the last
  reload, the revocations of this replica with their expiries, and the two
  counters.  A reload is two events, the query and the moment its answer lands,
  so that a logout can fall between them.
\<close>

record token_mirror =
  tmRemote :: "uuid set"
  tmLocal :: "(uuid \<times> instant) list"
  tmLastReload :: instant
  tmReloadFailures :: int

definition NewRevokedAccessTokens :: "duration \<Rightarrow> store_error + token_mirror" where
  "NewRevokedAccessTokens reloadInterval =
     (if reloadInterval \<le> 0 then Inl (InvalidInput ''ReloadInterval must be positive'')
      else Inr \<lparr>tmRemote = {}, tmLocal = [], tmLastReload = 0, tmReloadFailures = 0\<rparr>)"

definition TokenMirror_Contains :: "token_mirror \<Rightarrow> uuid \<Rightarrow> bool" where
  "TokenMirror_Contains m jti =
     (if jti \<in> tmRemote m then True else if map_of (tmLocal m) jti \<noteq> None then True else False)"

definition TokenMirror_Add :: "uuid \<Rightarrow> instant \<Rightarrow> token_mirror \<Rightarrow> token_mirror" where
  "TokenMirror_Add jti expiresAt m =
     (if jti = uuid_nil then m else m\<lparr>tmLocal := AList.update jti expiresAt (tmLocal m)\<rparr>)"

definition TokenMirror_pruneLocal :: "instant \<Rightarrow> token_mirror \<Rightarrow> token_mirror" where
  "TokenMirror_pruneLocal now m =
     (let live = length (filter (\<lambda>(_, expiresAt). now < expiresAt) (tmLocal m)) in
      if live = length (tmLocal m) then m
      else m\<lparr>tmLocal := filter (\<lambda>(_, expiresAt). now < expiresAt) (tmLocal m)\<rparr>)"

text \<open>\<open>answer\<close> is what \<open>SelectUnexpiredJTIs\<close> returned, \<open>now\<close> the instant it landed.\<close>

definition TokenMirror_Reload :: "store_error + uuid list \<Rightarrow> instant \<Rightarrow> token_mirror \<Rightarrow> store_error option \<times> token_mirror" where
  "TokenMirror_Reload answer now m = (case answer of
     Inl e \<Rightarrow> (Some e, m\<lparr>tmReloadFailures := tmReloadFailures m + 1\<rparr>)
   | Inr jtis \<Rightarrow> (None, TokenMirror_pruneLocal now (m\<lparr>tmRemote := set jtis, tmLastReload := now\<rparr>)))"

definition TokenMirror_Size :: "token_mirror \<Rightarrow> int" where
  "TokenMirror_Size m = int (card (tmRemote m)) + int (length (tmLocal m))"

definition TokenMirror_Staleness :: "instant \<Rightarrow> token_mirror \<Rightarrow> duration" where
  "TokenMirror_Staleness now m =
     (if tmLastReload m = 0 then 2 ^ 63 - 1 else now - tmLastReload m)"

lemmas mirror_defs [auth_defs] = TokenMirror_Contains_def TokenMirror_Add_def TokenMirror_pruneLocal_def
  TokenMirror_Reload_def TokenMirror_Size_def TokenMirror_Staleness_def

section \<open>A replica at work\<close>

text \<open>
  One replica: the shared table, its mirror, the answer of a reload that has
  not landed yet, and the clock.  \<open>exp\<close> gives the expiry in each token's claims.
  The steps: time passes; any statement runs on the table, from any replica;
  a logout here tells the mirror; a reload asks the store, and its answer,
  good or bad, lands.
\<close>

record replica =
  rpTable :: denylist
  rpMirror :: token_mirror
  rpInflight :: "(store_error + uuid list) option"
  rpClock :: instant

inductive rstep :: "(uuid \<Rightarrow> instant) \<Rightarrow> replica \<Rightarrow> replica \<Rightarrow> bool" for exp :: "uuid \<Rightarrow> instant" where
  passes: "0 \<le> d \<Longrightarrow> rstep exp s (s\<lparr>rpClock := rpClock s + d\<rparr>)"
| statement: "rstep exp s (s\<lparr>rpTable := dl_exec (rpClock s) op (rpTable s)\<rparr>)"
| logout: "rstep exp s (s\<lparr>rpMirror := TokenMirror_Add j (exp j) (rpMirror s)\<rparr>)"
| asks: "rpInflight s = None \<Longrightarrow>
    rstep exp s (s\<lparr>rpInflight := Some (dl_SelectUnexpiredJTIs pg (rpClock s) TokenTypeAccess (rpTable s))\<rparr>)"
| lands: "rpInflight s = Some answer \<Longrightarrow>
    rstep exp s (s\<lparr>rpMirror := snd (TokenMirror_Reload answer (rpClock s) (rpMirror s)), rpInflight := None\<rparr>)"

inductive_cases rstepE: "rstep exp s s'"

abbreviation replica_runs :: "(uuid \<Rightarrow> instant) \<Rightarrow> replica \<Rightarrow> replica \<Rightarrow> bool" where
  "replica_runs exp \<equiv> (rstep exp)\<^sup>*\<^sup>*"

lemma clock_grows: "rstep exp s s' \<Longrightarrow> rpClock s \<le> rpClock s'"
  by (erule rstepE) simp_all

text \<open>An entry of \<open>local\<close> outlives every reload until it expires.\<close>

definition kept_local :: "(uuid \<Rightarrow> instant) \<Rightarrow> uuid \<Rightarrow> replica \<Rightarrow> bool" where
  "kept_local exp j s = (rpClock s < exp j \<longrightarrow> map_of (tmLocal (rpMirror s)) j = Some (exp j))"

lemma Add_local: "map_of (tmLocal (TokenMirror_Add k e m)) j =
    (if k = j \<and> j \<noteq> uuid_nil then Some e else map_of (tmLocal m) j)"
  by (auto simp: TokenMirror_Add_def update_conv)

lemma prune_local: "map_of (tmLocal m) j = Some e \<Longrightarrow> now < e \<Longrightarrow> map_of (tmLocal (TokenMirror_pruneLocal now m)) j = Some e"
  using map_of_filter_keep[of "tmLocal m" j e "\<lambda>e. now < e"] by (simp add: TokenMirror_pruneLocal_def Let_def)

lemma Reload_local:
  "map_of (tmLocal m) j = Some e \<Longrightarrow> now < e \<Longrightarrow> map_of (tmLocal (snd (TokenMirror_Reload answer now m))) j = Some e"
  by (auto simp: TokenMirror_Reload_def prune_local split: sum.split)

lemma prune_remote [simp]: "tmRemote (TokenMirror_pruneLocal now m) = tmRemote m"
  by (simp add: TokenMirror_pruneLocal_def Let_def)

lemma Add_remote [simp]: "tmRemote (TokenMirror_Add k e m) = tmRemote m"
  by (simp add: TokenMirror_Add_def)

lemma Reload_remote:
  "tmRemote (snd (TokenMirror_Reload answer now m)) = (case answer of Inl _ \<Rightarrow> tmRemote m | Inr js \<Rightarrow> set js)"
  by (simp add: TokenMirror_Reload_def split: sum.split)

lemma kept_local_step: "rstep exp s s' \<Longrightarrow> kept_local exp j s \<Longrightarrow> kept_local exp j s'"
  by (erule rstepE) (auto simp: kept_local_def Add_local Reload_local)

text \<open>
  A row of the table is in every answer, and so in the set, until it expires.
\<close>

definition kept_remote :: "uuid \<Rightarrow> revoked_row \<Rightarrow> replica \<Rightarrow> bool" where
  "kept_remote j row s = (rpClock s < rtExpires row \<longrightarrow>
     map_of (rpTable s) j = Some row \<and> j \<in> tmRemote (rpMirror s)
     \<and> (\<forall>js. rpInflight s = Some (Inr js) \<longrightarrow> j \<in> set js))"

lemma Select_lists:
  assumes "dl_SelectUnexpiredJTIs pg now tt t = Inr js" "map_of t j = Some row" "rtType row = tt" "now < rtExpires row"
  shows "j \<in> set js"
  using assms map_of_SomeD[OF assms(2)] by (force simp: dl_SelectUnexpiredJTIs_def split: if_splits)

lemma kept_remote_step:
  assumes "rstep exp s s'" "kept_remote j row s" "rtType row = TokenTypeAccess"
  shows "kept_remote j row s'"
  using assms(1)
proof (cases rule: rstep.cases)
  case (statement op) with assms show ?thesis by (auto simp: kept_remote_def dl_exec_keeps)
next
  case (asks pg) with assms show ?thesis by (auto simp: kept_remote_def intro: Select_lists)
next
  case (lands answer) with assms show ?thesis by (auto simp: kept_remote_def Reload_remote split: sum.split)
qed (use assms in \<open>auto simp: kept_remote_def\<close>)

lemma run_invariant:
  assumes "replica_runs exp s s'" "\<And>u v. rstep exp u v \<Longrightarrow> P u \<Longrightarrow> P v" "P s"
  shows "P s'"
  using assms(1,3) by (induction rule: rtranclp_induct) (auto intro: assms(2))

text \<open>A logout on this replica, and a reload that asks and lands at once.\<close>

definition logged_out :: "(uuid \<Rightarrow> instant) \<Rightarrow> uuid \<Rightarrow> replica \<Rightarrow> replica" where
  "logged_out exp j s = s\<lparr>rpMirror := TokenMirror_Add j (exp j) (rpMirror s)\<rparr>"

definition reloaded :: "replica \<Rightarrow> replica" where
  "reloaded s = s\<lparr>rpMirror := snd (TokenMirror_Reload (dl_SelectUnexpiredJTIs Done (rpClock s) TokenTypeAccess (rpTable s))
     (rpClock s) (rpMirror s)), rpInflight := None\<rparr>"

lemma logout_honoured:
  assumes "replica_runs exp (logged_out exp j s) s''" "j \<noteq> uuid_nil" "rpClock s'' < exp j"
  shows "TokenMirror_Contains (rpMirror s'') j"
proof -
  have "kept_local exp j (logged_out exp j s)" using assms(2) by (simp add: logged_out_def kept_local_def Add_local)
  then have "kept_local exp j s''"
    by (rule run_invariant[OF assms(1) kept_local_step, rotated -1])
  with assms(3) show ?thesis by (simp add: kept_local_def TokenMirror_Contains_def)
qed

lemma revocation_spreads:
  assumes "replica_runs exp (reloaded s) s''" "map_of (rpTable s) j = Some row" "rtType row = TokenTypeAccess"
    and "rpClock s'' < rtExpires row"
  shows "TokenMirror_Contains (rpMirror s'') j"
proof -
  have clock: "rpClock (reloaded s) \<le> rpClock s''"
    by (rule run_invariant[OF assms(1)]) (auto dest: clock_grows)
  obtain js where js: "dl_SelectUnexpiredJTIs Done (rpClock s) TokenTypeAccess (rpTable s) = Inr js"
    by (simp add: dl_SelectUnexpiredJTIs_def TokenType_IsValid_def)
  have "kept_remote j row (reloaded s)"
    using assms(2-4) js clock Select_lists[OF js assms(2,3)] by (auto simp: reloaded_def kept_remote_def Reload_remote)
  then have "kept_remote j row s''"
    by (rule run_invariant[OF assms(1) kept_remote_step[OF _ _ assms(3)], rotated -1])
  with assms(4) show ?thesis by (simp add: kept_remote_def TokenMirror_Contains_def)
qed

text \<open>
  C40. The mirror honours a revocation until the token expires: one made on
  this replica from the moment it is added, whatever reloads land afterwards
  (also one that asked the store before the logout), and one made anywhere
  from the first reload that asked the store after it; a failed reload drops
  nothing.
\<close>

theorem mirror_honours_revocations:
  assumes "j \<noteq> uuid_nil" "map_of (rpTable s) k = Some row" "rtType row = TokenTypeAccess"
    and "replica_runs exp (logged_out exp j (reloaded s)) s'"
  shows "(rpClock s' < exp j \<longrightarrow> TokenMirror_Contains (rpMirror s') j)
    \<and> (rpClock s' < rtExpires row \<longrightarrow> TokenMirror_Contains (rpMirror s') k)"
proof -
  have "rstep exp (reloaded s) (logged_out exp j (reloaded s))"
    unfolding logged_out_def by (rule rstep.logout)
  with assms(4) have "replica_runs exp (reloaded s) s'" by (rule converse_rtranclp_into_rtranclp[rotated])
  from revocation_spreads[OF this assms(2,3)] logout_honoured[OF assms(4,1)] show ?thesis by simp
qed

definition stale_replica :: replica where
  "stale_replica = \<lparr>rpTable = [(uuid7 3, \<lparr>rtUser = uuid7 9, rtType = TokenTypeAccess, rtExpires = 100, rtRevokedAt = 5, rtReplacedBy = None\<rparr>)],
     rpMirror = \<lparr>tmRemote = {}, tmLocal = [], tmLastReload = 0, tmReloadFailures = 0\<rparr>, rpInflight = None, rpClock = 10\<rparr>"

definition after_failed_reload :: "replica \<Rightarrow> replica" where
  "after_failed_reload s = s\<lparr>rpMirror := snd (TokenMirror_Reload (Inl QueryFailed) (rpClock s) (rpMirror s)), rpInflight := None\<rparr>"

theorem mirror_honours_revocations_witness:
  "TokenMirror_Contains (rpMirror (after_failed_reload (logged_out (\<lambda>_. 100) (uuid7 2) (reloaded stale_replica)))) (uuid7 2)
   \<and> TokenMirror_Contains (rpMirror (after_failed_reload (logged_out (\<lambda>_. 100) (uuid7 2) (reloaded stale_replica)))) (uuid7 3)"
proof -
  let ?s = "logged_out (\<lambda>_. 100) (uuid7 2) (reloaded stale_replica)"
  let ?q = "?s\<lparr>rpInflight := Some (dl_SelectUnexpiredJTIs NotRun (rpClock ?s) TokenTypeAccess (rpTable ?s))\<rparr>"
  have "rpInflight ?s = None" by (simp add: logged_out_def reloaded_def)
  then have q: "rstep (\<lambda>_. 100) ?s ?q" by (rule rstep.asks)
  have "rpInflight ?q = Some (Inl QueryFailed)" by (simp add: dl_SelectUnexpiredJTIs_def TokenType_IsValid_def)
  from rstep.lands[OF this, of "\<lambda>_. 100"] have "rstep (\<lambda>_. 100) ?q (after_failed_reload ?s)"
    by (simp add: after_failed_reload_def)
  with q have r: "replica_runs (\<lambda>_. 100) ?s (after_failed_reload ?s)" by (blast intro: rtranclp_trans)
  have m: "uuid7 2 \<noteq> uuid_nil" "rpClock (after_failed_reload ?s) = 10"
    by (simp_all add: uuid7_def after_failed_reload_def logged_out_def reloaded_def stale_replica_def)
  let ?row = "\<lparr>rtUser = uuid7 9, rtType = TokenTypeAccess, rtExpires = 100, rtRevokedAt = 5, rtReplacedBy = None\<rparr>"
  have "map_of (rpTable stale_replica) (uuid7 3) = Some ?row" by (simp add: stale_replica_def)
  from mirror_honours_revocations[OF m(1) this _ r] m(2) show ?thesis by simp
qed

text \<open>
  \<open>Size\<close> adds the two maps, so the access token of a logout made here is counted
  twice from the next reload on, although one token is refused.
\<close>

lemma Size_counts_a_logout_twice:
  assumes "j \<noteq> uuid_nil" "now < e"
  shows "TokenMirror_Size (snd (TokenMirror_Reload (Inr [j]) now
      (TokenMirror_Add j e \<lparr>tmRemote = {}, tmLocal = [], tmLastReload = 0, tmReloadFailures = 0\<rparr>))) = 2"
  using assms by (simp add: mirror_defs)

end
