(* ===== verification/TokenLifetimes.thy ===== *)
theory TokenLifetimes
  imports Validation RateLimitMirror
begin

text \<open>
  How long the tokens issued from now on live: the bounds
  (\<open>internal/core/domain/token_lifetimes.go\<close>), the singleton row
  (\<open>repositorypg/token_lifetimes.go\<close>), the mirror the issuing code reads
  (\<open>usecase/token_lifetimes_mirror.go\<close>) and the service that writes it
  (\<open>usecase/token_lifetimes.go\<close>).
\<close>

section \<open>The bounds\<close>

definition ValidAuthnAccessTokenMinDuration :: duration where "ValidAuthnAccessTokenMinDuration = 2 * minute"
definition ValidAuthnAccessTokenMaxDuration :: duration where "ValidAuthnAccessTokenMaxDuration = 48 * hour"
definition ValidAuthnRefreshTokenMinDuration :: duration where "ValidAuthnRefreshTokenMinDuration = 12 * hour"
definition ValidAuthnRefreshTokenMaxDuration :: duration where "ValidAuthnRefreshTokenMaxDuration = 168 * hour"

lemmas lifetime_bounds = ValidAuthnAccessTokenMinDuration_def ValidAuthnAccessTokenMaxDuration_def
  ValidAuthnRefreshTokenMinDuration_def ValidAuthnRefreshTokenMaxDuration_def

record TokenLifetimes =
  UpdatedAt :: instant
  AccessTokenDuration :: duration
  RefreshTokenDuration :: duration
  UpdatedBy :: uuid

record UpdateTokenLifetimesInput =
  inAccess :: duration
  inRefresh :: duration
  inUpdatedBy :: uuid

definition validateTokenLifetimes :: "ValidationError list \<Rightarrow> duration \<Rightarrow> duration \<Rightarrow> ValidationError list" where
  "validateTokenLifetimes errs access refresh =
    (let errs = (if access < ValidAuthnAccessTokenMinDuration \<or> access > ValidAuthnAccessTokenMaxDuration
         then AddError errs ''access_token_duration''
           (''must be between '' @ duration_string ValidAuthnAccessTokenMinDuration @ '' and '' @
            duration_string ValidAuthnAccessTokenMaxDuration @ '', got '' @ duration_string access) ''OUT_OF_RANGE''
         else errs);
       errs = (if refresh < ValidAuthnRefreshTokenMinDuration \<or> refresh > ValidAuthnRefreshTokenMaxDuration
         then AddError errs ''refresh_token_duration''
           (''must be between '' @ duration_string ValidAuthnRefreshTokenMinDuration @ '' and '' @
            duration_string ValidAuthnRefreshTokenMaxDuration @ '', got '' @ duration_string refresh) ''OUT_OF_RANGE''
         else errs)
     in (if refresh \<le> access
         then AddError errs ''refresh_token_duration''
           (''must be longer than access_token_duration ('' @ duration_string access @
            ''); an equal pair leaves no moment at which refreshing is both possible and useful, got '' @
            duration_string refresh) ''ORDERING''
         else errs))"

definition TokenLifetimes_Validate :: "TokenLifetimes \<Rightarrow> verror option" where
  "TokenLifetimes_Validate r = errs_result (validateTokenLifetimes [] (AccessTokenDuration r) (RefreshTokenDuration r))"

definition UpdateTokenLifetimesInput_Validate :: "UpdateTokenLifetimesInput \<Rightarrow> verror option" where
  "UpdateTokenLifetimesInput_Validate i =
    (let errs = validateTokenLifetimes [] (inAccess i) (inRefresh i);
         errs = (if inUpdatedBy i = uuid_nil
           then AddError errs ''updated_by'' ''the caller performing the change is required'' ''REQUIRED'' else errs)
     in errs_result errs)"

definition lifetimes_ok :: "duration \<Rightarrow> duration \<Rightarrow> bool" where
  "lifetimes_ok access refresh =
     (2 * minute \<le> access \<and> access \<le> 48 * hour \<and> 12 * hour \<le> refresh \<and> refresh \<le> 168 * hour \<and> access < refresh)"

lemma validateTokenLifetimes_ok: "HasErrors (validateTokenLifetimes [] a r) \<longleftrightarrow> \<not> lifetimes_ok a r"
  by (auto simp: validateTokenLifetimes_def lifetimes_ok_def lifetime_bounds HasErrors_def AddError_def Let_def)

lemma TokenLifetimes_Validate_ok: "TokenLifetimes_Validate l = None \<longleftrightarrow> lifetimes_ok (AccessTokenDuration l) (RefreshTokenDuration l)"
  by (simp add: TokenLifetimes_Validate_def errs_result_def validateTokenLifetimes_ok)

lemma UpdateTokenLifetimesInput_Validate_ok:
  "UpdateTokenLifetimesInput_Validate i = None \<longleftrightarrow> lifetimes_ok (inAccess i) (inRefresh i) \<and> inUpdatedBy i \<noteq> uuid_nil"
proof (cases "inUpdatedBy i = uuid_nil")
  case False
  then show ?thesis by (simp add: UpdateTokenLifetimesInput_Validate_def errs_result_def validateTokenLifetimes_ok)
qed (simp add: UpdateTokenLifetimesInput_Validate_def errs_result_def HasErrors_def AddError_def Let_def)

section \<open>The row\<close>

text \<open>
  The singleton of \<open>00016_authn_token_lifetimes.sql\<close>, in whole seconds; there is
  none only when the migration's seed is missing.  The three CHECK constraints
  are tried in the order of their names.
\<close>

record lifetimes_row =
  lrAccessSeconds :: int
  lrRefreshSeconds :: int
  lrUpdatedBy :: "uuid option"
  lrUpdatedAt :: instant

datatype lifetimes_error =
  LNotFound | LQueryFailed | LInvalidInput string | LValidation "ValidationError list" | LOtherValidation verror

definition row_check :: "int \<Rightarrow> int \<Rightarrow> ValidationError list" where
  "row_check access refresh =
     (if \<not> (120 \<le> access \<and> access \<le> 172800)
      then [verr ''access_token_duration'' ''refused by the database bounds; this should have been caught in validation, please report it'' ''OUT_OF_RANGE'']
      else if \<not> refresh > access
      then [verr ''refresh_token_duration'' ''must be longer than access_token_duration; this should have been caught in validation, please report it'' ''ORDERING'']
      else if \<not> (43200 \<le> refresh \<and> refresh \<le> 604800)
      then [verr ''refresh_token_duration'' ''refused by the database bounds; this should have been caught in validation, please report it'' ''OUT_OF_RANGE'']
      else [])"

definition scanTokenLifetimes :: "lifetimes_row \<Rightarrow> TokenLifetimes" where
  "scanTokenLifetimes row = \<lparr>UpdatedAt = lrUpdatedAt row,
     AccessTokenDuration = lrAccessSeconds row * second, RefreshTokenDuration = lrRefreshSeconds row * second,
     UpdatedBy = (case lrUpdatedBy row of None \<Rightarrow> uuid_nil | Some u \<Rightarrow> u)\<rparr>"

definition tlrepo_Get :: "bool \<Rightarrow> lifetimes_row option \<Rightarrow> lifetimes_error + TokenLifetimes" where
  "tlrepo_Get fault row =
     (if fault then Inl LQueryFailed
      else case row of None \<Rightarrow> Inl LNotFound | Some r \<Rightarrow> Inr (scanTokenLifetimes r))"

text \<open>\<open>int64(d.Seconds())\<close>: the fraction of a second is cut off, toward zero.\<close>

definition whole_seconds :: "duration \<Rightarrow> int" where
  "whole_seconds d = d sdiv second"

definition tlrepo_Update ::
  "bool \<Rightarrow> instant \<Rightarrow> UpdateTokenLifetimesInput \<Rightarrow> lifetimes_row option \<Rightarrow> (lifetimes_error + TokenLifetimes) \<times> lifetimes_row option" where
  "tlrepo_Update fault now i row =
     (case UpdateTokenLifetimesInput_Validate i of
        Some e \<Rightarrow> (Inl (LOtherValidation e), row)
      | None \<Rightarrow>
          if fault then (Inl LQueryFailed, row)
          else case row of
            None \<Rightarrow> (Inl LNotFound, row)
          | Some r \<Rightarrow>
              (let access = whole_seconds (inAccess i); refresh = whole_seconds (inRefresh i) in
               if row_check access refresh \<noteq> [] then (Inl (LValidation (row_check access refresh)), row)
               else let r' = \<lparr>lrAccessSeconds = access, lrRefreshSeconds = refresh, lrUpdatedBy = Some (inUpdatedBy i), lrUpdatedAt = now\<rparr>
                    in (Inr (scanTokenLifetimes r'), Some r')))"

section \<open>The mirror\<close>

record lifetimes_mirror =
  tlCurrent :: "TokenLifetimes option"
  tlLastReload :: instant
  tlReloadFailures :: int

definition NewTokenLifetimes :: "duration \<Rightarrow> lifetimes_error + lifetimes_mirror" where
  "NewTokenLifetimes reloadInterval =
     (if reloadInterval \<le> 0 then Inl (LInvalidInput ''token lifetimes: reload interval must be positive'')
      else Inr \<lparr>tlCurrent = None, tlLastReload = 0, tlReloadFailures = 0\<rparr>)"

text \<open>\<open>Current\<close> panics before the first load: None is the panic.\<close>

definition Lifetimes_Current :: "lifetimes_mirror \<Rightarrow> TokenLifetimes option" where
  "Lifetimes_Current m = tlCurrent m"

definition Lifetimes_Loaded :: "lifetimes_mirror \<Rightarrow> TokenLifetimes \<times> bool" where
  "Lifetimes_Loaded m = (case tlCurrent m of
     None \<Rightarrow> (\<lparr>UpdatedAt = 0, AccessTokenDuration = 0, RefreshTokenDuration = 0, UpdatedBy = uuid_nil\<rparr>, False)
   | Some l \<Rightarrow> (l, True))"

definition Lifetimes_Reload ::
  "lifetimes_error + TokenLifetimes \<Rightarrow> instant \<Rightarrow> lifetimes_mirror \<Rightarrow> lifetimes_error option \<times> lifetimes_mirror" where
  "Lifetimes_Reload answer now m = (case answer of
     Inl e \<Rightarrow> (Some e, m\<lparr>tlReloadFailures := tlReloadFailures m + 1\<rparr>)
   | Inr row \<Rightarrow> (case TokenLifetimes_Validate row of
       Some e \<Rightarrow> (Some (LOtherValidation e), m\<lparr>tlReloadFailures := tlReloadFailures m + 1\<rparr>)
     | None \<Rightarrow> (None, m\<lparr>tlCurrent := Some row, tlLastReload := now\<rparr>)))"

definition Lifetimes_Staleness :: "instant \<Rightarrow> lifetimes_mirror \<Rightarrow> duration" where
  "Lifetimes_Staleness now m = (if tlLastReload m = 0 then staleForever else now - tlLastReload m)"

section \<open>The service\<close>

text \<open>
  \<open>Update\<close>: the write, then the reload of this replica's mirror from the row;
  neither the reload nor the notification can fail the call, so the
  notification, a message to the other replicas, is left out.
\<close>

definition TokenLifetimesService_Get :: "bool \<Rightarrow> lifetimes_row option \<Rightarrow> lifetimes_error + TokenLifetimes" where
  "TokenLifetimesService_Get fault row = tlrepo_Get fault row"

definition applyLocally :: "bool \<Rightarrow> instant \<Rightarrow> lifetimes_row option \<Rightarrow> lifetimes_mirror \<Rightarrow> lifetimes_mirror" where
  "applyLocally fault now row m = snd (Lifetimes_Reload (tlrepo_Get fault row) now m)"

definition TokenLifetimesService_Update ::
  "bool \<Rightarrow> bool \<Rightarrow> instant \<Rightarrow> UpdateTokenLifetimesInput option \<Rightarrow> lifetimes_row option \<times> lifetimes_mirror
   \<Rightarrow> (lifetimes_error + TokenLifetimes) \<times> lifetimes_row option \<times> lifetimes_mirror" where
  "TokenLifetimesService_Update wfault rfault now input st =
     (case input of
        None \<Rightarrow> (Inl (LInvalidInput ''input is nil''), st)
      | Some i \<Rightarrow> (case UpdateTokenLifetimesInput_Validate i of
          Some e \<Rightarrow> (Inl (LOtherValidation e), st)
        | None \<Rightarrow> (case tlrepo_Update wfault now i (fst st) of
            (Inl e, row) \<Rightarrow> (Inl e, row, snd st)
          | (Inr out, row) \<Rightarrow> (Inr out, row, applyLocally rfault now row (snd st)))))"

section \<open>What is issued with\<close>

datatype lifetimes_event =
    LReload instant "lifetimes_error + TokenLifetimes"
  | LPut bool bool instant "UpdateTokenLifetimesInput option"
  | LHandEdit "lifetimes_row option"

fun lifetimes_step :: "lifetimes_event \<Rightarrow> lifetimes_row option \<times> lifetimes_mirror \<Rightarrow> lifetimes_row option \<times> lifetimes_mirror" where
  "lifetimes_step (LReload now answer) (row, m) = (row, snd (Lifetimes_Reload answer now m))"
| "lifetimes_step (LPut wfl rfl now i) st = snd (TokenLifetimesService_Update wfl rfl now i st)"
| "lifetimes_step (LHandEdit row') (row, m) = (row', m)"

definition lifetimes_run :: "lifetimes_event list \<Rightarrow> lifetimes_row option \<times> lifetimes_mirror \<Rightarrow> lifetimes_row option \<times> lifetimes_mirror" where
  "lifetimes_run es st = foldl (\<lambda>st e. lifetimes_step e st) st es"

definition issuable :: "lifetimes_mirror \<Rightarrow> bool" where
  "issuable m = (case Lifetimes_Current m of None \<Rightarrow> True
     | Some l \<Rightarrow> lifetimes_ok (AccessTokenDuration l) (RefreshTokenDuration l))"

lemma Reload_issuable: "issuable m \<Longrightarrow> issuable (snd (Lifetimes_Reload answer now m))"
  by (auto simp: Lifetimes_Reload_def issuable_def Lifetimes_Current_def TokenLifetimes_Validate_ok split: sum.split option.splits)

lemma Reload_keeps_loaded: "tlCurrent m \<noteq> None \<Longrightarrow> tlCurrent (snd (Lifetimes_Reload answer now m)) \<noteq> None"
  by (auto simp: Lifetimes_Reload_def split: sum.split option.splits)

lemma lifetimes_step_mirror:
  "\<exists>answer now. snd (lifetimes_step e st) = snd st \<or> snd (lifetimes_step e st) = snd (Lifetimes_Reload answer now (snd st))"
proof (cases "(e, st)" rule: lifetimes_step.cases)
  case (2 wfl rfl now i st)
  then show ?thesis
    by (auto simp: TokenLifetimesService_Update_def applyLocally_def split: option.split prod.split sum.split)
qed auto

lemma lifetimes_run_mirror:
  assumes "issuable (snd st)" "tlCurrent (snd st) \<noteq> None"
  shows "issuable (snd (lifetimes_run es st)) \<and> tlCurrent (snd (lifetimes_run es st)) \<noteq> None"
proof (induction es rule: rev_induct)
  case Nil with assms show ?case by (simp add: lifetimes_run_def)
next
  case (snoc e es)
  then show ?case
    using lifetimes_step_mirror[of e "lifetimes_run es st"] Reload_issuable Reload_keeps_loaded
    by (auto simp: lifetimes_run_def)
qed

lemma whole_seconds_div: "0 \<le> d \<Longrightarrow> whole_seconds d = d div second"
  by (cases "d = 0") (simp_all add: whole_seconds_def signed_divide_int_def)

lemma ok_seconds:
  assumes "lifetimes_ok a r"
  shows "120 \<le> whole_seconds a \<and> whole_seconds a \<le> 172800 \<and> 43200 \<le> whole_seconds r \<and> whole_seconds r \<le> 604800
    \<and> whole_seconds a \<le> whole_seconds r"
proof -
  have "0 \<le> a" "0 \<le> r" using assms by (simp_all add: lifetimes_ok_def)
  then show ?thesis using assms
    by (auto simp: whole_seconds_div lifetimes_ok_def intro: zdiv_mono1)
qed

lemma row_check_ok:
  assumes "lifetimes_ok a r"
  shows "row_check (whole_seconds a) (whole_seconds r) =
    (if whole_seconds a < whole_seconds r then []
     else [verr ''refresh_token_duration'' ''must be longer than access_token_duration; this should have been caught in validation, please report it'' ''ORDERING''])"
  using ok_seconds[OF assms] by (simp add: row_check_def)

text \<open>
  Once the mirror has loaded, whatever happens next (reloads that fail,
  rows edited by hand, rejected and accepted writes) it has lifetimes to
  issue with, within both bounds and the refresh token strictly the longer.
\<close>

theorem issued_lifetimes_are_valid:
  assumes "Lifetimes_Reload answer now m = (None, m')"
  shows "\<exists>l. Lifetimes_Current (snd (lifetimes_run es (row, m'))) = Some l
    \<and> 2 * minute \<le> AccessTokenDuration l \<and> AccessTokenDuration l \<le> 48 * hour
    \<and> 12 * hour \<le> RefreshTokenDuration l \<and> RefreshTokenDuration l \<le> 168 * hour
    \<and> AccessTokenDuration l < RefreshTokenDuration l"
proof -
  have "issuable m' \<and> tlCurrent m' \<noteq> None"
    using assms by (auto simp: Lifetimes_Reload_def issuable_def Lifetimes_Current_def TokenLifetimes_Validate_ok split: sum.splits option.splits)
  then show ?thesis using lifetimes_run_mirror[of "(row, m')" es]
    by (auto simp: issuable_def Lifetimes_Current_def lifetimes_ok_def)
qed

definition seed_row :: lifetimes_row where
  "seed_row = \<lparr>lrAccessSeconds = 300, lrRefreshSeconds = 86400, lrUpdatedBy = None, lrUpdatedAt = 1\<rparr>"

definition seeded_mirror :: lifetimes_mirror where
  "seeded_mirror = \<lparr>tlCurrent = Some (scanTokenLifetimes seed_row), tlLastReload = 5, tlReloadFailures = 0\<rparr>"

lemma seed_loads:
  "Lifetimes_Reload (tlrepo_Get False (Some seed_row)) 5 \<lparr>tlCurrent = None, tlLastReload = 0, tlReloadFailures = 0\<rparr> = (None, seeded_mirror)"
proof -
  have "TokenLifetimes_Validate (scanTokenLifetimes seed_row) = None"
    unfolding TokenLifetimes_Validate_ok by (simp add: scanTokenLifetimes_def seed_row_def lifetimes_ok_def)
  then show ?thesis by (simp add: Lifetimes_Reload_def tlrepo_Get_def seeded_mirror_def)
qed

theorem issued_lifetimes_are_valid_witness:
  "\<exists>l. Lifetimes_Current (snd (lifetimes_run [LHandEdit (Some (seed_row\<lparr>lrAccessSeconds := 86400\<rparr>)), LReload 9 (Inl LQueryFailed)]
     (Some seed_row, seeded_mirror))) = Some l \<and> AccessTokenDuration l < RefreshTokenDuration l"
  using issued_lifetimes_are_valid[OF seed_loads] by blast

text \<open>
  A write the validator accepts stores the two lifetimes in whole seconds
  and this replica issues with them at once; the one exception is a pair that
  differs by a fraction of a second only, which the CHECK constraint refuses
  after all, and then nothing changes.
\<close>

theorem accepted_lifetimes_take_effect:
  assumes "UpdateTokenLifetimesInput_Validate i = None"
    and "TokenLifetimesService_Update False False now (Some i) (Some row, m) = (out, row', m')"
  shows "if inAccess i div second < inRefresh i div second
    then row' = Some \<lparr>lrAccessSeconds = inAccess i div second, lrRefreshSeconds = inRefresh i div second,
           lrUpdatedBy = Some (inUpdatedBy i), lrUpdatedAt = now\<rparr>
      \<and> out = Inr \<lparr>UpdatedAt = now, AccessTokenDuration = (inAccess i div second) * second,
           RefreshTokenDuration = (inRefresh i div second) * second, UpdatedBy = inUpdatedBy i\<rparr>
      \<and> Lifetimes_Current m' = Some \<lparr>UpdatedAt = now, AccessTokenDuration = (inAccess i div second) * second,
           RefreshTokenDuration = (inRefresh i div second) * second, UpdatedBy = inUpdatedBy i\<rparr>
    else (\<exists>e. out = Inl (LValidation [e]) \<and> Code e = ''ORDERING'') \<and> row' = Some row \<and> m' = m"
proof -
  have ok: "lifetimes_ok (inAccess i) (inRefresh i)" using assms(1) UpdateTokenLifetimesInput_Validate_ok by blast
  have s: "whole_seconds (inAccess i) = inAccess i div second" "whole_seconds (inRefresh i) = inRefresh i div second"
    using ok by (simp_all add: whole_seconds_div lifetimes_ok_def)
  note rc = row_check_ok[OF ok, unfolded s]
  show ?thesis
  proof (cases "inAccess i div second < inRefresh i div second")
    case False
    with assms rc s show ?thesis
      by (auto simp: TokenLifetimesService_Update_def tlrepo_Update_def)
  next
    case True
    let ?l = "\<lparr>UpdatedAt = now, AccessTokenDuration = (inAccess i div second) * second,
           RefreshTokenDuration = (inRefresh i div second) * second, UpdatedBy = inUpdatedBy i\<rparr>"
    have "lifetimes_ok (AccessTokenDuration ?l) (RefreshTokenDuration ?l)"
      using ok_seconds[OF ok] True by (simp add: s lifetimes_ok_def)
    then have "TokenLifetimes_Validate ?l = None" using TokenLifetimes_Validate_ok by blast
    with True assms rc s show ?thesis
      by (auto simp: TokenLifetimesService_Update_def tlrepo_Update_def applyLocally_def tlrepo_Get_def
        Lifetimes_Reload_def Lifetimes_Current_def scanTokenLifetimes_def Let_def)
  qed
qed

definition half_second_apart :: UpdateTokenLifetimesInput where
  "half_second_apart = \<lparr>inAccess = 12 * hour, inRefresh = 12 * hour + 500000000, inUpdatedBy = uuid7 9\<rparr>"

theorem accepted_lifetimes_take_effect_witness:
  "UpdateTokenLifetimesInput_Validate half_second_apart = None
   \<and> (\<exists>e. fst (TokenLifetimesService_Update False False 7 (Some half_second_apart) (Some seed_row, seeded_mirror)) = Inl (LValidation [e])
        \<and> Code e = ''ORDERING'')"
proof -
  have v: "UpdateTokenLifetimesInput_Validate half_second_apart = None"
    unfolding UpdateTokenLifetimesInput_Validate_ok by (simp add: half_second_apart_def lifetimes_ok_def uuid7_def)
  obtain out row' m' where r: "TokenLifetimesService_Update False False 7 (Some half_second_apart) (Some seed_row, seeded_mirror) = (out, row', m')"
    by (cases "TokenLifetimesService_Update False False 7 (Some half_second_apart) (Some seed_row, seeded_mirror)") auto
  have "\<not> inAccess half_second_apart div second < inRefresh half_second_apart div second" by (simp add: half_second_apart_def)
  with accepted_lifetimes_take_effect[OF v r] v r show ?thesis by simp
qed

end
