(* ===== verification/Accounts.thy ===== *)
theory Accounts
  imports Validation ResourceLimits
begin

text \<open>
  Accounts: the inputs and their validators (\<open>internal/core/domain/users.go\<close>), the
  statements of \<open>repositorypg/users.go\<close> on the tables \<open>users\<close>,
  \<open>users_identities\<close> and \<open>idps\<close>, the guard of the administrator account
  (\<open>usecase/administrator_account.go\<close>) and the use case
  (\<open>usecase/users.go\<close>).  Every statement is one step on the tables as they
  are when it runs; which statements fail is an argument.  bcrypt is a
  parameter.  Timestamps are left out: nothing decides by them.
\<close>

section \<open>Data\<close>

text \<open>\<open>domain.User\<close>: a nil pointer is None.\<close>

record User =
  usrID :: uuid
  usrFirstName :: string
  usrLastName :: string
  usrEmail :: string
  usrPasswordHash :: string
  usrDisabled :: "bool option"
  usrDisabledByAdmin :: "bool option"
  usrVerified :: "bool option"
  usrAdmin :: "bool option"
  usrLocalAccount :: "bool option"

record LinkUserIdentityInput =
  idSubject :: string
  idEmail :: string
  idIssuerURL :: string
  idUserID :: uuid
  idIDPID :: uuid
  idIDPTypeID :: uuid

record InsertUserInput =
  insDisabled :: "bool option"
  insVerified :: "bool option"
  insLocalAccount :: "bool option"
  insIdentity :: "LinkUserIdentityInput option"
  insFirstName :: string
  insLastName :: string
  insEmail :: string
  insPassword :: string
  insPasswordHash :: string
  insID :: uuid
  insDisabledByAdmin :: bool

record UpdateUserInput =
  upFirstName :: "string option"
  upLastName :: "string option"
  upEmail :: "string option"
  upPassword :: "string option"
  upPasswordHash :: "string option"
  upDisabled :: "bool option"
  upDisabledByAdmin :: "bool option"
  upLocalAccount :: "bool option"
  upAdmin :: "bool option"
  upID :: uuid
  upCallerID :: uuid

record DeleteUserInput =
  delID :: uuid
  delCallerID :: uuid

datatype AccountStanding = AccountUnknown | AccountActive | AccountDisabled | AccountMissing

datatype account_error =
    UInvalidInput string string
  | UInvalidUserID
  | UInvalidEmail string
  | UInvalidUserUpdate
  | UInvalidUserPassword
  | UValidation verror
  | UNotFound uuid
  | UAlreadyExistsID uuid
  | UAlreadyExistsEmail string
  | UAlreadyVerified uuid
  | UAddressIsNotTheAccounts
  | UAdministratorOnly string
  | UAdministratorProtected string string
  | UAddressChangeWithoutCaller
  | UAdministratorChangeWithoutCaller
  | UIdentityAlreadyLinked
  | UIDPChangedDuringSignIn
  | UHashFailed
  | ULimits limits_error
  | UQueryFailed

text \<open>Sequencing of results that may be an error.\<close>

definition and_then :: "'e + 'a \<Rightarrow> ('a \<Rightarrow> 'e + 'b) \<Rightarrow> 'e + 'b" where
  "and_then r f = (case r of Inl e \<Rightarrow> Inl e | Inr a \<Rightarrow> f a)"

lemma and_then_simps [simp]: "and_then (Inl e) f = Inl e" "and_then (Inr a) f = f a"
  by (simp_all add: and_then_def)

lemma and_then_Inr: "and_then r f = Inr b \<longleftrightarrow> (\<exists>a. r = Inr a \<and> f a = Inr b)"
  by (cases r) auto

definition fail_if :: "'e option \<Rightarrow> 'e + unit" where
  "fail_if o_err = (case o_err of None \<Rightarrow> Inr () | Some e \<Rightarrow> Inl e)"

lemma fail_if_Inr [simp]: "fail_if o_err = Inr u \<longleftrightarrow> o_err = None"
  by (cases o_err) (auto simp: fail_if_def)

lemma fail_if_simps [simp]: "fail_if None = Inr ()" "fail_if (Some e) = Inl e"
  by (simp_all add: fail_if_def)

section \<open>Validators\<close>

definition name_options :: "string \<Rightarrow> StringValidationOptions" where
  "name_options field = \<lparr>FieldName = field, MinLength = 2, MaxLength = 25, TrimWhitespace = True, AllowEmpty = False,
     NoControlChars = True, NoHTMLTags = True, NoScriptTags = False, NoNullBytes = True, NormalizeUnicode = True\<rparr>"

definition hash_options :: StringValidationOptions where
  "hash_options = \<lparr>FieldName = ''password_hash'', MinLength = ValidUserPasswordMinLength, MaxLength = ValidUserPasswordMaxLength,
     TrimWhitespace = False, AllowEmpty = False, NoControlChars = True, NoHTMLTags = False, NoScriptTags = False,
     NoNullBytes = True, NormalizeUnicode = False\<rparr>"

text \<open>One field: the errors so far with its own, and the normalised value.\<close>

definition check_field :: "(string \<Rightarrow> ValidationError + string) \<Rightarrow> string \<Rightarrow> ValidationError list \<Rightarrow> ValidationError list \<times> string" where
  "check_field f v errs = (case f v of Inl e \<Rightarrow> (Add errs (Some (VOne e)), v) | Inr v' \<Rightarrow> (errs, v'))"

definition check_opt ::
  "(string \<Rightarrow> ValidationError + string) \<Rightarrow> string option \<Rightarrow> ValidationError list \<Rightarrow> ValidationError list \<times> string option" where
  "check_opt f v errs = (case v of None \<Rightarrow> (errs, None) | Some s \<Rightarrow> (let (errs, s') = check_field f s errs in (errs, Some s')))"

definition LinkUserIdentityInput_Validate :: "LinkUserIdentityInput \<Rightarrow> verror option" where
  "LinkUserIdentityInput_Validate i =
    (let errs = Add [] (ValidateUUID (idUserID i) 7 ''user_id'');
         errs = Add errs (ValidateUUID (idIDPID i) 7 ''idp_id'');
         errs = Add errs (ValidateUUID (idIDPTypeID i) 7 ''idp_type_id'');
         errs = (if idSubject i = [] then AddError errs ''subject'' ''the provider's subject is required'' ''REQUIRED'' else errs);
         errs = (if length (idSubject i) > 255 then AddError errs ''subject'' ''the provider's subject is too long'' ''TOO_LONG'' else errs)
     in errs_result errs)"

definition InsertUserInput_Validate :: "'a text_env_scheme \<Rightarrow> InsertUserInput \<Rightarrow> verror + InsertUserInput" where
  "InsertUserInput_Validate env i =
    (let errs = Add [] (ValidateUUID (insID i) 7 ''id'');
         (errs, first) = check_field (\<lambda>s. ValidateString s (name_options ''first_name'')) (insFirstName i) errs;
         (errs, last) = check_field (\<lambda>s. ValidateString s (name_options ''last_name'')) (insLastName i) errs;
         (errs, email) = check_field (\<lambda>s. ValidateEmail env s ''email'') (insEmail i) errs;
         errs = (if insPasswordHash i \<noteq> [] then Add errs (err_of (ValidateString (insPasswordHash i) hash_options)) else errs);
         errs = (if insPassword i \<noteq> [] then Add errs (ValidatePassword env (insPassword i) ''password'') else errs);
         errs = (if insLocalAccount i = None then AddError errs ''local_account'' ''local_account cannot be nil'' ''REQUIRED'' else errs);
         errs = (case insIdentity i of
             None \<Rightarrow> errs
           | Some identity \<Rightarrow>
               let errs = (case LinkUserIdentityInput_Validate identity of
                     Some e \<Rightarrow> Add errs (Some e)
                   | None \<Rightarrow> if idUserID identity \<noteq> insID i
                       then AddError errs ''user_id'' ''the identity is not the account's'' ''INVALID_VALUE'' else errs)
               in (if insLocalAccount i = Some True
                   then AddError errs ''local_account'' ''a local account is not provisioned with a provider identity'' ''INVALID_COMBINATION''
                   else errs))
     in if HasErrors errs then Inl (VMany errs)
        else Inr (i\<lparr>insFirstName := first, insLastName := last, insEmail := email\<rparr>))"

definition empty_update :: UpdateUserInput where
  "empty_update = \<lparr>upFirstName = None, upLastName = None, upEmail = None, upPassword = None, upPasswordHash = None,
     upDisabled = None, upDisabledByAdmin = None, upLocalAccount = None, upAdmin = None, upID = uuid_nil, upCallerID = uuid_nil\<rparr>"

definition UpdateUserInput_Validate :: "'a text_env_scheme \<Rightarrow> UpdateUserInput \<Rightarrow> account_error + UpdateUserInput" where
  "UpdateUserInput_Validate env i =
    (if i = empty_update then Inl UInvalidUserUpdate
     else let errs = Add [] (ValidateUUID (upID i) 7 ''id'');
         (errs, first) = check_opt (\<lambda>s. ValidateString s (name_options ''first_name'')) (upFirstName i) errs;
         (errs, last) = check_opt (\<lambda>s. ValidateString s (name_options ''last_name'')) (upLastName i) errs;
         (errs, email) = check_opt (\<lambda>s. ValidateEmail env s ''email'') (upEmail i) errs;
         errs = (case upPasswordHash i of None \<Rightarrow> errs
           | Some h \<Rightarrow> if h \<noteq> [] then Add errs (err_of (ValidateString h hash_options)) else errs);
         errs = (case upPassword i of None \<Rightarrow> errs
           | Some p \<Rightarrow> if p \<noteq> [] then Add errs (ValidatePassword env p ''password'') else errs)
     in if HasErrors errs then Inl (UValidation (VMany errs))
        else Inr (i\<lparr>upFirstName := first, upLastName := last, upEmail := email\<rparr>))"

definition DeleteUserInput_Validate :: "DeleteUserInput \<Rightarrow> verror option" where
  "DeleteUserInput_Validate i = errs_result (Add [] (ValidateUUID (delID i) 7 ''id''))"

section \<open>The tables\<close>

text \<open>The flags of \<open>users\<close> are NOT NULL (\<open>00002_users_tables.sql\<close>).\<close>

record user_row =
  rowFirstName :: string
  rowLastName :: string
  rowEmail :: string
  rowPasswordHash :: string
  rowDisabled :: bool
  rowDisabledByAdmin :: bool
  rowVerified :: bool
  rowAdmin :: bool
  rowLocalAccount :: bool

text \<open>The columns of \<open>idps\<close> and \<open>users_identities\<close> (\<open>00010_idps.sql\<close>); an issuer that is NULL is the empty text.\<close>

record idp_row =
  idpType :: uuid
  idpName :: string
  idpDescription :: string
  idpCallbackURL :: string
  idpIssuerURL :: string
  idpLogo :: string
  idpClientID :: string
  idpClientSecret :: string
  idpEnabled :: bool
  idpAutoProvision :: bool

record identity_row =
  idnUser :: uuid
  idnIDP :: uuid
  idnSubject :: string
  idnEmail :: string

record accounts_state =
  acUsers :: "(uuid \<times> user_row) list"
  acIdps :: "(uuid \<times> idp_row) list"
  acIdentities :: "identity_row list"
  acAutoRoles :: "uuid list"
  acUsersRoles :: "(uuid \<times> uuid) list"

datatype acc_stmt =
    SSelectByID uuid | SSelectByEmail | SSelectDisabled | SInsert | SInsertRoles | SInsertIdentity | SCommit
  | SUpdate | SDelete | SVerify | SReset | SCount | SIsEnabled

type_synonym acc_faults = "acc_stmt \<Rightarrow> bool"

definition no_acc_faults :: acc_faults where "no_acc_faults s = False"

text \<open>The account the migrations seed.\<close>

definition bootstrap_administrator :: uuid where
  "bootstrap_administrator = 0x019822afb44873fb89a1447e8f8d1cde"

definition user_of_row :: "uuid \<Rightarrow> user_row \<Rightarrow> User" where
  "user_of_row uid r = \<lparr>usrID = uid, usrFirstName = rowFirstName r, usrLastName = rowLastName r, usrEmail = rowEmail r,
     usrPasswordHash = rowPasswordHash r, usrDisabled = Some (rowDisabled r), usrDisabledByAdmin = Some (rowDisabledByAdmin r),
     usrVerified = Some (rowVerified r), usrAdmin = Some (rowAdmin r), usrLocalAccount = Some (rowLocalAccount r)\<rparr>"

definition user_row_of :: "uuid \<Rightarrow> accounts_state \<Rightarrow> user_row option" where
  "user_row_of uid st = map_of (acUsers st) uid"

definition set_row :: "uuid \<Rightarrow> user_row \<Rightarrow> accounts_state \<Rightarrow> accounts_state" where
  "set_row uid r st = st\<lparr>acUsers := AList.update uid r (acUsers st)\<rparr>"

lemma user_row_of_set_row [simp]: "user_row_of k (set_row uid r st) = (if k = uid then Some r else user_row_of k st)"
  by (simp add: user_row_of_def set_row_def update_conv)

section \<open>The repository\<close>

definition repo_SelectByID :: "acc_faults \<Rightarrow> uuid \<Rightarrow> accounts_state \<Rightarrow> account_error + User" where
  "repo_SelectByID faults uid st =
    (if \<not> IsUUIDV7 uid then Inl UInvalidUserID
     else if faults (SSelectByID uid) then Inl UQueryFailed
     else case user_row_of uid st of None \<Rightarrow> Inl (UNotFound uid) | Some r \<Rightarrow> Inr (user_of_row uid r))"

text \<open>\<open>SelectByEmail\<close> does not read the \<open>admin\<close> column.\<close>

definition repo_SelectByEmail :: "'a text_env_scheme \<Rightarrow> acc_faults \<Rightarrow> string \<Rightarrow> accounts_state \<Rightarrow> account_error + User" where
  "repo_SelectByEmail env faults email st =
    (if email = [] then Inl (UInvalidEmail email)
     else if int (length email) < ValidUserEmailMinLength \<or> int (length email) > 254 then Inl (UInvalidEmail email)
     else if parse_address env email = None then Inl (UInvalidEmail email)
     else if faults SSelectByEmail then Inl UQueryFailed
     else case filter (\<lambda>(_, r). rowEmail r = email) (acUsers st) of
        [] \<Rightarrow> Inl (UNotFound uuid_nil)
      | (uid, r) # _ \<Rightarrow> Inr ((user_of_row uid r)\<lparr>usrAdmin := None\<rparr>))"

definition repo_SelectDisabled :: "acc_faults \<Rightarrow> uuid \<Rightarrow> accounts_state \<Rightarrow> account_error + bool" where
  "repo_SelectDisabled faults uid st =
    (if \<not> IsUUIDV7 uid then Inl UInvalidUserID
     else if faults SSelectDisabled then Inl UQueryFailed
     else case user_row_of uid st of None \<Rightarrow> Inl (UNotFound uid) | Some r \<Rightarrow> Inr (rowDisabled r))"

text \<open>\<open>enabledAdministrator\<close>; the provider to count without, or None.\<close>

definition enabledAdministrator :: "uuid option \<Rightarrow> accounts_state \<Rightarrow> uuid \<Rightarrow> user_row \<Rightarrow> bool" where
  "enabledAdministrator without st uid r =
    (rowAdmin r \<and> \<not> rowDisabled r
     \<and> (rowLocalAccount r
        \<or> list_ex (\<lambda>i. idnUser i = uid \<and> without \<noteq> Some (idnIDP i)
            \<and> (case map_of (acIdps st) (idnIDP i) of None \<Rightarrow> False | Some p \<Rightarrow> idpEnabled p)) (acIdentities st)))"

definition enabled_administrators :: "uuid option \<Rightarrow> accounts_state \<Rightarrow> uuid list" where
  "enabled_administrators without st = [uid. (uid, r) \<leftarrow> acUsers st, enabledAdministrator without st uid r]"

definition CountEnabledAdministrators :: "acc_faults \<Rightarrow> accounts_state \<Rightarrow> account_error + int" where
  "CountEnabledAdministrators faults st =
    (if faults SCount then Inl UQueryFailed else Inr (int (length (enabled_administrators None st))))"

definition CountEnabledAdministratorsWithout :: "acc_faults \<Rightarrow> uuid \<Rightarrow> accounts_state \<Rightarrow> account_error + int" where
  "CountEnabledAdministratorsWithout faults idp st =
    (if idp = uuid_nil then Inl (UInvalidInput [] ''the administrators were counted without a provider that was not named'')
     else if faults SCount then Inl UQueryFailed
     else Inr (int (length (enabled_administrators (Some idp) st))))"

definition IsEnabledAdministrator :: "acc_faults \<Rightarrow> uuid \<Rightarrow> accounts_state \<Rightarrow> account_error + bool" where
  "IsEnabledAdministrator faults uid st =
    (if uid = uuid_nil then Inl (UInvalidInput [] ''an account was asked about that was not named'')
     else if faults SIsEnabled then Inl UQueryFailed
     else Inr (uid \<in> set (enabled_administrators None st)))"

text \<open>
  \<open>Insert\<close>, one transaction: the row, the roles assigned to every account,
  and the provider identity of a first sign-in, stored only while the
  provider is as the sign-in used it.
\<close>

definition repo_Insert ::
  "'a text_env_scheme \<Rightarrow> acc_faults \<Rightarrow> InsertUserInput \<Rightarrow> accounts_state \<Rightarrow> account_error option \<times> accounts_state" where
  "repo_Insert env faults i0 st =
    (case InsertUserInput_Validate env i0 of
       Inl e \<Rightarrow> (Some (UValidation e), st)
     | Inr i \<Rightarrow>
       let disabled = (insDisabled i = Some True);
           row = \<lparr>rowFirstName = insFirstName i, rowLastName = insLastName i, rowEmail = insEmail i,
             rowPasswordHash = insPasswordHash i, rowDisabled = disabled, rowDisabledByAdmin = (disabled \<and> insDisabledByAdmin i),
             rowVerified = (insVerified i = Some True), rowAdmin = False, rowLocalAccount = (insLocalAccount i = Some True)\<rparr>;
           st1 = set_row (insID i) row st;
           st2 = st1\<lparr>acUsersRoles := map (\<lambda>role. (insID i, role)) (acAutoRoles st1) @ acUsersRoles st1\<rparr>
       in if faults SInsert then (Some UQueryFailed, st)
          else if user_row_of (insID i) st \<noteq> None then (Some (UAlreadyExistsID (insID i)), st)
          else if list_ex (\<lambda>(_, r). rowEmail r = insEmail i) (acUsers st) then (Some (UAlreadyExistsEmail (insEmail i)), st)
          else if faults SInsertRoles then (Some UQueryFailed, st)
          else (case insIdentity i of
              None \<Rightarrow> if faults SCommit then (Some UQueryFailed, st) else (None, st2)
            | Some identity \<Rightarrow>
                if faults SInsertIdentity then (Some UQueryFailed, st)
                else (case map_of (acIdps st2) (idIDPID identity) of
                    None \<Rightarrow> (Some UIDPChangedDuringSignIn, st)
                  | Some p \<Rightarrow>
                      if idpType p \<noteq> idIDPTypeID identity \<or> idpIssuerURL p \<noteq> idIssuerURL identity then (Some UIDPChangedDuringSignIn, st)
                      else if list_ex (\<lambda>n. idnIDP n = idIDPID identity
                          \<and> (idnSubject n = idSubject identity \<or> idnUser n = idUserID identity)) (acIdentities st2)
                      then (Some UIdentityAlreadyLinked, st)
                      else if faults SCommit then (Some UQueryFailed, st)
                      else (None, st2\<lparr>acIdentities := \<lparr>idnUser = idUserID identity, idnIDP = idIDPID identity,
                             idnSubject = idSubject identity, idnEmail = idEmail identity\<rparr> # acIdentities st2\<rparr>))))"

text \<open>
  The SET list of \<open>UpdateByID\<close>: an empty text leaves the column, \<open>$8\<close> is the
  lock and \<open>$6\<close> the body's \<open>disabled\<close>, both against the row as it was.
\<close>

definition text_arg :: "string option \<Rightarrow> string \<Rightarrow> string" where
  "text_arg v old = (case v of None \<Rightarrow> old | Some s \<Rightarrow> if s \<noteq> [] then s else old)"

definition updated_row :: "UpdateUserInput \<Rightarrow> user_row \<Rightarrow> user_row" where
  "updated_row i r =
    r\<lparr>rowFirstName := text_arg (upFirstName i) (rowFirstName r),
      rowLastName := text_arg (upLastName i) (rowLastName r),
      rowEmail := text_arg (upEmail i) (rowEmail r),
      rowPasswordHash := text_arg (upPasswordHash i) (rowPasswordHash r),
      rowDisabled := (if upDisabledByAdmin i = Some True then True
          else if upDisabledByAdmin i = Some False \<and> rowDisabledByAdmin r
          then (case upDisabled i of None \<Rightarrow> \<not> rowVerified r | Some d \<Rightarrow> d)
          else (case upDisabled i of None \<Rightarrow> rowDisabled r | Some d \<Rightarrow> d)),
      rowDisabledByAdmin := (case upDisabledByAdmin i of Some l \<Rightarrow> l
        | None \<Rightarrow> (case upDisabled i of None \<Rightarrow> rowDisabledByAdmin r
            | Some d \<Rightarrow> if d = rowDisabled r then rowDisabledByAdmin r else d)),
      rowLocalAccount := (case upLocalAccount i of None \<Rightarrow> rowLocalAccount r | Some l \<Rightarrow> l),
      rowAdmin := (case upAdmin i of None \<Rightarrow> rowAdmin r | Some a \<Rightarrow> a)\<rparr>"

definition repo_UpdateByID ::
  "'a text_env_scheme \<Rightarrow> acc_faults \<Rightarrow> UpdateUserInput \<Rightarrow> accounts_state \<Rightarrow> account_error option \<times> accounts_state" where
  "repo_UpdateByID env faults i0 st =
    (case UpdateUserInput_Validate env i0 of
       Inl e \<Rightarrow> (Some e, st)
     | Inr i \<Rightarrow>
       if faults SUpdate then (Some UQueryFailed, st)
       else case user_row_of (upID i) st of
         None \<Rightarrow> (Some (UNotFound (upID i)), st)
       | Some r \<Rightarrow>
           let r' = updated_row i r in
           if upID i = bootstrap_administrator \<and> rowAdmin r \<and> \<not> rowAdmin r'
           then (Some (UAdministratorProtected ''stripped of the admin flag'' ''the bootstrap administrator''), st)
           else if list_ex (\<lambda>(k, q). k \<noteq> upID i \<and> rowEmail q = rowEmail r') (acUsers st)
           then (Some (UAlreadyExistsEmail (rowEmail r')), st)
           else (None, set_row (upID i) r' st))"

definition repo_Verify :: "acc_faults \<Rightarrow> uuid \<Rightarrow> string \<Rightarrow> accounts_state \<Rightarrow> account_error option \<times> accounts_state" where
  "repo_Verify faults uid address st =
    (if uid = uuid_nil then (Some UInvalidUserID, st)
     else if faults SVerify then (Some UQueryFailed, st)
     else case user_row_of uid st of
       None \<Rightarrow> (Some (UNotFound uid), st)
     | Some r \<Rightarrow>
         if rowEmail r = address \<and> \<not> rowVerified r
         then (None, set_row uid (r\<lparr>rowVerified := True,
                 rowDisabled := (if rowDisabledByAdmin r \<or> rowAdmin r then rowDisabled r else False)\<rparr>) st)
         else (Some (UNotFound uid), st))"

definition repo_ResetPassword :: "acc_faults \<Rightarrow> uuid \<Rightarrow> string \<Rightarrow> string \<Rightarrow> accounts_state \<Rightarrow> account_error option \<times> accounts_state" where
  "repo_ResetPassword faults uid address hash st =
    (if \<not> IsUUIDV7 uid then (Some UInvalidUserID, st)
     else if faults SReset then (Some UQueryFailed, st)
     else case user_row_of uid st of
       None \<Rightarrow> (Some (UNotFound uid), st)
     | Some r \<Rightarrow>
         if rowEmail r = address \<and> rowLocalAccount r \<and> \<not> rowDisabled r
         then (None, set_row uid (r\<lparr>rowPasswordHash := hash\<rparr>) st)
         else (Some (UNotFound uid), st))"

text \<open>
  The delete cascades to the account's identities and roles; the seeded
  account's own role link refuses it (\<open>fn_protect_bootstrap_links\<close>).
\<close>

definition repo_DeleteByID :: "acc_faults \<Rightarrow> DeleteUserInput \<Rightarrow> accounts_state \<Rightarrow> account_error option \<times> accounts_state" where
  "repo_DeleteByID faults i st =
    (case DeleteUserInput_Validate i of
       Some e \<Rightarrow> (Some (UValidation e), st)
     | None \<Rightarrow>
       if faults SDelete then (Some UQueryFailed, st)
       else if user_row_of (delID i) st = None then (Some (UNotFound (delID i)), st)
       else if delID i = bootstrap_administrator
       then (Some (UAdministratorProtected ''deleted'' ''the bootstrap administrator''), st)
       else (None, st\<lparr>acUsers := filter (\<lambda>(k, _). k \<noteq> delID i) (acUsers st),
              acIdentities := filter (\<lambda>n. idnUser n \<noteq> delID i) (acIdentities st),
              acUsersRoles := filter (\<lambda>(k, _). k \<noteq> delID i) (acUsersRoles st)\<rparr>))"

section \<open>Who is the administrator account\<close>

definition hasAdminFlag :: "User option \<Rightarrow> bool" where
  "hasAdminFlag account = (case account of None \<Rightarrow> False | Some u \<Rightarrow> usrAdmin u = Some True)"

definition isDisabled :: "User option \<Rightarrow> bool" where
  "isDisabled account = (case account of None \<Rightarrow> False | Some u \<Rightarrow> usrDisabled u = Some True)"

definition isAdministratorAccount :: "acc_faults \<Rightarrow> uuid \<Rightarrow> accounts_state \<Rightarrow> account_error + bool" where
  "isAdministratorAccount faults uid st =
    (if uid = uuid_nil then Inl UAdministratorChangeWithoutCaller
     else case repo_SelectByID faults uid st of
       Inl (UNotFound _) \<Rightarrow> Inr False
     | Inl e \<Rightarrow> Inl e
     | Inr caller \<Rightarrow> Inr (hasAdminFlag (Some caller) \<and> \<not> isDisabled (Some caller)))"

definition guardAdministrator ::
  "acc_faults \<Rightarrow> User option \<Rightarrow> uuid \<Rightarrow> string \<Rightarrow> bool \<Rightarrow> accounts_state \<Rightarrow> account_error option" where
  "guardAdministrator faults target callerID action locks st =
    (if \<not> hasAdminFlag target then None
     else case isAdministratorAccount faults callerID st of
       Inl e \<Rightarrow> Some e
     | Inr asked \<Rightarrow>
         if \<not> asked then Some (UAdministratorProtected action ''the administrator account'')
         else if \<not> locks then None
         else case IsEnabledAdministrator faults (usrID (the target)) st of
           Inl e \<Rightarrow> Some e
         | Inr signsIn \<Rightarrow>
             if \<not> signsIn then None
             else case CountEnabledAdministrators faults st of
               Inl e \<Rightarrow> Some e
             | Inr enabled \<Rightarrow>
                 if enabled \<le> 1 then Some (UAdministratorProtected action ''the last enabled administrator account'') else None)"

section \<open>What an update may change\<close>

definition callerIsAdministrator :: "acc_faults \<Rightarrow> uuid \<Rightarrow> accounts_state \<Rightarrow> account_error + bool" where
  "callerIsAdministrator faults callerID st =
    (case repo_SelectByID faults callerID st of
       Inl (UNotFound _) \<Rightarrow> Inr False
     | Inl e \<Rightarrow> Inl e
     | Inr caller \<Rightarrow> Inr (hasAdminFlag (Some caller) \<and> \<not> isDisabled (Some caller)))"

definition sameAddress :: "'a text_env_scheme \<Rightarrow> string \<Rightarrow> string \<Rightarrow> bool" where
  "sameAddress env stored sent =
    (if stored = sent then True
     else case ValidateEmail env stored ''email'' of Inl _ \<Rightarrow> False | Inr spelled \<Rightarrow> spelled = sent)"

definition touchesSignIn :: "UpdateUserInput \<Rightarrow> bool" where
  "touchesSignIn i = (upDisabled i \<noteq> None \<or> upDisabledByAdmin i \<noteq> None \<or> upLocalAccount i \<noteq> None)"

definition addressMayChange ::
  "'a text_env_scheme \<Rightarrow> acc_faults \<Rightarrow> UpdateUserInput \<Rightarrow> accounts_state \<Rightarrow> account_error + UpdateUserInput" where
  "addressMayChange env faults i st =
    and_then (repo_SelectByID faults (upID i) st) (\<lambda>stored.
      if Some (usrEmail stored) = upEmail i then Inr (i\<lparr>upEmail := None\<rparr>)
      else if sameAddress env (usrEmail stored) (the (upEmail i)) then
        and_then (if upCallerID i \<noteq> uuid_nil then callerIsAdministrator faults (upCallerID i) st else Inr False)
          (\<lambda>respells. Inr (if respells then i else i\<lparr>upEmail := None\<rparr>))
      else if upCallerID i = uuid_nil then Inl UAddressChangeWithoutCaller
      else and_then (callerIsAdministrator faults (upCallerID i) st)
        (\<lambda>asked. if asked then Inr i else Inl (UAdministratorOnly ''email'')))"

definition lockMayChange :: "UpdateUserInput \<Rightarrow> User \<Rightarrow> UpdateUserInput \<times> account_error option" where
  "lockMayChange i stored =
    (case upDisabledByAdmin i of
       None \<Rightarrow> (i, None)
     | Some lock \<Rightarrow>
       let (i1, twoDirections) =
         (case upDisabled i of
            None \<Rightarrow> (i, None)
          | Some d \<Rightarrow>
              if d = isDisabled (Some stored) then (i\<lparr>upDisabled := None\<rparr>, None)
              else if d \<noteq> lock then (i, Some (UInvalidInput ''disabled_by_admin'' ''disabled and disabled_by_admin change the account in two directions''))
              else (i, None))
       in (if lock = (usrDisabledByAdmin stored = Some True) then i1\<lparr>upDisabledByAdmin := None\<rparr> else i1, twoDirections))"

definition flagMayChange :: "acc_faults \<Rightarrow> UpdateUserInput \<Rightarrow> User \<Rightarrow> accounts_state \<Rightarrow> account_error + UpdateUserInput" where
  "flagMayChange faults i stored st =
    (case upAdmin i of
       None \<Rightarrow> Inr i
     | Some admin \<Rightarrow>
       if admin = hasAdminFlag (Some stored) then Inr (i\<lparr>upAdmin := None\<rparr>)
       else and_then (isAdministratorAccount faults (upCallerID i) st) (\<lambda>asked.
         if \<not> asked then Inl (UAdministratorOnly ''admin'')
         else if admin then Inr i
         else and_then (fail_if (guardAdministrator faults (Some stored) (upCallerID i) ''stripped of the admin flag'' True st))
           (\<lambda>_. Inr i)))"

text \<open>The three parts of \<open>administratorSignInMayChange\<close>, in its order.\<close>

definition disabled_may_change :: "acc_faults \<Rightarrow> User \<Rightarrow> accounts_state \<Rightarrow> UpdateUserInput \<Rightarrow> account_error + UpdateUserInput" where
  "disabled_may_change faults stored st i =
    (case upDisabled i of
       None \<Rightarrow> Inr i
     | Some d \<Rightarrow>
       if d = isDisabled (Some stored) then Inr (i\<lparr>upDisabled := None\<rparr>)
       else if d then and_then (fail_if (guardAdministrator faults (Some stored) (upCallerID i) ''disabled'' True st)) (\<lambda>_. Inr i)
       else and_then (fail_if (guardAdministrator faults (Some stored) (upCallerID i) ''enabled'' False st)) (\<lambda>_. Inr i))"

definition lock_may_change :: "acc_faults \<Rightarrow> User \<Rightarrow> accounts_state \<Rightarrow> UpdateUserInput \<Rightarrow> account_error + UpdateUserInput" where
  "lock_may_change faults stored st i =
    (case upDisabledByAdmin i of
       None \<Rightarrow> Inr i
     | Some lock \<Rightarrow>
       and_then (fail_if (guardAdministrator faults (Some stored) (upCallerID i)
         (if lock then ''disabled'' else ''enabled'') lock st)) (\<lambda>_. Inr i))"

definition local_may_change :: "acc_faults \<Rightarrow> User \<Rightarrow> accounts_state \<Rightarrow> UpdateUserInput \<Rightarrow> account_error + UpdateUserInput" where
  "local_may_change faults stored st i =
    (case upLocalAccount i of
       None \<Rightarrow> Inr i
     | Some l \<Rightarrow>
       if l = (usrLocalAccount stored = Some True) then Inr (i\<lparr>upLocalAccount := None\<rparr>)
       else if \<not> l then and_then (fail_if (guardAdministrator faults (Some stored) (upCallerID i) ''made a federated account'' True st)) (\<lambda>_. Inr i)
       else and_then (fail_if (guardAdministrator faults (Some stored) (upCallerID i) ''made a local account'' False st)) (\<lambda>_. Inr i))"

definition administratorSignInMayChange ::
  "acc_faults \<Rightarrow> UpdateUserInput \<Rightarrow> User \<Rightarrow> accounts_state \<Rightarrow> account_error + UpdateUserInput" where
  "administratorSignInMayChange faults i stored st =
    (if \<not> hasAdminFlag (Some stored) then Inr i
     else and_then (disabled_may_change faults stored st i) (\<lambda>i.
       and_then (lock_may_change faults stored st i) (local_may_change faults stored st)))"

section \<open>The use case\<close>

text \<open>
  \<open>UpdateByID\<close> up to its write: everything it reads, what it refuses, and the
  input it hands to the statement.  The write is a statement of its own, on
  the tables as they are by then.
\<close>

definition sign_in_step :: "acc_faults \<Rightarrow> accounts_state \<Rightarrow> UpdateUserInput \<Rightarrow> account_error + UpdateUserInput" where
  "sign_in_step faults st i =
    and_then (repo_SelectByID faults (upID i) st) (\<lambda>stored.
      let (i1, twoDirections) = lockMayChange i stored in
      and_then (flagMayChange faults i1 stored st) (\<lambda>i2.
      and_then (administratorSignInMayChange faults i2 stored st) (\<lambda>i3.
      and_then (fail_if twoDirections) (\<lambda>_. Inr i3))))"

definition password_step :: "(string \<Rightarrow> string option) \<Rightarrow> UpdateUserInput \<Rightarrow> account_error + UpdateUserInput" where
  "password_step bcrypt i =
    (case upPassword i of
       None \<Rightarrow> Inr i
     | Some p \<Rightarrow>
       if int (length p) < ValidUserPasswordMinLength \<or> int (length p) > ValidUserPasswordMaxLength then Inl UInvalidUserPassword
       else case bcrypt p of None \<Rightarrow> Inl UHashFailed | Some h \<Rightarrow> Inr (i\<lparr>upPasswordHash := Some h\<rparr>))"

definition UpdateByID_checked ::
  "'a text_env_scheme \<Rightarrow> (string \<Rightarrow> string option) \<Rightarrow> acc_faults \<Rightarrow> UpdateUserInput option \<Rightarrow> accounts_state \<Rightarrow> account_error + UpdateUserInput" where
  "UpdateByID_checked env bcrypt faults input st =
    (case input of
       None \<Rightarrow> Inl (UInvalidInput [] ''input is nil'')
     | Some i0 \<Rightarrow>
       and_then (UpdateUserInput_Validate env i0) (\<lambda>i.
       and_then (if upEmail i \<noteq> None then addressMayChange env faults i st else Inr i) (\<lambda>i.
       and_then (if upAdmin i \<noteq> None \<or> touchesSignIn i then sign_in_step faults st i else Inr i) (password_step bcrypt))))"

definition UpdateByID ::
  "'a text_env_scheme \<Rightarrow> (string \<Rightarrow> string option) \<Rightarrow> acc_faults \<Rightarrow> UpdateUserInput option \<Rightarrow> accounts_state
    \<Rightarrow> account_error option \<times> accounts_state" where
  "UpdateByID env bcrypt faults input st =
    (case UpdateByID_checked env bcrypt faults input st of
       Inl e \<Rightarrow> (Some e, st)
     | Inr i \<Rightarrow> repo_UpdateByID env faults i st)"

definition Standing :: "acc_faults \<Rightarrow> uuid \<Rightarrow> accounts_state \<Rightarrow> account_error + AccountStanding" where
  "Standing faults uid st =
    (case repo_SelectDisabled faults uid st of
       Inl (UNotFound _) \<Rightarrow> Inr AccountMissing
     | Inl e \<Rightarrow> Inl e
     | Inr disabled \<Rightarrow> Inr (if disabled then AccountDisabled else AccountActive))"

definition withoutCredentials :: "User \<Rightarrow> User" where
  "withoutCredentials u = u\<lparr>usrPasswordHash := []\<rparr>"

text \<open>
  The cached reads.  \<open>cache\<close> is None when caching is off, otherwise what the
  cache holds under each key: a hit is answered as it is, however old.
\<close>

definition GetByID ::
  "(string \<Rightarrow> User option) option \<Rightarrow> acc_faults \<Rightarrow> uuid \<Rightarrow> accounts_state \<Rightarrow> account_error + User" where
  "GetByID cache faults uid st =
    (if \<not> IsUUIDV7 uid then Inl UInvalidUserID
     else case cache of
       None \<Rightarrow> map_sum (\<lambda>e. e) withoutCredentials (repo_SelectByID faults uid st)
     | Some held \<Rightarrow> (case held (uuid_string uid) of
         Some u \<Rightarrow> Inr u
       | None \<Rightarrow> map_sum (\<lambda>e. e) withoutCredentials (repo_SelectByID faults uid st)))"

definition GetByEmail ::
  "'a text_env_scheme \<Rightarrow> (string \<Rightarrow> User option) option \<Rightarrow> acc_faults \<Rightarrow> string \<Rightarrow> accounts_state \<Rightarrow> account_error + User" where
  "GetByEmail env cache faults email st =
    (if email = [] then Inl (UInvalidEmail email)
     else case cache of
       None \<Rightarrow> map_sum (\<lambda>e. e) withoutCredentials (repo_SelectByEmail env faults email st)
     | Some held \<Rightarrow> (case held email of
         Some u \<Rightarrow> Inr u
       | None \<Rightarrow> map_sum (\<lambda>e. e) withoutCredentials (repo_SelectByEmail env faults email st)))"

definition GetByEmailForAuth ::
  "'a text_env_scheme \<Rightarrow> acc_faults \<Rightarrow> string \<Rightarrow> accounts_state \<Rightarrow> account_error + User" where
  "GetByEmailForAuth env faults email st =
    (if email = [] then Inl (UInvalidEmail email) else repo_SelectByEmail env faults email st)"

definition StoredAccount :: "acc_faults \<Rightarrow> uuid \<Rightarrow> accounts_state \<Rightarrow> account_error + User" where
  "StoredAccount faults uid st = map_sum (\<lambda>e. e) withoutCredentials (repo_SelectByID faults uid st)"

definition whyNotVerified :: "acc_faults \<Rightarrow> uuid \<Rightarrow> account_error \<Rightarrow> accounts_state \<Rightarrow> account_error" where
  "whyNotVerified faults uid notFound st =
    (case repo_SelectByID faults uid st of
       Inl (UNotFound _) \<Rightarrow> notFound
     | Inl e \<Rightarrow> e
     | Inr stored \<Rightarrow> if usrVerified stored = Some True then UAlreadyVerified uid else UAddressIsNotTheAccounts)"

definition Verify :: "acc_faults \<Rightarrow> uuid \<Rightarrow> string \<Rightarrow> accounts_state \<Rightarrow> account_error option \<times> accounts_state" where
  "Verify faults uid address st =
    (case repo_Verify faults uid address st of
       (Some (UNotFound k), st1) \<Rightarrow> (Some (whyNotVerified faults uid (UNotFound k) st1), st1)
     | r \<Rightarrow> r)"

definition ResetPassword_account :: "acc_faults \<Rightarrow> uuid \<Rightarrow> string \<Rightarrow> string \<Rightarrow> accounts_state \<Rightarrow> account_error option \<times> accounts_state" where
  "ResetPassword_account faults uid address hash st = repo_ResetPassword faults uid address hash st"

text \<open>
  \<open>Create\<close> and \<open>DeleteByID\<close> also keep the usage counter of the system scope;
  \<open>tbl_users\<close> of the limits is the number of rows of \<open>users\<close>.
\<close>

type_synonym service_state = "accounts_state \<times> limits_state"

definition system_scope :: ResourcesLimitsScope where
  "system_scope = \<lparr>scID = None, scType = ''system''\<rparr>"

definition with_users :: "accounts_state \<Rightarrow> limits_state \<Rightarrow> limits_state" where
  "with_users st db = db\<lparr>tbl_users := length (acUsers st)\<rparr>"

definition Create ::
  "'a text_env_scheme \<Rightarrow> (string \<Rightarrow> string option) \<Rightarrow> ecdsa \<Rightarrow> uuid \<Rightarrow> acc_faults \<Rightarrow> pg_faults \<Rightarrow> pg_faults
    \<Rightarrow> InsertUserInput option \<Rightarrow> service_state \<Rightarrow> account_error option \<times> service_state" where
  "Create env bcrypt key fresh faults reserve_faults release_faults input s =
    (case input of
       None \<Rightarrow> (Some (UInvalidInput [] ''input is nil''), s)
     | Some i0 \<Rightarrow>
       (case InsertUserInput_Validate env (i0\<lparr>insID := EnsureUUIDV7 fresh (insID i0)\<rparr>) of
          Inl e \<Rightarrow> (Some (UValidation e), s)
        | Inr i \<Rightarrow>
          (case ReserveResourceSlot key reserve_faults system_scope ''users'' (snd s) of
             (Some e, db) \<Rightarrow> (Some (ULimits e), fst s, db)
           | (None, db) \<Rightarrow>
             (case bcrypt (insPassword i) of
                None \<Rightarrow> (Some UHashFailed, fst s, ReleaseResourceSlot key release_faults system_scope ''users'' db)
              | Some h \<Rightarrow>
                (case repo_Insert env faults (i\<lparr>insPasswordHash := h\<rparr>) (fst s) of
                   (Some e, st) \<Rightarrow> (Some e, st, ReleaseResourceSlot key release_faults system_scope ''users'' db)
                 | (None, st) \<Rightarrow> (None, st, with_users st db))))))"

definition DeleteByID ::
  "ecdsa \<Rightarrow> acc_faults \<Rightarrow> pg_faults \<Rightarrow> DeleteUserInput \<Rightarrow> service_state \<Rightarrow> account_error option \<times> service_state" where
  "DeleteByID key faults limit_faults i s =
    (if delID i = uuid_nil then (Some (UInvalidInput [] ''input is nil''), s)
     else case (case repo_SelectByID faults (delID i) (fst s) of
           Inl (UNotFound _) \<Rightarrow> Inr None | Inl e \<Rightarrow> Inl e | Inr u \<Rightarrow> Inr (Some u)) of
       Inl e \<Rightarrow> (Some e, s)
     | Inr stored \<Rightarrow>
       (case guardAdministrator faults stored (delCallerID i) ''deleted'' True (fst s) of
          Some e \<Rightarrow> (Some e, s)
        | None \<Rightarrow>
          (case repo_DeleteByID faults i (fst s) of
             (Some e, st) \<Rightarrow> (Some e, st, snd s)
           | (None, st) \<Rightarrow>
             (case DecrementUsage key limit_faults system_scope ''users'' (with_users st (snd s)) of
                (Some e, db) \<Rightarrow> (Some (ULimits e), st, db)
              | (None, db) \<Rightarrow> (None, st, db)))))"

end
