(* ===== verification/AccountsRules.thy ===== *)
theory AccountsRules
  imports Accounts
begin

text \<open>
  What the rules of \<open>usecase/users.go\<close> and \<open>administrator_account.go\<close> keep:
  whose fields a caller without the \<open>admin\<close> flag can write, the last
  administrator account that can sign in, the lock, and the usage counter.
\<close>

section \<open>The tables stay well formed\<close>

definition acts_as_administrator :: "uuid \<Rightarrow> accounts_state \<Rightarrow> bool" where
  "acts_as_administrator c st = (case user_row_of c st of None \<Rightarrow> False | Some r \<Rightarrow> rowAdmin r \<and> \<not> rowDisabled r)"

definition accounts_wf :: "accounts_state \<Rightarrow> bool" where
  "accounts_wf st = (distinct (map fst (acUsers st))
     \<and> (\<forall>k r. user_row_of k st = Some r \<longrightarrow> rowDisabledByAdmin r \<longrightarrow> rowDisabled r))"

lemma user_row_of_mem: "distinct (map fst (acUsers st)) \<Longrightarrow> (k, r) \<in> set (acUsers st) \<longleftrightarrow> user_row_of k st = Some r"
  by (simp add: user_row_of_def)

lemma enabled_administrators_mem:
  "distinct (map fst (acUsers st)) \<Longrightarrow>
   k \<in> set (enabled_administrators w st) \<longleftrightarrow> (\<exists>r. user_row_of k st = Some r \<and> enabledAdministrator w st k r)"
  by (force simp: enabled_administrators_def user_row_of_mem)

lemma enabled_administrators_distinct:
  "distinct (map fst xs) \<Longrightarrow> distinct [k. (k, r) \<leftarrow> xs, P k r]"
  by (induction xs) (force split: if_splits)+

lemma two_enabled:
  assumes "distinct (map fst (acUsers st))" "1 < length (enabled_administrators w st)"
  shows "\<exists>k r. k \<noteq> u \<and> user_row_of k st = Some r \<and> enabledAdministrator w st k r"
proof -
  have "distinct (enabled_administrators w st)"
    unfolding enabled_administrators_def using assms(1) by (rule enabled_administrators_distinct)
  then have "\<not> set (enabled_administrators w st) \<subseteq> {u}"
    using assms(2) by (metis distinct_card card_mono finite.emptyI finite.insertI card.empty card_insert_disjoint
      empty_iff not_less One_nat_def)
  then show ?thesis using enabled_administrators_mem[OF assms(1)] by auto
qed

lemma enabledAdministrator_set_row: "enabledAdministrator w (set_row u r st) k q = enabledAdministrator w st k q"
  by (simp add: enabledAdministrator_def set_row_def)

lemma set_row_wf:
  "accounts_wf st \<Longrightarrow> (rowDisabledByAdmin r \<longrightarrow> rowDisabled r) \<Longrightarrow> accounts_wf (set_row u r st)"
  by (auto simp: accounts_wf_def set_row_def distinct_update user_row_of_def update_conv split: if_splits)

lemma updated_row_lock:
  "(rowDisabledByAdmin r \<longrightarrow> rowDisabled r) \<Longrightarrow> rowDisabledByAdmin (updated_row i r) \<longrightarrow> rowDisabled (updated_row i r)"
  by (auto simp: updated_row_def split: option.splits if_splits)

lemma repo_UpdateByID_cases:
  assumes "repo_UpdateByID env faults i st = (err, st')"
  shows "(\<exists>e. err = Some e \<and> st' = st) \<or>
    (\<exists>j r. err = None \<and> UpdateUserInput_Validate env i = Inr j \<and> user_row_of (upID j) st = Some r
       \<and> st' = set_row (upID j) (updated_row j r) st)"
  using assms by (auto simp: repo_UpdateByID_def Let_def split: sum.splits option.splits if_splits)

lemma UpdateUserInput_Validate_keeps:
  assumes "UpdateUserInput_Validate env i = Inr j"
  shows "upID j = upID i \<and> upCallerID j = upCallerID i \<and> upDisabled j = upDisabled i \<and> upDisabledByAdmin j = upDisabledByAdmin i
    \<and> upLocalAccount j = upLocalAccount i \<and> upAdmin j = upAdmin i \<and> (upEmail j = None \<longleftrightarrow> upEmail i = None) \<and> IsUUIDV7 (upID i)
    \<and> upPasswordHash j = upPasswordHash i"
proof -
  let ?e0 = "Add [] (ValidateUUID (upID i) 7 ''id'')"
  obtain e1 first where 1: "check_opt (\<lambda>s. ValidateString s (name_options ''first_name'')) (upFirstName i) ?e0 = (e1, first)" by fastforce
  obtain e2 last where 2: "check_opt (\<lambda>s. ValidateString s (name_options ''last_name'')) (upLastName i) e1 = (e2, last)" by fastforce
  obtain e3 email where 3: "check_opt (\<lambda>s. ValidateEmail env s ''email'') (upEmail i) e2 = (e3, email)" by fastforce
  have j: "j = i\<lparr>upFirstName := first, upLastName := last, upEmail := email\<rparr>"
    using assms 1 2 3 by (simp add: UpdateUserInput_Validate_def Let_def split: if_splits)
  have grows: "\<exists>x. fst (check_opt f v e) = e @ x" for f v e
  proof (cases v)
    case (Some s)
    then show ?thesis by (cases "f s") (auto simp: check_opt_def check_field_def)
  qed (simp add: check_opt_def)
  have nil: "e3 = []"
  proof -
    define e4 where "e4 = (case upPasswordHash i of None \<Rightarrow> e3 | Some h \<Rightarrow> if h \<noteq> [] then Add e3 (err_of (ValidateString h hash_options)) else e3)"
    define e5 where "e5 = (case upPassword i of None \<Rightarrow> e4 | Some p \<Rightarrow> if p \<noteq> [] then Add e4 (ValidatePassword env p ''password'') else e4)"
    have "\<not> HasErrors e5" unfolding e5_def e4_def
      using assms 1 2 3 by (simp add: UpdateUserInput_Validate_def Let_def split: if_splits)
    moreover have "\<exists>x. e5 = e4 @ x" unfolding e5_def using Add_eq_append[of e4] by (auto split: option.split)
    moreover have "\<exists>y. e4 = e3 @ y" unfolding e4_def using Add_eq_append[of e3] by (auto split: option.split)
    ultimately show ?thesis by (auto simp: HasErrors_def)
  qed
  then have "e2 = []" "e1 = []" "?e0 = []"
    using grows[of "\<lambda>s. ValidateEmail env s ''email''" "upEmail i" e2]
      grows[of "\<lambda>s. ValidateString s (name_options ''last_name'')" "upLastName i" e1]
      grows[of "\<lambda>s. ValidateString s (name_options ''first_name'')" "upFirstName i" ?e0] 1 2 3 by auto
  then have "ValidateUUID (upID i) 7 ''id'' = None"
    by (cases "ValidateUUID (upID i) 7 ''id''") (auto simp: ValidateUUID_def split: if_splits)
  moreover have "email = None \<longleftrightarrow> upEmail i = None"
    using 3 by (auto simp: check_opt_def Let_def split: option.splits prod.splits)
  ultimately show ?thesis using j by simp
qed

section \<open>Who asks\<close>

lemma isAdministratorAccount_Inr:
  "isAdministratorAccount faults c st = Inr b \<Longrightarrow> b = acts_as_administrator c st"
  by (auto simp: isAdministratorAccount_def repo_SelectByID_def acts_as_administrator_def user_of_row_def
      hasAdminFlag_def isDisabled_def split: if_splits option.splits sum.splits account_error.splits)

lemma callerIsAdministrator_Inr:
  "callerIsAdministrator faults c st = Inr b \<Longrightarrow> b = acts_as_administrator c st"
  by (auto simp: callerIsAdministrator_def repo_SelectByID_def acts_as_administrator_def user_of_row_def
      hasAdminFlag_def isDisabled_def split: if_splits option.splits sum.splits account_error.splits)

lemma guard_asks: "guardAdministrator faults t c action locks st = None \<Longrightarrow> hasAdminFlag t \<Longrightarrow> acts_as_administrator c st"
  by (auto simp: guardAdministrator_def dest: isAdministratorAccount_Inr split: sum.splits if_splits)

lemma guard_counts:
  assumes "guardAdministrator faults (Some (user_of_row u r)) c action True st = None" "u \<in> set (enabled_administrators None st)" "rowAdmin r"
  shows "1 < length (enabled_administrators None st)"
  using assms
  by (auto simp: guardAdministrator_def hasAdminFlag_def user_of_row_def IsEnabledAdministrator_def CountEnabledAdministrators_def
      split: sum.splits if_splits)

lemma flag_of_row [simp]: "hasAdminFlag (Some (user_of_row u r)) = rowAdmin r" "isDisabled (Some (user_of_row u r)) = rowDisabled r"
  "usrDisabledByAdmin (user_of_row u r) = Some (rowDisabledByAdmin r)" "usrLocalAccount (user_of_row u r) = Some (rowLocalAccount r)"
  "usrEmail (user_of_row u r) = rowEmail r" "usrID (user_of_row u r) = u"
  by (simp_all add: hasAdminFlag_def isDisabled_def user_of_row_def)

lemma SelectByID_Inr: "repo_SelectByID faults u st = Inr x \<Longrightarrow> \<exists>r. user_row_of u st = Some r \<and> x = user_of_row u r"
  by (auto simp: repo_SelectByID_def split: if_splits option.splits)

lemma addressMayChange_cases:
  assumes "addressMayChange env faults i st = Inr j"
  shows "j = i\<lparr>upEmail := None\<rparr> \<or> (j = i \<and> acts_as_administrator (upCallerID i) st)"
  using assms
  by (auto simp: addressMayChange_def and_then_Inr dest!: callerIsAdministrator_Inr split: if_splits)

section \<open>The checks of an update\<close>

lemma lockMayChange_facts:
  assumes "lockMayChange i (user_of_row u r) = (j, two)"
  shows "upEmail j = upEmail i \<and> upAdmin j = upAdmin i \<and> upLocalAccount j = upLocalAccount i \<and> upID j = upID i
    \<and> upCallerID j = upCallerID i \<and> (upDisabled j = upDisabled i \<or> upDisabled j = None)
    \<and> (upDisabledByAdmin j = upDisabledByAdmin i \<or> upDisabledByAdmin j = None)"
  using assms by (auto simp: lockMayChange_def split: option.splits if_splits)

lemma flagMayChange_cases:
  assumes "flagMayChange faults i (user_of_row u r) st = Inr j"
  shows "(j = i \<and> upAdmin i = None) \<or> j = i\<lparr>upAdmin := None\<rparr> \<or>
    (j = i \<and> acts_as_administrator (upCallerID i) st
      \<and> (upAdmin i = Some False \<longrightarrow> rowAdmin r
          \<and> guardAdministrator faults (Some (user_of_row u r)) (upCallerID i) ''stripped of the admin flag'' True st = None))"
  using assms
  by (auto simp: flagMayChange_def and_then_Inr dest!: isAdministratorAccount_Inr split: option.splits if_splits)

text \<open>A value of the sign-in that is left in the input was let through by the guard.\<close>

definition guarded :: "acc_faults \<Rightarrow> uuid \<Rightarrow> user_row \<Rightarrow> accounts_state \<Rightarrow> uuid \<Rightarrow> bool \<Rightarrow> bool" where
  "guarded faults u r st c locks = (\<exists>action. guardAdministrator faults (Some (user_of_row u r)) c action locks st = None)"

lemma disabled_may_change_cases:
  assumes "disabled_may_change faults (user_of_row u r) st i = Inr j"
  shows "(j = i \<and> upDisabled i = None) \<or> j = i\<lparr>upDisabled := None\<rparr>
    \<or> (\<exists>d. j = i \<and> upDisabled i = Some d \<and> guarded faults u r st (upCallerID i) d)"
  using assms by (auto simp: disabled_may_change_def and_then_Inr guarded_def split: option.splits if_splits)

lemma lock_may_change_cases:
  assumes "lock_may_change faults (user_of_row u r) st i = Inr j"
  shows "(j = i \<and> upDisabledByAdmin i = None)
    \<or> (\<exists>d. j = i \<and> upDisabledByAdmin i = Some d \<and> guarded faults u r st (upCallerID i) d)"
  using assms by (auto simp: lock_may_change_def and_then_Inr guarded_def split: option.splits if_splits)

lemma local_may_change_cases:
  assumes "local_may_change faults (user_of_row u r) st i = Inr j"
  shows "(j = i \<and> upLocalAccount i = None) \<or> j = i\<lparr>upLocalAccount := None\<rparr>
    \<or> (\<exists>l. j = i \<and> upLocalAccount i = Some l \<and> guarded faults u r st (upCallerID i) (\<not> l))"
  using assms by (auto simp: local_may_change_def and_then_Inr guarded_def split: option.splits if_splits)

lemma signIn_cases:
  assumes "administratorSignInMayChange faults i (user_of_row u r) st = Inr j"
  shows "upEmail j = upEmail i \<and> upAdmin j = upAdmin i \<and> upID j = upID i \<and> upCallerID j = upCallerID i
    \<and> (\<not> rowAdmin r \<longrightarrow> j = i)
    \<and> (rowAdmin r \<longrightarrow>
        (\<forall>d. upDisabled j = Some d \<longrightarrow> guarded faults u r st (upCallerID i) d)
      \<and> (\<forall>d. upDisabledByAdmin j = Some d \<longrightarrow> guarded faults u r st (upCallerID i) d)
      \<and> (\<forall>l. upLocalAccount j = Some l \<longrightarrow> guarded faults u r st (upCallerID i) (\<not> l)))"
proof (cases "rowAdmin r")
  case False with assms show ?thesis by (simp add: administratorSignInMayChange_def)
next
  case True
  then obtain a b where abc: "disabled_may_change faults (user_of_row u r) st i = Inr a"
    "lock_may_change faults (user_of_row u r) st a = Inr b" "local_may_change faults (user_of_row u r) st b = Inr j"
    using assms by (auto simp: administratorSignInMayChange_def and_then_Inr)
  show ?thesis
    using True disabled_may_change_cases[OF abc(1)] lock_may_change_cases[OF abc(2)] local_may_change_cases[OF abc(3)] by auto
qed

lemma sign_in_step_cases:
  assumes "sign_in_step faults st i = Inr j"
  shows "\<exists>r. user_row_of (upID i) st = Some r \<and> upEmail j = upEmail i \<and> upID j = upID i \<and> upCallerID j = upCallerID i
    \<and> (\<forall>a. upAdmin j = Some a \<longrightarrow> acts_as_administrator (upCallerID i) st
         \<and> (\<not> a \<longrightarrow> rowAdmin r \<and> guarded faults (upID i) r st (upCallerID i) True))
    \<and> (rowAdmin r \<longrightarrow>
        (\<forall>d. upDisabled j = Some d \<longrightarrow> guarded faults (upID i) r st (upCallerID i) d)
      \<and> (\<forall>d. upDisabledByAdmin j = Some d \<longrightarrow> guarded faults (upID i) r st (upCallerID i) d)
      \<and> (\<forall>l. upLocalAccount j = Some l \<longrightarrow> guarded faults (upID i) r st (upCallerID i) (\<not> l)))"
proof -
  obtain stored where s: "repo_SelectByID faults (upID i) st = Inr stored"
    using assms by (auto simp: sign_in_step_def and_then_Inr)
  obtain r where r: "user_row_of (upID i) st = Some r" "stored = user_of_row (upID i) r"
    using SelectByID_Inr[OF s] by auto
  obtain i1 two where l: "lockMayChange i stored = (i1, two)" by fastforce
  obtain i2 where f: "flagMayChange faults i1 stored st = Inr i2" and a: "administratorSignInMayChange faults i2 stored st = Inr j"
    using assms s l by (auto simp: sign_in_step_def and_then_Inr)
  note lf = lockMayChange_facts[OF l[unfolded r(2)]]
  note ff = flagMayChange_cases[OF f[unfolded r(2)]]
  note af = signIn_cases[OF a[unfolded r(2)]]
  have c: "upCallerID i2 = upCallerID i" "upEmail i2 = upEmail i" "upID i2 = upID i" using lf ff by auto
  have "acts_as_administrator (upCallerID i) st \<and> (\<not> b \<longrightarrow> rowAdmin r \<and> guarded faults (upID i) r st (upCallerID i) True)"
    if "upAdmin j = Some b" for b
    using that af ff lf by (auto simp: guarded_def)
  with r af c show ?thesis by auto
qed

lemma password_step_keeps:
  "password_step bcrypt i = Inr j \<Longrightarrow> upEmail j = upEmail i \<and> upAdmin j = upAdmin i \<and> upID j = upID i \<and> upDisabled j = upDisabled i
    \<and> upDisabledByAdmin j = upDisabledByAdmin i \<and> upLocalAccount j = upLocalAccount i"
  by (auto simp: password_step_def split: option.splits if_splits)

lemma UpdateByID_checked_facts:
  assumes "UpdateByID_checked env bcrypt faults (Some i0) st = Inr j"
  shows "upID j = upID i0
    \<and> (upEmail j = None \<or> acts_as_administrator (upCallerID i0) st)
    \<and> ((upAdmin j = None \<and> upDisabled j = None \<and> upDisabledByAdmin j = None \<and> upLocalAccount j = None) \<or>
       (\<exists>r. user_row_of (upID i0) st = Some r
        \<and> (\<forall>a. upAdmin j = Some a \<longrightarrow> acts_as_administrator (upCallerID i0) st
             \<and> (\<not> a \<longrightarrow> rowAdmin r \<and> guarded faults (upID i0) r st (upCallerID i0) True))
        \<and> (rowAdmin r \<longrightarrow>
            (\<forall>d. upDisabled j = Some d \<longrightarrow> guarded faults (upID i0) r st (upCallerID i0) d)
          \<and> (\<forall>d. upDisabledByAdmin j = Some d \<longrightarrow> guarded faults (upID i0) r st (upCallerID i0) d)
          \<and> (\<forall>l. upLocalAccount j = Some l \<longrightarrow> guarded faults (upID i0) r st (upCallerID i0) (\<not> l)))))"
proof -
  obtain i a b where v: "UpdateUserInput_Validate env i0 = Inr i"
    and a: "(if upEmail i \<noteq> None then addressMayChange env faults i st else Inr i) = Inr a"
    and b: "(if upAdmin a \<noteq> None \<or> touchesSignIn a then sign_in_step faults st a else Inr a) = Inr b"
    and p: "password_step bcrypt b = Inr j"
    using assms by (auto simp: UpdateByID_checked_def and_then_Inr)
  note v' = UpdateUserInput_Validate_keeps[OF v]
  have af: "upID a = upID i0 \<and> upCallerID a = upCallerID i0 \<and> (upEmail a = None \<or> acts_as_administrator (upCallerID i0) st)"
    using a v' addressMayChange_cases[of env faults i st a] by (auto split: if_splits)
  note pf = password_step_keeps[OF p]
  show ?thesis
  proof (cases "upAdmin a \<noteq> None \<or> touchesSignIn a")
    case False
    with b have "b = a" by simp
    with False af pf show ?thesis by (simp add: touchesSignIn_def)
  next
    case True
    with b have "sign_in_step faults st a = Inr b" by simp
    from sign_in_step_cases[OF this] af pf show ?thesis by auto
  qed
qed

end
