(* ===== verification/AccountsRuns.thy ===== *)
theory AccountsRuns
  imports AccountsRules
begin

text \<open>
  Runs of the account operations: the last administrator account that can sign
  in survives every sequential run, the lock is opened by an update only, and
  the usage counter follows the number of accounts; and what two concurrent
  updates can do to the first of these.
\<close>

section \<open>The operations as steps\<close>

datatype svc_op =
    ACreate uuid acc_faults pg_faults pg_faults InsertUserInput
  | AUpdate acc_faults UpdateUserInput
  | AVerify acc_faults uuid string
  | AReset acc_faults uuid string string
  | ADelete acc_faults pg_faults DeleteUserInput

fun svc_step :: "'a text_env_scheme \<Rightarrow> (string \<Rightarrow> string option) \<Rightarrow> ecdsa \<Rightarrow> svc_op \<Rightarrow> service_state \<Rightarrow> service_state" where
  "svc_step env bcrypt key (ACreate fresh faults rf lf i) s = snd (Create env bcrypt key fresh faults rf lf (Some i) s)"
| "svc_step env bcrypt key (AUpdate faults i) s = (snd (UpdateByID env bcrypt faults (Some i) (fst s)), snd s)"
| "svc_step env bcrypt key (AVerify faults uid address) s = (snd (Verify faults uid address (fst s)), snd s)"
| "svc_step env bcrypt key (AReset faults uid address hash) s = (snd (ResetPassword_account faults uid address hash (fst s)), snd s)"
| "svc_step env bcrypt key (ADelete faults lf i) s = snd (DeleteByID key faults lf i s)"

definition svc_run ::
  "'a text_env_scheme \<Rightarrow> (string \<Rightarrow> string option) \<Rightarrow> ecdsa \<Rightarrow> svc_op list \<Rightarrow> service_state \<Rightarrow> service_state" where
  "svc_run env bcrypt key ops s = fold (svc_step env bcrypt key) ops s"

lemma svc_run_invariant:
  assumes "P s" "\<And>op s. P s \<Longrightarrow> P (svc_step env bcrypt key op s)"
  shows "P (svc_run env bcrypt key ops s)"
  using assms(1) by (induction ops arbitrary: s) (auto simp: svc_run_def assms(2))

lemma DeleteByID_accounts:
  "fst (snd (DeleteByID key faults lf i s)) =
    (if delID i = uuid_nil then fst s
     else case repo_SelectByID faults (delID i) (fst s) of
       Inl (UNotFound k) \<Rightarrow> snd (repo_DeleteByID faults i (fst s))
     | Inl e \<Rightarrow> fst s
     | Inr u \<Rightarrow> if guardAdministrator faults (Some u) (delCallerID i) ''deleted'' True (fst s) = None
         then snd (repo_DeleteByID faults i (fst s)) else fst s)"
proof -
  have g: "guardAdministrator faults None c a l st = None" for c a l st
    by (simp add: guardAdministrator_def hasAdminFlag_def)
  have d: "repo_DeleteByID faults i st = (Some e, st') \<Longrightarrow> st' = st" for e st st'
    by (auto simp: repo_DeleteByID_def split: option.splits if_splits)
  show ?thesis
    by (auto simp: DeleteByID_def g split: sum.splits option.splits account_error.splits prod.splits)
qed

lemma repo_Delete_cases:
  assumes "repo_DeleteByID faults i st = (err, st')"
  shows "st' = st \<or> (err = None \<and> user_row_of (delID i) st \<noteq> None \<and> st' = st\<lparr>acUsers := filter (\<lambda>(k, _). k \<noteq> delID i) (acUsers st),
      acIdentities := filter (\<lambda>n. idnUser n \<noteq> delID i) (acIdentities st),
      acUsersRoles := filter (\<lambda>(k, _). k \<noteq> delID i) (acUsersRoles st)\<rparr>)"
  using assms by (auto simp: repo_DeleteByID_def split: option.splits if_splits)

lemma map_of_filter_key: "map_of (filter (\<lambda>(k, _). k \<noteq> u) xs) k = (if k = u then None else map_of xs k)"
  by (induction xs) auto

lemma user_row_of_delete [simp]:
  "user_row_of k (st\<lparr>acUsers := filter (\<lambda>(k, _). k \<noteq> u) (acUsers st), acIdentities := ns, acUsersRoles := rs\<rparr>) =
    (if k = u then None else user_row_of k st)"
  by (simp add: user_row_of_def map_of_filter_key)

text \<open>What a deletion does, and that the guard let it through.\<close>

lemma delete_account_cases:
  assumes "(err, st', db') = DeleteByID key faults lf \<lparr>delID = uid, delCallerID = caller\<rparr> (st, db)"
  shows "st' = st \<or>
    ((\<forall>r. user_row_of uid st = Some r \<longrightarrow> guardAdministrator faults (Some (user_of_row uid r)) caller ''deleted'' True st = None)
     \<and> st' = st\<lparr>acUsers := filter (\<lambda>(k, _). k \<noteq> uid) (acUsers st),
         acIdentities := filter (\<lambda>n. idnUser n \<noteq> uid) (acIdentities st),
         acUsersRoles := filter (\<lambda>(k, _). k \<noteq> uid) (acUsersRoles st)\<rparr>)"
proof -
  let ?i = "\<lparr>delID = uid, delCallerID = caller\<rparr>"
  obtain err d where d: "repo_DeleteByID faults ?i st = (err, d)" by fastforce
  have e: "st' = fst (snd (DeleteByID key faults lf ?i (st, db)))" by (simp add: assms[symmetric])
  note e = e[unfolded DeleteByID_accounts fst_conv DeleteUserInput.simps]
  show ?thesis
  proof (cases "repo_SelectByID faults uid st")
    case (Inl x)
    have "user_row_of uid st = None" if "x = UNotFound k" for k
      using Inl that by (auto simp: repo_SelectByID_def split: if_splits option.splits)
    with Inl e d repo_Delete_cases[OF d] show ?thesis by (cases x) (auto split: if_splits)
  next
    case (Inr u)
    with SelectByID_Inr obtain r where "user_row_of uid st = Some r" "u = user_of_row uid r" by blast
    with Inr e d repo_Delete_cases[OF d] show ?thesis by (auto split: if_splits)
  qed
qed

definition inserted_row :: "InsertUserInput \<Rightarrow> user_row" where
  "inserted_row j = \<lparr>rowFirstName = insFirstName j, rowLastName = insLastName j, rowEmail = insEmail j,
     rowPasswordHash = insPasswordHash j, rowDisabled = (insDisabled j = Some True),
     rowDisabledByAdmin = (insDisabled j = Some True \<and> insDisabledByAdmin j),
     rowVerified = (insVerified j = Some True), rowAdmin = False, rowLocalAccount = (insLocalAccount j = Some True)\<rparr>"

lemma repo_Insert_cases:
  assumes "repo_Insert env faults i st = (err, st')"
  shows "(\<exists>e. err = Some e \<and> st' = st) \<or>
    (\<exists>j. err = None \<and> InsertUserInput_Validate env i = Inr j \<and> user_row_of (insID j) st = None
       \<and> acUsers st' = acUsers (set_row (insID j) (inserted_row j) st) \<and> acIdps st' = acIdps st
       \<and> set (acIdentities st) \<subseteq> set (acIdentities st'))"
  using assms
  by (auto simp: repo_Insert_def Let_def set_row_def inserted_row_def split: sum.splits if_splits option.splits)

lemma Create_accounts:
  assumes "Create env bcrypt key fresh faults rf lf (Some i) (st, db) = (err, st', db')"
  shows "st' = st \<or> (err = None \<and> (\<exists>j. repo_Insert env faults j st = (None, st')))"
  using assms repo_Insert_cases
  by (fastforce simp: Create_def split: sum.splits option.splits prod.splits)

section \<open>The last administrator\<close>

definition has_administrator :: "accounts_state \<Rightarrow> bool" where
  "has_administrator st = (\<exists>k r. user_row_of k st = Some r \<and> enabledAdministrator None st k r)"

text \<open>Writing one row keeps an administrator when the row stays one, or another is.\<close>

lemma set_row_has_administrator:
  assumes "accounts_wf st" "has_administrator st" "user_row_of u st = Some r"
    and "enabledAdministrator None st u r \<Longrightarrow> length (enabled_administrators None st) \<le> 1 \<Longrightarrow> enabledAdministrator None st u r'"
  shows "has_administrator (set_row u r' st)"
proof (cases "\<exists>k q. k \<noteq> u \<and> user_row_of k st = Some q \<and> enabledAdministrator None st k q")
  case True
  then show ?thesis by (auto simp: has_administrator_def enabledAdministrator_set_row)
next
  case False
  obtain k q where "user_row_of k st = Some q" "enabledAdministrator None st k q" using assms(2) by (auto simp: has_administrator_def)
  with False assms(3) have e: "enabledAdministrator None st u r" by (metis option.inject)
  have "length (enabled_administrators None st) \<le> 1"
    using two_enabled[of st None u] assms(1) False by (fastforce simp: accounts_wf_def)
  with assms(4) e have "enabledAdministrator None st u r'" by simp
  then show ?thesis by (auto simp: has_administrator_def enabledAdministrator_set_row)
qed

lemma update_keeps_enabled:
  assumes c: "UpdateByID_checked env bcrypt faults (Some i0) st = Inr i" and v: "UpdateUserInput_Validate env i = Inr j"
    and wf: "accounts_wf st" and r: "user_row_of (upID j) st = Some r" "enabledAdministrator None st (upID j) r"
    and last: "length (enabled_administrators None st) \<le> 1"
  shows "enabledAdministrator None st (upID j) (updated_row j r)"
proof -
  note k = UpdateUserInput_Validate_keeps[OF v]
  note f = UpdateByID_checked_facts[OF c]
  have u: "upID j = upID i0" using k f by simp
  have flag: "rowAdmin r" "\<not> rowDisabled r" using r(2) by (auto simp: enabledAdministrator_def)
  have mem: "upID i0 \<in> set (enabled_administrators None st)"
    using enabled_administrators_mem[of st "upID i0" None] wf r u by (auto simp: accounts_wf_def)
  have g: "\<not> guarded faults (upID i0) r st (upCallerID i0) True"
    using guard_counts[OF _ mem flag(1)] last by (auto simp: guarded_def)
  have lock: "\<not> rowDisabledByAdmin r" using wf r(1) flag(2) by (auto simp: accounts_wf_def)
  have "upAdmin j \<noteq> Some False" "upDisabled j \<noteq> Some True" "upDisabledByAdmin j \<noteq> Some True" "upLocalAccount j \<noteq> Some False"
    using f g k r(1) u flag(1) by auto
  with lock flag have "\<not> rowDisabled (updated_row j r)" "rowAdmin (updated_row j r)" "rowLocalAccount r \<longrightarrow> rowLocalAccount (updated_row j r)"
    by (auto simp: updated_row_def split: option.splits)
  with r(2) show ?thesis by (auto simp: enabledAdministrator_def)
qed

lemma UpdateByID_keeps:
  assumes "accounts_wf st" "has_administrator st"
  shows "accounts_wf (snd (UpdateByID env bcrypt faults (Some i0) st)) \<and> has_administrator (snd (UpdateByID env bcrypt faults (Some i0) st))"
proof (cases "UpdateByID_checked env bcrypt faults (Some i0) st")
  case (Inl e) with assms show ?thesis by (simp add: UpdateByID_def)
next
  case (Inr i)
  obtain err st' where w: "repo_UpdateByID env faults i st = (err, st')" by fastforce
  have "accounts_wf st' \<and> has_administrator st'"
    using repo_UpdateByID_cases[OF w]
  proof (elim disjE exE conjE)
    fix j r assume j: "UpdateUserInput_Validate env i = Inr j" "user_row_of (upID j) st = Some r"
      "st' = set_row (upID j) (updated_row j r) st"
    have "rowDisabledByAdmin r \<longrightarrow> rowDisabled r" using assms(1) j(2) by (auto simp: accounts_wf_def)
    from set_row_wf[OF assms(1) updated_row_lock[OF this]]
    show ?thesis using j set_row_has_administrator[OF assms j(2)] update_keeps_enabled[OF Inr j(1) assms(1) j(2)] by simp
  qed (use assms in simp)
  with Inr w show ?thesis by (simp add: UpdateByID_def)
qed

lemma Verify_accounts: "snd (Verify faults uid address st) = snd (repo_Verify faults uid address st)"
  by (auto simp: Verify_def split: prod.splits option.splits account_error.splits)

lemma repo_Verify_cases:
  "snd (repo_Verify faults uid address st) = st \<or>
   (\<exists>r. user_row_of uid st = Some r \<and> rowEmail r = address \<and> \<not> rowVerified r \<and> snd (repo_Verify faults uid address st) =
      set_row uid (r\<lparr>rowVerified := True, rowDisabled := (if rowDisabledByAdmin r \<or> rowAdmin r then rowDisabled r else False)\<rparr>) st)"
  by (auto simp: repo_Verify_def split: option.split)

lemma repo_ResetPassword_cases:
  "snd (repo_ResetPassword faults uid address hash st) = st \<or>
   (\<exists>r. user_row_of uid st = Some r \<and> rowEmail r = address \<and> rowLocalAccount r \<and> \<not> rowDisabled r
      \<and> snd (repo_ResetPassword faults uid address hash st) = set_row uid (r\<lparr>rowPasswordHash := hash\<rparr>) st)"
  by (auto simp: repo_ResetPassword_def split: option.split)

lemma Verify_keeps:
  assumes "accounts_wf st" "has_administrator st"
  shows "accounts_wf (snd (Verify faults uid address st)) \<and> has_administrator (snd (Verify faults uid address st))"
  using repo_Verify_cases[of faults uid address st]
proof (elim disjE exE conjE)
  fix r assume r: "user_row_of uid st = Some r" "snd (repo_Verify faults uid address st) =
      set_row uid (r\<lparr>rowVerified := True, rowDisabled := (if rowDisabledByAdmin r \<or> rowAdmin r then rowDisabled r else False)\<rparr>) st"
  have "rowDisabledByAdmin r \<longrightarrow> rowDisabled r" using assms(1) r(1) by (auto simp: accounts_wf_def)
  then show ?thesis unfolding Verify_accounts r(2)
    by (intro conjI set_row_wf set_row_has_administrator[OF assms r(1)]) (use assms in \<open>auto simp: enabledAdministrator_def\<close>)
qed (use assms in \<open>simp add: Verify_accounts\<close>)

lemma Reset_keeps:
  assumes "accounts_wf st" "has_administrator st"
  shows "accounts_wf (snd (ResetPassword_account faults uid address hash st)) \<and> has_administrator (snd (ResetPassword_account faults uid address hash st))"
  using repo_ResetPassword_cases[of faults uid address hash st]
proof (elim disjE exE conjE)
  fix r assume r: "user_row_of uid st = Some r" "snd (repo_ResetPassword faults uid address hash st) = set_row uid (r\<lparr>rowPasswordHash := hash\<rparr>) st"
  have "rowDisabledByAdmin r \<longrightarrow> rowDisabled r" using assms(1) r(1) by (auto simp: accounts_wf_def)
  then show ?thesis unfolding ResetPassword_account_def r(2)
    by (intro conjI set_row_wf set_row_has_administrator[OF assms r(1)]) (use assms in \<open>auto simp: enabledAdministrator_def\<close>)
qed (use assms in \<open>simp add: ResetPassword_account_def\<close>)

lemma Insert_keeps:
  assumes "accounts_wf st" "has_administrator st" "repo_Insert env faults j st = (None, st')"
  shows "accounts_wf st' \<and> has_administrator st'"
proof -
  obtain k where i: "user_row_of (insID k) st = None" "acUsers st' = acUsers (set_row (insID k) (inserted_row k) st)"
    "acIdps st' = acIdps st" "set (acIdentities st) \<subseteq> set (acIdentities st')"
    using repo_Insert_cases[OF assms(3)] by blast
  have e: "user_row_of u st' = user_row_of u (set_row (insID k) (inserted_row k) st)" for u using i(2) by (simp add: user_row_of_def)
  have "accounts_wf (set_row (insID k) (inserted_row k) st)" by (rule set_row_wf[OF assms(1)]) (simp add: inserted_row_def)
  then have "accounts_wf st'" unfolding accounts_wf_def e i(2) .
  obtain u r where u: "user_row_of u st = Some r" "enabledAdministrator None st u r"
    using assms(2) by (auto simp: has_administrator_def)
  then have "user_row_of u (set_row (insID k) (inserted_row k) st) = Some r" using i(1) by auto
  moreover from u have "enabledAdministrator None st' u r"
    using i(3,4) by (auto simp: enabledAdministrator_def list_ex_iff)
  ultimately have "user_row_of u st' = Some r" "enabledAdministrator None st' u r" using e by simp_all
  with \<open>accounts_wf st'\<close> show ?thesis by (auto simp: has_administrator_def)
qed

lemma Delete_keeps:
  assumes "accounts_wf st" "has_administrator st" "(err, st', db') = DeleteByID key faults lf i (st, db)"
  shows "accounts_wf st' \<and> has_administrator st'"
proof -
  obtain u c where i: "i = \<lparr>delID = u, delCallerID = c\<rparr>" by (cases i) auto
  from delete_account_cases[OF assms(3)[unfolded i]] show ?thesis
  proof (elim disjE conjE)
    assume "st' = st" with assms show ?thesis by simp
  next
    assume g: "\<forall>r. user_row_of u st = Some r \<longrightarrow> guardAdministrator faults (Some (user_of_row u r)) c ''deleted'' True st = None"
      and s: "st' = st\<lparr>acUsers := filter (\<lambda>(k, _). k \<noteq> u) (acUsers st), acIdentities := filter (\<lambda>n. idnUser n \<noteq> u) (acIdentities st),
         acUsersRoles := filter (\<lambda>(k, _). k \<noteq> u) (acUsersRoles st)\<rparr>"
    have "distinct (map fst (filter (\<lambda>(k, _). k \<noteq> u) (acUsers st)))"
      using assms(1) by (auto simp: accounts_wf_def intro: distinct_map_filter)
    then have wf: "accounts_wf st'" using assms(1) s by (auto simp: accounts_wf_def split: if_splits)
    have "\<exists>k q. k \<noteq> u \<and> user_row_of k st = Some q \<and> enabledAdministrator None st k q"
    proof (rule ccontr)
      assume no: "\<not> (\<exists>k q. k \<noteq> u \<and> user_row_of k st = Some q \<and> enabledAdministrator None st k q)"
      obtain k r where "user_row_of k st = Some r" "enabledAdministrator None st k r"
        using assms(2) by (auto simp: has_administrator_def)
      with no have r: "user_row_of u st = Some r" "enabledAdministrator None st u r" by metis+
      then have "u \<in> set (enabled_administrators None st)" "rowAdmin r"
        using enabled_administrators_mem[of st u None] assms(1) by (auto simp: accounts_wf_def enabledAdministrator_def)
      with guard_counts g r(1) have "1 < length (enabled_administrators None st)" by blast
      with no two_enabled[of st None u] assms(1) show False by (auto simp: accounts_wf_def)
    qed
    then obtain k q where k: "k \<noteq> u" "user_row_of k st = Some q" "enabledAdministrator None st k q" by blast
    then have "user_row_of k st' = Some q" "enabledAdministrator None st' k q"
      using s by (auto simp: enabledAdministrator_def list_ex_iff split: option.splits)
    with wf show ?thesis by (auto simp: has_administrator_def)
  qed
qed

lemma svc_step_keeps:
  assumes "accounts_wf (fst s) \<and> has_administrator (fst s)"
  shows "accounts_wf (fst (svc_step env bcrypt key op s)) \<and> has_administrator (fst (svc_step env bcrypt key op s))"
proof (cases op)
  case (ACreate fresh faults rf lf i)
  obtain err st' db' where c: "Create env bcrypt key fresh faults rf lf (Some i) (fst s, snd s) = (err, st', db')"
    by (metis prod_cases3)
  from Create_accounts[OF c] Insert_keeps[of "fst s" env faults _ st'] assms c ACreate show ?thesis by auto
next
  case (AUpdate faults i) with UpdateByID_keeps[of "fst s"] assms show ?thesis by simp
next
  case (AVerify faults uid address) with Verify_keeps[of "fst s"] assms show ?thesis by simp
next
  case (AReset faults uid address hash) with Reset_keeps[of "fst s"] assms show ?thesis by simp
next
  case (ADelete faults lf i)
  obtain err st' db' where c: "DeleteByID key faults lf i (fst s, snd s) = (err, st', db')" by (metis prod_cases3)
  from Delete_keeps[OF _ _ c[symmetric]] assms c ADelete show ?thesis by auto
qed

text \<open>
  The last administrator account is never lost: whoever asks and whatever
  fails, after any sequence of account operations run one at a time there is
  still an enabled account with the admin flag and a way to sign in, ids stay
  unique and an account an administrator locked is a disabled one.
\<close>

theorem last_administrator_survives:
  assumes "accounts_wf (fst s)" "has_administrator (fst s)"
  shows "accounts_wf (fst (svc_run env bcrypt key ops s)) \<and> has_administrator (fst (svc_run env bcrypt key ops s))"
  by (rule svc_run_invariant[where P = "\<lambda>s. accounts_wf (fst s) \<and> has_administrator (fst s)"])
    (simp_all only: assms svc_step_keeps simp_thms)

definition demo_account :: "string \<Rightarrow> bool \<Rightarrow> user_row" where
  "demo_account email admin = \<lparr>rowFirstName = ''Ada'', rowLastName = ''Byron'', rowEmail = email, rowPasswordHash = ''hash'',
     rowDisabled = False, rowDisabledByAdmin = False, rowVerified = True, rowAdmin = admin, rowLocalAccount = True\<rparr>"

definition two_administrators :: accounts_state where
  "two_administrators = \<lparr>acUsers = [(uuid7 2, demo_account ''ada@example.com'' True), (uuid7 3, demo_account ''bob@example.com'' True)],
     acIdps = [], acIdentities = [], acAutoRoles = [], acUsersRoles = []\<rparr>"

definition disable_input :: "uuid \<Rightarrow> uuid \<Rightarrow> UpdateUserInput" where
  "disable_input caller uid = empty_update\<lparr>upDisabled := Some True, upID := uid, upCallerID := caller\<rparr>"

lemma uuid7_v7: "IsUUIDV7 (uuid7 2)" "IsUUIDV7 (uuid7 3)" "uuid7 2 \<noteq> uuid7 3" "uuid7 2 \<noteq> uuid_nil" "uuid7 3 \<noteq> uuid_nil"
  by (simp_all add: IsUUIDV7_def UUIDVersion_def uuid_byte_def uuid7_def)

lemma two_administrators_rows:
  "user_row_of k two_administrators = (if k = uuid7 2 then Some (demo_account ''ada@example.com'' True)
     else if k = uuid7 3 then Some (demo_account ''bob@example.com'' True) else None)"
  by (simp add: user_row_of_def two_administrators_def)

lemma two_administrators_ok: "accounts_wf two_administrators" "has_administrator two_administrators"
  "enabled_administrators None two_administrators = [uuid7 2, uuid7 3]"
  using uuid7_v7(3)
  by (auto simp: accounts_wf_def two_administrators_def user_row_of_def demo_account_def has_administrator_def
      enabledAdministrator_def enabled_administrators_def split: if_splits)

theorem last_administrator_survives_witness:
  "has_administrator (fst (svc_run ascii_env (\<lambda>p. Some p) demo_key
     [AUpdate no_acc_faults (disable_input (uuid7 2) (uuid7 3)), ADelete no_acc_faults no_faults \<lparr>delID = uuid7 2, delCallerID = uuid7 2\<rparr>]
     (two_administrators, demo_db 5 10)))"
proof -
  have "accounts_wf (fst (two_administrators, demo_db 5 10))" "has_administrator (fst (two_administrators, demo_db 5 10))"
    using two_administrators_ok by simp_all
  from last_administrator_survives[OF this] show ?thesis by blast
qed

section \<open>Two updates at once\<close>

text \<open>
  The check of one update and its write are two statements.  Two administrators
  that disable each other at the same time both find two that can sign in.
\<close>

lemma disable_input_valid: "IsUUIDV7 uid \<Longrightarrow> UpdateUserInput_Validate env (disable_input c uid) = Inr (disable_input c uid)"
proof -
  assume v: "IsUUIDV7 uid"
  have "disable_input c uid \<noteq> empty_update" by (simp add: disable_input_def empty_update_def)
  moreover have "Add [] (ValidateUUID uid 7 ''id'') = []" by (subst iffD2[OF ValidateUUID_7 v]) simp
  ultimately show ?thesis
    by (simp add: UpdateUserInput_Validate_def disable_input_def check_opt_def HasErrors_def empty_update_def Let_def)
qed

lemma disable_checked:
  assumes "(c, u) = (uuid7 2, uuid7 3) \<or> (c, u) = (uuid7 3, uuid7 2)"
  shows "UpdateByID_checked env bcrypt no_acc_faults (Some (disable_input c u)) two_administrators = Inr (disable_input c u)"
proof -
  let ?st = two_administrators and ?i = "disable_input c u"
  have v: "IsUUIDV7 c" "IsUUIDV7 u" "c \<noteq> uuid_nil" "u \<noteq> uuid_nil" using assms uuid7_v7 by auto
  obtain r q where r: "user_row_of u ?st = Some r" "user_row_of c ?st = Some q" "rowAdmin r" "\<not> rowDisabled r" "rowAdmin q" "\<not> rowDisabled q"
    using assms uuid7_v7(3) by (auto simp: two_administrators_rows demo_account_def)
  have s: "repo_SelectByID no_acc_faults u ?st = Inr (user_of_row u r)" "repo_SelectByID no_acc_faults c ?st = Inr (user_of_row c q)"
    using v r by (simp_all add: repo_SelectByID_def no_acc_faults_def)
  have g: "guardAdministrator no_acc_faults (Some (user_of_row u r)) c ''disabled'' True ?st = None"
    using s r v by (simp add: guardAdministrator_def isAdministratorAccount_def IsEnabledAdministrator_def
      CountEnabledAdministrators_def no_acc_faults_def two_administrators_ok)
  have i: "upEmail ?i = None" "upAdmin ?i = None" "upDisabled ?i = Some True" "upDisabledByAdmin ?i = None" "upLocalAccount ?i = None"
    "upID ?i = u" "upCallerID ?i = c" "upPassword ?i = None"
    by (simp_all add: disable_input_def empty_update_def)
  have "sign_in_step no_acc_faults ?st ?i = Inr ?i"
    using s r g by (simp add: sign_in_step_def i lockMayChange_def flagMayChange_def administratorSignInMayChange_def
      disabled_may_change_def lock_may_change_def local_may_change_def)
  then show ?thesis
    by (simp add: UpdateByID_checked_def disable_input_valid[OF v(2)] i touchesSignIn_def password_step_def)
qed

text \<open>
  The guard of the last administrator does not hold between concurrent
  updates: with two administrators that disable each other at once, both
  requests pass their checks, both writes succeed, and no account that can
  sign in with the flag is left; one after the other, the second is refused.
\<close>

theorem concurrent_disables_leave_no_administrator:
  "\<exists>a b ia ib st1 st2.
     UpdateByID_checked ascii_env Some no_acc_faults (Some (disable_input a b)) two_administrators = Inr ib
   \<and> UpdateByID_checked ascii_env Some no_acc_faults (Some (disable_input b a)) two_administrators = Inr ia
   \<and> repo_UpdateByID ascii_env no_acc_faults ib two_administrators = (None, st1)
   \<and> repo_UpdateByID ascii_env no_acc_faults ia st1 = (None, st2)
   \<and> \<not> has_administrator st2
   \<and> fst (UpdateByID ascii_env Some no_acc_faults (Some (disable_input b a)) st1)
       = Some (UAdministratorProtected ''disabled'' ''the administrator account'')"
proof -
  let ?a = "uuid7 2" and ?b = "uuid7 3" and ?ra = "demo_account ''ada@example.com'' True" and ?rb = "demo_account ''bob@example.com'' True"
  define sa sb where "sa = updated_row (disable_input ?b ?a) ?ra" and "sb = updated_row (disable_input ?a ?b) ?rb"
  note v = uuid7_v7
  have boot: "?a \<noteq> bootstrap_administrator" "?b \<noteq> bootstrap_administrator"
    by (simp_all add: uuid7_def bootstrap_administrator_def)
  have sr: "rowEmail sa = ''ada@example.com''" "rowEmail sb = ''bob@example.com''" "rowAdmin sb" "rowDisabled sa" "rowDisabled sb"
    by (simp_all add: sa_def sb_def updated_row_def disable_input_def empty_update_def text_arg_def demo_account_def)
  define st1 where "st1 = set_row ?b sb two_administrators"
  have u: "upID (disable_input c k) = k" for c k by (simp add: disable_input_def)
  have l1: "acUsers st1 = [(?a, ?ra), (?b, sb)]" using v(3) by (simp add: st1_def set_row_def two_administrators_def)
  have l0: "acUsers two_administrators = [(?a, ?ra), (?b, ?rb)]" by (simp add: two_administrators_def)
  have r0: "user_row_of ?b two_administrators = Some ?rb" "rowEmail ?ra = ''ada@example.com''"
    using v(3) by (simp_all add: two_administrators_rows demo_account_def)
  have w1: "repo_UpdateByID ascii_env no_acc_faults (disable_input ?a ?b) two_administrators = (None, st1)"
    using v sr boot r0
    by (simp add: repo_UpdateByID_def disable_input_valid u no_acc_faults_def sb_def[symmetric] st1_def l0 Let_def)
  have r1: "user_row_of ?a st1 = Some ?ra" "user_row_of ?b st1 = Some sb" using v(3) by (simp_all add: user_row_of_def l1)
  have w2: "repo_UpdateByID ascii_env no_acc_faults (disable_input ?b ?a) st1 = (None, set_row ?a sa st1)"
    using v sr boot r1
    by (simp add: repo_UpdateByID_def disable_input_valid u no_acc_faults_def sa_def[symmetric] l1 Let_def)
  have no: "\<not> has_administrator (set_row ?a sa st1)"
    using sr by (auto simp: has_administrator_def enabledAdministrator_def user_row_of_def set_row_def l1 update_conv split: if_splits)
  have s: "repo_SelectByID no_acc_faults ?a st1 = Inr (user_of_row ?a ?ra)" "repo_SelectByID no_acc_faults ?b st1 = Inr (user_of_row ?b sb)"
    using v r1 by (simp_all add: repo_SelectByID_def no_acc_faults_def)
  have i: "upEmail (disable_input ?b ?a) = None" "upAdmin (disable_input ?b ?a) = None" "upDisabled (disable_input ?b ?a) = Some True"
    "upDisabledByAdmin (disable_input ?b ?a) = None" "upCallerID (disable_input ?b ?a) = ?b"
    by (simp_all add: disable_input_def empty_update_def)
  have t: "touchesSignIn (disable_input ?b ?a)" unfolding touchesSignIn_def i(3) by simp
  have "rowAdmin ?ra" "\<not> rowDisabled ?ra" by (simp_all add: demo_account_def)
  then have "fst (UpdateByID ascii_env Some no_acc_faults (Some (disable_input ?b ?a)) st1)
       = Some (UAdministratorProtected ''disabled'' ''the administrator account'')"
    using v sr s t by (simp add: UpdateByID_def UpdateByID_checked_def disable_input_valid i u sign_in_step_def
      lockMayChange_def flagMayChange_def administratorSignInMayChange_def disabled_may_change_def guardAdministrator_def isAdministratorAccount_def)
  with disable_checked[of ?a ?b ascii_env Some] disable_checked[of ?b ?a ascii_env Some] w1 w2 no show ?thesis by blast
qed

section \<open>What a caller without the flag cannot write\<close>

text \<open>
  C27. A caller that is not an enabled account with the admin flag never writes
  an address or the flag, and on an account with the flag neither its
  disabled state, its lock nor its kind.  This holds of the statement however
  the tables changed between the checks and the write.
\<close>

theorem held_fields_stay:
  assumes "UpdateByID_checked env bcrypt faults (Some i) st = Inr j" "\<not> acts_as_administrator (upCallerID i) st"
    and "repo_UpdateByID env faults' j st' = (err, st'')" "user_row_of k st' = Some r"
  shows "\<exists>r'. user_row_of k st'' = Some r' \<and> rowEmail r' = rowEmail r \<and> rowAdmin r' = rowAdmin r
    \<and> ((\<exists>q. user_row_of (upID i) st = Some q \<and> rowAdmin q) \<longrightarrow>
         rowDisabled r' = rowDisabled r \<and> rowDisabledByAdmin r' = rowDisabledByAdmin r \<and> rowLocalAccount r' = rowLocalAccount r)"
proof -
  note f = UpdateByID_checked_facts[OF assms(1)]
  have g: "\<not> guarded faults u q st (upCallerID i) locks" if "rowAdmin q" for u q locks
    using guard_asks[of faults "Some (user_of_row u q)" "upCallerID i" _ locks st] assms(2) that by (auto simp: guarded_def)
  have e: "upEmail j = None" "upAdmin j = None" using f assms(2) by (auto simp: option.split_sel intro: option.expand)
  have s: "upDisabled j = None \<and> upDisabledByAdmin j = None \<and> upLocalAccount j = None"
    if "user_row_of (upID i) st = Some q" "rowAdmin q" for q
    using f g[OF that(2)] that by (metis not_None_eq option.inject)
  from repo_UpdateByID_cases[OF assms(3)] show ?thesis
  proof (elim disjE exE conjE)
    fix a assume "st'' = st'" with assms(4) show ?thesis by auto
  next
    fix j' q assume w: "UpdateUserInput_Validate env j = Inr j'" "user_row_of (upID j') st' = Some q"
      "st'' = set_row (upID j') (updated_row j' q) st'"
    note k = UpdateUserInput_Validate_keeps[OF w(1)]
    show ?thesis
    proof (cases "k = upID j'")
      case False with w assms(4) show ?thesis by auto
    next
      case True
      with w assms(4) have "q = r" by simp
      with True w k e s show ?thesis by (auto simp: updated_row_def text_arg_def)
    qed
  qed
qed

definition one_member :: accounts_state where
  "one_member = \<lparr>acUsers = [(uuid7 3, demo_account ''bob@example.com'' False)],
     acIdps = [], acIdentities = [], acAutoRoles = [], acUsersRoles = []\<rparr>"

lemma one_member_disables_itself:
  "UpdateByID_checked ascii_env Some no_acc_faults (Some (disable_input (uuid7 3) (uuid7 3))) one_member = Inr (disable_input (uuid7 3) (uuid7 3))"
proof -
  have r: "repo_SelectByID no_acc_faults (uuid7 3) one_member = Inr (user_of_row (uuid7 3) (demo_account ''bob@example.com'' False))"
    using uuid7_v7 by (simp add: repo_SelectByID_def no_acc_faults_def one_member_def user_row_of_def)
  have i: "upEmail (disable_input c u) = None" "upAdmin (disable_input c u) = None" "upDisabledByAdmin (disable_input c u) = None"
    "upDisabled (disable_input c u) = Some True" "upID (disable_input c u) = u" "upPassword (disable_input c u) = None" for c u
    by (simp_all add: disable_input_def empty_update_def)
  show ?thesis
    using r
    by (simp add: UpdateByID_checked_def disable_input_valid[OF uuid7_v7(2)] i touchesSignIn_def sign_in_step_def password_step_def lockMayChange_def flagMayChange_def
        administratorSignInMayChange_def hasAdminFlag_def user_of_row_def demo_account_def)
qed

theorem held_fields_stay_witness:
  "\<exists>r'. user_row_of (uuid7 3) (snd (repo_UpdateByID ascii_env no_acc_faults (disable_input (uuid7 3) (uuid7 3)) one_member)) = Some r'
     \<and> rowEmail r' = ''bob@example.com'' \<and> \<not> rowAdmin r'"
proof -
  have n: "\<not> acts_as_administrator (upCallerID (disable_input (uuid7 3) (uuid7 3))) one_member"
    by (simp add: acts_as_administrator_def disable_input_def one_member_def user_row_of_def demo_account_def)
  obtain err st where w: "repo_UpdateByID ascii_env no_acc_faults (disable_input (uuid7 3) (uuid7 3)) one_member = (err, st)" by fastforce
  have r: "user_row_of (uuid7 3) one_member = Some (demo_account ''bob@example.com'' False)" by (simp add: one_member_def user_row_of_def)
  from held_fields_stay[OF one_member_disables_itself n w r] w show ?thesis by (auto simp: demo_account_def)
qed

end
