(* ===== verification/Cursor.thy ===== *)
theory Cursor
  imports Validation
begin

text \<open>
  Cursor tokens and the paginator (\<open>internal/core/domain/paginator.go\<close>):
  \<open>uuid;serial;direction\<close> in base64.  Reading a uuid, a decimal number and
  base64 are the standard library's \<open>uuid.Parse\<close>, \<open>strconv.ParseInt\<close> and
  \<open>base64.StdEncoding\<close>, written out.  The serial is an \<open>int64\<close>, the direction
  a \<open>uint8\<close>.
\<close>

section \<open>Reading a uuid\<close>

definition hex_val :: "char \<Rightarrow> nat option" where
  "hex_val c = (let n = (of_char c :: nat) in
     if 48 \<le> n \<and> n \<le> 57 then Some (n - 48)
     else if 97 \<le> n \<and> n \<le> 102 then Some (n - 87)
     else if 65 \<le> n \<and> n \<le> 70 then Some (n - 55) else None)"

definition hex_step :: "nat option \<Rightarrow> char \<Rightarrow> nat option" where
  "hex_step acc c = (case (acc, hex_val c) of (Some a, Some d) \<Rightarrow> Some (16 * a + d) | _ \<Rightarrow> None)"

definition hex_read :: "string \<Rightarrow> nat option" where
  "hex_read s = foldl hex_step (Some 0) s"

definition uuid_hex :: "string \<Rightarrow> uuid option" where
  "uuid_hex s = (if length s = 32 then map_option of_nat (hex_read s) else None)"

definition uuid_canonical :: "string \<Rightarrow> uuid option" where
  "uuid_canonical s =
     (if length s = 36 \<and> s ! 8 = CHR ''-'' \<and> s ! 13 = CHR ''-'' \<and> s ! 18 = CHR ''-'' \<and> s ! 23 = CHR ''-''
      then uuid_hex (take 8 s @ take 4 (drop 9 s) @ take 4 (drop 14 s) @ take 4 (drop 19 s) @ drop 24 s)
      else None)"

text \<open>The four forms \<open>uuid.Parse\<close> takes, told apart by their length.\<close>

definition uuid_parse :: "string \<Rightarrow> uuid option" where
  "uuid_parse s =
     (if length s = 32 then uuid_hex s
      else if length s = 36 then uuid_canonical s
      else if length s = 38 then
        (if hd s = CHR ''{'' \<and> last s = CHR ''}'' then uuid_canonical (butlast (tl s)) else None)
      else if length s = 45 then
        (if HasPrefix s ''urn:uuid:'' then uuid_canonical (drop 9 s) else None)
      else None)"

lemma hex_val_digit: "d < 16 \<Longrightarrow> hex_val (hex_digit d) = Some d"
  by (auto simp: hex_val_def hex_digit_def Let_def)

lemma hex_read_byte: "foldl hex_step (Some a) (byte_hex b @ s) = foldl hex_step (Some (256 * a + unat b)) s"
proof -
  have "unat b div 16 < 16" "unat b mod 16 < 16" using unat_byte[of b] by (simp_all add: less_mult_imp_div_less)
  then have "foldl hex_step (Some a) (byte_hex b @ s) = foldl hex_step (Some (16 * (16 * a + unat b div 16) + unat b mod 16)) s"
    by (simp add: byte_hex_def hex_step_def hex_val_digit)
  also have "16 * (16 * a + unat b div 16) + unat b mod 16 = 256 * a + unat b"
    using mult_div_mod_eq[of 16 "unat b"] by simp
  finally show ?thesis .
qed

lemma hex_read_bytes:
  "foldl hex_step (Some a) (concat (map byte_hex bs)) = Some (foldl (\<lambda>a b. 256 * a + unat b) a bs)"
proof (induction bs arbitrary: a)
  case (Cons b bs)
  then show ?case using hex_read_byte[of a b "concat (map byte_hex bs)"] by simp
qed simp

lemma unat_uuid_byte: "unat (uuid_byte u i) = unat u div 256 ^ (15 - i) mod 256"
proof -
  have "unat u < 2 ^ LENGTH(128)" by (rule unsigned_less)
  then have t: "take_bit 128 (unat u) = unat u" by (simp add: take_bit_nat_eq_self)
  have "unat (uuid_byte u i) = unat (drop_bit (8 * (15 - i)) u) mod 2 ^ LENGTH(8)"
    by (simp add: uuid_byte_def unsigned_ucast_eq take_bit_eq_mod)
  also have "\<dots> = unat u div 2 ^ (8 * (15 - i)) mod 256" by (subst unsigned_drop_bit_eq) (simp add: drop_bit_eq_div t)
  also have "(2 :: nat) ^ (8 * (15 - i)) = 256 ^ (15 - i)" by (simp add: power_mult)
  finally show ?thesis .
qed

lemma uuid_bytes_value: "n \<le> 16 \<Longrightarrow> foldl (\<lambda>a b. 256 * a + unat b) 0 (map (uuid_byte u) [0 ..< n]) = unat u div 256 ^ (16 - n)"
proof (induction n)
  case 0
  have "unat u < 2 ^ LENGTH(128)" by (rule unsigned_less)
  then show ?case by simp
next
  case (Suc n)
  have e: "16 - n = Suc (15 - n)" using Suc.prems by simp
  have "foldl (\<lambda>a b. 256 * a + unat b) 0 (map (uuid_byte u) [0 ..< Suc n]) =
      256 * (unat u div 256 ^ Suc (15 - n)) + unat u div 256 ^ (15 - n) mod 256"
    using Suc e by (simp add: unat_uuid_byte)
  also have "unat u div 256 ^ Suc (15 - n) = unat u div 256 ^ (15 - n) div 256"
    by (simp only: power_Suc2 div_mult2_eq)
  finally show ?case using mult_div_mod_eq[of 256 "unat u div 256 ^ (15 - n)"] by simp
qed

lemma bytes_hex_append: "bytes_hex u i m @ bytes_hex u (i + m) n = bytes_hex u i (m + n)"
proof -
  have "[i ..< i + (m + n)] = [i ..< i + m] @ [i + m ..< i + m + n]"
    using upt_add_eq_append[of i "i + m" n] by (simp add: add.assoc)
  then show ?thesis by (simp add: bytes_hex_def)
qed

lemma bytes_hex_length: "length (bytes_hex u i n) = 2 * n"
  by (induction n) (simp_all add: bytes_hex_def byte_hex_def)

lemma uuid_parse_string: "uuid_parse (uuid_string u) = Some u"
proof -
  let ?a = "bytes_hex u 0 4" and ?b = "bytes_hex u 4 2" and ?c = "bytes_hex u 6 2" and ?d = "bytes_hex u 8 2" and ?e = "bytes_hex u 10 6"
  have l: "length ?a = 8" "length ?b = 4" "length ?c = 4" "length ?d = 4" "length ?e = 12" by (simp_all add: bytes_hex_length)
  have "?a @ ?b @ ?c @ ?d @ ?e = bytes_hex u 0 16"
    using bytes_hex_append[of u 0 4 2] bytes_hex_append[of u 0 6 2] bytes_hex_append[of u 0 8 2] bytes_hex_append[of u 0 10 6]
    by (simp flip: append_assoc)
  moreover have "hex_read (bytes_hex u 0 16) = Some (unat u)"
    using hex_read_bytes[of 0 "map (uuid_byte u) [0 ..< 16]"] uuid_bytes_value[of 16 u]
    by (simp add: hex_read_def bytes_hex_def comp_def)
  ultimately have h: "uuid_hex (?a @ ?b @ ?c @ ?d @ ?e) = Some u" using bytes_hex_length[of u 0 16] by (simp add: uuid_hex_def)
  have "uuid_string u ! 8 = CHR ''-''" "uuid_string u ! 13 = CHR ''-''" "uuid_string u ! 18 = CHR ''-''" "uuid_string u ! 23 = CHR ''-''"
    using l by (simp_all add: uuid_string_def nth_append)
  moreover have "take 8 (uuid_string u) = ?a" "take 4 (drop 9 (uuid_string u)) = ?b" "take 4 (drop 14 (uuid_string u)) = ?c"
    "take 4 (drop 19 (uuid_string u)) = ?d" "drop 24 (uuid_string u) = ?e"
    using l by (simp_all add: uuid_string_def drop_Cons')
  moreover have "length (uuid_string u) = 36" using l by (simp add: uuid_string_def)
  ultimately show ?thesis using h by (simp add: uuid_parse_def uuid_canonical_def)
qed

section \<open>Reading a number\<close>

definition parse_int64 :: "string \<Rightarrow> 64 word option" where
  "parse_int64 s =
     (let neg = HasPrefix s ''-''; ds = (if neg \<or> HasPrefix s ''+'' then tl s else s) in
      if ds = [] \<or> \<not> list_all is_digit_char ds then None
      else let v = (if neg then - int (digits_val ds) else int (digits_val ds)) in
        if - (2 ^ 63) \<le> v \<and> v < 2 ^ 63 then Some (word_of_int v) else None)"

lemma digit_not_sign: "is_digit_char c \<Longrightarrow> c \<noteq> CHR ''-'' \<and> c \<noteq> CHR ''+''"
  by (auto simp: is_digit_char_def)

lemma parse_int64_itoa: "- (2 ^ 63) \<le> v \<Longrightarrow> v < 2 ^ 63 \<Longrightarrow> parse_int64 (itoa v) = Some (word_of_int v)"
proof -
  assume r: "- (2 ^ 63) \<le> v" "v < 2 ^ 63"
  obtain c cs where n: "nat_digits (nat v) = c # cs" using nat_digits_nonempty by (meson list.exhaust)
  then have "is_digit_char c" using nat_digits_digits[of "nat v"] by simp
  then have "\<not> HasPrefix (c # cs) ''-''" "\<not> HasPrefix (c # cs) ''+''"
    using digit_not_sign by (auto simp: HasPrefix_def)
  with r n nat_digits_digits[of "nat v"] nat_digits_digits[of "nat (- v)"] nat_digits_nonempty[of "nat (- v)"]
    nat_digits_val[of "nat v"] nat_digits_val[of "nat (- v)"]
  show ?thesis by (auto simp: parse_int64_def itoa_def HasPrefix_def Let_def)
qed

section \<open>Base64\<close>

definition b64_char :: "nat \<Rightarrow> char" where
  "b64_char d = (if d < 26 then char_of (65 + d) else if d < 52 then char_of (71 + d)
     else if d < 62 then char_of (d - 4) else if d = 62 then CHR ''+'' else CHR ''/'')"

definition b64_val :: "char \<Rightarrow> nat option" where
  "b64_val c = (let n = (of_char c :: nat) in
     if 65 \<le> n \<and> n \<le> 90 then Some (n - 65)
     else if 97 \<le> n \<and> n \<le> 122 then Some (n - 71)
     else if 48 \<le> n \<and> n \<le> 57 then Some (n + 4)
     else if n = 43 then Some 62 else if n = 47 then Some 63 else None)"

abbreviation byte_of :: "char \<Rightarrow> nat" where "byte_of \<equiv> of_char"

fun b64_encode :: "string \<Rightarrow> string" where
  "b64_encode [] = []"
| "b64_encode [a] = [b64_char (byte_of a div 4), b64_char (byte_of a mod 4 * 16), CHR ''='', CHR ''='']"
| "b64_encode [a, b] = [b64_char (byte_of a div 4), b64_char (byte_of a mod 4 * 16 + byte_of b div 16),
     b64_char (byte_of b mod 16 * 4), CHR ''='']"
| "b64_encode (a # b # c # s) = b64_char (byte_of a div 4) # b64_char (byte_of a mod 4 * 16 + byte_of b div 16)
     # b64_char (byte_of b mod 16 * 4 + byte_of c div 64) # b64_char (byte_of c mod 64) # b64_encode s"

text \<open>Padding ends the text; line breaks are skipped, as the package does.\<close>

fun b64_quads :: "string \<Rightarrow> string option" where
  "b64_quads [] = Some []"
| "b64_quads (w # x # y # z # s) =
     (case (b64_val w, b64_val x) of
        (Some a, Some b) \<Rightarrow>
          if s = [] \<and> z = CHR ''='' then
            (if y = CHR ''='' then Some [char_of (a * 4 + b div 16)]
             else case b64_val y of None \<Rightarrow> None
               | Some c \<Rightarrow> Some [char_of (a * 4 + b div 16), char_of (b mod 16 * 16 + c div 4)])
          else (case (b64_val y, b64_val z) of
              (Some c, Some d) \<Rightarrow> map_option (\<lambda>t. char_of (a * 4 + b div 16) # char_of (b mod 16 * 16 + c div 4)
                 # char_of (c mod 4 * 64 + d) # t) (b64_quads s)
            | _ \<Rightarrow> None)
      | _ \<Rightarrow> None)"
| "b64_quads s = None"

definition b64_decode :: "string \<Rightarrow> string option" where
  "b64_decode s = b64_quads (filter (\<lambda>c. c \<noteq> CHR 0x0A \<and> c \<noteq> CHR 0x0D) s)"

lemma b64_val_char: "d < 64 \<Longrightarrow> b64_val (b64_char d) = Some d"
  by (auto simp: b64_val_def b64_char_def Let_def)

lemma b64_char_not: "d < 64 \<Longrightarrow> b64_char d \<noteq> CHR ''=''"
  using b64_val_char[of d] by (auto simp: b64_val_def)

lemma byte_less: "byte_of c < 256" by (rule nat_of_char_less_256)

lemma b64_sextets:
  fixes a b c :: nat
  assumes "a < 256" "b < 256" "c < 256"
  shows "a div 4 < 64" "a mod 4 * 16 < 64" "a mod 4 * 16 + b div 16 < 64" "b mod 16 * 4 < 64" "b mod 16 * 4 + c div 64 < 64" "c mod 64 < 64"
    "a div 4 * 4 + (a mod 4 * 16 + b div 16) div 16 = a" "a div 4 * 4 + a mod 4 * 16 div 16 = a"
    "(a mod 4 * 16 + b div 16) mod 16 * 16 + (b mod 16 * 4 + c div 64) div 4 = b"
    "(a mod 4 * 16 + b div 16) mod 16 * 16 + b mod 16 * 4 div 4 = b"
    "(b mod 16 * 4 + c div 64) mod 4 * 64 + c mod 64 = c"
proof -
  have d: "a div 4 < 64" "b div 16 < 16" "c div 64 < 4" using assms by (simp_all add: less_mult_imp_div_less)
  have m: "a mod 4 < 4" "b mod 16 < 16" by simp_all
  show "a div 4 < 64" "a mod 4 * 16 < 64" "a mod 4 * 16 + b div 16 < 64" "b mod 16 * 4 < 64" "b mod 16 * 4 + c div 64 < 64" "c mod 64 < 64"
    using d m by linarith+
  have "(a mod 4 * 16 + b div 16) div 16 = a mod 4" "(a mod 4 * 16 + b div 16) mod 16 = b div 16"
    "(b mod 16 * 4 + c div 64) div 4 = b mod 16" "(b mod 16 * 4 + c div 64) mod 4 = c div 64"
    using d by (simp_all add: div_add1_eq mod_add_eq)
  then show "a div 4 * 4 + (a mod 4 * 16 + b div 16) div 16 = a" "a div 4 * 4 + a mod 4 * 16 div 16 = a"
    "(a mod 4 * 16 + b div 16) mod 16 * 16 + (b mod 16 * 4 + c div 64) div 4 = b"
    "(a mod 4 * 16 + b div 16) mod 16 * 16 + b mod 16 * 4 div 4 = b"
    "(b mod 16 * 4 + c div 64) mod 4 * 64 + c mod 64 = c"
    by simp_all
qed

lemma b64_quads_encode: "b64_quads (b64_encode s) = Some s"
proof (induction s rule: b64_encode.induct)
  case (2 a)
  note s = b64_sextets[OF byte_less[of a] byte_less[of a] byte_less[of a]]
  show ?case using s by (simp add: b64_val_char)
next
  case (3 a b)
  note s = b64_sextets[OF byte_less[of a] byte_less[of b] byte_less[of b]]
  show ?case using s b64_char_not by (simp add: b64_val_char)
next
  case (4 a b c r)
  note s = b64_sextets[OF byte_less[of a] byte_less[of b] byte_less[of c]]
  show ?case using s 4 by (simp add: b64_val_char b64_char_not)
qed simp

definition url_safe :: "char \<Rightarrow> bool" where
  "url_safe c = (let n = byte_of c in (65 \<le> n \<and> n \<le> 90) \<or> (97 \<le> n \<and> n \<le> 122) \<or> (48 \<le> n \<and> n \<le> 57) \<or> n = 61)"

lemma b64_char_safe: "d < 62 \<Longrightarrow> url_safe (b64_char d)"
  by (auto simp: url_safe_def b64_char_def Let_def)

lemma url_safe_keeps: "url_safe c \<Longrightarrow> c \<noteq> CHR 0x0A \<and> c \<noteq> CHR 0x0D"
  by (auto simp: url_safe_def)

text \<open>Text whose base64 has neither plus nor slash.\<close>

definition b64_plain :: "char \<Rightarrow> bool" where
  "b64_plain c = (byte_of c < 128 \<and> byte_of c mod 64 < 62)"

lemma b64_plain_parts:
  assumes "b64_plain c"
  shows "byte_of c div 4 < 62" "byte_of c div 16 < 8" "byte_of c div 64 < 2" "byte_of c mod 64 < 62"
proof -
  have "byte_of c < 32 * 4" "byte_of c < 8 * 16" "byte_of c < 2 * 64" using assms by (simp_all add: b64_plain_def)
  from this[THEN less_mult_imp_div_less] assms
  show "byte_of c div 4 < 62" "byte_of c div 16 < 8" "byte_of c div 64 < 2" "byte_of c mod 64 < 62" by (simp_all add: b64_plain_def)
qed

lemma b64_encode_safe: "list_all b64_plain s \<Longrightarrow> list_all url_safe (b64_encode s)"
proof (induction s rule: b64_encode.induct)
  case (2 a)
  then have "byte_of a div 4 < 62" "byte_of a mod 4 * 16 < 62" using b64_plain_parts[of a] mod_less_divisor[of 4 "byte_of a"] by auto
  then show ?case using b64_char_safe by (simp add: url_safe_def)
next
  case (3 a b)
  then have p: "b64_plain a" "b64_plain b" by simp_all
  have "byte_of a mod 4 < 4" "byte_of b mod 16 < 16" by simp_all
  with b64_plain_parts[OF p(1)] b64_plain_parts[OF p(2)]
  have "byte_of a mod 4 * 16 + byte_of b div 16 < 62" "byte_of b mod 16 * 4 < 62" "byte_of a div 4 < 62" by linarith+
  then show ?case using b64_char_safe by (simp add: url_safe_def)
next
  case (4 a b c r)
  from 4(2) have p: "b64_plain a" "b64_plain b" "b64_plain c" by simp_all
  have "byte_of a mod 4 < 4" "byte_of b mod 16 < 16" by simp_all
  with b64_plain_parts[OF p(1)] b64_plain_parts[OF p(2)] b64_plain_parts[OF p(3)]
  have "byte_of a mod 4 * 16 + byte_of b div 16 < 62" "byte_of b mod 16 * 4 + byte_of c div 64 < 62"
    "byte_of a div 4 < 62" "byte_of c mod 64 < 62" by linarith+
  then show ?case using b64_char_safe 4 by simp
qed simp

lemma b64_decode_encode: "list_all b64_plain s \<Longrightarrow> b64_decode (b64_encode s) = Some s"
proof -
  assume "list_all b64_plain s"
  then have "list_all url_safe (b64_encode s)" by (rule b64_encode_safe)
  then have "filter (\<lambda>c. c \<noteq> CHR 0x0A \<and> c \<noteq> CHR 0x0D) (b64_encode s) = b64_encode s"
    using url_safe_keeps by (fastforce simp: filter_id_conv list_all_iff)
  then show ?thesis by (simp add: b64_decode_def b64_quads_encode)
qed

section \<open>Tokens\<close>

type_synonym TokenDirection = "8 word"

definition TokenDirectionPrev :: TokenDirection where "TokenDirectionPrev = 1"
definition TokenDirectionNext :: TokenDirection where "TokenDirectionNext = 2"
definition TokenDirectionInvalid :: TokenDirection where "TokenDirectionInvalid = 3"

lemmas directions = TokenDirectionPrev_def TokenDirectionNext_def TokenDirectionInvalid_def

definition TokenDirection_String :: "TokenDirection \<Rightarrow> string" where
  "TokenDirection_String d = (if d = TokenDirectionPrev then ''prev'' else if d = TokenDirectionNext then ''next''
     else if d = TokenDirectionInvalid then ''invalid'' else ''unknown'')"

definition TokenDirection_IsValid :: "TokenDirection \<Rightarrow> bool" where
  "TokenDirection_IsValid d = (d = TokenDirectionPrev \<or> d = TokenDirectionNext)"

definition EncodeToken :: "uuid \<Rightarrow> 64 word \<Rightarrow> TokenDirection \<Rightarrow> string" where
  "EncodeToken u serial dir = b64_encode (uuid_string u @ '';'' @ itoa (sint serial) @ '';'' @ itoa (uint dir))"

text \<open>The error is the message of the \<open>InvalidCursorError\<close>.\<close>

definition DecodeToken :: "string \<Rightarrow> TokenDirection \<Rightarrow> string + (uuid \<times> 64 word \<times> TokenDirection)" where
  "DecodeToken s expectedDir =
     (case b64_decode s of
        None \<Rightarrow> Inl ''invalid token: not base64''
      | Some data \<Rightarrow>
       (case split_on (CHR '';'') data of
          [p0, p1, p2] \<Rightarrow>
           (case uuid_parse p0 of
              None \<Rightarrow> Inl ''invalid token: invalid uuid''
            | Some u \<Rightarrow>
             (case parse_int64 p1 of
                None \<Rightarrow> Inl ''invalid token: invalid serial number''
              | Some serial \<Rightarrow>
               (case parse_int64 p2 of
                  None \<Rightarrow> Inl ''invalid token: non-integer direction''
                | Some v \<Rightarrow>
                    if sint v < uint TokenDirectionPrev \<or> sint v > uint TokenDirectionInvalid
                    then Inl ''invalid token: unknown direction value''
                    else let parsedDir = ucast v in
                      if \<not> TokenDirection_IsValid parsedDir then Inl ''token contains an inherently invalid direction''
                      else if parsedDir \<noteq> expectedDir
                      then Inl (''token direction mismatch: expected '' @ TokenDirection_String expectedDir @ '', got ''
                             @ TokenDirection_String parsedDir)
                      else Inr (u, serial, parsedDir))))
        | _ \<Rightarrow> Inl ''invalid token: incorrect format''))"

lemma hex_digit_b64: "d < 16 \<Longrightarrow> b64_plain (hex_digit d)"
proof -
  assume "d < 16"
  moreover have "list_all (\<lambda>d. b64_plain (hex_digit d)) [0 ..< 16]"
    by (simp add: b64_plain_def hex_digit_def upt_rec)
  ultimately show ?thesis by (simp add: list_all_iff)
qed

lemma bytes_hex_b64: "list_all b64_plain (bytes_hex u i n)"
proof -
  have "list_all b64_plain (byte_hex b)" for b
    using hex_digit_b64 unat_byte[of b] by (simp add: byte_hex_def less_mult_imp_div_less)
  then show ?thesis by (simp add: bytes_hex_def list_all_iff)
qed

lemma itoa_b64: "list_all b64_plain (itoa v)"
  using itoa_chars[of _ v] by (force simp: list_all_iff b64_plain_def is_digit_char_def Let_def)

lemma payload_b64: "list_all b64_plain (uuid_string u @ '';'' @ itoa a @ '';'' @ itoa b)"
  using itoa_b64[of a] itoa_b64[of b] bytes_hex_b64 by (simp add: uuid_string_def) (simp add: b64_plain_def)

lemma payload_parts: "split_on (CHR '';'') (uuid_string u @ '';'' @ itoa a @ '';'' @ itoa b) = [uuid_string u, itoa a, itoa b]"
proof -
  have "CHR '';'' \<notin> set (itoa v)" for v using itoa_chars[of "CHR '';''" v] by (auto simp: is_digit_char_def)
  then show ?thesis using uuid_string_no_semicolon by (simp add: split_on_append split_on_no_sep)
qed

lemma sint_int64: "- (2 ^ 63) \<le> v \<Longrightarrow> v < 2 ^ 63 \<Longrightarrow> sint (word_of_int v :: 64 word) = v"
  by (simp add: signed_of_int signed_take_bit_int_eq_self)

lemma DecodeToken_EncodeToken:
  "DecodeToken (EncodeToken u serial dir) expected =
     (if TokenDirection_IsValid dir then
        if dir = expected then Inr (u, serial, dir)
        else Inl (''token direction mismatch: expected '' @ TokenDirection_String expected @ '', got '' @ TokenDirection_String dir)
      else Inl (if dir = TokenDirectionInvalid then ''token contains an inherently invalid direction''
        else ''invalid token: unknown direction value''))"
proof -
  have s: "- (2 ^ 63) \<le> sint serial" "sint serial < 2 ^ 63"
    using sint_ge[of serial] sint_lt[of serial] by simp_all
  have d: "0 \<le> uint dir" "uint dir < 2 ^ 8" using unsigned_less[of dir] by simp_all
  have b: "- (2 ^ 63) \<le> uint dir" "uint dir < 2 ^ 63"
    by (rule order_trans[OF _ d(1)], simp) (rule less_trans[OF d(2)], simp)
  have v: "sint (word_of_int (uint dir) :: 64 word) = uint dir" by (rule sint_int64[OF b])
  have w: "ucast (word_of_int (uint dir) :: 64 word) = dir"
    using d by (simp add: word_eq_iff_unsigned unsigned_ucast_eq unsigned_of_int take_bit_int_eq_self_iff take_bit_word_eq_self)
  have r: "uint dir < 1 \<or> 3 < uint dir \<longleftrightarrow> dir \<noteq> 1 \<and> dir \<noteq> 2 \<and> dir \<noteq> 3"
  proof -
    have "dir = 1 \<longleftrightarrow> uint dir = 1" "dir = 2 \<longleftrightarrow> uint dir = 2" "dir = 3 \<longleftrightarrow> uint dir = 3"
      by (simp_all add: word_uint_eq_iff)
    with d(1) show ?thesis by auto
  qed
  have "DecodeToken (EncodeToken u serial dir) expected =
      (if uint dir < 1 \<or> 3 < uint dir then Inl ''invalid token: unknown direction value''
       else if \<not> TokenDirection_IsValid dir then Inl ''token contains an inherently invalid direction''
       else if dir \<noteq> expected then Inl (''token direction mismatch: expected '' @ TokenDirection_String expected @ '', got '' @ TokenDirection_String dir)
       else Inr (u, serial, dir))"
    unfolding DecodeToken_def EncodeToken_def b64_decode_encode[OF payload_b64] option.case payload_parts list.case uuid_parse_string
      parse_int64_itoa[OF s] parse_int64_itoa[OF b] v w Let_def
    by (simp add: directions)
  with r show ?thesis by (simp add: TokenDirection_IsValid_def directions)
qed

text \<open>
  C35. A cursor token reads back as what it was made of, for the direction it
  was made for and no other, whatever the uuid, the serial and the
  direction; and it is made of characters that stand in a URL as they are,
  which \<open>GeneratePages\<close> relies on.
\<close>

theorem cursor_token_roundtrip:
  "DecodeToken (EncodeToken u serial dir) expected =
     (if TokenDirection_IsValid dir then
        if dir = expected then Inr (u, serial, dir)
        else Inl (''token direction mismatch: expected '' @ TokenDirection_String expected @ '', got '' @ TokenDirection_String dir)
      else Inl (if dir = TokenDirectionInvalid then ''token contains an inherently invalid direction''
        else ''invalid token: unknown direction value''))
   \<and> list_all url_safe (EncodeToken u serial dir)"
  using DecodeToken_EncodeToken b64_encode_safe[OF payload_b64] by (simp add: EncodeToken_def)

section \<open>The paginator\<close>

record Paginator =
  pgNextToken :: string
  pgNextPage :: string
  pgPrevToken :: string
  pgPrevPage :: string
  pgSize :: int
  pgLimit :: int

definition PaginatorMinLimit :: int where "PaginatorMinLimit = 1"
definition PaginatorMaxLimit :: int where "PaginatorMaxLimit = 1000"

definition token_options :: "string \<Rightarrow> StringValidationOptions" where
  "token_options field = \<lparr>FieldName = field, MinLength = 1, MaxLength = 1000, TrimWhitespace = True, AllowEmpty = False,
     NoControlChars = True, NoHTMLTags = False, NoScriptTags = False, NoNullBytes = True, NormalizeUnicode = False\<rparr>"

definition check_token :: "ValidationError list \<Rightarrow> string \<Rightarrow> TokenDirection \<Rightarrow> string \<Rightarrow> string \<Rightarrow> ValidationError list" where
  "check_token errs token dir field message =
     (if token = [] then errs
      else case ValidateString token (token_options field) of
        Inl e \<Rightarrow> Add errs (Some (VOne e))
      | Inr _ \<Rightarrow> (case DecodeToken token dir of
          Inl _ \<Rightarrow> AddError errs field message ''INVALID_TOKEN''
        | Inr _ \<Rightarrow> errs))"

definition Paginator_Validate :: "Paginator \<Rightarrow> verror option" where
  "Paginator_Validate p =
     (let errs = Add [] (ValidatePagination (pgLimit p) 0 []);
          errs = (if pgLimit p < PaginatorMinLimit \<or> pgLimit p > PaginatorMaxLimit
            then AddError errs ''limit'' (''limit must be between '' @ itoa PaginatorMinLimit @ '' and '' @ itoa PaginatorMaxLimit) ''INVALID_RANGE''
            else errs);
          errs = check_token errs (pgNextToken p) TokenDirectionNext ''next_token'' ''next token cannot be decoded'';
          errs = check_token errs (pgPrevToken p) TokenDirectionPrev ''prev_token'' ''previous token cannot be decoded''
      in errs_result errs)"

definition GeneratePages :: "string \<Rightarrow> Paginator \<Rightarrow> Paginator" where
  "GeneratePages url p = p\<lparr>
     pgNextPage := (if pgNextToken p \<noteq> [] then url @ ''?next_token='' @ pgNextToken p @ ''&limit='' @ itoa (pgLimit p) else []),
     pgPrevPage := (if pgPrevToken p \<noteq> [] then url @ ''?prev_token='' @ pgPrevToken p @ ''&limit='' @ itoa (pgLimit p) else [])\<rparr>"

definition GetTokens ::
  "int \<Rightarrow> uuid \<Rightarrow> 64 word \<Rightarrow> uuid \<Rightarrow> 64 word \<Rightarrow> TokenDirection \<Rightarrow> bool \<Rightarrow> bool \<Rightarrow> string \<times> string" where
  "GetTokens sizeOnPage firstID firstSerial lastID lastSerial dir moreNext morePrev =
     (if sizeOnPage = 0 then ([], [])
      else (if dir = TokenDirectionPrev \<or> moreNext then EncodeToken lastID lastSerial TokenDirectionNext else [],
            if dir = TokenDirectionNext \<or> morePrev then EncodeToken firstID firstSerial TokenDirectionPrev else []))"

definition GetPaginatorDirection :: "string \<Rightarrow> string \<Rightarrow> string + (TokenDirection \<times> uuid \<times> 64 word)" where
  "GetPaginatorDirection nextToken prevToken =
     (if nextToken \<noteq> [] \<and> prevToken \<noteq> [] then Inl ''both next and prev tokens cannot be provided''
      else if nextToken \<noteq> [] then
        (case DecodeToken nextToken TokenDirectionNext of Inl e \<Rightarrow> Inl e | Inr (u, serial, d) \<Rightarrow> Inr (d, u, serial))
      else if prevToken \<noteq> [] then
        (case DecodeToken prevToken TokenDirectionPrev of Inl e \<Rightarrow> Inl e | Inr (u, serial, d) \<Rightarrow> Inr (d, u, serial))
      else Inr (TokenDirectionInvalid, uuid_nil, 0))"

lemma EncodeToken_nonempty [simp]: "EncodeToken u s d \<noteq> []"
proof -
  have "b64_encode (c # cs) \<noteq> []" for c cs by (cases "c # cs" rule: b64_encode.cases) auto
  moreover obtain c cs where "uuid_string u = c # cs" by (cases "uuid_string u") (auto simp: uuid_string_def)
  ultimately show ?thesis by (simp add: EncodeToken_def)
qed

text \<open>Printable ASCII without white space passes the checks of a token as it is.\<close>

definition graph_char :: "char \<Rightarrow> bool" where
  "graph_char c = (32 < byte_of c \<and> byte_of c < 127)"

lemma graph_lead_space: "list_all graph_char s \<Longrightarrow> lead_space s = 0"
  by (cases s rule: lead_space.cases) (auto simp: graph_char_def ascii_space_def space2_def space3_def Let_def)

lemma graph_no_space: "list_all graph_char s \<Longrightarrow> \<not> has_space s"
proof (induction s)
  case (Cons a s)
  then show ?case using graph_lead_space[OF Cons.prems] by simp
qed simp

lemma graph_utf8: "list_all graph_char s \<Longrightarrow> valid_utf8 s"
proof (induction s)
  case (Cons c s)
  then have "rune_len (c # s) = 1" by (simp add: rune_len_def graph_char_def)
  with Cons show ?case by (subst valid_utf8.simps) simp
qed (simp add: valid_utf8.simps)

lemma ValidateString_graph:
  assumes "list_all graph_char s" "s \<noteq> []" "length s \<le> 1000"
  shows "ValidateString s (token_options field) = Inr s"
proof -
  have "CHR 0x00 \<notin> set s" using assms(1) by (auto simp: list_all_iff graph_char_def)
  moreover have "\<not> controlCharRegex s"
    using assms(1) by (force simp: controlCharRegex_def list_ex_iff list_all_iff graph_char_def control_char_def Let_def)
  moreover have "0 < length s" using assms(2) by simp
  ultimately show ?thesis
    using assms by (simp add: ValidateString_def token_options_def TrimSpace_no_space graph_no_space graph_utf8 Contains_single
        Let_def length_bounds)
qed

lemma b64_encode_length: "length (b64_encode s) \<le> 4 * length s"
  by (induction s rule: b64_encode.induct) auto

lemma nat_digits_length: "n < 10 ^ Suc k \<Longrightarrow> length (nat_digits n) \<le> Suc k"
proof (induction k arbitrary: n)
  case 0 then show ?case by (subst nat_digits.simps) simp
next
  case (Suc k)
  have "n div 10 < 10 ^ Suc k" using Suc.prems by (simp add: less_mult_imp_div_less)
  with Suc.IH[of "n div 10"] show ?case by (subst nat_digits.simps) simp
qed

lemma itoa_length: "\<bar>v\<bar> \<le> 2 ^ 63 \<Longrightarrow> length (itoa v) \<le> 21"
proof -
  assume "\<bar>v\<bar> \<le> 2 ^ 63"
  then have "nat v < 10 ^ Suc 19" "nat (- v) < 10 ^ Suc 19" by (auto simp: nat_less_iff)
  from this[THEN nat_digits_length] show ?thesis by (simp add: itoa_def)
qed

lemma EncodeToken_checked: "check_token errs (EncodeToken u s d) d field message = errs" if "TokenDirection_IsValid d"
proof -
  have "list_all graph_char (EncodeToken u s d)"
    using b64_encode_safe[OF payload_b64, of u "sint s" "uint d"]
    by (auto simp: EncodeToken_def list_all_iff url_safe_def graph_char_def Let_def)
  moreover have "length (EncodeToken u s d) \<le> 1000"
  proof -
    have "\<bar>sint s\<bar> \<le> 2 ^ 63" using sint_ge[of s] sint_lt[of s] by auto
    moreover have "uint d < 2 ^ LENGTH(8)" by (rule unsigned_less)
    then have "\<bar>uint d\<bar> \<le> 2 ^ 63" by simp
    ultimately have "length (itoa (sint s)) \<le> 21" "length (itoa (uint d)) \<le> 21" by (blast intro: itoa_length)+
    moreover have "length (uuid_string u) = 36" by (simp add: uuid_string_def bytes_hex_length)
    ultimately show ?thesis
      using b64_encode_length[of "uuid_string u @ '';'' @ itoa (sint s) @ '';'' @ itoa (uint d)"] by (simp add: EncodeToken_def)
  qed
  ultimately show ?thesis
    using that by (simp add: check_token_def ValidateString_graph DecodeToken_EncodeToken)
qed

end
