(* ===== verification/Paging.thy ===== *)
theory Paging
  imports Cursor "HOL-Library.Product_Lexorder" "HOL-Library.Multiset"
begin

text \<open>
  Listing with cursors: the statement of
  \<open>repositorypg/users.go\<close> (\<open>Select\<close>; the other lists are copies of it) with
  \<open>buildPaginationCriteria\<close>, and what a client that follows the tokens sees.
  What a filter matches and how a sort orders the rows of a page are
  parameters: they are SQL the caller writes.  Every page is read from the
  same table.
\<close>

record 'a item =
  itID :: uuid
  itSerial :: "64 word"
  itBody :: 'a

record SelectInput =
  slSort :: string
  slFilter :: string
  slFields :: string
  slPaginator :: Paginator

record 'a list_sql =
  filter_sql :: "string \<Rightarrow> 'a item \<Rightarrow> bool"
  sort_sql :: "string \<Rightarrow> 'a item list \<Rightarrow> 'a item list"

datatype select_error = SInput string | SInvalid verror | SCursor string | SQuery

text \<open>\<open>serial_id\<close> is a BIGINT, ids compare byte by byte.\<close>

definition item_key :: "'a item \<Rightarrow> int \<times> int" where
  "item_key r = (sint (itSerial r), uint (itID r))"

definition oldest_first :: "'a item list \<Rightarrow> 'a item list" where
  "oldest_first rs = sort_key item_key rs"

definition newest_first :: "'a item list \<Rightarrow> 'a item list" where
  "newest_first rs = rev (oldest_first rs)"

text \<open>The cursor's condition and the order inside the query.\<close>

definition buildPaginationCriteria ::
  "TokenDirection \<Rightarrow> uuid \<Rightarrow> 64 word \<Rightarrow> ('a item \<Rightarrow> bool) \<times> ('a item list \<Rightarrow> 'a item list)" where
  "buildPaginationCriteria dir u serial =
     (if dir = TokenDirectionNext
      then (\<lambda>r. sint (itSerial r) < sint serial \<or> (itSerial r = serial \<and> uint (itID r) < uint u), newest_first)
      else if dir = TokenDirectionPrev
      then (\<lambda>r. sint (itSerial r) > sint serial \<or> (itSerial r = serial \<and> uint (itID r) > uint u), oldest_first)
      else (\<lambda>r. True, newest_first))"

definition SelectInput_Validate :: "listExpressions \<Rightarrow> SelectInput \<Rightarrow> verror option" where
  "SelectInput_Validate exprs i =
     errs_result (validateListExpressions (Add [] (Paginator_Validate (slPaginator i)))
       (exprs\<lparr>le_sort := slSort i, le_filter := slFilter i, le_fields := slFields i\<rparr>))"

definition matching :: "'a list_sql \<Rightarrow> SelectInput \<Rightarrow> 'a item \<Rightarrow> bool" where
  "matching sql i r = (slFilter i = [] \<or> filter_sql sql (slFilter i) r)"

text \<open>The statement: the rows after the cursor, one more than the page, and then the caller's order.\<close>

definition page_query ::
  "'a list_sql \<Rightarrow> SelectInput \<Rightarrow> TokenDirection \<Rightarrow> uuid \<Rightarrow> 64 word \<Rightarrow> 'a item list \<Rightarrow> 'a item list" where
  "page_query sql i dir u serial tbl =
     (let (criteria, internalSort) = buildPaginationCriteria dir u serial;
          picked = take (nat (pgLimit (slPaginator i) + 1)) (internalSort (filter (\<lambda>r. matching sql i r \<and> criteria r) tbl))
      in if slSort i = [] then newest_first picked else sort_sql sql (slSort i) picked)"

text \<open>The loop over the page for its first and last serial.\<close>

definition pick_item :: "('a item \<Rightarrow> 'a item \<Rightarrow> bool) \<Rightarrow> 'a item list \<Rightarrow> 'a item" where
  "pick_item better rs = foldl (\<lambda>best r. if better r best then r else best) (hd rs) rs"

definition empty_paginator :: Paginator where
  "empty_paginator = \<lparr>pgNextToken = [], pgNextPage = [], pgPrevToken = [], pgPrevPage = [], pgSize = 0, pgLimit = 0\<rparr>"

definition SelectPage ::
  "listExpressions \<Rightarrow> 'a list_sql \<Rightarrow> bool \<Rightarrow> SelectInput option \<Rightarrow> 'a item list \<Rightarrow> select_error + ('a item list \<times> Paginator)" where
  "SelectPage exprs sql queryFails input tbl =
     (case input of
        None \<Rightarrow> Inl (SInput ''input is nil'')
      | Some i \<Rightarrow>
       (case SelectInput_Validate exprs i of
          Some e \<Rightarrow> Inl (SInvalid e)
        | None \<Rightarrow>
         (case GetPaginatorDirection (pgNextToken (slPaginator i)) (pgPrevToken (slPaginator i)) of
            Inl e \<Rightarrow> Inl (SCursor e)
          | Inr (dir, u, serial) \<Rightarrow>
              if queryFails then Inl SQuery
              else let fetched = page_query sql i dir u serial tbl;
                limit = pgLimit (slPaginator i);
                hasMore = int (length fetched) > limit;
                display = (if hasMore then take (nat limit) fetched else fetched)
              in if display = [] then Inr ([], empty_paginator)
                 else let
                   moreNext = (if dir = TokenDirectionPrev then True else hasMore);
                   morePrev = (if dir = TokenDirectionNext then True else if dir = TokenDirectionPrev then hasMore else False);
                   minItem = pick_item (\<lambda>a b. sint (itSerial a) < sint (itSerial b)) display;
                   maxItem = pick_item (\<lambda>a b. sint (itSerial a) > sint (itSerial b)) display;
                   (next, prev) = GetTokens (int (length display)) (itID maxItem) (itSerial maxItem)
                     (itID minItem) (itSerial minItem) dir moreNext morePrev
                 in Inr (display, empty_paginator\<lparr>pgSize := int (length display), pgLimit := limit,
                      pgNextToken := next, pgPrevToken := prev\<rparr>))))"

section \<open>A client that follows the tokens\<close>

definition at_token :: "SelectInput \<Rightarrow> string \<Rightarrow> string \<Rightarrow> SelectInput" where
  "at_token i next prev = i\<lparr>slPaginator := (slPaginator i)\<lparr>pgNextToken := next, pgPrevToken := prev\<rparr>\<rparr>"

text \<open>From a token to the last page; None when a page is refused or the steps run out.\<close>

fun walk_forward :: "listExpressions \<Rightarrow> 'a list_sql \<Rightarrow> SelectInput \<Rightarrow> 'a item list \<Rightarrow> nat \<Rightarrow> string \<Rightarrow> 'a item list list option" where
  "walk_forward exprs sql i tbl 0 token = None"
| "walk_forward exprs sql i tbl (Suc n) token =
     (case SelectPage exprs sql False (Some (at_token i token [])) tbl of
        Inl e \<Rightarrow> None
      | Inr (rs, p) \<Rightarrow>
          if pgNextToken p = [] then Some [rs]
          else map_option ((#) rs) (walk_forward exprs sql i tbl n (pgNextToken p)))"

text \<open>The reference: the rows cut into pages of the limit.\<close>

function pages_of :: "nat \<Rightarrow> 'b list \<Rightarrow> 'b list list" where
  "pages_of limit rs = (if limit = 0 \<or> length rs \<le> limit then [rs] else take limit rs # pages_of limit (drop limit rs))"
  by pat_completeness auto
termination by (relation "measure (\<lambda>(limit, rs). length rs)") auto

declare pages_of.simps [simp del]

lemma concat_pages_of: "concat (pages_of limit rs) = rs"
proof (induction limit rs rule: pages_of.induct)
  case (1 limit rs) then show ?case by (subst pages_of.simps) simp
qed

section \<open>Orders\<close>

definition falling :: "'a item list \<Rightarrow> bool" where
  "falling rs = sorted_wrt (\<lambda>a b. sint (itSerial a) > sint (itSerial b)) rs"

lemma newest_first_set [simp]: "set (newest_first rs) = set rs"
  by (simp add: newest_first_def oldest_first_def)

lemma rising: "distinct (map itSerial rs) \<Longrightarrow> sorted (map item_key rs) \<Longrightarrow>
  sorted_wrt (\<lambda>a b. sint (itSerial a) < sint (itSerial b)) rs"
proof (induction rs)
  case (Cons a rs)
  have "sint (itSerial a) < sint (itSerial b)" if "b \<in> set rs" for b
  proof -
    have "item_key a \<le> item_key b" "itSerial a \<noteq> itSerial b" using Cons.prems that by auto
    then show ?thesis using signed_word_eqI[of "itSerial a" "itSerial b"] by (auto simp: item_key_def order_le_less)
  qed
  with Cons show ?case by simp
qed simp

lemma newest_first_falling: "distinct (map itSerial rs) \<Longrightarrow> falling (newest_first rs)"
proof -
  assume d: "distinct (map itSerial rs)"
  have "distinct (map itSerial (oldest_first rs))" using d by (simp add: oldest_first_def distinct_map)
  from rising[OF this] show ?thesis by (simp add: newest_first_def oldest_first_def falling_def sorted_wrt_rev)
qed

lemma falling_sorted: "falling rs \<Longrightarrow> sorted (map item_key (rev rs))"
proof -
  assume f: "falling rs"
  then have "sorted_wrt (\<lambda>a b. sint (itSerial a) < sint (itSerial b)) (rev rs)" by (simp add: falling_def sorted_wrt_rev)
  then have "sorted_wrt (\<lambda>a b. item_key a \<le> item_key b) (rev rs)"
    by (rule sorted_wrt_mono_rel[rotated]) (simp add: item_key_def)
  then show ?thesis by (simp add: sorted_map)
qed

lemma falling_rev: "falling rs \<Longrightarrow> newest_first (rev rs) = rs"
  by (simp add: newest_first_def oldest_first_def sort_key_id_if_sorted[OF falling_sorted])

lemma falling_order: "falling rs \<Longrightarrow> newest_first rs = rs"
proof -
  assume f: "falling rs"
  then have "inj_on itSerial (set rs)" by (induction rs) (auto simp: falling_def)
  then have "inj_on item_key (set rs)"
    using signed_word_eqI by (fastforce simp: inj_on_def item_key_def)
  with falling_sorted[OF f] have "sort_key item_key rs = rev rs" by (intro sort_key_inj_key_eq) simp_all
  then show ?thesis by (simp add: newest_first_def oldest_first_def)
qed

lemma falling_parts: "falling (xs @ ys) \<Longrightarrow> falling xs \<and> falling ys"
  by (simp add: falling_def sorted_wrt_append)

lemma falling_take: "falling rs \<Longrightarrow> falling (take n rs)"
  using falling_parts[of "take n rs" "drop n rs"] by simp

lemma filter_newest: "newest_first (filter P rs) = filter P (newest_first rs)"
  by (simp add: newest_first_def oldest_first_def filter_sort flip: rev_filter)

lemma filter_oldest: "oldest_first (filter P rs) = rev (filter P (newest_first rs))"
  by (simp add: newest_first_def oldest_first_def filter_sort rev_filter)

text \<open>Around a row of the list, the cursor's conditions cut it in two.\<close>

lemma cursor_cuts:
  assumes "falling (xs @ c # ys)"
  shows "filter (fst (buildPaginationCriteria TokenDirectionNext (itID c) (itSerial c))) (xs @ c # ys) = ys"
    and "filter (fst (buildPaginationCriteria TokenDirectionPrev (itID c) (itSerial c))) (xs @ c # ys) = xs"
  using assms
  by (auto simp: buildPaginationCriteria_def directions falling_def sorted_wrt_append filter_empty_conv filter_id_conv)

lemma pick_last:
  "falling (r # rs) \<Longrightarrow> foldl (\<lambda>best x. if sint (itSerial x) < sint (itSerial best) then x else best) r rs = last (r # rs)"
  by (induction rs arbitrary: r) (auto simp: falling_def)

lemma pick_min: "falling rs \<Longrightarrow> rs \<noteq> [] \<Longrightarrow> pick_item (\<lambda>a b. sint (itSerial a) < sint (itSerial b)) rs = last rs"
  by (cases rs) (simp_all add: pick_item_def pick_last del: last.simps)

section \<open>One page\<close>

lemma at_token_simps [simp]:
  "slSort (at_token i a b) = slSort i" "slFilter (at_token i a b) = slFilter i" "slFields (at_token i a b) = slFields i"
  "pgLimit (slPaginator (at_token i a b)) = pgLimit (slPaginator i)"
  "pgNextToken (slPaginator (at_token i a b)) = a" "pgPrevToken (slPaginator (at_token i a b)) = b"
  "matching sql (at_token i a b) = matching sql i"
  by (auto simp: at_token_def matching_def)

lemma page_forward:
  fixes tbl :: "'a item list"
  assumes v: "SelectInput_Validate exprs (at_token i token []) = None" and sort: "slSort i = []"
    and lim: "int limit = pgLimit (slPaginator i)" "0 < limit"
    and dir: "GetPaginatorDirection token [] = Inr (dir, u, serial)" "dir \<noteq> TokenDirectionPrev"
    and ys: "filter (fst (buildPaginationCriteria dir u serial)) (newest_first (filter (matching sql i) tbl)) = ys" "falling ys"
  shows "\<exists>p. SelectPage exprs sql False (Some (at_token i token [])) tbl = Inr (take limit ys, p)
    \<and> pgNextToken p = (if limit < length ys
        then EncodeToken (itID (last (take limit ys))) (itSerial (last (take limit ys))) TokenDirectionNext else [])"
proof -
  define c :: "'a item \<Rightarrow> bool" where "c = fst (buildPaginationCriteria dir u serial)"
  have "snd (buildPaginationCriteria dir u serial) = (newest_first :: 'a item list \<Rightarrow> 'a item list)" using dir(2) by (simp add: buildPaginationCriteria_def)
  then have c: "buildPaginationCriteria dir u serial = (c, newest_first)" "fst (buildPaginationCriteria dir u serial) = c"
    by (simp_all add: c_def prod_eq_iff)
  have n: "nat (pgLimit (slPaginator i) + 1) = Suc limit" "nat (pgLimit (slPaginator i)) = limit" using lim by simp_all
  have "newest_first (filter c (filter (matching sql i) tbl)) = ys" using ys(1) c(2) by (simp add: filter_newest)
  then have q: "page_query sql (at_token i token []) dir u serial tbl = take (Suc limit) ys"
    using c sort n falling_order[OF falling_take[OF ys(2)]] by (simp add: page_query_def)
  have d: "(if int (length (take (Suc limit) ys)) > pgLimit (slPaginator i) then take limit (take (Suc limit) ys) else take (Suc limit) ys) = take limit ys"
    using lim by (simp add: min_def)
  have m: "int (length (take (Suc limit) ys)) > pgLimit (slPaginator i) \<longleftrightarrow> limit < length ys" using lim by (simp add: min_def) linarith
  show ?thesis
  proof (cases "ys = []")
    case True
    then show ?thesis using v dir q lim by (simp add: SelectPage_def empty_paginator_def)
  next
    case False
    then have "take limit ys \<noteq> []" using lim(2) by simp
    with pick_min[OF falling_take[OF ys(2)] this] v dir q show ?thesis
      by (simp add: SelectPage_def GetTokens_def Let_def lim(1)[symmetric] min_def split: prod.split)
  qed
qed

lemma valid_at_token:
  assumes "SelectInput_Validate exprs (at_token i [] []) = None"
  shows "SelectInput_Validate exprs (at_token i (EncodeToken u s TokenDirectionNext) []) = None"
    and "SelectInput_Validate exprs (at_token i [] (EncodeToken u s TokenDirectionPrev)) = None"
proof -
  have "Paginator_Validate (slPaginator (at_token i (EncodeToken u s TokenDirectionNext) [])) = Paginator_Validate (slPaginator (at_token i [] []))"
    "Paginator_Validate (slPaginator (at_token i [] (EncodeToken u s TokenDirectionPrev))) = Paginator_Validate (slPaginator (at_token i [] []))"
    by (simp_all add: Paginator_Validate_def EncodeToken_checked TokenDirection_IsValid_def)
      (simp_all add: check_token_def)
  with assms show "SelectInput_Validate exprs (at_token i (EncodeToken u s TokenDirectionNext) []) = None"
    "SelectInput_Validate exprs (at_token i [] (EncodeToken u s TokenDirectionPrev)) = None"
    by (simp_all add: SelectInput_Validate_def)
qed

lemma walk_from:
  assumes v: "SelectInput_Validate exprs (at_token i [] []) = None" and sort: "slSort i = []"
    and lim: "int limit = pgLimit (slPaginator i)" "0 < limit"
    and rows: "newest_first (filter (matching sql i) tbl) = xs @ ys" "falling (xs @ ys)"
    and token: "token = (if xs = [] then [] else EncodeToken (itID (last xs)) (itSerial (last xs)) TokenDirectionNext)"
    and n: "length ys < n"
  shows "walk_forward exprs sql i tbl n token = Some (pages_of limit ys)"
  using rows token n
proof (induction n arbitrary: xs ys token)
  case (Suc n)
  have v': "SelectInput_Validate exprs (at_token i token []) = None" using valid_at_token[OF v] v Suc.prems(3) by simp
  have "\<exists>dir u serial. GetPaginatorDirection token [] = Inr (dir, u, serial) \<and> dir \<noteq> TokenDirectionPrev
      \<and> filter (fst (buildPaginationCriteria dir u serial)) (xs @ ys) = ys"
  proof (cases "xs = []")
    case True
    then show ?thesis using Suc.prems(3) by (simp add: GetPaginatorDirection_def buildPaginationCriteria_def directions)
  next
    case False
    then obtain xs' c where xs: "xs = xs' @ [c]" by (meson rev_exhaust)
    then have "falling (xs' @ c # ys)" using Suc.prems(2) by simp
    from cursor_cuts(1)[OF this] xs Suc.prems(3) show ?thesis
      by (simp add: GetPaginatorDirection_def DecodeToken_EncodeToken TokenDirection_IsValid_def directions)
  qed
  then obtain dir u serial where dir: "GetPaginatorDirection token [] = Inr (dir, u, serial)" "dir \<noteq> TokenDirectionPrev"
    "filter (fst (buildPaginationCriteria dir u serial)) (newest_first (filter (matching sql i) tbl)) = ys"
    using Suc.prems(1) by auto
  have f: "falling ys" using falling_parts[OF Suc.prems(2)] by simp
  obtain p where p: "SelectPage exprs sql False (Some (at_token i token [])) tbl = Inr (take limit ys, p)"
    "pgNextToken p = (if limit < length ys
        then EncodeToken (itID (last (take limit ys))) (itSerial (last (take limit ys))) TokenDirectionNext else [])"
    using page_forward[OF v' sort lim dir f] by blast
  show ?case
  proof (cases "limit < length ys")
    case False
    with p show ?thesis by (simp add: pages_of.simps[of limit ys])
  next
    case True
    have y: "ys = take limit ys @ drop limit ys" "take limit ys \<noteq> []" using True lim(2) by auto
    have "walk_forward exprs sql i tbl n (pgNextToken p) = Some (pages_of limit (drop limit ys))"
    proof (rule Suc.IH)
      show "newest_first (filter (matching sql i) tbl) = (xs @ take limit ys) @ drop limit ys"
        "falling ((xs @ take limit ys) @ drop limit ys)" using Suc.prems by simp_all
      show "pgNextToken p = (if xs @ take limit ys = [] then []
          else EncodeToken (itID (last (xs @ take limit ys))) (itSerial (last (xs @ take limit ys))) TokenDirectionNext)"
        using p(2) True y(2) by simp
      show "length (drop limit ys) < n" using Suc.prems(4) True lim(2) by simp
    qed
    with p True lim(2) show ?thesis by (simp add: pages_of.simps[of limit ys])
  qed
qed simp

text \<open>
  C8. A list read page by page, without a sort of its own, is the list: a
  client that follows the next tokens reaches the last page within as many
  steps as there are rows and one more, and its pages are the rows the filter
  matches, newest first, each once, cut every \<open>limit\<close> rows.
\<close>

theorem following_next_lists_every_row:
  assumes "SelectInput_Validate exprs (at_token i [] []) = None" "slSort i = []"
    and "int limit = pgLimit (slPaginator i)" "0 < limit" "distinct (map itSerial tbl)"
  shows "walk_forward exprs sql i tbl (Suc (length tbl)) [] = Some (pages_of limit (newest_first (filter (matching sql i) tbl)))
    \<and> concat (pages_of limit (newest_first (filter (matching sql i) tbl))) = newest_first (filter (matching sql i) tbl)"
proof -
  have "distinct (map itSerial (filter (matching sql i) tbl))" using assms(5) by (simp add: distinct_map_filter)
  then have f: "falling (newest_first (filter (matching sql i) tbl))" by (rule newest_first_falling)
  have "length (newest_first (filter (matching sql i) tbl)) < Suc (length tbl)"
    by (simp add: newest_first_def oldest_first_def le_imp_less_Suc)
  with walk_from[OF assms(1-4), of sql tbl "[]" "newest_first (filter (matching sql i) tbl)" "[]" "Suc (length tbl)"] f show ?thesis by (simp add: concat_pages_of del: walk_forward.simps)
qed

definition any_expression :: listExpressions where
  "any_expression = \<lparr>sortParser = (\<lambda>_. None), filterParser = (\<lambda>_. None), fieldsParser = (\<lambda>_. None), le_sort = [], le_filter = [],
     le_fields = [], sortFields = [''first_name''], filterFields = [], partialFields = []\<rparr>"

definition two_per_page :: "string \<Rightarrow> SelectInput" where
  "two_per_page order = \<lparr>slSort = order, slFilter = [], slFields = [], slPaginator = empty_paginator\<lparr>pgLimit := 2\<rparr>\<rparr>"

lemma two_per_page_valid: "SelectInput_Validate any_expression (at_token (two_per_page order) [] []) = None" if "order \<in> {[], ''first_name''}"
  using that
  by (auto simp: SelectInput_Validate_def two_per_page_def at_token_def any_expression_def empty_paginator_def Paginator_Validate_def
      ValidatePagination_def check_token_def PaginatorMinLimit_def PaginatorMaxLimit_def errs_result_def HasErrors_def
      validateListExpressions_def boundedExpression_def parse_step_def ValidateSortExpression_def ValidateFilterExpression_def
      ValidateFieldsExpression_def length_bounds Let_def)

text \<open>Accounts by serial; the body stands for the place of the name in the alphabet.\<close>

definition person :: "nat \<Rightarrow> nat \<Rightarrow> nat item" where
  "person serial name = \<lparr>itID = uuid7 serial, itSerial = of_nat serial, itBody = name\<rparr>"

definition people :: "nat item list" where "people = [person 4 26, person 3 2, person 2 3]"

definition by_name :: "nat list_sql" where
  "by_name = \<lparr>filter_sql = (\<lambda>_ _. True), sort_sql = (\<lambda>_. sort_key itBody)\<rparr>"

theorem following_next_lists_every_row_witness:
  "concat (pages_of 2 (newest_first (filter (matching by_name (two_per_page [])) people))) =
     newest_first (filter (matching by_name (two_per_page [])) people)"
proof -
  have "distinct (map itSerial people)" by (simp add: people_def person_def)
  with following_next_lists_every_row[OF two_per_page_valid, of "[]" 2 people by_name] show ?thesis
    by (simp add: two_per_page_def empty_paginator_def)
qed

section \<open>Backwards, and under a sort\<close>

text \<open>
  The previous token does not lead to the previous page.  When more than
  one page of rows is newer than the cursor, the page before it leaves out
  the row right before the cursor and starts one row too early: the query
  fetches \<open>limit + 1\<close> rows from the cursor on, its order is turned round, and
  the row cut off as the extra one is the nearest, not the furthest.
\<close>

theorem previous_page_skips_the_nearest_row:
  fixes tbl :: "'a item list"
  assumes "SelectInput_Validate exprs (at_token i [] []) = None" "slSort i = []"
    and "int limit = pgLimit (slPaginator i)" "0 < limit" "distinct (map itSerial tbl)"
    and "newest_first (filter (matching sql i) tbl) = xs @ c # ys" "limit < length xs"
  shows "\<exists>p. SelectPage exprs sql False (Some (at_token i [] (EncodeToken (itID c) (itSerial c) TokenDirectionPrev))) tbl
      = Inr (take limit (drop (length xs - Suc limit) xs), p)
    \<and> last xs \<notin> set (take limit (drop (length xs - Suc limit) xs))"
proof -
  let ?tok = "EncodeToken (itID c) (itSerial c) TokenDirectionPrev"
  note v = valid_at_token(2)[OF assms(1)]
  have "distinct (map itSerial (filter (matching sql i) tbl))" using assms(5) by (simp add: distinct_map_filter)
  then have f: "falling (xs @ c # ys)" using newest_first_falling assms(6) by metis
  define k where "k = fst (buildPaginationCriteria TokenDirectionPrev (itID c) (itSerial c) :: ('a item \<Rightarrow> bool) \<times> _)"
  have b: "buildPaginationCriteria TokenDirectionPrev (itID c) (itSerial c) = (k, oldest_first :: 'a item list \<Rightarrow> _)"
    by (simp add: k_def buildPaginationCriteria_def directions)
  have "oldest_first (filter (\<lambda>r. matching sql i r \<and> k r) tbl) = rev (filter k (newest_first (filter (matching sql i) tbl)))"
    by (simp flip: filter_filter) (simp add: filter_oldest filter_newest)
  then have o: "oldest_first (filter (\<lambda>r. matching sql i r \<and> k r) tbl) = rev xs"
    unfolding k_def assms(6) cursor_cuts(2)[OF f] .
  have n: "nat (int limit + 1) = Suc limit" by simp
  have fx: "falling xs" using falling_parts[OF f] by simp
  let ?d = "drop (length xs - Suc limit) xs"
  have d: "take (Suc limit) (rev xs) = rev ?d" "falling ?d" "length ?d = Suc limit"
    using assms(7) falling_parts[of "take (length xs - Suc limit) xs" ?d] fx by (simp_all add: rev_drop)
  have q: "page_query sql (at_token i [] ?tok) TokenDirectionPrev (itID c) (itSerial c) tbl = ?d"
    using d falling_rev[OF d(2)] by (simp add: page_query_def b o n assms(2) assms(3)[symmetric])
  have "?d = take limit ?d @ [last ?d]"
    using d(3) by (metis append_butlast_last_id butlast_conv_take diff_Suc_1 list.size(3) nat.distinct(1))
  moreover have "last ?d = last xs" using assms(7) by simp
  ultimately have "last xs \<notin> set (take limit ?d)"
    using d(2) by (metis falling_def sorted_wrt_append list.set_intros(1) order_less_irrefl)
  moreover have "take limit ?d \<noteq> []" using d(3) assms(4) by auto
  moreover have "GetPaginatorDirection [] ?tok = Inr (TokenDirectionPrev, itID c, itSerial c)"
    by (simp add: GetPaginatorDirection_def DecodeToken_EncodeToken TokenDirection_IsValid_def)
  ultimately show ?thesis
    using v q d(3) by (simp add: SelectPage_def assms(3)[symmetric] Let_def split: prod.split)
qed

lemma people_pages: "newest_first (filter (matching by_name (two_per_page [])) ps) = newest_first ps"
  by (simp add: matching_def two_per_page_def)

definition five_people :: "nat item list" where "five_people = map (\<lambda>n. person n n) [2, 3, 4, 5, 6]"

theorem previous_page_skips_the_nearest_row_witness:
  "person 3 3 \<notin> set (take 2 (drop 1 [person 6 6, person 5 5, person 4 4, person 3 3]))"
proof -
  let ?i = "two_per_page []" and ?xs = "[person 6 6, person 5 5, person 4 4, person 3 3]"
  have "falling [person 6 6, person 5 5, person 4 4, person 3 3, person 2 2]" by (simp add: falling_def person_def)
  from falling_rev[OF this] have "newest_first five_people = ?xs @ person 2 2 # []"
    by (simp add: five_people_def)
  then have n: "newest_first (filter (matching by_name ?i) five_people) = ?xs @ person 2 2 # []" by (simp add: people_pages)
  have d: "distinct (map itSerial five_people)" by (simp add: five_people_def person_def)
  have s: "slSort ?i = []" "int 2 = pgLimit (slPaginator ?i)" by (simp_all add: two_per_page_def empty_paginator_def)
  obtain p where "last ?xs \<notin> set (take 2 (drop (length ?xs - Suc 2) ?xs))"
    using previous_page_skips_the_nearest_row[OF two_per_page_valid s _ d n] by fastforce
  then show ?thesis by simp
qed

text \<open>
  Under a sort of the caller's the next tokens lose rows.  The extra row is
  cut off after the caller's order, so it can be any row of the page; the
  token continues below the lowest serial shown, and a row that was cut off
  above it is on no page.  Of three accounts, two to a page by name, the
  newest is never listed.
\<close>

theorem following_next_under_a_sort_loses_a_row:
  "walk_forward any_expression by_name (two_per_page ''first_name'') people 4 [] = Some [[person 3 2, person 2 3], []]
   \<and> person 4 26 \<in> set people \<and> matching by_name (two_per_page ''first_name'') (person 4 26)"
proof -
  let ?i = "two_per_page ''first_name''"
  have s: "slSort ?i = ''first_name''" "slFilter ?i = []" "pgLimit (slPaginator ?i) = 2"
    by (simp_all add: two_per_page_def empty_paginator_def)
  have f: "falling [person 4 26, person 3 2, person 2 3]" by (simp add: falling_def person_def)
  note q = page_query_def buildPaginationCriteria_def directions s by_name_def people_def falling_order[OF f] matching_def
  have q1: "page_query by_name (at_token ?i [] []) TokenDirectionInvalid uuid_nil 0 people = [person 3 2, person 2 3, person 4 26]"
    by (simp add: q) (simp add: person_def)
  have q2: "page_query by_name (at_token ?i t []) TokenDirectionNext (itID (person 2 3)) (itSerial (person 2 3)) people = []" for t
    by (simp add: q) (simp add: person_def newest_first_def oldest_first_def)
  note v = two_per_page_valid[of "''first_name''", simplified]
  let ?t = "EncodeToken (itID (person 2 3)) (itSerial (person 2 3)) TokenDirectionNext"
  have pick: "pick_item (\<lambda>a b. sint (itSerial a) < sint (itSerial b)) [person 3 2, person 2 3] = person 2 3"
    by (simp add: pick_item_def person_def)
  have dd: "TokenDirectionInvalid \<noteq> TokenDirectionPrev" "TokenDirectionInvalid \<noteq> TokenDirectionNext" by (simp_all add: directions)
  have p1: "\<exists>p. SelectPage any_expression by_name False (Some (at_token ?i [] [])) people = Inr ([person 3 2, person 2 3], p) \<and> pgNextToken p = ?t"
    using v dd by (simp add: SelectPage_def GetPaginatorDirection_def q1 s pick GetTokens_def Let_def split: prod.split)
  have p2: "SelectPage any_expression by_name False (Some (at_token ?i ?t [])) people = Inr ([], empty_paginator)"
    using valid_at_token(1)[OF v] by (simp add: SelectPage_def GetPaginatorDirection_def DecodeToken_EncodeToken TokenDirection_IsValid_def q2 s)
  have "walk_forward any_expression by_name ?i people 4 [] = Some [[person 3 2, person 2 3], []]"
    using p1 p2 by (auto simp: numeral_eq_Suc empty_paginator_def)
  then show ?thesis by (simp add: people_def matching_def s)
qed

end
