(* ===== verification/TokenJWT.thy ===== *)
theory TokenJWT
  imports RevokedTokens Cursor
begin

text \<open>
  The signer (\<open>internal/adapter/driven/tokenjwt\<close>): the keyset, \<open>Sign\<close> and
  \<open>Verify\<close>.  The JWT library, the curve arithmetic of a key and SHA-256 are a
  record of parameters; \<open>jwt_laws\<close> states what the adapter relies on of the
  library.  Reading and writing JSON claims is part of it: claims are a map
  from names to values.
\<close>

section \<open>Claims and keys\<close>

record JWTClaims =
  jcIDP :: string
  jcEmail :: string
  jcData :: string
  jcSubject :: string
  jcTokenType :: TokenType
  jcIssuer :: string
  jcTokenDuration :: duration
  jcTokenID :: uuid

text \<open>A JSON value of a claim; an absent claim and null both read as nil.\<close>

datatype cval = CNull | CStr string | CNum int | CList "string list" | COther

type_synonym claims = "string \<Rightarrow> cval option"

record InvalidJWTError =
  jeMessage :: string
  jeExpired :: bool

datatype signer_error =
    InvalidPrivateKey string | InvalidPublicKey string | InvalidIssuer string
  | SignFailed string | BadJWT InvalidJWTError

definition jwt_error :: "string \<Rightarrow> signer_error" where
  "jwt_error message = BadJWT \<lparr>jeMessage = message, jeExpired = False\<rparr>"

record jwt_header =
  hdAlg :: string
  hdKid :: "cval option"

record parser_options =
  poMethods :: "string list"
  poIssuer :: string
  poAudience :: string
  poExpirationRequired :: bool

datatype parse_error = PKeyFunc signer_error | PExpired | PUsedBeforeIssued | PInvalidIssuer | PInvalidAudience | POther

text \<open>
  What is taken from outside: PEM parsing, the public half of a key, whether
  its curve is P-256 and its SEC 1 bytes, SHA-256, the library's
  \<open>SignedString\<close> and \<open>Parse\<close> (with the key function it calls and whether the
  token is valid).
\<close>

record ('k, 'p) jwt_lib =
  ParsePrivate :: "string \<Rightarrow> 'k option"
  ParsePublic :: "string \<Rightarrow> 'p option"
  PublicHalf :: "'k \<Rightarrow> 'p"
  IsP256 :: "'p \<Rightarrow> bool"
  PointBytes :: "'p \<Rightarrow> string option"
  Sha256 :: "string \<Rightarrow> string"
  SignedString :: "jwt_header \<Rightarrow> claims \<Rightarrow> 'k \<Rightarrow> string option"
  Parse :: "parser_options \<Rightarrow> (jwt_header \<Rightarrow> signer_error + 'p) \<Rightarrow> instant \<Rightarrow> string \<Rightarrow> parse_error + (claims \<times> bool)"

text \<open>\<open>base64.RawURLEncoding\<close>: the URL alphabet, without padding.\<close>

definition b64_raw_url :: "string \<Rightarrow> string" where
  "b64_raw_url s = map (\<lambda>c. if c = CHR ''+'' then CHR ''-'' else if c = CHR ''/'' then CHR ''_'' else c)
     (filter (\<lambda>c. c \<noteq> CHR ''='') (b64_encode s))"

text \<open>The thumbprint of RFC 7638; only P-256 keys have one.  \<open>0x22\<close> is the quotation mark.\<close>

definition keyID :: "('k, 'p) jwt_lib \<Rightarrow> 'p \<Rightarrow> string option" where
  "keyID lib pub =
     (if \<not> IsP256 lib pub then None
      else case PointBytes lib pub of
        None \<Rightarrow> None
      | Some point \<Rightarrow>
          if length point \<noteq> 65 \<or> hd point \<noteq> CHR 0x04 then None
          else let q = [CHR 0x22]; x = take 32 (drop 1 point); y = drop 33 point in
            Some (b64_raw_url (Sha256 lib (''{'' @ q @ ''crv'' @ q @ '':'' @ q @ ''P-256'' @ q @ '','' @ q @ ''kty'' @ q @ '':''
              @ q @ ''EC'' @ q @ '','' @ q @ ''x'' @ q @ '':'' @ q @ b64_raw_url x @ q @ '','' @ q @ ''y'' @ q @ '':''
              @ q @ b64_raw_url y @ q @ ''}''))))"

record SignerConfig =
  scIssuer :: string
  scPrivateKey :: string
  scPublicKey :: string
  scAdditionalPublicKeys :: "string list"

record ('k, 'p) Signer =
  sgPrivateKey :: 'k
  sgVerifyKeys :: "string \<Rightarrow> 'p option"
  sgIssuer :: string
  sgSigningKeyID :: string

text \<open>The loop over the additional keys.\<close>

fun add_keys :: "('k, 'p) jwt_lib \<Rightarrow> string list \<Rightarrow> (string \<Rightarrow> 'p option) \<Rightarrow> signer_error + (string \<Rightarrow> 'p option)" where
  "add_keys lib [] keys = Inr keys"
| "add_keys lib (raw # rest) keys =
     (if raw = [] then add_keys lib rest keys
      else case ParsePublic lib raw of
        None \<Rightarrow> Inl (InvalidPublicKey ''additional public key is not a PEM-encoded EC key'')
      | Some additional \<Rightarrow> (case keyID lib additional of
          None \<Rightarrow> Inl (InvalidPublicKey ''additional public key cannot be identified'')
        | Some kid \<Rightarrow> add_keys lib rest (keys(kid \<mapsto> additional))))"

definition NewSigner :: "('k, 'p) jwt_lib \<Rightarrow> SignerConfig \<Rightarrow> signer_error + ('k, 'p) Signer" where
  "NewSigner lib conf =
     (if scPrivateKey conf = [] then Inl (InvalidPrivateKey ''PrivateKey is empty'')
      else if scPublicKey conf = [] then Inl (InvalidPublicKey ''PublicKey is empty'')
      else if scIssuer conf = [] then Inl (InvalidIssuer ''Issuer is empty, but it is required to verify iss and aud'')
      else case ParsePrivate lib (scPrivateKey conf) of
        None \<Rightarrow> Inl (InvalidPrivateKey ''PrivateKey is not a PEM-encoded EC key'')
      | Some priv \<Rightarrow> (case ParsePublic lib (scPublicKey conf) of
          None \<Rightarrow> Inl (InvalidPublicKey ''PublicKey is not a PEM-encoded EC key'')
        | Some pub \<Rightarrow> (case keyID lib (PublicHalf lib priv) of
            None \<Rightarrow> Inl (InvalidPrivateKey ''PrivateKey cannot be identified'')
          | Some signingKeyID \<Rightarrow> (case keyID lib pub of
              None \<Rightarrow> Inl (InvalidPublicKey ''PublicKey cannot be identified'')
            | Some configuredKeyID \<Rightarrow>
                if configuredKeyID \<noteq> signingKeyID then Inl (InvalidPublicKey ''PublicKey is not the public half of PrivateKey'')
                else (case add_keys lib (scAdditionalPublicKeys conf) [signingKeyID \<mapsto> PublicHalf lib priv] of
                    Inl e \<Rightarrow> Inl e
                  | Inr verifyKeys \<Rightarrow> Inr \<lparr>sgPrivateKey = priv, sgVerifyKeys = verifyKeys, sgIssuer = scIssuer conf,
                      sgSigningKeyID = signingKeyID\<rparr>)))))"

section \<open>Signing and verifying\<close>

text \<open>
  The claims of a token, as they are read back: the empty ones of idp, email
  and data are omitted, dates are whole seconds.
\<close>

definition unix_seconds :: "instant \<Rightarrow> int" where
  "unix_seconds t = t div second"

definition omit_empty :: "string \<Rightarrow> cval option" where
  "omit_empty s = (if s = [] then None else Some (CStr s))"

definition tokenCustomClaims :: "instant \<Rightarrow> uuid \<Rightarrow> JWTClaims \<Rightarrow> claims" where
  "tokenCustomClaims now jwtID c = Map.empty(
     ''idp'' := omit_empty (jcIDP c), ''email'' := omit_empty (jcEmail c), ''data'' := omit_empty (jcData c),
     ''token_type'' \<mapsto> CStr (jcTokenType c), ''jti'' \<mapsto> CStr (uuid_string jwtID), ''iss'' \<mapsto> CStr (jcIssuer c),
     ''aud'' \<mapsto> CList [jcIssuer c], ''sub'' \<mapsto> CStr (jcSubject c), ''iat'' \<mapsto> CNum (unix_seconds now),
     ''exp'' \<mapsto> CNum (unix_seconds (now + jcTokenDuration c)))"

definition Sign :: "('k, 'p) jwt_lib \<Rightarrow> ('k, 'p) Signer \<Rightarrow> instant \<Rightarrow> uuid \<Rightarrow> JWTClaims \<Rightarrow> signer_error + string" where
  "Sign lib s now fresh c =
     (if jcSubject c = [] then Inl (SignFailed ''subject is required'')
      else if \<not> TokenType_IsValid (jcTokenType c) then Inl (SignFailed ''invalid token type'')
      else if jcIssuer c = [] then Inl (SignFailed ''issuer is required'')
      else let jwtID = (if jcTokenID c = uuid_nil then fresh else jcTokenID c) in
        case SignedString lib \<lparr>hdAlg = ''ES256'', hdKid = Some (CStr (sgSigningKeyID s))\<rparr> (tokenCustomClaims now jwtID c) (sgPrivateKey s) of
          None \<Rightarrow> Inl (SignFailed ''signing failed'')
        | Some token \<Rightarrow> Inr token)"

definition keyFunc :: "('k, 'p) Signer \<Rightarrow> jwt_header \<Rightarrow> signer_error + 'p" where
  "keyFunc s h =
     (case hdKid h of
        Some (CStr kid) \<Rightarrow> (case sgVerifyKeys s kid of
            None \<Rightarrow> Inl (jwt_error ''the token was signed by an unknown key'')
          | Some key \<Rightarrow> Inr key)
      | _ \<Rightarrow> Inl (jwt_error ''the token has no kid header''))"

definition mapJWTError :: "parse_error \<Rightarrow> signer_error" where
  "mapJWTError e = (case e of
     PKeyFunc invalid \<Rightarrow> invalid
   | PExpired \<Rightarrow> BadJWT \<lparr>jeMessage = ''the token has expired'', jeExpired = True\<rparr>
   | PUsedBeforeIssued \<Rightarrow> jwt_error ''the token is not valid yet''
   | _ \<Rightarrow> jwt_error ''the token is not valid'')"

definition verify_options :: "('k, 'p) Signer \<Rightarrow> parser_options" where
  "verify_options s = \<lparr>poMethods = [''ES256''], poIssuer = sgIssuer s, poAudience = sgIssuer s, poExpirationRequired = True\<rparr>"

definition VerifyToken :: "('k, 'p) jwt_lib \<Rightarrow> ('k, 'p) Signer \<Rightarrow> instant \<Rightarrow> string \<Rightarrow> signer_error + claims" where
  "VerifyToken lib s now token =
     (case Parse lib (verify_options s) (keyFunc s) now token of
        Inl e \<Rightarrow> Inl (mapJWTError e)
      | Inr (c, valid) \<Rightarrow> if valid then Inr c else Inl (jwt_error ''the token is not valid''))"

section \<open>What the adapter relies on\<close>

text \<open>
  The documented behaviour of the library: a token it signed parses, under
  the key of the pair, to its header's method and its claims while it has
  not expired; and what parses carries the issuer and the audience asked for
  and, when one is required, an expiry that has not passed.  A claim that is
  null or absent is not there.
\<close>

definition claims_accepted :: "parser_options \<Rightarrow> instant \<Rightarrow> claims \<Rightarrow> bool" where
  "claims_accepted opts now c =
     (c ''iss'' = Some (CStr (poIssuer opts))
      \<and> (\<exists>l. c ''aud'' = Some (CList l) \<and> poAudience opts \<in> set l)
      \<and> (\<exists>e. c ''exp'' = Some (CNum e) \<and> now < e * second))"

definition jwt_laws :: "('k, 'p) jwt_lib \<Rightarrow> bool" where
  "jwt_laws lib \<longleftrightarrow>
     (\<forall>opts kf now h c k token. SignedString lib h c k = Some token \<longrightarrow> kf h = Inr (PublicHalf lib k) \<longrightarrow>
        hdAlg h \<in> set (poMethods opts) \<longrightarrow> claims_accepted opts now c \<longrightarrow> Parse lib opts kf now token = Inr (c, True))
   \<and> (\<forall>opts kf now h c k c' token. SignedString lib h c k = Some token \<longrightarrow> Parse lib opts kf now token = Inr (c', True) \<longrightarrow>
        c' = c \<and> (poExpirationRequired opts \<longrightarrow> claims_accepted opts now c))"

text \<open>Two keys with one thumbprint are one key: SHA-256 does not collide.\<close>

definition thumbprints_differ :: "('k, 'p) jwt_lib \<Rightarrow> bool" where
  "thumbprints_differ lib \<longleftrightarrow> (\<forall>p q kid. keyID lib p = Some kid \<longrightarrow> keyID lib q = Some kid \<longrightarrow> p = q)"

lemma jwt_signed:
  "jwt_laws lib \<Longrightarrow> SignedString lib h c k = Some token \<Longrightarrow> kf h = Inr (PublicHalf lib k) \<Longrightarrow> hdAlg h \<in> set (poMethods opts) \<Longrightarrow>
   claims_accepted opts now c \<Longrightarrow> Parse lib opts kf now token = Inr (c, True)"
  unfolding jwt_laws_def by blast

lemma jwt_parsed:
  "jwt_laws lib \<Longrightarrow> SignedString lib h c k = Some token \<Longrightarrow> Parse lib opts kf now token = Inr (c', True) \<Longrightarrow> poExpirationRequired opts \<Longrightarrow>
   c' = c \<and> claims_accepted opts now c"
  unfolding jwt_laws_def by blast

section \<open>The keyset\<close>

definition identified :: "('k, 'p) jwt_lib \<Rightarrow> (string \<Rightarrow> 'p option) \<Rightarrow> bool" where
  "identified lib keys \<longleftrightarrow> (\<forall>kid p. keys kid = Some p \<longrightarrow> keyID lib p = Some kid)"

lemma add_keys_step:
  assumes "add_keys lib (raw # rest) keys = Inr keys'"
  shows "(raw = [] \<and> add_keys lib rest keys = Inr keys') \<or>
    (raw \<noteq> [] \<and> (\<exists>p kid. ParsePublic lib raw = Some p \<and> keyID lib p = Some kid \<and> add_keys lib rest (keys(kid \<mapsto> p)) = Inr keys'))"
  using assms by (simp split: if_splits option.splits)

lemma add_keys_identified: "add_keys lib raws keys = Inr keys' \<Longrightarrow> identified lib keys \<Longrightarrow> identified lib keys'"
proof (induction raws arbitrary: keys)
  case (Cons raw rest)
  have "identified lib (keys(kid \<mapsto> p))" if "keyID lib p = Some kid" for kid p
    using Cons.prems(2) that by (simp add: identified_def)
  with add_keys_step[OF Cons.prems(1)] Cons.IH Cons.prems(2) show ?case by blast
qed simp

lemma add_keys_grows: "add_keys lib raws keys = Inr keys' \<Longrightarrow> keys kid \<noteq> None \<Longrightarrow> keys' kid \<noteq> None"
proof (induction raws arbitrary: keys)
  case (Cons raw rest)
  have "(keys(k \<mapsto> p)) kid \<noteq> None" for k p using Cons.prems(2) by simp
  with add_keys_step[OF Cons.prems(1)] Cons.IH Cons.prems(2) show ?case by blast
qed simp

lemma add_keys_lists:
  "add_keys lib raws keys = Inr keys' \<Longrightarrow> raw \<in> set raws \<Longrightarrow> raw \<noteq> [] \<Longrightarrow> ParsePublic lib raw = Some p \<Longrightarrow> keyID lib p = Some kid \<Longrightarrow>
   keys' kid \<noteq> None"
proof (induction raws arbitrary: keys)
  case (Cons raw' rest)
  show ?case
  proof (cases "raw' = raw")
    case True
    with add_keys_step[OF Cons.prems(1)] Cons.prems(3,4,5) have "add_keys lib rest (keys(kid \<mapsto> p)) = Inr keys'" by auto
    from add_keys_grows[OF this, of kid] show ?thesis by simp
  next
    case False
    then have "raw \<in> set rest" using Cons.prems(2) by auto
    with add_keys_step[OF Cons.prems(1)] Cons.IH Cons.prems(3,4,5) show ?thesis by blast
  qed
qed simp

lemma NewSigner_facts:
  assumes "NewSigner lib conf = Inr s"
  shows "ParsePrivate lib (scPrivateKey conf) = Some (sgPrivateKey s)"
    and "keyID lib (PublicHalf lib (sgPrivateKey s)) = Some (sgSigningKeyID s)"
    and "\<exists>pub. ParsePublic lib (scPublicKey conf) = Some pub \<and> keyID lib pub = Some (sgSigningKeyID s)"
    and "scPublicKey conf \<noteq> []" "sgIssuer s = scIssuer conf" "identified lib (sgVerifyKeys s)"
    and "add_keys lib (scAdditionalPublicKeys conf) [sgSigningKeyID s \<mapsto> PublicHalf lib (sgPrivateKey s)] = Inr (sgVerifyKeys s)"
proof -
  show a: "ParsePrivate lib (scPrivateKey conf) = Some (sgPrivateKey s)"
    "keyID lib (PublicHalf lib (sgPrivateKey s)) = Some (sgSigningKeyID s)"
    "\<exists>pub. ParsePublic lib (scPublicKey conf) = Some pub \<and> keyID lib pub = Some (sgSigningKeyID s)"
    "scPublicKey conf \<noteq> []" "sgIssuer s = scIssuer conf"
    "add_keys lib (scAdditionalPublicKeys conf) [sgSigningKeyID s \<mapsto> PublicHalf lib (sgPrivateKey s)] = Inr (sgVerifyKeys s)"
    using assms by (auto simp: NewSigner_def split: if_splits option.splits sum.splits)
  show "identified lib (sgVerifyKeys s)"
    by (rule add_keys_identified[OF a(6)]) (simp add: identified_def a(2))
qed

text \<open>A signer verifies under the key of any signer it shares the key with or lists.\<close>

lemma keyset_has:
  assumes "NewSigner lib conf = Inr s" "NewSigner lib conf' = Inr s'" "thumbprints_differ lib"
    and "scPrivateKey conf' = scPrivateKey conf \<or> scPublicKey conf \<in> set (scAdditionalPublicKeys conf')"
  shows "sgVerifyKeys s' (sgSigningKeyID s) = Some (PublicHalf lib (sgPrivateKey s))"
proof -
  note f = NewSigner_facts[OF assms(1)] and f' = NewSigner_facts[OF assms(2)]
  have "sgVerifyKeys s' (sgSigningKeyID s) \<noteq> None"
    using assms(4)
  proof
    assume "scPrivateKey conf' = scPrivateKey conf"
    then have "sgPrivateKey s' = sgPrivateKey s" using f(1) f'(1) by simp
    then have "sgSigningKeyID s' = sgSigningKeyID s" using f(2) f'(2) by simp
    with add_keys_grows[OF f'(7), of "sgSigningKeyID s"] show ?thesis by simp
  next
    assume "scPublicKey conf \<in> set (scAdditionalPublicKeys conf')"
    with add_keys_lists[OF f'(7)] f(3,4) show ?thesis by blast
  qed
  then obtain p where p: "sgVerifyKeys s' (sgSigningKeyID s) = Some p" by blast
  then have "keyID lib p = Some (sgSigningKeyID s)" using f'(6) by (simp add: identified_def)
  then have "p = PublicHalf lib (sgPrivateKey s)" using f(2) assms(3) unfolding thumbprints_differ_def by blast
  with p show ?thesis by simp
qed

section \<open>Tokens read back\<close>

definition token_id :: "uuid \<Rightarrow> JWTClaims \<Rightarrow> uuid" where
  "token_id fresh c = (if jcTokenID c = uuid_nil then fresh else jcTokenID c)"

definition token_expiry :: "instant \<Rightarrow> JWTClaims \<Rightarrow> instant" where
  "token_expiry now c = unix_seconds (now + jcTokenDuration c) * second"

lemma signed_claims [simp]:
  "tokenCustomClaims now u c ''sub'' = Some (CStr (jcSubject c))"
  "tokenCustomClaims now u c ''token_type'' = Some (CStr (jcTokenType c))"
  "tokenCustomClaims now u c ''jti'' = Some (CStr (uuid_string u))"
  "tokenCustomClaims now u c ''iss'' = Some (CStr (jcIssuer c))"
  "tokenCustomClaims now u c ''aud'' = Some (CList [jcIssuer c])"
  "tokenCustomClaims now u c ''exp'' = Some (CNum (unix_seconds (now + jcTokenDuration c)))"
  "tokenCustomClaims now u c ''email'' = omit_empty (jcEmail c)"
  "tokenCustomClaims now u c ''data'' = omit_empty (jcData c)"
  "tokenCustomClaims now u c ''idp'' = omit_empty (jcIDP c)"
  by (simp_all add: tokenCustomClaims_def)

lemma Sign_signed:
  assumes "Sign lib s now fresh c = Inr token"
  shows "SignedString lib \<lparr>hdAlg = ''ES256'', hdKid = Some (CStr (sgSigningKeyID s))\<rparr>
    (tokenCustomClaims now (token_id fresh c) c) (sgPrivateKey s) = Some token"
  using assms by (auto simp: Sign_def token_id_def Let_def split: if_splits option.splits)

lemma signed_accepted:
  "claims_accepted (verify_options x) later (tokenCustomClaims now u c) \<longleftrightarrow> sgIssuer x = jcIssuer c \<and> later < token_expiry now c"
  by (auto simp: claims_accepted_def verify_options_def token_expiry_def)

text \<open>A signer of the issuer that has the key verifies the token, and no signer verifies it as anything else.\<close>

lemma signed_verifies:
  assumes "jwt_laws lib" "thumbprints_differ lib" "NewSigner lib conf = Inr s" "NewSigner lib conf' = Inr s'"
    and "scPrivateKey conf' = scPrivateKey conf \<or> scPublicKey conf \<in> set (scAdditionalPublicKeys conf')"
    and "Sign lib s now fresh c = Inr token" "scIssuer conf' = jcIssuer c" "later < token_expiry now c"
  shows "VerifyToken lib s' later token = Inr (tokenCustomClaims now (token_id fresh c) c)"
proof -
  have k: "keyFunc s' \<lparr>hdAlg = ''ES256'', hdKid = Some (CStr (sgSigningKeyID s))\<rparr> = Inr (PublicHalf lib (sgPrivateKey s))"
    using keyset_has[OF assms(3,4,2,5)] by (simp add: keyFunc_def)
  have "''ES256'' \<in> set (poMethods (verify_options s'))" by (simp add: verify_options_def)
  then show ?thesis
    using jwt_signed[where kf = "keyFunc s'", OF assms(1) Sign_signed[OF assms(6)] k, of "verify_options s'" later] assms(7,8)
      NewSigner_facts(5)[OF assms(4)] by (simp add: VerifyToken_def signed_accepted)
qed

lemma verified_was_signed:
  assumes "jwt_laws lib" "Sign lib s now fresh c = Inr token" "VerifyToken lib s' later token = Inr r"
  shows "r = tokenCustomClaims now (token_id fresh c) c \<and> sgIssuer s' = jcIssuer c \<and> later < token_expiry now c"
proof -
  have "Parse lib (verify_options s') (keyFunc s') later token = Inr (r, True)"
    using assms(3) by (auto simp: VerifyToken_def split: sum.splits if_splits)
  from jwt_parsed[OF assms(1) Sign_signed[OF assms(2)] this] show ?thesis by (simp add: verify_options_def signed_accepted[unfolded verify_options_def])
qed

text \<open>
  C17. A token reads back.  Until it expires, a token verifies at every signer
  of its issuer that has the key it was signed with, its own or one listed
  for a rotation, and gives exactly the claims it was signed with.  Nowhere
  does it verify as anything else: at no signer of another issuer, and not
  from its expiry on.
\<close>

theorem signed_token_reads_back:
  assumes "jwt_laws lib" "thumbprints_differ lib"
    and "NewSigner lib conf = Inr s" "NewSigner lib conf' = Inr s'"
    and "scPrivateKey conf' = scPrivateKey conf \<or> scPublicKey conf \<in> set (scAdditionalPublicKeys conf')"
    and "Sign lib s now fresh c = Inr token"
  shows "(scIssuer conf' = jcIssuer c \<and> later < token_expiry now c \<longrightarrow>
      VerifyToken lib s' later token = Inr (tokenCustomClaims now (token_id fresh c) c))
    \<and> (\<forall>r. VerifyToken lib (s''\<lparr>sgIssuer := other\<rparr>) later token = Inr r \<longrightarrow>
        r = tokenCustomClaims now (token_id fresh c) c \<and> other = jcIssuer c \<and> later < token_expiry now c)"
  using signed_verifies[OF assms] verified_was_signed[OF assms(1,6), of "s''\<lparr>sgIssuer := other\<rparr>"] by simp

section \<open>A library the laws hold of\<close>

text \<open>Two keys; one message can be signed, and its token is the name of the key.\<close>

definition demo_claims :: JWTClaims where
  "demo_claims = \<lparr>jcIDP = [], jcEmail = ''ada@example.com'', jcData = [], jcSubject = ''ada'', jcTokenType = ''access'',
     jcIssuer = ''issuer'', jcTokenDuration = 5 * minute, jcTokenID = uuid_nil\<rparr>"

definition demo_payload :: claims where "demo_payload = tokenCustomClaims 0 (uuid7 2) demo_claims"

definition jwt_of :: "claims \<Rightarrow> (bool, bool) jwt_lib" where
  "jwt_of payload = \<lparr>ParsePrivate = (\<lambda>s. Some (s = ''new'')), ParsePublic = (\<lambda>s. Some (s = ''new'')), PublicHalf = (\<lambda>k. k), IsP256 = (\<lambda>_. True),
     PointBytes = (\<lambda>p. Some (CHR 0x04 # replicate 64 (if p then CHR ''a'' else CHR ''z''))), Sha256 = (\<lambda>s. [s ! 31]),
     SignedString = (\<lambda>h c k. case hdKid h of
         Some (CStr kid) \<Rightarrow> if hdAlg h = ''ES256'' \<and> c = payload \<and> \<not> k then Some kid else None | _ \<Rightarrow> None),
     Parse = (\<lambda>opts kf now token.
         if ''ES256'' \<in> set (poMethods opts) \<and> kf \<lparr>hdAlg = ''ES256'', hdKid = Some (CStr token)\<rparr> = Inr False \<and> claims_accepted opts now payload
         then Inr (payload, True) else Inl POther)\<rparr>"

lemma jwt_of_laws: "jwt_laws (jwt_of payload)"
proof -
  have signed: "c = payload \<and> \<not> k \<and> h = \<lparr>hdAlg = ''ES256'', hdKid = Some (CStr token)\<rparr>"
    if "SignedString (jwt_of payload) h c k = Some token" for h c k token
    using that by (cases h) (auto simp: jwt_of_def split: option.splits cval.splits if_splits)
  have parsed: "c = payload \<and> claims_accepted opts now c" if "Parse (jwt_of payload) opts kf now token = Inr (c, True)" for opts kf now token c
    using that by (auto simp: jwt_of_def split: if_splits)
  have "Parse (jwt_of payload) opts kf now token = Inr (c, True)"
    if "SignedString (jwt_of payload) h c k = Some token" "kf h = Inr (PublicHalf (jwt_of payload) k)" "hdAlg h \<in> set (poMethods opts)"
      "claims_accepted opts now c" for opts kf now h c k token
    using signed[OF that(1)] that(2-4) by (simp add: jwt_of_def)
  with signed parsed show ?thesis unfolding jwt_laws_def by blast
qed

definition demo_jwt :: "(bool, bool) jwt_lib" where
  "demo_jwt = jwt_of demo_payload"

lemma b64_letters: "b64_char 24 = CHR ''Y''" "b64_char 22 = CHR ''W''" "b64_char 5 = CHR ''F''" "b64_char 33 = CHR ''h''"
  "b64_char 30 = CHR ''e''" "b64_char 39 = CHR ''n''" "b64_char 41 = CHR ''p''" "b64_char 58 = CHR ''6''"
  by code_simp+

lemma b64_first: "b64_raw_url (CHR ''a'' # CHR ''a'' # CHR ''a'' # s) = CHR ''Y'' # drop 1 (b64_raw_url (CHR ''a'' # CHR ''a'' # CHR ''a'' # s))"
  "b64_raw_url (CHR ''z'' # CHR ''z'' # CHR ''z'' # s) = CHR ''e'' # drop 1 (b64_raw_url (CHR ''z'' # CHR ''z'' # CHR ''z'' # s))"
  by (simp_all add: b64_raw_url_def b64_letters)

lemma demo_point: "take 32 (drop 1 (CHR 0x04 # replicate 64 c)) = c # c # c # replicate 29 c" "drop 33 (CHR 0x04 # replicate 64 c) = c # c # c # replicate 29 c"
  by (simp_all flip: replicate_Suc)

definition demo_key_id :: "bool \<Rightarrow> string" where "demo_key_id k = b64_raw_url (if k then ''Y'' else ''e'')"

lemma demo_keyID: "keyID (jwt_of payload) k = Some (demo_key_id k)" "demo_key_id True \<noteq> demo_key_id False"
proof -
  have f: "IsP256 (jwt_of payload) p = True" "PointBytes (jwt_of payload) p = Some (CHR 0x04 # replicate 64 (if p then CHR ''a'' else CHR ''z''))"
    "Sha256 (jwt_of payload) s = [s ! 31]" for p s by (simp_all add: jwt_of_def)
  show "keyID (jwt_of payload) k = Some (demo_key_id k)"
  proof (cases k)
    case True
    obtain r where r: "b64_raw_url (CHR ''a'' # CHR ''a'' # CHR ''a'' # replicate 29 (CHR ''a'')) = CHR ''Y'' # r" using b64_first(1) by blast
    show ?thesis unfolding keyID_def f option.case Let_def if_P[OF True] demo_point r by (simp add: demo_key_id_def True)
  next
    case False
    obtain r where r: "b64_raw_url (CHR ''z'' # CHR ''z'' # CHR ''z'' # replicate 29 (CHR ''z'')) = CHR ''e'' # r" using b64_first(2) by blast
    show ?thesis unfolding keyID_def f option.case Let_def if_not_P[OF False] demo_point r by (simp add: demo_key_id_def False)
  qed
  show "demo_key_id True \<noteq> demo_key_id False" by code_simp
qed

lemma demo_thumbprints: "thumbprints_differ (jwt_of payload)"
proof -
  have "p = q" if "demo_key_id p = demo_key_id q" for p q using that demo_keyID(2) by (cases p; cases q) auto
  then show ?thesis by (auto simp: thumbprints_differ_def demo_keyID(1))
qed

definition old_config :: SignerConfig where
  "old_config = \<lparr>scIssuer = ''issuer'', scPrivateKey = ''old'', scPublicKey = ''old'', scAdditionalPublicKeys = []\<rparr>"

definition new_config :: SignerConfig where
  "new_config = \<lparr>scIssuer = ''issuer'', scPrivateKey = ''new'', scPublicKey = ''new'', scAdditionalPublicKeys = [''old'']\<rparr>"

definition old_signer :: "(bool, bool) Signer" where
  "old_signer = \<lparr>sgPrivateKey = False, sgVerifyKeys = [demo_key_id False \<mapsto> False], sgIssuer = ''issuer'', sgSigningKeyID = demo_key_id False\<rparr>"

definition new_signer :: "(bool, bool) Signer" where
  "new_signer = \<lparr>sgPrivateKey = True, sgVerifyKeys = [demo_key_id True \<mapsto> True, demo_key_id False \<mapsto> False], sgIssuer = ''issuer'',
     sgSigningKeyID = demo_key_id True\<rparr>"

lemma demo_signers: "NewSigner (jwt_of payload) old_config = Inr old_signer" "NewSigner (jwt_of payload) new_config = Inr new_signer"
  unfolding NewSigner_def demo_keyID(1)
  by (simp_all add: old_config_def new_config_def old_signer_def new_signer_def jwt_of_def[THEN arg_cong, of ParsePrivate]
      jwt_of_def[THEN arg_cong, of ParsePublic] jwt_of_def[THEN arg_cong, of PublicHalf] demo_keyID(1))

text \<open>A token of the old key verifies after the keys were rotated.\<close>

theorem signed_token_reads_back_witness:
  "VerifyToken demo_jwt new_signer (4 * minute) (demo_key_id False) = Inr demo_payload"
proof -
  have s: "Sign demo_jwt old_signer 0 (uuid7 2) demo_claims = Inr (demo_key_id False)"
    by (simp add: Sign_def demo_claims_def old_signer_def TokenType_IsValid_def token_types) (simp add: demo_jwt_def jwt_of_def demo_payload_def demo_claims_def)
  have t: "token_id (uuid7 2) demo_claims = uuid7 2" "token_expiry 0 demo_claims = 5 * minute"
    by (simp_all add: token_id_def token_expiry_def demo_claims_def unix_seconds_def)
  show ?thesis
    using signed_token_reads_back[OF jwt_of_laws demo_thumbprints demo_signers _ s[unfolded demo_jwt_def], of "4 * minute"] t
    by (simp add: old_config_def new_config_def demo_payload_def demo_jwt_def) (simp add: demo_claims_def)
qed

end
