(* ===== verification/Authn.thy ===== *)
theory Authn
  imports Accounts RevokedMirror RateLimitStores TokenLifetimes TokenJWT
begin

text \<open>
  Authentication (\<open>internal/core/usecase/authn.go\<close>): sessions, registration,
  verification, recovery, refresh and logout, over the accounts, the denylist,
  the mirror of revoked access tokens, the throttle, the token lifetimes and
  the signer of the other theories.  The signer is a pair of functions;
  \<open>TokenJWT\<close> provides it.

  One call of the use case is one step: it reads one instant of the process
  and one of the database, and which of its statements fail, what the cache
  holds and which ids are drawn are its arguments (\<open>authn_request\<close>).  Interleaved
  calls are modelled where a property is about them, by running the parts of a
  call one after the other.  Spans, metrics and log lines are left out.
\<close>

section \<open>Data\<close>

text \<open>The part of \<open>AuthnServiceConf\<close> that decides anything; a port that is nil is False.\<close>

record AuthnServiceConf =
  cfIssuer :: string
  cfRefreshRotationGrace :: duration
  cfUserVerificationTokenTTL :: duration
  cfUserResetPasswordTokenTTL :: duration
  cfRefreshRotationEnabled :: bool
  cfLoginThrottle :: bool
  cfRevokedTokens :: bool
  cfRevokedAccessTokens :: bool

datatype authn_error =
    AInvalidInput string
  | AValidation verror
  | AInvalidIssuer string
  | AInvalidConfJWT string
  | AInvalidCredentials
  | ATooManyLoginAttempts duration
  | ATooManyRecoveryRequests duration
  | AInvalidJWT string bool
  | AInvalidRefreshToken string
  | AInvalidEmail string
  | AInvalidPassword
  | AInvalidService string
  | AInvalidUUID
  | AAlreadyVerified string
  | AAccount account_error
  | ASigner signer_error
  | AStore store_error
  | APermissions
  | AHash
  | AMail
  | APanic

datatype mail =
    AccountVerification string string string string
  | AccountExists string string
  | PasswordReset string string string string

record LoginUserInput =
  lgEmail :: string
  lgPassword :: string
  lgMethod :: string

record LoginUserOutput =
  loUserID :: uuid
  loAccessToken :: string
  loRefreshToken :: string
  loTokenType :: TokenType
  loResources :: string

record RefreshAccessTokenOutput =
  roAccessToken :: string
  roRefreshToken :: string
  roTokenType :: TokenType

record RegisterUserInput =
  rgDisabled :: "bool option"
  rgIdentity :: "LinkUserIdentityInput option"
  rgFirstName :: string
  rgLastName :: string
  rgEmail :: string
  rgPassword :: string
  rgMethod :: string
  rgID :: uuid

record ResetPasswordInput =
  rpTokenExpiresAt :: instant
  rpPassword :: string
  rpEmail :: string
  rpUserID :: uuid
  rpTokenID :: uuid

record LogoutUserInput =
  lxAccessTokenExpiresAt :: instant
  lxRefreshToken :: string
  lxUserID :: uuid
  lxAccessTokenJTI :: uuid

definition LoginMethodPassword :: string where "LoginMethodPassword = ''password''"
definition RegisterMethodPassword :: string where "RegisterMethodPassword = ''password''"

definition RegisterMethod_IsValid :: "string \<Rightarrow> bool" where
  "RegisterMethod_IsValid rm = (rm \<in> set [RegisterMethodPassword, ''oauth'', ''saml'', ''oidc''])"

section \<open>Validators\<close>

definition LoginUserInput_Validate :: "'a text_env_scheme \<Rightarrow> LoginUserInput \<Rightarrow> verror + LoginUserInput" where
  "LoginUserInput_Validate env i =
     (let (errs, email) = check_field (\<lambda>s. ValidateEmail env s ''email'') (lgEmail i) [];
          errs = (if lgMethod i = LoginMethodPassword then Add errs (ValidateLoginPassword (lgPassword i) ''password'') else errs)
      in if HasErrors errs then Inl (VMany errs) else Inr (i\<lparr>lgEmail := email\<rparr>))"

definition RefreshAccessTokenInput_Validate :: "string \<Rightarrow> verror option" where
  "RefreshAccessTokenInput_Validate token =
     (case ValidateString token \<lparr>FieldName = ''refresh_token'', MinLength = 10, MaxLength = 2048, TrimWhitespace = True,
         AllowEmpty = False, NoControlChars = True, NoHTMLTags = False, NoScriptTags = False, NoNullBytes = True, NormalizeUnicode = False\<rparr> of
       Inl e \<Rightarrow> Some (VOne e) | Inr _ \<Rightarrow> None)"

definition RegisterUserInput_Validate :: "'a text_env_scheme \<Rightarrow> RegisterUserInput \<Rightarrow> verror + RegisterUserInput" where
  "RegisterUserInput_Validate env i =
     (let errs = Add [] (ValidateUUID (rgID i) 7 ''id'');
          (errs, first) = check_field (\<lambda>s. ValidateString s (name_options ''first_name'')) (rgFirstName i) errs;
          (errs, last) = check_field (\<lambda>s. ValidateString s (name_options ''last_name'')) (rgLastName i) errs;
          (errs, email) = check_field (\<lambda>s. ValidateEmail env s ''email'') (rgEmail i) errs;
          errs = (if \<not> RegisterMethod_IsValid (rgMethod i)
            then AddError errs ''register_method'' ''is not a registration method'' ''INVALID_VALUE'' else errs);
          errs = (if rgMethod i = RegisterMethodPassword then Add errs (ValidatePassword env (rgPassword i) ''password'') else errs)
      in if HasErrors errs then Inl (VMany errs)
         else Inr (i\<lparr>rgFirstName := first, rgLastName := last, rgEmail := email\<rparr>))"

definition RecoverPasswordInput_Validate :: "'a text_env_scheme \<Rightarrow> string \<Rightarrow> verror + string" where
  "RecoverPasswordInput_Validate env email = (case ValidateEmail env email ''email'' of Inl e \<Rightarrow> Inl (VOne e) | Inr e \<Rightarrow> Inr e)"

definition ResetPasswordInput_Validate :: "'a text_env_scheme \<Rightarrow> ResetPasswordInput \<Rightarrow> verror option" where
  "ResetPasswordInput_Validate env i =
     errs_result (Add (Add [] (ValidateUUID (rpUserID i) 7 ''user_id'')) (ValidatePassword env (rpPassword i) ''password''))"

definition LogoutUserInput_Validate :: "LogoutUserInput \<Rightarrow> verror option" where
  "LogoutUserInput_Validate i = errs_result (Add [] (ValidateUUID (lxUserID i) 7 ''user_id''))"

definition ValidAuthnIssuerMinLength :: int where "ValidAuthnIssuerMinLength = 3"
definition ValidAuthnIssuerMaxLength :: int where "ValidAuthnIssuerMaxLength = 100"

definition NewAuthnService :: "AuthnServiceConf \<Rightarrow> authn_error + AuthnServiceConf" where
  "NewAuthnService conf =
     (if int (length (cfIssuer conf)) \<le> ValidAuthnIssuerMinLength \<or> int (length (cfIssuer conf)) > ValidAuthnIssuerMaxLength
      then Inl (AInvalidIssuer ''Issuer is invalid, but it is required for AuthnService'')
      else if cfUserVerificationTokenTTL conf < 1 * hour \<or> cfUserVerificationTokenTTL conf > 3 * 24 * hour
      then Inl (AInvalidConfJWT ''UserVerificationTokenTTL is invalid'')
      else if cfUserResetPasswordTokenTTL conf < 1 * minute \<or> cfUserResetPasswordTokenTTL conf > 72 * hour
      then Inl (AInvalidConfJWT ''UserResetPasswordTokenTTL is invalid'')
      else Inr conf)"

section \<open>The state, and what a call is given\<close>

record 'l authn_state =
  anService :: service_state
  anDenylist :: denylist
  anAccessSet :: token_mirror
  anThrottle :: "string \<Rightarrow> 'l option"
  anMails :: "mail list"
  anLifetimes :: lifetimes_mirror

abbreviation anAccounts :: "'l authn_state \<Rightarrow> accounts_state" where "anAccounts st \<equiv> fst (anService st)"

text \<open>What \<open>SelectAuthz\<close> answers: no document or no permissions in it, the permissions, or something else there.\<close>

datatype authz_doc = AuthzMissing | AuthzMap string | AuthzOther

record 'l authn_ports =
  apText :: text_env
  apSign :: "instant \<Rightarrow> uuid \<Rightarrow> JWTClaims \<Rightarrow> signer_error + string"
  apVerify :: "instant \<Rightarrow> string \<Rightarrow> signer_error + claims"
  apBcrypt :: "string \<Rightarrow> string option"
  apCompare :: "string \<Rightarrow> string \<Rightarrow> bool"
  apDummyHash :: string
  apAuthz :: "uuid \<Rightarrow> account_error + authz_doc"
  apSha256 :: "string \<Rightarrow> string"
  apLimiter :: "'l limiter_lib"
  apNewLimiter :: "instant \<Rightarrow> 'l"
  apKey :: ecdsa

datatype dl_call = CGet uuid | CRotate | CRevoke TokenType | CChain | CConsume

record authn_request =
  rqNow :: instant
  rqDBNow :: instant
  rqFresh :: "nat \<Rightarrow> uuid"
  rqFaults :: acc_faults
  rqReserve :: pg_faults
  rqRelease :: pg_faults
  rqStore :: "dl_call \<Rightarrow> pg_outcome"
  rqMailFails :: bool
  rqCache :: "(string \<Rightarrow> User option) option"

text \<open>Sequencing of steps that may fail, on a state.\<close>

definition then_do :: "('e + 'a) \<times> 's \<Rightarrow> ('a \<Rightarrow> 's \<Rightarrow> ('e + 'b) \<times> 's) \<Rightarrow> ('e + 'b) \<times> 's" where
  "then_do r f = (case r of (Inl e, s) \<Rightarrow> (Inl e, s) | (Inr a, s) \<Rightarrow> f a s)"

lemma then_do_simps [simp]: "then_do (Inl e, s) f = (Inl e, s)" "then_do (Inr a, s) f = f a s"
  by (simp_all add: then_do_def)

lemma then_do_Inr: "then_do r f = (Inr b, s') \<longleftrightarrow> (\<exists>a s. r = (Inr a, s) \<and> f a s = (Inr b, s'))"
  by (cases r; cases "fst r") (auto simp: then_do_def)

lemma then_do_cases: "then_do r f = (case fst r of Inl e \<Rightarrow> (Inl e, snd r) | Inr a \<Rightarrow> f a (snd r))"
  by (cases r; cases "fst r") auto

abbreviation fail_with :: "'e \<Rightarrow> 's \<Rightarrow> ('e + 'a) \<times> 's" where "fail_with e s \<equiv> (Inl e, s)"
abbreviation done_with :: "'a \<Rightarrow> 's \<Rightarrow> ('e + 'a) \<times> 's" where "done_with a s \<equiv> (Inr a, s)"

text \<open>An error of a port in the errors of the service.\<close>

definition lift_err :: "('d \<Rightarrow> 'e) \<Rightarrow> 'd + 'a \<Rightarrow> 'e + 'a" where
  "lift_err f r = map_sum f (\<lambda>a. a) r"

lemma lift_err_simps [simp]: "lift_err f (Inl e) = Inl (f e)" "lift_err f (Inr a) = Inr a"
  by (simp_all add: lift_err_def)

lemma lift_err_Inr [simp]: "lift_err f r = Inr a \<longleftrightarrow> r = Inr a"
  by (cases r) auto

section \<open>Helpers of the service\<close>

definition throttlePurposeLogin :: string where "throttlePurposeLogin = ''login''"
definition throttlePurposeRecovery :: string where "throttlePurposeRecovery = ''recovery''"

text \<open>\<open>apSha256\<close> answers the hexadecimal text of the sum.\<close>

definition throttleKey :: "'l authn_ports \<Rightarrow> string \<Rightarrow> string \<Rightarrow> string" where
  "throttleKey ap purpose email = apSha256 ap (purpose @ '':'' @ to_lower (apText ap) (TrimSpace email))"

definition attempt :: "'l authn_ports \<Rightarrow> AuthnServiceConf \<Rightarrow> authn_request \<Rightarrow> string \<Rightarrow> 'l authn_state \<Rightarrow> (duration + unit) \<times> 'l authn_state" where
  "attempt ap cf rq key st =
     (if \<not> cfLoginThrottle cf then (Inr (), st)
      else case ThrottleAttempt (apLimiter ap) (apNewLimiter ap) (rqNow rq) key (anThrottle st) of
        ((retryAfter, allowed), t) \<Rightarrow> (if allowed then Inr () else Inl retryAfter, st\<lparr>anThrottle := t\<rparr>))"

definition succeed :: "AuthnServiceConf \<Rightarrow> string \<Rightarrow> 'l authn_state \<Rightarrow> 'l authn_state" where
  "succeed cf key st = (if cfLoginThrottle cf then st\<lparr>anThrottle := ThrottleSucceed key (anThrottle st)\<rparr> else st)"

definition send_mail :: "authn_request \<Rightarrow> mail \<Rightarrow> 'l authn_state \<Rightarrow> (authn_error + unit) \<times> 'l authn_state" where
  "send_mail rq m st = (if rqMailFails rq then fail_with AMail st else done_with () (st\<lparr>anMails := anMails st @ [m]\<rparr>))"

definition claimExpiry :: "claims \<Rightarrow> instant option" where
  "claimExpiry c = (case c ''exp'' of Some (CNum e) \<Rightarrow> Some (e * second) | _ \<Rightarrow> None)"

definition claim_text :: "claims \<Rightarrow> string \<Rightarrow> string option" where
  "claim_text c name = (case c name of Some (CStr s) \<Rightarrow> Some s | _ \<Rightarrow> None)"

definition claimString :: "claims \<Rightarrow> string \<Rightarrow> string" where
  "claimString c name = (case claim_text c name of Some s \<Rightarrow> s | None \<Rightarrow> [])"

definition mail_name :: "string \<Rightarrow> string \<Rightarrow> string" where
  "mail_name firstName lastName = firstName @ '' '' @ lastName"

section \<open>Sessions\<close>

definition session_claims :: "AuthnServiceConf \<Rightarrow> User \<Rightarrow> TokenType \<Rightarrow> duration \<Rightarrow> JWTClaims" where
  "session_claims cf u tt d = \<lparr>jcIDP = [], jcEmail = usrEmail u, jcData = [], jcSubject = uuid_string (usrID u), jcTokenType = tt,
     jcIssuer = cfIssuer cf, jcTokenDuration = d, jcTokenID = uuid_nil\<rparr>"

definition issueSession ::
  "'l authn_ports \<Rightarrow> AuthnServiceConf \<Rightarrow> authn_request \<Rightarrow> User \<Rightarrow> 'l authn_state \<Rightarrow> authn_error + LoginUserOutput" where
  "issueSession ap cf rq u st =
     (case Lifetimes_Current (anLifetimes st) of
        None \<Rightarrow> Inl APanic
      | Some lifetimes \<Rightarrow>
        and_then (lift_err ASigner (apSign ap (rqNow rq) (rqFresh rq 0)
          (session_claims cf u TokenTypeAccess (AccessTokenDuration lifetimes)))) (\<lambda>access.
        and_then (lift_err ASigner (apSign ap (rqNow rq) (rqFresh rq 1)
          (session_claims cf u TokenTypeRefresh (RefreshTokenDuration lifetimes)))) (\<lambda>refresh.
        and_then (lift_err AAccount (apAuthz ap (usrID u))) (\<lambda>permissions.
        and_then (case permissions of AuthzMissing \<Rightarrow> Inr ''{}'' | AuthzMap m \<Rightarrow> Inr m | AuthzOther \<Rightarrow> Inl APermissions) (\<lambda>resources.
          Inr \<lparr>loUserID = usrID u, loAccessToken = access, loRefreshToken = refresh, loTokenType = TokenTypeBearer,
               loResources = resources\<rparr>)))))"

text \<open>Why a login with an account is refused, if it is; every reason answers the same.\<close>

definition login_refused :: "LoginUserInput \<Rightarrow> bool \<Rightarrow> User \<Rightarrow> bool" where
  "login_refused i passwordMatches u =
     (if usrDisabled u = Some True then True
      else case usrLocalAccount u of
        None \<Rightarrow> True
      | Some l \<Rightarrow> if lgMethod i = LoginMethodPassword \<and> \<not> l then True
          else if lgMethod i = LoginMethodPassword \<and> \<not> passwordMatches then True else False)"

definition LoginUser ::
  "'l authn_ports \<Rightarrow> AuthnServiceConf \<Rightarrow> authn_request \<Rightarrow> LoginUserInput option \<Rightarrow> 'l authn_state
    \<Rightarrow> (authn_error + LoginUserOutput) \<times> 'l authn_state" where
  "LoginUser ap cf rq input st =
     (case input of
        None \<Rightarrow> fail_with (AInvalidInput ''input is nil'') st
      | Some i0 \<Rightarrow>
       (case LoginUserInput_Validate (apText ap) i0 of
          Inl e \<Rightarrow> fail_with (AValidation e) st
        | Inr i \<Rightarrow>
          let key = throttleKey ap throttlePurposeLogin (lgEmail i) in
          (case attempt ap cf rq key st of
             (Inl retryAfter, st1) \<Rightarrow> fail_with (ATooManyLoginAttempts retryAfter) st1
           | (Inr _, st1) \<Rightarrow>
             let lookup = GetByEmailForAuth (apText ap) (rqFaults rq) (lgEmail i) (anAccounts st1);
                 comparisonHash = (case lookup of Inl _ \<Rightarrow> apDummyHash ap | Inr u \<Rightarrow> usrPasswordHash u);
                 passwordMatches = apCompare ap comparisonHash (lgPassword i) in
             (case lookup of
                Inl (UNotFound _) \<Rightarrow> fail_with AInvalidCredentials st1
              | Inl e \<Rightarrow> fail_with (AAccount e) st1
              | Inr u \<Rightarrow>
                  if login_refused i passwordMatches u then fail_with AInvalidCredentials st1
                  else let st2 = succeed cf key st1 in (issueSession ap cf rq u st2, st2)))))"

definition LoginUserByID ::
  "'l authn_ports \<Rightarrow> AuthnServiceConf \<Rightarrow> authn_request \<Rightarrow> uuid \<Rightarrow> string \<Rightarrow> 'l authn_state
    \<Rightarrow> (authn_error + LoginUserOutput) \<times> 'l authn_state" where
  "LoginUserByID ap cf rq uid loginMethod st =
     (if loginMethod = LoginMethodPassword then fail_with (AInvalidInput ''LoginUserByID does not verify passwords'') st
      else case GetByID (rqCache rq) (rqFaults rq) uid (anAccounts st) of
        Inl e \<Rightarrow> fail_with (AAccount e) st
      | Inr u \<Rightarrow>
       (case Standing (rqFaults rq) uid (anAccounts st) of
          Inl e \<Rightarrow> fail_with (AAccount e) st
        | Inr standing \<Rightarrow>
            if standing \<noteq> AccountActive \<or> usrDisabled u = Some True then fail_with AInvalidCredentials st
            else (issueSession ap cf rq u st, st)))"

section \<open>Registration and verification\<close>

text \<open>A failure to tell the owner is logged, not returned.\<close>

definition registrationTaken :: "authn_request \<Rightarrow> RegisterUserInput \<Rightarrow> 'l authn_state \<Rightarrow> (authn_error + unit) \<times> 'l authn_state" where
  "registrationTaken rq i st =
     done_with () (snd (send_mail rq (AccountExists (mail_name (rgFirstName i) (rgLastName i)) (rgEmail i)) st))"

definition verification_claims :: "AuthnServiceConf \<Rightarrow> string \<Rightarrow> uuid \<Rightarrow> JWTClaims" where
  "verification_claims cf email uid = \<lparr>jcIDP = [], jcEmail = email, jcData = [], jcSubject = uuid_string uid,
     jcTokenType = TokenTypeEmailVerification, jcIssuer = cfIssuer cf, jcTokenDuration = cfUserVerificationTokenTTL cf,
     jcTokenID = uuid_nil\<rparr>"

definition new_user :: "RegisterUserInput \<Rightarrow> InsertUserInput" where
  "new_user i = \<lparr>insDisabled = rgDisabled i, insVerified = Some (rgMethod i \<noteq> RegisterMethodPassword),
     insLocalAccount = Some (rgMethod i = RegisterMethodPassword),
     insIdentity = map_option (\<lambda>n. n\<lparr>idUserID := rgID i\<rparr>) (rgIdentity i),
     insFirstName = rgFirstName i, insLastName = rgLastName i, insEmail = rgEmail i, insPassword = rgPassword i,
     insPasswordHash = [], insID = rgID i, insDisabledByAdmin = False\<rparr>"

definition RegisterUser ::
  "'l authn_ports \<Rightarrow> AuthnServiceConf \<Rightarrow> authn_request \<Rightarrow> RegisterUserInput option \<Rightarrow> 'l authn_state
    \<Rightarrow> (authn_error + unit) \<times> 'l authn_state" where
  "RegisterUser ap cf rq input st =
     (case input of
        None \<Rightarrow> fail_with (AInvalidInput ''input is nil'') st
      | Some i0 \<Rightarrow>
       (case RegisterUserInput_Validate (apText ap) (i0\<lparr>rgID := EnsureUUIDV7 (rqFresh rq 0) (rgID i0)\<rparr>) of
          Inl e \<Rightarrow> fail_with (AValidation e) st
        | Inr i \<Rightarrow>
          (case Create (apText ap) (apBcrypt ap) (apKey ap) (rqFresh rq 1) (rqFaults rq) (rqReserve rq) (rqRelease rq)
              (Some (new_user i)) (anService st) of
             (Some e, sv) \<Rightarrow>
               let st1 = st\<lparr>anService := sv\<rparr> in
               (case e of
                  UAlreadyExistsEmail taken \<Rightarrow>
                    if taken \<noteq> [] \<and> rgMethod i = RegisterMethodPassword then
                      (case StoredAccount (rqFaults rq) (rgID i) (anAccounts st1) of
                         Inr _ \<Rightarrow> fail_with (AAccount (UAlreadyExistsID (rgID i))) st1
                       | Inl _ \<Rightarrow> registrationTaken rq i st1)
                    else fail_with (AAccount e) st1
                | _ \<Rightarrow> fail_with (AAccount e) st1)
           | (None, sv) \<Rightarrow>
               let st1 = st\<lparr>anService := sv\<rparr> in
               if rgMethod i = RegisterMethodPassword then
                 (case apSign ap (rqNow rq) (rqFresh rq 2) (verification_claims cf (rgEmail i) (rgID i)) of
                    Inl e \<Rightarrow> fail_with (ASigner e) st1
                  | Inr token \<Rightarrow> send_mail rq (AccountVerification (mail_name (rgFirstName i) (rgLastName i)) (rgEmail i) token
                      (duration_string (cfUserVerificationTokenTTL cf))) st1)
               else done_with () st1)))"

text \<open>A single-use token is spent by the insert of its jti; without a store it is refused.\<close>

definition consumeSingleUseToken ::
  "AuthnServiceConf \<Rightarrow> authn_request \<Rightarrow> uuid \<Rightarrow> uuid \<Rightarrow> TokenType \<Rightarrow> instant \<Rightarrow> 'l authn_state \<Rightarrow> (authn_error + unit) \<times> 'l authn_state" where
  "consumeSingleUseToken cf rq jti uid tt expiresAt st =
     (if \<not> cfRevokedTokens cf then fail_with (AInvalidService ''single-use tokens need a revoked-token store'') st
      else if jti = uuid_nil then fail_with (AInvalidJWT ''jti claim is missing'' False) st
      else case dl_Consume (rqStore rq CConsume) (rqDBNow rq) jti uid tt expiresAt (anDenylist st) of
        (Inl e, d) \<Rightarrow> fail_with (AStore e) (st\<lparr>anDenylist := d\<rparr>)
      | (Inr firstUse, d) \<Rightarrow>
          if firstUse then done_with () (st\<lparr>anDenylist := d\<rparr>)
          else fail_with (AInvalidJWT ''token already used'' False) (st\<lparr>anDenylist := d\<rparr>))"

definition spendSingleUseToken ::
  "AuthnServiceConf \<Rightarrow> authn_request \<Rightarrow> claims \<Rightarrow> uuid \<Rightarrow> TokenType \<Rightarrow> instant \<Rightarrow> 'l authn_state \<Rightarrow> (authn_error + unit) \<times> 'l authn_state" where
  "spendSingleUseToken cf rq c uid tt expiresAt st =
     (case uuid_parse (claimString c ''jti'') of
        None \<Rightarrow> fail_with (AInvalidJWT ''jti claim is missing'' False) st
      | Some jti \<Rightarrow> consumeSingleUseToken cf rq jti uid tt expiresAt st)"

text \<open>What \<open>VerifyUser\<close> does once the link is spent.\<close>

definition verify_account ::
  "authn_request \<Rightarrow> uuid \<Rightarrow> string \<Rightarrow> 'l authn_state \<Rightarrow> (authn_error + unit) \<times> 'l authn_state" where
  "verify_account rq uid email st =
     (case GetByID (rqCache rq) (rqFaults rq) uid (anAccounts st) of
        Inl (UNotFound _) \<Rightarrow> done_with () st
      | Inl e \<Rightarrow> fail_with (AAccount e) st
      | Inr u \<Rightarrow>
          if email \<noteq> usrEmail u then fail_with (AInvalidJWT ''email claim is invalid'' False) st
          else if usrVerified u = Some True then fail_with (AAlreadyVerified email) st
          else (case Verify (rqFaults rq) (usrID u) email (anAccounts st) of
              (Some (UNotFound _), a) \<Rightarrow> done_with () (st\<lparr>anService := (a, snd (anService st))\<rparr>)
            | (Some UAddressIsNotTheAccounts, a) \<Rightarrow>
                fail_with (AInvalidJWT ''email claim is invalid'' False) (st\<lparr>anService := (a, snd (anService st))\<rparr>)
            | (Some e, a) \<Rightarrow> fail_with (AAccount e) (st\<lparr>anService := (a, snd (anService st))\<rparr>)
            | (None, a) \<Rightarrow> done_with () (st\<lparr>anService := (a, snd (anService st))\<rparr>)))"

definition VerifyUser ::
  "'l authn_ports \<Rightarrow> AuthnServiceConf \<Rightarrow> authn_request \<Rightarrow> string \<Rightarrow> 'l authn_state \<Rightarrow> (authn_error + unit) \<times> 'l authn_state" where
  "VerifyUser ap cf rq jwtToken st =
     (if jwtToken = [] then fail_with (AInvalidJWT ''JWT token is empty'' False) st
      else case apVerify ap (rqNow rq) jwtToken of
        Inl e \<Rightarrow> fail_with (ASigner e) st
      | Inr c \<Rightarrow>
       (case claim_text c ''token_type'' of
          None \<Rightarrow> fail_with (AInvalidJWT ''token_type claim is missing'' False) st
        | Some tt \<Rightarrow>
            if tt \<noteq> TokenTypeEmailVerification then fail_with (AInvalidJWT ''token_type claim is invalid'' False) st
            else case claim_text c ''sub'' of
              None \<Rightarrow> fail_with APanic st
            | Some subject \<Rightarrow>
             (case uuid_parse subject of
                None \<Rightarrow> fail_with AInvalidUUID st
              | Some uid \<Rightarrow>
               (case claim_text c ''email'' of
                  None \<Rightarrow> fail_with (AInvalidJWT ''email claim is missing'' False) st
                | Some email \<Rightarrow>
                 (case claimExpiry c of
                    None \<Rightarrow> fail_with (AInvalidJWT ''exp claim is missing'' False) st
                  | Some expiresAt \<Rightarrow>
                      if unix_seconds (rqNow rq) > unix_seconds expiresAt then fail_with (AInvalidJWT ''token expired'' False) st
                      else then_do (spendSingleUseToken cf rq c uid TokenTypeEmailVerification expiresAt st)
                        (\<lambda>_. verify_account rq uid email))))))"

definition sendVerificationEmail ::
  "'l authn_ports \<Rightarrow> AuthnServiceConf \<Rightarrow> authn_request \<Rightarrow> User \<Rightarrow> 'l authn_state \<Rightarrow> (authn_error + unit) \<times> 'l authn_state" where
  "sendVerificationEmail ap cf rq u st =
     (case apSign ap (rqNow rq) (rqFresh rq 0) (verification_claims cf (usrEmail u) (usrID u)) of
        Inl e \<Rightarrow> fail_with (ASigner e) st
      | Inr token \<Rightarrow> send_mail rq (AccountVerification (mail_name (usrFirstName u) (usrLastName u)) (usrEmail u) token
          (duration_string (cfUserVerificationTokenTTL cf))) st)"

definition ReVerifyUser ::
  "'l authn_ports \<Rightarrow> AuthnServiceConf \<Rightarrow> authn_request \<Rightarrow> string \<Rightarrow> 'l authn_state \<Rightarrow> (authn_error + unit) \<times> 'l authn_state" where
  "ReVerifyUser ap cf rq email st =
     (if email = [] then fail_with (AInvalidEmail email) st
      else if int (length email) < ValidUserEmailMinLength \<or> int (length email) > MaxEmailLength then fail_with (AInvalidEmail email) st
      else if parse_address (apText ap) email = None then fail_with (AInvalidEmail email) st
      else case GetByEmail (apText ap) (rqCache rq) (rqFaults rq) email (anAccounts st) of
        Inl e \<Rightarrow> fail_with (AAccount e) st
      | Inr u \<Rightarrow>
          if usrVerified u = Some True then done_with () st
          else if usrLocalAccount u \<noteq> Some True then done_with () st
          else sendVerificationEmail ap cf rq u st)"

section \<open>Recovery\<close>

definition reset_claims :: "AuthnServiceConf \<Rightarrow> User \<Rightarrow> JWTClaims" where
  "reset_claims cf u = \<lparr>jcIDP = [], jcEmail = usrEmail u, jcData = [], jcSubject = uuid_string (usrID u),
     jcTokenType = TokenTypePasswordReset, jcIssuer = cfIssuer cf, jcTokenDuration = cfUserResetPasswordTokenTTL cf, jcTokenID = uuid_nil\<rparr>"

text \<open>\<open>silentRecovery\<close> reports success and sends nothing.\<close>

definition silentRecovery :: "'l authn_state \<Rightarrow> (authn_error + unit) \<times> 'l authn_state" where
  "silentRecovery st = done_with () st"

definition recoverAccount ::
  "'l authn_ports \<Rightarrow> AuthnServiceConf \<Rightarrow> authn_request \<Rightarrow> User \<Rightarrow> 'l authn_state \<Rightarrow> (authn_error + unit) \<times> 'l authn_state" where
  "recoverAccount ap cf rq u st =
     (if usrLocalAccount u \<noteq> Some True then silentRecovery st
      else if usrVerified u = Some False then sendVerificationEmail ap cf rq u st
      else if usrDisabled u = Some True then silentRecovery st
      else case apSign ap (rqNow rq) (rqFresh rq 0) (reset_claims cf u) of
        Inl e \<Rightarrow> fail_with (ASigner e) st
      | Inr token \<Rightarrow> send_mail rq (PasswordReset (mail_name (usrFirstName u) (usrLastName u)) (usrEmail u) token
          (duration_string (cfUserResetPasswordTokenTTL cf))) st)"

definition RecoverPassword ::
  "'l authn_ports \<Rightarrow> AuthnServiceConf \<Rightarrow> authn_request \<Rightarrow> string option \<Rightarrow> 'l authn_state \<Rightarrow> (authn_error + unit) \<times> 'l authn_state" where
  "RecoverPassword ap cf rq input st =
     (case input of
        None \<Rightarrow> fail_with (AInvalidInput ''input is nil'') st
      | Some email0 \<Rightarrow>
       (case RecoverPasswordInput_Validate (apText ap) email0 of
          Inl e \<Rightarrow> fail_with (AValidation e) st
        | Inr email \<Rightarrow>
          (case attempt ap cf rq (throttleKey ap throttlePurposeRecovery email) st of
             (Inl retryAfter, st1) \<Rightarrow> fail_with (ATooManyRecoveryRequests retryAfter) st1
           | (Inr _, st1) \<Rightarrow>
             (case GetByEmail (apText ap) (rqCache rq) (rqFaults rq) email (anAccounts st1) of
                Inl (UNotFound _) \<Rightarrow> silentRecovery st1
              | Inl e \<Rightarrow> fail_with (AAccount e) st1
              | Inr u \<Rightarrow> recoverAccount ap cf rq u st1))))"

definition RecoverPasswordOf ::
  "'l authn_ports \<Rightarrow> AuthnServiceConf \<Rightarrow> authn_request \<Rightarrow> uuid \<Rightarrow> 'l authn_state \<Rightarrow> (authn_error + unit) \<times> 'l authn_state" where
  "RecoverPasswordOf ap cf rq uid st =
     (case StoredAccount (rqFaults rq) uid (anAccounts st) of
        Inl e \<Rightarrow> fail_with (AAccount e) st
      | Inr u \<Rightarrow>
       (case RecoverPasswordInput_Validate (apText ap) (usrEmail u) of
          Inl e \<Rightarrow> fail_with (AValidation e) st
        | Inr _ \<Rightarrow>
          (case attempt ap cf rq (throttleKey ap throttlePurposeRecovery (usrEmail u)) st of
             (Inl retryAfter, st1) \<Rightarrow> fail_with (ATooManyRecoveryRequests retryAfter) st1
           | (Inr _, st1) \<Rightarrow> recoverAccount ap cf rq u st1)))"

definition resetLinkNotForTheAccount :: string where
  "resetLinkNotForTheAccount = ''the link is not valid for the account''"

definition reset_password_step ::
  "'l authn_ports \<Rightarrow> authn_request \<Rightarrow> ResetPasswordInput \<Rightarrow> 'l authn_state \<Rightarrow> (authn_error + unit) \<times> 'l authn_state" where
  "reset_password_step ap rq i st =
     (if int (length (rpPassword i)) < ValidUserPasswordMinLength \<or> int (length (rpPassword i)) > ValidUserPasswordMaxLength
      then fail_with AInvalidPassword st
      else case apBcrypt ap (rpPassword i) of
        None \<Rightarrow> fail_with AHash st
      | Some h \<Rightarrow>
       (case ResetPassword_account (rqFaults rq) (rpUserID i) (rpEmail i) h (anAccounts st) of
          (Some (UNotFound _), a) \<Rightarrow> fail_with (AInvalidJWT resetLinkNotForTheAccount False) (st\<lparr>anService := (a, snd (anService st))\<rparr>)
        | (Some e, a) \<Rightarrow> fail_with (AAccount e) (st\<lparr>anService := (a, snd (anService st))\<rparr>)
        | (None, a) \<Rightarrow> done_with () (st\<lparr>anService := (a, snd (anService st))\<rparr>)))"

definition ResetPassword ::
  "'l authn_ports \<Rightarrow> AuthnServiceConf \<Rightarrow> authn_request \<Rightarrow> ResetPasswordInput option \<Rightarrow> 'l authn_state
    \<Rightarrow> (authn_error + unit) \<times> 'l authn_state" where
  "ResetPassword ap cf rq input st =
     (case input of
        None \<Rightarrow> fail_with (AInvalidInput ''input is nil'') st
      | Some i \<Rightarrow>
       (case ResetPasswordInput_Validate (apText ap) i of
          Some e \<Rightarrow> fail_with (AValidation e) st
        | None \<Rightarrow>
            if rpEmail i = [] then fail_with (AInvalidJWT ''email claim is missing'' False) st
            else then_do (consumeSingleUseToken cf rq (rpTokenID i) (rpUserID i) TokenTypePasswordReset (rpTokenExpiresAt i) st)
              (\<lambda>_. reset_password_step ap rq i)))"

section \<open>Refresh and logout\<close>

text \<open>
  \<open>Rotated\<close> within the grace window with a live successor: the successor is
  issued again.  Outside the window the chain is ended.
\<close>

definition resolveSpentRefreshToken ::
  "AuthnServiceConf \<Rightarrow> authn_request \<Rightarrow> TokenRevocation \<Rightarrow> 'l authn_state \<Rightarrow> (authn_error + uuid) \<times> 'l authn_state" where
  "resolveSpentRefreshToken cf rq record st =
     (if \<not> Rotated record then fail_with (AInvalidRefreshToken ''this token has been revoked'') st
      else if rqNow rq - rvRevokedAt record \<le> cfRefreshRotationGrace cf then
        (case dl_Get (rqStore rq (CGet (rvReplacedBy record))) (rqDBNow rq) (rvReplacedBy record) (anDenylist st) of
           Inl e \<Rightarrow> fail_with (AStore e) st
         | Inr None \<Rightarrow> done_with (rvReplacedBy record) st
         | Inr (Some _) \<Rightarrow> fail_with (AInvalidRefreshToken ''this token has been revoked'') st)
      else (case dl_RevokeChain (rqStore rq CChain) (rqDBNow rq) (rvJTI record) (rvUserID record) (rvExpiresAt record) (anDenylist st) of
          (Inl e, d) \<Rightarrow> fail_with (AStore e) (st\<lparr>anDenylist := d\<rparr>)
        | (Inr _, d) \<Rightarrow> fail_with (AInvalidRefreshToken ''this token has been revoked'') (st\<lparr>anDenylist := d\<rparr>)))"

text \<open>
  The successor: signed first, recorded second.  Its expiry is the spent
  token's, and a token issued again is not recorded again.
\<close>

definition rotateRefreshToken ::
  "'l authn_ports \<Rightarrow> AuthnServiceConf \<Rightarrow> authn_request \<Rightarrow> User \<Rightarrow> claims \<Rightarrow> string \<Rightarrow> uuid \<Rightarrow> uuid \<Rightarrow> 'l authn_state
    \<Rightarrow> (authn_error + string) \<times> 'l authn_state" where
  "rotateRefreshToken ap cf rq u rtClaims presented spentJTI reissueJTI st =
     (if \<not> cfRefreshRotationEnabled cf \<or> \<not> cfRevokedTokens cf then done_with presented st
      else case claimExpiry rtClaims of
        None \<Rightarrow> fail_with (AInvalidRefreshToken ''exp claim is missing'') st
      | Some expiresAt \<Rightarrow>
        let newJTI = (if reissueJTI = uuid_nil then rqFresh rq 1 else reissueJTI) in
        (case apSign ap (rqNow rq) (rqFresh rq 2)
            ((session_claims cf u TokenTypeRefresh (expiresAt - rqNow rq))\<lparr>jcTokenID := newJTI\<rparr>) of
           Inl e \<Rightarrow> fail_with (ASigner e) st
         | Inr successor \<Rightarrow>
             if reissueJTI = uuid_nil then
               (case dl_Rotate (rqStore rq CRotate) (rqDBNow rq) spentJTI newJTI (usrID u) expiresAt (anDenylist st) of
                  (Some e, d) \<Rightarrow> fail_with (AStore e) (st\<lparr>anDenylist := d\<rparr>)
                | (None, d) \<Rightarrow> done_with successor (st\<lparr>anDenylist := d\<rparr>))
             else done_with successor st))"

text \<open>The denylist's part of a refresh: the jti to issue again, nil for a token not spent.\<close>

definition check_denylist ::
  "AuthnServiceConf \<Rightarrow> authn_request \<Rightarrow> uuid \<Rightarrow> 'l authn_state \<Rightarrow> (authn_error + uuid) \<times> 'l authn_state" where
  "check_denylist cf rq tokenID st =
     (if \<not> cfRevokedTokens cf then done_with uuid_nil st
      else case dl_Get (rqStore rq (CGet tokenID)) (rqDBNow rq) tokenID (anDenylist st) of
        Inl e \<Rightarrow> fail_with (AStore e) st
      | Inr None \<Rightarrow> done_with uuid_nil st
      | Inr (Some record) \<Rightarrow> resolveSpentRefreshToken cf rq record st)"

text \<open>The claims of a refresh token, and then the account, from the repository.\<close>

definition refresh_account :: "authn_request \<Rightarrow> claims \<Rightarrow> accounts_state \<Rightarrow> authn_error + User" where
  "refresh_account rq rtClaims accounts =
     (case claim_text rtClaims ''sub'' of
        None \<Rightarrow> Inl APanic
      | Some subject \<Rightarrow>
       (case uuid_parse subject of
          None \<Rightarrow> Inl AInvalidUUID
        | Some uid \<Rightarrow>
            if claim_text rtClaims ''email'' = None then Inl (AInvalidRefreshToken ''email claim is missing'')
            else if claim_text rtClaims ''token_type'' = None then Inl (AInvalidRefreshToken ''token_type claim is missing'')
            else if claim_text rtClaims ''token_type'' \<noteq> Some TokenTypeRefresh
            then Inl (AInvalidRefreshToken ''token_type is not a refresh token'')
            else case GetByID (rqCache rq) (rqFaults rq) uid accounts of
              Inl (UNotFound _) \<Rightarrow> Inl (AInvalidRefreshToken ''the account this token was issued for no longer exists'')
            | Inl e \<Rightarrow> Inl (AAccount e)
            | Inr u \<Rightarrow>
                if usrDisabled u = Some True then Inl (AInvalidRefreshToken ''the account this token was issued for is disabled'')
                else (case Standing (rqFaults rq) uid accounts of
                    Inl e \<Rightarrow> Inl (AAccount e)
                  | Inr standing \<Rightarrow>
                      if standing = AccountMissing then Inl (AInvalidRefreshToken ''the account this token was issued for no longer exists'')
                      else if standing \<noteq> AccountActive then Inl (AInvalidRefreshToken ''the account this token was issued for is disabled'')
                      else Inr u)))"

definition refresh_jti :: "claims \<Rightarrow> authn_error + uuid" where
  "refresh_jti rtClaims =
     (case rtClaims ''jti'' of
        None \<Rightarrow> Inl (AInvalidRefreshToken ''jti claim is missing'')
      | Some CNull \<Rightarrow> Inl (AInvalidRefreshToken ''jti claim is missing'')
      | Some (CStr []) \<Rightarrow> Inl (AInvalidRefreshToken ''jti claim is missing'')
      | Some (CStr s) \<Rightarrow> (case uuid_parse s of
            None \<Rightarrow> Inl (AInvalidRefreshToken ''jti claim is not a uuid'') | Some jti \<Rightarrow> Inr jti)
      | Some _ \<Rightarrow> Inl APanic)"

definition RefreshAccessToken ::
  "'l authn_ports \<Rightarrow> AuthnServiceConf \<Rightarrow> authn_request \<Rightarrow> string option \<Rightarrow> 'l authn_state
    \<Rightarrow> (authn_error + RefreshAccessTokenOutput) \<times> 'l authn_state" where
  "RefreshAccessToken ap cf rq input st =
     (case input of
        None \<Rightarrow> fail_with (AInvalidRefreshToken ''input is nil'') st
      | Some token \<Rightarrow>
       (case RefreshAccessTokenInput_Validate token of
          Some e \<Rightarrow> fail_with (AValidation e) st
        | None \<Rightarrow>
         (case apVerify ap (rqNow rq) token of
            Inl e \<Rightarrow> fail_with (ASigner e) st
          | Inr rtClaims \<Rightarrow>
            then_do (refresh_jti rtClaims, st) (\<lambda>tokenID st.
            then_do (check_denylist cf rq tokenID st) (\<lambda>reissueJTI st.
            then_do (refresh_account rq rtClaims (anAccounts st), st) (\<lambda>u st.
              (case Lifetimes_Current (anLifetimes st) of
                 None \<Rightarrow> fail_with APanic st
               | Some lifetimes \<Rightarrow>
                then_do (lift_err ASigner (apSign ap (rqNow rq) (rqFresh rq 0)
                    (session_claims cf u TokenTypeAccess (AccessTokenDuration lifetimes))), st) (\<lambda>access st.
                then_do (rotateRefreshToken ap cf rq u rtClaims token tokenID reissueJTI st) (\<lambda>refresh st.
                  done_with \<lparr>roAccessToken = access, roRefreshToken = refresh, roTokenType = TokenTypeBearer\<rparr> st)))))))))"

definition revokeRefreshToken ::
  "'l authn_ports \<Rightarrow> authn_request \<Rightarrow> uuid \<Rightarrow> string \<Rightarrow> 'l authn_state \<Rightarrow> (authn_error + unit) \<times> 'l authn_state" where
  "revokeRefreshToken ap rq uid refreshToken st =
     (case apVerify ap (rqNow rq) refreshToken of
        Inl (BadJWT e) \<Rightarrow>
          if jeExpired e then done_with () st
          else fail_with (AInvalidRefreshToken ''the token supplied to logout could not be verified, so the session was not ended'') st
      | Inl _ \<Rightarrow> fail_with (AInvalidRefreshToken ''the token supplied to logout could not be verified, so the session was not ended'') st
      | Inr c \<Rightarrow>
          if claimString c ''token_type'' \<noteq> TokenTypeRefresh
          then fail_with (AInvalidRefreshToken ''the token supplied to logout is not a refresh token'') st
          else if claimString c ''sub'' \<noteq> uuid_string uid
          then fail_with (AInvalidRefreshToken ''the token supplied to logout belongs to a different account'') st
          else case uuid_parse (claimString c ''jti'') of
            None \<Rightarrow> fail_with (AInvalidRefreshToken ''jti claim is not a uuid'') st
          | Some jti \<Rightarrow>
           (case Lifetimes_Current (anLifetimes st) of
              None \<Rightarrow> fail_with APanic st
            | Some lifetimes \<Rightarrow>
              let expiresAt = (case claimExpiry c of Some e \<Rightarrow> e | None \<Rightarrow> rqNow rq + RefreshTokenDuration lifetimes) in
              (case dl_Revoke (rqStore rq (CRevoke TokenTypeRefresh)) (rqDBNow rq) jti uid TokenTypeRefresh expiresAt (anDenylist st) of
                 (Some e, d) \<Rightarrow> fail_with (AStore e) (st\<lparr>anDenylist := d\<rparr>)
               | (None, d) \<Rightarrow>
                 (case dl_RevokeChain (rqStore rq CChain) (rqDBNow rq) jti uid expiresAt d of
                    (Inl e, d2) \<Rightarrow> fail_with (AStore e) (st\<lparr>anDenylist := d2\<rparr>)
                  | (Inr _, d2) \<Rightarrow> done_with () (st\<lparr>anDenylist := d2\<rparr>)))))"

definition revoke_access ::
  "AuthnServiceConf \<Rightarrow> authn_request \<Rightarrow> LogoutUserInput \<Rightarrow> 'l authn_state \<Rightarrow> (authn_error + unit) \<times> 'l authn_state" where
  "revoke_access cf rq i st =
     (if \<not> (cfRevokedTokens cf \<and> lxAccessTokenJTI i \<noteq> uuid_nil) then done_with () st
      else case dl_Revoke (rqStore rq (CRevoke TokenTypeAccess)) (rqDBNow rq) (lxAccessTokenJTI i) (lxUserID i) TokenTypeAccess
          (lxAccessTokenExpiresAt i) (anDenylist st) of
        (Some e, d) \<Rightarrow> fail_with (AStore e) (st\<lparr>anDenylist := d\<rparr>)
      | (None, d) \<Rightarrow> done_with () (st\<lparr>anDenylist := d,
          anAccessSet := (if cfRevokedAccessTokens cf then TokenMirror_Add (lxAccessTokenJTI i) (lxAccessTokenExpiresAt i) (anAccessSet st)
            else anAccessSet st)\<rparr>))"

definition LogoutUser ::
  "'l authn_ports \<Rightarrow> AuthnServiceConf \<Rightarrow> authn_request \<Rightarrow> LogoutUserInput option \<Rightarrow> 'l authn_state \<Rightarrow> (authn_error + unit) \<times> 'l authn_state" where
  "LogoutUser ap cf rq input st =
     (case input of
        None \<Rightarrow> fail_with (AInvalidInput ''input is nil'') st
      | Some i \<Rightarrow>
       (case LogoutUserInput_Validate i of
          Some e \<Rightarrow> fail_with (AValidation e) st
        | None \<Rightarrow>
            then_do (if cfRevokedTokens cf \<and> lxRefreshToken i \<noteq> [] then revokeRefreshToken ap rq (lxUserID i) (lxRefreshToken i) st
                     else done_with () st)
              (\<lambda>_. revoke_access cf rq i)))"

end
