(* ===== verification/AuthnDemo.thy ===== *)
theory AuthnDemo
  imports Authn AccountsRuns
begin

text \<open>
  A small world for the concrete runs: ports whose signer writes the claims it
  was asked for into the token as text, one member, and one replica.
\<close>

text \<open>A token is its type, the account's address, a stroke and the jti.\<close>

definition demo_token :: "TokenType \<Rightarrow> uuid \<Rightarrow> string" where
  "demo_token tt jti = tt @ '' token '' @ uuid_string jti"

definition demo_token_claims :: "TokenType \<Rightarrow> uuid \<Rightarrow> claims" where
  "demo_token_claims tt jti name =
     (if name = ''jti'' then Some (CStr (uuid_string jti))
      else if name = ''sub'' then Some (CStr (uuid_string (uuid7 3)))
      else if name = ''email'' then Some (CStr ''bob@example.com'')
      else if name = ''token_type'' then Some (CStr tt)
      else if name = ''exp'' then Some (CNum 7000)
      else None)"

definition demo_verify :: "instant \<Rightarrow> string \<Rightarrow> signer_error + claims" where
  "demo_verify now token =
     (case find (\<lambda>tt. HasPrefix token (tt @ '' token '')) [TokenTypeRefresh, TokenTypeEmailVerification, TokenTypePasswordReset] of
        None \<Rightarrow> Inl (jwt_error ''not a token'')
      | Some tt \<Rightarrow> (case uuid_parse (drop (length tt + 7) token) of
          None \<Rightarrow> Inl (jwt_error ''not a token'')
        | Some jti \<Rightarrow> Inr (demo_token_claims tt jti)))"

definition demo_sign :: "instant \<Rightarrow> uuid \<Rightarrow> JWTClaims \<Rightarrow> signer_error + string" where
  "demo_sign now fresh c = Inr (demo_token (jcTokenType c) (if jcTokenID c = uuid_nil then fresh else jcTokenID c))"

definition demo_ports :: "demo_bucket authn_ports" where
  "demo_ports = \<lparr>apText = ascii_env, apSign = demo_sign, apVerify = demo_verify, apBcrypt = (\<lambda>p. Some ''hash''),
     apCompare = (\<lambda>h p. h = ''hash'' \<and> p = ''Tr0ub4dor''), apDummyHash = ''dummy'', apAuthz = (\<lambda>_. Inr AuthzMissing),
     apSha256 = (\<lambda>s. s), apLimiter = token_lib, apNewLimiter = demo_fresh,
     apKey = demo_key\<rparr>"

definition demo_conf :: AuthnServiceConf where
  "demo_conf = \<lparr>cfIssuer = ''service'', cfRefreshRotationGrace = 30 * second, cfUserVerificationTokenTTL = 24 * hour,
     cfUserResetPasswordTokenTTL = 1 * hour, cfRefreshRotationEnabled = True, cfLoginThrottle = True, cfRevokedTokens = True,
     cfRevokedAccessTokens = True\<rparr>"

text \<open>A call at a whole second, with nothing failing; its n-th new id is \<open>ids n\<close>.\<close>

definition demo_call :: "int \<Rightarrow> (nat \<Rightarrow> uuid) \<Rightarrow> authn_request" where
  "demo_call s ids = \<lparr>rqNow = s * second, rqDBNow = s * second, rqFresh = ids, rqFaults = no_acc_faults,
     rqReserve = no_faults, rqRelease = no_faults, rqStore = (\<lambda>_. Done), rqMailFails = False, rqCache = None\<rparr>"

definition demo_state :: "denylist \<Rightarrow> demo_bucket authn_state" where
  "demo_state d = \<lparr>anService = (one_member, demo_db 0 0), anDenylist = d,
     anAccessSet = \<lparr>tmRemote = {}, tmLocal = [], tmLastReload = 0, tmReloadFailures = 0\<rparr>,
     anThrottle = Map.empty, anMails = [], anLifetimes = seeded_mirror\<rparr>"

section \<open>Facts about the world\<close>

lemma stored_types [simp]: "storable_type TokenTypeRefresh" "storable_type TokenTypeEmailVerification" "storable_type TokenTypePasswordReset"
  "TokenType_IsValid TokenTypeRefresh" "TokenType_IsValid TokenTypeEmailVerification" "TokenType_IsValid TokenTypePasswordReset"
  by (simp_all add: storable_type_def TokenType_IsValid_def token_types)

lemma demo_call_simps [simp]:
  "rqNow (demo_call s ids) = s * second" "rqDBNow (demo_call s ids) = s * second" "rqFresh (demo_call s ids) = ids"
  "rqFaults (demo_call s ids) = no_acc_faults" "rqStore (demo_call s ids) c = Done" "rqMailFails (demo_call s ids) = False"
  "rqCache (demo_call s ids) = None"
  by (simp_all add: demo_call_def)

lemma demo_conf_simps [simp]:
  "cfRefreshRotationGrace demo_conf = 30 * second" "cfRefreshRotationEnabled demo_conf" "cfRevokedTokens demo_conf"
  "cfRevokedAccessTokens demo_conf" "cfLoginThrottle demo_conf"
  by (simp_all add: demo_conf_def)

lemma demo_ports_simps [simp]:
  "apVerify demo_ports = demo_verify" "apSign demo_ports = demo_sign" "apText demo_ports = ascii_env"
  by (simp_all add: demo_ports_def)

lemma demo_state_simps [simp]:
  "anDenylist (demo_state d) = d" "anService (demo_state d) = (one_member, demo_db 0 0)" "anLifetimes (demo_state d) = seeded_mirror"
  "(demo_state d)\<lparr>anDenylist := d'\<rparr> = demo_state d'"
  by (simp_all add: demo_state_def)

lemma demo_claims_simps [simp]:
  "demo_token_claims tt jti ''jti'' = Some (CStr (uuid_string jti))" "demo_token_claims tt jti ''sub'' = Some (CStr (uuid_string (uuid7 3)))"
  "demo_token_claims tt jti ''email'' = Some (CStr ''bob@example.com'')" "demo_token_claims tt jti ''token_type'' = Some (CStr tt)"
  "demo_token_claims tt jti ''exp'' = Some (CNum 7000)"
  by (simp_all add: demo_token_claims_def)

lemma demo_text [simp]:
  "claim_text (demo_token_claims tt jti) ''sub'' = Some (uuid_string (uuid7 3))" "claim_text (demo_token_claims tt jti) ''email'' = Some ''bob@example.com''"
  "claim_text (demo_token_claims tt jti) ''token_type'' = Some tt" "claim_text (demo_token_claims tt jti) ''jti'' = Some (uuid_string jti)"
  "claimExpiry (demo_token_claims tt jti) = Some (7000 * second)"
  by (simp_all add: claim_text_def claimExpiry_def)

lemma uuid_string_nonempty: "uuid_string u \<noteq> []"
  by (simp add: uuid_string_def)

lemma demo_jti [simp]: "refresh_jti (demo_token_claims tt jti) = Inr jti" "uuid_parse (claimString (demo_token_claims tt jti) ''jti'') = Some jti"
proof -
  show "uuid_parse (claimString (demo_token_claims tt jti) ''jti'') = Some jti" by (simp add: claimString_def uuid_parse_string)
  obtain c cs where "uuid_string jti = c # cs" using uuid_string_nonempty[of jti] by (cases "uuid_string jti") auto
  with uuid_parse_string[of jti] show "refresh_jti (demo_token_claims tt jti) = Inr jti" by (simp add: refresh_jti_def)
qed

lemma demo_verify_token [simp]:
  "demo_verify now (demo_token TokenTypeRefresh jti) = Inr (demo_token_claims TokenTypeRefresh jti)"
  "demo_verify now (demo_token TokenTypeEmailVerification jti) = Inr (demo_token_claims TokenTypeEmailVerification jti)"
  "demo_verify now (demo_token TokenTypePasswordReset jti) = Inr (demo_token_claims TokenTypePasswordReset jti)"
  by (simp_all add: demo_verify_def demo_token_def token_types HasPrefix_def uuid_parse_string)

lemma demo_signs [simp]: "demo_sign now fresh c = Inr (demo_token (jcTokenType c) (if jcTokenID c = uuid_nil then fresh else jcTokenID c))"
  by (simp add: demo_sign_def)

lemma demo_token_valid [simp]:
  "RefreshAccessTokenInput_Validate (demo_token TokenTypeRefresh (uuid7 2)) = None"
  "RefreshAccessTokenInput_Validate (demo_token TokenTypeRefresh (uuid7 4)) = None"
  "RefreshAccessTokenInput_Validate (demo_token TokenTypeRefresh (uuid7 5)) = None"
  by code_simp+

text \<open>The member's account answers.\<close>

lemma demo_account_answers [simp]:
  "refresh_account (demo_call s ids) (demo_token_claims TokenTypeRefresh jti) one_member =
     Inr (withoutCredentials (user_of_row (uuid7 3) (demo_account ''bob@example.com'' False)))"
  using uuid7_v7
  by (simp add: refresh_account_def uuid_parse_string GetByID_def repo_SelectByID_def no_acc_faults_def one_member_def user_row_of_def
      Standing_def repo_SelectDisabled_def withoutCredentials_def user_of_row_def demo_account_def)

lemma demo_lifetimes [simp]: "Lifetimes_Current seeded_mirror = Some (scanTokenLifetimes seed_row)"
  by (simp add: seeded_mirror_def Lifetimes_Current_def)

section \<open>A session\<close>

text \<open>The session's first token was rotated at this second; its successor is still live.\<close>

definition demo_link :: "int \<Rightarrow> revoked_row" where
  "demo_link at = \<lparr>rtUser = uuid7 3, rtType = TokenTypeRefresh, rtExpires = 7000 * second, rtRevokedAt = at * second,
     rtReplacedBy = Some (uuid7 4)\<rparr>"

definition demo_rotated :: "int \<Rightarrow> denylist" where
  "demo_rotated at = [(uuid7 2, demo_link at)]"

lemma demo_link_simps [simp]: "rtExpires (demo_link at) = 7000 * second" "rtReplacedBy (demo_link at) = Some (uuid7 4)"
  "rtRevokedAt (demo_link at) = at * second" "rtUser (demo_link at) = uuid7 3"
  by (simp_all add: demo_link_def)

lemma demo_rotated_rows: "map_of (demo_rotated at) k = (if k = uuid7 2 then Some (demo_link at) else None)"
  by (simp add: demo_rotated_def)

definition demo_logout :: LogoutUserInput where
  "demo_logout = \<lparr>lxAccessTokenExpiresAt = 300 * second, lxRefreshToken = demo_token TokenTypeRefresh (uuid7 2),
     lxUserID = uuid7 3, lxAccessTokenJTI = uuid_nil\<rparr>"

lemma demo_token_nonempty [simp]: "demo_token tt jti \<noteq> []"
  by (simp add: demo_token_def)

lemma demo_logout_simps [simp]: "LogoutUserInput_Validate demo_logout = None" "lxRefreshToken demo_logout = demo_token TokenTypeRefresh (uuid7 2)"
  "lxUserID demo_logout = uuid7 3" "lxAccessTokenJTI demo_logout = uuid_nil"
proof -
  have v: "ValidateUUID (lxUserID demo_logout) 7 ''user_id'' = None" using uuid7_v7 by (simp add: demo_logout_def)
  show "LogoutUserInput_Validate demo_logout = None"
    unfolding LogoutUserInput_Validate_def v by (simp add: errs_result_def HasErrors_def)
qed (simp_all add: demo_logout_def)

text \<open>The same session after a logout.\<close>

definition demo_ended :: denylist where
  "demo_ended = (uuid7 4, \<lparr>rtUser = uuid7 3, rtType = TokenTypeRefresh, rtExpires = 7000 * second, rtRevokedAt = 60 * second, rtReplacedBy = None\<rparr>) # demo_rotated 10"

end
