(* ===== verification/AuthnSessions.thy ===== *)
theory AuthnSessions
  imports AuthnDemo
begin

text \<open>
  What a refresh and a logout promise: a session is renewed only for an active
  account and a token that is not spent, a retry gets the successor it missed,
  and a replay or a logout ends every token of the chain.
\<close>

section \<open>A refresh, step by step\<close>

definition refresh_claims :: "'l authn_ports \<Rightarrow> authn_request \<Rightarrow> string \<Rightarrow> claims \<Rightarrow> uuid \<Rightarrow> bool" where
  "refresh_claims ap rq token c jti \<longleftrightarrow>
     RefreshAccessTokenInput_Validate token = None \<and> apVerify ap (rqNow rq) token = Inr c \<and> refresh_jti c = Inr jti"

lemma RefreshAccessToken_success:
  assumes "RefreshAccessToken ap cf rq (Some token) st = (Inr out, st')"
  obtains c jti reissue st1 u lifetimes where
    "refresh_claims ap rq token c jti"
    "check_denylist cf rq jti st = (Inr reissue, st1)"
    "refresh_account rq c (anAccounts st1) = Inr u"
    "Lifetimes_Current (anLifetimes st1) = Some lifetimes"
    "apSign ap (rqNow rq) (rqFresh rq 0) (session_claims cf u TokenTypeAccess (AccessTokenDuration lifetimes)) = Inr (roAccessToken out)"
    "rotateRefreshToken ap cf rq u c token jti reissue st1 = (Inr (roRefreshToken out), st')"
    "roTokenType out = TokenTypeBearer"
proof -
  have v: "RefreshAccessTokenInput_Validate token = None" and "\<exists>c. apVerify ap (rqNow rq) token = Inr c"
    using assms by (auto simp: RefreshAccessToken_def split: option.splits sum.splits)
  then obtain c where c: "apVerify ap (rqNow rq) token = Inr c" by blast
  note r = assms[unfolded RefreshAccessToken_def, simplified v c option.case sum.case then_do_Inr]
  from r obtain jti reissue st1 u where
    1: "refresh_jti c = Inr jti" "check_denylist cf rq jti st = (Inr reissue, st1)" "refresh_account rq c (anAccounts st1) = Inr u"
    "(case Lifetimes_Current (anLifetimes st1) of None \<Rightarrow> fail_with APanic st1
       | Some lifetimes \<Rightarrow>
          then_do (lift_err ASigner (apSign ap (rqNow rq) (rqFresh rq 0)
              (session_claims cf u TokenTypeAccess (AccessTokenDuration lifetimes))), st1) (\<lambda>access st.
          then_do (rotateRefreshToken ap cf rq u c token jti reissue st) (\<lambda>refresh st.
            done_with \<lparr>roAccessToken = access, roRefreshToken = refresh, roTokenType = TokenTypeBearer\<rparr> st)))
     = (Inr out, st')"
    by auto
  from 1(4) obtain lifetimes where l: "Lifetimes_Current (anLifetimes st1) = Some lifetimes" by (auto split: option.splits)
  show ?thesis
    using that[OF _ 1(2,3) l] 1(1,4) l v c by (auto simp: refresh_claims_def then_do_Inr)
qed

lemma check_denylist_cases:
  assumes "check_denylist cf rq jti st = (r, st')" "cfRevokedTokens cf"
  shows "(\<exists>e. r = Inl (AStore e) \<and> st' = st) \<or>
    (r = Inr uuid_nil \<and> st' = st \<and> dl_Get Done (rqDBNow rq) jti (anDenylist st) = Inr None) \<or>
    (\<exists>record. dl_Get Done (rqDBNow rq) jti (anDenylist st) = Inr (Some record) \<and> resolveSpentRefreshToken cf rq record st = (r, st'))"
  using assms by (auto simp: check_denylist_def dl_Get_def split: sum.splits option.splits if_splits)

lemma resolve_state [simp]:
  "anService (snd (resolveSpentRefreshToken cf rq record st)) = anService st"
  "anLifetimes (snd (resolveSpentRefreshToken cf rq record st)) = anLifetimes st"
  by (auto simp: resolveSpentRefreshToken_def split: sum.splits option.splits prod.splits)

lemma check_denylist_state [simp]:
  "anService (snd (check_denylist cf rq jti st)) = anService st" "anLifetimes (snd (check_denylist cf rq jti st)) = anLifetimes st"
  by (auto simp: check_denylist_def split: sum.splits option.splits)

text \<open>A success of the denylist's part leaves the state alone.\<close>

lemma check_denylist_Inr:
  assumes "check_denylist cf rq jti st = (Inr reissue, st')"
  shows "st' = st \<and> (cfRevokedTokens cf \<longrightarrow>
     (reissue = uuid_nil \<and> dl_Get Done (rqDBNow rq) jti (anDenylist st) = Inr None) \<or>
     (\<exists>record. dl_Get Done (rqDBNow rq) jti (anDenylist st) = Inr (Some record) \<and> Rotated record
       \<and> rqNow rq - rvRevokedAt record \<le> cfRefreshRotationGrace cf \<and> reissue = rvReplacedBy record
       \<and> dl_Get Done (rqDBNow rq) (rvReplacedBy record) (anDenylist st) = Inr None))"
proof (cases "cfRevokedTokens cf")
  case True
  from check_denylist_cases[OF assms True] show ?thesis
    by (auto simp: resolveSpentRefreshToken_def dl_Get_def split: if_splits sum.splits option.splits prod.splits)
qed (use assms in \<open>simp add: check_denylist_def\<close>)

lemma rotate_state [simp]: "anService (snd (rotateRefreshToken ap cf rq u c token jti reissue st)) = anService st"
  by (auto simp: rotateRefreshToken_def Let_def split: sum.splits option.splits prod.splits)

lemma refresh_account_Inr:
  assumes "refresh_account rq c accounts = Inr u"
  obtains subject uid r where "claim_text c ''sub'' = Some subject" "uuid_parse subject = Some uid"
    "claim_text c ''token_type'' = Some TokenTypeRefresh" "user_row_of uid accounts = Some r" "\<not> rowDisabled r"
    "GetByID (rqCache rq) (rqFaults rq) uid accounts = Inr u"
proof -
  obtain subject uid where s: "claim_text c ''sub'' = Some subject" "uuid_parse subject = Some uid"
    using assms by (auto simp: refresh_account_def split: option.splits)
  note a = assms[unfolded refresh_account_def, simplified s option.case]
  have t: "claim_text c ''token_type'' = Some TokenTypeRefresh" "GetByID (rqCache rq) (rqFaults rq) uid accounts = Inr u"
    "Standing (rqFaults rq) uid accounts = Inr AccountActive"
    using a by (auto split: if_splits sum.splits account_error.splits AccountStanding.splits)
  then obtain r where "user_row_of uid accounts = Some r" "\<not> rowDisabled r"
    by (auto simp: Standing_def repo_SelectDisabled_def split: sum.splits account_error.splits if_splits option.splits)
  with that s t show ?thesis by blast
qed

text \<open>
  C12. A session is renewed only for an account that may act: whatever the
  cache holds, a refresh that succeeds was asked with a token that verifies,
  is a refresh token, and names an account that is there and not disabled;
  and the token was not on the denylist, or was rotated within the grace
  window and its successor is not on it.
\<close>

theorem refresh_only_for_active_accounts:
  assumes "RefreshAccessToken ap cf rq (Some token) st = (Inr out, st')" "cfRevokedTokens cf"
  shows "\<exists>c jti subject uid r. apVerify ap (rqNow rq) token = Inr c \<and> refresh_jti c = Inr jti
    \<and> claim_text c ''token_type'' = Some TokenTypeRefresh
    \<and> claim_text c ''sub'' = Some subject \<and> uuid_parse subject = Some uid
    \<and> user_row_of uid (anAccounts st) = Some r \<and> \<not> rowDisabled r
    \<and> (dl_Get Done (rqDBNow rq) jti (anDenylist st) = Inr None \<or>
       (\<exists>record. dl_Get Done (rqDBNow rq) jti (anDenylist st) = Inr (Some record) \<and> Rotated record
         \<and> rqNow rq - rvRevokedAt record \<le> cfRefreshRotationGrace cf
         \<and> dl_Get Done (rqDBNow rq) (rvReplacedBy record) (anDenylist st) = Inr None))"
proof -
  from assms(1) obtain c jti reissue st1 u where s:
    "refresh_claims ap rq token c jti" "check_denylist cf rq jti st = (Inr reissue, st1)" "refresh_account rq c (anAccounts st1) = Inr u"
    by (rule RefreshAccessToken_success)
  note d = check_denylist_Inr[OF s(2)]
  from s(3) d obtain subject uid r where "claim_text c ''sub'' = Some subject" "uuid_parse subject = Some uid"
    "claim_text c ''token_type'' = Some TokenTypeRefresh" "user_row_of uid (anAccounts st) = Some r" "\<not> rowDisabled r"
    by (auto elim!: refresh_account_Inr)
  with s(1) d assms(2) show ?thesis unfolding refresh_claims_def by blast
qed


theorem refresh_only_for_active_accounts_witness:
  "\<exists>c jti r. apVerify demo_ports (60 * second) (demo_token TokenTypeRefresh (uuid7 2)) = Inr c \<and> refresh_jti c = Inr jti
     \<and> user_row_of (uuid7 3) (anAccounts (demo_state [])) = Some r \<and> \<not> rowDisabled r"
proof -
  obtain out st' where r: "RefreshAccessToken demo_ports demo_conf (demo_call 60 (\<lambda>_. uuid7 4))
      (Some (demo_token TokenTypeRefresh (uuid7 2))) (demo_state []) = (Inr out, st')"
    using uuid7_distinct
    by (auto simp: RefreshAccessToken_def check_denylist_def dl_Get_def session_claims_def rotateRefreshToken_def
        dl_Rotate_def exec_insert_def insert_row_def Let_def)
  from refresh_only_for_active_accounts[OF r] show ?thesis by (auto simp: uuid_parse_string)
qed

section \<open>The end of a session\<close>

text \<open>
  Every token the chain leads to has a row, and none of the rows goes before
  the chain expires.
\<close>

definition session_over :: "instant \<Rightarrow> uuid \<Rightarrow> denylist \<Rightarrow> bool" where
  "session_over e j d \<longleftrightarrow> (\<forall>k. reaches d j k \<longrightarrow> (\<exists>row. map_of d k = Some row \<and> e \<le> rtExpires row))"

lemma session_over_row:
  "session_over e j d \<Longrightarrow> reaches d j k \<Longrightarrow> \<exists>row. map_of d k = Some row \<and> e \<le> rtExpires row"
  by (simp add: session_over_def)

text \<open>What the chain leads to is settled once it is over: later statements keep its rows and add nothing to it.\<close>

definition keeps_rows :: "instant \<Rightarrow> denylist \<Rightarrow> denylist \<Rightarrow> bool" where
  "keeps_rows e d d' \<longleftrightarrow> (\<forall>k row. map_of d k = Some row \<longrightarrow> e \<le> rtExpires row \<longrightarrow> map_of d' k = Some row)"

lemma dl_run_keeps_rows: "list_all (\<lambda>(at, _). at < e) ops \<Longrightarrow> keeps_rows e d (dl_run ops d)"
  unfolding keeps_rows_def by (auto intro!: dl_run_keeps elim!: list.pred_mono_strong)

lemma dl_Revoke_keeps_rows: "keeps_rows e d (snd (dl_Revoke pg now k u tt e' d))"
  by (auto simp: keeps_rows_def dl_Revoke_snd exec_insert_keeps)

lemma session_over_reaches_back:
  assumes "reaches d' j k" "session_over e j d" "keeps_rows e d d'"
  shows "reaches d j k \<and> (\<exists>row. map_of d k = Some row \<and> e \<le> rtExpires row \<and> map_of d' k = Some row)"
  using assms
proof (induction rule: reaches.induct)
  case here then show ?case using session_over_row[of e j d j] by (auto simp: keeps_rows_def intro: reaches.here)
next
  case (next_link k row s)
  then have "reaches d j s" by (auto intro: reaches.next_link)
  with next_link.prems session_over_row[of e j d s] show ?case by (auto simp: keeps_rows_def)
qed

lemma session_stays_over: "session_over e j d \<Longrightarrow> keeps_rows e d d' \<Longrightarrow> session_over e j d'"
  using session_over_reaches_back[of d' j _ e d] unfolding session_over_def by blast

text \<open>
  A refresh finds a token unusable that has a live row, and whose successor,
  if the row names one, has a live row too.
\<close>

definition spent_until :: "instant \<Rightarrow> denylist \<Rightarrow> uuid \<Rightarrow> bool" where
  "spent_until e d k \<longleftrightarrow> (\<exists>row. map_of d k = Some row \<and> e \<le> rtExpires row
     \<and> (\<forall>s. rtReplacedBy row = Some s \<longrightarrow> (\<exists>row'. map_of d s = Some row' \<and> e \<le> rtExpires row')))"

lemma spent_refuses:
  assumes spent: "spent_until e (anDenylist st) k" and at: "rqDBNow rq < e"
    and verifies: "apVerify ap (rqNow rq) token = Inr c" "refresh_jti c = Inr k" and cf: "cfRevokedTokens cf"
  shows "fst (RefreshAccessToken ap cf rq (Some token) st) \<noteq> Inr out"
proof
  assume "fst (RefreshAccessToken ap cf rq (Some token) st) = Inr out"
  then obtain st' where r: "RefreshAccessToken ap cf rq (Some token) st = (Inr out, st')" by (metis prod.collapse)
  obtain c' jti reissue st1 where c': "refresh_claims ap rq token c' jti" "check_denylist cf rq jti st = (Inr reissue, st1)"
    using RefreshAccessToken_success[OF r] by metis
  then have j: "jti = k" using verifies by (simp add: refresh_claims_def)
  have live: "\<exists>r. dl_Get Done (rqDBNow rq) k' (anDenylist st) = Inr (Some r)"
    if "k' \<noteq> uuid_nil" "map_of (anDenylist st) k' = Some row" "e \<le> rtExpires row" for k' row
    using that dl_Get_live[of "anDenylist st" k' _ "rqDBNow rq"] at by fastforce
  from spent obtain row where row: "map_of (anDenylist st) k = Some row" "e \<le> rtExpires row"
    "\<And>s. rtReplacedBy row = Some s \<Longrightarrow> \<exists>row'. map_of (anDenylist st) s = Some row' \<and> e \<le> rtExpires row'"
    by (auto simp: spent_until_def)
  from check_denylist_Inr[OF c'(2)] cf j
  consider "dl_Get Done (rqDBNow rq) k (anDenylist st) = Inr None"
    | found where "dl_Get Done (rqDBNow rq) k (anDenylist st) = Inr (Some found)" "Rotated found"
        "dl_Get Done (rqDBNow rq) (rvReplacedBy found) (anDenylist st) = Inr None" by blast
  then show False
  proof cases
    case 1
    then have "k \<noteq> uuid_nil" by (auto simp: dl_Get_def)
    with live[OF this row(1,2)] 1 show False by simp
  next
    case (2 found)
    then have s: "rtReplacedBy row = Some (rvReplacedBy found)" "rvReplacedBy found \<noteq> uuid_nil"
      using row(1) by (auto simp: dl_Get_def Rotated_def split: if_splits option.splits)
    with row(3)[OF s(1)] live[OF s(2)] 2(3) show False by fastforce
  qed
qed

lemma session_over_spent: "session_over e j d \<Longrightarrow> reaches d j k \<Longrightarrow> spent_until e d k"
  unfolding spent_until_def using session_over_row reaches.next_link by metis

lemma RevokeChain_runs: "j \<noteq> uuid_nil \<Longrightarrow> \<exists>tip d'. dl_RevokeChain Done now j u e d = (Inr tip, d')"
  by (auto simp: dl_RevokeChain_def split: list.split prod.split)

text \<open>\<open>RevokeChain\<close> on a token that has a row ends its session, when every rotation carried the expiry over.\<close>

lemma RevokeChain_session_over:
  assumes "dl_RevokeChain pg now j u e d = (Inr tip, d')" "map_of d j \<noteq> None"
    and "\<And>k row. map_of d k = Some row \<Longrightarrow> reaches d j k \<Longrightarrow> rtExpires row = e"
  shows "session_over e j d'"
  unfolding session_over_def
proof (intro allI impI)
  fix k assume k: "reaches d' j k"
  note c = RevokeChain_closes[OF assms(1,2) k]
  show "\<exists>row. map_of d' k = Some row \<and> e \<le> rtExpires row"
  proof (cases "map_of d k")
    case (Some row) with c assms(3)[OF Some] show ?thesis by auto
  qed (use c in auto)
qed

section \<open>Replay and logout\<close>

text \<open>The request presents a refresh token that verifies, with this jti.\<close>

definition presents :: "'l authn_ports \<Rightarrow> authn_request \<Rightarrow> string \<Rightarrow> uuid \<Rightarrow> bool" where
  "presents ap rq token jti = (case apVerify ap (rqNow rq) token of Inl _ \<Rightarrow> False | Inr c \<Rightarrow> refresh_jti c = Inr jti)"

lemma presentsE:
  assumes "presents ap rq token jti" obtains c where "apVerify ap (rqNow rq) token = Inr c" "refresh_jti c = Inr jti"
  using assms by (auto simp: presents_def split: sum.splits)

text \<open>The rows of a chain expire together, as \<open>rotateRefreshToken\<close> writes them.\<close>

definition chain_expires :: "instant \<Rightarrow> uuid \<Rightarrow> denylist \<Rightarrow> bool" where
  "chain_expires e j d \<longleftrightarrow> (\<forall>k row. map_of d k = Some row \<longrightarrow> reaches d j k \<longrightarrow> rtExpires row = e)"

lemma over_presented_refused:
  assumes "session_over e j d" "list_all (\<lambda>(at, _). at < e) ops" "anDenylist later = dl_run ops d"
    and "reaches (anDenylist later) j k" "presents ap rq token k" "rqDBNow rq < e" "cfRevokedTokens cf"
  shows "fst (RefreshAccessToken ap cf rq (Some token) later) \<noteq> Inr out"
proof -
  from assms(5) obtain c where "apVerify ap (rqNow rq) token = Inr c" "refresh_jti c = Inr k" by (rule presentsE)
  moreover have "session_over e j (anDenylist later)"
    unfolding assms(3) by (rule session_stays_over[OF assms(1) dl_run_keeps_rows[OF assms(2)]])
  ultimately show ?thesis using assms(4,6,7) by (intro spent_refuses[OF session_over_spent])
qed

text \<open>
  C1. A replay ends the session for both parties: when a rotated refresh
  token comes back after the grace window and the database answers, it is
  refused, and from then on, whatever statements run, every token the chain
  leads to, the live one at its tip included, is refused until it expires.
\<close>

theorem replay_ends_the_session:
  assumes "RefreshAccessToken ap cf rq (Some token) st = (r, st')" "cfRevokedTokens cf"
    and "RefreshAccessTokenInput_Validate token = None" "presents ap rq token j" "j \<noteq> uuid_nil"
    and "map_of (anDenylist st) j = Some row" "rtReplacedBy row = Some s" "s \<noteq> uuid_nil"
    and "rqDBNow rq < rtExpires row" "rqNow rq - rtRevokedAt row > cfRefreshRotationGrace cf"
    and "rqStore rq (CGet j) = Done" "rqStore rq CChain = Done"
    and "chain_expires (rtExpires row) j (anDenylist st)"
    and "list_all (\<lambda>(at, _). at < rtExpires row) ops" "anDenylist later = dl_run ops (anDenylist st')"
    and "reaches (anDenylist later) j k" "presents ap' rq' token' k" "rqDBNow rq' < rtExpires row"
  shows "r = Inl (AInvalidRefreshToken ''this token has been revoked'')
    \<and> fst (RefreshAccessToken ap' cf rq' (Some token') later) \<noteq> Inr out"
proof -
  let ?d = "anDenylist st"
  obtain c where c: "apVerify ap (rqNow rq) token = Inr c" "refresh_jti c = Inr j" using assms(4) by (rule presentsE)
  obtain tip d' where rc: "dl_RevokeChain Done (rqDBNow rq) j (rtUser row) (rtExpires row) ?d = (Inr tip, d')"
    using RevokeChain_runs[OF assms(5)] by blast
  have g: "dl_Get Done (rqDBNow rq) j ?d = Inr (Some \<lparr>rvRevokedAt = rtRevokedAt row, rvExpiresAt = rtExpires row, rvJTI = j,
      rvUserID = rtUser row, rvReplacedBy = s\<rparr>)"
    using assms(5-9) by (simp add: dl_Get_def)
  have r: "r = Inl (AInvalidRefreshToken ''this token has been revoked'')" "st' = st\<lparr>anDenylist := d'\<rparr>"
    using assms(1-3,8,10-12) c g rc
    by (simp_all add: RefreshAccessToken_def check_denylist_def resolveSpentRefreshToken_def Rotated_def)
  have "session_over (rtExpires row) j d'"
    by (rule RevokeChain_session_over[OF rc]) (use assms(6,13) in \<open>auto simp: chain_expires_def\<close>)
  then have "session_over (rtExpires row) j (anDenylist st')" by (simp add: r(2))
  with r(1) over_presented_refused[OF this assms(14-18,2)] show ?thesis by blast
qed

theorem replay_ends_the_session_witness:
  "\<forall>out. fst (RefreshAccessToken demo_ports demo_conf (demo_call 100 (\<lambda>_. uuid7 5)) (Some (demo_token TokenTypeRefresh (uuid7 4)))
     (snd (RefreshAccessToken demo_ports demo_conf (demo_call 60 (\<lambda>_. uuid7 5)) (Some (demo_token TokenTypeRefresh (uuid7 2)))
        (demo_state (demo_rotated 10))))) \<noteq> Inr out"
proof
  fix out
  let ?rq = "demo_call 60 (\<lambda>_. uuid7 5)" and ?st = "demo_state (demo_rotated 10)" and ?tok = "demo_token TokenTypeRefresh (uuid7 2)"
  let ?st' = "snd (RefreshAccessToken demo_ports demo_conf ?rq (Some ?tok) ?st)"
  obtain tip d' where d': "dl_RevokeChain Done (60 * second) (uuid7 2) (uuid7 3) (7000 * second) (demo_rotated 10) = (Inr tip, d')"
    using RevokeChain_runs[OF uuid7_distinct(8)] by blast
  have "?st' = demo_state d'"
    using uuid7_distinct d'
    by (simp add: RefreshAccessToken_def check_denylist_def dl_Get_def demo_rotated_rows resolveSpentRefreshToken_def Rotated_def)
  moreover have "map_of d' (uuid7 2) = Some (demo_link 10)"
    using dl_RevokeChain_keeps[of "demo_rotated 10" "uuid7 2" "demo_link 10"] d' by (metis demo_rotated_rows snd_conv)
  ultimately have "reaches (anDenylist ?st') (uuid7 2) (uuid7 4)"
    using reaches.next_link[OF reaches.here] by simp
  moreover have "presents demo_ports ?rq ?tok (uuid7 2)"
    "presents demo_ports (demo_call 100 (\<lambda>_. uuid7 5)) (demo_token TokenTypeRefresh (uuid7 4)) (uuid7 4)"
    by (simp_all add: presents_def)
  moreover have "chain_expires (7000 * second) (uuid7 2) (demo_rotated 10)"
    by (auto simp: chain_expires_def demo_rotated_rows split: if_splits)
  ultimately show "fst (RefreshAccessToken demo_ports demo_conf (demo_call 100 (\<lambda>_. uuid7 5)) (Some (demo_token TokenTypeRefresh (uuid7 4))) ?st') \<noteq> Inr out"
    using replay_ends_the_session[where ap = demo_ports and cf = demo_conf and rq = ?rq and token = ?tok and st = ?st
        and r = "fst (RefreshAccessToken demo_ports demo_conf ?rq (Some ?tok) ?st)" and st' = ?st' and j = "uuid7 2" and row = "demo_link 10"
        and s = "uuid7 4" and ops = "[]" and later = ?st' and k = "uuid7 4" and ap' = demo_ports and rq' = "demo_call 100 (\<lambda>_. uuid7 5)"
        and token' = "demo_token TokenTypeRefresh (uuid7 4)" and out = out] uuid7_distinct
    by (simp add: demo_rotated_rows)
qed

text \<open>What \<open>revokeRefreshToken\<close> leaves, when it revoked.\<close>

lemma revoke_refresh_session_over:
  assumes "revokeRefreshToken ap rq uid token st = (Inr (), st')" "apVerify ap (rqNow rq) token = Inr c"
    and "uuid_parse (claimString c ''jti'') = Some j" "claimExpiry c = Some e" "chain_expires e j (anDenylist st)"
  shows "session_over e j (anDenylist st') \<and> keeps_rows e (anDenylist st) (anDenylist st') \<and> st' = st\<lparr>anDenylist := anDenylist st'\<rparr>"
proof -
  let ?row = "\<lparr>rtUser = uid, rtType = TokenTypeRefresh, rtExpires = e, rtRevokedAt = rqDBNow rq, rtReplacedBy = None\<rparr>"
  obtain d1 where d1: "dl_Revoke (rqStore rq (CRevoke TokenTypeRefresh)) (rqDBNow rq) j uid TokenTypeRefresh e (anDenylist st) = (None, d1)"
    and rest: "\<exists>tip. dl_RevokeChain (rqStore rq CChain) (rqDBNow rq) j uid e d1 = (Inr tip, anDenylist st')"
      "st' = st\<lparr>anDenylist := anDenylist st'\<rparr>"
    using assms(1-4) by (auto simp: revokeRefreshToken_def Let_def split: if_splits option.splits prod.splits sum.splits)
  from d1 have w: "d1 = snd (insert_row j ?row (anDenylist st))"
    by (auto simp: dl_Revoke_def exec_insert_def split: if_splits prod.splits sum.splits pg_outcome.splits)
  have "rtExpires row = e" if "map_of d1 k = Some row" "reaches d1 j k" for k row
  proof (cases "map_of (anDenylist st) j")
    case None
    then have "d1 = (j, ?row) # anDenylist st" by (simp add: w insert_row_def)
    with that None assms(5) reaches_insert[of j ?row "anDenylist st" j k] show ?thesis
      by (auto simp: chain_expires_def split: if_splits)
  qed (use that assms(5) w in \<open>auto simp: chain_expires_def insert_row_def\<close>)
  moreover have "map_of d1 j \<noteq> None" by (simp add: w insert_row_def)
  moreover have "keeps_rows e (anDenylist st) (anDenylist st')"
    using rest insert_row_keeps[of "anDenylist st"] dl_RevokeChain_keeps[of d1] unfolding keeps_rows_def w by (metis snd_conv)
  ultimately show ?thesis using rest RevokeChain_session_over by blast
qed

text \<open>
  The tokens before: one that leads to a token of the chain is spent with
  it, because its row names a successor that has a row.
\<close>

lemma reaches_first:
  "reaches d k j \<Longrightarrow> k = j \<or> (\<exists>row s. map_of d k = Some row \<and> rtReplacedBy row = Some s \<and> reaches d s j)"
  by (induction rule: reaches.induct) (auto intro: reaches.intros)

definition leads_expire :: "instant \<Rightarrow> uuid \<Rightarrow> denylist \<Rightarrow> bool" where
  "leads_expire e j d \<longleftrightarrow> (\<forall>k row. map_of d k = Some row \<longrightarrow> reaches d k j \<longrightarrow> e \<le> rtExpires row)"

lemma leading_spent:
  assumes "reaches d k j" "leads_expire e j d" "keeps_rows e d d'" "map_of d' j = Some row" "e \<le> rtExpires row" "spent_until e d' j"
  shows "spent_until e d' k"
proof (cases "k = j")
  case False
  have kept: "\<exists>r. map_of d' x = Some r \<and> e \<le> rtExpires r \<and> (x \<noteq> j \<longrightarrow> map_of d x = Some r)" if "reaches d x j" for x
  proof (cases "x = j")
    case False
    with reaches_first[OF that] obtain r where "map_of d x = Some r" by blast
    with that assms(2,3) show ?thesis unfolding leads_expire_def keeps_rows_def by blast
  qed (use assms(4,5) in blast)
  from reaches_first[OF assms(1)] False obtain r s where r: "map_of d k = Some r" "rtReplacedBy r = Some s" "reaches d s j" by blast
  from kept[OF assms(1)] False r(1) have "map_of d' k = Some r \<and> e \<le> rtExpires r" by auto
  with kept[OF r(3)] r(2) show ?thesis unfolding spent_until_def by auto
qed (use assms(6) in simp)

text \<open>
  C11. A logout that is given the session's refresh token ends the session:
  when the token still verifies and the logout succeeded, every refresh token
  of its chain (the token itself, those it leads to and those that led to it)
  is refused until it expires, whatever statements run on the denylist
  meanwhile; and if the request names its access token and this replica keeps
  the set of revoked ones, the access token is refused here at once.  A logout without
  a refresh token, which the code accepts with a warning, or with one that has
  expired, revokes the access token only: nothing is claimed of it.
\<close>

theorem logout_ends_the_session:
  assumes "LogoutUser ap cf rq (Some i) st = (Inr (), st')" "cfRevokedTokens cf" "lxRefreshToken i \<noteq> []"
    and "apVerify ap (rqNow rq) (lxRefreshToken i) = Inr c" "uuid_parse (claimString c ''jti'') = Some j" "claimExpiry c = Some e"
    and "chain_expires e j (anDenylist st)" "leads_expire e j (anDenylist st)"
    and "list_all (\<lambda>(at, _). at < e) ops" "anDenylist later = dl_run ops (anDenylist st')"
    and "reaches (anDenylist later) j k \<or> reaches (anDenylist st) k j" "presents ap' rq' token' k" "rqDBNow rq' < e"
  shows "fst (RefreshAccessToken ap' cf rq' (Some token') later) \<noteq> Inr out
    \<and> (cfRevokedAccessTokens cf \<and> lxAccessTokenJTI i \<noteq> uuid_nil \<longrightarrow> TokenMirror_Contains (anAccessSet st') (lxAccessTokenJTI i))"
proof -
  obtain st1 where s1: "revokeRefreshToken ap rq (lxUserID i) (lxRefreshToken i) st = (Inr (), st1)"
    and s2: "revoke_access cf rq i st1 = (Inr (), st')"
    using assms(1-3) by (auto simp: LogoutUser_def then_do_Inr split: option.splits)
  note over = revoke_refresh_session_over[OF s1 assms(4-7)]
  have k1: "keeps_rows e (anDenylist st1) (anDenylist st')"
    using s2 dl_Revoke_keeps_rows[of e "anDenylist st1"]
    by (auto simp: revoke_access_def keeps_rows_def split: if_splits prod.splits option.splits) (metis snd_conv)+
  have k2: "keeps_rows e (anDenylist st') (anDenylist later)" unfolding assms(10) by (rule dl_run_keeps_rows[OF assms(9)])
  have o: "session_over e j (anDenylist later)" using over k1 k2 session_stays_over by blast
  have k: "keeps_rows e (anDenylist st) (anDenylist later)" using over k1 k2 unfolding keeps_rows_def by blast
  note j = session_over_row[OF o reaches.here] session_over_spent[OF o reaches.here]
  have "spent_until e (anDenylist later) k"
    using assms(11) session_over_spent[OF o] leading_spent[OF _ assms(8) k _ _ j(2)] j(1) by blast
  moreover obtain c' where "apVerify ap' (rqNow rq') token' = Inr c'" "refresh_jti c' = Inr k" using assms(12) by (rule presentsE)
  moreover have "cfRevokedAccessTokens cf \<and> lxAccessTokenJTI i \<noteq> uuid_nil \<Longrightarrow> TokenMirror_Contains (anAccessSet st') (lxAccessTokenJTI i)"
    using s2 assms(2) by (auto simp: revoke_access_def TokenMirror_Contains_def Add_local split: if_splits prod.splits option.splits)
  ultimately show ?thesis using spent_refuses assms(2,13) by blast
qed

lemma demo_logout_run:
  assumes d': "dl_RevokeChain Done (60 * second) (uuid7 2) (uuid7 3) (7000 * second) (demo_rotated 10) = (Inr tip, d')"
  shows "LogoutUser demo_ports demo_conf (demo_call 60 (\<lambda>_. x)) (Some demo_logout) (demo_state (demo_rotated 10)) = (Inr (), demo_state d')"
    using uuid7_distinct d' uuid7_v7
    by (simp add: LogoutUser_def revokeRefreshToken_def dl_Revoke_def exec_insert_def
        insert_row_def demo_rotated_rows revoke_access_def claimString_def uuid_parse_string)

theorem logout_ends_the_session_witness:
  "\<forall>out. fst (RefreshAccessToken demo_ports demo_conf (demo_call 100 (\<lambda>_. uuid7 5)) (Some (demo_token TokenTypeRefresh (uuid7 4)))
     (snd (LogoutUser demo_ports demo_conf (demo_call 60 (\<lambda>_. uuid7 5)) (Some demo_logout) (demo_state (demo_rotated 10))))) \<noteq> Inr out"
proof
  fix out
  let ?rq = "demo_call 60 (\<lambda>_. uuid7 5)" and ?st = "demo_state (demo_rotated 10)"
  let ?st' = "snd (LogoutUser demo_ports demo_conf ?rq (Some demo_logout) ?st)"
  obtain tip d' where d': "dl_RevokeChain Done (60 * second) (uuid7 2) (uuid7 3) (7000 * second) (demo_rotated 10) = (Inr tip, d')"
    using RevokeChain_runs[OF uuid7_distinct(8)] by blast
  have s: "LogoutUser demo_ports demo_conf ?rq (Some demo_logout) ?st = (Inr (), demo_state d')" by (rule demo_logout_run[OF d'])
  have "map_of d' (uuid7 2) = Some (demo_link 10)"
    using dl_RevokeChain_keeps[of "demo_rotated 10" "uuid7 2" "demo_link 10"] d' by (metis demo_rotated_rows snd_conv)
  then have "reaches d' (uuid7 2) (uuid7 4)" using reaches.next_link[OF reaches.here] by simp
  moreover have "presents demo_ports (demo_call 100 (\<lambda>_. uuid7 5)) (demo_token TokenTypeRefresh (uuid7 4)) (uuid7 4)"
    by (simp add: presents_def)
  moreover have "chain_expires (7000 * second) (uuid7 2) (demo_rotated 10)" "leads_expire (7000 * second) (uuid7 2) (demo_rotated 10)"
    by (auto simp: chain_expires_def leads_expire_def demo_rotated_rows split: if_splits)
  ultimately show "fst (RefreshAccessToken demo_ports demo_conf (demo_call 100 (\<lambda>_. uuid7 5)) (Some (demo_token TokenTypeRefresh (uuid7 4))) ?st') \<noteq> Inr out"
    using logout_ends_the_session[OF s, where ops = "[]" and later = "demo_state d'" and j = "uuid7 2" and k = "uuid7 4" and ap' = demo_ports
        and c = "demo_token_claims TokenTypeRefresh (uuid7 2)" and e = "7000 * second"
        and rq' = "demo_call 100 (\<lambda>_. uuid7 5)" and token' = "demo_token TokenTypeRefresh (uuid7 4)" and out = out] s
    by simp
qed

end
