(* ===== verification/AuthnRaces.thy ===== *)
theory AuthnRaces
  imports AuthnSessions
begin

text \<open>
  Two refreshes of one session: one after the other (a retry that lost its
  answer) and at once (a race of two requests with the same token).
\<close>

section \<open>A retry\<close>

text \<open>
  A retry within the grace window, whose successor was not used yet, gets
  that successor again: the new token carries the same jti and the same
  expiry, however often it is asked for, and nothing is written.
\<close>

theorem retry_reissues_the_same_successor:
  assumes "RefreshAccessToken ap cf rq (Some token) st = (Inr out, st')" "cfRevokedTokens cf" "cfRefreshRotationEnabled cf"
    and "apVerify ap (rqNow rq) token = Inr c" "refresh_jti c = Inr j"
    and "map_of (anDenylist st) j = Some row" "rtReplacedBy row = Some s" "rqDBNow rq < rtExpires row"
  shows "st' = st \<and> rqNow rq - rtRevokedAt row \<le> cfRefreshRotationGrace cf
    \<and> (\<exists>u e. claimExpiry c = Some e \<and> refresh_account rq c (anAccounts st) = Inr u
       \<and> apSign ap (rqNow rq) (rqFresh rq 2) ((session_claims cf u TokenTypeRefresh (e - rqNow rq))\<lparr>jcTokenID := s\<rparr>) = Inr (roRefreshToken out))"
proof -
  from assms(1) obtain c' jti reissue st1 u where s: "refresh_claims ap rq token c' jti" "check_denylist cf rq jti st = (Inr reissue, st1)"
    "refresh_account rq c' (anAccounts st1) = Inr u" "rotateRefreshToken ap cf rq u c' token jti reissue st1 = (Inr (roRefreshToken out), st')"
    by (rule RefreshAccessToken_success)
  have cj: "c' = c" "jti = j" using s(1) assms(4,5) by (simp_all add: refresh_claims_def)
  have "j \<noteq> uuid_nil" using s(2) assms(2) cj by (auto simp: check_denylist_def dl_Get_def)
  then have g: "dl_Get Done (rqDBNow rq) j (anDenylist st) = Inr (Some \<lparr>rvRevokedAt = rtRevokedAt row, rvExpiresAt = rtExpires row, rvJTI = j,
      rvUserID = rtUser row, rvReplacedBy = s\<rparr>)" using assms(6-8) by (simp add: dl_Get_def)
  from check_denylist_Inr[OF s(2)] assms(2) g cj
  have r: "st1 = st" "reissue = s" "s \<noteq> uuid_nil" "rqNow rq - rtRevokedAt row \<le> cfRefreshRotationGrace cf"
    by (auto simp: Rotated_def)
  with s(3,4) assms(2,3) cj show ?thesis
    by (auto simp: rotateRefreshToken_def split: option.splits sum.splits)
qed

text \<open>A refresh in the small world, of a token that is not on the denylist.\<close>

definition demo_user :: User where
  "demo_user = withoutCredentials (user_of_row (uuid7 3) (demo_account ''bob@example.com'' False))"

definition refreshed :: "uuid \<Rightarrow> RefreshAccessTokenOutput" where
  "refreshed x = \<lparr>roAccessToken = demo_token TokenTypeAccess x, roRefreshToken = demo_token TokenTypeRefresh x, roTokenType = TokenTypeBearer\<rparr>"

definition rotated_row :: "int \<Rightarrow> uuid \<Rightarrow> revoked_row" where
  "rotated_row s x = \<lparr>rtUser = uuid7 3, rtType = TokenTypeRefresh, rtExpires = 7000 * second, rtRevokedAt = s * second, rtReplacedBy = Some x\<rparr>"

lemma demo_user_id [simp]: "usrID demo_user = uuid7 3"
  by (simp add: demo_user_def withoutCredentials_def user_of_row_def)

lemma demo_rotate:
  assumes "j \<noteq> uuid_nil" "x \<noteq> uuid_nil"
  shows "rotateRefreshToken demo_ports demo_conf (demo_call s (\<lambda>_. x)) demo_user (demo_token_claims TokenTypeRefresh j) token j uuid_nil (demo_state d)
    = (Inr (demo_token TokenTypeRefresh x), demo_state (snd (insert_row j (rotated_row s x) d)))"
  using assms by (simp add: rotateRefreshToken_def session_claims_def dl_Rotate_def exec_insert_def rotated_row_def split: prod.split)

lemma demo_refresh:
  assumes "RefreshAccessTokenInput_Validate (demo_token TokenTypeRefresh j) = None" "j \<noteq> uuid_nil" "x \<noteq> uuid_nil" "map_of d j = None"
  shows "RefreshAccessToken demo_ports demo_conf (demo_call s (\<lambda>_. x)) (Some (demo_token TokenTypeRefresh j)) (demo_state d)
    = (Inr (refreshed x), demo_state ((j, rotated_row s x) # d))"
  using assms demo_rotate[of j x s "demo_token TokenTypeRefresh j" d]
  by (simp add: RefreshAccessToken_def check_denylist_def dl_Get_def session_claims_def insert_row_def refreshed_def flip: demo_user_def)

theorem retry_reissues_the_same_successor_witness:
  "\<exists>out. RefreshAccessToken demo_ports demo_conf (demo_call 30 (\<lambda>_. uuid7 5)) (Some (demo_token TokenTypeRefresh (uuid7 2))) (demo_state (demo_rotated 10))
     = (Inr out, demo_state (demo_rotated 10)) \<and> roRefreshToken out = demo_token TokenTypeRefresh (uuid7 4)"
proof -
  obtain out st' where r: "RefreshAccessToken demo_ports demo_conf (demo_call 30 (\<lambda>_. uuid7 5)) (Some (demo_token TokenTypeRefresh (uuid7 2)))
      (demo_state (demo_rotated 10)) = (Inr out, st')"
    using uuid7_distinct
    by (auto simp: RefreshAccessToken_def check_denylist_def dl_Get_def demo_rotated_rows resolveSpentRefreshToken_def Rotated_def
        session_claims_def rotateRefreshToken_def)
  from retry_reissues_the_same_successor[OF r, of "demo_token_claims TokenTypeRefresh (uuid7 2)" "uuid7 2" "demo_link 10" "uuid7 4"] uuid7_distinct
  show ?thesis using r by (auto simp: demo_rotated_rows session_claims_def)
qed

section \<open>A race\<close>

lemma demo_first_rotation: "rotated_row 10 (uuid7 4) = demo_link 10"
  by (simp add: rotated_row_def demo_link_def)

text \<open>
  Two refreshes of one token at once: both find the token unspent, both
  are answered with a successor, and only the first one is on the chain.  A
  logout with the session's first token succeeds and ends the first
  successor; the second one still renews the session afterwards.
\<close>

theorem racing_refreshes_leave_a_live_token:
  "let first = demo_call 10 (\<lambda>_. uuid7 4); second_one = demo_call 10 (\<lambda>_. uuid7 5);
       token = demo_token TokenTypeRefresh (uuid7 2); c = demo_token_claims TokenTypeRefresh (uuid7 2); st = demo_state [];
       (r4, st4) = rotateRefreshToken demo_ports demo_conf first demo_user c token (uuid7 2) uuid_nil st;
       (r5, st5) = rotateRefreshToken demo_ports demo_conf second_one demo_user c token (uuid7 2) uuid_nil st4;
       (l, st6) = LogoutUser demo_ports demo_conf (demo_call 60 (\<lambda>_. uuid7 6)) (Some demo_logout) st5
   in check_denylist demo_conf first (uuid7 2) st = (Inr uuid_nil, st) \<and> check_denylist demo_conf second_one (uuid7 2) st = (Inr uuid_nil, st)
    \<and> refresh_account first c (anAccounts st) = Inr demo_user
    \<and> r4 = Inr (demo_token TokenTypeRefresh (uuid7 4)) \<and> r5 = Inr (demo_token TokenTypeRefresh (uuid7 5)) \<and> l = Inr ()
    \<and> (\<forall>out. fst (RefreshAccessToken demo_ports demo_conf (demo_call 100 (\<lambda>_. uuid7 6)) (Some (demo_token TokenTypeRefresh (uuid7 4))) st6) \<noteq> Inr out)
    \<and> fst (RefreshAccessToken demo_ports demo_conf (demo_call 100 (\<lambda>_. uuid7 4)) (Some (demo_token TokenTypeRefresh (uuid7 5))) st6) = Inr (refreshed (uuid7 4))"
proof -
  have five: "uuid7 5 \<noteq> uuid_nil" "uuid7 5 \<noteq> uuid7 2" "uuid7 5 \<noteq> uuid7 4" by (simp_all add: uuid7_def)
  note u = uuid7_distinct five
  have checked: "check_denylist demo_conf (demo_call 10 (\<lambda>_. x)) (uuid7 2) (demo_state []) = (Inr uuid_nil, demo_state [])" for x
    using u by (simp add: check_denylist_def dl_Get_def)
  have r4: "snd (insert_row (uuid7 2) (rotated_row 10 (uuid7 4)) []) = demo_rotated 10"
    by (simp add: insert_row_def demo_rotated_def demo_first_rotation)
  have r5: "snd (insert_row (uuid7 2) (rotated_row 10 (uuid7 5)) (demo_rotated 10)) = demo_rotated 10"
    by (simp add: insert_row_def demo_rotated_rows)
  have "dl_RevokeChain Done (60 * second) (uuid7 2) (uuid7 3) (7000 * second) (demo_rotated 10) = (Inr (uuid7 4), demo_ended)"
    using u by (simp add: dl_RevokeChain_def demo_rotated_rows chain_rows.simps tips_def insert_row_def demo_ended_def demo_rotated_def)
  then have l: "LogoutUser demo_ports demo_conf (demo_call 60 (\<lambda>_. uuid7 6)) (Some demo_logout) (demo_state (demo_rotated 10)) = (Inr (), demo_state demo_ended)"
    by (rule demo_logout_run)
  have refused: "fst (RefreshAccessToken demo_ports demo_conf (demo_call 100 (\<lambda>_. uuid7 6)) (Some (demo_token TokenTypeRefresh (uuid7 4))) (demo_state demo_ended)) \<noteq> Inr out" for out
    using u by (simp add: RefreshAccessToken_def check_denylist_def dl_Get_def demo_ended_def resolveSpentRefreshToken_def Rotated_def)
  have "map_of demo_ended (uuid7 5) = None" using u by (simp add: demo_ended_def demo_rotated_def)
  from demo_refresh[OF demo_token_valid(3) five(1) uuid7_distinct(7) this, of 100] refused
  moreover have "refresh_account (demo_call 10 ids) (demo_token_claims TokenTypeRefresh (uuid7 2)) one_member = Inr demo_user" for ids
    by (simp flip: demo_user_def)
  ultimately show ?thesis
    using demo_rotate[of "uuid7 2" "uuid7 4" 10 "demo_token TokenTypeRefresh (uuid7 2)" "[]"] l
      demo_rotate[of "uuid7 2" "uuid7 5" 10 "demo_token TokenTypeRefresh (uuid7 2)" "demo_rotated 10"] u
    by (simp add: Let_def r4 r5 checked)
qed

end
