(* ===== verification/AuthnLinks.thy ===== *)
theory AuthnLinks
  imports AuthnDemo
begin

text \<open>
  The mailed links: what the service relies on of the store that spends them
  (a locale, interpreted on the denylist), that a verification or a reset link
  works once, and what following one may change.
\<close>

section \<open>Spending once\<close>

text \<open>
  A store on which a token is spent: \<open>spend\<close> answers whether this call was the
  first, \<open>spent_until\<close> is what it leaves behind, and \<open>advance\<close> is whatever else
  happens to the store at an instant.
\<close>

locale single_use =
  fixes spend :: "'c \<Rightarrow> 'i \<Rightarrow> instant \<Rightarrow> 't \<Rightarrow> ('e + bool) \<times> 't"
    and advance :: "instant \<Rightarrow> 'op \<Rightarrow> 't \<Rightarrow> 't"
    and spent_until :: "instant \<Rightarrow> 'i \<Rightarrow> 't \<Rightarrow> bool"
  assumes spend_marks: "spend c i e t = (Inr True, t') \<Longrightarrow> spent_until e i t'"
    and spent_stays: "spent_until e i t \<Longrightarrow> at < e \<Longrightarrow> spent_until e i (advance at op t)"
    and spent_refuses: "spent_until e i t \<Longrightarrow> fst (spend c i e' t) \<noteq> Inr True"
begin

fun advance_all :: "(instant \<times> 'op) list \<Rightarrow> 't \<Rightarrow> 't" where
  "advance_all [] t = t"
| "advance_all ((at, op) # ops) t = advance_all ops (advance at op t)"

lemma spent_stays_all: "spent_until e i t \<Longrightarrow> list_all (\<lambda>(at, _). at < e) ops \<Longrightarrow> spent_until e i (advance_all ops t)"
  by (induction ops t rule: advance_all.induct) (auto intro: spent_stays)

lemma never_again:
  assumes "spend c i e t = (Inr True, t')" "list_all (\<lambda>(at, _). at < e) ops"
  shows "fst (spend c' i e' (advance_all ops t')) \<noteq> Inr True"
  using spent_refuses spent_stays_all[OF spend_marks[OF assms(1)] assms(2)] by blast

end

text \<open>The denylist is such a store; a call is an outcome, an instant, an owner and a type.\<close>

definition dl_spend :: "pg_outcome \<times> instant \<times> uuid \<times> TokenType \<Rightarrow> uuid \<Rightarrow> instant \<Rightarrow> denylist \<Rightarrow> (store_error + bool) \<times> denylist" where
  "dl_spend c jti e d = (case c of (pg, now, user, tt) \<Rightarrow> dl_Consume pg now jti user tt e d)"

interpretation denylist: single_use dl_spend dl_exec "\<lambda>e jti d. \<exists>row. map_of d jti = Some row \<and> rtExpires row = e"
proof
  fix c i e t t' assume "dl_spend c i e t = (Inr True, t')"
  then show "\<exists>row. map_of t' i = Some row \<and> rtExpires row = e"
    using dl_Consume_first_use by (fastforce simp: dl_spend_def split: prod.splits)
next
  fix e i at' op and t :: denylist assume "\<exists>row. map_of t i = Some row \<and> rtExpires row = e" "at' < e"
  then show "\<exists>row. map_of (dl_exec at' op t) i = Some row \<and> rtExpires row = e"
    using dl_exec_keeps by blast
next
  fix c i e e' and t :: denylist assume "\<exists>row. map_of t i = Some row \<and> rtExpires row = e"
  then show "fst (dl_spend c i e' t) \<noteq> Inr True"
    using dl_Consume_spent by (auto simp: dl_spend_def split: prod.splits)
qed

lemma denylist_run [simp]: "denylist.advance_all = dl_run"
proof (intro ext)
  fix ops t show "denylist.advance_all ops t = dl_run ops t"
    by (induction ops t rule: dl_run.induct) simp_all
qed

lemma consume_Inr:
  assumes "consumeSingleUseToken cf rq jti uid tt e st = (Inr u, st')"
  shows "cfRevokedTokens cf \<and> st' = st\<lparr>anDenylist := anDenylist st'\<rparr>
    \<and> dl_spend (rqStore rq CConsume, rqDBNow rq, uid, tt) jti e (anDenylist st) = (Inr True, anDenylist st')"
  using assms by (auto simp: consumeSingleUseToken_def dl_spend_def split: if_splits prod.splits sum.splits)

text \<open>A link spent before its expiry is refused by both handlers.\<close>

lemma spent_link_refused:
  assumes "dl_spend c jti e d = (Inr True, d')" "list_all (\<lambda>(at, _). at < e) ops" "anDenylist later = dl_run ops d'"
  shows "fst (consumeSingleUseToken cf rq jti uid tt e' later) \<noteq> Inr u"
proof
  assume "fst (consumeSingleUseToken cf rq jti uid tt e' later) = Inr u"
  then obtain later' where "consumeSingleUseToken cf rq jti uid tt e' later = (Inr u, later')" by (metis prod.collapse)
  with consume_Inr denylist.never_again[OF assms(1,2)] assms(3) show False by (metis denylist_run fst_conv)
qed

section \<open>Following a link\<close>

text \<open>What a verification reads from the token it is given.\<close>

definition link_claims :: "claims \<Rightarrow> TokenType \<Rightarrow> (uuid \<times> uuid \<times> string \<times> instant) option" where
  "link_claims c tt =
     (if claim_text c ''token_type'' \<noteq> Some tt then None
      else case (Option.bind (claim_text c ''sub'') uuid_parse, uuid_parse (claimString c ''jti''), claim_text c ''email'', claimExpiry c) of
        (Some uid, Some jti, Some email, Some e) \<Rightarrow> Some (uid, jti, email, e)
      | _ \<Rightarrow> None)"

lemma VerifyUser_success:
  assumes "VerifyUser ap cf rq token st = (Inr (), st')"
  obtains c uid jti email e st1 where "apVerify ap (rqNow rq) token = Inr c"
    "link_claims c TokenTypeEmailVerification = Some (uid, jti, email, e)"
    "consumeSingleUseToken cf rq jti uid TokenTypeEmailVerification e st = (Inr (), st1)"
    "verify_account rq uid email st1 = (Inr (), st')"
proof -
  obtain c where c: "apVerify ap (rqNow rq) token = Inr c" and t: "claim_text c ''token_type'' = Some TokenTypeEmailVerification"
    using assms by (auto simp: VerifyUser_def split: if_splits sum.splits option.splits)
  note a = assms[unfolded VerifyUser_def, simplified c t sum.case option.case]
  obtain subject uid where s: "claim_text c ''sub'' = Some subject" "uuid_parse subject = Some uid"
    using a by (auto split: if_splits option.splits)
  obtain email e where e: "claim_text c ''email'' = Some email" "claimExpiry c = Some e"
    using a s by (auto split: if_splits option.splits)
  obtain jti where j: "uuid_parse (claimString c ''jti'') = Some jti"
    using a s e by (auto simp: spendSingleUseToken_def split: if_splits option.splits)
  obtain st1 where "consumeSingleUseToken cf rq jti uid TokenTypeEmailVerification e st = (Inr (), st1)"
    "verify_account rq uid email st1 = (Inr (), st')"
    using a s e j by (auto simp: spendSingleUseToken_def then_do_Inr split: if_splits)
  with that c t s e j show ?thesis by (simp add: link_claims_def)
qed

lemma ResetPassword_success:
  assumes "ResetPassword ap cf rq (Some i) st = (Inr (), st')"
  obtains st1 where "ResetPasswordInput_Validate (apText ap) i = None" "rpEmail i \<noteq> []"
    "consumeSingleUseToken cf rq (rpTokenID i) (rpUserID i) TokenTypePasswordReset (rpTokenExpiresAt i) st = (Inr (), st1)"
    "reset_password_step ap rq i st1 = (Inr (), st')"
  using assms by (auto simp: ResetPassword_def then_do_Inr split: option.splits if_splits)

text \<open>
  A call that follows a link, and what the link is: the account and the
  address it was mailed to, its jti and its expiry.  The middleware of the
  reset route puts the claims of the token into the input.
\<close>

datatype link_call = FollowVerification string | FollowReset ResetPasswordInput

record mailed_link =
  mlUser :: uuid
  mlEmail :: string
  mlJTI :: uuid
  mlExpires :: instant

fun follow :: "'l authn_ports \<Rightarrow> AuthnServiceConf \<Rightarrow> authn_request \<Rightarrow> link_call \<Rightarrow> 'l authn_state \<Rightarrow> (authn_error + unit) \<times> 'l authn_state" where
  "follow ap cf rq (FollowVerification token) st = VerifyUser ap cf rq token st"
| "follow ap cf rq (FollowReset i) st = ResetPassword ap cf rq (Some i) st"

fun link_of :: "'l authn_ports \<Rightarrow> authn_request \<Rightarrow> link_call \<Rightarrow> mailed_link option" where
  "link_of ap rq (FollowVerification token) =
     (case apVerify ap (rqNow rq) token of
        Inl _ \<Rightarrow> None
      | Inr c \<Rightarrow> map_option (\<lambda>(uid, jti, email, e). \<lparr>mlUser = uid, mlEmail = email, mlJTI = jti, mlExpires = e\<rparr>)
          (link_claims c TokenTypeEmailVerification))"
| "link_of ap rq (FollowReset i) =
     Some \<lparr>mlUser = rpUserID i, mlEmail = rpEmail i, mlJTI = rpTokenID i, mlExpires = rpTokenExpiresAt i\<rparr>"

fun link_type :: "link_call \<Rightarrow> TokenType" where
  "link_type (FollowVerification _) = TokenTypeEmailVerification"
| "link_type (FollowReset _) = TokenTypePasswordReset"

fun after_spending :: "'l authn_ports \<Rightarrow> authn_request \<Rightarrow> link_call \<Rightarrow> mailed_link \<Rightarrow> 'l authn_state \<Rightarrow> (authn_error + unit) \<times> 'l authn_state" where
  "after_spending ap rq (FollowVerification _) l st = verify_account rq (mlUser l) (mlEmail l) st"
| "after_spending ap rq (FollowReset i) l st = reset_password_step ap rq i st"

lemma follow_success:
  assumes "follow ap cf rq call st = (Inr (), st')"
  obtains l st1 where "link_of ap rq call = Some l"
    "consumeSingleUseToken cf rq (mlJTI l) (mlUser l) (link_type call) (mlExpires l) st = (Inr (), st1)"
    "after_spending ap rq call l st1 = (Inr (), st')"
proof (cases call)
  case (FollowVerification token)
  with assms have "VerifyUser ap cf rq token st = (Inr (), st')" by simp
  then show ?thesis by (rule VerifyUser_success) (rule that, use FollowVerification in auto)
next
  case (FollowReset i)
  with assms have "ResetPassword ap cf rq (Some i) st = (Inr (), st')" by simp
  then show ?thesis by (rule ResetPassword_success) (rule that, use FollowReset in auto)
qed

lemma after_spending_denylist [simp]: "anDenylist (snd (after_spending ap rq call l st)) = anDenylist st"
  by (cases call) (auto simp: verify_account_def reset_password_step_def split: sum.splits account_error.splits option.splits prod.splits)

text \<open>
  C10. A mailed link works once: after a verification or a reset succeeded,
  neither handler accepts the same jti again before it expires, whatever
  happens to the denylist in between, and whichever of its statements fail.
\<close>

theorem mailed_link_works_once:
  assumes "follow ap cf rq call st = (Inr (), st')" "link_of ap rq call = Some l"
    and "list_all (\<lambda>(at, _). at < mlExpires l) ops" "anDenylist later = dl_run ops (anDenylist st')"
    and "link_of ap' rq' call' = Some l'" "mlJTI l' = mlJTI l"
  shows "fst (follow ap' cf' rq' call' later) \<noteq> Inr ()"
proof
  assume "fst (follow ap' cf' rq' call' later) = Inr ()"
  then obtain later' where "follow ap' cf' rq' call' later = (Inr (), later')" by (metis prod.collapse)
  then obtain st2 where s2: "consumeSingleUseToken cf' rq' (mlJTI l) (mlUser l') (link_type call') (mlExpires l') later = (Inr (), st2)"
    by (rule follow_success) (use assms(5,6) in auto)
  obtain st1 where s1: "consumeSingleUseToken cf rq (mlJTI l) (mlUser l) (link_type call) (mlExpires l) st = (Inr (), st1)"
    "after_spending ap rq call l st1 = (Inr (), st')"
    using assms(1,2) by (elim follow_success) simp
  have "anDenylist st' = anDenylist st1" using after_spending_denylist[of ap rq call l st1] s1(2) by simp
  moreover obtain c where "dl_spend c (mlJTI l) (mlExpires l) (anDenylist st) = (Inr True, anDenylist st1)"
    using consume_Inr[OF s1(1)] by blast
  from spent_link_refused[OF this assms(3)] have "fst (consumeSingleUseToken cf' rq' (mlJTI l) (mlUser l') (link_type call') (mlExpires l') later) \<noteq> Inr ()"
    using assms(4) calculation by simp
  with s2 show False by simp
qed

definition demo_reset :: ResetPasswordInput where
  "demo_reset = \<lparr>rpTokenExpiresAt = 7000 * second, rpPassword = ''Tr0ub4dor'', rpEmail = ''bob@example.com'', rpUserID = uuid7 3, rpTokenID = uuid7 2\<rparr>"

definition demo_used :: denylist where
  "demo_used = [(uuid7 2, \<lparr>rtUser = uuid7 3, rtType = TokenTypePasswordReset, rtExpires = 7000 * second, rtRevokedAt = 60 * second, rtReplacedBy = None\<rparr>)]"

lemma demo_reset_valid: "ResetPasswordInput_Validate ascii_env demo_reset = None"
proof -
  have v: "ValidateUUID (rpUserID demo_reset) 7 ''user_id'' = None" using uuid7_v7 by (simp add: demo_reset_def)
  have p: "ValidatePassword ascii_env (rpPassword demo_reset) ''password'' = None" by (simp add: demo_reset_def ValidatePassword_run)
  show ?thesis unfolding ResetPasswordInput_Validate_def v p by (simp add: errs_result_def HasErrors_def)
qed

lemma demo_reset_run:
  "follow demo_ports demo_conf (demo_call 60 (\<lambda>_. uuid7 5)) (FollowReset demo_reset) (demo_state []) =
     (Inr (), (demo_state demo_used)\<lparr>anService := (set_row (uuid7 3) (demo_account ''bob@example.com'' False) one_member, demo_db 0 0)\<rparr>)"
proof -
  have r: "user_row_of (uuid7 3) one_member = Some (demo_account ''bob@example.com'' False)" by (simp add: one_member_def user_row_of_def)
  have "apBcrypt demo_ports p = Some ''hash''" for p by (simp add: demo_ports_def)
  then have "reset_password_step demo_ports (demo_call 60 (\<lambda>_. uuid7 5)) demo_reset (demo_state demo_used) =
      (Inr (), (demo_state demo_used)\<lparr>anService := (set_row (uuid7 3) (demo_account ''bob@example.com'' False) one_member, demo_db 0 0)\<rparr>)"
    using uuid7_v7 r by (simp add: reset_password_step_def demo_reset_def ResetPassword_account_def repo_ResetPassword_def no_acc_faults_def
        length_bounds demo_account_def)
  moreover have "consumeSingleUseToken demo_conf (demo_call 60 (\<lambda>_. uuid7 5)) (uuid7 2) (uuid7 3) TokenTypePasswordReset (7000 * second) (demo_state [])
      = (Inr (), demo_state demo_used)"
    using uuid7_distinct by (simp add: consumeSingleUseToken_def dl_Consume_def exec_insert_def insert_row_def demo_used_def)
  moreover have "rpTokenID demo_reset = uuid7 2" "rpUserID demo_reset = uuid7 3" "rpTokenExpiresAt demo_reset = 7000 * second" "rpEmail demo_reset \<noteq> []"
    by (simp_all add: demo_reset_def)
  ultimately show ?thesis using demo_reset_valid by (simp add: ResetPassword_def)
qed

theorem mailed_link_works_once_witness:
  "fst (follow demo_ports demo_conf (demo_call 90 (\<lambda>_. uuid7 5)) (FollowReset demo_reset)
     (snd (follow demo_ports demo_conf (demo_call 60 (\<lambda>_. uuid7 5)) (FollowReset demo_reset) (demo_state [])))) \<noteq> Inr ()"
proof -
  have l: "link_of demo_ports rq (FollowReset demo_reset) = Some \<lparr>mlUser = uuid7 3, mlEmail = ''bob@example.com'', mlJTI = uuid7 2, mlExpires = 7000 * second\<rparr>" for rq
    by (simp add: demo_reset_def)
  show ?thesis unfolding demo_reset_run snd_conv
    by (rule mailed_link_works_once[OF demo_reset_run l _ _ l, where ops = "[]"]) simp_all
qed

text \<open>What following a link writes.\<close>

definition link_change :: "link_call \<Rightarrow> string \<Rightarrow> user_row \<Rightarrow> user_row" where
  "link_change call h r = (case call of
     FollowVerification _ \<Rightarrow> r\<lparr>rowVerified := True, rowDisabled := (if rowDisabledByAdmin r \<or> rowAdmin r then rowDisabled r else False)\<rparr>
   | FollowReset _ \<Rightarrow> r\<lparr>rowPasswordHash := h\<rparr>)"

definition link_fits :: "link_call \<Rightarrow> mailed_link \<Rightarrow> user_row \<Rightarrow> bool" where
  "link_fits call l r \<longleftrightarrow> rowEmail r = mlEmail l \<and> (case call of
     FollowVerification _ \<Rightarrow> \<not> rowVerified r
   | FollowReset _ \<Rightarrow> rowLocalAccount r \<and> \<not> rowDisabled r)"

text \<open>A cache that holds every account under its own id.\<close>

definition cache_keyed :: "(string \<Rightarrow> User option) option \<Rightarrow> bool" where
  "cache_keyed cache \<longleftrightarrow> (\<forall>held uid u. cache = Some held \<longrightarrow> held (uuid_string uid) = Some u \<longrightarrow> usrID u = uid)"

lemma GetByID_id: "GetByID cache faults uid st = Inr u \<Longrightarrow> cache_keyed cache \<Longrightarrow> usrID u = uid"
  by (auto simp: GetByID_def cache_keyed_def repo_SelectByID_def withoutCredentials_def user_of_row_def
      split: if_splits option.splits sum.splits)

text \<open>One row changed into another, and the rest as it was.\<close>

definition row_changed :: "uuid \<Rightarrow> user_row \<Rightarrow> user_row \<Rightarrow> accounts_state \<Rightarrow> accounts_state \<Rightarrow> bool" where
  "row_changed uid r r' a a' \<longleftrightarrow> user_row_of uid a = Some r \<and> user_row_of uid a' = Some r' \<and> (\<forall>k. k \<noteq> uid \<longrightarrow> user_row_of k a' = user_row_of k a)
     \<and> acIdentities a' = acIdentities a \<and> acUsersRoles a' = acUsersRoles a"

lemma row_changed_set_row [intro]: "user_row_of uid a = Some r \<Longrightarrow> row_changed uid r r' a (set_row uid r' a)"
  by (simp add: row_changed_def) (simp add: set_row_def)

lemma Verify_result:
  "Verify faults uid address a = (err, a') \<Longrightarrow>
     (err \<noteq> None \<and> a' = a) \<or>
     (err = None \<and> (\<exists>r. rowEmail r = address \<and> \<not> rowVerified r \<and> row_changed uid r (link_change (FollowVerification t) h r) a a'))"
  by (auto simp: Verify_def repo_Verify_def link_change_def split: prod.splits option.splits account_error.splits if_splits)

lemma Reset_result:
  "ResetPassword_account faults uid address h a = (err, a') \<Longrightarrow>
     (err \<noteq> None \<and> a' = a) \<or>
     (err = None \<and> (\<exists>r. rowEmail r = address \<and> rowLocalAccount r \<and> \<not> rowDisabled r
        \<and> row_changed uid r (link_change (FollowReset i) h r) a a'))"
  by (auto simp: ResetPassword_account_def repo_ResetPassword_def link_change_def split: option.splits if_splits)

lemma after_spending_changes:
  assumes "after_spending ap rq call l st = (res, st')" "cache_keyed (rqCache rq)" "link_of ap rq call = Some l"
  shows "anAccounts st' = anAccounts st \<or>
    (res = Inr () \<and> (\<exists>r h. link_fits call l r \<and> row_changed (mlUser l) r (link_change call h r) (anAccounts st) (anAccounts st')
      \<and> (\<forall>i. call = FollowReset i \<longrightarrow> apBcrypt ap (rpPassword i) = Some h)))"
proof (cases call)
  case (FollowVerification t)
  show ?thesis
  proof (cases "GetByID (rqCache rq) (rqFaults rq) (mlUser l) (anAccounts st)")
    case (Inl e)
    then show ?thesis using assms(1) FollowVerification by (auto simp: verify_account_def split: account_error.splits)
  next
    case (Inr u)
    then have u: "usrID u = mlUser l" using GetByID_id assms(2) by blast
    obtain err a where v: "Verify (rqFaults rq) (mlUser l) (mlEmail l) (anAccounts st) = (err, a)" by fastforce
    show ?thesis
    proof (cases "mlEmail l \<noteq> usrEmail u \<or> usrVerified u = Some True")
      case True then show ?thesis using assms(1) FollowVerification Inr by (auto simp: verify_account_def split: if_splits)
    next
      case False
      then have w: "anAccounts st' = a" "err = None \<Longrightarrow> res = Inr ()"
        using assms(1) FollowVerification Inr u v by (auto simp: verify_account_def split: option.splits account_error.splits)
      show ?thesis using Verify_result[OF v, of t "[]"] w FollowVerification by (auto simp: link_fits_def)
    qed
  qed
next
  case (FollowReset i)
  then have l: "mlUser l = rpUserID i" "mlEmail l = rpEmail i" using assms(3) by auto
  show ?thesis
  proof (cases "apBcrypt ap (rpPassword i)")
    case None then show ?thesis using assms(1) FollowReset by (auto simp: reset_password_step_def split: if_splits)
  next
    case (Some h)
    obtain err a where v: "ResetPassword_account (rqFaults rq) (rpUserID i) (rpEmail i) h (anAccounts st) = (err, a)" by fastforce
    then have "anAccounts st' = anAccounts st \<or> (anAccounts st' = a \<and> (err = None \<longrightarrow> res = Inr ()))"
      using assms(1) FollowReset Some by (auto simp: reset_password_step_def split: if_splits option.splits account_error.splits)
    with Reset_result[OF v, of i] l FollowReset Some show ?thesis by (fastforce simp: link_fits_def)
  qed
qed

lemma consume_service [simp]: "anService (snd (consumeSingleUseToken cf rq jti uid tt e st)) = anService st"
  by (auto simp: consumeSingleUseToken_def split: prod.splits sum.splits)

text \<open>Whatever its result, a call either stops before or at the spending, or goes on from it.\<close>

lemma follow_cases:
  assumes "follow ap cf rq call st = (res, st')"
  shows "anAccounts st' = anAccounts st \<or>
    (\<exists>l st1. link_of ap rq call = Some l \<and> anAccounts st1 = anAccounts st \<and> after_spending ap rq call l st1 = (res, st'))"
proof (cases call)
  case (FollowReset i)
  show ?thesis
  proof (cases "ResetPasswordInput_Validate (apText ap) i = None \<and> rpEmail i \<noteq> []")
    case True
    let ?c = "consumeSingleUseToken cf rq (rpTokenID i) (rpUserID i) TokenTypePasswordReset (rpTokenExpiresAt i) st"
    have f: "(res, st') = then_do ?c (\<lambda>_. reset_password_step ap rq i)" using assms FollowReset True by (simp add: ResetPassword_def)
    show ?thesis
    proof (cases "fst ?c")
      case (Inl e)
      then have "st' = snd ?c" using f by (simp add: then_do_cases)
      then show ?thesis by simp
    next
      case (Inr u)
      then have "reset_password_step ap rq i (snd ?c) = (res, st')" using f by (simp add: then_do_cases)
      then show ?thesis using FollowReset by (intro disjI2 exI[of _ "snd ?c"] exI conjI) auto
    qed
  qed (use assms FollowReset in \<open>auto simp: ResetPassword_def split: option.splits\<close>)
next
  case (FollowVerification token)
  note v = assms[unfolded FollowVerification follow.simps]
  show ?thesis
  proof (cases "apVerify ap (rqNow rq) token")
    case (Inl e) then show ?thesis using v by (auto simp: VerifyUser_def split: if_splits)
  next
    case c: (Inr c)
    show ?thesis
    proof (cases "link_of ap rq call")
      case None
      then show ?thesis using v c FollowVerification
        by (auto simp: VerifyUser_def link_claims_def spendSingleUseToken_def split: if_splits option.splits)
    next
      case (Some l)
      let ?c = "consumeSingleUseToken cf rq (mlJTI l) (mlUser l) TokenTypeEmailVerification (mlExpires l) st"
      have "st' = st \<or> (res, st') = then_do ?c (\<lambda>_. verify_account rq (mlUser l) (mlEmail l))"
        using v c Some FollowVerification
        by (auto simp: VerifyUser_def link_claims_def spendSingleUseToken_def bind_eq_Some_conv split: if_splits option.splits)
      moreover have "snd ?c = st' \<or> verify_account rq (mlUser l) (mlEmail l) (snd ?c) = (res, st')"
        if "(res, st') = then_do ?c (\<lambda>_. verify_account rq (mlUser l) (mlEmail l))"
        using that by (cases "fst ?c") (simp_all add: then_do_cases)
      ultimately show ?thesis using Some FollowVerification consume_service by fastforce
    qed
  qed
qed

text \<open>
  C32. Following a link changes at most the one account it was mailed to, and
  only if the call succeeds: the account still has that address, a
  verification finds it not verified yet and never enables an account an
  administrator disabled or that holds the flag, and a reset finds it local
  and enabled and stores the hash of the new password.  Every other row, the
  identities and the roles stay as they were.
\<close>

theorem link_changes_only_its_account:
  assumes "follow ap cf rq call st = (res, st')" "cache_keyed (rqCache rq)" "anAccounts st' \<noteq> anAccounts st"
  shows "res = Inr () \<and> (\<exists>l r h. link_of ap rq call = Some l \<and> link_fits call l r
    \<and> row_changed (mlUser l) r (link_change call h r) (anAccounts st) (anAccounts st')
    \<and> (\<forall>i. call = FollowReset i \<longrightarrow> apBcrypt ap (rpPassword i) = Some h))"
proof -
  obtain l st1 where l: "link_of ap rq call = Some l" "anAccounts st1 = anAccounts st" "after_spending ap rq call l st1 = (res, st')"
    using follow_cases[OF assms(1)] assms(3) by blast
  from after_spending_changes[OF l(3) assms(2) l(1)] l assms(3) show ?thesis by auto
qed

definition old_hash_member :: "demo_bucket authn_state" where
  "old_hash_member = (demo_state [])\<lparr>anService := (one_member\<lparr>acUsers := [(uuid7 3, (demo_account ''bob@example.com'' False)\<lparr>rowPasswordHash := ''old''\<rparr>)]\<rparr>, demo_db 0 0)\<rparr>"

theorem link_changes_only_its_account_witness:
  "\<exists>r h. row_changed (uuid7 3) r (r\<lparr>rowPasswordHash := h\<rparr>) (anAccounts old_hash_member)
     (anAccounts (snd (follow demo_ports demo_conf (demo_call 60 (\<lambda>_. uuid7 5)) (FollowReset demo_reset) old_hash_member)))"
proof -
  let ?rq = "demo_call 60 (\<lambda>_. uuid7 5)"
  let ?st' = "snd (follow demo_ports demo_conf ?rq (FollowReset demo_reset) old_hash_member)"
  have b: "apBcrypt demo_ports p = Some ''hash''" for p by (simp add: demo_ports_def)
  have i: "rpTokenID demo_reset = uuid7 2" "rpUserID demo_reset = uuid7 3" "rpEmail demo_reset = ''bob@example.com''" "rpPassword demo_reset = ''Tr0ub4dor''"
    by (simp_all add: demo_reset_def)
  have "user_row_of (uuid7 3) (anAccounts ?st') = Some (demo_account ''bob@example.com'' False)"
    using uuid7_distinct uuid7_v7 demo_reset_valid
    by (simp add: ResetPassword_def i consumeSingleUseToken_def dl_Consume_def exec_insert_def insert_row_def old_hash_member_def demo_state_def
      reset_password_step_def length_bounds b ResetPassword_account_def repo_ResetPassword_def no_acc_faults_def user_row_of_def demo_account_def
      set_row_def)
  moreover have "user_row_of (uuid7 3) (anAccounts old_hash_member) \<noteq> Some (demo_account ''bob@example.com'' False)"
    by (simp add: old_hash_member_def user_row_of_def demo_account_def)
  ultimately have "anAccounts ?st' \<noteq> anAccounts old_hash_member" by metis
  from link_changes_only_its_account[OF prod.collapse[symmetric] _ this] show ?thesis
    by (auto simp: cache_keyed_def i link_change_def)
qed

end
