(* ===== verification/AuthnAnswers.thy ===== *)
theory AuthnAnswers
  imports AuthnDemo
begin

text \<open>
  What the unauthenticated routes answer: a login succeeds with the password of
  an enabled local account only and refuses everything else alike, a recovery
  answers the same whether there is an account or not, and a registration does
  so as long as mail can be sent.
\<close>

section \<open>Login\<close>

lemma attempt_state:
  assumes "attempt ap cf rq key st = (r, st1)"
  shows "st1 = st\<lparr>anThrottle := anThrottle st1\<rparr>"
  using assms by (auto simp: attempt_def split: if_splits prod.splits)

lemma attempt_keeps [simp]: "anService (snd (attempt ap cf rq key st)) = anService st"
  by (auto simp: attempt_def split: prod.split)

text \<open>The row an address leads to, and whether the input may sign in with it.\<close>

definition account_at :: "string \<Rightarrow> accounts_state \<Rightarrow> (uuid \<times> user_row) option" where
  "account_at email a = (case filter (\<lambda>(_, r). rowEmail r = email) (acUsers a) of [] \<Rightarrow> None | x # _ \<Rightarrow> Some x)"

definition may_sign_in :: "'l authn_ports \<Rightarrow> string \<Rightarrow> user_row \<Rightarrow> bool" where
  "may_sign_in ap password r \<longleftrightarrow> \<not> rowDisabled r \<and> rowLocalAccount r \<and> apCompare ap (rowPasswordHash r) password"

lemma SelectByEmail_Inr:
  "repo_SelectByEmail env faults email a = Inr u \<Longrightarrow>
   \<exists>uid r. account_at email a = Some (uid, r) \<and> u = (user_of_row uid r)\<lparr>usrAdmin := None\<rparr>"
  by (auto simp: repo_SelectByEmail_def account_at_def split: if_splits list.splits)

lemma login_refused_row:
  "lgMethod i = LoginMethodPassword \<Longrightarrow>
   login_refused i (apCompare ap (rowPasswordHash r) (lgPassword i)) ((user_of_row uid r)\<lparr>usrAdmin := None\<rparr>) \<longleftrightarrow> \<not> may_sign_in ap (lgPassword i) r"
  by (auto simp: login_refused_def may_sign_in_def user_of_row_def)

text \<open>
  C16. A login with a password succeeds exactly for the password of an enabled
  local account, through the throttle, and resets the throttle for that
  address; every other address and password gets one and the same answer and
  leaves one and the same state, so neither tells which of them it was: no
  account, a disabled one, one of a provider, or a wrong password.
\<close>

theorem login_answers:
  assumes v: "LoginUserInput_Validate (apText ap) i0 = Inr i" and m: "lgMethod i = LoginMethodPassword"
    and a: "attempt ap cf rq (throttleKey ap throttlePurposeLogin (lgEmail i)) st = (Inr (), st1)"
    and up: "\<not> rqFaults rq SSelectByEmail" and address: "lgEmail i \<noteq> []" "ValidUserEmailMinLength \<le> int (length (lgEmail i))"
      "int (length (lgEmail i)) \<le> 254" "parse_address (apText ap) (lgEmail i) \<noteq> None"
  shows "(\<forall>out st'. LoginUser ap cf rq (Some i0) st = (Inr out, st') \<longrightarrow>
      (\<exists>uid r. account_at (lgEmail i) (anAccounts st) = Some (uid, r) \<and> may_sign_in ap (lgPassword i) r \<and> loUserID out = uid)
      \<and> (cfLoginThrottle cf \<longrightarrow> anThrottle st' (throttleKey ap throttlePurposeLogin (lgEmail i)) = None))
    \<and> ((\<forall>uid r. account_at (lgEmail i) (anAccounts st) = Some (uid, r) \<longrightarrow> \<not> may_sign_in ap (lgPassword i) r) \<longrightarrow>
      LoginUser ap cf rq (Some i0) st = (Inl AInvalidCredentials, st1))"
proof -
  let ?key = "throttleKey ap throttlePurposeLogin (lgEmail i)"
  have acc: "anAccounts st1 = anAccounts st" using attempt_keeps[of ap cf rq ?key st] a by simp
  note l = LoginUser_def[of ap cf rq "Some i0" st, simplified v option.case sum.case a Let_def prod.case]
  show ?thesis
  proof (cases "account_at (lgEmail i) (anAccounts st)")
    case None
    then have "GetByEmailForAuth (apText ap) (rqFaults rq) (lgEmail i) (anAccounts st1) = Inl (UNotFound uuid_nil)"
      using up address acc by (simp add: GetByEmailForAuth_def repo_SelectByEmail_def account_at_def split: list.splits)
    then show ?thesis using None by (simp add: l)
  next
    case (Some ur)
    obtain uid r where ur: "ur = (uid, r)" by fastforce
    let ?u = "(user_of_row uid r)\<lparr>usrAdmin := None\<rparr>"
    have g: "GetByEmailForAuth (apText ap) (rqFaults rq) (lgEmail i) (anAccounts st1) = Inr ?u"
      using up address acc Some ur by (simp add: GetByEmailForAuth_def repo_SelectByEmail_def account_at_def split: list.splits)
    have h: "usrPasswordHash ?u = rowPasswordHash r" by (simp add: user_of_row_def)
    note login = l[unfolded g sum.case h login_refused_row[OF m]]
    have "loUserID out = uid" if "issueSession ap cf rq ?u st2 = Inr out" for st2 out
      using that by (auto simp: issueSession_def and_then_Inr user_of_row_def split: option.splits)
    then show ?thesis using Some ur
      by (auto simp: login succeed_def ThrottleSucceed_def split: if_splits)
  qed
qed

definition demo_login :: "string \<Rightarrow> LoginUserInput" where
  "demo_login password = \<lparr>lgEmail = ''bob@example.com'', lgPassword = password, lgMethod = LoginMethodPassword\<rparr>"

lemma demo_email: "ValidateEmail ascii_env ''bob@example.com'' ''email'' = Inr ''bob@example.com''"
  by code_simp

lemma demo_login_valid: "LoginUserInput_Validate ascii_env (demo_login ''wrong'') = Inr (demo_login ''wrong'')"
proof -
  have "ValidateLoginPassword ''wrong'' ''password'' = None" by code_simp
  then show ?thesis by (simp add: LoginUserInput_Validate_def demo_login_def check_field_def demo_email HasErrors_def)
qed

theorem login_answers_witness:
  "fst (LoginUser demo_ports demo_conf (demo_call 60 (\<lambda>_. uuid7 5)) (Some (demo_login ''wrong'')) (demo_state [])) = Inl AInvalidCredentials"
proof -
  let ?rq = "demo_call 60 (\<lambda>_. uuid7 5)"
  let ?key = "throttleKey demo_ports throttlePurposeLogin (lgEmail (demo_login ''wrong''))"
  obtain st1 where a: "attempt demo_ports demo_conf ?rq ?key (demo_state []) = (Inr (), st1)"
    by (simp add: attempt_def ThrottleAttempt_def demo_ports_def demo_state_def token_lib_def tk_fill_def demo_fresh_def)
  have v: "LoginUserInput_Validate (apText demo_ports) (demo_login ''wrong'') = Inr (demo_login ''wrong'')" by (simp add: demo_login_valid)
  have "\<not> may_sign_in demo_ports ''wrong'' r" for r by (simp add: may_sign_in_def demo_ports_def)
  then show ?thesis
    using login_answers[OF v _ a] by (simp add: demo_login_def no_acc_faults_def length_bounds ascii_env_def)
qed

section \<open>Recovery\<close>

text \<open>
  Nothing fails: the mail goes out, the signer signs the links, the database
  answers.  Reads may be cached; the cache holds accounts under addresses
  that a read of the database gave it, so that are not too long for one.
\<close>

definition all_well :: "'l authn_ports \<Rightarrow> AuthnServiceConf \<Rightarrow> authn_request \<Rightarrow> bool" where
  "all_well ap cf rq \<longleftrightarrow> \<not> rqMailFails rq \<and> \<not> rqFaults rq SSelectByEmail
     \<and> (\<forall>held email u. rqCache rq = Some held \<and> held email = Some u \<longrightarrow> int (length email) \<le> MaxEmailLength)
     \<and> (\<forall>u. \<exists>t t'. apSign ap (rqNow rq) (rqFresh rq 0) (reset_claims cf u) = Inr t
          \<and> apSign ap (rqNow rq) (rqFresh rq 0) (verification_claims cf (usrEmail u) (usrID u)) = Inr t')"

lemma mail_sent: "all_well ap cf rq \<Longrightarrow> fst (send_mail rq m st) = Inr ()"
  by (simp add: all_well_def send_mail_def)

lemma recoverAccount_well:
  assumes "all_well ap cf rq" shows "fst (recoverAccount ap cf rq u st) = Inr ()"
proof -
  obtain t t' where "apSign ap (rqNow rq) (rqFresh rq 0) (reset_claims cf u) = Inr t"
    "apSign ap (rqNow rq) (rqFresh rq 0) (verification_claims cf (usrEmail u) (usrID u)) = Inr t'"
    using assms unfolding all_well_def by blast
  then show ?thesis
    by (simp add: recoverAccount_def silentRecovery_def sendVerificationEmail_def mail_sent[OF assms])
qed

lemma attempt_throttle:
  "anThrottle st = anThrottle st' \<Longrightarrow> fst (attempt ap cf rq key st) = fst (attempt ap cf rq key st')
     \<and> anThrottle (snd (attempt ap cf rq key st)) = anThrottle (snd (attempt ap cf rq key st'))"
  by (auto simp: attempt_def split: prod.split)

lemma mail_throttle [simp]: "anThrottle (snd (send_mail rq m st)) = anThrottle st"
  by (simp add: send_mail_def)

lemma recoverAccount_throttle [simp]: "anThrottle (snd (recoverAccount ap cf rq u st)) = anThrottle st"
  by (auto simp: recoverAccount_def silentRecovery_def sendVerificationEmail_def split: sum.split)

text \<open>What \<open>RecoverPassword\<close> does once the throttle admitted the address.\<close>

definition recover_found :: "'l authn_ports \<Rightarrow> AuthnServiceConf \<Rightarrow> authn_request \<Rightarrow> string \<Rightarrow> 'l authn_state \<Rightarrow> (authn_error + unit) \<times> 'l authn_state" where
  "recover_found ap cf rq email st =
     (case GetByEmail (apText ap) (rqCache rq) (rqFaults rq) email (anAccounts st) of
        Inl (UNotFound _) \<Rightarrow> silentRecovery st
      | Inl e \<Rightarrow> fail_with (AAccount e) st
      | Inr u \<Rightarrow> recoverAccount ap cf rq u st)"

lemma RecoverPassword_found:
  "RecoverPasswordInput_Validate (apText ap) email0 = Inr email \<Longrightarrow>
   RecoverPassword ap cf rq (Some email0) st = (case attempt ap cf rq (throttleKey ap throttlePurposeRecovery email) st of
      (Inl retryAfter, st1) \<Rightarrow> fail_with (ATooManyRecoveryRequests retryAfter) st1 | (Inr _, st1) \<Rightarrow> recover_found ap cf rq email st1)"
  unfolding RecoverPassword_def recover_found_def by simp

lemma recover_found_throttle [simp]: "anThrottle (snd (recover_found ap cf rq email st)) = anThrottle st"
  by (simp add: recover_found_def silentRecovery_def split: sum.split account_error.split)

text \<open>An address that passed its validation is answered by its length alone, whatever is stored or cached.\<close>

lemma valid_address:
  "RecoverPasswordInput_Validate env email0 = Inr email \<Longrightarrow>
   email \<noteq> [] \<and> ValidUserEmailMinLength \<le> int (length email) \<and> parse_address env email = Some email"
  by (auto simp: RecoverPasswordInput_Validate_def ValidateEmail_def Let_def length_bounds
      split: sum.splits if_splits option.splits list.splits)

lemma recover_found_well:
  assumes w: "all_well ap cf rq" and v: "RecoverPasswordInput_Validate (apText ap) email0 = Inr email"
  shows "fst (recover_found ap cf rq email st) = (if int (length email) > MaxEmailLength then Inl (AAccount (UInvalidEmail email)) else Inr ())"
proof (cases "\<exists>held u. rqCache rq = Some held \<and> held email = Some u")
  case True
  then obtain held u where h: "rqCache rq = Some held" "held email = Some u" by blast
  then have "\<not> int (length email) > MaxEmailLength" using w by (fastforce simp: all_well_def)
  then show ?thesis using valid_address[OF v] h
    by (simp add: recover_found_def GetByEmail_def recoverAccount_well[OF w])
next
  case False
  then have "GetByEmail (apText ap) (rqCache rq) (rqFaults rq) email st'
      = map_sum (\<lambda>e. e) withoutCredentials (repo_SelectByEmail (apText ap) (rqFaults rq) email st')" for st'
    using valid_address[OF v] by (auto simp: GetByEmail_def split: option.splits)
  then show ?thesis using valid_address[OF v] w
    by (simp add: recover_found_def repo_SelectByEmail_def silentRecovery_def recoverAccount_well[OF w] all_well_def length_bounds
        split: list.split prod.split)
qed

text \<open>
  C31. While mail goes out, the signer signs and the database answers, a
  recovery tells nothing about the address: in two systems that differ in
  anything but the throttle (in whether the address has an account, what kind
  and in which state, in what is cached and in whether reads are) it gives
  the same answer and spends the same budget.  (While mail cannot be sent it
  does tell: only an address with an account needs a mail.)
\<close>

theorem recovery_tells_nothing:
  assumes well: "all_well ap cf rq" "all_well ap cf (rq\<lparr>rqCache := held\<rparr>)" and t: "anThrottle st = anThrottle st'"
  shows "fst (RecoverPassword ap cf rq input st) = fst (RecoverPassword ap cf (rq\<lparr>rqCache := held\<rparr>) input st')
    \<and> anThrottle (snd (RecoverPassword ap cf rq input st)) = anThrottle (snd (RecoverPassword ap cf (rq\<lparr>rqCache := held\<rparr>) input st'))"
proof (cases "\<exists>email0 email. input = Some email0 \<and> RecoverPasswordInput_Validate (apText ap) email0 = Inr email")
  case False
  then show ?thesis using t by (auto simp: RecoverPassword_def split: option.splits sum.splits)
next
  case True
  then obtain email0 email where i: "input = Some email0" "RecoverPasswordInput_Validate (apText ap) email0 = Inr email" by blast
  let ?key = "throttleKey ap throttlePurposeRecovery email"
  have c: "attempt ap cf (rq\<lparr>rqCache := held\<rparr>) ?key st' = attempt ap cf rq ?key st'" by (simp add: attempt_def)
  obtain a s1 a' s1' where "attempt ap cf rq ?key st = (a, s1)" "attempt ap cf rq ?key st' = (a', s1')" by fastforce
  then show ?thesis
    using attempt_throttle[OF t, of ap cf rq ?key]
    by (cases a) (auto simp: i(1) RecoverPassword_found[OF i(2)] recover_found_well[OF well(1) i(2)] recover_found_well[OF well(2) i(2)] c)
qed

text \<open>An account with a row and cached on one side, and with neither on the other.\<close>

definition bob_cached :: "string \<Rightarrow> User option" where
  "bob_cached = [''bob@example.com'' \<mapsto> user_of_row (uuid7 2) (demo_account ''bob@example.com'' False)]"

theorem recovery_tells_nothing_witness:
  "fst (RecoverPassword demo_ports demo_conf (demo_call 60 (\<lambda>_. uuid7 5)) (Some ''bob@example.com'')
      ((demo_state [])\<lparr>anService := (one_member\<lparr>acUsers := []\<rparr>, demo_db 0 0)\<rparr>)) =
   fst (RecoverPassword demo_ports demo_conf ((demo_call 60 (\<lambda>_. uuid7 5))\<lparr>rqCache := Some bob_cached\<rparr>) (Some ''bob@example.com'') (demo_state []))"
proof -
  have "all_well demo_ports demo_conf (demo_call 60 (\<lambda>_. uuid7 5))" 
    "all_well demo_ports demo_conf ((demo_call 60 (\<lambda>_. uuid7 5))\<lparr>rqCache := Some bob_cached\<rparr>)"
    by (auto simp: all_well_def no_acc_faults_def bob_cached_def length_bounds demo_call_def split: if_splits)
  then show ?thesis by (rule recovery_tells_nothing[THEN conjunct1]) simp
qed

section \<open>Registration\<close>

text \<open>What \<open>Create\<close> does for a registration.\<close>

definition register_create :: "'l authn_ports \<Rightarrow> authn_request \<Rightarrow> RegisterUserInput \<Rightarrow> service_state \<Rightarrow> account_error option \<times> service_state" where
  "register_create ap rq i sv = Create (apText ap) (apBcrypt ap) (apKey ap) (rqFresh rq 1) (rqFaults rq) (rqReserve rq) (rqRelease rq) (Some (new_user i)) sv"

text \<open>
  While mail cannot be sent a registration tells whether the address is
  taken: for a new address the account is stored and the call fails, for a
  taken one it reports success.
\<close>

theorem mail_outage_tells_taken_addresses:
  assumes "RegisterUserInput_Validate (apText ap) (i0\<lparr>rgID := EnsureUUIDV7 (rqFresh rq 0) (rgID i0)\<rparr>) = Inr i"
    and "rgMethod i = RegisterMethodPassword" "rqMailFails rq"
    and "apSign ap (rqNow rq) (rqFresh rq 2) (verification_claims cf (rgEmail i) (rgID i)) = Inr token"
    and free: "register_create ap rq i (anService st) = (None, sv)"
    and taken: "register_create ap rq i (anService st') = (Some (UAlreadyExistsEmail email), sv')" "email \<noteq> []"
      "StoredAccount (rqFaults rq) (rgID i) (fst sv') = Inl e"
  shows "RegisterUser ap cf rq (Some i0) st = (Inl AMail, st\<lparr>anService := sv\<rparr>)
    \<and> fst (RegisterUser ap cf rq (Some i0) st') = Inr ()"
  using assms(1-4) free[unfolded register_create_def] taken(1)[unfolded register_create_def] taken(2,3)
  by (simp add: RegisterUser_def registrationTaken_def send_mail_def)

definition demo_registration :: RegisterUserInput where
  "demo_registration = \<lparr>rgDisabled = None, rgIdentity = None, rgFirstName = ''Eve'', rgLastName = ''Adams'', rgEmail = ''bob@example.com'',
     rgPassword = ''Tr0ub4dor'', rgMethod = RegisterMethodPassword, rgID = uuid7 2\<rparr>"

lemma demo_names: "ValidateString ''Eve'' (name_options ''first_name'') = Inr ''Eve''" "ValidateString ''Adams'' (name_options ''last_name'') = Inr ''Adams''"
  by code_simp+

lemma demo_registration_valid: "RegisterUserInput_Validate ascii_env demo_registration = Inr demo_registration"
proof -
  have v: "ValidateUUID (rgID demo_registration) 7 ''id'' = None" using uuid7_v7 by (simp add: demo_registration_def)
  show ?thesis unfolding RegisterUserInput_Validate_def v
    by (simp add: demo_registration_def check_field_def demo_email demo_names HasErrors_def ValidatePassword_run RegisterMethod_IsValid_def)
qed

lemma demo_new_user_valid:
  "h = [] \<or> err_of (ValidateString h hash_options) = None \<Longrightarrow>
   InsertUserInput_Validate ascii_env ((new_user demo_registration)\<lparr>insPasswordHash := h\<rparr>) = Inr ((new_user demo_registration)\<lparr>insPasswordHash := h\<rparr>)"
proof -
  assume h: "h = [] \<or> err_of (ValidateString h hash_options) = None"
  have v: "ValidateUUID (insID ((new_user demo_registration)\<lparr>insPasswordHash := h\<rparr>)) 7 ''id'' = None"
    using uuid7_v7 by (simp add: demo_registration_def new_user_def)
  show ?thesis unfolding InsertUserInput_Validate_def v using h
    by (auto simp: demo_registration_def new_user_def check_field_def demo_email demo_names HasErrors_def ValidatePassword_run)
qed

text \<open>A hash of the length of bcrypt's.\<close>

definition demo_hash :: string where
  "demo_hash = replicate 60 (CHR ''h'')"

definition hashing_ports :: "demo_bucket authn_ports" where
  "hashing_ports = demo_ports\<lparr>apBcrypt := (\<lambda>_. Some demo_hash)\<rparr>"

lemma demo_register_create:
  assumes "fst sv = one_member \<or> fst sv = one_member\<lparr>acUsers := []\<rparr>" "snd sv = demo_db 9 9"
  shows "\<exists>sv'. register_create hashing_ports (demo_call 60 (\<lambda>_. uuid7 5)) demo_registration sv =
    (if acUsers (fst sv) = [] then None else Some (UAlreadyExistsEmail ''bob@example.com''), sv') \<and> (acUsers (fst sv) = [] \<or> fst sv' = one_member)"
proof -
  have v: "InsertUserInput_Validate ascii_env (new_user demo_registration) = Inr (new_user demo_registration)"
    using demo_new_user_valid[of "[]"] by (simp add: new_user_def)
  have h: "InsertUserInput_Validate ascii_env ((new_user demo_registration)\<lparr>insPasswordHash := demo_hash\<rparr>) = Inr ((new_user demo_registration)\<lparr>insPasswordHash := demo_hash\<rparr>)"
    by (rule demo_new_user_valid) code_simp
  have i: "insID (new_user demo_registration) = uuid7 2" "insEmail (new_user demo_registration) = ''bob@example.com''" "insIdentity (new_user demo_registration) = None"
    by (simp_all add: new_user_def demo_registration_def)
  have id: "(new_user demo_registration)\<lparr>insID := EnsureUUIDV7 (uuid7 5) (uuid7 2)\<rparr> = new_user demo_registration"
    using uuid7_v7 by (simp add: EnsureUUIDV7_def new_user_def demo_registration_def)
  obtain db where db: "ReserveResourceSlot demo_key no_faults system_scope ''users'' (demo_db 9 9) = (None, db)"
    by (simp add: ReserveResourceSlot_def system_scope_def limits_run)
  have p: "apBcrypt hashing_ports p = Some demo_hash" "apKey hashing_ports = demo_key" "apText hashing_ports = ascii_env" for p by (simp_all add: demo_ports_def hashing_ports_def)
  obtain a l where sv: "sv = (a, l)" by fastforce
  show ?thesis using assms uuid7_v7
    by (auto simp: sv register_create_def Create_def i id v h db p repo_Insert_def no_acc_faults_def one_member_def user_row_of_def demo_account_def
      demo_call_def Let_def split: prod.split)
qed

lemma acUsers_one_member: "acUsers one_member \<noteq> []"
  by (simp add: one_member_def)

theorem mail_outage_tells_taken_addresses_witness:
  "\<exists>sv. RegisterUser hashing_ports demo_conf ((demo_call 60 (\<lambda>_. uuid7 5))\<lparr>rqMailFails := True\<rparr>) (Some demo_registration)
       ((demo_state [])\<lparr>anService := (one_member\<lparr>acUsers := []\<rparr>, demo_db 9 9)\<rparr>)
     = (Inl AMail, (demo_state [])\<lparr>anService := sv\<rparr>)
   \<and> fst (RegisterUser hashing_ports demo_conf ((demo_call 60 (\<lambda>_. uuid7 5))\<lparr>rqMailFails := True\<rparr>) (Some demo_registration)
       ((demo_state [])\<lparr>anService := (one_member, demo_db 9 9)\<rparr>)) = Inr ()"
proof -
  let ?rq = "(demo_call 60 (\<lambda>_. uuid7 5))\<lparr>rqMailFails := True\<rparr>"
  have c: "register_create hashing_ports ?rq demo_registration sv = register_create hashing_ports (demo_call 60 (\<lambda>_. uuid7 5)) demo_registration sv" for sv
    by (simp add: register_create_def demo_call_def)
  obtain sv where free: "register_create hashing_ports ?rq demo_registration (one_member\<lparr>acUsers := []\<rparr>, demo_db 9 9) = (None, sv)"
    using demo_register_create[of "(one_member\<lparr>acUsers := []\<rparr>, demo_db 9 9)"] by (auto simp: c)
  obtain sv' where taken: "register_create hashing_ports ?rq demo_registration (one_member, demo_db 9 9) = (Some (UAlreadyExistsEmail ''bob@example.com''), sv')"
      "fst sv' = one_member"
    using demo_register_create[of "(one_member, demo_db 9 9)"] by (auto simp: c acUsers_one_member)
  have "demo_registration\<lparr>rgID := EnsureUUIDV7 (rqFresh ?rq 0) (rgID demo_registration)\<rparr> = demo_registration"
    using uuid7_v7 by (simp add: demo_registration_def EnsureUUIDV7_def)
  then have v: "RegisterUserInput_Validate (apText hashing_ports) (demo_registration\<lparr>rgID := EnsureUUIDV7 (rqFresh ?rq 0) (rgID demo_registration)\<rparr>) = Inr demo_registration"
    by (simp add: demo_registration_valid hashing_ports_def)
  have e: "StoredAccount (rqFaults ?rq) (rgID demo_registration) (fst sv') = Inl (UNotFound (uuid7 2))"
    using uuid7_v7 by (simp add: StoredAccount_def repo_SelectByID_def taken(2) demo_registration_def no_acc_faults_def one_member_def user_row_of_def)
  have m: "rgMethod demo_registration = RegisterMethodPassword" by (simp add: demo_registration_def)
  show ?thesis
    using mail_outage_tells_taken_addresses[OF v m _ _ _ _ _ e, where cf = demo_conf and sv = sv and email = "''bob@example.com''"
        and st = "(demo_state [])\<lparr>anService := (one_member\<lparr>acUsers := []\<rparr>, demo_db 9 9)\<rparr>"
        and st' = "(demo_state [])\<lparr>anService := (one_member, demo_db 9 9)\<rparr>"] free taken(1)
    by (intro exI[of _ sv]) (simp add: hashing_ports_def)
qed

end
