(* ===== verification/Grants.thy ===== *)
theory Grants
  imports RateLimitRules Accounts Paging Go_Regex
begin

text \<open>
  Roles and policies: the inputs and their validators
  (\<open>internal/core/domain/policies.go\<close>, \<open>roles.go\<close>, \<open>users.go\<close>), the tables
  \<open>roles\<close>, \<open>policies\<close>, \<open>resources\<close>, \<open>roles_policies\<close> and \<open>users_roles\<close> with
  their constraints and triggers (\<open>00007_roles_policies_tables.sql\<close>) and the
  statements of \<open>repositorypg/policies.go\<close>, \<open>roles.go\<close> and \<open>users.go\<close> on
  them.  \<open>users\<close> and \<open>users_roles\<close> are those of \<open>Accounts\<close>.  A
  statement is one step; which statements fail is an argument, and the serial
  a row gets from its sequence is too.  Timestamps are left out.
\<close>

section \<open>Inputs\<close>

record Grant =
  grAction :: string
  grResource :: string

record CreatePolicyInput =
  cpName :: string
  cpDescription :: string
  cpAllowedAction :: string
  cpAllowedResource :: string
  cpCallerID :: uuid
  cpID :: uuid
  cpResourceID :: uuid

record UpdatePolicyInput =
  ppName :: "string option"
  ppDescription :: "string option"
  ppAllowedAction :: "string option"
  ppAllowedResource :: "string option"
  ppCallerID :: uuid
  ppID :: uuid

record InsertRoleInput =
  irName :: string
  irDescription :: string
  irID :: uuid

record UpdateRoleInput =
  urName :: "string option"
  urDescription :: "string option"
  urID :: uuid

record DeleteRoleInput =
  drID :: uuid
  drCallerID :: uuid

text \<open>A nil slice is None: \<open>reflect.DeepEqual\<close> tells it from an empty one.\<close>

record LinkRolesToPolicyInput =
  lrRoleIDs :: "uuid list option"
  lrCallerID :: uuid
  lrPolicyID :: uuid

record LinkUsersToRoleInput =
  luUserIDs :: "uuid list"
  luCallerID :: uuid
  luRoleID :: uuid

record LinkPoliciesToRoleInput =
  lpPolicyIDs :: "uuid list"
  lpCallerID :: uuid
  lpRoleID :: uuid

record LinkRolesToUserInput =
  lsRoleIDs :: "uuid list"
  lsCallerID :: uuid
  lsUserID :: uuid

text \<open>\<open>GRaw\<close> is an error of the database no mapping names.\<close>

datatype grant_error =
    GInvalidInput string
  | GValidation verror
  | GInvalidUserID
  | GInvalidPolicyID
  | GInvalidRoleID uuid
  | GInvalidAction string
  | GInvalidResource string
  | GInvalidResourceID string
  | GResourceNotFound string string
  | GNotHeld Grant
  | GPolicyNotFound
  | GRoleNotFound
  | GPolicyExistsID uuid
  | GPolicyExistsName string
  | GRoleExistsID uuid
  | GRoleExistsName string
  | GSystemPolicy uuid
  | GSystemRole uuid
  | GAdministratorProtected string string
  | GAccount account_error
  | GSelect select_error
  | GRaw
  | GNeverReturns

section \<open>Validators\<close>

definition text_options :: "string \<Rightarrow> int \<Rightarrow> StringValidationOptions" where
  "text_options field longest = \<lparr>FieldName = field, MinLength = 2, MaxLength = longest, TrimWhitespace = True, AllowEmpty = False,
     NoControlChars = True, NoHTMLTags = True, NoScriptTags = True, NoNullBytes = True, NormalizeUnicode = True\<rparr>"

definition hex_cls :: "char \<Rightarrow> bool" where
  "hex_cls c = (let n = (of_char c :: nat) in (97 \<le> n \<and> n \<le> 102) \<or> (48 \<le> n \<and> n \<le> 57))"

definition uuid_rx :: rx where
  "uuid_rx = RSeq (rx_times 8 (RCls hex_cls)) (RSeq (rx_lit ''-'') (RSeq (rx_times 4 (RCls hex_cls)) (RSeq (rx_lit ''-'')
     (RSeq (rx_times 4 (RCls hex_cls)) (RSeq (rx_lit ''-'') (RSeq (rx_times 4 (RCls hex_cls)) (RSeq (rx_lit ''-'')
       (rx_times 12 (RCls hex_cls)))))))))"

text \<open>\<open>ValidResourceRegex\<close>: a first segment or a star, then up to seven segments, each a word, a star or an id.\<close>

definition resource_rx :: rx where
  "resource_rx = RSeq (RAlt (RSeq (rx_lit ''/'') word_rx) (rx_lit ''*''))
     (rx_upto 7 (RAlt (RSeq (rx_lit ''/'') word_rx) (RAlt (rx_lit ''/*'') (RSeq (rx_lit ''/'') uuid_rx))))"

definition IsValidAction :: "string \<Rightarrow> string option" where
  "IsValidAction action =
    (if action = [] then Some ''action cannot be empty''
     else if \<not> List.member valid_actions action
     then Some (''invalid action: '' @ action @ '', must be one of '' @ GetValidActions @ '' in Uppercase'')
     else None)"

definition IsValidResource :: "string \<Rightarrow> string option" where
  "IsValidResource resource =
    (if resource = [] then Some ''resource cannot be empty''
     else if \<not> rx_match resource_rx resource then Some (''invalid resource: '' @ resource @ '', do not match the required format'')
     else None)"

definition check_action :: "string \<Rightarrow> ValidationError list \<Rightarrow> ValidationError list" where
  "check_action action errs =
    (if action = [] then AddError errs ''allowed_action'' ''cannot be empty'' ''REQUIRED''
     else if \<not> List.member valid_actions action
     then AddError errs ''allowed_action'' (''invalid action format, must be one of '' @ GetValidActions @ '' in Uppercase'') ''INVALID_FORMAT''
     else errs)"

definition check_resource :: "string \<Rightarrow> ValidationError list \<Rightarrow> ValidationError list" where
  "check_resource resource errs =
    (if resource = [] then AddError errs ''allowed_resource'' ''cannot be empty'' ''REQUIRED''
     else if \<not> rx_match resource_rx resource then AddError errs ''allowed_resource'' ''invalid resource format'' ''INVALID_FORMAT''
     else errs)"

definition CreatePolicyInput_Validate :: "CreatePolicyInput \<Rightarrow> verror option" where
  "CreatePolicyInput_Validate i =
    (let errs = Add [] (ValidateUUID (cpID i) 7 ''id'');
         errs = Add errs (err_of (ValidateString (cpName i) (text_options ''name'' 255)));
         errs = Add errs (err_of (ValidateString (cpDescription i) (text_options ''description'' 1024)));
         errs = check_action (cpAllowedAction i) errs;
         errs = check_resource (cpAllowedResource i) errs;
         errs = Add errs (ValidateUUID (cpResourceID i) 7 ''resource_id'')
     in errs_result errs)"

definition UpdatePolicyInput_Validate :: "UpdatePolicyInput \<Rightarrow> verror option" where
  "UpdatePolicyInput_Validate i =
    (let errs = Add [] (ValidateUUID (ppID i) 7 ''id'');
         errs = (case ppName i of None \<Rightarrow> errs
           | Some s \<Rightarrow> Add errs (err_of (ValidateString s (text_options ''name'' 255))));
         errs = (case ppDescription i of None \<Rightarrow> errs
           | Some s \<Rightarrow> Add errs (err_of (ValidateString s (text_options ''description'' 1024))));
         errs = (case ppAllowedAction i of None \<Rightarrow> errs | Some a \<Rightarrow> check_action a errs);
         errs = (case ppAllowedResource i of None \<Rightarrow> errs | Some r \<Rightarrow> check_resource r errs)
     in errs_result errs)"

definition DeletePolicyInput_Validate :: "uuid \<Rightarrow> verror option" where
  "DeletePolicyInput_Validate pid = errs_result (Add [] (ValidateUUID pid 7 ''id''))"

text \<open>The ids of a body, each with its index in the field's name.\<close>

definition check_ids :: "string \<Rightarrow> uuid list \<Rightarrow> ValidationError list \<Rightarrow> ValidationError list" where
  "check_ids field us errs =
    foldl (\<lambda>errs (i, u). Add errs (ValidateUUID u 7 (field @ ''['' @ itoa (int i) @ '']''))) errs (enumerate 0 us)"

definition LinkRolesToPolicyInput_Validate :: "LinkRolesToPolicyInput \<Rightarrow> verror option" where
  "LinkRolesToPolicyInput_Validate i =
    (if i = \<lparr>lrRoleIDs = None, lrCallerID = uuid_nil, lrPolicyID = uuid_nil\<rparr>
     then Some (VMany (AddError [] ''request'' ''at least one field must be updated'' ''REQUIRED''))
     else let errs = Add [] (ValidateUUID (lrPolicyID i) 7 ''policy_id'');
         ids = (case lrRoleIDs i of None \<Rightarrow> [] | Some us \<Rightarrow> us);
         errs = (if ids = [] then AddError errs ''role_ids'' ''must be at least one role ID'' ''REQUIRED'' else errs);
         errs = check_ids ''role_ids'' ids errs
     in errs_result errs)"

definition LinkUsersToRoleInput_Validate :: "LinkUsersToRoleInput \<Rightarrow> verror option" where
  "LinkUsersToRoleInput_Validate i =
    (let errs = Add [] (ValidateUUID (luRoleID i) 7 ''role_id'');
         errs = (if luUserIDs i = [] then AddError errs ''user_ids'' ''must be at least one user ID'' ''REQUIRED'' else errs);
         errs = check_ids ''user_ids'' (luUserIDs i) errs
     in errs_result errs)"

definition LinkPoliciesToRoleInput_Validate :: "LinkPoliciesToRoleInput \<Rightarrow> verror option" where
  "LinkPoliciesToRoleInput_Validate i =
    (let errs = Add [] (ValidateUUID (lpRoleID i) 7 ''role_id'');
         errs = (if lpPolicyIDs i = [] then AddError errs ''policy_ids'' ''must be at least one policy ID'' ''REQUIRED'' else errs);
         errs = check_ids ''policy_ids'' (lpPolicyIDs i) errs
     in errs_result errs)"

definition LinkRolesToUserInput_Validate :: "LinkRolesToUserInput \<Rightarrow> verror option" where
  "LinkRolesToUserInput_Validate i =
    (let errs = Add [] (ValidateUUID (lsUserID i) 7 ''user_id'');
         errs = (if lsRoleIDs i = [] then AddError errs ''role_ids'' ''must be at least one role ID'' ''REQUIRED'' else errs);
         errs = check_ids ''role_ids'' (lsRoleIDs i) errs
     in errs_result errs)"

text \<open>The validators of a role also write the normalised text back.\<close>

definition InsertRoleInput_Validate :: "InsertRoleInput \<Rightarrow> verror + InsertRoleInput" where
  "InsertRoleInput_Validate i =
    (let errs = Add [] (ValidateUUID (irID i) 7 ''id'');
         (errs, name) = check_field (\<lambda>s. ValidateString s (text_options ''name'' 255)) (irName i) errs;
         (errs, description) = check_field (\<lambda>s. ValidateString s (text_options ''description'' 1000)) (irDescription i) errs
     in if HasErrors errs then Inl (VMany errs) else Inr (i\<lparr>irName := name, irDescription := description\<rparr>))"

definition UpdateRoleInput_Validate :: "UpdateRoleInput \<Rightarrow> verror + UpdateRoleInput" where
  "UpdateRoleInput_Validate i =
    (let errs = Add [] (ValidateUUID (urID i) 7 ''id'');
         (errs, name) = check_opt (\<lambda>s. ValidateString s (text_options ''name'' 255)) (urName i) errs;
         (errs, description) = check_opt (\<lambda>s. ValidateString s (text_options ''description'' 1000)) (urDescription i) errs
     in if HasErrors errs then Inl (VMany errs) else Inr (i\<lparr>urName := name, urDescription := description\<rparr>))"

definition DeleteRoleInput_Validate :: "DeleteRoleInput \<Rightarrow> grant_error option" where
  "DeleteRoleInput_Validate i = (if ValidateUUID (drID i) 7 ''id'' = None then None else Some (GInvalidRoleID (drID i)))"

section \<open>The tables\<close>

record policy_row =
  plName :: string
  plDescription :: string
  plAction :: string
  plResource :: string
  plSystem :: bool
  plResourceID :: uuid

record role_row =
  rlName :: string
  rlDescription :: string
  rlSystem :: bool

record resource_row =
  rsName :: string
  rsAction :: string
  rsResource :: string

record grants_state =
  gsAccounts :: accounts_state
  gsRoles :: "(uuid \<times> role_row) list"
  gsPolicies :: "policy_row item list"
  gsRolesPolicies :: "(uuid \<times> uuid) list"
  gsResources :: "resource_row item list"

text \<open>The statement of an operation that writes is \<open>GWrite\<close>; the others read.\<close>

datatype grant_stmt = GSelectAuthz | GSelectPolicy uuid | GRolePage uuid string | GMatches | GAdministrators | GWrite

record grant_env =
  gePolicyLists :: listExpressions
  gePolicySql :: "policy_row list_sql"
  geResourceLists :: listExpressions
  geResourceSql :: "resource_row list_sql"

record grant_call =
  gcFaults :: "grant_stmt \<Rightarrow> bool"
  gcAccounts :: acc_faults
  gcFresh :: uuid
  gcSerial :: "64 word"

text \<open>The rows the migrations seed and \<open>fn_protect_bootstrap_links\<close> names.\<close>

definition administrator_role :: uuid where
  "administrator_role = 0x019822afb448750cae0dedaf3aaafc41"

definition full_access_policy :: uuid where
  "full_access_policy = 0x019822c997757678b6ea5c4701531a00"

definition policy_of :: "uuid \<Rightarrow> grants_state \<Rightarrow> policy_row item option" where
  "policy_of pid st = List.find (\<lambda>p. itID p = pid) (gsPolicies st)"

definition role_of :: "uuid \<Rightarrow> grants_state \<Rightarrow> role_row option" where
  "role_of rid st = map_of (gsRoles st) rid"

definition users_roles :: "grants_state \<Rightarrow> (uuid \<times> uuid) list" where
  "users_roles st = acUsersRoles (gsAccounts st)"

definition set_users_roles :: "(uuid \<times> uuid) list \<Rightarrow> grants_state \<Rightarrow> grants_state" where
  "set_users_roles urs st = st\<lparr>gsAccounts := (gsAccounts st)\<lparr>acUsersRoles := urs\<rparr>\<rparr>"

text \<open>\<open>INSERT ... ON CONFLICT DO UPDATE\<close>: a link that is there keeps its place.\<close>

definition add_links :: "(uuid \<times> uuid) list \<Rightarrow> (uuid \<times> uuid) list \<Rightarrow> (uuid \<times> uuid) list" where
  "add_links new links = filter (\<lambda>l. \<not> List.member links l) (remdups new) @ links"

section \<open>Statements on policies\<close>

definition repo_SelectPolicy :: "grant_call \<Rightarrow> uuid \<Rightarrow> grants_state \<Rightarrow> grant_error + policy_row item" where
  "repo_SelectPolicy call pid st =
    (if \<not> IsUUIDV7 pid then Inl GInvalidPolicyID
     else if gcFaults call (GSelectPolicy pid) then Inl GRaw
     else case policy_of pid st of None \<Rightarrow> Inl GPolicyNotFound | Some p \<Rightarrow> Inr p)"

definition repo_InsertPolicy :: "grant_call \<Rightarrow> CreatePolicyInput \<Rightarrow> grants_state \<Rightarrow> grant_error option \<times> grants_state" where
  "repo_InsertPolicy call i st =
    (case CreatePolicyInput_Validate i of
       Some e \<Rightarrow> (Some (GValidation e), st)
     | None \<Rightarrow>
       if gcFaults call GWrite then (Some GRaw, st)
       else if policy_of (cpID i) st \<noteq> None then (Some (GPolicyExistsID (cpID i)), st)
       else if list_ex (\<lambda>p. plName (itBody p) = cpName i \<and> plAction (itBody p) = cpAllowedAction i
           \<and> plResource (itBody p) = cpAllowedResource i) (gsPolicies st)
       then (Some (GPolicyExistsName (cpName i)), st)
       else if list_ex (\<lambda>p. itSerial p = gcSerial call) (gsPolicies st) then (Some GRaw, st)
       else if \<not> list_ex (\<lambda>r. itID r = cpResourceID i) (gsResources st)
       then (Some (GResourceNotFound (uuid_string (cpResourceID i)) []), st)
       else (None, st\<lparr>gsPolicies := \<lparr>itID = cpID i, itSerial = gcSerial call,
              itBody = \<lparr>plName = cpName i, plDescription = cpDescription i, plAction = cpAllowedAction i,
                plResource = cpAllowedResource i, plSystem = False, plResourceID = cpResourceID i\<rparr>\<rparr> # gsPolicies st\<rparr>))"

text \<open>The SET list of \<open>UpdateByID\<close> (\<open>text_arg\<close>: an absent or empty text leaves the column).\<close>

definition updated_policy :: "UpdatePolicyInput \<Rightarrow> policy_row \<Rightarrow> policy_row" where
  "updated_policy i p = p\<lparr>plName := text_arg (ppName i) (plName p), plDescription := text_arg (ppDescription i) (plDescription p),
     plAction := text_arg (ppAllowedAction i) (plAction p), plResource := text_arg (ppAllowedResource i) (plResource p)\<rparr>"

definition replace_policy :: "uuid \<Rightarrow> policy_row \<Rightarrow> grants_state \<Rightarrow> grants_state" where
  "replace_policy pid row st = st\<lparr>gsPolicies := map (\<lambda>p. if itID p = pid then p\<lparr>itBody := row\<rparr> else p) (gsPolicies st)\<rparr>"

definition repo_UpdatePolicy :: "grant_call \<Rightarrow> UpdatePolicyInput \<Rightarrow> grants_state \<Rightarrow> grant_error option \<times> grants_state" where
  "repo_UpdatePolicy call i st =
    (case UpdatePolicyInput_Validate i of
       Some e \<Rightarrow> (Some (GValidation e), st)
     | None \<Rightarrow>
       if gcFaults call GWrite then (Some GRaw, st)
       else case policy_of (ppID i) st of
         None \<Rightarrow> (Some GPolicyNotFound, st)
       | Some p \<Rightarrow>
           let row = updated_policy i (itBody p) in
           if plSystem (itBody p) then (Some (GSystemPolicy (ppID i)), st)
           else if list_ex (\<lambda>q. itID q \<noteq> ppID i \<and> plName (itBody q) = plName row \<and> plAction (itBody q) = plAction row
               \<and> plResource (itBody q) = plResource row) (gsPolicies st)
           then (Some (case ppName i of None \<Rightarrow> GRaw | Some n \<Rightarrow> GPolicyExistsName n), st)
           else (None, replace_policy (ppID i) row st))"

text \<open>The delete cascades to the links; the link of the seeded pair refuses it.\<close>

definition repo_DeletePolicy :: "grant_call \<Rightarrow> uuid \<Rightarrow> grants_state \<Rightarrow> grant_error option \<times> grants_state" where
  "repo_DeletePolicy call pid st =
    (if gcFaults call GWrite then (Some GRaw, st)
     else case policy_of pid st of
       None \<Rightarrow> (Some GPolicyNotFound, st)
     | Some p \<Rightarrow>
         if plSystem (itBody p) then (Some (GSystemPolicy pid), st)
         else if pid = full_access_policy \<and> List.member (gsRolesPolicies st) (administrator_role, full_access_policy) then (Some GRaw, st)
         else (None, st\<lparr>gsPolicies := filter (\<lambda>q. itID q \<noteq> pid) (gsPolicies st),
                gsRolesPolicies := filter (\<lambda>(_, q). q \<noteq> pid) (gsRolesPolicies st)\<rparr>))"

text \<open>
  \<open>SelectByRoleID\<close> reads one page of the policies linked to a role, with the
  paging of every list.
\<close>

definition policies_of_role :: "uuid \<Rightarrow> grants_state \<Rightarrow> policy_row item list" where
  "policies_of_role rid st = filter (\<lambda>p. List.member (gsRolesPolicies st) (rid, itID p)) (gsPolicies st)"

definition repo_SelectByRoleID ::
  "grant_env \<Rightarrow> grant_call \<Rightarrow> uuid \<Rightarrow> SelectInput \<Rightarrow> grants_state \<Rightarrow> select_error + (policy_row item list \<times> Paginator)" where
  "repo_SelectByRoleID env call rid i st =
    SelectPage (gePolicyLists env) (gePolicySql env) (gcFaults call (GRolePage rid (pgNextToken (slPaginator i)))) (Some i)
      (policies_of_role rid st)"

text \<open>
  \<open>LinkRoles\<close> lists the rows in the statement itself: a row named twice is
  SQLSTATE 21000.  A missing role is looked for before a missing policy, row by row.
\<close>

definition repo_LinkRoles_policy :: "grant_call \<Rightarrow> LinkRolesToPolicyInput \<Rightarrow> grants_state \<Rightarrow> grant_error option \<times> grants_state" where
  "repo_LinkRoles_policy call i st =
    (case LinkRolesToPolicyInput_Validate i of
       Some e \<Rightarrow> (Some (GValidation e), st)
     | None \<Rightarrow>
       let roles = (case lrRoleIDs i of None \<Rightarrow> [] | Some us \<Rightarrow> us) in
       if gcFaults call GWrite then (Some GRaw, st)
       else if \<not> distinct roles then (Some GRaw, st)
       else if policy_of (lrPolicyID i) st = None
       then (Some (if role_of (hd roles) st = None then GRoleNotFound else GPolicyNotFound), st)
       else if list_ex (\<lambda>r. role_of r st = None) roles then (Some GRoleNotFound, st)
       else (None, st\<lparr>gsRolesPolicies := add_links (map (\<lambda>r. (r, lrPolicyID i)) roles) (gsRolesPolicies st)\<rparr>))"

definition repo_UnlinkRoles_policy :: "grant_call \<Rightarrow> LinkRolesToPolicyInput \<Rightarrow> grants_state \<Rightarrow> grant_error option \<times> grants_state" where
  "repo_UnlinkRoles_policy call i st =
    (case LinkRolesToPolicyInput_Validate i of
       Some e \<Rightarrow> (Some (GValidation e), st)
     | None \<Rightarrow>
       let gone = (\<lambda>(r, p). p = lrPolicyID i \<and> List.member (case lrRoleIDs i of None \<Rightarrow> [] | Some us \<Rightarrow> us) r) in
       if gcFaults call GWrite then (Some GRaw, st)
       else if List.member (gsRolesPolicies st) (administrator_role, full_access_policy) \<and> gone (administrator_role, full_access_policy)
       then (Some GRaw, st)
       else (None, st\<lparr>gsRolesPolicies := filter (\<lambda>l. \<not> gone l) (gsRolesPolicies st)\<rparr>))"

section \<open>Statements on roles\<close>

definition repo_InsertRole :: "grant_call \<Rightarrow> InsertRoleInput \<Rightarrow> grants_state \<Rightarrow> grant_error option \<times> grants_state" where
  "repo_InsertRole call i0 st =
    (case InsertRoleInput_Validate i0 of
       Inl e \<Rightarrow> (Some (GValidation e), st)
     | Inr i \<Rightarrow>
       if gcFaults call GWrite then (Some GRaw, st)
       else if role_of (irID i) st \<noteq> None then (Some (GRoleExistsID (irID i)), st)
       else if list_ex (\<lambda>(_, r). rlName r = irName i) (gsRoles st) then (Some (GRoleExistsName (irName i)), st)
       else (None, st\<lparr>gsRoles := (irID i, \<lparr>rlName = irName i, rlDescription = irDescription i, rlSystem = False\<rparr>) # gsRoles st\<rparr>))"

definition repo_UpdateRole :: "grant_call \<Rightarrow> UpdateRoleInput \<Rightarrow> grants_state \<Rightarrow> grant_error option \<times> grants_state" where
  "repo_UpdateRole call i0 st =
    (case UpdateRoleInput_Validate i0 of
       Inl e \<Rightarrow> (Some (GValidation e), st)
     | Inr i \<Rightarrow>
       if gcFaults call GWrite then (Some GRaw, st)
       else case role_of (urID i) st of
         None \<Rightarrow> (Some GRoleNotFound, st)
       | Some r \<Rightarrow>
           let row = r\<lparr>rlName := text_arg (urName i) (rlName r), rlDescription := text_arg (urDescription i) (rlDescription r)\<rparr> in
           if rlSystem r then (Some (GSystemRole (urID i)), st)
           else if list_ex (\<lambda>(k, q). k \<noteq> urID i \<and> rlName q = rlName row) (gsRoles st)
           then (Some (case urName i of None \<Rightarrow> GRaw | Some n \<Rightarrow> GRoleExistsName n), st)
           else (None, st\<lparr>gsRoles := AList.update (urID i) row (gsRoles st)\<rparr>))"

text \<open>The delete cascades to the links of both kinds.\<close>

definition repo_DeleteRole :: "grant_call \<Rightarrow> DeleteRoleInput \<Rightarrow> grants_state \<Rightarrow> grant_error option \<times> grants_state" where
  "repo_DeleteRole call i st =
    (case DeleteRoleInput_Validate i of
       Some e \<Rightarrow> (Some e, st)
     | None \<Rightarrow>
       if gcFaults call GWrite then (Some GRaw, st)
       else case role_of (drID i) st of
         None \<Rightarrow> (Some GRoleNotFound, st)
       | Some r \<Rightarrow>
           if rlSystem r then (Some (GSystemRole (drID i)), st)
           else if drID i = administrator_role
             \<and> (List.member (gsRolesPolicies st) (administrator_role, full_access_policy)
                \<or> List.member (users_roles st) (bootstrap_administrator, administrator_role))
           then (Some GRaw, st)
           else (None, set_users_roles (filter (\<lambda>(_, q). q \<noteq> drID i) (users_roles st))
                  (st\<lparr>gsRoles := AList.delete (drID i) (gsRoles st),
                      gsRolesPolicies := filter (\<lambda>(q, _). q \<noteq> drID i) (gsRolesPolicies st)\<rparr>)))"

text \<open>
  The links of the \<open>roles\<close> and \<open>users\<close> repositories expand arrays with
  \<open>SELECT DISTINCT\<close>.  A missing row is a foreign key violation none of them maps.
\<close>

definition repo_LinkUsers :: "grant_call \<Rightarrow> LinkUsersToRoleInput \<Rightarrow> grants_state \<Rightarrow> grant_error option \<times> grants_state" where
  "repo_LinkUsers call i st =
    (case LinkUsersToRoleInput_Validate i of
       Some e \<Rightarrow> (Some (GValidation e), st)
     | None \<Rightarrow>
       if gcFaults call GWrite then (Some GRaw, st)
       else if role_of (luRoleID i) st = None \<or> list_ex (\<lambda>u. user_row_of u (gsAccounts st) = None) (luUserIDs i) then (Some GRaw, st)
       else (None, set_users_roles (add_links (map (\<lambda>u. (u, luRoleID i)) (luUserIDs i)) (users_roles st)) st))"

definition bootstrap_stripped :: grant_error where
  "bootstrap_stripped = GAdministratorProtected ''stripped of a role'' ''the bootstrap administrator''"

definition repo_UnlinkUsers :: "grant_call \<Rightarrow> LinkUsersToRoleInput \<Rightarrow> grants_state \<Rightarrow> grant_error option \<times> grants_state" where
  "repo_UnlinkUsers call i st =
    (case LinkUsersToRoleInput_Validate i of
       Some e \<Rightarrow> (Some (GValidation e), st)
     | None \<Rightarrow>
       let gone = (\<lambda>(u, r). r = luRoleID i \<and> List.member (luUserIDs i) u) in
       if gcFaults call GWrite then (Some GRaw, st)
       else if List.member (users_roles st) (bootstrap_administrator, administrator_role) \<and> gone (bootstrap_administrator, administrator_role)
       then (Some bootstrap_stripped, st)
       else (None, set_users_roles (filter (\<lambda>l. \<not> gone l) (users_roles st)) st))"

definition repo_LinkPolicies :: "grant_call \<Rightarrow> LinkPoliciesToRoleInput \<Rightarrow> grants_state \<Rightarrow> grant_error option \<times> grants_state" where
  "repo_LinkPolicies call i st =
    (case LinkPoliciesToRoleInput_Validate i of
       Some e \<Rightarrow> (Some (GValidation e), st)
     | None \<Rightarrow>
       if gcFaults call GWrite then (Some GRaw, st)
       else if role_of (lpRoleID i) st = None \<or> list_ex (\<lambda>p. policy_of p st = None) (lpPolicyIDs i) then (Some GRaw, st)
       else (None, st\<lparr>gsRolesPolicies := add_links (map (\<lambda>p. (lpRoleID i, p)) (lpPolicyIDs i)) (gsRolesPolicies st)\<rparr>))"

definition repo_UnlinkPolicies :: "grant_call \<Rightarrow> LinkPoliciesToRoleInput \<Rightarrow> grants_state \<Rightarrow> grant_error option \<times> grants_state" where
  "repo_UnlinkPolicies call i st =
    (case LinkPoliciesToRoleInput_Validate i of
       Some e \<Rightarrow> (Some (GValidation e), st)
     | None \<Rightarrow>
       let gone = (\<lambda>(r, p). r = lpRoleID i \<and> List.member (lpPolicyIDs i) p) in
       if gcFaults call GWrite then (Some GRaw, st)
       else if List.member (gsRolesPolicies st) (administrator_role, full_access_policy) \<and> gone (administrator_role, full_access_policy)
       then (Some GRaw, st)
       else (None, st\<lparr>gsRolesPolicies := filter (\<lambda>l. \<not> gone l) (gsRolesPolicies st)\<rparr>))"

definition repo_LinkRoles_user :: "grant_call \<Rightarrow> LinkRolesToUserInput \<Rightarrow> grants_state \<Rightarrow> grant_error option \<times> grants_state" where
  "repo_LinkRoles_user call i st =
    (case LinkRolesToUserInput_Validate i of
       Some e \<Rightarrow> (Some (GValidation e), st)
     | None \<Rightarrow>
       if gcFaults call GWrite then (Some GRaw, st)
       else if user_row_of (lsUserID i) (gsAccounts st) = None \<or> list_ex (\<lambda>r. role_of r st = None) (lsRoleIDs i) then (Some GRaw, st)
       else (None, set_users_roles (add_links (map (\<lambda>r. (lsUserID i, r)) (lsRoleIDs i)) (users_roles st)) st))"

definition repo_UnlinkRoles_user :: "grant_call \<Rightarrow> LinkRolesToUserInput \<Rightarrow> grants_state \<Rightarrow> grant_error option \<times> grants_state" where
  "repo_UnlinkRoles_user call i st =
    (case LinkRolesToUserInput_Validate i of
       Some e \<Rightarrow> (Some (GValidation e), st)
     | None \<Rightarrow>
       let gone = (\<lambda>(u, r). u = lsUserID i \<and> List.member (lsRoleIDs i) r) in
       if gcFaults call GWrite then (Some GRaw, st)
       else if List.member (users_roles st) (bootstrap_administrator, administrator_role) \<and> gone (bootstrap_administrator, administrator_role)
       then (Some bootstrap_stripped, st)
       else (None, set_users_roles (filter (\<lambda>l. \<not> gone l) (users_roles st)) st))"

text \<open>Which accounts with the flag a role's delete, or an unlink, would strip of it.\<close>

definition SelectAdministratorsHolding :: "grant_call \<Rightarrow> uuid \<Rightarrow> grants_state \<Rightarrow> grant_error + uuid list" where
  "SelectAdministratorsHolding call rid st =
    (if gcFaults call GAdministrators then Inl GRaw
     else Inr (sort_key uint [u. (u, r) \<leftarrow> users_roles st, r = rid,
       (case role_of rid st of None \<Rightarrow> False | Some row \<Rightarrow> \<not> rlSystem row),
       (case user_row_of u (gsAccounts st) of None \<Rightarrow> False | Some row \<Rightarrow> rowAdmin row)]))"

definition SelectAdministratorsAmong :: "grant_call \<Rightarrow> uuid list \<Rightarrow> grants_state \<Rightarrow> grant_error + uuid list" where
  "SelectAdministratorsAmong call us st =
    (if gcFaults call GAdministrators then Inl GRaw
     else Inr (sort_key uint [u. (u, row) \<leftarrow> acUsers (gsAccounts st), List.member us u, rowAdmin row]))"

section \<open>What an account holds\<close>

text \<open>
  The statement of \<open>SelectAuthz\<close>: users to roles to policies, the actions
  grouped by pattern under the account's id.  The ids of the roles and the
  policies, which ride along for the cache, are left out.
\<close>

definition access_rows :: "uuid \<Rightarrow> grants_state \<Rightarrow> (string \<times> string) list" where
  "access_rows uid st =
    (if user_row_of uid (gsAccounts st) = None then []
     else [(plResource (itBody p), plAction (itBody p)).
       (u, r) \<leftarrow> users_roles st, u = uid, role_of r st \<noteq> None,
       (r', pid) \<leftarrow> gsRolesPolicies st, r' = r,
       p \<leftarrow> gsPolicies st, itID p = pid])"

type_synonym permissions = "(string \<times> (string \<times> string list) list) list"

definition permissions_of :: "uuid \<Rightarrow> (string \<times> string) list \<Rightarrow> permissions" where
  "permissions_of uid rows =
    (if rows = [] then []
     else [(uuid_string uid, map (\<lambda>pat. (pat, remdups (map snd (filter (\<lambda>row. fst row = pat) rows)))) (remdups (map fst rows)))])"

definition SelectAuthz :: "grant_call \<Rightarrow> uuid \<Rightarrow> grants_state \<Rightarrow> grant_error + permissions" where
  "SelectAuthz call uid st =
    (if uid = uuid_nil then Inl GInvalidUserID
     else if gcFaults call GSelectAuthz then Inl GRaw
     else Inr (permissions_of uid (access_rows uid st)))"

end
