(* ===== verification/GrantsService.thy ===== *)
theory GrantsService
  imports Grants
begin

text \<open>
  Who may hand out what: the guard of every path that widens someone's
  permissions (\<open>internal/core/usecase/grant_guard.go\<close>), the use cases of
  policies and roles (\<open>usecase/policies.go\<close>, \<open>roles.go\<close>) with the role links of
  \<open>usecase/users.go\<close>, the match of a grant against the endpoints
  (\<open>usecase/resources.go\<close>, \<open>ListMatches\<close>), and the decision itself
  (\<open>usecase/authz.go\<close>, the adapter \<open>policyopa\<close> and its policy \<open>policy.rego\<close>).
  The invalidations of the cache, whose failures are only logged, are left out:
  the guard and the decision are modelled on the repository's answers.
\<close>

section \<open>The guard\<close>

text \<open>\<open>grantsOf\<close>: pattern to actions of one account; a pattern that is not there has none.\<close>

definition grantsOf :: "permissions \<Rightarrow> uuid \<Rightarrow> string \<Rightarrow> string list" where
  "grantsOf perms uid pat =
    (case map_of perms (uuid_string uid) of None \<Rightarrow> []
     | Some byUser \<Rightarrow> (case map_of byUser pat of None \<Rightarrow> [] | Some actions \<Rightarrow> actions))"

definition covers :: "(string \<Rightarrow> string list) \<Rightarrow> Grant \<Rightarrow> bool" where
  "covers mine g = list_ex (\<lambda>pat. list_ex (\<lambda>a. a = ''*'' \<or> a = grAction g) (mine pat)) [''*'', grResource g]"

definition CheckGrants :: "grant_call \<Rightarrow> uuid \<Rightarrow> Grant list \<Rightarrow> grants_state \<Rightarrow> grant_error option" where
  "CheckGrants call callerID grants st =
    (if callerID = uuid_nil then Some GInvalidUserID
     else case SelectAuthz call callerID st of
       Inl e \<Rightarrow> Some e
     | Inr held \<Rightarrow> map_option GNotHeld (List.find (\<lambda>g. \<not> covers (grantsOf held callerID) g) grants))"

definition grant_of_policy :: "policy_row item \<Rightarrow> Grant" where
  "grant_of_policy p = \<lparr>grAction = plAction (itBody p), grResource = plResource (itBody p)\<rparr>"

text \<open>The loop of \<open>CheckPolicies\<close>: the grants of the policies, or the first failure.\<close>

fun policy_grants :: "grant_call \<Rightarrow> uuid list \<Rightarrow> grants_state \<Rightarrow> grant_error + Grant list" where
  "policy_grants call [] st = Inr []"
| "policy_grants call (pid # pids) st =
    and_then (repo_SelectPolicy call pid st) (\<lambda>p.
      and_then (policy_grants call pids st) (\<lambda>gs. Inr (grant_of_policy p # gs)))"

definition CheckPolicies :: "grant_call \<Rightarrow> uuid \<Rightarrow> uuid list \<Rightarrow> grants_state \<Rightarrow> grant_error option" where
  "CheckPolicies call callerID pids st =
    (case policy_grants call pids st of Inl e \<Rightarrow> Some e | Inr grants \<Rightarrow> CheckGrants call callerID grants st)"

text \<open>
  The inner loop of \<open>CheckRoles\<close>: page after page, until a page has no next
  token or no rows.  None is a loop that does not end.
\<close>

definition guard_page :: SelectInput where
  "guard_page = \<lparr>slSort = [], slFilter = [], slFields = [], slPaginator = empty_paginator\<lparr>pgLimit := PaginatorMaxLimit\<rparr>\<rparr>"

partial_function (option) role_pages ::
  "grant_env \<Rightarrow> grant_call \<Rightarrow> uuid \<Rightarrow> grants_state \<Rightarrow> string \<Rightarrow> (grant_error + Grant list) option" where
  "role_pages env call rid st token =
    (case repo_SelectByRoleID env call rid (at_token guard_page token []) st of
       Inl e \<Rightarrow> Some (Inl (GSelect e))
     | Inr out \<Rightarrow>
         (if pgNextToken (snd out) = [] \<or> fst out = [] then Some (Inr (map grant_of_policy (fst out)))
          else Option.bind (role_pages env call rid st (pgNextToken (snd out)))
            (\<lambda>rest. Some (and_then rest (\<lambda>gs. Inr (map grant_of_policy (fst out) @ gs))))))"

fun roles_grants :: "grant_env \<Rightarrow> grant_call \<Rightarrow> uuid list \<Rightarrow> grants_state \<Rightarrow> (grant_error + Grant list) option" where
  "roles_grants env call [] st = Some (Inr [])"
| "roles_grants env call (rid # rids) st =
    Option.bind (role_pages env call rid st []) (\<lambda>r. case r of
      Inl e \<Rightarrow> Some (Inl e)
    | Inr gs \<Rightarrow> Option.bind (roles_grants env call rids st) (\<lambda>rest. Some (and_then rest (\<lambda>hs. Inr (gs @ hs)))))"

definition CheckRoles :: "grant_env \<Rightarrow> grant_call \<Rightarrow> uuid \<Rightarrow> uuid list \<Rightarrow> grants_state \<Rightarrow> grant_error option" where
  "CheckRoles env call callerID rids st =
    (case roles_grants env call rids st of
       None \<Rightarrow> Some GNeverReturns
     | Some (Inl e) \<Rightarrow> Some e
     | Some (Inr grants) \<Rightarrow> CheckGrants call callerID grants st)"

section \<open>The endpoints a grant names\<close>

text \<open>Every id and every star of a pattern becomes the placeholder of a path parameter.\<close>

definition placeholder :: string where
  "placeholder = CHR 0x5C # ''{[a-z_]{1,50}'' @ CHR 0x5C # ''}''"

function replace_ids :: "string \<Rightarrow> string" where
  "replace_ids s =
    (if s = [] then []
     else if 36 \<le> length s \<and> rx_match uuid_rx (take 36 s) then placeholder @ replace_ids (drop 36 s)
     else if hd s = CHR ''*'' then placeholder @ replace_ids (tl s)
     else hd s # replace_ids (tl s))"
  by pat_completeness auto
termination by (relation "measure length") auto

declare replace_ids.simps [simp del]

definition convertToSQLRegex :: "string \<Rightarrow> string" where
  "convertToSQLRegex resource = ''^'' @ replace_ids resource @ ''$''"

definition quoted :: "string \<Rightarrow> string" where
  "quoted s = CHR 0x27 # s @ [CHR 0x27]"

text \<open>The filter of each case of the switch; none for a resource no case takes.\<close>

definition match_filter :: "string \<Rightarrow> string \<Rightarrow> string option" where
  "match_filter action resource =
    (if action = ''*'' \<and> resource = ''*'' then Some (''action = '' @ quoted action @ '' AND resource = '' @ quoted resource)
     else if action = ''*'' \<and> resource \<noteq> ''*'' \<and> resource \<noteq> [] \<and> resource \<noteq> ''/''
     then Some (''resource ~ '' @ quoted (convertToSQLRegex resource))
     else if action \<noteq> ''*'' \<and> resource \<noteq> ''*'' \<and> resource \<noteq> [] \<and> resource \<noteq> ''/''
     then Some (''action = '' @ quoted action @ '' AND resource ~ '' @ quoted (convertToSQLRegex resource))
     else if action \<noteq> ''*'' \<and> resource = ''*''
     then Some (''action = '' @ quoted action @ '' AND resource = '' @ quoted resource)
     else None)"

definition ListMatches ::
  "grant_env \<Rightarrow> grant_call \<Rightarrow> string \<Rightarrow> string \<Rightarrow> Paginator \<Rightarrow> grants_state \<Rightarrow> grant_error + (resource_row item list \<times> Paginator)" where
  "ListMatches env call action resource paginator st =
    (if IsValidAction action \<noteq> None then Inl (GInvalidAction action)
     else if IsValidResource resource \<noteq> None then Inl (GInvalidResource resource)
     else case match_filter action resource of
       None \<Rightarrow> Inl (GResourceNotFound action resource)
     | Some f \<Rightarrow>
         (case SelectPage (geResourceLists env) (geResourceSql env) (gcFaults call GMatches)
            (Some \<lparr>slSort = [], slFilter = f, slFields = [], slPaginator = paginator\<rparr>) (gsResources st) of
            Inl e \<Rightarrow> Inl (GResourceNotFound action resource)
          | Inr out \<Rightarrow> if fst out = [] then Inl (GResourceNotFound action resource) else Inr out))"

section \<open>Policies\<close>

definition Policies_Create ::
  "grant_env \<Rightarrow> grant_call \<Rightarrow> CreatePolicyInput option \<Rightarrow> grants_state \<Rightarrow> grant_error option \<times> grants_state" where
  "Policies_Create env call input st =
    (case input of
       None \<Rightarrow> (Some (GInvalidInput ''input is nil''), st)
     | Some i0 \<Rightarrow>
       let i = i0\<lparr>cpID := EnsureUUIDV7 (gcFresh call) (cpID i0)\<rparr> in
       (case ListMatches env call (cpAllowedAction i) (cpAllowedResource i) (empty_paginator\<lparr>pgLimit := 1\<rparr>) st of
          Inl e \<Rightarrow> (Some e, st)
        | Inr (resources, _) \<Rightarrow>
          if resources = [] then (Some (GResourceNotFound (cpAllowedAction i) (cpAllowedResource i)), st)
          else if length resources > 1 then (Some (GInvalidResourceID (cpAllowedResource i)), st)
          else let i = i\<lparr>cpResourceID := itID (hd resources)\<rparr> in
            (case CreatePolicyInput_Validate i of
               Some e \<Rightarrow> (Some (GValidation e), st)
             | None \<Rightarrow>
                 (case CheckGrants call (cpCallerID i) [\<lparr>grAction = cpAllowedAction i, grResource = cpAllowedResource i\<rparr>] st of
                    Some e \<Rightarrow> (Some e, st)
                  | None \<Rightarrow> repo_InsertPolicy call i st))))"

definition Policies_DeleteByID :: "grant_call \<Rightarrow> uuid option \<Rightarrow> grants_state \<Rightarrow> grant_error option \<times> grants_state" where
  "Policies_DeleteByID call input st =
    (case input of
       None \<Rightarrow> (Some (GInvalidInput ''input is nil''), st)
     | Some pid \<Rightarrow>
       (case DeletePolicyInput_Validate pid of
          Some e \<Rightarrow> (Some (GValidation e), st)
        | None \<Rightarrow> repo_DeletePolicy call pid st))"

text \<open>Everything \<open>UpdateByID\<close> does before it writes: None lets the statement run.\<close>

definition Policies_UpdateByID_checked ::
  "grant_env \<Rightarrow> grant_call \<Rightarrow> UpdatePolicyInput option \<Rightarrow> grants_state \<Rightarrow> grant_error option" where
  "Policies_UpdateByID_checked env call input st =
    (case input of
       None \<Rightarrow> Some (GInvalidInput ''input is nil'')
     | Some i \<Rightarrow>
       (case UpdatePolicyInput_Validate i of
          Some e \<Rightarrow> Some (GValidation e)
        | None \<Rightarrow>
          (case repo_SelectPolicy call (ppID i) st of
             Inl e \<Rightarrow> Some e
           | Inr existing \<Rightarrow>
             let action = (case ppAllowedAction i of None \<Rightarrow> plAction (itBody existing) | Some a \<Rightarrow> a);
                 resource = (case ppAllowedResource i of None \<Rightarrow> plResource (itBody existing) | Some r \<Rightarrow> r)
             in if action \<noteq> plAction (itBody existing) \<or> resource \<noteq> plResource (itBody existing)
                then (case CheckGrants call (ppCallerID i) [\<lparr>grAction = action, grResource = resource\<rparr>] st of
                    Some e \<Rightarrow> Some e
                  | None \<Rightarrow>
                      (case ListMatches env call action resource (empty_paginator\<lparr>pgLimit := PaginatorMaxLimit\<rparr>) st of
                         Inl e \<Rightarrow> Some e
                       | Inr out \<Rightarrow> if fst out = [] then Some (GResourceNotFound action resource) else None))
                else None)))"

definition Policies_UpdateByID ::
  "grant_env \<Rightarrow> grant_call \<Rightarrow> UpdatePolicyInput option \<Rightarrow> grants_state \<Rightarrow> grant_error option \<times> grants_state" where
  "Policies_UpdateByID env call input st =
    (case Policies_UpdateByID_checked env call input st of
       Some e \<Rightarrow> (Some e, st)
     | None \<Rightarrow> repo_UpdatePolicy call (the input) st)"

definition Policies_LinkRoles ::
  "grant_call \<Rightarrow> LinkRolesToPolicyInput option \<Rightarrow> grants_state \<Rightarrow> grant_error option \<times> grants_state" where
  "Policies_LinkRoles call input st =
    (case input of
       None \<Rightarrow> (Some (GInvalidInput ''input is nil''), st)
     | Some i \<Rightarrow>
       (case LinkRolesToPolicyInput_Validate i of
          Some e \<Rightarrow> (Some (GValidation e), st)
        | None \<Rightarrow>
          (case CheckPolicies call (lrCallerID i) [lrPolicyID i] st of
             Some e \<Rightarrow> (Some e, st)
           | None \<Rightarrow> repo_LinkRoles_policy call i st)))"

definition Policies_UnlinkRoles ::
  "grant_call \<Rightarrow> LinkRolesToPolicyInput option \<Rightarrow> grants_state \<Rightarrow> grant_error option \<times> grants_state" where
  "Policies_UnlinkRoles call input st =
    (case input of
       None \<Rightarrow> (Some (GInvalidInput ''input is nil''), st)
     | Some i \<Rightarrow>
       (case LinkRolesToPolicyInput_Validate i of
          Some e \<Rightarrow> (Some (GValidation e), st)
        | None \<Rightarrow> repo_UnlinkRoles_policy call i st))"

section \<open>Roles\<close>

definition Roles_Create :: "grant_call \<Rightarrow> InsertRoleInput option \<Rightarrow> grants_state \<Rightarrow> grant_error option \<times> grants_state" where
  "Roles_Create call input st =
    (case input of
       None \<Rightarrow> (Some (GInvalidInput ''input is nil''), st)
     | Some i0 \<Rightarrow>
       (case InsertRoleInput_Validate (i0\<lparr>irID := EnsureUUIDV7 (gcFresh call) (irID i0)\<rparr>) of
          Inl e \<Rightarrow> (Some (GValidation e), st)
        | Inr i \<Rightarrow> repo_InsertRole call i st))"

definition Roles_UpdateByID :: "grant_call \<Rightarrow> UpdateRoleInput option \<Rightarrow> grants_state \<Rightarrow> grant_error option \<times> grants_state" where
  "Roles_UpdateByID call input st =
    (case input of
       None \<Rightarrow> (Some (GInvalidInput ''input is nil''), st)
     | Some i0 \<Rightarrow>
       (case UpdateRoleInput_Validate i0 of
          Inl e \<Rightarrow> (Some (GValidation e), st)
        | Inr i \<Rightarrow> repo_UpdateRole call i st))"

text \<open>Accounts with the flag lose a role to an account with the flag only.\<close>

definition strippedOnlyByAnAdministrator :: "grant_call \<Rightarrow> uuid list \<Rightarrow> uuid \<Rightarrow> grants_state \<Rightarrow> grant_error option" where
  "strippedOnlyByAnAdministrator call administrators callerID st =
    (if administrators = [] then None
     else case isAdministratorAccount (gcAccounts call) callerID (gsAccounts st) of
       Inl e \<Rightarrow> Some (GAccount e)
     | Inr asked \<Rightarrow> if asked then None else Some (GAdministratorProtected ''stripped of a role'' ''the administrator account''))"

definition administratorsKeepTheRole :: "grant_call \<Rightarrow> DeleteRoleInput \<Rightarrow> grants_state \<Rightarrow> grant_error option" where
  "administratorsKeepTheRole call i st =
    (case SelectAdministratorsHolding call (drID i) st of
       Inl e \<Rightarrow> Some e
     | Inr administrators \<Rightarrow> strippedOnlyByAnAdministrator call administrators (drCallerID i) st)"

definition administratorsAreNotStripped :: "grant_call \<Rightarrow> LinkUsersToRoleInput \<Rightarrow> grants_state \<Rightarrow> grant_error option" where
  "administratorsAreNotStripped call i st =
    (case SelectAdministratorsAmong call (luUserIDs i) st of
       Inl e \<Rightarrow> Some e
     | Inr administrators \<Rightarrow> strippedOnlyByAnAdministrator call administrators (luCallerID i) st)"

definition Roles_DeleteByID :: "grant_call \<Rightarrow> DeleteRoleInput option \<Rightarrow> grants_state \<Rightarrow> grant_error option \<times> grants_state" where
  "Roles_DeleteByID call input st =
    (case input of
       None \<Rightarrow> (Some (GInvalidInput ''input is nil''), st)
     | Some i \<Rightarrow>
       (case DeleteRoleInput_Validate i of
          Some e \<Rightarrow> (Some e, st)
        | None \<Rightarrow>
          (case administratorsKeepTheRole call i st of
             Some e \<Rightarrow> (Some e, st)
           | None \<Rightarrow> repo_DeleteRole call i st)))"

definition Roles_LinkUsers ::
  "grant_env \<Rightarrow> grant_call \<Rightarrow> LinkUsersToRoleInput option \<Rightarrow> grants_state \<Rightarrow> grant_error option \<times> grants_state" where
  "Roles_LinkUsers env call input st =
    (case input of
       None \<Rightarrow> (Some (GInvalidInput ''input is nil''), st)
     | Some i \<Rightarrow>
       (case LinkUsersToRoleInput_Validate i of
          Some e \<Rightarrow> (Some (GValidation e), st)
        | None \<Rightarrow>
          (case CheckRoles env call (luCallerID i) [luRoleID i] st of
             Some e \<Rightarrow> (Some e, st)
           | None \<Rightarrow> repo_LinkUsers call i st)))"

definition Roles_UnlinkUsers :: "grant_call \<Rightarrow> LinkUsersToRoleInput option \<Rightarrow> grants_state \<Rightarrow> grant_error option \<times> grants_state" where
  "Roles_UnlinkUsers call input st =
    (case input of
       None \<Rightarrow> (Some (GInvalidInput ''input is nil''), st)
     | Some i \<Rightarrow>
       (case LinkUsersToRoleInput_Validate i of
          Some e \<Rightarrow> (Some (GValidation e), st)
        | None \<Rightarrow>
          (case administratorsAreNotStripped call i st of
             Some e \<Rightarrow> (Some e, st)
           | None \<Rightarrow> repo_UnlinkUsers call i st)))"

definition Roles_LinkPolicies ::
  "grant_call \<Rightarrow> LinkPoliciesToRoleInput option \<Rightarrow> grants_state \<Rightarrow> grant_error option \<times> grants_state" where
  "Roles_LinkPolicies call input st =
    (case input of
       None \<Rightarrow> (Some (GInvalidInput ''input is nil''), st)
     | Some i \<Rightarrow>
       (case LinkPoliciesToRoleInput_Validate i of
          Some e \<Rightarrow> (Some (GValidation e), st)
        | None \<Rightarrow>
          (case CheckPolicies call (lpCallerID i) (lpPolicyIDs i) st of
             Some e \<Rightarrow> (Some e, st)
           | None \<Rightarrow> repo_LinkPolicies call i st)))"

definition Roles_UnlinkPolicies ::
  "grant_call \<Rightarrow> LinkPoliciesToRoleInput option \<Rightarrow> grants_state \<Rightarrow> grant_error option \<times> grants_state" where
  "Roles_UnlinkPolicies call input st =
    (case input of
       None \<Rightarrow> (Some (GInvalidInput ''input is nil''), st)
     | Some i \<Rightarrow>
       (case LinkPoliciesToRoleInput_Validate i of
          Some e \<Rightarrow> (Some (GValidation e), st)
        | None \<Rightarrow> repo_UnlinkPolicies call i st))"

section \<open>Roles of an account\<close>

definition Users_LinkRoles ::
  "grant_env \<Rightarrow> grant_call \<Rightarrow> LinkRolesToUserInput option \<Rightarrow> grants_state \<Rightarrow> grant_error option \<times> grants_state" where
  "Users_LinkRoles env call input st =
    (case input of
       None \<Rightarrow> (Some (GInvalidInput ''input is nil''), st)
     | Some i \<Rightarrow>
       (case LinkRolesToUserInput_Validate i of
          Some e \<Rightarrow> (Some (GValidation e), st)
        | None \<Rightarrow>
          (case CheckRoles env call (lsCallerID i) (lsRoleIDs i) st of
             Some e \<Rightarrow> (Some e, st)
           | None \<Rightarrow> repo_LinkRoles_user call i st)))"

text \<open>An account that is not there is the repository's to answer.\<close>

definition Users_UnlinkRoles :: "grant_call \<Rightarrow> LinkRolesToUserInput option \<Rightarrow> grants_state \<Rightarrow> grant_error option \<times> grants_state" where
  "Users_UnlinkRoles call input st =
    (case input of
       None \<Rightarrow> (Some (GInvalidInput ''input is nil''), st)
     | Some i \<Rightarrow>
       (case LinkRolesToUserInput_Validate i of
          Some e \<Rightarrow> (Some (GValidation e), st)
        | None \<Rightarrow>
          (case (case repo_SelectByID (gcAccounts call) (lsUserID i) (gsAccounts st) of
                   Inr stored \<Rightarrow> Inr (Some stored)
                 | Inl (UNotFound _) \<Rightarrow> Inr None
                 | Inl e \<Rightarrow> Inl e) of
             Inl e \<Rightarrow> (Some (GAccount e), st)
           | Inr stored \<Rightarrow>
               (case guardAdministrator (gcAccounts call) stored (lsCallerID i) ''stripped of a role'' False (gsAccounts st) of
                  Some e \<Rightarrow> (Some (GAccount e), st)
                | None \<Rightarrow> repo_UnlinkRoles_user call i st))))"

section \<open>The decision\<close>

text \<open>
  \<open>policy.rego\<close>.  A pattern with stars is an anchored regular expression in
  which a star is one lower-case uuid; the other characters of a stored pattern
  (\<open>ValidResourceRegex\<close>: letters, digits, underscores, slashes, dashes) stand
  for themselves.
\<close>

fun replace_placeholders :: "string \<Rightarrow> rx" where
  "replace_placeholders [] = REps"
| "replace_placeholders (c # cs) = RSeq (if c = CHR ''*'' then uuid_rx else RCls (\<lambda>x. x = c)) (replace_placeholders cs)"

definition permits :: "string list \<Rightarrow> string \<Rightarrow> bool" where
  "permits actions action = (List.member actions action \<or> List.member actions ''*'')"

record PolicyDecision =
  dcUserID :: string
  dcAction :: string
  dcResource :: string
  dcPermissions :: permissions

definition rego_allow :: "PolicyDecision \<Rightarrow> bool" where
  "rego_allow d =
    (case map_of (dcPermissions d) (dcUserID d) of
       None \<Rightarrow> False
     | Some grants \<Rightarrow>
         (case map_of grants ''*'' of None \<Rightarrow> False | Some actions \<Rightarrow> permits actions (dcAction d))
         \<or> (case map_of grants (dcResource d) of None \<Rightarrow> False | Some actions \<Rightarrow> permits actions (dcAction d))
         \<or> list_ex (\<lambda>(resource, actions). Contains resource ''*'' \<and> rx_match (replace_placeholders resource) (dcResource d)
             \<and> permits actions (dcAction d)) grants)"

text \<open>\<open>IsAllowed\<close>: an evaluation that fails is an error, and an error is a refusal.\<close>

definition IsAllowed :: "bool \<Rightarrow> PolicyDecision \<Rightarrow> string + bool" where
  "IsAllowed evalFails d = (if evalFails then Inl ''the policy could not be evaluated'' else Inr (rego_allow d))"

datatype authz_error = ZInvalidUserID | ZSelect grant_error | ZUnauthorized string

definition IsAuthorized ::
  "(uuid \<Rightarrow> grant_error + permissions) \<Rightarrow> (PolicyDecision \<Rightarrow> string + bool) \<Rightarrow> uuid \<Rightarrow> string \<Rightarrow> string \<Rightarrow> authz_error + bool" where
  "IsAuthorized selectAuthz engine userID action resource =
    (if userID = uuid_nil then Inl ZInvalidUserID
     else case selectAuthz userID of
       Inl e \<Rightarrow> Inl (ZSelect e)
     | Inr perms \<Rightarrow>
         (case engine \<lparr>dcUserID = uuid_string userID, dcAction = action, dcResource = resource, dcPermissions = perms\<rparr> of
            Inl e \<Rightarrow> Inl (ZUnauthorized e)
          | Inr allowed \<Rightarrow> Inr allowed))"

end
