(* ===== verification/GrantsRules.thy ===== *)
theory GrantsRules
  imports GrantsService AccountsRules
begin

text \<open>
  What the guard and the decision mean of the rows an account holds, that the
  guard's loop over a role's pages ends and misses nothing, and what each
  operation on grants does to what anyone holds.
\<close>

section \<open>Rows\<close>

text \<open>What \<open>SelectAuthz\<close> answers for an account; it refuses the nil id.\<close>

definition held :: "grants_state \<Rightarrow> uuid \<Rightarrow> (string \<times> string) set" where
  "held st u = (if u = uuid_nil then {} else set (access_rows u st))"

text \<open>A grant covers another when the guard lets the holder of the first hand out the second.\<close>

definition row_covers :: "string \<times> string \<Rightarrow> string \<times> string \<Rightarrow> bool" where
  "row_covers y x \<longleftrightarrow> fst y \<in> {''*'', fst x} \<and> snd y \<in> {''*'', snd x}"

definition covered :: "(string \<times> string) set \<Rightarrow> string \<times> string \<Rightarrow> bool" where
  "covered R x \<longleftrightarrow> (\<exists>y\<in>R. row_covers y x)"

definition row_allows :: "string \<Rightarrow> string \<Rightarrow> string \<times> string \<Rightarrow> bool" where
  "row_allows action path y \<longleftrightarrow>
    (fst y = ''*'' \<or> fst y = path \<or> (Contains (fst y) ''*'' \<and> rx_match (replace_placeholders (fst y)) path))
    \<and> snd y \<in> {action, ''*''}"

lemma row_covers_refl: "row_covers x x"
  by (simp add: row_covers_def)

lemma row_covers_trans: "row_covers z y \<Longrightarrow> row_covers y x \<Longrightarrow> row_covers z x"
  by (auto simp: row_covers_def)

lemma covered_trans: "covered R y \<Longrightarrow> row_covers y x \<Longrightarrow> covered R x"
  by (auto simp: covered_def intro: row_covers_trans)

lemma covered_held: "x \<in> R \<Longrightarrow> covered R x"
  unfolding covered_def using row_covers_refl by blast

lemma row_allows_covered: "row_covers z y \<Longrightarrow> row_allows action path y \<Longrightarrow> row_allows action path z"
  by (auto simp: row_covers_def row_allows_def)

lemma permissions_none: "map_of (permissions_of u rows) (uuid_string u) = None \<longleftrightarrow> rows = []"
  by (simp add: permissions_of_def)

lemma map_of_graph: "map_of (map (\<lambda>k. (k, f k)) ks) k = (if k \<in> set ks then Some (f k) else None)"
  by (induction ks) auto

lemma permissions_pattern:
  assumes "map_of (permissions_of u rows) (uuid_string u) = Some byUser"
  shows "map_of byUser pat = (if pat \<in> fst ` set rows then Some (remdups (map snd (filter (\<lambda>row. fst row = pat) rows))) else None)"
    and "(pat, actions) \<in> set byUser \<longleftrightarrow> pat \<in> fst ` set rows \<and> actions = remdups (map snd (filter (\<lambda>row. fst row = pat) rows))"
  using assms by (auto simp: permissions_of_def map_of_graph split: if_splits)

lemma grantsOf_mem: "a \<in> set (grantsOf (permissions_of u rows) u pat) \<longleftrightarrow> (pat, a) \<in> set rows"
proof (cases "map_of (permissions_of u rows) (uuid_string u)")
  case None
  then have "rows = []" by (simp add: permissions_none)
  then show ?thesis by (simp add: grantsOf_def permissions_of_def)
next
  case (Some byUser)
  show ?thesis by (force simp: grantsOf_def Some permissions_pattern(1)[OF Some])
qed

lemma covers_iff: "covers (grantsOf (permissions_of u rows) u) g \<longleftrightarrow> covered (set rows) (grResource g, grAction g)"
  by (auto simp: covers_def list_ex_iff grantsOf_mem covered_def row_covers_def Bex_def)

lemma CheckGrants_covered:
  assumes "CheckGrants call c grants st = None" "g \<in> set grants"
  shows "covered (held st c) (grResource g, grAction g)"
  using assms by (auto simp: CheckGrants_def SelectAuthz_def held_def covers_iff find_None_iff split: if_splits sum.splits)

lemma rego_allow_iff:
  "rego_allow \<lparr>dcUserID = uuid_string u, dcAction = action, dcResource = path, dcPermissions = permissions_of u rows\<rparr>
    \<longleftrightarrow> (\<exists>y\<in>set rows. row_allows action path y)"
proof (cases "map_of (permissions_of u rows) (uuid_string u)")
  case None
  then have "rows = []" by (simp add: permissions_none)
  then show ?thesis by (simp add: rego_allow_def permissions_of_def)
next
  case (Some byUser)
  have p: "permits (remdups (map snd (filter (\<lambda>row. fst row = pat) rows))) action \<longleftrightarrow>
      (\<exists>y\<in>set rows. fst y = pat \<and> snd y \<in> {action, ''*''})" for pat
    by (force simp: permits_def List.member_iff)
  have o: "(case map_of byUser pat of None \<Rightarrow> False | Some actions \<Rightarrow> permits actions action)
      \<longleftrightarrow> (\<exists>y\<in>set rows. fst y = pat \<and> snd y \<in> {action, ''*''})" for pat
    using p[of pat] by (auto simp: permissions_pattern(1)[OF Some])
  have e: "list_ex (\<lambda>(resource, actions). Contains resource ''*'' \<and> rx_match (replace_placeholders resource) path \<and> permits actions action) byUser
    \<longleftrightarrow> (\<exists>y\<in>set rows. Contains (fst y) ''*'' \<and> rx_match (replace_placeholders (fst y)) path \<and> snd y \<in> {action, ''*''})"
    (is "?l \<longleftrightarrow> ?r")
  proof
    assume ?l
    then obtain pat actions where m: "(pat, actions) \<in> set byUser" "Contains pat ''*''" "rx_match (replace_placeholders pat) path"
      "permits actions action" by (auto simp: list_ex_iff)
    then have "\<exists>y\<in>set rows. fst y = pat \<and> snd y \<in> {action, ''*''}" using p[of pat] permissions_pattern(2)[OF Some, of pat actions] by blast
    with m show ?r by blast
  next
    assume ?r
    then obtain y where y: "y \<in> set rows" "Contains (fst y) ''*''" "rx_match (replace_placeholders (fst y)) path" "snd y \<in> {action, ''*''}" by blast
    let ?a = "remdups (map snd (filter (\<lambda>row. fst row = fst y) rows))"
    have "(fst y, ?a) \<in> set byUser" using permissions_pattern(2)[OF Some, of "fst y" ?a] y(1) by simp
    moreover have "permits ?a action" using p[of "fst y"] y by blast
    ultimately show ?l using y(2,3) by (force simp: list_ex_iff)
  qed
  show ?thesis unfolding rego_allow_def row_allows_def PolicyDecision.select_convs Some option.case o e by blast
qed

section \<open>Who may do what\<close>

definition quiet_call :: grant_call where
  "quiet_call = \<lparr>gcFaults = (\<lambda>_. False), gcAccounts = no_acc_faults, gcFresh = uuid_nil, gcSerial = 0\<rparr>"

definition may_do :: "grants_state \<Rightarrow> uuid \<Rightarrow> string \<Rightarrow> string \<Rightarrow> bool" where
  "may_do st u action path \<longleftrightarrow> IsAuthorized (\<lambda>v. SelectAuthz quiet_call v st) (IsAllowed False) u action path = Inr True"

lemma may_do_iff: "may_do st u action path \<longleftrightarrow> (\<exists>y\<in>held st u. row_allows action path y)"
  by (simp add: may_do_def IsAuthorized_def SelectAuthz_def quiet_call_def IsAllowed_def rego_allow_iff held_def)

lemma held_iff:
  "x \<in> held st u \<longleftrightarrow> u \<noteq> uuid_nil \<and> user_row_of u (gsAccounts st) \<noteq> None \<and>
    (\<exists>r p. (u, r) \<in> set (users_roles st) \<and> role_of r st \<noteq> None \<and> p \<in> set (gsPolicies st) \<and> (r, itID p) \<in> set (gsRolesPolicies st)
      \<and> x = (plResource (itBody p), plAction (itBody p)))"
  by (auto simp: held_def access_rows_def split: if_splits) (rule bexI, rule exI, rule conjI, rule refl, fastforce+)

section \<open>The guard's loop over a role\<close>

lemma guard_page_valid: "SelectInput_Validate exprs (at_token guard_page [] []) = None"
  by (simp add: SelectInput_Validate_def guard_page_def at_token_def empty_paginator_def Paginator_Validate_def
      ValidatePagination_def check_token_def PaginatorMinLimit_def PaginatorMaxLimit_def errs_result_def HasErrors_def
      validateListExpressions_def boundedExpression_def parse_step_def ValidateSortExpression_def ValidateFilterExpression_def
      ValidateFieldsExpression_def length_bounds Let_def)

lemma page_with_faults: "SelectPage exprs sql b i tbl = SelectPage exprs sql False i tbl \<or> (\<exists>e. SelectPage exprs sql b i tbl = Inl e)"
  by (cases b) (auto simp: SelectPage_def Let_def split: option.splits sum.splits prod.splits)

lemma empty_page_is_last: "SelectPage exprs sql b i tbl = Inr ([], p) \<Longrightarrow> pgNextToken p = []"
  by (auto simp: SelectPage_def Let_def empty_paginator_def split: option.splits sum.splits prod.splits if_splits)

declare role_pages.simps [simp del]

lemma role_pages_follow:
  assumes "walk_forward (gePolicyLists env) (gePolicySql env) guard_page (policies_of_role rid st) n token = Some pages"
  shows "\<exists>r. role_pages env call rid st token = Some r \<and> (\<forall>gs. r = Inr gs \<longrightarrow> gs = map grant_of_policy (concat pages))
    \<and> ((\<forall>t. \<not> gcFaults call (GRolePage rid t)) \<longrightarrow> \<not> isl r)"
  using assms
proof (induction n arbitrary: token pages)
  case (Suc n)
  let ?i = "Some (at_token guard_page token [])" and ?tbl = "policies_of_role rid st"
  obtain rs p where page: "SelectPage (gePolicyLists env) (gePolicySql env) False ?i ?tbl = Inr (rs, p)"
    and rest: "(if pgNextToken p = [] then Some [rs] else map_option ((#) rs)
       (walk_forward (gePolicyLists env) (gePolicySql env) guard_page ?tbl n (pgNextToken p))) = Some pages"
    using Suc.prems by (auto split: sum.splits prod.splits)
  show ?case
  proof (cases "repo_SelectByRoleID env call rid (at_token guard_page token []) st")
    case (Inl e)
    then have "gcFaults call (GRolePage rid token)"
      using page by (cases "gcFaults call (GRolePage rid token)") (simp_all add: repo_SelectByRoleID_def at_token_def)
    moreover have "role_pages env call rid st token = Some (Inl (GSelect e))" by (subst role_pages.simps) (simp add: Inl)
    ultimately show ?thesis by auto
  next
    case (Inr out)
    then have out: "out = (rs, p)"
      using page page_with_faults[of "gePolicyLists env" "gePolicySql env" "gcFaults call (GRolePage rid token)" ?i ?tbl]
      by (auto simp: repo_SelectByRoleID_def at_token_def)
    show ?thesis
    proof (cases "pgNextToken p = []")
      case True
      with rest Inr out show ?thesis by (subst role_pages.simps) auto
    next
      case False
      then have "rs \<noteq> []" using page empty_page_is_last by metis
      from False rest obtain more where more: "pages = rs # more"
        "walk_forward (gePolicyLists env) (gePolicySql env) guard_page ?tbl n (pgNextToken p) = Some more" by auto
      from Suc.IH[OF more(2)] obtain r where r: "role_pages env call rid st (pgNextToken p) = Some r"
        "\<forall>gs. r = Inr gs \<longrightarrow> gs = map grant_of_policy (concat more)" "(\<forall>t. \<not> gcFaults call (GRolePage rid t)) \<longrightarrow> \<not> isl r" by blast
      have "role_pages env call rid st token = Some (and_then r (\<lambda>gs. Inr (map grant_of_policy rs @ gs)))"
        by (subst role_pages.simps) (simp add: Inr out False \<open>rs \<noteq> []\<close> r(1))
      with r(2,3) more(1) show ?thesis by (cases r) auto
    qed
  qed
qed simp

lemma role_pages_reads_the_role:
  assumes "distinct (map itSerial (gsPolicies st))"
  shows "\<exists>r. role_pages env call rid st [] = Some r \<and> (\<forall>gs. r = Inr gs \<longrightarrow> set gs = grant_of_policy ` set (policies_of_role rid st))
    \<and> ((\<forall>t. \<not> gcFaults call (GRolePage rid t)) \<longrightarrow> \<not> isl r)"
proof -
  let ?tbl = "policies_of_role rid st"
  let ?rows = "newest_first (filter (matching (gePolicySql env) guard_page) ?tbl)"
  have m: "matching (gePolicySql env) guard_page = (\<lambda>_. True)" by (simp add: matching_def guard_page_def fun_eq_iff)
  have "distinct (map itSerial ?tbl)" unfolding policies_of_role_def using assms by (simp add: distinct_map_filter)
  then have "falling ([] @ ?rows)" using newest_first_falling m by simp
  moreover have "int 1000 = pgLimit (slPaginator guard_page)" by (simp add: guard_page_def PaginatorMaxLimit_def)
  moreover have "length ?rows < Suc (length ?tbl)" by (simp add: newest_first_def oldest_first_def m)
  ultimately have "walk_forward (gePolicyLists env) (gePolicySql env) guard_page ?tbl (Suc (length ?tbl)) [] = Some (pages_of 1000 ?rows)"
    using walk_from[OF guard_page_valid, of 1000 "gePolicySql env" ?tbl "[]" ?rows "[]" "Suc (length ?tbl)" "gePolicyLists env"]
    by (simp add: guard_page_def del: walk_forward.simps)
  from role_pages_follow[OF this, of call] show ?thesis by (auto simp: concat_pages_of m)
qed

lemma roles_grants_reads_the_roles:
  assumes "distinct (map itSerial (gsPolicies st))"
  shows "\<exists>r. roles_grants env call rids st = Some r
    \<and> (\<forall>gs. r = Inr gs \<longrightarrow> set gs = (\<Union>rid\<in>set rids. grant_of_policy ` set (policies_of_role rid st)))
    \<and> ((\<forall>rid t. \<not> gcFaults call (GRolePage rid t)) \<longrightarrow> \<not> isl r)"
proof (induction rids)
  case (Cons rid rids)
  obtain r where r: "role_pages env call rid st [] = Some r"
    "\<forall>gs. r = Inr gs \<longrightarrow> set gs = grant_of_policy ` set (policies_of_role rid st)"
    "(\<forall>t. \<not> gcFaults call (GRolePage rid t)) \<longrightarrow> \<not> isl r" using role_pages_reads_the_role[OF assms] by blast
  from Cons.IH obtain rest where rest: "roles_grants env call rids st = Some rest"
    "\<forall>gs. rest = Inr gs \<longrightarrow> set gs = (\<Union>rid\<in>set rids. grant_of_policy ` set (policies_of_role rid st))"
    "(\<forall>rid t. \<not> gcFaults call (GRolePage rid t)) \<longrightarrow> \<not> isl rest" by blast
  show ?case
  proof (cases r)
    case (Inr gs)
    show ?thesis
    proof (cases rest)
      case (Inr hs)
      then have "roles_grants env call (rid # rids) st = Some (Inr (gs @ hs))" using r(1) rest(1) \<open>r = Inr gs\<close> by simp
      moreover have "set (gs @ hs) = (\<Union>rid\<in>set (rid # rids). grant_of_policy ` set (policies_of_role rid st))"
        using r(2) rest(2) Inr \<open>r = Inr gs\<close> by simp
      ultimately show ?thesis by (metis sum.inject(2) sum.disc(2))
    qed (use r(1) rest(1,3) Inr in simp)
  qed (use r(1,3) in auto)
qed simp

lemma CheckRoles_covered:
  assumes "distinct (map itSerial (gsPolicies st))" "CheckRoles env call c rids st = None" "rid \<in> set rids"
    and "p \<in> set (gsPolicies st)" "(rid, itID p) \<in> set (gsRolesPolicies st)"
  shows "covered (held st c) (plResource (itBody p), plAction (itBody p))"
proof -
  obtain grants where g: "set grants = (\<Union>rid\<in>set rids. grant_of_policy ` set (policies_of_role rid st))"
    "CheckGrants call c grants st = None"
    using roles_grants_reads_the_roles[OF assms(1), of env call rids] assms(2)
    by (auto simp: CheckRoles_def split: option.splits sum.splits)
  have "grant_of_policy p \<in> set grants"
    using assms(3-5) g(1) by (auto simp: policies_of_role_def List.member_iff)
  from CheckGrants_covered[OF g(2) this] show ?thesis by (simp add: grant_of_policy_def)
qed

lemma policy_grants_set:
  "policy_grants call pids st = Inr gs \<Longrightarrow> pid \<in> set pids \<Longrightarrow> \<exists>p. policy_of pid st = Some p \<and> grant_of_policy p \<in> set gs"
proof (induction pids arbitrary: gs)
  case (Cons q pids)
  then show ?case by (auto simp: and_then_Inr repo_SelectPolicy_def split: if_splits option.splits)
qed simp

lemma CheckPolicies_covered:
  assumes "CheckPolicies call c pids st = None" "pid \<in> set pids"
  shows "\<exists>p. policy_of pid st = Some p \<and> covered (held st c) (plResource (itBody p), plAction (itBody p))"
proof -
  obtain gs where gs: "policy_grants call pids st = Inr gs" "CheckGrants call c gs st = None"
    using assms(1) by (auto simp: CheckPolicies_def split: sum.splits)
  obtain p where "policy_of pid st = Some p" "grant_of_policy p \<in> set gs" using policy_grants_set[OF gs(1) assms(2)] by blast
  with CheckGrants_covered[OF gs(2)] show ?thesis by (force simp: grant_of_policy_def)
qed

end
