(* ===== verification/Projects.thy ===== *)
theory Projects
  imports Grants ResourceLimits RevokedTokens
begin

text \<open>
  Projects, the tenants of the service, and the products in them:
  \<open>core/domain/projects.go\<close>, \<open>products.go\<close>, the statements of
  \<open>repositorypg/projects.go\<close>, \<open>products.go\<close> and the use cases.  A create
  reserves a slot of the resource limits first and gives it back when the row
  was not written.  The cache of projects is read by \<open>GetByIDByUserID\<close> alone,
  which takes what it answers as an argument.
\<close>

section \<open>Inputs\<close>

record InsertProjectInput =
  ijName :: string
  ijDescription :: string
  ijID :: uuid
  ijUserID :: uuid
  ijDisabled :: bool

record UpdateProjectInput =
  ujName :: "string option"
  ujDescription :: "string option"
  ujDisabled :: "bool option"
  ujID :: uuid
  ujUserID :: uuid

record DeleteProjectInput =
  djID :: uuid
  djUserID :: uuid

record LinkUsersToProjectInput =
  ljUserIDs :: "uuid list"
  ljProjectID :: uuid

record InsertProductInput =
  npName :: string
  npDescription :: string
  npProjectID :: uuid
  npUserID :: uuid
  npID :: uuid

record UpdateProductInput =
  udName :: "string option"
  udDescription :: "string option"
  udID :: uuid
  udProjectID :: uuid
  udUserID :: uuid

record DeleteProductInput =
  ddID :: uuid
  ddProjectID :: uuid
  ddUserID :: uuid

text \<open>\<open>JRaw\<close> is an error of the database no mapping names.\<close>

datatype project_error =
    JInvalidInput string string
  | JValidation verror
  | JInvalidProjectID
  | JInvalidUserID
  | JInvalidProduct
  | JProjectNotFound uuid
  | JProductNotFound uuid
  | JProjectExists uuid
  | JProductExists string
  | JSystemProject uuid
  | JLimits limits_error
  | JRaw

datatype ProjectMembership = ProjectMembershipNone | ProjectMembershipMember | ProjectMembershipAdmin

fun Admitted :: "ProjectMembership \<Rightarrow> bool" where
  "Admitted ProjectMembershipMember = True"
| "Admitted ProjectMembershipAdmin = True"
| "Admitted ProjectMembershipNone = False"

section \<open>Validators\<close>

definition two_ids :: "string \<Rightarrow> uuid \<Rightarrow> string \<Rightarrow> uuid \<Rightarrow> ValidationError list" where
  "two_ids f1 u1 f2 u2 = Add (Add [] (ValidateUUID u1 7 f1)) (ValidateUUID u2 7 f2)"

definition InsertProjectInput_Validate :: "InsertProjectInput \<Rightarrow> verror + InsertProjectInput" where
  "InsertProjectInput_Validate i =
    (let errs = two_ids ''id'' (ijID i) ''user_id'' (ijUserID i);
         (errs, name) = check_field (\<lambda>s. ValidateString s (text_options ''name'' 70)) (ijName i) errs;
         (errs, description) = check_field (\<lambda>s. ValidateString s (text_options ''description'' 1024)) (ijDescription i) errs
     in if HasErrors errs then Inl (VMany errs) else Inr (i\<lparr>ijName := name, ijDescription := description\<rparr>))"

definition UpdateProjectInput_Validate :: "UpdateProjectInput \<Rightarrow> verror + UpdateProjectInput" where
  "UpdateProjectInput_Validate i =
    (let errs = two_ids ''id'' (ujID i) ''user_id'' (ujUserID i);
         (errs, name) = check_opt (\<lambda>s. ValidateString s (text_options ''name'' 70)) (ujName i) errs;
         (errs, description) = check_opt (\<lambda>s. ValidateString s (text_options ''description'' 1024)) (ujDescription i) errs
     in if HasErrors errs then Inl (VMany errs) else Inr (i\<lparr>ujName := name, ujDescription := description\<rparr>))"

definition DeleteProjectInput_Validate :: "DeleteProjectInput \<Rightarrow> verror option" where
  "DeleteProjectInput_Validate i = errs_result (two_ids ''id'' (djID i) ''user_id'' (djUserID i))"

definition LinkUsersToProjectInput_Validate :: "LinkUsersToProjectInput \<Rightarrow> verror option" where
  "LinkUsersToProjectInput_Validate i =
    (let errs = Add [] (ValidateUUID (ljProjectID i) 7 ''project_id'') in
     if ljUserIDs i = [] then Some (VMany (AddError errs ''user_ids'' ''at least one user ID is required'' ''REQUIRED''))
     else errs_result (check_ids ''user_ids'' (ljUserIDs i) errs))"

text \<open>The validators of a product do not write the normalised text back.\<close>

definition three_ids :: "uuid \<Rightarrow> uuid \<Rightarrow> uuid \<Rightarrow> ValidationError list" where
  "three_ids product project user = Add (two_ids ''id'' product ''project_id'' project) (ValidateUUID user 7 ''user_id'')"

definition InsertProductInput_Validate :: "InsertProductInput \<Rightarrow> verror option" where
  "InsertProductInput_Validate i =
    (let errs = three_ids (npID i) (npProjectID i) (npUserID i);
         errs = Add errs (err_of (ValidateString (npName i) (text_options ''name'' 255)));
         errs = Add errs (err_of (ValidateString (npDescription i) (text_options ''description'' 1024)))
     in errs_result errs)"

definition UpdateProductInput_Validate :: "UpdateProductInput \<Rightarrow> verror option" where
  "UpdateProductInput_Validate i =
    (let errs = (if i = \<lparr>udName = None, udDescription = None, udID = uuid_nil, udProjectID = uuid_nil, udUserID = uuid_nil\<rparr>
           then AddError [] ''general'' ''at least one field must be updated'' ''NO_FIELDS_TO_UPDATE'' else []);
         errs = errs @ three_ids (udID i) (udProjectID i) (udUserID i);
         errs = (case udName i of None \<Rightarrow> errs | Some s \<Rightarrow> Add errs (err_of (ValidateString s (text_options ''name'' 255))));
         errs = (case udDescription i of None \<Rightarrow> errs
           | Some s \<Rightarrow> Add errs (err_of (ValidateString s (text_options ''description'' 1024))))
     in errs_result errs)"

definition DeleteProductInput_Validate :: "DeleteProductInput \<Rightarrow> verror option" where
  "DeleteProductInput_Validate i = errs_result (three_ids (ddID i) (ddProjectID i) (ddUserID i))"

section \<open>The tables\<close>

record project_row =
  pjName :: string
  pjDescription :: string
  pjDisabled :: bool
  pjSystem :: bool

record product_row =
  pdProject :: uuid
  pdName :: string
  pdDescription :: string
  pdSystem :: bool

text \<open>A row of \<open>projects_users\<close> is a project and an account.\<close>

record projects_state =
  psGrants :: grants_state
  psProjects :: "(uuid \<times> project_row) list"
  psMembers :: "(uuid \<times> uuid) list"
  psProducts :: "(uuid \<times> product_row) list"
  psLimits :: limits_state

definition project_of :: "uuid \<Rightarrow> projects_state \<Rightarrow> project_row option" where
  "project_of p st = map_of (psProjects st) p"

definition product_of :: "uuid \<Rightarrow> projects_state \<Rightarrow> product_row option" where
  "product_of q st = map_of (psProducts st) q"

definition account_of :: "uuid \<Rightarrow> projects_state \<Rightarrow> user_row option" where
  "account_of u st = user_row_of u (gsAccounts (psGrants st))"

definition admin_flag :: "uuid \<Rightarrow> projects_state \<Rightarrow> bool" where
  "admin_flag u st = (case account_of u st of None \<Rightarrow> False | Some r \<Rightarrow> rowAdmin r)"

definition is_member :: "uuid \<Rightarrow> uuid \<Rightarrow> projects_state \<Rightarrow> bool" where
  "is_member p u st = List.member (psMembers st) (p, u)"

text \<open>\<open>projectMembershipPredicate\<close>, the condition every statement of a tenant carries.\<close>

definition may_touch :: "uuid \<Rightarrow> uuid \<Rightarrow> projects_state \<Rightarrow> bool" where
  "may_touch p u st = (admin_flag u st \<or> is_member p u st)"

text \<open>
  What a statement that writes comes to: it did not run, it ran, or it ran and
  its answer was lost, which the driver reports as an error no mapping names.
\<close>

definition answered :: "pg_outcome \<Rightarrow> project_error option \<times> projects_state \<Rightarrow> projects_state \<Rightarrow> project_error option \<times> projects_state" where
  "answered pg res st = (case pg of NotRun \<Rightarrow> (Some JRaw, st) | Done \<Rightarrow> res | AckLost \<Rightarrow> (Some JRaw, snd res))"

text \<open>The limits count the rows of these tables.\<close>

definition counted :: "projects_state \<Rightarrow> limits_state" where
  "counted st = (psLimits st)\<lparr>tbl_projects_users := psMembers st, tbl_projects := map_option pjSystem \<circ> map_of (psProjects st),
     tbl_products := map (\<lambda>(_, r). (pdProject r, pdSystem r)) (psProducts st)\<rparr>"

section \<open>Statements on projects\<close>

text \<open>The row and the creator's membership are one transaction.\<close>

definition repo_InsertProject :: "pg_outcome \<Rightarrow> InsertProjectInput \<Rightarrow> projects_state \<Rightarrow> project_error option \<times> projects_state" where
  "repo_InsertProject pg i0 st =
    (case InsertProjectInput_Validate i0 of
       Inl e \<Rightarrow> (Some (JValidation e), st)
     | Inr i \<Rightarrow> answered pg
        (if project_of (ijID i) st \<noteq> None then (Some (JProjectExists (ijID i)), st)
         else if account_of (ijUserID i) st = None then (Some JRaw, st)
         else (None, st\<lparr>
           psProjects := (ijID i, \<lparr>pjName = ijName i, pjDescription = ijDescription i, pjDisabled = ijDisabled i, pjSystem = False\<rparr>)
             # psProjects st,
           psMembers := (ijID i, ijUserID i) # psMembers st\<rparr>)) st)"

definition updated_project :: "UpdateProjectInput \<Rightarrow> project_row \<Rightarrow> project_row" where
  "updated_project i r = r\<lparr>
     pjName := (case ujName i of None \<Rightarrow> pjName r | Some s \<Rightarrow> if s = [] then pjName r else s),
     pjDescription := (case ujDescription i of None \<Rightarrow> pjDescription r | Some s \<Rightarrow> if s = [] then pjDescription r else s),
     pjDisabled := (case ujDisabled i of None \<Rightarrow> pjDisabled r | Some b \<Rightarrow> b)\<rparr>"

definition repo_UpdateProject :: "pg_outcome \<Rightarrow> UpdateProjectInput \<Rightarrow> projects_state \<Rightarrow> project_error option \<times> projects_state" where
  "repo_UpdateProject pg i0 st =
    (case UpdateProjectInput_Validate i0 of
       Inl e \<Rightarrow> (Some (JValidation e), st)
     | Inr i \<Rightarrow> answered pg
        (case project_of (ujID i) st of
           None \<Rightarrow> (Some (JProjectNotFound (ujID i)), st)
         | Some r \<Rightarrow>
             if \<not> may_touch (ujID i) (ujUserID i) st then (Some (JProjectNotFound (ujID i)), st)
             else if pjSystem r then (Some (JSystemProject (ujID i)), st)
             else (None, st\<lparr>psProjects := AList.update (ujID i) (updated_project i r) (psProjects st)\<rparr>)) st)"

text \<open>
  The delete cascades to the memberships and the products, whose system rows
  refuse it as the project's own do; the trigger of \<open>00012_limits.sql\<close> drops
  the project's counters.
\<close>

definition drop_project :: "uuid \<Rightarrow> projects_state \<Rightarrow> projects_state" where
  "drop_project p st = st\<lparr>
     psProjects := filter (\<lambda>(q, _). q \<noteq> p) (psProjects st),
     psMembers := filter (\<lambda>(q, _). q \<noteq> p) (psMembers st),
     psProducts := filter (\<lambda>(_, r). pdProject r \<noteq> p) (psProducts st),
     psLimits := (psLimits st)\<lparr>usage_rows := filter (\<lambda>((t, _, u), _). \<not> (t = ''project'' \<and> u = p)) (usage_rows (psLimits st))\<rparr>\<rparr>"

definition repo_DeleteProject :: "pg_outcome \<Rightarrow> DeleteProjectInput \<Rightarrow> projects_state \<Rightarrow> project_error option \<times> projects_state" where
  "repo_DeleteProject pg i st =
    (case DeleteProjectInput_Validate i of
       Some e \<Rightarrow> (Some (JValidation e), st)
     | None \<Rightarrow> answered pg
        (case project_of (djID i) st of
           None \<Rightarrow> (Some (JProjectNotFound (djID i)), st)
         | Some r \<Rightarrow>
             if \<not> may_touch (djID i) (djUserID i) st then (Some (JProjectNotFound (djID i)), st)
             else if pjSystem r \<or> list_ex (\<lambda>(_, q). pdProject q = djID i \<and> pdSystem q) (psProducts st)
             then (Some (JSystemProject (djID i)), st)
             else (None, drop_project (djID i) st)) st)"

definition SelectMembership :: "bool \<Rightarrow> uuid \<Rightarrow> uuid \<Rightarrow> projects_state \<Rightarrow> project_error + ProjectMembership" where
  "SelectMembership queryFails p u st =
    (if p = uuid_nil \<or> u = uuid_nil then Inl (JInvalidInput [] ''project ID and user ID are required'')
     else if queryFails then Inl JRaw
     else Inr (if admin_flag u st \<and> project_of p st \<noteq> None then ProjectMembershipAdmin
       else if is_member p u st then ProjectMembershipMember
       else ProjectMembershipNone))"

text \<open>\<open>view_projects_users\<close>: every project for the flag, the memberships for anyone else.\<close>

definition visible_project :: "uuid \<Rightarrow> uuid \<Rightarrow> projects_state \<Rightarrow> bool" where
  "visible_project p u st = (case account_of u st of None \<Rightarrow> False | Some r \<Rightarrow> rowAdmin r \<or> is_member p u st)"

definition repo_SelectProject :: "bool \<Rightarrow> uuid \<Rightarrow> uuid \<Rightarrow> projects_state \<Rightarrow> project_error + project_row" where
  "repo_SelectProject queryFails p u st =
    (if \<not> IsUUIDV7 p then Inl JInvalidProjectID
     else if u = uuid_nil then Inl JInvalidUserID
     else if queryFails then Inl JRaw
     else case project_of p st of
       None \<Rightarrow> Inl (JProjectNotFound uuid_nil)
     | Some r \<Rightarrow> if visible_project p u st then Inr r else Inl (JProjectNotFound uuid_nil))"

definition repo_LinkProjectUsers :: "pg_outcome \<Rightarrow> LinkUsersToProjectInput \<Rightarrow> projects_state \<Rightarrow> project_error option \<times> projects_state" where
  "repo_LinkProjectUsers pg i st =
    (case LinkUsersToProjectInput_Validate i of
       Some e \<Rightarrow> (Some (JValidation e), st)
     | None \<Rightarrow> answered pg
        (if project_of (ljProjectID i) st = None \<or> list_ex (\<lambda>u. account_of u st = None) (ljUserIDs i)
         then (Some (JProjectNotFound (ljProjectID i)), st)
         else (None, st\<lparr>psMembers := add_links (map (\<lambda>u. (ljProjectID i, u)) (ljUserIDs i)) (psMembers st)\<rparr>)) st)"

definition repo_UnlinkProjectUsers :: "pg_outcome \<Rightarrow> LinkUsersToProjectInput \<Rightarrow> projects_state \<Rightarrow> project_error option \<times> projects_state" where
  "repo_UnlinkProjectUsers pg i st =
    (case LinkUsersToProjectInput_Validate i of
       Some e \<Rightarrow> (Some (JValidation e), st)
     | None \<Rightarrow> answered pg
        (None, st\<lparr>psMembers := filter (\<lambda>(p, u). \<not> (p = ljProjectID i \<and> List.member (ljUserIDs i) u)) (psMembers st)\<rparr>) st)"

section \<open>Statements on products\<close>

definition name_taken :: "uuid \<Rightarrow> string \<Rightarrow> uuid \<Rightarrow> projects_state \<Rightarrow> bool" where
  "name_taken p name except st = list_ex (\<lambda>(q, r). q \<noteq> except \<and> pdProject r = p \<and> pdName r = name) (psProducts st)"

text \<open>
  \<open>INSERT ... SELECT ... WHERE\<close> the predicate: no row for a caller outside the
  project.  Of the constraints the keys are looked at before the project.
\<close>

definition repo_InsertProduct :: "pg_outcome \<Rightarrow> InsertProductInput \<Rightarrow> projects_state \<Rightarrow> project_error option \<times> projects_state" where
  "repo_InsertProduct pg i st =
    (case InsertProductInput_Validate i of
       Some e \<Rightarrow> (Some (JValidation e), st)
     | None \<Rightarrow> answered pg
        (if \<not> may_touch (npProjectID i) (npUserID i) st then (Some (JProjectNotFound (npProjectID i)), st)
         else if product_of (npID i) st \<noteq> None then (Some (JProductExists ''the id is taken''), st)
         else if name_taken (npProjectID i) (npName i) (npID i) st then (Some (JProductExists ''the name is taken''), st)
         else if project_of (npProjectID i) st = None then (Some (JProjectNotFound uuid_nil), st)
         else (None, st\<lparr>psProducts := (npID i, \<lparr>pdProject = npProjectID i, pdName = npName i, pdDescription = npDescription i,
                pdSystem = False\<rparr>) # psProducts st\<rparr>)) st)"

definition own_product :: "uuid \<Rightarrow> uuid \<Rightarrow> uuid \<Rightarrow> projects_state \<Rightarrow> product_row option" where
  "own_product q p u st = (case product_of q st of
     None \<Rightarrow> None
   | Some r \<Rightarrow> if pdProject r = p \<and> may_touch p u st then Some r else None)"

definition updated_product :: "UpdateProductInput \<Rightarrow> product_row \<Rightarrow> product_row" where
  "updated_product i r = r\<lparr>
     pdName := (case udName i of None \<Rightarrow> pdName r | Some s \<Rightarrow> if s = [] then pdName r else s),
     pdDescription := (case udDescription i of None \<Rightarrow> pdDescription r | Some s \<Rightarrow> if s = [] then pdDescription r else s)\<rparr>"

text \<open>The refusal of a system row is mapped by neither statement.\<close>

definition repo_UpdateProduct :: "pg_outcome \<Rightarrow> UpdateProductInput \<Rightarrow> projects_state \<Rightarrow> project_error option \<times> projects_state" where
  "repo_UpdateProduct pg i st =
    (case UpdateProductInput_Validate i of
       Some e \<Rightarrow> (Some (JValidation e), st)
     | None \<Rightarrow> answered pg
        (case own_product (udID i) (udProjectID i) (udUserID i) st of
           None \<Rightarrow> (Some (JProductNotFound (udID i)), st)
         | Some r \<Rightarrow>
             if pdSystem r then (Some JRaw, st)
             else if name_taken (udProjectID i) (pdName (updated_product i r)) (udID i) st
             then (Some (JProductExists ''the name is taken''), st)
             else (None, st\<lparr>psProducts := AList.update (udID i) (updated_product i r) (psProducts st)\<rparr>)) st)"

definition repo_DeleteProduct :: "pg_outcome \<Rightarrow> DeleteProductInput \<Rightarrow> projects_state \<Rightarrow> project_error option \<times> projects_state" where
  "repo_DeleteProduct pg i st =
    (case DeleteProductInput_Validate i of
       Some e \<Rightarrow> (Some (JValidation e), st)
     | None \<Rightarrow> answered pg
        (case own_product (ddID i) (ddProjectID i) (ddUserID i) st of
           None \<Rightarrow> (Some (JProductNotFound (ddID i)), st)
         | Some r \<Rightarrow>
             if pdSystem r then (Some JRaw, st)
             else (None, st\<lparr>psProducts := filter (\<lambda>(q, _). q \<noteq> ddID i) (psProducts st)\<rparr>)) st)"

definition repo_SelectProduct :: "bool \<Rightarrow> uuid \<Rightarrow> uuid \<Rightarrow> uuid \<Rightarrow> projects_state \<Rightarrow> project_error + product_row" where
  "repo_SelectProduct queryFails q p u st =
    (if \<not> IsUUIDV7 q then Inl JInvalidProduct
     else if p = uuid_nil then Inl JInvalidProjectID
     else if u = uuid_nil then Inl JInvalidUserID
     else if queryFails then Inl JRaw
     else case own_product q p u st of None \<Rightarrow> Inl (JProductNotFound q) | Some r \<Rightarrow> Inr r)"

section \<open>The use cases\<close>

record project_call =
  pcWrite :: pg_outcome
  pcReadFails :: bool
  pcFresh :: uuid
  pcReserve :: pg_faults
  pcRelease :: pg_faults
  pcWarn :: pg_faults

definition user_scope :: "uuid \<Rightarrow> ResourcesLimitsScope" where
  "user_scope u = \<lparr>scID = Some u, scType = ''user''\<rparr>"

definition project_scope :: "uuid \<Rightarrow> ResourcesLimitsScope" where
  "project_scope p = \<lparr>scID = Some p, scType = ''project''\<rparr>"

text \<open>The three calls on the limits a create makes: before the row, when it failed, and when it is there.\<close>

definition reserve_for :: "ecdsa \<Rightarrow> project_call \<Rightarrow> ResourcesLimitsScope \<Rightarrow> string \<Rightarrow> projects_state \<Rightarrow> limits_error option \<times> projects_state" where
  "reserve_for key call scope rt st =
    (let (e, db) = ReserveResourceSlot key (pcReserve call) scope rt (counted st) in (e, st\<lparr>psLimits := db\<rparr>))"

definition release_for :: "ecdsa \<Rightarrow> project_call \<Rightarrow> ResourcesLimitsScope \<Rightarrow> string \<Rightarrow> projects_state \<Rightarrow> projects_state" where
  "release_for key call scope rt st = st\<lparr>psLimits := ReleaseResourceSlot key (pcRelease call) scope rt (counted st)\<rparr>"

definition WarnOnSoftLimit :: "ecdsa \<Rightarrow> pg_faults \<Rightarrow> ResourcesLimitsScope \<Rightarrow> string \<Rightarrow> limits_state \<Rightarrow> limits_state" where
  "WarnOnSoftLimit key pg scope rt db = snd (CheckUsage key pg scope rt db)"

text \<open>A create between its reservation and its answer.\<close>

definition created ::
  "ecdsa \<Rightarrow> project_call \<Rightarrow> ResourcesLimitsScope \<Rightarrow> string \<Rightarrow> (projects_state \<Rightarrow> project_error option \<times> projects_state)
    \<Rightarrow> projects_state \<Rightarrow> project_error option \<times> projects_state" where
  "created key call scope rt write st =
    (case reserve_for key call scope rt st of
       (Some e, st1) \<Rightarrow> (Some (JLimits e), st1)
     | (None, st1) \<Rightarrow>
       (case write st1 of
          (Some e, st2) \<Rightarrow> (Some e, release_for key call scope rt st2)
        | (None, st2) \<Rightarrow> (None, st2\<lparr>psLimits := WarnOnSoftLimit key (pcWarn call) scope rt (counted st2)\<rparr>)))"

definition Projects_Create ::
  "ecdsa \<Rightarrow> project_call \<Rightarrow> InsertProjectInput option \<Rightarrow> projects_state \<Rightarrow> project_error option \<times> projects_state" where
  "Projects_Create key call input st =
    (case input of
       None \<Rightarrow> (Some (JInvalidInput [] ''input is nil''), st)
     | Some i0 \<Rightarrow>
       (case InsertProjectInput_Validate (i0\<lparr>ijID := EnsureUUIDV7 (pcFresh call) (ijID i0)\<rparr>) of
          Inl e \<Rightarrow> (Some (JValidation e), st)
        | Inr i \<Rightarrow> created key call (user_scope (ijUserID i)) ''projects'' (repo_InsertProject (pcWrite call) i) st))"

definition Projects_UpdateByID :: "project_call \<Rightarrow> UpdateProjectInput option \<Rightarrow> projects_state \<Rightarrow> project_error option \<times> projects_state" where
  "Projects_UpdateByID call input st =
    (case input of
       None \<Rightarrow> (Some (JInvalidInput [] ''input is nil''), st)
     | Some i0 \<Rightarrow>
       (case UpdateProjectInput_Validate i0 of
          Inl e \<Rightarrow> (Some (JValidation e), st)
        | Inr i \<Rightarrow> repo_UpdateProject (pcWrite call) i st))"

text \<open>The counter of the caller is lowered, whoever made the project.\<close>

definition Projects_DeleteByID :: "ecdsa \<Rightarrow> project_call \<Rightarrow> DeleteProjectInput \<Rightarrow> projects_state \<Rightarrow> project_error option \<times> projects_state" where
  "Projects_DeleteByID key call i st =
    (if djID i = uuid_nil then (Some (JInvalidInput [] ''input is nil''), st)
     else case repo_DeleteProject (pcWrite call) i st of
       (Some e, st1) \<Rightarrow> (Some e, st1)
     | (None, st1) \<Rightarrow>
         (let (e, db) = DecrementUsage key (pcRelease call) (user_scope (djUserID i)) ''projects'' (counted st1) in
           (map_option JLimits e, st1\<lparr>psLimits := db\<rparr>)))"

definition Membership :: "project_call \<Rightarrow> uuid \<Rightarrow> uuid \<Rightarrow> projects_state \<Rightarrow> project_error + ProjectMembership" where
  "Membership call p u st =
    (if p = uuid_nil then Inl (JInvalidInput ''project_id'' ''project ID is nil'')
     else if u = uuid_nil then Inl (JInvalidInput ''user_id'' ''userID is nil'')
     else SelectMembership (pcReadFails call) p u st)"

text \<open>A cached project, when there is one, is answered instead of the row.\<close>

definition Projects_GetByIDByUserID ::
  "project_call \<Rightarrow> (uuid \<times> uuid \<Rightarrow> project_row option) \<Rightarrow> uuid \<Rightarrow> uuid \<Rightarrow> projects_state \<Rightarrow> project_error + project_row" where
  "Projects_GetByIDByUserID call cached p u st =
    (if \<not> IsUUIDV7 p then Inl JInvalidProjectID
     else case cached (u, p) of
       Some r \<Rightarrow> Inr r
     | None \<Rightarrow> repo_SelectProject (pcReadFails call) p u st)"

definition Projects_LinkUsers :: "project_call \<Rightarrow> LinkUsersToProjectInput option \<Rightarrow> projects_state \<Rightarrow> project_error option \<times> projects_state" where
  "Projects_LinkUsers call input st =
    (case input of
       None \<Rightarrow> (Some (JInvalidInput [] ''input is nil''), st)
     | Some i \<Rightarrow>
       (case LinkUsersToProjectInput_Validate i of
          Some e \<Rightarrow> (Some (JValidation e), st)
        | None \<Rightarrow> repo_LinkProjectUsers (pcWrite call) i st))"

definition Projects_UnlinkUsers :: "project_call \<Rightarrow> LinkUsersToProjectInput option \<Rightarrow> projects_state \<Rightarrow> project_error option \<times> projects_state" where
  "Projects_UnlinkUsers call input st =
    (case input of
       None \<Rightarrow> (Some (JInvalidInput [] ''input is nil''), st)
     | Some i \<Rightarrow>
       (case LinkUsersToProjectInput_Validate i of
          Some e \<Rightarrow> (Some (JValidation e), st)
        | None \<Rightarrow> repo_UnlinkProjectUsers (pcWrite call) i st))"

definition Products_Create ::
  "ecdsa \<Rightarrow> project_call \<Rightarrow> InsertProductInput option \<Rightarrow> projects_state \<Rightarrow> project_error option \<times> projects_state" where
  "Products_Create key call input st =
    (case input of
       None \<Rightarrow> (Some (JInvalidInput [] ''input is nil''), st)
     | Some i0 \<Rightarrow>
       (let i = i0\<lparr>npID := EnsureUUIDV7 (pcFresh call) (npID i0)\<rparr> in
        case InsertProductInput_Validate i of
          Some e \<Rightarrow> (Some (JValidation e), st)
        | None \<Rightarrow> created key call (project_scope (npProjectID i)) ''products'' (repo_InsertProduct (pcWrite call) i) st))"

definition Products_Update :: "project_call \<Rightarrow> UpdateProductInput option \<Rightarrow> projects_state \<Rightarrow> project_error option \<times> projects_state" where
  "Products_Update call input st =
    (case input of
       None \<Rightarrow> (Some (JInvalidInput [] ''input is nil''), st)
     | Some i \<Rightarrow>
       (case UpdateProductInput_Validate i of
          Some e \<Rightarrow> (Some (JValidation e), st)
        | None \<Rightarrow> repo_UpdateProduct (pcWrite call) i st))"

text \<open>The error of the decrement is logged, not returned.\<close>

definition Products_Delete :: "ecdsa \<Rightarrow> project_call \<Rightarrow> DeleteProductInput option \<Rightarrow> projects_state \<Rightarrow> project_error option \<times> projects_state" where
  "Products_Delete key call input st =
    (case input of
       None \<Rightarrow> (Some (JInvalidInput [] ''input is nil''), st)
     | Some i \<Rightarrow>
       (case DeleteProductInput_Validate i of
          Some e \<Rightarrow> (Some (JValidation e), st)
        | None \<Rightarrow>
          (case repo_DeleteProduct (pcWrite call) i st of
             (Some e, st1) \<Rightarrow> (Some e, st1)
           | (None, st1) \<Rightarrow> (None, release_for key call (project_scope (ddProjectID i)) ''products'' st1))))"

definition Products_Get :: "project_call \<Rightarrow> uuid \<Rightarrow> uuid \<Rightarrow> uuid \<Rightarrow> projects_state \<Rightarrow> project_error + product_row" where
  "Products_Get call q p u st =
    (if \<not> IsUUIDV7 q then Inl JInvalidProduct
     else if \<not> IsUUIDV7 p then Inl JInvalidProjectID
     else if \<not> IsUUIDV7 u then Inl JInvalidUserID
     else repo_SelectProduct (pcReadFails call) q p u st)"

end
