(* ===== verification/AccessGate.thy ===== *)
theory AccessGate
  imports Authn RevokedMirror GrantsRules Projects
begin

text \<open>
  The gate in front of the authenticated routes: the token checks of
  \<open>middleware/middlewares.go\<close> over the validators of \<open>jwtvalidator\<close>, the
  account, the grants and the membership of the project, in the order
  \<open>app/server.go\<close> chains them, and the answers of \<open>respond\<close>.  What a check
  asks of another component is an argument; \<open>gate_of\<close> gives it the models of
  those components.  The post-auth rate limiter, the last of the chain, is the
  theory of the rate limit middleware.
\<close>

section \<open>Requests and answers\<close>

record http_request =
  rqMethod :: string
  rqPath :: string
  rqAuthorization :: string
  rqProjectID :: string
  rqProductID :: string

text \<open>What goes out in a body: this service's words, or the text of an error.\<close>

datatype body =
    Text string
  | Coded string string
  | ErrorText project_error
  | ValidationText verror
  | InvalidUUIDText string string
  | ProjectBody project_row
  | ProductBody product_row
  | ProjectList "(uuid \<times> project_row) list" Paginator
  | ProductList "(uuid \<times> uuid \<times> string \<times> string \<times> string) list" Paginator
  | InvalidTokenText string
  | InvalidLimitText int int
  | NoBody

datatype reply = Reply (reply_status: int) (reply_body: body)

definition InternalServerErrorMessage :: string where "InternalServerErrorMessage = ''internal server error''"

text \<open>A request whose caller went away is answered 499 and nothing else.\<close>

definition WriteInternalError :: "bool \<Rightarrow> reply" where
  "WriteInternalError callerGone = (if callerGone then Reply 499 NoBody else Reply 500 (Text InternalServerErrorMessage))"

text \<open>The rows of \<open>statusTable\<close> for the errors of projects and products.\<close>

fun StatusFor :: "project_error \<Rightarrow> int" where
  "StatusFor (JInvalidInput _ _) = 400"
| "StatusFor (JValidation _) = 400"
| "StatusFor (JSystemProject _) = 403"
| "StatusFor (JProjectNotFound _) = 404"
| "StatusFor (JProductNotFound _) = 404"
| "StatusFor (JProjectExists _) = 409"
| "StatusFor (JProductExists _) = 409"
| "StatusFor (JLimits e) = (case e of HardLimitReachedError _ _ _ \<Rightarrow> 409 | _ \<Rightarrow> 500)"
| "StatusFor JInvalidProjectID = 500"
| "StatusFor JInvalidUserID = 500"
| "StatusFor JInvalidProduct = 500"
| "StatusFor JRaw = 500"

definition WriteError :: "bool \<Rightarrow> project_error \<Rightarrow> reply" where
  "WriteError callerGone e =
    (if StatusFor e = 500 then WriteInternalError callerGone else Reply (StatusFor e) (ErrorText e))"

section \<open>The validators of tokens\<close>

datatype ValidatorType = ValidatorTypeAccessToken | ValidatorTypeRefreshToken | ValidatorTypePasswordResetToken
  | ValidatorTypeVerificationToken

datatype validator_error = InvalidTokenError | InvalidClaimsError

type_synonym verifier_of = "string \<Rightarrow> signer_error + claims"

definition validateJTI :: "claims \<Rightarrow> validator_error option" where
  "validateJTI c =
    (case claim_text c ''jti'' of
       None \<Rightarrow> Some InvalidClaimsError
     | Some s \<Rightarrow> (case uuid_parse s of
         None \<Rightarrow> Some InvalidClaimsError
       | Some jti \<Rightarrow> if jti = uuid_nil then Some InvalidClaimsError else None))"

definition validateToken :: "verifier_of option \<Rightarrow> bool \<Rightarrow> string \<Rightarrow> validator_error + claims" where
  "validateToken verifier requireJTI token =
    (case verifier of
       None \<Rightarrow> Inl InvalidTokenError
     | Some verify \<Rightarrow> (case verify token of
         Inl _ \<Rightarrow> Inl InvalidTokenError
       | Inr c \<Rightarrow>
           if c = Map.empty then Inl InvalidClaimsError
           else if requireJTI then (case validateJTI c of Some e \<Rightarrow> Inl e | None \<Rightarrow> Inr c)
           else Inr c))"

fun requires_jti :: "ValidatorType \<Rightarrow> bool" where
  "requires_jti ValidatorTypeAccessToken = False"
| "requires_jti ValidatorTypeRefreshToken = True"
| "requires_jti ValidatorTypePasswordResetToken = True"
| "requires_jti ValidatorTypeVerificationToken = False"

text \<open>\<open>createJWTValidators\<close>: one per type over the signer, or none at all.\<close>

type_synonym validators = "ValidatorType \<Rightarrow> (string \<Rightarrow> validator_error + claims) option"

definition createJWTValidators :: "verifier_of option \<Rightarrow> validators" where
  "createJWTValidators signer vt =
    (case signer of None \<Rightarrow> None | Some verify \<Rightarrow> Some (validateToken (Some verify) (requires_jti vt)))"

section \<open>The token check\<close>

text \<open>\<open>strings.Cut\<close> at the first space: the scheme and the credentials.\<close>

definition cut_space :: "string \<Rightarrow> (string \<times> string) option" where
  "cut_space s = (if CHR '' '' \<in> set s then Some (takeWhile (\<lambda>c. c \<noteq> CHR '' '') s, drop 1 (dropWhile (\<lambda>c. c \<noteq> CHR '' '') s)) else None)"

definition unauthorized :: "string \<Rightarrow> reply" where
  "unauthorized message = Reply 401 (Text message)"

definition token_revoked :: reply where
  "token_revoked = Reply 401 (Coded ''token_revoked'' ''session ended, please sign in again'')"

definition bearer_token :: "string \<Rightarrow> reply + string" where
  "bearer_token header =
    (if header = [] then Inl (unauthorized ''Missing header: Authorization'')
     else case cut_space header of
       None \<Rightarrow> Inl (unauthorized ''Authorization header must use the Bearer scheme'')
     | Some (scheme, credentials) \<Rightarrow>
         if map ascii_lower scheme \<noteq> ''bearer'' then Inl (unauthorized ''Authorization header must use the Bearer scheme'')
         else let token = TrimSpace credentials in
           if token = [] then Inl (unauthorized ''Token is empty'') else Inr token)"

text \<open>The revocation check, of access tokens only; without a mirror it is off.\<close>

definition not_revoked :: "(uuid \<Rightarrow> bool) option \<Rightarrow> claims \<Rightarrow> reply option" where
  "not_revoked revoked c =
    (case revoked of
       None \<Rightarrow> None
     | Some contains \<Rightarrow>
         if claim_text c ''token_type'' \<noteq> Some TokenTypeAccess then None
         else case Option.bind (claim_text c ''jti'') uuid_parse of
           None \<Rightarrow> Some (unauthorized ''Invalid or expired token'')
         | Some jti \<Rightarrow> if contains jti then Some token_revoked else None)"

text \<open>What is asked of the verified claims.\<close>

definition check_claims :: "(string \<Rightarrow> bool) \<Rightarrow> string \<Rightarrow> (uuid \<Rightarrow> bool) option \<Rightarrow> claims \<Rightarrow> reply option" where
  "check_claims validateType errorMsg revoked c =
    (if c = Map.empty then Some (unauthorized ''Claims is empty'')
     else if c ''token_type'' = None then Some (unauthorized ''Token type field not found in claims'')
     else case claim_text c ''token_type'' of
       None \<Rightarrow> Some (unauthorized errorMsg)
     | Some tt \<Rightarrow> if \<not> validateType tt then Some (unauthorized errorMsg) else not_revoked revoked c)"

definition checkToken ::
  "validators \<Rightarrow> ValidatorType \<Rightarrow> (string \<Rightarrow> bool) \<Rightarrow> string \<Rightarrow> (uuid \<Rightarrow> bool) option \<Rightarrow> http_request \<Rightarrow> reply + (claims \<times> string)" where
  "checkToken validators vt validateType errorMsg revoked rq =
    and_then (bearer_token (rqAuthorization rq)) (\<lambda>token.
      case validators vt of
        None \<Rightarrow> Inl (unauthorized ''Unauthorized'')
      | Some validate \<Rightarrow>
          (case validate token of
             Inl _ \<Rightarrow> Inl (unauthorized ''Invalid or expired token'')
           | Inr c \<Rightarrow> (case check_claims validateType errorMsg revoked c of Some r \<Rightarrow> Inl r | None \<Rightarrow> Inr (c, token))))"

definition CheckAccessToken :: "validators \<Rightarrow> (uuid \<Rightarrow> bool) option \<Rightarrow> http_request \<Rightarrow> reply + (claims \<times> string)" where
  "CheckAccessToken validators revoked =
    checkToken validators ValidatorTypeAccessToken (\<lambda>tt. tt = TokenTypeAccess \<or> tt = TokenTypePersonalAccess)
      ''invalid token type access or personal_access'' revoked"

definition CheckRefreshToken :: "validators \<Rightarrow> http_request \<Rightarrow> reply + (claims \<times> string)" where
  "CheckRefreshToken validators =
    checkToken validators ValidatorTypeRefreshToken (\<lambda>tt. tt = TokenTypeRefresh) ''Token type is not refresh'' None"

definition CheckVerificationToken :: "validators \<Rightarrow> http_request \<Rightarrow> reply + (claims \<times> string)" where
  "CheckVerificationToken validators =
    checkToken validators ValidatorTypeVerificationToken (\<lambda>tt. tt = TokenTypeEmailVerification)
      ''Token type is not email_verification'' None"

definition CheckPasswordResetToken :: "validators \<Rightarrow> http_request \<Rightarrow> reply + (claims \<times> string)" where
  "CheckPasswordResetToken validators =
    checkToken validators ValidatorTypePasswordResetToken (\<lambda>tt. tt = TokenTypePasswordReset)
      ''Token type is not password_reset'' None"

section \<open>The account, the grants, the project\<close>

record gate_env =
  gaValidators :: validators
  gaRevoked :: "(uuid \<Rightarrow> bool) option"
  gaStanding :: "uuid \<Rightarrow> account_error + AccountStanding"
  gaAuthz :: "uuid \<Rightarrow> string \<Rightarrow> string \<Rightarrow> authz_error + bool"
  gaMembership :: "uuid \<Rightarrow> uuid \<Rightarrow> project_error + ProjectMembership"
  gaCallerGone :: bool

definition subject_of :: "claims \<Rightarrow> uuid option" where
  "subject_of c = Option.bind (claim_text c ''sub'') uuid_parse"

text \<open>Each check is a refusal, or nothing.\<close>

definition RequireActiveAccount :: "gate_env \<Rightarrow> claims \<Rightarrow> reply option" where
  "RequireActiveAccount env c =
    (case subject_of c of
       None \<Rightarrow> Some (unauthorized ''Invalid or expired token'')
     | Some uid \<Rightarrow> (case gaStanding env uid of
         Inl _ \<Rightarrow> Some (WriteInternalError (gaCallerGone env))
       | Inr standing \<Rightarrow> if standing \<noteq> AccountActive then Some token_revoked else None))"

definition authz_action :: "string \<Rightarrow> string" where
  "authz_action method = (if method = ''HEAD'' then ''GET'' else method)"

definition CheckAuthz :: "gate_env \<Rightarrow> http_request \<Rightarrow> claims \<Rightarrow> reply option" where
  "CheckAuthz env rq c =
    (case claim_text c ''sub'' of
       None \<Rightarrow> Some (unauthorized ''sub claim not found in claims'')
     | Some sub \<Rightarrow> (case uuid_parse sub of
         None \<Rightarrow> Some (unauthorized ''invalid sub claim'')
       | Some uid \<Rightarrow> (case gaAuthz env uid (authz_action (rqMethod rq)) (rqPath rq) of
           Inl _ \<Rightarrow> Some (if gaCallerGone env then Reply 499 NoBody else Reply 500 (Text ''authorization service unavailable''))
         | Inr ok \<Rightarrow>
             if ok then None
             else Some (Reply 403 (Text (''access denied: '' @ rqMethod rq @ '' '' @ rqPath rq))))))"

definition RequireProjectMembership :: "gate_env \<Rightarrow> http_request \<Rightarrow> claims \<Rightarrow> reply option" where
  "RequireProjectMembership env rq c =
    (if rqProjectID rq = [] then None
     else case uuid_parse (rqProjectID rq) of
       None \<Rightarrow> None
     | Some p \<Rightarrow> (case uuid_parse (claimString c ''sub'') of
         None \<Rightarrow> Some (unauthorized ''invalid sub claim'')
       | Some uid \<Rightarrow> (case gaMembership env p uid of
           Inl e \<Rightarrow> Some (WriteError (gaCallerGone env) e)
         | Inr membership \<Rightarrow>
             if Admitted membership then None else Some (WriteError (gaCallerGone env) (JProjectNotFound p)))))"

section \<open>The chains\<close>

fun first_refusal :: "reply option list \<Rightarrow> reply option" where
  "first_refusal [] = None"
| "first_refusal (Some r # _) = Some r"
| "first_refusal (None # rs) = first_refusal rs"

definition guarded :: "reply + (claims \<times> string) \<Rightarrow> (claims \<Rightarrow> reply option list) \<Rightarrow> reply + (claims \<times> string)" where
  "guarded verified checks = and_then verified (\<lambda>(c, token). case first_refusal (checks c) of Some r \<Rightarrow> Inl r | None \<Rightarrow> Inr (c, token))"

definition accessTokenMiddlewares :: "gate_env \<Rightarrow> http_request \<Rightarrow> reply + (claims \<times> string)" where
  "accessTokenMiddlewares env rq = guarded (CheckAccessToken (gaValidators env) (gaRevoked env) rq)
    (\<lambda>c. [RequireActiveAccount env c, CheckAuthz env rq c, RequireProjectMembership env rq c])"

definition logoutMiddlewares :: "gate_env \<Rightarrow> http_request \<Rightarrow> reply + (claims \<times> string)" where
  "logoutMiddlewares env rq = guarded (CheckAccessToken (gaValidators env) None rq) (\<lambda>c. [CheckAuthz env rq c])"

definition meEndpointMiddlewares :: "gate_env \<Rightarrow> http_request \<Rightarrow> reply + (claims \<times> string)" where
  "meEndpointMiddlewares env rq = guarded (CheckAccessToken (gaValidators env) (gaRevoked env) rq)
    (\<lambda>c. [RequireActiveAccount env c, CheckAuthz env rq c])"

definition refreshTokenMiddlewares :: "gate_env \<Rightarrow> http_request \<Rightarrow> reply + (claims \<times> string)" where
  "refreshTokenMiddlewares env rq = guarded (CheckRefreshToken (gaValidators env) rq) (\<lambda>c. [CheckAuthz env rq c])"

definition passwordResetTokenMiddlewares :: "gate_env \<Rightarrow> http_request \<Rightarrow> reply + (claims \<times> string)" where
  "passwordResetTokenMiddlewares env rq = guarded (CheckPasswordResetToken (gaValidators env) rq) (\<lambda>c. [CheckAuthz env rq c])"

definition verificationTokenMiddlewares :: "gate_env \<Rightarrow> http_request \<Rightarrow> reply + (claims \<times> string)" where
  "verificationTokenMiddlewares env rq = guarded (CheckVerificationToken (gaValidators env) rq) (\<lambda>c. [])"

section \<open>The gate over the components\<close>

record gate_call =
  gcNow :: instant
  gcStandingFaults :: acc_faults
  gcGrantCall :: grant_call
  gcEvalFails :: bool
  gcProjectCall :: project_call
  gcGone :: bool

definition gate_of :: "('k, 'p) jwt_lib \<Rightarrow> ('k, 'p) Signer \<Rightarrow> token_mirror \<Rightarrow> gate_call \<Rightarrow> projects_state \<Rightarrow> gate_env" where
  "gate_of lib signer mirror call st = \<lparr>
     gaValidators = createJWTValidators (Some (VerifyToken lib signer (gcNow call))),
     gaRevoked = Some (TokenMirror_Contains mirror),
     gaStanding = (\<lambda>u. Standing (gcStandingFaults call) u (gsAccounts (psGrants st))),
     gaAuthz = IsAuthorized (\<lambda>u. SelectAuthz (gcGrantCall call) u (psGrants st)) (IsAllowed (gcEvalFails call)),
     gaMembership = (\<lambda>p u. Membership (gcProjectCall call) p u st),
     gaCallerGone = gcGone call\<rparr>"

section \<open>What gets through\<close>

lemma guarded_Inr:
  "guarded verified checks = Inr (c, token) \<longleftrightarrow> verified = Inr (c, token) \<and> first_refusal (checks c) = None"
  by (auto simp: guarded_def and_then_Inr split: option.splits)

lemma first_refusal_None: "first_refusal rs = None \<longleftrightarrow> (\<forall>r\<in>set rs. r = None)"
  by (induction rs rule: first_refusal.induct) auto

lemma check_claims_None:
  "check_claims validateType errorMsg revoked c = None \<longleftrightarrow>
    (\<exists>tt. claim_text c ''token_type'' = Some tt \<and> validateType tt) \<and> not_revoked revoked c = None"
proof -
  have "c \<noteq> Map.empty \<and> c ''token_type'' \<noteq> None" if "claim_text c ''token_type'' = Some tt" for tt
    using that by (cases "c ''token_type''") (auto simp: claim_text_def)
  then show ?thesis by (cases "claim_text c ''token_type''") (auto simp: check_claims_def)
qed

lemma checkToken_Inr:
  "checkToken validators vt validateType errorMsg revoked rq = Inr (c, token) \<longleftrightarrow>
    bearer_token (rqAuthorization rq) = Inr token
    \<and> (\<exists>validate. validators vt = Some validate \<and> validate token = Inr c)
    \<and> check_claims validateType errorMsg revoked c = None"
proof (cases "bearer_token (rqAuthorization rq)")
  case (Inr t)
  show ?thesis
  proof (cases "validators vt")
    case (Some v)
    show ?thesis by (cases "v t") (auto simp: checkToken_def Inr Some split: option.split)
  qed (simp add: checkToken_def Inr)
qed (simp add: checkToken_def)

lemma not_revoked_None:
  "not_revoked (Some contains) c = None \<longleftrightarrow>
    (claim_text c ''token_type'' = Some TokenTypeAccess \<longrightarrow>
      (\<exists>jti. Option.bind (claim_text c ''jti'') uuid_parse = Some jti \<and> \<not> contains jti))"
  by (auto simp: not_revoked_def split: option.splits)

lemma RequireActiveAccount_None:
  "RequireActiveAccount env c = None \<longleftrightarrow> (\<exists>uid. subject_of c = Some uid \<and> gaStanding env uid = Inr AccountActive)"
  by (auto simp: RequireActiveAccount_def split: option.splits sum.splits)

lemma CheckAuthz_None:
  "CheckAuthz env rq c = None \<longleftrightarrow>
    (\<exists>uid. subject_of c = Some uid \<and> gaAuthz env uid (authz_action (rqMethod rq)) (rqPath rq) = Inr True)"
  by (auto simp: CheckAuthz_def subject_of_def split: option.splits sum.splits)

lemma RequireProjectMembership_None:
  "RequireProjectMembership env rq c = None \<longleftrightarrow>
    (\<forall>p. rqProjectID rq \<noteq> [] \<longrightarrow> uuid_parse (rqProjectID rq) = Some p \<longrightarrow>
      (\<exists>uid m. uuid_parse (claimString c ''sub'') = Some uid \<and> gaMembership env p uid = Inr m \<and> Admitted m))"
  by (auto simp: RequireProjectMembership_def split: option.splits sum.splits)

end
