(* ===== verification/ProjectsLists.thy ===== *)
theory ProjectsLists
  imports AccessGate Paging
begin

text \<open>
  The lists of projects and products: \<open>SelectByUserID\<close> and \<open>Select\<close> of
  \<open>repositorypg/projects.go\<close>, \<open>SelectByProjectID\<close> and \<open>Select\<close> of
  \<open>repositorypg/products.go\<close>, their use cases and the query parameters of
  \<open>handler/helpers.go\<close>.  A list is the paging of \<open>Paging\<close> over the rows the
  statement may see.  The parsers of expressions, what a filter matches, how a
  sort orders, the serial each row was given and what a query that failed was
  mapped to are arguments.
\<close>

section \<open>Inputs\<close>

record SelectProjectsInput =
  spPage :: SelectInput
  spUserID :: uuid
  spCallerID :: uuid

record SelectProductsInput =
  sqPage :: SelectInput
  sqCallerID :: uuid

definition SelectProjectsInput_Validate :: "listExpressions \<Rightarrow> SelectProjectsInput \<Rightarrow> verror option" where
  "SelectProjectsInput_Validate exprs i =
    (let errs = Add [] (ValidateUUID (spUserID i) 7 ''user_id'');
         errs = Add errs (Paginator_Validate (slPaginator (spPage i)))
     in errs_result (validateListExpressions errs
          (exprs\<lparr>le_sort := slSort (spPage i), le_filter := slFilter (spPage i), le_fields := slFields (spPage i)\<rparr>)))"

section \<open>Rows\<close>

text \<open>A product is listed with the id and the name of its project.\<close>

record product_item =
  qiName :: string
  qiDescription :: string
  qiProject :: uuid
  qiProjectName :: string

record list_call =
  lcProjectExprs :: listExpressions
  lcProductExprs :: listExpressions
  lcProjectSql :: "project_row list_sql"
  lcProductSql :: "product_item list_sql"
  lcSerial :: "uuid \<Rightarrow> 64 word"
  lcFailure :: "project_error option"

text \<open>The rows of \<open>view_projects_users\<close> that are an account's.\<close>

definition view_projects_users :: "list_call \<Rightarrow> uuid \<Rightarrow> projects_state \<Rightarrow> project_row item list" where
  "view_projects_users call u st =
    map (\<lambda>(p, r). \<lparr>itID = p, itSerial = lcSerial call p, itBody = r\<rparr>) (filter (\<lambda>(p, _). visible_project p u st) (psProjects st))"

text \<open>\<open>EXISTS (SELECT 1 FROM view_projects_users AS callers ...)\<close>\<close>

definition callers_project :: "list_call \<Rightarrow> uuid \<Rightarrow> projects_state \<Rightarrow> uuid \<Rightarrow> bool" where
  "callers_project call u st p = list_ex (\<lambda>r. itID r = p) (view_projects_users call u st)"

definition listed_product :: "list_call \<Rightarrow> projects_state \<Rightarrow> uuid \<times> product_row \<Rightarrow> product_item item" where
  "listed_product call st = (\<lambda>(q, r). \<lparr>itID = q, itSerial = lcSerial call q, itBody =
     (case project_of (pdProject r) st of
        None \<Rightarrow> \<lparr>qiName = pdName r, qiDescription = pdDescription r, qiProject = uuid_nil, qiProjectName = []\<rparr>
      | Some j \<Rightarrow> \<lparr>qiName = pdName r, qiDescription = pdDescription r, qiProject = pdProject r, qiProjectName = pjName j\<rparr>)\<rparr>)"

text \<open>The fields that were asked for, or all; the id is always there.\<close>

definition wanted :: "string \<Rightarrow> string \<Rightarrow> bool" where
  "wanted fs f = (fs = [] \<or> List.member (map TrimSpace (split_on (CHR '','') fs)) f)"

definition scanned_project :: "string \<Rightarrow> project_row item \<Rightarrow> uuid \<times> project_row" where
  "scanned_project fs it = (itID it, \<lparr>
     pjName = (if wanted fs ''name'' then pjName (itBody it) else []),
     pjDescription = (if wanted fs ''description'' then pjDescription (itBody it) else []),
     pjDisabled = (wanted fs ''disabled'' \<and> pjDisabled (itBody it)),
     pjSystem = (wanted fs ''system'' \<and> pjSystem (itBody it))\<rparr>)"

definition scanned_product :: "string \<Rightarrow> product_item item \<Rightarrow> uuid \<times> uuid \<times> string \<times> string \<times> string" where
  "scanned_product fs it = (itID it,
     if wanted fs ''project'' then qiProject (itBody it) else uuid_nil,
     if wanted fs ''project'' then qiProjectName (itBody it) else [],
     if wanted fs ''name'' then qiName (itBody it) else [],
     if wanted fs ''description'' then qiDescription (itBody it) else [])"

section \<open>Statements\<close>

definition list_failure :: "project_error option \<Rightarrow> select_error \<Rightarrow> project_error" where
  "list_failure failure e =
    (case e of
       SInput message \<Rightarrow> JInvalidInput [] message
     | SInvalid v \<Rightarrow> JValidation v
     | SCursor _ \<Rightarrow> JRaw
     | SQuery \<Rightarrow> (case failure of None \<Rightarrow> JRaw | Some e \<Rightarrow> e))"

definition page_of ::
  "listExpressions \<Rightarrow> 'a list_sql \<Rightarrow> (string \<Rightarrow> 'a item \<Rightarrow> 'b) \<Rightarrow> project_error option \<Rightarrow> SelectInput \<Rightarrow> 'a item list
    \<Rightarrow> project_error + ('b list \<times> Paginator)" where
  "page_of exprs sql scanned failure i rows =
    (case SelectPage exprs sql (failure \<noteq> None) (Some i) rows of
       Inl e \<Rightarrow> Inl (list_failure failure e)
     | Inr (items, paginator) \<Rightarrow> Inr (map (scanned (slFields i)) items, paginator))"

definition repo_SelectProjectsByUserID ::
  "list_call \<Rightarrow> SelectProjectsInput \<Rightarrow> projects_state \<Rightarrow> project_error + ((uuid \<times> project_row) list \<times> Paginator)" where
  "repo_SelectProjectsByUserID call i st =
    (case SelectProjectsInput_Validate (lcProjectExprs call) i of
       Some e \<Rightarrow> Inl (JValidation e)
     | None \<Rightarrow>
        if spCallerID i = uuid_nil then Inl (JInvalidInput [] (''a user'' @ [CHR 0x27] @ ''s projects were asked for with no caller''))
        else page_of (lcProjectExprs call) (lcProjectSql call) scanned_project (lcFailure call) (spPage i)
          (filter (\<lambda>r. callers_project call (spCallerID i) st (itID r)) (view_projects_users call (spUserID i) st)))"

definition repo_SelectProjects ::
  "list_call \<Rightarrow> SelectProjectsInput \<Rightarrow> projects_state \<Rightarrow> project_error + ((uuid \<times> project_row) list \<times> Paginator)" where
  "repo_SelectProjects call i st =
    (case SelectProjectsInput_Validate (lcProjectExprs call) i of
       Some e \<Rightarrow> Inl (JValidation e)
     | None \<Rightarrow> page_of (lcProjectExprs call) (lcProjectSql call) scanned_project (lcFailure call) (spPage i)
         (view_projects_users call (spUserID i) st))"

definition repo_SelectProductsByProjectID ::
  "list_call \<Rightarrow> uuid \<Rightarrow> uuid \<Rightarrow> SelectProductsInput \<Rightarrow> projects_state
    \<Rightarrow> project_error + ((uuid \<times> uuid \<times> string \<times> string \<times> string) list \<times> Paginator)" where
  "repo_SelectProductsByProjectID call p u i st =
    (if p = uuid_nil then Inl JInvalidProjectID
     else if u = uuid_nil then Inl JInvalidUserID
     else page_of (lcProductExprs call) (lcProductSql call) scanned_product (lcFailure call) (sqPage i)
       (map (listed_product call st) (filter (\<lambda>(_, r). pdProject r = p \<and> may_touch p u st) (psProducts st))))"

definition repo_SelectProducts ::
  "list_call \<Rightarrow> SelectProductsInput \<Rightarrow> projects_state
    \<Rightarrow> project_error + ((uuid \<times> uuid \<times> string \<times> string \<times> string) list \<times> Paginator)" where
  "repo_SelectProducts call i st =
    (case SelectInput_Validate (lcProductExprs call) (sqPage i) of
       Some e \<Rightarrow> Inl (JValidation e)
     | None \<Rightarrow>
        if sqCallerID i = uuid_nil then Inl (JInvalidInput [] ''the products list was asked for with no caller'')
        else page_of (lcProductExprs call) (lcProductSql call) scanned_product (lcFailure call) (sqPage i)
          (map (listed_product call st) (filter (\<lambda>(_, r). callers_project call (sqCallerID i) st (pdProject r)) (psProducts st))))"

section \<open>Use cases\<close>

definition Projects_ListByUserID ::
  "list_call \<Rightarrow> SelectProjectsInput option \<Rightarrow> projects_state \<Rightarrow> project_error + ((uuid \<times> project_row) list \<times> Paginator)" where
  "Projects_ListByUserID call input st =
    (case input of
       None \<Rightarrow> Inl (JInvalidInput [] ''input is nil'')
     | Some i \<Rightarrow> (case SelectProjectsInput_Validate (lcProjectExprs call) i of
         Some e \<Rightarrow> Inl (JValidation e)
       | None \<Rightarrow> repo_SelectProjectsByUserID call i st))"

definition Projects_List ::
  "list_call \<Rightarrow> SelectProjectsInput \<Rightarrow> projects_state \<Rightarrow> project_error + ((uuid \<times> project_row) list \<times> Paginator)" where
  "Projects_List call i st =
    (case SelectProjectsInput_Validate (lcProjectExprs call) i of
       Some e \<Rightarrow> Inl (JValidation e)
     | None \<Rightarrow> repo_SelectProjects call i st)"

definition Products_ListByProjectID ::
  "list_call \<Rightarrow> uuid \<Rightarrow> uuid \<Rightarrow> SelectProductsInput option \<Rightarrow> projects_state
    \<Rightarrow> project_error + ((uuid \<times> uuid \<times> string \<times> string \<times> string) list \<times> Paginator)" where
  "Products_ListByProjectID call p u input st =
    (case input of
       None \<Rightarrow> Inl (JInvalidInput [] ''input is nil'')
     | Some i \<Rightarrow>
        if \<not> IsUUIDV7 p then Inl JInvalidProjectID
        else (case SelectInput_Validate (lcProductExprs call) (sqPage i) of
          Some e \<Rightarrow> Inl (JValidation e)
        | None \<Rightarrow> repo_SelectProductsByProjectID call p u i st))"

definition Products_List ::
  "list_call \<Rightarrow> SelectProductsInput option \<Rightarrow> projects_state
    \<Rightarrow> project_error + ((uuid \<times> uuid \<times> string \<times> string \<times> string) list \<times> Paginator)" where
  "Products_List call input st =
    (case input of
       None \<Rightarrow> Inl (JInvalidInput [] ''input is nil'')
     | Some i \<Rightarrow> (case SelectInput_Validate (lcProductExprs call) (sqPage i) of
         Some e \<Rightarrow> Inl (JValidation e)
       | None \<Rightarrow> repo_SelectProducts call i st))"

section \<open>Query parameters\<close>

text \<open>The values of the query string as they came, and the host of the request.\<close>

record list_query =
  lqSort :: string
  lqFilter :: string
  lqFields :: string
  lqNextToken :: string
  lqPrevToken :: string
  lqLimit :: string
  lqHost :: string

definition PaginatorDefaultLimit :: int where "PaginatorDefaultLimit = 10"

definition normalizeFieldsQueryParam :: "string \<Rightarrow> string" where
  "normalizeFieldsQueryParam fs = filter (\<lambda>c. c \<noteq> CHR '' '') fs"

definition parseTokenQueryParams :: "TokenDirection \<Rightarrow> string \<Rightarrow> string \<Rightarrow> reply + string" where
  "parseTokenQueryParams dir message token =
    (if token = [] then Inr token
     else case DecodeToken token dir of
       Inl _ \<Rightarrow> Inl (Reply 400 (InvalidTokenText message))
     | Inr _ \<Rightarrow> Inr token)"

definition parseLimitQueryParams :: "string \<Rightarrow> reply + int" where
  "parseLimitQueryParams limit =
    (if limit = [] then Inr PaginatorDefaultLimit
     else case parse_int64 limit of
       None \<Rightarrow> Inl (Reply 400 (InvalidLimitText PaginatorMinLimit PaginatorMaxLimit))
     | Some n \<Rightarrow> if sint n \<le> 0 \<or> sint n > PaginatorMaxLimit then Inl (Reply 400 (InvalidLimitText PaginatorMinLimit PaginatorMaxLimit))
         else Inr (sint n))"

definition parseListQueryParams :: "list_query \<Rightarrow> reply + SelectInput" where
  "parseListQueryParams q =
    and_then (parseTokenQueryParams TokenDirectionNext ''invalid next_token'' (lqNextToken q)) (\<lambda>next.
    and_then (parseTokenQueryParams TokenDirectionPrev ''invalid prev_token'' (lqPrevToken q)) (\<lambda>prev.
    and_then (parseLimitQueryParams (lqLimit q)) (\<lambda>limit.
    Inr \<lparr>slSort = lqSort q, slFilter = lqFilter q, slFields = normalizeFieldsQueryParam (lqFields q),
      slPaginator = empty_paginator\<lparr>pgNextToken := next, pgPrevToken := prev, pgLimit := limit\<rparr>\<rparr>)))"

section \<open>What a list shows\<close>

lemma callers_project_visible:
  "callers_project call u st p \<longleftrightarrow> p \<in> fst ` set (psProjects st) \<and> visible_project p u st"
  by (force simp: callers_project_def view_projects_users_def list_ex_iff)

lemma visible_may_touch: "visible_project p u st \<Longrightarrow> may_touch p u st"
  by (auto simp: visible_project_def may_touch_def admin_flag_def split: option.splits)

end
