(* ===== verification/ProjectsRuns.thy ===== *)
theory ProjectsRuns
  imports Projects
begin

text \<open>
  Runs of the operations on projects and products, and what they do to the
  counter of a project's products: the rows never outnumber it except by the
  creates whose answer was lost, so the hard limit holds up to those.
\<close>

section \<open>Operations\<close>

datatype project_op =
    OpCreateProject "InsertProjectInput option"
  | OpUpdateProject "UpdateProjectInput option"
  | OpDeleteProject DeleteProjectInput
  | OpLinkMembers "LinkUsersToProjectInput option"
  | OpUnlinkMembers "LinkUsersToProjectInput option"
  | OpCreateProduct "InsertProductInput option"
  | OpUpdateProduct "UpdateProductInput option"
  | OpDeleteProduct "DeleteProductInput option"
  | OpRecount ResourcesLimitsScope string

fun project_answer :: "ecdsa \<Rightarrow> project_call \<Rightarrow> project_op \<Rightarrow> projects_state \<Rightarrow> project_error option \<times> projects_state" where
  "project_answer key call (OpCreateProject i) st = Projects_Create key call i st"
| "project_answer key call (OpUpdateProject i) st = Projects_UpdateByID call i st"
| "project_answer key call (OpDeleteProject i) st = Projects_DeleteByID key call i st"
| "project_answer key call (OpLinkMembers i) st = Projects_LinkUsers call i st"
| "project_answer key call (OpUnlinkMembers i) st = Projects_UnlinkUsers call i st"
| "project_answer key call (OpCreateProduct i) st = Products_Create key call i st"
| "project_answer key call (OpUpdateProduct i) st = Products_Update call i st"
| "project_answer key call (OpDeleteProduct i) st = Products_Delete key call i st"
| "project_answer key call (OpRecount scope rt) st =
    (let (r, db) = RecountUsage key (pcRelease call) scope rt (counted st) in
      (case r of Inl e \<Rightarrow> Some (JLimits e) | Inr _ \<Rightarrow> None, st\<lparr>psLimits := db\<rparr>))"

definition project_step :: "ecdsa \<Rightarrow> project_call \<times> project_op \<Rightarrow> projects_state \<Rightarrow> projects_state" where
  "project_step key o1 st = snd (project_answer key (fst o1) (snd o1) st)"

section \<open>Rows, counters and limits\<close>

definition products_key :: "uuid \<Rightarrow> ukey" where
  "products_key p = (''project'', ''products'', p)"

definition rows_in :: "uuid \<Rightarrow> projects_state \<Rightarrow> int" where
  "rows_in p st = int (length (filter (\<lambda>(_, r). pdProject r = p \<and> \<not> pdSystem r) (psProducts st)))"

definition usage_in :: "uuid \<Rightarrow> projects_state \<Rightarrow> int" where
  "usage_in p st = counter (products_key p) (psLimits st)"

definition limit_in :: "uuid \<Rightarrow> projects_state \<Rightarrow> int option" where
  "limit_in p st = hard_limit (products_key p) (psLimits st)"

text \<open>
  What one operation may do to the rows and their counter: \<open>lost\<close> is the
  number of rows it may write without being told so.
\<close>

definition charged :: "int \<Rightarrow> int option \<Rightarrow> int \<times> int \<Rightarrow> int \<times> int \<Rightarrow> bool" where
  "charged lost limit before after = (let (n, u) = before; (n', u') = after in
     (n' \<le> n \<and> u' = u)
   \<or> ((\<forall>h. limit = Some h \<longrightarrow> u + 1 \<le> h) \<and> u \<le> u' \<and> u' \<le> u + 1 \<and> n' - u' \<le> n - u + lost)
   \<or> (n' \<le> n - 1 \<and> u - 1 \<le> u' \<and> u' \<le> u)
   \<or> (n' = n \<and> u' = n)
   \<or> (n' = 0 \<and> u' = 0))"

text \<open>A service that charges the rows it writes to a counter with a limit.\<close>

locale counted_rows =
  fixes step :: "'o \<Rightarrow> 's \<Rightarrow> 's"
    and lost :: "'o \<Rightarrow> nat"
    and rows :: "'s \<Rightarrow> int"
    and usage :: "'s \<Rightarrow> int"
    and limit :: "'s \<Rightarrow> int option"
  assumes limit_kept: "limit (step o1 s) = limit s"
    and step_charged: "charged (int (lost o1)) (limit s) (rows s, usage s) (rows (step o1 s), usage (step o1 s))"
begin

definition within :: "int \<Rightarrow> 's \<Rightarrow> bool" where
  "within l s = (\<exists>e. 0 \<le> e \<and> e \<le> l \<and> rows s \<le> usage s + e \<and> (\<forall>h. limit s = Some h \<longrightarrow> usage s \<le> max 0 h + (l - e)))"

lemma within_start: "rows s \<le> usage s \<Longrightarrow> (\<And>h. limit s = Some h \<Longrightarrow> usage s \<le> h) \<Longrightarrow> within 0 s"
  by (fastforce simp: within_def)

lemma within_step:
  assumes w: "within l s"
  shows "within (l + int (lost o1)) (step o1 s)"
proof -
  from w obtain e where e: "0 \<le> e" "e \<le> l" "rows s \<le> usage s + e" and u: "\<And>h. limit s = Some h \<Longrightarrow> usage s \<le> max 0 h + (l - e)"
    by (auto simp: within_def)
  from step_charged[of o1 s] consider
      (kept) "rows (step o1 s) \<le> rows s" "usage (step o1 s) = usage s"
    | (made) "\<And>h. limit s = Some h \<Longrightarrow> usage s + 1 \<le> h" "usage s \<le> usage (step o1 s)" "usage (step o1 s) \<le> usage s + 1"
        "rows (step o1 s) - usage (step o1 s) \<le> rows s - usage s + int (lost o1)"
    | (gone) "rows (step o1 s) \<le> rows s - 1" "usage s - 1 \<le> usage (step o1 s)" "usage (step o1 s) \<le> usage s"
    | (recounted) "rows (step o1 s) = rows s" "usage (step o1 s) = rows s"
    | (dropped) "rows (step o1 s) = 0" "usage (step o1 s) = 0"
    unfolding charged_def Let_def by (simp only: prod.case) blast
  then show ?thesis
  proof cases
    case kept
    have "usage (step o1 s) \<le> max 0 h + (l + int (lost o1) - e)" if "limit s = Some h" for h
      using u[OF that] kept by linarith
    with e kept show ?thesis unfolding within_def limit_kept by (intro exI[of _ e]) auto
  next
    case made
    have "usage (step o1 s) \<le> max 0 h + (l + int (lost o1) - (e + int (lost o1)))" if "limit s = Some h" for h
      using made(1)[OF that] made(3) e by linarith
    with e made(4) show ?thesis unfolding within_def limit_kept by (intro exI[of _ "e + int (lost o1)"]) auto
  next
    case gone
    have "usage (step o1 s) \<le> max 0 h + (l + int (lost o1) - e)" if "limit s = Some h" for h
      using u[OF that] gone by linarith
    with e gone show ?thesis unfolding within_def limit_kept by (intro exI[of _ e]) auto
  next
    case recounted
    have "usage (step o1 s) \<le> max 0 h + (l + int (lost o1) - 0)" if "limit s = Some h" for h
      using u[OF that] recounted e by linarith
    with e recounted show ?thesis unfolding within_def limit_kept by (intro exI[of _ 0]) auto
  next
    case dropped
    with e show ?thesis unfolding within_def limit_kept by (intro exI[of _ 0]) auto
  qed
qed

lemma within_run: "within l s \<Longrightarrow> within (l + (\<Sum>o1\<leftarrow>os. int (lost o1))) (fold step os s)"
proof (induction os arbitrary: l s)
  case (Cons o1 os)
  from Cons.IH[OF within_step[OF Cons.prems]] show ?case by (simp add: add.assoc)
qed simp

lemma run_limit: "limit (fold step os s) = limit s"
  by (induction os arbitrary: s) (simp_all add: limit_kept)

lemma rows_bounded:
  assumes "rows s \<le> usage s" "limit s = Some h" "usage s \<le> h" "0 \<le> h"
  shows "rows (fold step os s) \<le> h + (\<Sum>o1\<leftarrow>os. int (lost o1))"
proof -
  have "within 0 s" using assms by (intro within_start) auto
  from within_run[OF this, of os] assms(2,4) show ?thesis unfolding within_def run_limit by fastforce
qed

end

section \<open>What each operation charges\<close>

lemma counted_simps [simp]: "usage_rows (counted st) = usage_rows (psLimits st)" "limit_rows (counted st) = limit_rows (psLimits st)"
  by (simp_all add: counted_def)

lemma counter_counted [simp]: "counter k (counted st) = counter k (psLimits st)"
  by (simp add: counter_def)

lemma hard_limit_counted [simp]: "hard_limit k (counted st) = hard_limit k (psLimits st)"
  by (rule hard_limit_cong) simp

text \<open>Only the limits of a state differ.\<close>

definition same_but_limits :: "projects_state \<Rightarrow> projects_state \<Rightarrow> bool" where
  "same_but_limits st st' = (\<exists>db. st' = st\<lparr>psLimits := db\<rparr> \<and> limit_rows db = limit_rows (psLimits st))"

lemma same_but_limits_tables:
  assumes "same_but_limits st st'"
  shows "psProducts st' = psProducts st" "psProjects st' = psProjects st" "psMembers st' = psMembers st" "psGrants st' = psGrants st"
    and "limit_in p st' = limit_in p st" "rows_in p st' = rows_in p st"
  using assms unfolding same_but_limits_def limit_in_def rows_in_def by (auto intro: hard_limit_cong)

lemma reserve_for_cases:
  assumes "reserve_for key call scope rt st = (r, st')"
  shows "same_but_limits st st' \<and>
    ((r \<noteq> None \<and> usage_in p st' = usage_in p st) \<or>
     (r = None \<and> (if ukey_of scope rt = products_key p
        then usage_in p st' = usage_in p st + 1 \<and> (\<forall>h. limit_in p st = Some h \<longrightarrow> usage_in p st + 1 \<le> h)
        else usage_in p st' = usage_in p st)))"
proof -
  obtain q db where q: "ReserveUsage key (pcReserve call) scope rt (counted st) = (q, db)" by fastforce
  have rs: "r = q" "st' = st\<lparr>psLimits := db\<rparr>" using assms q by (auto simp: reserve_for_def ReserveResourceSlot_def)
  from ReserveUsage_cases[OF q] show ?thesis
  proof
    assume "\<exists>e. q = Some e \<and> db = counted st"
    then show ?thesis unfolding rs same_but_limits_def usage_in_def by auto
  next
    let ?w = "wrote (ukey_of scope rt) (counter (ukey_of scope rt) (counted st) + 1) (createSignature key scope rt) (counted st) db"
    assume a: "q = None \<and> validateScope scope rt = None
       \<and> (hard_limit (ukey_of scope rt) (counted st) = None
          \<or> (\<exists>h. hard_limit (ukey_of scope rt) (counted st) = Some h \<and> counter (ukey_of scope rt) (counted st) + 1 \<le> h))
       \<and> (\<forall>row. map_of (usage_rows (counted st)) (ukey_of scope rt) = Some row \<longrightarrow> row_signed key (ukey_of scope rt) row)
       \<and> ?w"
    then have w: ?w by blast
    have "counter k db = counter k (psLimits st)" if "k \<noteq> ukey_of scope rt" for k
      using wrote_facts(3)[OF w that] by (simp add: counter_def)
    with a wrote_facts(1,2)[OF w] show ?thesis
      unfolding rs same_but_limits_def usage_in_def limit_in_def by auto
  qed
qed

lemma decrement_cases:
  assumes "DecrementUsage key pg scope rt (counted st) = (r, db)"
  shows "limit_rows db = limit_rows (psLimits st) \<and>
    (if ukey_of scope rt = products_key p
     then counter (products_key p) db = usage_in p st \<or> counter (products_key p) db = usage_in p st - 1
     else counter (products_key p) db = usage_in p st)"
  using DecrementUsage_cases[OF assms]
proof
  assume "db = counted st" then show ?thesis by (simp add: usage_in_def)
next
  let ?w = "wrote (ukey_of scope rt) (counter (ukey_of scope rt) (counted st) - 1) (createSignature key scope rt) (counted st) db"
  assume "r = None \<and> validateScope scope rt = None \<and> 0 < counter (ukey_of scope rt) (counted st) \<and> ?w"
  then have w: ?w by blast
  have "counter k db = counter k (psLimits st)" if "k \<noteq> ukey_of scope rt" for k
    using wrote_facts(3)[OF w that] by (simp add: counter_def)
  with wrote_facts(1,2)[OF w] show ?thesis unfolding usage_in_def by auto
qed

lemma release_for_cases:
  "same_but_limits st (release_for key call scope rt st) \<and>
    (if ukey_of scope rt = products_key p
     then usage_in p (release_for key call scope rt st) = usage_in p st \<or> usage_in p (release_for key call scope rt st) = usage_in p st - 1
     else usage_in p (release_for key call scope rt st) = usage_in p st)"
proof -
  obtain r db where q: "DecrementUsage key (pcRelease call) scope rt (counted st) = (r, db)" by fastforce
  from decrement_cases[OF q, of p] q show ?thesis
    unfolding release_for_def ReleaseResourceSlot_def same_but_limits_def usage_in_def by auto
qed

lemma warn_keeps: "limit_rows (WarnOnSoftLimit key pg scope rt db) = limit_rows db"
  "counter k (WarnOnSoftLimit key pg scope rt db) = counter k db"
  by (auto simp: WarnOnSoftLimit_def CheckUsage_def Let_def counter_def split: option.split sum.split)

text \<open>A create: the slot, the row, and the slot given back when the row failed.\<close>

lemma created_charged:
  assumes key: "ukey_of scope rt = products_key p"
    and wrt: "\<And>s r s'. write s = (r, s') \<Longrightarrow> psLimits s' = psLimits s
      \<and> rows_in p s' \<le> rows_in p s + (if r = None then 1 else lost)"
    and lost: "0 \<le> lost"
  shows "charged lost (limit_in p st) (rows_in p st, usage_in p st)
    (rows_in p (snd (created key call scope rt write st)), usage_in p (snd (created key call scope rt write st)))
    \<and> limit_in p (snd (created key call scope rt write st)) = limit_in p st"
proof -
  obtain r st1 where r: "reserve_for key call scope rt st = (r, st1)" by fastforce
  note c = reserve_for_cases[OF r, of p, unfolded assms(1)]
  then have t: "rows_in p st1 = rows_in p st" "limit_in p st1 = limit_in p st" using same_but_limits_tables by blast+
  show ?thesis
  proof (cases r)
    case (Some e)
    with c t r show ?thesis by (simp add: created_def charged_def)
  next
    case None
    with c have u: "usage_in p st1 = usage_in p st + 1" and h: "\<And>h. limit_in p st = Some h \<Longrightarrow> usage_in p st + 1 \<le> h"
      by (auto split: if_splits)
    obtain e st2 where w: "write st1 = (e, st2)" by fastforce
    note w2 = wrt[OF w]
    have l2: "limit_in p st2 = limit_in p st" "usage_in p st2 = usage_in p st + 1"
      using w2 t u by (simp_all add: limit_in_def usage_in_def)
    show ?thesis
    proof (cases e)
      case (Some x)
      let ?st3 = "release_for key call scope rt st2"
      have s: "snd (created key call scope rt write st) = ?st3" using r None w Some by (simp add: created_def)
      note f = release_for_cases[of st2 key call scope rt p, unfolded key]
      have "rows_in p ?st3 = rows_in p st2" "limit_in p ?st3 = limit_in p st2" using f same_but_limits_tables by blast+
      moreover have "usage_in p st \<le> usage_in p ?st3" "usage_in p ?st3 \<le> usage_in p st + 1" using f l2 by auto
      moreover have "rows_in p st2 \<le> rows_in p st + lost" using w2 Some t by simp
      ultimately show ?thesis unfolding s charged_def Let_def using h l2 by auto
    next
      case n: None
      have s: "snd (created key call scope rt write st) = st2\<lparr>psLimits := WarnOnSoftLimit key (pcWarn call) scope rt (counted st2)\<rparr>"
        (is "_ = ?st3") using r None w n by (simp add: created_def)
      have "usage_in p ?st3 = usage_in p st + 1" using l2 by (simp add: usage_in_def warn_keeps)
      moreover have "limit_in p ?st3 = limit_in p st"
        using hard_limit_cong[of "psLimits ?st3" "psLimits st2"] l2(1) by (simp add: limit_in_def warn_keeps)
      moreover have "rows_in p ?st3 \<le> rows_in p st + 1" using w2 n t by (simp add: rows_in_def)
      ultimately show ?thesis unfolding s charged_def Let_def using h lost by auto
    qed
  qed
qed

lemma created_elsewhere:
  assumes key: "ukey_of scope rt \<noteq> products_key p"
    and wrt: "\<And>s r s'. write s = (r, s') \<Longrightarrow> psLimits s' = psLimits s \<and> rows_in p s' \<le> rows_in p s"
  shows "charged 0 (limit_in p st) (rows_in p st, usage_in p st)
    (rows_in p (snd (created key call scope rt write st)), usage_in p (snd (created key call scope rt write st)))
    \<and> limit_in p (snd (created key call scope rt write st)) = limit_in p st"
proof -
  obtain r st1 where r: "reserve_for key call scope rt st = (r, st1)" by fastforce
  have c: "same_but_limits st st1" "usage_in p st1 = usage_in p st" using reserve_for_cases[OF r, of p] key by auto
  then have t: "rows_in p st1 = rows_in p st" "limit_in p st1 = limit_in p st" using same_but_limits_tables by blast+
  show ?thesis
  proof (cases r)
    case (Some e)
    with c t r show ?thesis by (simp add: created_def charged_def)
  next
    case None
    obtain e st2 where w: "write st1 = (e, st2)" by fastforce
    note w2 = wrt[OF w]
    have l2: "limit_in p st2 = limit_in p st" "usage_in p st2 = usage_in p st" "rows_in p st2 \<le> rows_in p st"
      using w2 t c by (simp_all add: limit_in_def usage_in_def)
    show ?thesis
    proof (cases e)
      case (Some x)
      let ?st3 = "release_for key call scope rt st2"
      note f = release_for_cases[of st2 key call scope rt p]
      have "rows_in p ?st3 = rows_in p st2" "limit_in p ?st3 = limit_in p st2" using f same_but_limits_tables by blast+
      with f key l2 r None w Some show ?thesis by (simp add: created_def charged_def)
    next
      case n: None
      let ?st3 = "st2\<lparr>psLimits := WarnOnSoftLimit key (pcWarn call) scope rt (counted st2)\<rparr>"
      have "limit_in p ?st3 = limit_in p st"
        using hard_limit_cong[of "psLimits ?st3" "psLimits st2"] l2(1) by (simp add: limit_in_def warn_keeps)
      moreover have "usage_in p ?st3 = usage_in p st" "rows_in p ?st3 \<le> rows_in p st"
        using l2 by (simp_all add: usage_in_def rows_in_def warn_keeps)
      ultimately show ?thesis using r None w n by (simp add: created_def charged_def)
    qed
  qed
qed

lemma repo_InsertProduct_rows:
  assumes "repo_InsertProduct pg i st = (r, st')"
  shows "psLimits st' = psLimits st
    \<and> rows_in q st' \<le> rows_in q st + (if q = npProjectID i \<and> (r = None \<or> pg = AckLost) then 1 else 0)"
  using assms
  by (auto simp: repo_InsertProduct_def answered_def rows_in_def split: option.splits pg_outcome.splits if_splits)

lemma repo_InsertProject_rows:
  assumes "repo_InsertProject pg i st = (r, st')"
  shows "psLimits st' = psLimits st \<and> rows_in q st' \<le> rows_in q st"
  using assms
  by (auto simp: repo_InsertProject_def answered_def rows_in_def split: sum.splits pg_outcome.splits if_splits)

lemma filter_AList_update:
  "map_of xs k = Some r \<Longrightarrow> P (k, r') = P (k, r) \<Longrightarrow> length (filter P (AList.update k r' xs)) = length (filter P xs)"
  by (induction xs) (auto split: if_splits)

lemma repo_UpdateProduct_rows:
  assumes "repo_UpdateProduct pg i st = (r, st')"
  shows "psLimits st' = psLimits st \<and> rows_in q st' = rows_in q st"
proof -
  have "length (filter (\<lambda>(_, r). pdProject r = q \<and> \<not> pdSystem r) (AList.update (udID i) (updated_product i row) (psProducts st)))
      = length (filter (\<lambda>(_, r). pdProject r = q \<and> \<not> pdSystem r) (psProducts st))"
    if "own_product (udID i) (udProjectID i) (udUserID i) st = Some row" for row
  proof (rule filter_AList_update)
    show "map_of (psProducts st) (udID i) = Some row"
      using that by (auto simp: own_product_def product_of_def split: option.splits if_splits)
  qed (simp add: updated_product_def)
  then show ?thesis using assms
    by (auto simp: repo_UpdateProduct_def answered_def rows_in_def split: option.splits pg_outcome.splits if_splits)
qed

lemma length_filter_less:
  assumes "map_of xs k = Some r" "P (k, r)"
  shows "length (filter P (filter (\<lambda>(q, _). q \<noteq> k) xs)) < length (filter P xs)"
proof -
  have le: "length (filter P (filter (\<lambda>(q, _). q \<noteq> k) ys)) \<le> length (filter P ys)" for ys
    by (induction ys) auto
  from map_of_SomeD[OF assms(1)] show ?thesis
  proof (induction xs)
    case (Cons y ys) then show ?case using assms(2) le[of ys] by (cases "y = (k, r)") auto
  qed simp
qed

lemma repo_DeleteProduct_rows:
  assumes "repo_DeleteProduct pg i st = (r, st')"
  shows "psLimits st' = psLimits st \<and> rows_in q st' \<le> rows_in q st - (if r = None \<and> q = ddProjectID i then 1 else 0)"
proof -
  have le: "length (filter P (filter (\<lambda>(q, _). q \<noteq> k) xs)) \<le> length (filter P xs)" for P k and xs :: "(uuid \<times> product_row) list"
    by (induction xs) auto
  have lt: "length (filter (\<lambda>(_, r). pdProject r = ddProjectID i \<and> \<not> pdSystem r) (filter (\<lambda>(q, _). q \<noteq> ddID i) (psProducts st)))
      < length (filter (\<lambda>(_, r). pdProject r = ddProjectID i \<and> \<not> pdSystem r) (psProducts st))"
    if "own_product (ddID i) (ddProjectID i) (ddUserID i) st = Some row" "\<not> pdSystem row" for row
    by (rule length_filter_less[of _ _ row])
      (use that in \<open>auto simp: own_product_def product_of_def split: option.splits if_splits\<close>)
  show ?thesis using assms le lt
    by (fastforce simp: repo_DeleteProduct_def answered_def rows_in_def split: option.splits pg_outcome.splits if_splits)
qed

lemma drop_project_rows:
  "rows_in q (drop_project p st) \<le> rows_in q st" "rows_in p (drop_project p st) = 0"
  "limit_in q (drop_project p st) = limit_in q st"
  "usage_in q (drop_project p st) = (if q = p then 0 else usage_in q st)"
proof -
  have le: "length (filter P (filter Q xs)) \<le> length (filter P xs)" for P Q and xs :: "(uuid \<times> product_row) list"
    by (induction xs) auto
  show "rows_in q (drop_project p st) \<le> rows_in q st" by (simp add: rows_in_def drop_project_def le del: filter_filter)
  show "rows_in p (drop_project p st) = 0" by (simp add: rows_in_def drop_project_def filter_empty_conv split_def)
  show "limit_in q (drop_project p st) = limit_in q st"
    unfolding limit_in_def by (rule hard_limit_cong) (simp add: drop_project_def)
  have "map_of (filter (\<lambda>((t, _, u), _). \<not> (t = ''project'' \<and> u = p)) xs) k = (if fst k = ''project'' \<and> snd (snd k) = p then None else map_of xs k)"
    for xs :: "(ukey \<times> usage_row) list" and k
    by (induction xs) auto
  then show "usage_in q (drop_project p st) = (if q = p then 0 else usage_in q st)"
    by (simp add: usage_in_def drop_project_def counter_def products_key_def)
qed

text \<open>A create of a product whose answer is lost writes a row the counter is not charged for.\<close>

definition lost_rows :: "project_call \<times> project_op \<Rightarrow> nat" where
  "lost_rows o1 = (case snd o1 of OpCreateProduct _ \<Rightarrow> if pcWrite (fst o1) = AckLost then 1 else 0 | _ \<Rightarrow> 0)"

definition charges :: "int \<Rightarrow> uuid \<Rightarrow> projects_state \<Rightarrow> projects_state \<Rightarrow> bool" where
  "charges lost p st st' = (charged lost (limit_in p st) (rows_in p st, usage_in p st) (rows_in p st', usage_in p st')
     \<and> limit_in p st' = limit_in p st)"

lemma charges_refl [simp]: "charges lost p st st"
  by (simp add: charges_def charged_def)

lemma charges_kept:
  "psLimits st' = psLimits st \<Longrightarrow> rows_in p st' \<le> rows_in p st \<Longrightarrow> charges lost p st st'"
  by (simp add: charges_def charged_def limit_in_def usage_in_def)

lemma charges_mono:
  assumes "charges 0 p st st'" "0 \<le> lost"
  shows "charges lost p st st'"
proof -
  have "a \<le> b + 0 \<Longrightarrow> a \<le> b + lost" for a b :: int using assms(2) by simp
  with assms(1) show ?thesis unfolding charges_def charged_def Let_def prod.case by blast
qed

lemma charges_gone:
  assumes "rows_in p st' \<le> rows_in p st - 1" "usage_in p st' = usage_in p st \<or> usage_in p st' = usage_in p st - 1"
    and "limit_in p st' = limit_in p st"
  shows "charges lost p st st'"
proof -
  have "usage_in p st - 1 \<le> usage_in p st' \<and> usage_in p st' \<le> usage_in p st" using assms(2) by linarith
  with assms(1,3) show ?thesis unfolding charges_def charged_def Let_def prod.case by blast
qed

lemma products_key_iff [simp]:
  "ukey_of (user_scope u) rt \<noteq> products_key p" "ukey_of (project_scope q) ''products'' = products_key p \<longleftrightarrow> q = p"
  by (auto simp: ukey_of_def user_scope_def project_scope_def products_key_def scope_uuid_def)

lemma Products_Create_charges:
  "charges (if pcWrite call = AckLost then 1 else 0) p st (snd (Products_Create key call input st))"
proof (cases input)
  case (Some i0)
  define i where "i = i0\<lparr>npID := EnsureUUIDV7 (pcFresh call) (npID i0)\<rparr>"
  show ?thesis
  proof (cases "InsertProductInput_Validate i")
    case None
    have s: "Products_Create key call input st
        = created key call (project_scope (npProjectID i)) ''products'' (repo_InsertProduct (pcWrite call) i) st"
      unfolding Products_Create_def Some option.case Let_def i_def[symmetric] None ..
    show ?thesis
    proof (cases "npProjectID i = p")
      case True
      show ?thesis unfolding s charges_def
        by (rule created_charged) (use True in \<open>auto dest!: repo_InsertProduct_rows[where q=p] split: if_splits\<close>)
    next
      case False
      have "charges 0 p st (snd (created key call (project_scope (npProjectID i)) ''products'' (repo_InsertProduct (pcWrite call) i) st))"
        unfolding charges_def by (rule created_elsewhere) (use False in \<open>auto dest!: repo_InsertProduct_rows[where q=p] split: if_splits\<close>)
      then show ?thesis unfolding s by (rule charges_mono) simp
    qed
  qed (simp add: Products_Create_def Some i_def[symmetric] Let_def)
qed (simp add: Products_Create_def)

lemma Projects_Create_charges: "charges 0 p st (snd (Projects_Create key call input st))"
proof (cases input)
  case (Some i0)
  show ?thesis
  proof (cases "InsertProjectInput_Validate (i0\<lparr>ijID := EnsureUUIDV7 (pcFresh call) (ijID i0)\<rparr>)")
    case (Inr i)
    have "charges 0 p st (snd (created key call (user_scope (ijUserID i)) ''projects'' (repo_InsertProject (pcWrite call) i) st))"
      unfolding charges_def by (rule created_elsewhere) (auto dest!: repo_InsertProject_rows[where q=p])
    then show ?thesis by (simp add: Projects_Create_def Some Inr)
  qed (simp add: Projects_Create_def Some)
qed (simp add: Projects_Create_def)

lemma Products_Delete_charges: "charges 0 p st (snd (Products_Delete key call input st))"
proof (cases input)
  case (Some i)
  obtain r st1 where w: "repo_DeleteProduct (pcWrite call) i st = (r, st1)" by fastforce
  note d = repo_DeleteProduct_rows[OF w, of p]
  then have k: "charges 0 p st st1" by (intro charges_kept) (auto split: if_splits)
  let ?st2 = "release_for key call (project_scope (ddProjectID i)) ''products'' st1"
  note f = release_for_cases[of st1 key call "project_scope (ddProjectID i)" "''products''" p]
  then have t: "rows_in p ?st2 = rows_in p st1" "limit_in p ?st2 = limit_in p st1" using same_but_limits_tables by blast+
  have l: "limit_in p st1 = limit_in p st" "usage_in p st1 = usage_in p st" using d by (simp_all add: limit_in_def usage_in_def)
  have "charges 0 p st ?st2" if r: "r = None"
  proof (cases "ddProjectID i = p")
    case True
    show ?thesis by (rule charges_gone) (use True d f t l r in auto)
  next
    case False
    with f t l k show ?thesis by (simp add: charges_def)
  qed
  with k show ?thesis using Some w by (simp add: Products_Delete_def split: option.split)
qed (simp add: Products_Delete_def)

lemma repo_DeleteProject_cases:
  "repo_DeleteProject pg i st = (r, st') \<Longrightarrow> st' = st \<or> st' = drop_project (djID i) st"
  by (auto simp: repo_DeleteProject_def answered_def split: option.splits pg_outcome.splits if_splits)

lemma drop_charges: "charges 0 p st (drop_project q st)"
  using drop_project_rows(1,3,4)[of p q st] drop_project_rows(2)[of p st] by (auto simp: charges_def charged_def)

lemma Projects_DeleteByID_charges: "charges 0 p st (snd (Projects_DeleteByID key call i st))"
proof -
  obtain r st1 where w: "repo_DeleteProject (pcWrite call) i st = (r, st1)" by fastforce
  have k: "charges 0 p st st1" using repo_DeleteProject_cases[OF w] drop_charges by auto
  obtain e db where q: "DecrementUsage key (pcRelease call) (user_scope (djUserID i)) ''projects'' (counted st1) = (e, db)" by fastforce
  from decrement_cases[OF q, of p] have "limit_rows db = limit_rows (psLimits st1)" "counter (products_key p) db = usage_in p st1"
    by simp_all
  then have "rows_in p (st1\<lparr>psLimits := db\<rparr>) = rows_in p st1" "usage_in p (st1\<lparr>psLimits := db\<rparr>) = usage_in p st1"
    "limit_in p (st1\<lparr>psLimits := db\<rparr>) = limit_in p st1"
    using hard_limit_cong[of db "psLimits st1"] by (simp_all add: rows_in_def usage_in_def limit_in_def)
  then have "charges 0 p st (st1\<lparr>psLimits := db\<rparr>)" using k by (simp add: charges_def)
  with k w q show ?thesis by (simp add: Projects_DeleteByID_def split: option.split)
qed

lemma counted_products: "resourceCountQueries ''products'' = Some cnt \<Longrightarrow> cnt p (counted st) = rows_in p st"
  by (auto simp: resourceCountQueries_def counted_def rows_in_def filter_map o_def split_def)

lemma recount_charges:
  assumes "RecountUsage key pg scope rt (counted st) = (r, db)"
  shows "charges 0 p st (st\<lparr>psLimits := db\<rparr>)"
proof (cases "use_case_guard scope rt")
  case (Some e)
  with assms have "db = counted st" by (simp add: RecountUsage_def)
  then show ?thesis by (simp add: charges_def charged_def rows_in_def usage_in_def limit_in_def)
next
  case None
  obtain q db1 where q: "repo_RecountUsage pg scope rt (createSignature key scope rt) (counted st) = (q, db1)" by fastforce
  have db: "usage_rows db = usage_rows db1" "limit_rows db = limit_rows db1"
    using assms None q by (auto simp: RecountUsage_def split: sum.splits if_splits)
  then have same: "rows_in p (st\<lparr>psLimits := db\<rparr>) = rows_in p st" "usage_in p (st\<lparr>psLimits := db\<rparr>) = counter (products_key p) db1"
    by (simp_all add: rows_in_def usage_in_def counter_def)
  have lim: "limit_in p (st\<lparr>psLimits := db\<rparr>) = limit_in p st" if "limit_rows db1 = limit_rows (psLimits st)"
    using hard_limit_cong[of db "psLimits st"] db that by (simp add: limit_in_def)
  from repo_RecountUsage_cases[OF q] show ?thesis
  proof
    assume "\<exists>e. q = Inl e \<and> db1 = counted st"
    with same lim show ?thesis by (simp add: charges_def charged_def usage_in_def)
  next
    assume "validateScope scope rt = None \<and> (\<exists>cnt. resourceCountQueries rt = Some cnt
         \<and> wrote (ukey_of scope rt) (cnt (scope_uuid scope) (counted st)) (createSignature key scope rt) (counted st) db1
         \<and> q = Inr \<lparr>Previous = counter (ukey_of scope rt) (counted st), Actual = cnt (scope_uuid scope) (counted st),
               HadUsageRow = (map_of (usage_rows (counted st)) (ukey_of scope rt) \<noteq> None)\<rparr>)"
    then obtain cnt where c: "resourceCountQueries rt = Some cnt"
      and w: "wrote (ukey_of scope rt) (cnt (scope_uuid scope) (counted st)) (createSignature key scope rt) (counted st) db1" by blast
    have l: "limit_in p (st\<lparr>psLimits := db\<rparr>) = limit_in p st" using wrote_facts(1)[OF w] by (intro lim) simp
    show ?thesis
    proof (cases "ukey_of scope rt = products_key p")
      case True
      then have "rt = ''products''" "scope_uuid scope = p" by (simp_all add: ukey_of_def products_key_def)
      with c have "cnt (scope_uuid scope) (counted st) = rows_in p st" by (simp add: counted_products)
      with wrote_facts(2)[OF w] True same l show ?thesis by (simp add: charges_def charged_def)
    next
      case False
      with wrote_facts(3)[OF w, of "products_key p"] have "counter (products_key p) db1 = usage_in p st"
        by (simp add: counter_def usage_in_def)
      with same l show ?thesis by (simp add: charges_def charged_def)
    qed
  qed
qed

lemma update_charges:
  "charges 0 p st (snd (Projects_UpdateByID call i1 st))" "charges 0 p st (snd (Projects_LinkUsers call i2 st))"
  "charges 0 p st (snd (Projects_UnlinkUsers call i2 st))"
  by (auto intro!: charges_kept simp: Projects_UpdateByID_def repo_UpdateProject_def Projects_LinkUsers_def repo_LinkProjectUsers_def
      Projects_UnlinkUsers_def repo_UnlinkProjectUsers_def answered_def rows_in_def split: option.split sum.split pg_outcome.split)

lemma Products_Update_charges: "charges 0 p st (snd (Products_Update call input st))"
proof (cases input)
  case (Some i)
  obtain r st1 where w: "repo_UpdateProduct (pcWrite call) i st = (r, st1)" by fastforce
  from repo_UpdateProduct_rows[OF w, of p] have "charges 0 p st st1" by (intro charges_kept) simp_all
  with Some w show ?thesis by (simp add: Products_Update_def split: option.split)
qed (simp add: Products_Update_def)

lemma step_charges: "charges (int (lost_rows o1)) p st (project_step key o1 st)"
proof -
  obtain call op where o1: "o1 = (call, op)" by fastforce
  show ?thesis
  proof (cases op)
    case (OpRecount scope rt)
    obtain r db where "RecountUsage key (pcRelease call) scope rt (counted st) = (r, db)" by fastforce
    with recount_charges[OF this, of p] show ?thesis by (simp add: o1 OpRecount project_step_def lost_rows_def)
  next
    case (OpCreateProduct i)
    with Products_Create_charges[of call p st key i] show ?thesis
      by (cases "pcWrite call") (simp_all add: o1 project_step_def lost_rows_def)
  qed (simp_all add: o1 project_step_def lost_rows_def Projects_Create_charges update_charges Projects_DeleteByID_charges
      Products_Update_charges Products_Delete_charges)
qed

interpretation products: counted_rows "project_step key" lost_rows "rows_in p" "usage_in p" "limit_in p" for key p
  by unfold_locales (use step_charges[of _ p _ key] in \<open>auto simp: charges_def\<close>)

text \<open>
  C21. A project never holds more products than its hard limit allows, whatever
  is asked of projects and products, whichever statements fail and however the
  counters are recounted in between, but for the creates whose answer was lost
  on the way: each of those may leave one product over.
\<close>

theorem products_within_the_hard_limit:
  assumes "limit_in p st = Some h" "0 \<le> h" "rows_in p st \<le> usage_in p st" "usage_in p st \<le> h"
  shows "rows_in p (fold (project_step key) ops st) \<le> h + (\<Sum>o1\<leftarrow>ops. int (lost_rows o1))"
  by (rule products.rows_bounded) (use assms in auto)

end
