(* ===== verification/ProjectsApi.thy ===== *)
theory ProjectsApi
  imports ProjectsLists ProjectsRuns
begin

text \<open>
  The routes of projects and products: \<open>handler/projects.go\<close>,
  \<open>handler/products.go\<close> and their payloads behind the gate.  A body is what the
  JSON decoder made of it.  No
  sequence of requests by accounts outside a project changes anything of it,
  and no answer tells them whether it is there, but for a create that names
  its id.
\<close>

section \<open>Bodies and path values\<close>

text \<open>How decoding fails, as \<open>WriteDecodeError\<close> tells it apart.\<close>

datatype decode_error = BodyTooLarge | InvalidRequest string | WrongType string | BadUUID | Undecodable

fun WriteDecodeError :: "decode_error \<Rightarrow> reply" where
  "WriteDecodeError BodyTooLarge = Reply 413 (Text ''request body too large'')"
| "WriteDecodeError (InvalidRequest message) = Reply 400 (Text (''failed to decode request body: '' @ message))"
| "WriteDecodeError (WrongType field) = Reply 400 (Text (''failed to decode request body: field '' @ [CHR 0x27] @ field @ [CHR 0x27] @ '' has the wrong type''))"
| "WriteDecodeError BadUUID = Reply 400 (Text ''failed to decode request body: invalid uuid'')"
| "WriteDecodeError Undecodable = Reply 400 (Text ''failed to decode request body'')"

definition uuidParseReason :: "string \<Rightarrow> string" where
  "uuidParseReason input =
    (if length input \<in> {32, 36, 38, 45} then ''invalid UUID format'' else ''invalid UUID length: '' @ itoa (int (length input)))"

definition parseUUIDQueryParams :: "string \<Rightarrow> reply + uuid" where
  "parseUUIDQueryParams input =
    (if input = [] then Inl (Reply 400 (InvalidUUIDText [] ''input is empty''))
     else case uuid_parse input of
       None \<Rightarrow> Inl (Reply 400 (InvalidUUIDText input (uuidParseReason input)))
     | Some u \<Rightarrow> if IsUUIDV7 u then Inr u else Inl (Reply 400 (InvalidUUIDText input ''input is nil'')))"

text \<open>The caller of a request that passed the gate; its absence is a 500.\<close>

definition getUserIDFromContext :: "claims \<Rightarrow> bool \<Rightarrow> reply + uuid" where
  "getUserIDFromContext c callerGone = (case subject_of c of None \<Rightarrow> Inl (WriteInternalError callerGone) | Some uid \<Rightarrow> Inr uid)"

record CreateProjectRequest =
  cjID :: uuid
  cjName :: string
  cjDescription :: string

record UpdateProjectRequest =
  vjName :: "string option"
  vjDescription :: "string option"
  vjDisabled :: "bool option"

record UpdateProductRequest =
  vdName :: "string option"
  vdDescription :: "string option"

text \<open>The payloads of a project and of a product differ in the widths alone.\<close>

definition CreateRequest_Validate :: "int \<Rightarrow> CreateProjectRequest \<Rightarrow> verror + CreateProjectRequest" where
  "CreateRequest_Validate width i =
    (let errs = Add [] (ValidateUUID (cjID i) 7 ''id'');
         (errs, name) = check_field (\<lambda>s. ValidateString s (text_options ''name'' width)) (cjName i) errs;
         (errs, description) = check_field (\<lambda>s. ValidateString s (text_options ''description'' 1024)) (cjDescription i) errs
     in if HasErrors errs then Inl (VMany errs) else Inr (i\<lparr>cjName := name, cjDescription := description\<rparr>))"

definition nothing_to_update :: verror where
  "nothing_to_update = VOne (verr ''request'' ''at least one field must be provided for update'' ''REQUIRED_FIELD'')"

definition UpdateProjectRequest_Validate :: "UpdateProjectRequest \<Rightarrow> verror + UpdateProjectRequest" where
  "UpdateProjectRequest_Validate i =
    (if i = \<lparr>vjName = None, vjDescription = None, vjDisabled = None\<rparr> then Inl nothing_to_update
     else let (errs, name) = check_opt (\<lambda>s. ValidateString s (text_options ''name'' 70)) (vjName i) [];
         (errs, description) = check_opt (\<lambda>s. ValidateString s (text_options ''description'' 1024)) (vjDescription i) errs
     in if HasErrors errs then Inl (VMany errs) else Inr (i\<lparr>vjName := name, vjDescription := description\<rparr>))"

definition UpdateProductRequest_Validate :: "UpdateProductRequest \<Rightarrow> verror + UpdateProductRequest" where
  "UpdateProductRequest_Validate i =
    (if i = \<lparr>vdName = None, vdDescription = None\<rparr> then Inl nothing_to_update
     else let (errs, name) = check_opt (\<lambda>s. ValidateString s (text_options ''name'' 255)) (vdName i) [];
         (errs, description) = check_opt (\<lambda>s. ValidateString s (text_options ''description'' 1024)) (vdDescription i) errs
     in if HasErrors errs then Inl (VMany errs) else Inr (i\<lparr>vdName := name, vdDescription := description\<rparr>))"

definition LinkUsersRequest_Validate :: "uuid list \<Rightarrow> verror option" where
  "LinkUsersRequest_Validate us =
    (if us = [] then Some (VMany (AddError [] ''user_ids'' ''at least one user ID is required'' ''REQUIRED''))
     else errs_result (check_ids ''user_ids'' us []))"

section \<open>Answers\<close>

text \<open>The arms a handler has for the errors of its use case; anything else is a 500.\<close>

definition arms :: "(project_error \<Rightarrow> int option) \<Rightarrow> bool \<Rightarrow> project_error \<Rightarrow> reply" where
  "arms arm callerGone e =
    (case arm e of None \<Rightarrow> WriteInternalError callerGone | Some status \<Rightarrow> Reply status (ErrorText e))"

fun create_project_arm :: "project_error \<Rightarrow> int option" where
  "create_project_arm (JLimits (HardLimitReachedError _ _ _)) = Some 409"
| "create_project_arm (JProjectExists _) = Some 409"
| "create_project_arm _ = None"

fun get_project_arm :: "project_error \<Rightarrow> int option" where
  "get_project_arm (JProjectNotFound _) = Some 404"
| "get_project_arm _ = None"

fun update_project_arm :: "project_error \<Rightarrow> int option" where
  "update_project_arm (JProjectExists _) = Some 409"
| "update_project_arm (JProjectNotFound _) = Some 404"
| "update_project_arm (JSystemProject _) = Some 403"
| "update_project_arm _ = None"

fun delete_project_arm :: "project_error \<Rightarrow> int option" where
  "delete_project_arm (JProjectNotFound _) = Some 404"
| "delete_project_arm (JSystemProject _) = Some 403"
| "delete_project_arm _ = None"

fun link_users_arm :: "project_error \<Rightarrow> int option" where
  "link_users_arm (JProjectExists _) = Some 409"
| "link_users_arm (JProjectNotFound _) = Some 404"
| "link_users_arm _ = None"

text \<open>\<open>writeProductError\<close> and, for the writes, \<open>writeConflict\<close> before it.\<close>

fun product_arm :: "project_error \<Rightarrow> int option" where
  "product_arm (JProductNotFound _) = Some 404"
| "product_arm (JProjectNotFound _) = Some 404"
| "product_arm (JValidation (VMany _)) = Some 400"
| "product_arm _ = None"

fun write_product_arm :: "project_error \<Rightarrow> int option" where
  "write_product_arm (JLimits (HardLimitReachedError _ _ _)) = Some 409"
| "write_product_arm (JProductExists _) = Some 409"
| "write_product_arm e = product_arm e"

definition wrote_reply :: "(project_error \<Rightarrow> int option) \<Rightarrow> bool \<Rightarrow> int \<Rightarrow> string
    \<Rightarrow> project_error option \<times> projects_state \<Rightarrow> reply \<times> projects_state" where
  "wrote_reply arm callerGone status message result =
    (case fst result of None \<Rightarrow> Reply status (Text message) | Some e \<Rightarrow> arms arm callerGone e, snd result)"

text \<open>\<open>writeListError\<close>: what the caller got wrong, and anything else is a 500.\<close>

fun list_arm :: "project_error \<Rightarrow> int option" where
  "list_arm (JValidation _) = Some 400"
| "list_arm (JInvalidInput _ _) = Some 400"
| "list_arm _ = None"

section \<open>The handlers\<close>

datatype project_route =
    RCreateProject "decode_error + CreateProjectRequest"
  | RGetProject
  | RUpdateProject "decode_error + UpdateProjectRequest"
  | RDeleteProject
  | RLinkUsers "decode_error + uuid list"
  | RUnlinkUsers "decode_error + uuid list"
  | RCreateProduct "decode_error + CreateProjectRequest"
  | RGetProduct
  | RUpdateProduct "decode_error + UpdateProductRequest"
  | RDeleteProduct
  | RListProjects list_query
  | RListUserProjects string list_query
  | RListProducts list_query
  | RListProjectProducts list_query

definition decoded :: "decode_error + 'b \<Rightarrow> reply + 'b" where
  "decoded body = (case body of Inl e \<Rightarrow> Inl (WriteDecodeError e) | Inr b \<Rightarrow> Inr b)"

definition validated :: "verror + 'b \<Rightarrow> reply + 'b" where
  "validated r = (case r of Inl e \<Rightarrow> Inl (Reply 400 (ValidationText e)) | Inr b \<Rightarrow> Inr b)"

text \<open>A handler that is refused before its use case changes nothing.\<close>

definition with_input :: "reply + 'i \<Rightarrow> ('i \<Rightarrow> projects_state \<Rightarrow> reply \<times> projects_state) \<Rightarrow> projects_state \<Rightarrow> reply \<times> projects_state" where
  "with_input r f st = (case r of Inl refusal \<Rightarrow> (refusal, st) | Inr i \<Rightarrow> f i st)"

definition productPathParams :: "http_request \<Rightarrow> claims \<Rightarrow> bool \<Rightarrow> bool \<Rightarrow> reply + (uuid \<times> uuid \<times> uuid)" where
  "productPathParams rq c callerGone withProductID =
    and_then (getUserIDFromContext c callerGone) (\<lambda>u.
    and_then (parseUUIDQueryParams (rqProjectID rq)) (\<lambda>p.
    if withProductID then and_then (parseUUIDQueryParams (rqProductID rq)) (\<lambda>q. Inr (u, p, q)) else Inr (u, p, uuid_nil)))"

definition projectPathParams :: "http_request \<Rightarrow> claims \<Rightarrow> bool \<Rightarrow> reply + (uuid \<times> uuid)" where
  "projectPathParams rq c callerGone =
    and_then (getUserIDFromContext c callerGone) (\<lambda>u. and_then (parseUUIDQueryParams (rqProjectID rq)) (\<lambda>p. Inr (u, p)))"

record api_call =
  apKey :: ecdsa
  apCall :: project_call
  apFresh :: uuid
  apCached :: "uuid \<times> uuid \<Rightarrow> project_row option"
  apGone :: bool
  apLists :: list_call

definition h_create_project :: "api_call \<Rightarrow> claims \<Rightarrow> decode_error + CreateProjectRequest \<Rightarrow> projects_state \<Rightarrow> reply \<times> projects_state" where
  "h_create_project call c body = with_input
    (and_then (getUserIDFromContext c (apGone call)) (\<lambda>u.
     and_then (decoded body) (\<lambda>req.
     and_then (validated (CreateRequest_Validate 70 (req\<lparr>cjID := EnsureUUIDV7 (apFresh call) (cjID req)\<rparr>))) (\<lambda>req.
     Inr \<lparr>ijName = cjName req, ijDescription = cjDescription req, ijID = cjID req, ijUserID = u, ijDisabled = False\<rparr>))))
    (\<lambda>i st. wrote_reply create_project_arm (apGone call) 201 ''Project created successfully''
      (Projects_Create (apKey call) (apCall call) (Some i) st))"

definition h_get_project :: "api_call \<Rightarrow> http_request \<Rightarrow> claims \<Rightarrow> projects_state \<Rightarrow> reply \<times> projects_state" where
  "h_get_project call rq c = with_input (projectPathParams rq c (apGone call))
    (\<lambda>(u, p) st. (case Projects_GetByIDByUserID (apCall call) (apCached call) p u st of
        Inl e \<Rightarrow> arms get_project_arm (apGone call) e
      | Inr r \<Rightarrow> Reply 200 (ProjectBody r), st))"

definition h_update_project :: "api_call \<Rightarrow> http_request \<Rightarrow> claims \<Rightarrow> decode_error + UpdateProjectRequest \<Rightarrow> projects_state \<Rightarrow> reply \<times> projects_state" where
  "h_update_project call rq c body = with_input
    (and_then (projectPathParams rq c (apGone call)) (\<lambda>(u, p).
     and_then (decoded body) (\<lambda>req.
     and_then (validated (UpdateProjectRequest_Validate req)) (\<lambda>req.
     Inr \<lparr>ujName = vjName req, ujDescription = vjDescription req, ujDisabled = vjDisabled req, ujID = p, ujUserID = u\<rparr>))))
    (\<lambda>i st. wrote_reply update_project_arm (apGone call) 200 ''Project updated successfully''
      (Projects_UpdateByID (apCall call) (Some i) st))"

definition h_delete_project :: "api_call \<Rightarrow> http_request \<Rightarrow> claims \<Rightarrow> projects_state \<Rightarrow> reply \<times> projects_state" where
  "h_delete_project call rq c = with_input (projectPathParams rq c (apGone call))
    (\<lambda>(u, p) st. wrote_reply delete_project_arm (apGone call) 200 ''Project deleted successfully''
      (Projects_DeleteByID (apKey call) (apCall call) \<lparr>djID = p, djUserID = u\<rparr> st))"

text \<open>The handlers of the memberships do not read the caller.\<close>

definition members_input :: "http_request \<Rightarrow> decode_error + uuid list \<Rightarrow> reply + LinkUsersToProjectInput" where
  "members_input rq body =
    and_then (parseUUIDQueryParams (rqProjectID rq)) (\<lambda>p.
    and_then (decoded body) (\<lambda>us.
    case LinkUsersRequest_Validate us of
      Some e \<Rightarrow> Inl (Reply 400 (ValidationText e))
    | None \<Rightarrow> Inr \<lparr>ljUserIDs = us, ljProjectID = p\<rparr>))"

definition h_link_users :: "api_call \<Rightarrow> http_request \<Rightarrow> decode_error + uuid list \<Rightarrow> projects_state \<Rightarrow> reply \<times> projects_state" where
  "h_link_users call rq body = with_input (members_input rq body)
    (\<lambda>i st. wrote_reply link_users_arm (apGone call) 200 ''Users linked to project successfully''
      (Projects_LinkUsers (apCall call) (Some i) st))"

definition h_unlink_users :: "api_call \<Rightarrow> http_request \<Rightarrow> decode_error + uuid list \<Rightarrow> projects_state \<Rightarrow> reply \<times> projects_state" where
  "h_unlink_users call rq body = with_input (members_input rq body)
    (\<lambda>i st. wrote_reply get_project_arm (apGone call) 200 ''Users unlinked from project successfully''
      (Projects_UnlinkUsers (apCall call) (Some i) st))"

definition h_create_product :: "api_call \<Rightarrow> http_request \<Rightarrow> claims \<Rightarrow> decode_error + CreateProjectRequest \<Rightarrow> projects_state \<Rightarrow> reply \<times> projects_state" where
  "h_create_product call rq c body = with_input
    (and_then (productPathParams rq c (apGone call) False) (\<lambda>(u, p, _).
     and_then (decoded body) (\<lambda>req.
     and_then (validated (CreateRequest_Validate 255 (req\<lparr>cjID := EnsureUUIDV7 (apFresh call) (cjID req)\<rparr>))) (\<lambda>req.
     Inr \<lparr>npName = cjName req, npDescription = cjDescription req, npProjectID = p, npUserID = u, npID = cjID req\<rparr>))))
    (\<lambda>i st. wrote_reply write_product_arm (apGone call) 201 ''Product created successfully''
      (Products_Create (apKey call) (apCall call) (Some i) st))"

definition h_get_product :: "api_call \<Rightarrow> http_request \<Rightarrow> claims \<Rightarrow> projects_state \<Rightarrow> reply \<times> projects_state" where
  "h_get_product call rq c = with_input (productPathParams rq c (apGone call) True)
    (\<lambda>(u, p, q) st. (case Products_Get (apCall call) q p u st of
        Inl e \<Rightarrow> arms product_arm (apGone call) e
      | Inr r \<Rightarrow> Reply 200 (ProductBody r), st))"

definition h_update_product :: "api_call \<Rightarrow> http_request \<Rightarrow> claims \<Rightarrow> decode_error + UpdateProductRequest \<Rightarrow> projects_state \<Rightarrow> reply \<times> projects_state" where
  "h_update_product call rq c body = with_input
    (and_then (productPathParams rq c (apGone call) True) (\<lambda>(u, p, q).
     and_then (decoded body) (\<lambda>req.
     and_then (validated (UpdateProductRequest_Validate req)) (\<lambda>req.
     Inr \<lparr>udName = vdName req, udDescription = vdDescription req, udID = q, udProjectID = p, udUserID = u\<rparr>))))
    (\<lambda>i st. wrote_reply write_product_arm (apGone call) 200 ''Product updated successfully''
      (Products_Update (apCall call) (Some i) st))"

definition h_delete_product :: "api_call \<Rightarrow> http_request \<Rightarrow> claims \<Rightarrow> projects_state \<Rightarrow> reply \<times> projects_state" where
  "h_delete_product call rq c = with_input (productPathParams rq c (apGone call) True)
    (\<lambda>(u, p, q) st. wrote_reply product_arm (apGone call) 200 ''Product deleted successfully''
      (Products_Delete (apKey call) (apCall call) (Some \<lparr>ddID = q, ddProjectID = p, ddUserID = u\<rparr>) st))"

text \<open>A page goes out with the links to the pages beside it.\<close>

definition location :: "http_request \<Rightarrow> list_query \<Rightarrow> string" where
  "location rq q = ''http://'' @ lqHost q @ rqPath rq"

definition list_reply ::
  "('i list \<Rightarrow> Paginator \<Rightarrow> body) \<Rightarrow> api_call \<Rightarrow> http_request \<Rightarrow> list_query \<Rightarrow> project_error + ('i list \<times> Paginator) \<Rightarrow> reply" where
  "list_reply shown call rq q out =
    (case out of
       Inl e \<Rightarrow> arms list_arm (apGone call) e
     | Inr (items, paginator) \<Rightarrow> Reply 200 (shown items (GeneratePages (location rq q) paginator)))"

definition h_list_projects :: "api_call \<Rightarrow> http_request \<Rightarrow> claims \<Rightarrow> list_query \<Rightarrow> projects_state \<Rightarrow> reply \<times> projects_state" where
  "h_list_projects call rq c q = with_input
    (and_then (getUserIDFromContext c (apGone call)) (\<lambda>u.
     and_then (parseListQueryParams q) (\<lambda>i.
     Inr \<lparr>spPage = i, spUserID = u, spCallerID = uuid_nil\<rparr>)))
    (\<lambda>i st. (list_reply ProjectList call rq q (Projects_List (apLists call) i st), st))"

definition h_list_user_projects :: "api_call \<Rightarrow> http_request \<Rightarrow> claims \<Rightarrow> string \<Rightarrow> list_query \<Rightarrow> projects_state \<Rightarrow> reply \<times> projects_state" where
  "h_list_user_projects call rq c user q = with_input
    (and_then (getUserIDFromContext c (apGone call)) (\<lambda>caller.
     and_then (parseUUIDQueryParams user) (\<lambda>u.
     and_then (parseListQueryParams q) (\<lambda>i.
     Inr \<lparr>spPage = i, spUserID = u, spCallerID = caller\<rparr>))))
    (\<lambda>i st. (list_reply ProjectList call rq q (Projects_ListByUserID (apLists call) (Some i) st), st))"

definition h_list_products :: "api_call \<Rightarrow> http_request \<Rightarrow> claims \<Rightarrow> list_query \<Rightarrow> projects_state \<Rightarrow> reply \<times> projects_state" where
  "h_list_products call rq c q = with_input
    (and_then (getUserIDFromContext c (apGone call)) (\<lambda>caller.
     and_then (parseListQueryParams q) (\<lambda>i.
     Inr \<lparr>sqPage = i, sqCallerID = caller\<rparr>)))
    (\<lambda>i st. (list_reply ProductList call rq q (Products_List (apLists call) (Some i) st), st))"

definition h_list_project_products :: "api_call \<Rightarrow> http_request \<Rightarrow> claims \<Rightarrow> list_query \<Rightarrow> projects_state \<Rightarrow> reply \<times> projects_state" where
  "h_list_project_products call rq c q = with_input
    (and_then (productPathParams rq c (apGone call) False) (\<lambda>(u, p, _).
     and_then (parseListQueryParams q) (\<lambda>i.
     Inr (p, u, \<lparr>sqPage = i, sqCallerID = uuid_nil\<rparr>))))
    (\<lambda>(p, u, i) st. (list_reply ProductList call rq q (Products_ListByProjectID (apLists call) p u (Some i) st), st))"

text \<open>
  \<open>RegisterRoutes\<close> of both handlers: \<open>POST /projects\<close>, \<open>GET /projects\<close>,
  \<open>GET /users/{user_id}/projects\<close> and \<open>GET /products\<close> have no project in
  their path.
\<close>

fun serve :: "api_call \<Rightarrow> http_request \<Rightarrow> claims \<Rightarrow> project_route \<Rightarrow> projects_state \<Rightarrow> reply \<times> projects_state" where
  "serve call rq c (RCreateProject body) = h_create_project call c body"
| "serve call rq c RGetProject = h_get_project call rq c"
| "serve call rq c (RUpdateProject body) = h_update_project call rq c body"
| "serve call rq c RDeleteProject = h_delete_project call rq c"
| "serve call rq c (RLinkUsers body) = h_link_users call rq body"
| "serve call rq c (RUnlinkUsers body) = h_unlink_users call rq body"
| "serve call rq c (RCreateProduct body) = h_create_product call rq c body"
| "serve call rq c RGetProduct = h_get_product call rq c"
| "serve call rq c (RUpdateProduct body) = h_update_product call rq c body"
| "serve call rq c RDeleteProduct = h_delete_product call rq c"
| "serve call rq c (RListProjects q) = h_list_projects call rq c q"
| "serve call rq c (RListUserProjects user q) = h_list_user_projects call rq c user q"
| "serve call rq c (RListProducts q) = h_list_products call rq c q"
| "serve call rq c (RListProjectProducts q) = h_list_project_products call rq c q"

definition routed :: "project_route \<Rightarrow> http_request \<Rightarrow> http_request" where
  "routed route rq =
    (case route of
       RCreateProject _ \<Rightarrow> rq\<lparr>rqProjectID := []\<rparr>
     | RListProjects _ \<Rightarrow> rq\<lparr>rqProjectID := []\<rparr>
     | RListUserProjects _ _ \<Rightarrow> rq\<lparr>rqProjectID := []\<rparr>
     | RListProducts _ \<Rightarrow> rq\<lparr>rqProjectID := []\<rparr>
     | _ \<Rightarrow> rq)"

definition answer ::
  "('k, 'p) jwt_lib \<Rightarrow> ('k, 'p) Signer \<Rightarrow> token_mirror \<Rightarrow> gate_call \<Rightarrow> api_call \<Rightarrow> http_request \<Rightarrow> project_route
    \<Rightarrow> projects_state \<Rightarrow> reply \<times> projects_state" where
  "answer lib signer mirror gcall call rq route st =
    (case accessTokenMiddlewares (gate_of lib signer mirror gcall st) (routed route rq) of
       Inl refusal \<Rightarrow> (refusal, st)
     | Inr (c, _) \<Rightarrow> serve call (routed route rq) c route st)"

end
