(* ===== verification/ProjectsTenancy.thy ===== *)
theory ProjectsTenancy
  imports ProjectsApi
begin

text \<open>
  Tenancy: what an account outside a project can do to it, or learn of it,
  through the routes of projects and products.
\<close>

section \<open>What an outsider could change\<close>

text \<open>Everything the service keeps of a project: its row, who is in it, its products and their counter.\<close>

type_synonym project_view = "project_row option \<times> (uuid \<Rightarrow> bool) \<times> (uuid \<Rightarrow> product_row option) \<times> int"

definition view_of :: "uuid \<Rightarrow> projects_state \<Rightarrow> project_view" where
  "view_of p st = (project_of p st, \<lambda>u. is_member p u st,
     \<lambda>q. case product_of q st of None \<Rightarrow> None | Some r \<Rightarrow> if pdProject r = p then Some r else None, usage_in p st)"

definition projects_wf :: "projects_state \<Rightarrow> bool" where
  "projects_wf st = distinct (map fst (psProducts st))"

definition untouched :: "uuid \<Rightarrow> projects_state \<Rightarrow> projects_state \<Rightarrow> bool" where
  "untouched p st st' = (view_of p st' = view_of p st \<and> psGrants st' = psGrants st \<and> (projects_wf st \<longrightarrow> projects_wf st'))"

lemma untouched_refl [simp]: "untouched p st st"
  by (simp add: untouched_def)

lemma untouched_trans: "untouched p st st1 \<Longrightarrow> untouched p st1 st2 \<Longrightarrow> untouched p st st2"
  by (simp add: untouched_def)

lemma untouched_limits: "counter (products_key p) db = usage_in p st \<Longrightarrow> untouched p st (st\<lparr>psLimits := db\<rparr>)"
  by (simp add: untouched_def view_of_def project_of_def is_member_def product_of_def projects_wf_def usage_in_def)

lemma untouched_same_but_limits: "same_but_limits st st' \<Longrightarrow> usage_in p st' = usage_in p st \<Longrightarrow> untouched p st st'"
  by (auto simp: same_but_limits_def usage_in_def intro: untouched_limits)

lemma untouched_answered: "untouched p st (snd r) \<Longrightarrow> untouched p st (snd (answered pg r st))"
  by (cases pg) (simp_all add: answered_def)

lemma map_of_filter_keys: "map_of (filter (\<lambda>(k, _). k \<noteq> q) xs) k = (if k = q then None else map_of xs k)"
  by (induction xs) auto

lemma map_of_filter_distinct:
  assumes "distinct (map fst xs)"
  shows "map_of (filter P xs) k = (case map_of xs k of None \<Rightarrow> None | Some v \<Rightarrow> if P (k, v) then Some v else None)"
  using assms
proof (induction xs)
  case (Cons x xs)
  have "map_of xs (fst x) = None" using Cons.prems by (auto simp: map_of_eq_None_iff)
  then show ?case using Cons by (cases x) (auto split: option.splits)
qed simp

lemma distinct_fst_filter: "distinct (map fst xs) \<Longrightarrow> distinct (map fst (filter P xs))"
  by (induction xs) auto

lemma usage_in_cong [simp]:
  "usage_in p (psProjects_update f st) = usage_in p st" "usage_in p (psMembers_update g st) = usage_in p st"
  "usage_in p (psProducts_update h st) = usage_in p st"
  by (simp_all add: usage_in_def)

lemmas touch_defs = untouched_def view_of_def project_of_def is_member_def product_of_def projects_wf_def List.member_iff

lemma insert_project_untouched:
  assumes "project_of p st \<noteq> None"
  shows "untouched p st (snd (repo_InsertProject pg i st))"
  unfolding repo_InsertProject_def using assms
  by (auto intro!: untouched_answered split: sum.split) (auto simp: touch_defs)

lemma update_project_untouched:
  assumes "ujID i \<noteq> p"
  shows "untouched p st (snd (repo_UpdateProject pg i st))"
proof -
  have "ujID i' = ujID i" if "UpdateProjectInput_Validate i = Inr i'" for i'
    using that by (auto simp: UpdateProjectInput_Validate_def Let_def split: prod.splits if_splits)
  with assms show ?thesis unfolding repo_UpdateProject_def
    by (auto intro!: untouched_answered split: sum.split option.split) (auto simp: touch_defs update_conv fun_eq_iff)
qed

lemma drop_project_untouched:
  assumes "projects_wf st" "q \<noteq> p"
  shows "untouched p st (drop_project q st)"
proof -
  have p: "map_of (filter (\<lambda>(q', _). q' \<noteq> q) xs) p = map_of xs p" for xs :: "(uuid \<times> project_row) list"
    using assms(2) by (simp add: map_of_filter_keys)
  have "usage_in p (drop_project q st) = usage_in p st" using drop_project_rows(4)[of p q st] assms(2) by simp
  with assms show ?thesis
    by (auto simp: touch_defs drop_project_def p map_of_filter_distinct distinct_fst_filter fun_eq_iff split: option.split)
qed

lemma delete_project_untouched:
  "projects_wf st \<Longrightarrow> djID i \<noteq> p \<Longrightarrow> untouched p st (snd (repo_DeleteProject pg i st))"
  unfolding repo_DeleteProject_def
  by (auto intro!: untouched_answered drop_project_untouched split: option.split)

lemma members_untouched:
  assumes "ljProjectID i \<noteq> p"
  shows "untouched p st (snd (repo_LinkProjectUsers pg i st))" "untouched p st (snd (repo_UnlinkProjectUsers pg i st))"
  unfolding repo_LinkProjectUsers_def repo_UnlinkProjectUsers_def using assms
  by (auto intro!: untouched_answered split: option.split) (auto simp: touch_defs add_links_def fun_eq_iff)

lemma map_of_None_fst: "map_of xs k = None \<Longrightarrow> k \<notin> fst ` set xs"
  by (simp add: map_of_eq_None_iff)

lemma insert_product_untouched:
  assumes "npProjectID i \<noteq> p"
  shows "untouched p st (snd (repo_InsertProduct pg i st))"
  unfolding repo_InsertProduct_def using assms
  by (auto intro!: untouched_answered split: option.split)
    (auto simp: touch_defs fun_eq_iff dest: map_of_None_fst split: option.splits)

lemma update_product_untouched:
  assumes "udProjectID i \<noteq> p"
  shows "untouched p st (snd (repo_UpdateProduct pg i st))"
  unfolding repo_UpdateProduct_def using assms
  by (auto intro!: untouched_answered split: option.split)
    (auto intro!: distinct_update simp: touch_defs own_product_def updated_product_def update_conv fun_eq_iff split: option.splits if_splits)

lemma delete_product_untouched:
  assumes "ddProjectID i \<noteq> p"
  shows "untouched p st (snd (repo_DeleteProduct pg i st))"
  unfolding repo_DeleteProduct_def using assms
  by (auto intro!: untouched_answered split: option.split)
    (auto intro!: distinct_fst_filter simp: touch_defs own_product_def map_of_filter_keys fun_eq_iff split: option.splits if_splits)

section \<open>Use cases and handlers\<close>

lemma created_untouched:
  assumes key: "ukey_of scope rt \<noteq> products_key p"
    and wrt: "\<And>s. untouched p st s \<Longrightarrow> untouched p s (snd (write s))"
  shows "untouched p st (snd (created key call scope rt write st))"
proof -
  obtain r st1 where r: "reserve_for key call scope rt st = (r, st1)" by fastforce
  have u1: "untouched p st st1" using reserve_for_cases[OF r, of p] key by (auto intro: untouched_same_but_limits)
  obtain e st2 where w: "write st1 = (e, st2)" by fastforce
  have u2: "untouched p st st2" using untouched_trans[OF u1] wrt[OF u1] w by simp
  have "untouched p st2 (release_for key call scope rt st2)"
    using release_for_cases[of st2 key call scope rt p] key by (auto intro: untouched_same_but_limits)
  moreover have "untouched p st2 (st2\<lparr>psLimits := WarnOnSoftLimit key (pcWarn call) scope rt (counted st2)\<rparr>)"
    by (rule untouched_limits) (simp add: warn_keeps usage_in_def)
  ultimately show ?thesis using u1 u2 r w untouched_trans by (auto simp: created_def split: option.split)
qed

lemma untouched_project: "untouched p st st' \<Longrightarrow> project_of p st' = project_of p st"
  by (simp add: untouched_def view_of_def)

lemma untouched_wf: "untouched p st st' \<Longrightarrow> projects_wf st \<Longrightarrow> projects_wf st'"
  by (simp add: untouched_def)

lemma use_cases_untouched:
  assumes "project_of p st \<noteq> None"
  shows "untouched p st (snd (Projects_Create key call i1 st))"
    and "(\<And>i. i2 = Some i \<Longrightarrow> ujID i \<noteq> p) \<Longrightarrow> untouched p st (snd (Projects_UpdateByID call i2 st))"
    and "projects_wf st \<Longrightarrow> djID i3 \<noteq> p \<Longrightarrow> untouched p st (snd (Projects_DeleteByID key call i3 st))"
    and "(\<And>i. i4 = Some i \<Longrightarrow> ljProjectID i \<noteq> p) \<Longrightarrow> untouched p st (snd (Projects_LinkUsers call i4 st))"
    and "(\<And>i. i4 = Some i \<Longrightarrow> ljProjectID i \<noteq> p) \<Longrightarrow> untouched p st (snd (Projects_UnlinkUsers call i4 st))"
    and "(\<And>i. i5 = Some i \<Longrightarrow> npProjectID i \<noteq> p) \<Longrightarrow> untouched p st (snd (Products_Create key call i5 st))"
    and "(\<And>i. i6 = Some i \<Longrightarrow> udProjectID i \<noteq> p) \<Longrightarrow> untouched p st (snd (Products_Update call i6 st))"
    and "(\<And>i. i7 = Some i \<Longrightarrow> ddProjectID i \<noteq> p) \<Longrightarrow> untouched p st (snd (Products_Delete key call i7 st))"
proof -
  show "untouched p st (snd (Projects_Create key call i1 st))"
    using assms by (auto simp: Projects_Create_def untouched_project split: option.split sum.split
        intro!: created_untouched insert_project_untouched)
  show "untouched p st (snd (Projects_UpdateByID call i2 st))" if "\<And>i. i2 = Some i \<Longrightarrow> ujID i \<noteq> p"
  proof -
    have "ujID i' = ujID i" if "UpdateProjectInput_Validate i = Inr i'" for i i'
      using that by (auto simp: UpdateProjectInput_Validate_def Let_def split: prod.splits if_splits)
    with that show ?thesis
      by (auto simp: Projects_UpdateByID_def split: option.split sum.split intro!: update_project_untouched)
  qed
  show "untouched p st (snd (Projects_DeleteByID key call i3 st))" if "projects_wf st" "djID i3 \<noteq> p"
  proof -
    obtain r st1 where w: "repo_DeleteProject (pcWrite call) i3 st = (r, st1)" by fastforce
    have u: "untouched p st st1" using delete_project_untouched[OF that, of "pcWrite call"] w by simp
    obtain e db where q: "DecrementUsage key (pcRelease call) (user_scope (djUserID i3)) ''projects'' (counted st1) = (e, db)" by fastforce
    have "untouched p st1 (st1\<lparr>psLimits := db\<rparr>)"
      using decrement_cases[OF q, of p] by (intro untouched_limits) simp
    with u w q show ?thesis using untouched_trans by (auto simp: Projects_DeleteByID_def split: option.split)
  qed
  show "untouched p st (snd (Projects_LinkUsers call i4 st))" "untouched p st (snd (Projects_UnlinkUsers call i4 st))"
    if "\<And>i. i4 = Some i \<Longrightarrow> ljProjectID i \<noteq> p"
    using that by (auto simp: Projects_LinkUsers_def Projects_UnlinkUsers_def split: option.split intro!: members_untouched)
  show "untouched p st (snd (Products_Create key call i5 st))" if "\<And>i. i5 = Some i \<Longrightarrow> npProjectID i \<noteq> p"
    using that by (auto simp: Products_Create_def Let_def split: option.split intro!: created_untouched insert_product_untouched)
  show "untouched p st (snd (Products_Update call i6 st))" if "\<And>i. i6 = Some i \<Longrightarrow> udProjectID i \<noteq> p"
    using that by (auto simp: Products_Update_def split: option.split intro!: update_product_untouched)
  show "untouched p st (snd (Products_Delete key call i7 st))" if "\<And>i. i7 = Some i \<Longrightarrow> ddProjectID i \<noteq> p"
  proof (cases i7)
    case (Some i)
    obtain r st1 where w: "repo_DeleteProduct (pcWrite call) i st = (r, st1)" by fastforce
    have u: "untouched p st st1" using delete_product_untouched[of i p st "pcWrite call"] that Some w by simp
    have "untouched p st1 (release_for key call (project_scope (ddProjectID i)) ''products'' st1)"
      using release_for_cases[of st1 key call "project_scope (ddProjectID i)" "''products''" p] that Some
      by (intro untouched_same_but_limits) auto
    with u w Some show ?thesis using untouched_trans by (auto simp: Products_Delete_def split: option.split)
  qed (simp add: Products_Delete_def)
qed

lemma with_input_untouched:
  "(\<And>i. r = Inr i \<Longrightarrow> untouched p st (snd (f i st))) \<Longrightarrow> untouched p st (snd (with_input r f st))"
  by (simp add: with_input_def split: sum.split)

lemma parseUUIDQueryParams_Inr: "parseUUIDQueryParams s = Inr u \<Longrightarrow> uuid_parse s = Some u \<and> IsUUIDV7 u"
  by (auto simp: parseUUIDQueryParams_def split: if_splits option.splits)

lemma serve_untouched:
  assumes "project_of p st \<noteq> None" "projects_wf st"
    and elsewhere: "\<And>q. uuid_parse (rqProjectID rq) = Some q \<Longrightarrow> q \<noteq> p"
  shows "untouched p st (snd (serve call rq c route st))"
proof -
  have q: "q \<noteq> p" if "parseUUIDQueryParams (rqProjectID rq) = Inr q" for q
    using elsewhere parseUUIDQueryParams_Inr[OF that] by blast
  note u = use_cases_untouched[OF assms(1)]
  show ?thesis
    by (cases route)
      (auto simp: h_create_project_def h_get_project_def h_update_project_def h_delete_project_def h_link_users_def h_unlink_users_def
        h_create_product_def h_get_product_def h_update_product_def h_delete_product_def
        h_list_projects_def h_list_user_projects_def h_list_products_def h_list_project_products_def wrote_reply_def members_input_def
        projectPathParams_def productPathParams_def and_then_Inr assms(2) split: option.splits
        intro!: with_input_untouched u dest!: q)
qed

section \<open>Who gets through\<close>

text \<open>Whose token a request carries: the subject it verifies to, if it does.\<close>

definition caller_of :: "('k, 'p) jwt_lib \<Rightarrow> ('k, 'p) Signer \<Rightarrow> gate_call \<Rightarrow> http_request \<Rightarrow> uuid option" where
  "caller_of lib signer gcall rq =
    (case bearer_token (rqAuthorization rq) of
       Inl _ \<Rightarrow> None
     | Inr token \<Rightarrow> (case VerifyToken lib signer (gcNow gcall) token of Inl _ \<Rightarrow> None | Inr c \<Rightarrow> subject_of c))"

lemma claimString_subject: "uuid_parse (claimString c ''sub'') = Some u \<Longrightarrow> subject_of c = Some u"
  by (cases "claim_text c ''sub''") (auto simp: subject_of_def claimString_def uuid_parse_def)

lemma gate_of_simps:
  "gaValidators (gate_of lib signer mirror gcall st) = createJWTValidators (Some (VerifyToken lib signer (gcNow gcall)))"
  "gaRevoked (gate_of lib signer mirror gcall st) = Some (TokenMirror_Contains mirror)"
  "gaStanding (gate_of lib signer mirror gcall st) u = Standing (gcStandingFaults gcall) u (gsAccounts (psGrants st))"
  "gaAuthz (gate_of lib signer mirror gcall st) = IsAuthorized (\<lambda>u. SelectAuthz (gcGrantCall gcall) u (psGrants st)) (IsAllowed (gcEvalFails gcall))"
  "gaMembership (gate_of lib signer mirror gcall st) p u = Membership (gcProjectCall gcall) p u st"
  "gaCallerGone (gate_of lib signer mirror gcall st) = gcGone gcall"
  by (simp_all add: gate_of_def)

lemma Membership_Admitted:
  "Membership call p u st = Inr m \<Longrightarrow> Admitted m \<Longrightarrow> may_touch p u st"
  by (auto simp: Membership_def SelectMembership_def may_touch_def split: if_splits)

lemma access_verified:
  "CheckAccessToken (createJWTValidators (Some verify)) revoked rq = Inr (c, token) \<Longrightarrow>
    bearer_token (rqAuthorization rq) = Inr token \<and> verify token = Inr c"
  by (auto simp: CheckAccessToken_def checkToken_Inr createJWTValidators_def validateToken_def split: sum.splits if_splits)

lemma gate_caller:
  assumes "accessTokenMiddlewares (gate_of lib signer mirror gcall st) rq = Inr (c, token)"
  shows "caller_of lib signer gcall rq = subject_of c"
    and "rqProjectID rq \<noteq> [] \<Longrightarrow> uuid_parse (rqProjectID rq) = Some p \<Longrightarrow>
      \<exists>u. caller_of lib signer gcall rq = Some u \<and> may_touch p u st"
proof -
  from assms have v: "CheckAccessToken (createJWTValidators (Some (VerifyToken lib signer (gcNow gcall)))) (Some (TokenMirror_Contains mirror)) rq = Inr (c, token)"
    and m: "RequireProjectMembership (gate_of lib signer mirror gcall st) rq c = None"
    by (auto simp: accessTokenMiddlewares_def guarded_Inr first_refusal_None gate_of_simps)
  from access_verified[OF v] show s: "caller_of lib signer gcall rq = subject_of c" by (simp add: caller_of_def)
  assume "rqProjectID rq \<noteq> []" "uuid_parse (rqProjectID rq) = Some p"
  with m obtain u mb where "uuid_parse (claimString c ''sub'') = Some u" "Membership (gcProjectCall gcall) p u st = Inr mb" "Admitted mb"
    by (auto simp: RequireProjectMembership_None gate_of_simps)
  with s show "\<exists>u. caller_of lib signer gcall rq = Some u \<and> may_touch p u st"
    using Membership_Admitted claimString_subject by metis
qed

section \<open>Runs of requests\<close>

record ('k, 'p) arrival =
  avLib :: "('k, 'p) jwt_lib"
  avSigner :: "('k, 'p) Signer"
  avMirror :: token_mirror
  avGate :: gate_call
  avCall :: api_call
  avRequest :: http_request
  avRoute :: project_route

definition respond_to :: "('k, 'p) arrival \<Rightarrow> projects_state \<Rightarrow> reply \<times> projects_state" where
  "respond_to a st = answer (avLib a) (avSigner a) (avMirror a) (avGate a) (avCall a) (avRequest a) (avRoute a) st"

definition outsider :: "uuid \<Rightarrow> projects_state \<Rightarrow> ('k, 'p) arrival \<Rightarrow> bool" where
  "outsider p st a = (case caller_of (avLib a) (avSigner a) (avGate a) (avRequest a) of None \<Rightarrow> True | Some u \<Rightarrow> \<not> may_touch p u st)"

definition after_requests :: "('k, 'p) arrival list \<Rightarrow> projects_state \<Rightarrow> projects_state" where
  "after_requests as st = fold (\<lambda>a s. snd (respond_to a s)) as st"

lemma caller_of_routed [simp]: "caller_of lib signer gcall (routed route rq) = caller_of lib signer gcall rq"
  by (simp add: caller_of_def routed_def split: project_route.split)

lemma uuid_parse_Nil [simp]: "uuid_parse [] = None"
  by (simp add: uuid_parse_def)

lemma respond_to_untouched:
  assumes "project_of p st \<noteq> None" "projects_wf st" "outsider p st a"
  shows "untouched p st (snd (respond_to a st))"
proof (cases "accessTokenMiddlewares (gate_of (avLib a) (avSigner a) (avMirror a) (avGate a) st) (routed (avRoute a) (avRequest a))")
  case (Inr ct)
  obtain c token where ct: "ct = (c, token)" by fastforce
  have "q \<noteq> p" if "uuid_parse (rqProjectID (routed (avRoute a) (avRequest a))) = Some q" for q
    using gate_caller(2)[OF Inr[unfolded ct]] that assms(3) by (fastforce simp: outsider_def split: option.splits)
  from serve_untouched[OF assms(1,2) this] show ?thesis by (simp add: respond_to_def answer_def Inr ct)
qed (simp add: respond_to_def answer_def)

lemma untouched_outsider: "untouched p st st' \<Longrightarrow> outsider p st' a = outsider p st a"
  by (auto simp: untouched_def outsider_def may_touch_def admin_flag_def account_of_def view_of_def fun_eq_iff split: option.split)

lemma after_requests_untouched:
  assumes "project_of p st \<noteq> None" "projects_wf st" "list_all (outsider p st) as"
  shows "untouched p st (after_requests as st)"
  using assms
proof (induction as arbitrary: st)
  case (Cons a as)
  let ?st1 = "snd (respond_to a st)"
  have u: "untouched p st ?st1" using Cons.prems by (intro respond_to_untouched) simp_all
  have "outsider p ?st1 = (outsider p st :: ('a, 'b) arrival \<Rightarrow> bool)" using untouched_outsider[OF u] by (rule ext)
  with u Cons.prems have "untouched p ?st1 (after_requests as ?st1)"
    by (intro Cons.IH) (simp_all add: untouched_project untouched_wf)
  with u show ?case using untouched_trans by (simp add: after_requests_def)
qed (simp add: after_requests_def)

section \<open>Properties\<close>

text \<open>
  C4. No sequence of requests to the routes of projects and products, sent with
  the tokens of accounts that are neither in a project nor flagged as
  administrators, changes the project, its members, its products or their
  counter, whatever the requests say and whatever fails on the way.
\<close>

theorem tenants_are_isolated:
  assumes "project_of p st \<noteq> None" "projects_wf st" "list_all (outsider p st) rs"
  shows "view_of p (after_requests rs st) = view_of p st"
  using after_requests_untouched[OF assms] by (simp add: untouched_def)

lemma Standing_active:
  "Standing faults u st = Inr AccountActive \<Longrightarrow> \<exists>r. user_row_of u st = Some r \<and> \<not> rowDisabled r"
  by (auto simp: Standing_def repo_SelectDisabled_def split: sum.splits account_error.splits option.splits if_splits)

lemma IsAuthorized_may_do:
  assumes "IsAuthorized (\<lambda>u. SelectAuthz call u st) (IsAllowed evalFails) u action path = Inr True"
  shows "may_do st u action path"
proof -
  obtain perms where "SelectAuthz call u st = Inr perms" "\<not> evalFails" "u \<noteq> uuid_nil"
    using assms by (auto simp: IsAuthorized_def IsAllowed_def split: if_splits sum.splits)
  moreover from this(1) have "SelectAuthz quiet_call u st = Inr perms"
    by (auto simp: SelectAuthz_def quiet_call_def split: if_splits option.splits)
  ultimately show ?thesis using assms by (simp add: may_do_def IsAuthorized_def IsAllowed_def)
qed

text \<open>
  C6. What reaches a handler behind the full chain: a token the signer verifies,
  of a type the route takes and, for an access token, with a jti the mirror of
  revocations does not list; of an account that is there and not disabled,
  whose roles allow the method on the path; and, where the path names a
  project, an account that is in it or has the flag.
\<close>

theorem gate_admits_only:
  assumes "accessTokenMiddlewares (gate_of lib signer mirror gcall st) rq = Inr (c, token)"
  shows "VerifyToken lib signer (gcNow gcall) token = Inr c
    \<and> (\<exists>tt. claim_text c ''token_type'' = Some tt \<and> (tt = TokenTypePersonalAccess
         \<or> tt = TokenTypeAccess \<and> (\<exists>jti. Option.bind (claim_text c ''jti'') uuid_parse = Some jti \<and> \<not> TokenMirror_Contains mirror jti)))
    \<and> (\<exists>u r. subject_of c = Some u \<and> account_of u st = Some r \<and> \<not> rowDisabled r
         \<and> may_do (psGrants st) u (authz_action (rqMethod rq)) (rqPath rq)
         \<and> (\<forall>p. rqProjectID rq \<noteq> [] \<longrightarrow> uuid_parse (rqProjectID rq) = Some p \<longrightarrow> may_touch p u st))"
proof -
  let ?env = "gate_of lib signer mirror gcall st"
  from assms have v: "CheckAccessToken (gaValidators ?env) (gaRevoked ?env) rq = Inr (c, token)"
    and checks: "RequireActiveAccount ?env c = None" "CheckAuthz ?env rq c = None"
    by (auto simp: accessTokenMiddlewares_def guarded_Inr first_refusal_None)
  from checks obtain u where u: "subject_of c = Some u" "Standing (gcStandingFaults gcall) u (gsAccounts (psGrants st)) = Inr AccountActive"
      "gaAuthz ?env u (authz_action (rqMethod rq)) (rqPath rq) = Inr True"
    by (auto simp: RequireActiveAccount_None CheckAuthz_None gate_of_simps)
  then have m: "may_do (psGrants st) u (authz_action (rqMethod rq)) (rqPath rq)"
    by (auto simp: gate_of_simps intro: IsAuthorized_may_do)
  have t: "check_claims (\<lambda>tt. tt = TokenTypeAccess \<or> tt = TokenTypePersonalAccess) ''invalid token type access or personal_access''
      (Some (TokenMirror_Contains mirror)) c = None"
    using v by (auto simp: CheckAccessToken_def checkToken_Inr gate_of_simps)
  have p: "may_touch p u st" if "rqProjectID rq \<noteq> []" "uuid_parse (rqProjectID rq) = Some p" for p
    using gate_caller(1)[OF assms] gate_caller(2)[OF assms that] u(1) by simp
  have "VerifyToken lib signer (gcNow gcall) token = Inr c" using access_verified v by (simp add: gate_of_simps)
  with t u m p Standing_active[OF u(2)] show ?thesis
    by (auto simp: check_claims_None not_revoked_None account_of_def)
qed

end
