(* ===== verification/ProjectsPrivacy.thy ===== *)
theory ProjectsPrivacy
  imports ProjectsTenancy
begin

text \<open>
  What the routes of projects and products tell, the lists among them: an
  answer to an account that is not in a project is the one it would get if the
  project were not there, except when it creates something under an id that is
  taken.
\<close>

section \<open>The state without the project\<close>

lemma drop_project_simps [simp]:
  "psGrants (drop_project p st) = psGrants st" "account_of u (drop_project p st) = account_of u st"
  "admin_flag u (drop_project p st) = admin_flag u st"
  by (simp_all add: drop_project_def account_of_def admin_flag_def)

lemma drop_elsewhere:
  assumes "q \<noteq> p"
  shows "project_of q (drop_project p st) = project_of q st" "is_member q u (drop_project p st) = is_member q u st"
    and "may_touch q u (drop_project p st) = may_touch q u st" "visible_project q u (drop_project p st) = visible_project q u st"
    and "name_taken q name x (drop_project p st) = name_taken q name x st"
proof -
  show "project_of q (drop_project p st) = project_of q st"
    using assms by (simp add: drop_project_def project_of_def map_of_filter_keys)
  show m: "is_member q u (drop_project p st) = is_member q u st"
    using assms by (auto simp: drop_project_def is_member_def List.member_iff)
  show "may_touch q u (drop_project p st) = may_touch q u st" "visible_project q u (drop_project p st) = visible_project q u st"
    by (simp_all add: may_touch_def visible_project_def m cong: option.case_cong)
  show "name_taken q name x (drop_project p st) = name_taken q name x st"
    using assms by (auto simp: drop_project_def name_taken_def list_ex_iff)
qed

lemma drop_product_of:
  assumes "projects_wf st"
  shows "product_of x (drop_project p st) = (case product_of x st of None \<Rightarrow> None | Some r \<Rightarrow> if pdProject r = p then None else Some r)"
  using assms by (auto simp: drop_project_def product_of_def projects_wf_def map_of_filter_distinct split: option.split)

lemma drop_own_product:
  assumes "projects_wf st" "q \<noteq> p"
  shows "own_product x q u (drop_project p st) = own_product x q u st"
  using drop_elsewhere(3)[OF assms(2)] assms(2) by (auto simp: own_product_def drop_product_of[OF assms(1)] split: option.split)

lemma drop_usage_row:
  assumes "\<not> (fst k = ''project'' \<and> snd (snd k) = p)"
  shows "map_of (usage_rows (psLimits (drop_project p st))) k = map_of (usage_rows (psLimits st)) k"
proof -
  have "map_of (filter (\<lambda>((t, _, u), _). \<not> (t = ''project'' \<and> u = p)) xs) k = map_of xs k" for xs :: "(ukey \<times> usage_row) list"
    using assms by (induction xs) auto
  then show ?thesis by (simp add: drop_project_def)
qed

section \<open>Calls on the limits\<close>

text \<open>They answer by the row and the limit of their key alone.\<close>

definition same_slot :: "ukey \<Rightarrow> limits_state \<Rightarrow> limits_state \<Rightarrow> bool" where
  "same_slot k db db' = (map_of (usage_rows db') k = map_of (usage_rows db) k \<and> limit_rows db' = limit_rows db)"

lemma sign_and_commit_answer:
  "fst (sign_and_commit pg sign k n db x) =
    (if sign n = None then Inl SignError else if pg PgSignature \<or> pg PgCommit then Inl PgError else Inr n)"
  by (simp add: sign_and_commit_def split: option.split)

lemma ReserveUsage_answer:
  assumes "same_slot (ukey_of scope rt) db db'"
  shows "fst (ReserveUsage key pg scope rt db') = fst (ReserveUsage key pg scope rt db)"
proof -
  have r: "coHardLimit (resolved (ukey_of scope rt) db') = coHardLimit (resolved (ukey_of scope rt) db)"
    using assms by (intro resolved_hard) (simp add: same_slot_def)
  have m: "map_of (usage_rows db') (ukey_of scope rt) = map_of (usage_rows db) (ukey_of scope rt)" using assms by (simp add: same_slot_def)
  have "fst (repo_ReserveUsage pg scope rt v sign db') = fst (repo_ReserveUsage pg scope rt v sign db)" for v sign
    unfolding repo_ReserveUsage_def Let_def r m by (simp add: sign_and_commit_answer split: option.split)
  moreover have "fst (case x of (Inl e, db1) \<Rightarrow> (Some e, db1) | (Inr _, db1) \<Rightarrow> (None, db1))
      = (case fst x of Inl e \<Rightarrow> Some e | Inr _ \<Rightarrow> None)" for x :: "(limits_error + int) \<times> limits_state"
    by (cases x) (simp split: sum.split)
  ultimately show ?thesis by (simp add: ReserveUsage_def split: option.split)
qed

lemma DecrementUsage_answer:
  assumes "same_slot (ukey_of scope rt) db db'"
  shows "fst (DecrementUsage key pg scope rt db') = fst (DecrementUsage key pg scope rt db)"
proof -
  have m: "map_of (usage_rows db') (ukey_of scope rt) = map_of (usage_rows db) (ukey_of scope rt)" using assms by (simp add: same_slot_def)
  have "fst (repo_DecrementUsage pg scope rt sign db') = fst (repo_DecrementUsage pg scope rt sign db)" for sign
    unfolding repo_DecrementUsage_def mutateUsage_def Let_def m by (simp add: sign_and_commit_answer split: option.split)
  moreover have "fst (case x of (Inl e, db1) \<Rightarrow> (Some e, db1) | (Inr _, db1) \<Rightarrow> (None, db1))
      = (case fst x of Inl e \<Rightarrow> Some e | Inr _ \<Rightarrow> None)" for x :: "(limits_error + int) \<times> limits_state"
    by (cases x) (simp split: sum.split)
  ultimately show ?thesis by (simp add: DecrementUsage_def)
qed

lemma dropped_slot:
  "same_slot (ukey_of (user_scope u) rt) (counted st) (counted (drop_project p st))"
  "q \<noteq> p \<Longrightarrow> same_slot (ukey_of (project_scope q) rt) (counted st) (counted (drop_project p st))"
proof -
  have l: "limit_rows (psLimits (drop_project p st)) = limit_rows (psLimits st)" by (simp add: drop_project_def)
  show "same_slot (ukey_of (user_scope u) rt) (counted st) (counted (drop_project p st))"
    using drop_usage_row[of "ukey_of (user_scope u) rt" p st] l by (simp add: same_slot_def ukey_of_def user_scope_def)
  show "q \<noteq> p \<Longrightarrow> same_slot (ukey_of (project_scope q) rt) (counted st) (counted (drop_project p st))"
    using drop_usage_row[of "ukey_of (project_scope q) rt" p st] l
    by (simp add: same_slot_def ukey_of_def project_scope_def scope_uuid_def)
qed

section \<open>Statements and use cases\<close>

lemma answered_fst: "fst r' = fst r \<Longrightarrow> fst (answered pg r' st') = fst (answered pg r st)"
  by (cases pg) (simp_all add: answered_def)

text \<open>Statements do not read the limits.\<close>

lemma insert_reads_tables:
  "fst (repo_InsertProject pg i (st\<lparr>psLimits := db\<rparr>)) = fst (repo_InsertProject pg i st)"
  "fst (repo_InsertProduct pg j (st\<lparr>psLimits := db\<rparr>)) = fst (repo_InsertProduct pg j st)"
proof -
  have t: "project_of q (st\<lparr>psLimits := db\<rparr>) = project_of q st" "account_of u (st\<lparr>psLimits := db\<rparr>) = account_of u st"
    "product_of x (st\<lparr>psLimits := db\<rparr>) = product_of x st" "may_touch q u (st\<lparr>psLimits := db\<rparr>) = may_touch q u st"
    "name_taken q n x (st\<lparr>psLimits := db\<rparr>) = name_taken q n x st" for q u x n
    by (simp_all add: project_of_def account_of_def product_of_def may_touch_def admin_flag_def is_member_def name_taken_def
        cong: option.case_cong)
  show "fst (repo_InsertProject pg i (st\<lparr>psLimits := db\<rparr>)) = fst (repo_InsertProject pg i st)"
    by (auto simp: repo_InsertProject_def t intro!: answered_fst split: sum.split)
  show "fst (repo_InsertProduct pg j (st\<lparr>psLimits := db\<rparr>)) = fst (repo_InsertProduct pg j st)"
    by (auto simp: repo_InsertProduct_def t intro!: answered_fst split: option.split)
qed

lemma created_answer:
  assumes slot: "same_slot (ukey_of scope rt) (counted st) (counted st')"
    and wrt: "\<And>db db'. fst (write (st'\<lparr>psLimits := db'\<rparr>)) = fst (write (st\<lparr>psLimits := db\<rparr>))"
  shows "fst (created key call scope rt write st') = fst (created key call scope rt write st)"
proof -
  obtain r db where r: "ReserveUsage key (pcReserve call) scope rt (counted st) = (r, db)" by fastforce
  with ReserveUsage_answer[OF slot] obtain db' where r': "ReserveUsage key (pcReserve call) scope rt (counted st') = (r, db')"
    by (metis fst_conv surj_pair)
  obtain e s where w: "write (st\<lparr>psLimits := db\<rparr>) = (e, s)" by fastforce
  with wrt[of db' db] obtain s' where w': "write (st'\<lparr>psLimits := db'\<rparr>) = (e, s')" by (metis fst_conv surj_pair)
  show ?thesis by (simp add: created_def reserve_for_def ReserveResourceSlot_def r r' w w' split: option.split)
qed

text \<open>What a create may not name: the project, or a product in it.\<close>

definition names_taken_id :: "uuid \<Rightarrow> projects_state \<Rightarrow> api_call \<Rightarrow> project_route \<Rightarrow> bool" where
  "names_taken_id p st call route =
    (case route of
       RCreateProject (Inr req) \<Rightarrow> EnsureUUIDV7 (apFresh call) (cjID req) = p
     | RCreateProduct (Inr req) \<Rightarrow> (case product_of (EnsureUUIDV7 (apFresh call) (cjID req)) st of None \<Rightarrow> False | Some r \<Rightarrow> pdProject r = p)
     | _ \<Rightarrow> False)"

lemma EnsureUUIDV7_id: "IsUUIDV7 u \<Longrightarrow> EnsureUUIDV7 fresh u = u"
  by (auto simp: EnsureUUIDV7_def IsUUIDV7_def)

lemma Projects_Create_answer:
  assumes "IsUUIDV7 (ijID i)" "ijID i \<noteq> p"
  shows "fst (Projects_Create key call (Some i) (drop_project p st)) = fst (Projects_Create key call (Some i) st)"
proof (cases "InsertProjectInput_Validate i")
  case (Inr i')
  then have i': "ijID i' = ijID i" "ijUserID i' = ijUserID i"
    by (auto simp: InsertProjectInput_Validate_def Let_def split: prod.splits if_splits)
  have "fst (repo_InsertProject (pcWrite call) i' (drop_project p st)) = fst (repo_InsertProject (pcWrite call) i' st)"
  proof -
    have "ijID j = ijID i'" if "InsertProjectInput_Validate i' = Inr j" for j
      using that by (auto simp: InsertProjectInput_Validate_def Let_def split: prod.splits if_splits)
    then show ?thesis
      using assms i' by (auto simp: repo_InsertProject_def drop_elsewhere(1) intro!: answered_fst split: sum.split)
  qed
  then have "fst (created key call (user_scope (ijUserID i')) ''projects'' (repo_InsertProject (pcWrite call) i') (drop_project p st))
      = fst (created key call (user_scope (ijUserID i')) ''projects'' (repo_InsertProject (pcWrite call) i') st)"
    by (intro created_answer dropped_slot) (simp add: insert_reads_tables)
  then show ?thesis by (simp add: Projects_Create_def EnsureUUIDV7_id assms(1) Inr)
qed (simp add: Projects_Create_def EnsureUUIDV7_id assms(1))

lemma Products_Create_answer:
  assumes "IsUUIDV7 (npID i)" "npProjectID i \<noteq> p" "projects_wf st"
    and free: "\<And>r. product_of (npID i) st = Some r \<Longrightarrow> pdProject r \<noteq> p"
  shows "fst (Products_Create key call (Some i) (drop_project p st)) = fst (Products_Create key call (Some i) st)"
proof (cases "InsertProductInput_Validate i")
  case None
  have "product_of (npID i) (drop_project p st) = product_of (npID i) st"
    using free by (auto simp: drop_product_of[OF assms(3)] split: option.split)
  then have "fst (repo_InsertProduct (pcWrite call) i (drop_project p st)) = fst (repo_InsertProduct (pcWrite call) i st)"
    using assms by (auto simp: repo_InsertProduct_def drop_elsewhere intro!: answered_fst split: option.split)
  then have "fst (created key call (project_scope (npProjectID i)) ''products'' (repo_InsertProduct (pcWrite call) i) (drop_project p st))
      = fst (created key call (project_scope (npProjectID i)) ''products'' (repo_InsertProduct (pcWrite call) i) st)"
    using assms(2) by (intro created_answer dropped_slot) (simp_all add: insert_reads_tables)
  then show ?thesis by (simp add: Products_Create_def EnsureUUIDV7_id assms(1) Let_def None)
qed (simp add: Products_Create_def EnsureUUIDV7_id assms(1) Let_def)

lemma Projects_DeleteByID_answer:
  assumes "projects_wf st" "djID i \<noteq> p"
  shows "fst (Projects_DeleteByID key call i (drop_project p st)) = fst (Projects_DeleteByID key call i st)"
proof -
  let ?st' = "drop_project p st"
  have ex: "list_ex (\<lambda>(_, q). pdProject q = djID i \<and> pdSystem q) (psProducts ?st') = list_ex (\<lambda>(_, q). pdProject q = djID i \<and> pdSystem q) (psProducts st)"
    using assms(2) by (fastforce simp: drop_project_def list_ex_iff)
  have w: "fst (repo_DeleteProject (pcWrite call) i ?st') = fst (repo_DeleteProject (pcWrite call) i st)"
    using assms(2) by (auto simp: repo_DeleteProject_def drop_elsewhere ex intro!: answered_fst split: option.split)
  have l: "psLimits (snd (repo_DeleteProject (pcWrite call) i s)) = psLimits (drop_project (djID i) s)"
    if "fst (repo_DeleteProject (pcWrite call) i s) = None" for s
    using that by (auto simp: repo_DeleteProject_def answered_def split: option.splits pg_outcome.splits if_splits)
  obtain e s where q: "repo_DeleteProject (pcWrite call) i st = (e, s)" by fastforce
  with w obtain s' where q': "repo_DeleteProject (pcWrite call) i ?st' = (e, s')" by (metis fst_conv surj_pair)
  show ?thesis
  proof (cases e)
    case None
    have "psLimits s = psLimits (drop_project (djID i) st)" "psLimits s' = psLimits (drop_project (djID i) ?st')"
      using l[of st] l[of ?st'] q q' None by simp_all
    then have "same_slot (ukey_of (user_scope (djUserID i)) ''projects'') (counted s) (counted s')"
      using dropped_slot(1)[of "djUserID i" "''projects''" st p]
        drop_usage_row[of "ukey_of (user_scope (djUserID i)) ''projects''" "djID i" st]
        drop_usage_row[of "ukey_of (user_scope (djUserID i)) ''projects''" "djID i" ?st']
      by (simp add: same_slot_def ukey_of_def user_scope_def) (simp add: drop_project_def)
    from DecrementUsage_answer[OF this] show ?thesis
      by (simp add: Projects_DeleteByID_def q q' None split_beta Let_def)
  qed (simp add: Projects_DeleteByID_def q q')
qed

lemma Products_Delete_answer:
  assumes "projects_wf st" "ddProjectID i \<noteq> p"
  shows "fst (Products_Delete key call (Some i) (drop_project p st)) = fst (Products_Delete key call (Some i) st)"
proof -
  have w: "fst (repo_DeleteProduct (pcWrite call) i (drop_project p st)) = fst (repo_DeleteProduct (pcWrite call) i st)"
    using assms by (auto simp: repo_DeleteProduct_def drop_own_product intro!: answered_fst split: option.split)
  have "fst (Products_Delete key call (Some i) s)
      = (case DeleteProductInput_Validate i of Some e \<Rightarrow> Some (JValidation e) | None \<Rightarrow> fst (repo_DeleteProduct (pcWrite call) i s))" for s
    by (auto simp: Products_Delete_def split: option.split prod.split)
  with w show ?thesis by (simp cong: option.case_cong)
qed

lemma updates_answer:
  assumes "projects_wf st"
  shows "ujID i1 \<noteq> p \<Longrightarrow> fst (Projects_UpdateByID call (Some i1) (drop_project p st)) = fst (Projects_UpdateByID call (Some i1) st)"
    and "ljProjectID i2 \<noteq> p \<Longrightarrow> fst (Projects_LinkUsers call (Some i2) (drop_project p st)) = fst (Projects_LinkUsers call (Some i2) st)"
    and "ljProjectID i2 \<noteq> p \<Longrightarrow> fst (Projects_UnlinkUsers call (Some i2) (drop_project p st)) = fst (Projects_UnlinkUsers call (Some i2) st)"
    and "udProjectID i3 \<noteq> p \<Longrightarrow> fst (Products_Update call (Some i3) (drop_project p st)) = fst (Products_Update call (Some i3) st)"
proof -
  have v: "ujID j = ujID i" if "UpdateProjectInput_Validate i = Inr j" for i j
    using that by (auto simp: UpdateProjectInput_Validate_def Let_def split: prod.splits if_splits)
  show "fst (Projects_UpdateByID call (Some i1) (drop_project p st)) = fst (Projects_UpdateByID call (Some i1) st)" if "ujID i1 \<noteq> p"
    using that by (auto simp: Projects_UpdateByID_def repo_UpdateProject_def drop_elsewhere dest!: v intro!: answered_fst
        split: sum.split option.split)
  show "fst (Projects_LinkUsers call (Some i2) (drop_project p st)) = fst (Projects_LinkUsers call (Some i2) st)"
    "fst (Projects_UnlinkUsers call (Some i2) (drop_project p st)) = fst (Projects_UnlinkUsers call (Some i2) st)"
    if "ljProjectID i2 \<noteq> p"
    using that by (auto simp: Projects_LinkUsers_def repo_LinkProjectUsers_def Projects_UnlinkUsers_def repo_UnlinkProjectUsers_def
        drop_elsewhere intro!: answered_fst split: option.split)
  show "fst (Products_Update call (Some i3) (drop_project p st)) = fst (Products_Update call (Some i3) st)" if "udProjectID i3 \<noteq> p"
    using that assms by (auto simp: Products_Update_def repo_UpdateProduct_def drop_own_product drop_elsewhere intro!: answered_fst
        split: option.split)
qed

lemma reads_answer:
  assumes "projects_wf st" "q \<noteq> p"
  shows "Projects_GetByIDByUserID call cached q u (drop_project p st) = Projects_GetByIDByUserID call cached q u st"
    and "Products_Get call x q u (drop_project p st) = Products_Get call x q u st"
  by (simp_all add: Projects_GetByIDByUserID_def repo_SelectProject_def Products_Get_def repo_SelectProduct_def drop_own_product
      drop_elsewhere assms cong: option.case_cong)

section \<open>Lists\<close>

text \<open>What a list shows an outsider is what it shows without the project.\<close>

lemma projects_view_answer:
  assumes "\<not> visible_project p u st"
  shows "view_projects_users call u (drop_project p st) = view_projects_users call u st"
proof -
  have "q \<noteq> p \<and> visible_project q u (drop_project p st) \<longleftrightarrow> visible_project q u st" for q
    using assms drop_elsewhere(4)[of q p u st] by (cases "q = p") auto
  then have "filter (\<lambda>(q, _). visible_project q u (drop_project p st)) (filter (\<lambda>(q, _). q \<noteq> p) xs)
      = filter (\<lambda>(q, _). visible_project q u st) xs" for xs :: "(uuid \<times> project_row) list"
    by (simp add: case_prod_unfold)
  then show ?thesis by (simp add: view_projects_users_def) (simp add: drop_project_def)
qed

lemma shared_view_answer:
  assumes "\<not> may_touch p caller st"
  shows "filter (\<lambda>r. callers_project call caller (drop_project p st) (itID r)) (view_projects_users call u (drop_project p st))
    = filter (\<lambda>r. callers_project call caller st (itID r)) (view_projects_users call u st)"
proof -
  have hidden: "\<not> visible_project p caller st" using assms visible_may_touch by blast
  have c: "callers_project call caller (drop_project p st) = callers_project call caller st"
    by (rule ext) (simp add: callers_project_def projects_view_answer[OF hidden])
  have v: "visible_project q u (drop_project p st) = visible_project q u st" if "q \<noteq> p" for q
    using drop_elsewhere(4)[OF that] .
  have p: "\<not> callers_project call caller st p" using hidden by (simp add: callers_project_visible)
  have "filter (\<lambda>r. callers_project call caller st (itID r)) (map f (filter (\<lambda>(q, _). visible_project q u (drop_project p st)) (filter (\<lambda>(q, _). q \<noteq> p) xs)))
      = filter (\<lambda>r. callers_project call caller st (itID r)) (map f (filter (\<lambda>(q, _). visible_project q u st) xs))"
    if "\<And>q r. itID (f (q, r)) = q" for f :: "uuid \<times> project_row \<Rightarrow> project_row item" and xs
  proof (induction xs)
    case (Cons x xs)
    then show ?case using p v that by (cases "fst x = p"; cases x) auto
  qed simp
  then show ?thesis by (simp add: view_projects_users_def c) (simp add: drop_project_def)
qed

lemma listed_product_answer:
  "pdProject (snd x) \<noteq> p \<Longrightarrow> listed_product call (drop_project p st) x = listed_product call st x"
  by (simp add: listed_product_def drop_elsewhere(1) split_beta)

lemma products_list_answer:
  assumes "\<And>r. pdProject r = p \<Longrightarrow> \<not> shows r" "\<And>r. pdProject r \<noteq> p \<Longrightarrow> shows' r = shows r"
  shows "map (listed_product call (drop_project p st)) (filter (\<lambda>(_, r). shows' r) (psProducts (drop_project p st)))
    = map (listed_product call st) (filter (\<lambda>(_, r). shows r) (psProducts st))"
proof -
  have "map (listed_product call (drop_project p st)) (filter (\<lambda>(_, r). shows' r) (filter (\<lambda>(_, r). pdProject r \<noteq> p) xs))
      = map (listed_product call st) (filter (\<lambda>(_, r). shows r) xs)" for xs
    using assms by (induction xs) (auto simp: listed_product_answer)
  then show ?thesis by (simp add: drop_project_def)
qed

lemma lists_answer:
  "\<not> may_touch p (spUserID i) st \<Longrightarrow> Projects_List call i (drop_project p st) = Projects_List call i st"
  "\<not> may_touch p (spCallerID i) st \<Longrightarrow> Projects_ListByUserID call (Some i) (drop_project p st) = Projects_ListByUserID call (Some i) st"
  "\<not> may_touch p (sqCallerID j) st \<Longrightarrow> Products_List call (Some j) (drop_project p st) = Products_List call (Some j) st"
  "q \<noteq> p \<Longrightarrow> Products_ListByProjectID call q u (Some j) (drop_project p st) = Products_ListByProjectID call q u (Some j) st"
proof -
  show "Projects_List call i (drop_project p st) = Projects_List call i st" if "\<not> may_touch p (spUserID i) st"
  proof -
    have "\<not> visible_project p (spUserID i) st" using that visible_may_touch by blast
    then show ?thesis by (simp add: Projects_List_def repo_SelectProjects_def projects_view_answer split: option.split)
  qed
  show "Projects_ListByUserID call (Some i) (drop_project p st) = Projects_ListByUserID call (Some i) st" if "\<not> may_touch p (spCallerID i) st"
    using shared_view_answer[OF that] by (simp add: Projects_ListByUserID_def repo_SelectProjectsByUserID_def split: option.split)
  show "Products_List call (Some j) (drop_project p st) = Products_List call (Some j) st" if h: "\<not> may_touch p (sqCallerID j) st"
  proof -
    have hidden: "\<not> visible_project p (sqCallerID j) st" using h visible_may_touch by blast
    have "map (listed_product call (drop_project p st)) (filter (\<lambda>(_, r). callers_project call (sqCallerID j) (drop_project p st) (pdProject r)) (psProducts (drop_project p st)))
      = map (listed_product call st) (filter (\<lambda>(_, r). callers_project call (sqCallerID j) st (pdProject r)) (psProducts st))"
      using hidden by (intro products_list_answer) (simp add: callers_project_visible, simp add: callers_project_def projects_view_answer)
    then show ?thesis by (simp add: Products_List_def repo_SelectProducts_def split: option.split)
  qed
  show "Products_ListByProjectID call q u (Some j) (drop_project p st) = Products_ListByProjectID call q u (Some j) st" if "q \<noteq> p"
  proof -
    have "map (listed_product call (drop_project p st)) (filter (\<lambda>(_, r). pdProject r = q \<and> may_touch q u (drop_project p st)) (psProducts (drop_project p st)))
      = map (listed_product call st) (filter (\<lambda>(_, r). pdProject r = q \<and> may_touch q u st) (psProducts st))"
      using that by (intro products_list_answer) (auto simp: drop_elsewhere)
    then show ?thesis by (simp add: Products_ListByProjectID_def repo_SelectProductsByProjectID_def split: option.split)
  qed
qed

section \<open>Answers\<close>

lemma with_input_answer:
  "(\<And>i. r = Inr i \<Longrightarrow> fst (f i st') = fst (f i st)) \<Longrightarrow> fst (with_input r f st') = fst (with_input r f st)"
  by (simp add: with_input_def split: sum.split)

lemma wrote_reply_answer:
  "fst r' = fst r \<Longrightarrow> fst (wrote_reply arm gone status message r') = fst (wrote_reply arm gone status message r)"
  by (simp add: wrote_reply_def)

lemma check_field_Nil: "fst (check_field f v errs) = [] \<Longrightarrow> errs = []"
  by (cases "f v") (auto simp: check_field_def)

lemma CreateRequest_id:
  assumes "CreateRequest_Validate w req = Inr req'"
  shows "cjID req' = cjID req \<and> IsUUIDV7 (cjID req)"
proof -
  let ?n = "check_field (\<lambda>s. ValidateString s (text_options ''name'' w)) (cjName req) (Add [] (ValidateUUID (cjID req) 7 ''id''))"
  let ?d = "check_field (\<lambda>s. ValidateString s (text_options ''description'' 1024)) (cjDescription req) (fst ?n)"
  have "fst ?d = [] \<and> cjID req' = cjID req"
    using assms by (auto simp: CreateRequest_Validate_def Let_def HasErrors_def split_beta split: if_splits)
  with check_field_Nil[of _ _ "fst ?n"] check_field_Nil[of _ _ "Add [] (ValidateUUID (cjID req) 7 ''id'')"]
  show ?thesis by (auto simp del: ValidateUUID_7 simp: Add_Nil_None)
qed

lemma serve_answer:
  assumes wf: "projects_wf st" and names: "\<not> names_taken_id p st call route"
    and elsewhere: "\<And>q. uuid_parse (rqProjectID rq) = Some q \<Longrightarrow> q \<noteq> p"
    and outside: "\<And>u. subject_of c = Some u \<Longrightarrow> \<not> may_touch p u st"
  shows "fst (serve call rq c route (drop_project p st)) = fst (serve call rq c route st)"
proof -
  have q: "q \<noteq> p" if "parseUUIDQueryParams (rqProjectID rq) = Inr q" for q
    using elsewhere parseUUIDQueryParams_Inr[OF that] by blast
  have u: "\<not> may_touch p u st" if "getUserIDFromContext c gone = Inr u" for u gone
    using that outside by (auto simp: getUserIDFromContext_def split: option.splits)
  note ids = and_then_Inr decoded_def validated_def projectPathParams_def productPathParams_def
  show ?thesis
  proof (cases route)
    case (RCreateProject body)
    then show ?thesis using names
      by (auto simp: h_create_project_def ids names_taken_id_def intro!: with_input_answer wrote_reply_answer Projects_Create_answer
          dest!: CreateRequest_id split: sum.splits)
  next
    case (RCreateProduct body)
    then show ?thesis using names wf
      by (auto simp: h_create_product_def ids names_taken_id_def intro!: with_input_answer wrote_reply_answer Products_Create_answer
          dest!: CreateRequest_id q split: sum.splits option.splits)
  qed (use wf in \<open>auto simp: h_get_project_def h_update_project_def h_delete_project_def h_link_users_def h_unlink_users_def
      h_get_product_def h_update_product_def h_delete_product_def h_list_projects_def h_list_user_projects_def
      h_list_products_def h_list_project_products_def members_input_def ids reads_answer lists_answer
      intro!: with_input_answer wrote_reply_answer Projects_DeleteByID_answer Products_Delete_answer updates_answer
      dest!: q u split: option.splits\<close>)
qed

section \<open>The gate\<close>

text \<open>An outsider is refused at a project's path in the words for one that is not there.\<close>

lemma membership_of_an_outsider:
  assumes "\<not> may_touch p u st"
  shows "Membership call q u (drop_project p st) = Membership call q u st"
proof (cases "q = p")
  case True
  have "\<not> is_member p u (drop_project p st)" by (simp add: is_member_def drop_project_def List.member_iff)
  with assms True show ?thesis by (simp add: Membership_def SelectMembership_def may_touch_def)
qed (auto simp: Membership_def SelectMembership_def drop_elsewhere)

lemma gate_answer:
  assumes "case caller_of lib signer gcall rq of None \<Rightarrow> True | Some u \<Rightarrow> \<not> may_touch p u st"
  shows "accessTokenMiddlewares (gate_of lib signer mirror gcall (drop_project p st)) rq = accessTokenMiddlewares (gate_of lib signer mirror gcall st) rq"
proof -
  let ?e = "gate_of lib signer mirror gcall st" and ?e' = "gate_of lib signer mirror gcall (drop_project p st)"
  have same: "RequireActiveAccount ?e' c = RequireActiveAccount ?e c" "CheckAuthz ?e' rq c = CheckAuthz ?e rq c" for c
    by (simp_all add: RequireActiveAccount_def CheckAuthz_def gate_of_simps split: option.split sum.split)
  show ?thesis
  proof (cases "CheckAccessToken (gaValidators ?e) (gaRevoked ?e) rq")
    case (Inr ct)
    obtain c token where ct: "ct = (c, token)" by fastforce
    have "caller_of lib signer gcall rq = subject_of c"
      using access_verified[of "VerifyToken lib signer (gcNow gcall)" "Some (TokenMirror_Contains mirror)" rq c token] Inr ct
      by (simp add: gate_of_simps caller_of_def)
    with assms have "\<not> may_touch p u st" if "uuid_parse (claimString c ''sub'') = Some u" for u
      using claimString_subject[OF that] by simp
    then have "RequireProjectMembership ?e' rq c = RequireProjectMembership ?e rq c"
      by (auto simp: RequireProjectMembership_def gate_of_simps membership_of_an_outsider split: option.split sum.split)
    with same Inr ct show ?thesis by (simp add: accessTokenMiddlewares_def guarded_def gate_of_simps)
  qed (simp add: accessTokenMiddlewares_def guarded_def gate_of_simps)
qed

text \<open>
  C7. An account outside a project is answered, on every route of projects and
  products and on their lists, exactly what it would be answered if the
  project, its members and its products were not there, unless it creates a
  project or a product under the id of one of them.  What comes from outside
  the tables is the same for both: the faults, what PostgreSQL makes of a
  filter or a sort, the serials of the rows and what the cache answers.
\<close>

theorem outsiders_learn_nothing:
  assumes "projects_wf st" "outsider p st a" "\<not> names_taken_id p st (avCall a) (avRoute a)"
  shows "fst (respond_to a (drop_project p st)) = fst (respond_to a st)"
proof -
  let ?rq = "routed (avRoute a) (avRequest a)"
  let ?gate = "\<lambda>s. accessTokenMiddlewares (gate_of (avLib a) (avSigner a) (avMirror a) (avGate a) s) ?rq"
  have g: "?gate (drop_project p st) = ?gate st" using assms(2) by (intro gate_answer) (simp add: outsider_def)
  show ?thesis
  proof (cases "?gate st")
    case (Inr ct)
    obtain c token where ct: "ct = (c, token)" by fastforce
    have "q \<noteq> p" if "uuid_parse (rqProjectID ?rq) = Some q" for q
      using gate_caller(2)[OF Inr[unfolded ct]] that assms(2) by (fastforce simp: outsider_def split: option.splits)
    moreover have "\<not> may_touch p u st" if "subject_of c = Some u" for u
      using gate_caller(1)[OF Inr[unfolded ct]] that assms(2) by (simp add: outsider_def)
    ultimately have "fst (serve (avCall a) ?rq c (avRoute a) (drop_project p st)) = fst (serve (avCall a) ?rq c (avRoute a) st)"
      by (intro serve_answer assms(1,3))
    then show ?thesis by (simp add: respond_to_def answer_def g Inr ct)
  qed (simp add: respond_to_def answer_def g)
qed

end
