(* ===== verification/GrantsRuns.thy ===== *)
theory GrantsRuns
  imports GrantsRules
begin

text \<open>
  Runs of the operations on roles, policies and their links, by any callers in
  any order: nobody ends up with more than they had, or someone who asked for a
  change had, and the seeded administrator is never locked out.
\<close>

section \<open>Operations\<close>

datatype grant_op =
    OpCreatePolicy CreatePolicyInput | OpUpdatePolicy UpdatePolicyInput | OpDeletePolicy uuid
  | OpLinkRoles LinkRolesToPolicyInput | OpUnlinkRoles LinkRolesToPolicyInput
  | OpCreateRole InsertRoleInput | OpUpdateRole UpdateRoleInput | OpDeleteRole DeleteRoleInput
  | OpLinkUsers LinkUsersToRoleInput | OpUnlinkUsers LinkUsersToRoleInput
  | OpLinkPolicies LinkPoliciesToRoleInput | OpUnlinkPolicies LinkPoliciesToRoleInput
  | OpLinkUserRoles LinkRolesToUserInput | OpUnlinkUserRoles LinkRolesToUserInput

fun grant_answer :: "grant_env \<Rightarrow> grant_call \<Rightarrow> grant_op \<Rightarrow> grants_state \<Rightarrow> grant_error option \<times> grants_state" where
  "grant_answer env call (OpCreatePolicy i) st = Policies_Create env call (Some i) st"
| "grant_answer env call (OpUpdatePolicy i) st = Policies_UpdateByID env call (Some i) st"
| "grant_answer env call (OpDeletePolicy i) st = Policies_DeleteByID call (Some i) st"
| "grant_answer env call (OpLinkRoles i) st = Policies_LinkRoles call (Some i) st"
| "grant_answer env call (OpUnlinkRoles i) st = Policies_UnlinkRoles call (Some i) st"
| "grant_answer env call (OpCreateRole i) st = Roles_Create call (Some i) st"
| "grant_answer env call (OpUpdateRole i) st = Roles_UpdateByID call (Some i) st"
| "grant_answer env call (OpDeleteRole i) st = Roles_DeleteByID call (Some i) st"
| "grant_answer env call (OpLinkUsers i) st = Roles_LinkUsers env call (Some i) st"
| "grant_answer env call (OpUnlinkUsers i) st = Roles_UnlinkUsers call (Some i) st"
| "grant_answer env call (OpLinkPolicies i) st = Roles_LinkPolicies call (Some i) st"
| "grant_answer env call (OpUnlinkPolicies i) st = Roles_UnlinkPolicies call (Some i) st"
| "grant_answer env call (OpLinkUserRoles i) st = Users_LinkRoles env call (Some i) st"
| "grant_answer env call (OpUnlinkUserRoles i) st = Users_UnlinkRoles call (Some i) st"

text \<open>Who asks, on the routes that can widen what someone holds.\<close>

fun widener :: "grant_op \<Rightarrow> uuid list" where
  "widener (OpUpdatePolicy i) = [ppCallerID i]"
| "widener (OpLinkRoles i) = [lrCallerID i]"
| "widener (OpLinkUsers i) = [luCallerID i]"
| "widener (OpLinkPolicies i) = [lpCallerID i]"
| "widener (OpLinkUserRoles i) = [lsCallerID i]"
| "widener _ = []"

definition grant_run :: "grant_env \<Rightarrow> (grant_call \<times> grant_op) list \<Rightarrow> grants_state \<Rightarrow> grants_state" where
  "grant_run env ops st = foldl (\<lambda>st (call, op). snd (grant_answer env call op st)) st ops"

text \<open>The keys: primary keys, the serial's UNIQUE, and the foreign keys of the links to roles and policies.\<close>

definition grants_wf :: "grants_state \<Rightarrow> bool" where
  "grants_wf st \<longleftrightarrow> distinct (map itSerial (gsPolicies st)) \<and> distinct (map itID (gsPolicies st))
    \<and> (\<forall>(r, p)\<in>set (gsRolesPolicies st). role_of r st \<noteq> None \<and> p \<in> itID ` set (gsPolicies st))
    \<and> (\<forall>(u, r)\<in>set (users_roles st). role_of r st \<noteq> None)"

section \<open>What a step does\<close>

lemma users_roles_simps [simp]:
  "users_roles (set_users_roles urs st) = urs" "gsRoles (set_users_roles urs st) = gsRoles st"
  "gsPolicies (set_users_roles urs st) = gsPolicies st" "gsRolesPolicies (set_users_roles urs st) = gsRolesPolicies st"
  "acUsers (gsAccounts (set_users_roles urs st)) = acUsers (gsAccounts st)" "role_of r (set_users_roles urs st) = role_of r st"
  "users_roles (gsRoles_update f st) = users_roles st" "users_roles (gsPolicies_update g st) = users_roles st"
  "users_roles (gsRolesPolicies_update h st) = users_roles st"
  "role_of r (gsPolicies_update g st) = role_of r st" "role_of r (gsRolesPolicies_update h st) = role_of r st"
  by (simp_all add: users_roles_def set_users_roles_def role_of_def)

lemma add_links_set [simp]: "set (add_links new links) = set new \<union> set links"
  by (auto simp: add_links_def List.member_iff)

lemma policy_of_Some: "policy_of pid st = Some p \<Longrightarrow> p \<in> set (gsPolicies st) \<and> itID p = pid"
  by (auto simp: policy_of_def find_Some_iff)

lemma policy_of_None: "policy_of pid st = None \<longleftrightarrow> pid \<notin> itID ` set (gsPolicies st)"
  by (auto simp: policy_of_def find_None_iff)

text \<open>Nothing is added that anyone could hold.\<close>

definition shrinks :: "grants_state \<Rightarrow> grants_state \<Rightarrow> bool" where
  "shrinks st st' \<longleftrightarrow> acUsers (gsAccounts st') = acUsers (gsAccounts st)
    \<and> set (users_roles st') \<subseteq> set (users_roles st) \<and> set (gsRolesPolicies st') \<subseteq> set (gsRolesPolicies st)
    \<and> set (gsPolicies st') \<subseteq> set (gsPolicies st)"

lemma shrinks_held: "grants_wf st \<Longrightarrow> shrinks st st' \<Longrightarrow> x \<in> held st' u \<Longrightarrow> x \<in> held st u"
proof -
  assume wf: "grants_wf st" and s: "shrinks st st'" and x: "x \<in> held st' u"
  obtain r p where *: "(u, r) \<in> set (users_roles st')" "p \<in> set (gsPolicies st')" "(r, itID p) \<in> set (gsRolesPolicies st')"
    "x = (plResource (itBody p), plAction (itBody p))" and u: "user_row_of u (gsAccounts st') \<noteq> None" "u \<noteq> uuid_nil"
    using x unfolding held_iff by blast
  have "(u, r) \<in> set (users_roles st)" using * s by (auto simp: shrinks_def)
  moreover from this have "role_of r st \<noteq> None" using wf by (auto simp: grants_wf_def)
  moreover have "user_row_of u (gsAccounts st) \<noteq> None" using s u by (simp add: shrinks_def user_row_of_def)
  ultimately show ?thesis unfolding held_iff using * u(2) s unfolding shrinks_def by blast
qed

lemma shrinks_refl [simp]: "shrinks st st"
  by (simp add: shrinks_def)

text \<open>The steps that only take away, or add what nothing is linked to.\<close>

lemma takes_away:
  "shrinks st (snd (Policies_DeleteByID call a st))" "shrinks st (snd (Policies_UnlinkRoles call b st))"
  "shrinks st (snd (Roles_Create call c st))" "shrinks st (snd (Roles_UpdateByID call d st))"
  "shrinks st (snd (Roles_DeleteByID call e st))" "shrinks st (snd (Roles_UnlinkUsers call f st))"
  "shrinks st (snd (Roles_UnlinkPolicies call g st))" "shrinks st (snd (Users_UnlinkRoles call h st))"
  by (auto simp: Policies_DeleteByID_def repo_DeletePolicy_def Policies_UnlinkRoles_def repo_UnlinkRoles_policy_def
      Roles_Create_def repo_InsertRole_def Roles_UpdateByID_def repo_UpdateRole_def Roles_DeleteByID_def repo_DeleteRole_def
      Roles_UnlinkUsers_def repo_UnlinkUsers_def Roles_UnlinkPolicies_def repo_UnlinkPolicies_def
      Users_UnlinkRoles_def repo_UnlinkRoles_user_def shrinks_def Let_def split: option.split sum.split)

text \<open>What the others write, and what the guard had found.\<close>

text \<open>An action and a pattern as the validators take them.\<close>

definition valid_pattern :: "policy_row \<Rightarrow> bool" where
  "valid_pattern p \<longleftrightarrow> List.member valid_actions (plAction p) \<and> rx_match resource_rx (plResource p)"

lemma check_action_Nil: "check_action a errs = [] \<longleftrightarrow> errs = [] \<and> a \<noteq> [] \<and> List.member valid_actions a"
  by (simp add: check_action_def)

lemma check_resource_Nil: "check_resource r errs = [] \<longleftrightarrow> errs = [] \<and> r \<noteq> [] \<and> rx_match resource_rx r"
  by (simp add: check_resource_def)

lemma Add_is_Nil: "Add errs o_err = [] \<Longrightarrow> errs = []"
  using Add_eq_append[of errs o_err] by auto

lemma validated_pattern:
  "CreatePolicyInput_Validate i = None \<Longrightarrow> List.member valid_actions (cpAllowedAction i) \<and> rx_match resource_rx (cpAllowedResource i)"
  unfolding CreatePolicyInput_Validate_def Let_def errs_result_None
  by (drule Add_is_Nil) (simp only: check_action_Nil check_resource_Nil)

lemma updated_pattern:
  "UpdatePolicyInput_Validate i = None \<Longrightarrow> valid_pattern p \<Longrightarrow> valid_pattern (updated_policy i p)"
  by (auto simp: UpdatePolicyInput_Validate_def Let_def check_action_Nil check_resource_Nil valid_pattern_def updated_policy_def text_arg_def
      split: option.splits)

lemma repo_InsertPolicy_cases:
  "snd (repo_InsertPolicy call i st) = st \<or> (\<exists>p. snd (repo_InsertPolicy call i st) = st\<lparr>gsPolicies := p # gsPolicies st\<rparr>
    \<and> itID p \<notin> itID ` set (gsPolicies st) \<and> itSerial p \<notin> itSerial ` set (gsPolicies st) \<and> valid_pattern (itBody p))"
proof (cases "snd (repo_InsertPolicy call i st) = st")
  case False
  let ?p = "\<lparr>itID = cpID i, itSerial = gcSerial call, itBody = \<lparr>plName = cpName i, plDescription = cpDescription i,
    plAction = cpAllowedAction i, plResource = cpAllowedResource i, plSystem = False, plResourceID = cpResourceID i\<rparr>\<rparr>"
  have "snd (repo_InsertPolicy call i st) = st\<lparr>gsPolicies := ?p # gsPolicies st\<rparr>"
    and "itID ?p \<notin> itID ` set (gsPolicies st)" "itSerial ?p \<notin> itSerial ` set (gsPolicies st)"
    using False by (auto simp: repo_InsertPolicy_def policy_of_None list_ex_iff split: option.splits if_splits)
  moreover have "valid_pattern (itBody ?p)"
    using False validated_pattern[of i] by (simp add: repo_InsertPolicy_def valid_pattern_def split: option.splits)
  ultimately show ?thesis by (intro disjI2 exI[of _ ?p]) simp
qed simp

lemma create_policy_cases:
  assumes "st' = snd (Policies_Create env call i st)"
  shows "st' = st \<or> (\<exists>p. st' = st\<lparr>gsPolicies := p # gsPolicies st\<rparr> \<and> itID p \<notin> itID ` set (gsPolicies st)
    \<and> itSerial p \<notin> itSerial ` set (gsPolicies st) \<and> valid_pattern (itBody p))"
proof -
  have "st' = st \<or> (\<exists>j. st' = snd (repo_InsertPolicy call j st))"
    unfolding assms Policies_Create_def Let_def by (simp split: option.split sum.split prod.split) blast
  then show ?thesis using repo_InsertPolicy_cases by metis
qed

lemma update_policy_cases:
  assumes "st' = snd (Policies_UpdateByID env call (Some i) st)"
  shows "st' = st \<or> (\<exists>p. policy_of (ppID i) st = Some p \<and> \<not> plSystem (itBody p) \<and> UpdatePolicyInput_Validate i = None
    \<and> st' = replace_policy (ppID i) (updated_policy i (itBody p)) st
    \<and> ((plResource (updated_policy i (itBody p)), plAction (updated_policy i (itBody p))) = (plResource (itBody p), plAction (itBody p))
       \<or> covered (held st (ppCallerID i)) (plResource (updated_policy i (itBody p)), plAction (updated_policy i (itBody p)))))"
proof (cases "Policies_UpdateByID_checked env call (Some i) st")
  case None
  show ?thesis
  proof (cases "st' = st")
    case False
    with None assms obtain p where p: "policy_of (ppID i) st = Some p" "\<not> plSystem (itBody p)"
      "st' = replace_policy (ppID i) (updated_policy i (itBody p)) st" and v: "UpdatePolicyInput_Validate i = None"
      by (auto simp: Policies_UpdateByID_def repo_UpdatePolicy_def Let_def split: option.splits if_splits)
    have ne: "ppAllowedAction i \<noteq> Some []" "ppAllowedResource i \<noteq> Some []"
      using v by (auto simp: UpdatePolicyInput_Validate_def Let_def check_action_Nil check_resource_Nil split: option.splits)
    let ?a = "case ppAllowedAction i of None \<Rightarrow> plAction (itBody p) | Some a \<Rightarrow> a"
    let ?r = "case ppAllowedResource i of None \<Rightarrow> plResource (itBody p) | Some r \<Rightarrow> r"
    have u: "plAction (updated_policy i (itBody p)) = ?a" "plResource (updated_policy i (itBody p)) = ?r"
      using ne by (auto simp: updated_policy_def text_arg_def split: option.splits)
    have "repo_SelectPolicy call (ppID i) st = Inr p"
      using None v p(1) by (auto simp: Policies_UpdateByID_checked_def repo_SelectPolicy_def split: sum.splits if_splits)
    with None v have "(?r, ?a) = (plResource (itBody p), plAction (itBody p))
        \<or> CheckGrants call (ppCallerID i) [\<lparr>grAction = ?a, grResource = ?r\<rparr>] st = None"
      by (auto simp: Policies_UpdateByID_checked_def Let_def split: option.splits if_splits)
    with p v u CheckGrants_covered[of call "ppCallerID i" "[\<lparr>grAction = ?a, grResource = ?r\<rparr>]" st] show ?thesis by auto
  qed simp
qed (use assms in \<open>simp add: Policies_UpdateByID_def\<close>)

lemma link_policy_cases:
  assumes "st' = snd (Policies_LinkRoles call (Some i) st)"
  shows "st' = st \<or> (\<exists>rs p. st' = st\<lparr>gsRolesPolicies := add_links (map (\<lambda>r. (r, itID p)) rs) (gsRolesPolicies st)\<rparr>
    \<and> (\<forall>r\<in>set rs. role_of r st \<noteq> None) \<and> policy_of (itID p) st = Some p
    \<and> covered (held st (lrCallerID i)) (plResource (itBody p), plAction (itBody p)))"
proof -
  let ?rs = "case lrRoleIDs i of None \<Rightarrow> [] | Some us \<Rightarrow> us"
  have "st' = st \<or> (st' = st\<lparr>gsRolesPolicies := add_links (map (\<lambda>r. (r, lrPolicyID i)) ?rs) (gsRolesPolicies st)\<rparr>
      \<and> \<not> list_ex (\<lambda>r. role_of r st = None) ?rs \<and> CheckPolicies call (lrCallerID i) [lrPolicyID i] st = None)"
    unfolding assms Policies_LinkRoles_def repo_LinkRoles_policy_def Let_def by (simp split: option.split)
  then show ?thesis
  proof (elim disjE conjE)
    assume st': "st' = st\<lparr>gsRolesPolicies := add_links (map (\<lambda>r. (r, lrPolicyID i)) ?rs) (gsRolesPolicies st)\<rparr>"
      and roles: "\<not> list_ex (\<lambda>r. role_of r st = None) ?rs" and check: "CheckPolicies call (lrCallerID i) [lrPolicyID i] st = None"
    obtain p where p: "policy_of (lrPolicyID i) st = Some p" "covered (held st (lrCallerID i)) (plResource (itBody p), plAction (itBody p))"
      using CheckPolicies_covered[OF check] by auto
    then have "itID p = lrPolicyID i" using policy_of_Some by blast
    with st' roles p show ?thesis unfolding list_ex_iff by (intro disjI2 exI[of _ ?rs] exI[of _ p]) auto
  qed simp
qed

lemma link_policies_cases:
  assumes "st' = snd (Roles_LinkPolicies call (Some i) st)"
  shows "st' = st \<or> (st' = st\<lparr>gsRolesPolicies := add_links (map (\<lambda>p. (lpRoleID i, p)) (lpPolicyIDs i)) (gsRolesPolicies st)\<rparr>
    \<and> role_of (lpRoleID i) st \<noteq> None
    \<and> (\<forall>pid\<in>set (lpPolicyIDs i). \<exists>p. policy_of pid st = Some p \<and> covered (held st (lpCallerID i)) (plResource (itBody p), plAction (itBody p))))"
proof -
  have "st' = st \<or> (st' = st\<lparr>gsRolesPolicies := add_links (map (\<lambda>p. (lpRoleID i, p)) (lpPolicyIDs i)) (gsRolesPolicies st)\<rparr>
      \<and> role_of (lpRoleID i) st \<noteq> None \<and> CheckPolicies call (lpCallerID i) (lpPolicyIDs i) st = None)"
    using assms by (auto simp: Roles_LinkPolicies_def repo_LinkPolicies_def Let_def split: option.splits if_splits)
  then show ?thesis using CheckPolicies_covered[of call "lpCallerID i" "lpPolicyIDs i" st] by blast
qed

text \<open>New links of accounts to roles, each role checked.\<close>

definition joins :: "grants_state \<Rightarrow> grants_state \<Rightarrow> uuid \<Rightarrow> (uuid \<times> uuid) list \<Rightarrow> bool" where
  "joins st st' c new \<longleftrightarrow> st' = set_users_roles (add_links new (users_roles st)) st
    \<and> (\<forall>(u, r)\<in>set new. role_of r st \<noteq> None \<and> (\<forall>p\<in>set (gsPolicies st). (r, itID p) \<in> set (gsRolesPolicies st)
         \<longrightarrow> covered (held st c) (plResource (itBody p), plAction (itBody p))))"

lemma link_users_cases:
  assumes "st' = snd (Roles_LinkUsers env call (Some i) st)" "distinct (map itSerial (gsPolicies st))"
  shows "st' = st \<or> joins st st' (luCallerID i) (map (\<lambda>u. (u, luRoleID i)) (luUserIDs i))"
proof -
  have "st' = st \<or> (st' = set_users_roles (add_links (map (\<lambda>u. (u, luRoleID i)) (luUserIDs i)) (users_roles st)) st
      \<and> role_of (luRoleID i) st \<noteq> None \<and> CheckRoles env call (luCallerID i) [luRoleID i] st = None)"
    using assms(1) by (auto simp: Roles_LinkUsers_def repo_LinkUsers_def Let_def split: option.splits if_splits)
  then show ?thesis using CheckRoles_covered[OF assms(2)] by (force simp: joins_def)
qed

lemma link_user_roles_cases:
  assumes "st' = snd (Users_LinkRoles env call (Some i) st)" "distinct (map itSerial (gsPolicies st))"
  shows "st' = st \<or> joins st st' (lsCallerID i) (map (\<lambda>r. (lsUserID i, r)) (lsRoleIDs i))"
proof -
  have "st' = st \<or> (st' = set_users_roles (add_links (map (\<lambda>r. (lsUserID i, r)) (lsRoleIDs i)) (users_roles st)) st
      \<and> (\<forall>r\<in>set (lsRoleIDs i). role_of r st \<noteq> None) \<and> CheckRoles env call (lsCallerID i) (lsRoleIDs i) st = None)"
    using assms(1) by (auto simp: Users_LinkRoles_def repo_LinkRoles_user_def list_ex_iff Let_def split: option.splits if_splits)
  then show ?thesis using CheckRoles_covered[OF assms(2)] by (force simp: joins_def)
qed

section \<open>Nobody ends up with more\<close>

lemma held_more:
  assumes "x \<in> held st' u"
  obtains r p where "(u, r) \<in> set (users_roles st')" "role_of r st' \<noteq> None" "p \<in> set (gsPolicies st')"
    "(r, itID p) \<in> set (gsRolesPolicies st')" "x = (plResource (itBody p), plAction (itBody p))" "user_row_of u (gsAccounts st') \<noteq> None" "u \<noteq> uuid_nil"
  using assms unfolding held_iff by blast

lemma create_policy_held:
  assumes "grants_wf st" "itID p \<notin> itID ` set (gsPolicies st)" "x \<in> held (st\<lparr>gsPolicies := p # gsPolicies st\<rparr>) u"
  shows "x \<in> held st u"
proof -
  obtain r q where q: "(u, r) \<in> set (users_roles st)" "role_of r st \<noteq> None" "q \<in> set (p # gsPolicies st)"
    "(r, itID q) \<in> set (gsRolesPolicies st)" "x = (plResource (itBody q), plAction (itBody q))" "user_row_of u (gsAccounts st) \<noteq> None" "u \<noteq> uuid_nil"
    using held_more[OF assms(3)] by (auto simp: role_of_def users_roles_def)
  then have "itID q \<in> itID ` set (gsPolicies st)" using assms(1) by (auto simp: grants_wf_def)
  with q assms(2) show ?thesis unfolding held_iff by auto
qed

lemma replace_policy_simps [simp]:
  "users_roles (replace_policy pid row st) = users_roles st" "role_of r (replace_policy pid row st) = role_of r st"
  "gsRolesPolicies (replace_policy pid row st) = gsRolesPolicies st" "gsAccounts (replace_policy pid row st) = gsAccounts st"
  "map itID (gsPolicies (replace_policy pid row st)) = map itID (gsPolicies st)"
  "map itSerial (gsPolicies (replace_policy pid row st)) = map itSerial (gsPolicies st)"
  "gsRoles (replace_policy pid row st) = gsRoles st"
  by (simp_all add: replace_policy_def users_roles_def role_of_def)

lemma update_policy_held:
  assumes "x \<in> held (replace_policy pid row st) u" "policy_of pid st = Some p" "distinct (map itID (gsPolicies st))"
  shows "x \<in> held st u \<or> (x = (plResource row, plAction row) \<and> (plResource (itBody p), plAction (itBody p)) \<in> held st u)"
proof -
  obtain r q where q: "(u, r) \<in> set (users_roles st)" "role_of r st \<noteq> None" "q \<in> set (gsPolicies (replace_policy pid row st))"
    "(r, itID q) \<in> set (gsRolesPolicies st)" "x = (plResource (itBody q), plAction (itBody q))" "user_row_of u (gsAccounts st) \<noteq> None" "u \<noteq> uuid_nil"
    using held_more[OF assms(1)] by auto
  from q(3) obtain o' where o: "o' \<in> set (gsPolicies st)" "q = (if itID o' = pid then o'\<lparr>itBody := row\<rparr> else o')"
    by (auto simp: replace_policy_def)
  show ?thesis
  proof (cases "itID o' = pid")
    case True
    have "o' = p" using assms(2,3) True o(1) policy_of_Some[OF assms(2)] by (metis distinct_map inj_onD)
    with q o True show ?thesis unfolding held_iff by auto
  next
    case False
    with q o show ?thesis unfolding held_iff by auto
  qed
qed

lemma joins_held:
  assumes "joins st st' c new" "x \<in> held st' u"
  shows "x \<in> held st u \<or> covered (held st c) x"
proof -
  obtain r p where p: "(u, r) \<in> set new \<union> set (users_roles st)" "role_of r st \<noteq> None" "p \<in> set (gsPolicies st)"
    "(r, itID p) \<in> set (gsRolesPolicies st)" "x = (plResource (itBody p), plAction (itBody p))" "user_row_of u (gsAccounts st) \<noteq> None" "u \<noteq> uuid_nil"
    using held_more[OF assms(2)] assms(1) by (auto simp: joins_def user_row_of_def)
  show ?thesis
  proof (cases "(u, r) \<in> set new")
    case True
    with assms(1) p show ?thesis by (auto simp: joins_def)
  next
    case False
    with p show ?thesis unfolding held_iff by blast
  qed
qed

lemma linked_held:
  assumes "x \<in> held (st\<lparr>gsRolesPolicies := add_links new (gsRolesPolicies st)\<rparr>) u" "distinct (map itID (gsPolicies st))"
    and "\<And>r pid. (r, pid) \<in> set new \<Longrightarrow> \<exists>p. policy_of pid st = Some p \<and> covered (held st c) (plResource (itBody p), plAction (itBody p))"
  shows "x \<in> held st u \<or> covered (held st c) x"
proof -
  obtain r p where p: "(u, r) \<in> set (users_roles st)" "role_of r st \<noteq> None" "p \<in> set (gsPolicies st)"
    "(r, itID p) \<in> set new \<union> set (gsRolesPolicies st)" "x = (plResource (itBody p), plAction (itBody p))" "user_row_of u (gsAccounts st) \<noteq> None" "u \<noteq> uuid_nil"
    using held_more[OF assms(1)] by auto
  show ?thesis
  proof (cases "(r, itID p) \<in> set new")
    case True
    then obtain q where q: "policy_of (itID p) st = Some q" "covered (held st c) (plResource (itBody q), plAction (itBody q))"
      using assms(3) by blast
    have "q = p" using policy_of_Some[OF q(1)] p(3) assms(2) by (metis distinct_map inj_onD)
    with q p show ?thesis by simp
  next
    case False
    with p show ?thesis unfolding held_iff by blast
  qed
qed

lemma step_held:
  assumes "grants_wf st" "x \<in> held (snd (grant_answer env call op st)) u"
  shows "x \<in> held st u \<or> (\<exists>c\<in>set (widener op). covered (held st c) x)"
proof -
  have d: "distinct (map itSerial (gsPolicies st))" "distinct (map itID (gsPolicies st))" using assms(1) by (simp_all add: grants_wf_def)
  have keep: ?thesis if "shrinks st (snd (grant_answer env call op st))" using shrinks_held[OF assms(1) that assms(2)] by blast
  show ?thesis
  proof (cases op)
    case (OpCreatePolicy i)
    then show ?thesis
      using assms(2) create_policy_cases[OF refl, of env call "Some i" st] create_policy_held[OF assms(1)] by (metis grant_answer.simps(1))
  next
    case (OpUpdatePolicy i)
    show ?thesis using update_policy_cases[OF refl, of env call i st]
    proof (elim disjE exE conjE)
      fix p assume "policy_of (ppID i) st = Some p" "snd (Policies_UpdateByID env call (Some i) st) = replace_policy (ppID i) (updated_policy i (itBody p)) st"
        "covered (held st (ppCallerID i)) (plResource (updated_policy i (itBody p)), plAction (updated_policy i (itBody p)))"
      with OpUpdatePolicy assms(2) d update_policy_held show ?thesis by fastforce
    next
      fix p assume "policy_of (ppID i) st = Some p" "snd (Policies_UpdateByID env call (Some i) st) = replace_policy (ppID i) (updated_policy i (itBody p)) st"
        "(plResource (updated_policy i (itBody p)), plAction (updated_policy i (itBody p))) = (plResource (itBody p), plAction (itBody p))"
      with OpUpdatePolicy assms(2) d update_policy_held show ?thesis by fastforce
    qed (use OpUpdatePolicy assms in simp)
  next
    case (OpLinkRoles i)
    show ?thesis using link_policy_cases[OF refl, of call i st]
    proof (elim disjE exE conjE)
      fix rs p assume "snd (Policies_LinkRoles call (Some i) st) = st\<lparr>gsRolesPolicies := add_links (map (\<lambda>r. (r, itID p)) rs) (gsRolesPolicies st)\<rparr>"
        and p: "policy_of (itID p) st = Some p" "covered (held st (lrCallerID i)) (plResource (itBody p), plAction (itBody p))"
      then have "x \<in> held (st\<lparr>gsRolesPolicies := add_links (map (\<lambda>r. (r, itID p)) rs) (gsRolesPolicies st)\<rparr>) u"
        using OpLinkRoles assms(2) by simp
      from linked_held[OF this d(2), of "lrCallerID i"] p OpLinkRoles show ?thesis by auto
    qed (use OpLinkRoles assms in simp)
  next
    case (OpLinkPolicies i)
    show ?thesis using link_policies_cases[OF refl, of call i st]
    proof (elim disjE conjE)
      assume "snd (Roles_LinkPolicies call (Some i) st) = st\<lparr>gsRolesPolicies := add_links (map (\<lambda>p. (lpRoleID i, p)) (lpPolicyIDs i)) (gsRolesPolicies st)\<rparr>"
        and p: "\<forall>pid\<in>set (lpPolicyIDs i). \<exists>p. policy_of pid st = Some p \<and> covered (held st (lpCallerID i)) (plResource (itBody p), plAction (itBody p))"
      then have "x \<in> held (st\<lparr>gsRolesPolicies := add_links (map (\<lambda>p. (lpRoleID i, p)) (lpPolicyIDs i)) (gsRolesPolicies st)\<rparr>) u"
        using OpLinkPolicies assms(2) by simp
      from linked_held[OF this d(2), of "lpCallerID i"] p OpLinkPolicies show ?thesis by auto
    qed (use OpLinkPolicies assms in simp)
  next
    case (OpLinkUsers i)
    with link_users_cases[OF refl d(1), of env call i] joins_held assms(2) show ?thesis by fastforce
  next
    case (OpLinkUserRoles i)
    with link_user_roles_cases[OF refl d(1), of env call i] joins_held assms(2) show ?thesis by fastforce
  qed (rule keep, simp add: takes_away)+
qed

section \<open>The keys stay keys\<close>

lemma joins_wf: "grants_wf st \<Longrightarrow> joins st st' c new \<Longrightarrow> grants_wf st'"
  by (auto simp: grants_wf_def joins_def)

lemma linked_wf:
  assumes "grants_wf st" "\<And>r p. (r, p) \<in> set new \<Longrightarrow> role_of r st \<noteq> None \<and> policy_of p st \<noteq> None"
  shows "grants_wf (st\<lparr>gsRolesPolicies := add_links new (gsRolesPolicies st)\<rparr>)"
proof -
  have "role_of r st \<noteq> None \<and> p \<in> itID ` set (gsPolicies st)" if "(r, p) \<in> set new" for r p
    using assms(2)[OF that] by (auto simp: policy_of_None)
  then show ?thesis using assms(1) by (auto simp: grants_wf_def)
qed

lemma replace_policy_wf: "grants_wf st \<Longrightarrow> grants_wf (replace_policy pid row st)"
proof -
  have "itID ` set (gsPolicies (replace_policy pid row st)) = itID ` set (gsPolicies st)"
    using replace_policy_simps(5)[of pid row st] by (metis set_map)
  then show "grants_wf st \<Longrightarrow> ?thesis" by (simp add: grants_wf_def)
qed

text \<open>Links are taken away, and with them what they link to.\<close>

lemma filtered_wf:
  assumes "grants_wf st" "set (users_roles st') \<subseteq> set (users_roles st)" "set (gsRolesPolicies st') \<subseteq> set (gsRolesPolicies st)"
    and "gsPolicies st' = filter P (gsPolicies st)"
    and "\<And>u r. (u, r) \<in> set (users_roles st') \<Longrightarrow> role_of r st \<noteq> None \<Longrightarrow> role_of r st' \<noteq> None"
    and "\<And>r p. (r, p) \<in> set (gsRolesPolicies st') \<Longrightarrow> role_of r st \<noteq> None \<Longrightarrow> role_of r st' \<noteq> None"
    and "\<And>r p. (r, itID p) \<in> set (gsRolesPolicies st') \<Longrightarrow> p \<in> set (gsPolicies st) \<Longrightarrow> P p"
  shows "grants_wf st'"
proof -
  have "role_of r st' \<noteq> None \<and> p \<in> itID ` set (gsPolicies st')" if "(r, p) \<in> set (gsRolesPolicies st')" for r p
  proof -
    have "(r, p) \<in> set (gsRolesPolicies st)" using that assms(3) by blast
    then obtain q where q: "role_of r st \<noteq> None" "q \<in> set (gsPolicies st)" "p = itID q" using assms(1) by (auto simp: grants_wf_def)
    then have "role_of r st' \<noteq> None" "P q" using that assms(6,7) by blast+
    with q assms(4) show ?thesis by auto
  qed
  moreover have "role_of r st' \<noteq> None" if "(u, r) \<in> set (users_roles st')" for u r
  proof -
    have "(u, r) \<in> set (users_roles st)" using that assms(2) by blast
    then have "role_of r st \<noteq> None" using assms(1) by (auto simp: grants_wf_def)
    then show ?thesis using that assms(5) by blast
  qed
  ultimately show ?thesis using assms(1,4) by (auto simp: grants_wf_def distinct_map_filter)
qed

lemma role_of_gsRoles: "role_of r (st\<lparr>gsRoles := rs\<rparr>) = map_of rs r"
  by (simp add: role_of_def)

lemma filtered_tables_wf:
  assumes wf: "grants_wf st"
  shows "grants_wf (st\<lparr>gsPolicies := filter (\<lambda>q. itID q \<noteq> k) (gsPolicies st), gsRolesPolicies := filter (\<lambda>(_, q). q \<noteq> k) (gsRolesPolicies st)\<rparr>)"
    and "grants_wf (set_users_roles (filter (\<lambda>(_, q). q \<noteq> k) (users_roles st))
      (st\<lparr>gsRoles := AList.delete k (gsRoles st), gsRolesPolicies := filter (\<lambda>(q, _). q \<noteq> k) (gsRolesPolicies st)\<rparr>))"
    and "grants_wf (st\<lparr>gsRoles := (k, r) # gsRoles st\<rparr>)" "grants_wf (st\<lparr>gsRoles := AList.update k r (gsRoles st)\<rparr>)"
    and "grants_wf (st\<lparr>gsRolesPolicies := filter P (gsRolesPolicies st)\<rparr>)" "grants_wf (set_users_roles (filter P (users_roles st)) st)"
proof -
  show "grants_wf (st\<lparr>gsPolicies := filter (\<lambda>q. itID q \<noteq> k) (gsPolicies st), gsRolesPolicies := filter (\<lambda>(_, q). q \<noteq> k) (gsRolesPolicies st)\<rparr>)"
    by (rule filtered_wf[OF wf, where P = "\<lambda>q. itID q \<noteq> k"]) auto
  show "grants_wf (set_users_roles (filter (\<lambda>(_, q). q \<noteq> k) (users_roles st))
      (st\<lparr>gsRoles := AList.delete k (gsRoles st), gsRolesPolicies := filter (\<lambda>(q, _). q \<noteq> k) (gsRolesPolicies st)\<rparr>))"
    by (rule filtered_wf[OF wf, where P = "\<lambda>_. True"]) (simp_all add: role_of_gsRoles delete_conv, auto simp: role_of_def)
  show "grants_wf (st\<lparr>gsRoles := (k, r) # gsRoles st\<rparr>)"
    by (rule filtered_wf[OF wf, where P = "\<lambda>_. True"]) (simp_all add: role_of_gsRoles, simp_all add: role_of_def)
  show "grants_wf (st\<lparr>gsRoles := AList.update k r (gsRoles st)\<rparr>)"
    by (rule filtered_wf[OF wf, where P = "\<lambda>_. True"]) (simp_all add: role_of_gsRoles update_conv, simp_all add: role_of_def)
  show "grants_wf (st\<lparr>gsRolesPolicies := filter P (gsRolesPolicies st)\<rparr>)" "grants_wf (set_users_roles (filter P (users_roles st)) st)"
    by (rule filtered_wf[OF wf, where P = "\<lambda>_. True"]; auto)+
qed

lemmas taking_away = Policies_DeleteByID_def repo_DeletePolicy_def Roles_DeleteByID_def repo_DeleteRole_def Roles_Create_def
  repo_InsertRole_def Roles_UpdateByID_def repo_UpdateRole_def Policies_UnlinkRoles_def repo_UnlinkRoles_policy_def
  Roles_UnlinkPolicies_def repo_UnlinkPolicies_def Roles_UnlinkUsers_def repo_UnlinkUsers_def Users_UnlinkRoles_def
  repo_UnlinkRoles_user_def Let_def

lemma takes_away_wf:
  assumes "grants_wf st"
  shows "grants_wf (snd (Policies_DeleteByID call a st))" "grants_wf (snd (Roles_DeleteByID call e st))"
    "grants_wf (snd (Roles_Create call c st))" "grants_wf (snd (Roles_UpdateByID call d st))"
    "grants_wf (snd (Policies_UnlinkRoles call b st))" "grants_wf (snd (Roles_UnlinkPolicies call g st))"
    "grants_wf (snd (Roles_UnlinkUsers call f st))" "grants_wf (snd (Users_UnlinkRoles call h st))"
  unfolding taking_away by (simp_all add: assms filtered_tables_wf[OF assms] split: option.split sum.split)

lemma step_wf:
  assumes wf: "grants_wf st"
  shows "grants_wf (snd (grant_answer env call op st))"
proof -
  have d: "distinct (map itSerial (gsPolicies st))" using wf by (simp add: grants_wf_def)
  show ?thesis
  proof (cases op)
    case (OpCreatePolicy i)
    have "grants_wf (st\<lparr>gsPolicies := p # gsPolicies st\<rparr>)"
      if "itID p \<notin> itID ` set (gsPolicies st)" "itSerial p \<notin> itSerial ` set (gsPolicies st)" for p
      using wf that by (auto simp: grants_wf_def)
    then show ?thesis using OpCreatePolicy wf create_policy_cases[OF refl, of env call "Some i" st] by (metis grant_answer.simps(1))
  next
    case (OpUpdatePolicy i)
    then show ?thesis using wf update_policy_cases[OF refl, of env call i st] replace_policy_wf by (metis grant_answer.simps(2))
  next
    case (OpLinkRoles i)
    show ?thesis using link_policy_cases[OF refl, of call i st]
    proof (elim disjE exE conjE)
      fix rs p assume s: "snd (Policies_LinkRoles call (Some i) st) = st\<lparr>gsRolesPolicies := add_links (map (\<lambda>r. (r, itID p)) rs) (gsRolesPolicies st)\<rparr>"
        and p: "\<forall>r\<in>set rs. role_of r st \<noteq> None" "policy_of (itID p) st = Some p"
      have "grants_wf (st\<lparr>gsRolesPolicies := add_links (map (\<lambda>r. (r, itID p)) rs) (gsRolesPolicies st)\<rparr>)"
        by (rule linked_wf[OF wf]) (use p in auto)
      with s OpLinkRoles show ?thesis by simp
    qed (use OpLinkRoles wf in simp)
  next
    case (OpLinkPolicies i)
    show ?thesis using link_policies_cases[OF refl, of call i st]
    proof (elim disjE conjE)
      assume s: "snd (Roles_LinkPolicies call (Some i) st) = st\<lparr>gsRolesPolicies := add_links (map (\<lambda>p. (lpRoleID i, p)) (lpPolicyIDs i)) (gsRolesPolicies st)\<rparr>"
        and p: "role_of (lpRoleID i) st \<noteq> None" "\<forall>pid\<in>set (lpPolicyIDs i). \<exists>p. policy_of pid st = Some p \<and> covered (held st (lpCallerID i)) (plResource (itBody p), plAction (itBody p))"
      have "grants_wf (st\<lparr>gsRolesPolicies := add_links (map (\<lambda>p. (lpRoleID i, p)) (lpPolicyIDs i)) (gsRolesPolicies st)\<rparr>)"
        by (rule linked_wf[OF wf]) (use p in auto)
      with s OpLinkPolicies show ?thesis by simp
    qed (use OpLinkPolicies wf in simp)
  next
    case (OpLinkUsers i)
    then show ?thesis using wf link_users_cases[OF refl d, of env call i] joins_wf by (metis grant_answer.simps(9))
  next
    case (OpLinkUserRoles i)
    then show ?thesis using wf link_user_roles_cases[OF refl d, of env call i] joins_wf by (metis grant_answer.simps(13))
  qed (use takes_away_wf[OF wf] in auto)
qed

lemma grant_run_simps [simp]:
  "grant_run env [] st = st" "grant_run env ((call, op) # ops) st = grant_run env ops (snd (grant_answer env call op st))"
  by (simp_all add: grant_run_def)

text \<open>
  C2. Nobody escalates: after any run of the fourteen operations on policies,
  roles and their links, by any callers and whatever fails on the way, what the
  policy engine lets an account do it let that account do before, or one of the
  accounts that asked for a change of a grant.  A set of accounts working
  together never gains anything.
\<close>

theorem nobody_escalates:
  assumes "grants_wf st" "may_do (grant_run env ops st) u action path"
  shows "\<exists>v\<in>set (u # concat (map (widener \<circ> snd) ops)). may_do st v action path"
proof -
  have "\<exists>v\<in>set (u # concat (map (widener \<circ> snd) ops)). covered (held st v) x" if "x \<in> held (grant_run env ops st) u" for x
    using assms(1) that
  proof (induction ops arbitrary: st)
    case Nil
    then show ?case using covered_held by simp
  next
    case (Cons cop ops)
    obtain call op where cop: "cop = (call, op)" by fastforce
    let ?st = "snd (grant_answer env call op st)"
    obtain v y where v: "v \<in> set (u # concat (map (widener \<circ> snd) ops))" "y \<in> held ?st v" "row_covers y x"
      using Cons.IH[OF step_wf[OF Cons.prems(1)]] Cons.prems(2) cop unfolding covered_def by fastforce
    from step_held[OF Cons.prems(1) v(2)] consider "y \<in> held st v" | c where "c \<in> set (widener op)" "covered (held st c) y" by blast
    then show ?case
    proof cases
      case 1
      then show ?thesis using v covered_held[OF 1] covered_trans cop by fastforce
    next
      case 2
      then show ?thesis using v(3) covered_trans[OF 2(2) v(3)] cop by auto
    qed
  qed
  then show ?thesis using assms(2) row_allows_covered unfolding may_do_iff covered_def by blast
qed

end
