(* ===== verification/GrantsGuards.thy ===== *)
theory GrantsGuards
  imports GrantsRuns
begin

text \<open>
  The other promises of the operations on grants: the guard's loop over a
  role's pages ends, stored patterns stay in the alphabet the policy takes
  literally, the seeded administrator is never locked out, an administrator
  account loses a role only to one, and how a missing role is answered.
\<close>

section \<open>The guard reads the whole role\<close>

lemma CheckGrants_iff:
  assumes "c \<noteq> uuid_nil" "\<not> gcFaults call GSelectAuthz"
  shows "CheckGrants call c grants st = None \<longleftrightarrow> (\<forall>g\<in>set grants. covers (grantsOf (permissions_of c (access_rows c st)) c) g)"
  using assms by (auto simp: CheckGrants_def SelectAuthz_def find_None_iff)

lemma CheckGrants_never: "CheckGrants call c grants st \<noteq> Some GNeverReturns"
  by (auto simp: CheckGrants_def SelectAuthz_def split: sum.splits if_splits)

lemma and_then_Inl: "and_then r f = Inl e \<longleftrightarrow> r = Inl e \<or> (\<exists>a. r = Inr a \<and> f a = Inl e)"
  by (cases r) auto

lemma role_pages_never: "role_pages env call rid st token = Some r \<Longrightarrow> r \<noteq> Inl GNeverReturns"
proof (rule role_pages.raw_induct[where P = "\<lambda>env call rid st token r. r \<noteq> Inl GNeverReturns"])
  fix f env call rid st token r
  assume IH: "\<And>env call rid st token r. f env call rid st token = Some r \<Longrightarrow> r \<noteq> Inl GNeverReturns"
    and eq: "(case repo_SelectByRoleID env call rid (at_token guard_page token []) st of
       Inl e \<Rightarrow> Some (Inl (GSelect e))
     | Inr out \<Rightarrow>
         (if pgNextToken (snd out) = [] \<or> fst out = [] then Some (Inr (map grant_of_policy (fst out)))
          else Option.bind (f env call rid st (pgNextToken (snd out)))
            (\<lambda>rest. Some (and_then rest (\<lambda>gs. Inr (map grant_of_policy (fst out) @ gs)))))) = Some r"
  show "r \<noteq> Inl GNeverReturns"
    using eq IH by (auto simp: and_then_Inl bind_eq_Some_conv split: sum.splits if_splits)
qed

lemma roles_grants_never: "roles_grants env call rids st = Some r \<Longrightarrow> r \<noteq> Inl GNeverReturns"
proof (induction rids arbitrary: r)
  case (Cons rid rids)
  then obtain a where "role_pages env call rid st [] = Some a" by (auto simp: bind_eq_Some_conv)
  with Cons role_pages_never[OF this] show ?case by (cases a) (auto simp: bind_eq_Some_conv and_then_Inl)
qed simp

text \<open>
  C30. The check of a role ends: however many pages of policies the role has
  and whichever of their reads fail, the loop returns, and when nothing fails
  it lets the caller through exactly when they hold what every policy of every
  role grants.
\<close>

theorem role_check_ends:
  assumes "distinct (map itSerial (gsPolicies st))"
  shows "CheckRoles env call c rids st \<noteq> Some GNeverReturns
    \<and> ((\<forall>s. \<not> gcFaults call s) \<longrightarrow> c \<noteq> uuid_nil \<longrightarrow>
        (CheckRoles env call c rids st = None \<longleftrightarrow>
          (\<forall>rid\<in>set rids. \<forall>p\<in>set (policies_of_role rid st). covers (grantsOf (permissions_of c (access_rows c st)) c) (grant_of_policy p))))"
proof -
  obtain r where r: "roles_grants env call rids st = Some r"
    "\<forall>gs. r = Inr gs \<longrightarrow> set gs = (\<Union>rid\<in>set rids. grant_of_policy ` set (policies_of_role rid st))"
    "(\<forall>rid t. \<not> gcFaults call (GRolePage rid t)) \<longrightarrow> \<not> isl r"
    using roles_grants_reads_the_roles[OF assms, of env call rids] by blast
  show ?thesis
  proof (cases r)
    case (Inl e)
    with r roles_grants_never[OF r(1)] show ?thesis by (auto simp: CheckRoles_def)
  next
    case (Inr gs)
    then have "CheckRoles env call c rids st = CheckGrants call c gs st" using r(1) by (simp add: CheckRoles_def)
    moreover have "set gs = (\<Union>rid\<in>set rids. grant_of_policy ` set (policies_of_role rid st))" using r(2) Inr by blast
    ultimately show ?thesis using CheckGrants_iff[of c call gs st] CheckGrants_never[of call c gs st] by simp
  qed
qed

section \<open>Stored patterns\<close>

text \<open>The characters of a validated pattern; of these only the star means anything to the policy's regular expressions.\<close>

definition pattern_char :: "char \<Rightarrow> bool" where
  "pattern_char c \<longleftrightarrow> word_cls c \<or> hex_cls c \<or> c \<in> {CHR ''/'', CHR ''*'', CHR ''-''}"

definition patterns_ok :: "grants_state \<Rightarrow> bool" where
  "patterns_ok st \<longleftrightarrow> (\<forall>p\<in>set (gsPolicies st). valid_pattern (itBody p))"

text \<open>All texts of a pattern are over an alphabet.\<close>

definition over :: "char set \<Rightarrow> rx \<Rightarrow> bool" where
  "over A r \<longleftrightarrow> (\<forall>t\<in>rx_lang r. set t \<subseteq> A)"

lemma over_simps [simp]:
  "over A REps" "over A (RCls P) \<longleftrightarrow> Collect P \<subseteq> A" "over A (rx_lit w) \<longleftrightarrow> set w \<subseteq> A"
  "over A (RAlt r s) \<longleftrightarrow> over A r \<and> over A s"
  by (auto simp: over_def)

lemma over_seq: "over A r \<Longrightarrow> over A s \<Longrightarrow> over A (RSeq r s)"
  by (fastforce simp: over_def)

lemma over_times: "over A r \<Longrightarrow> over A (rx_times n r)"
  by (induction n) (simp_all add: over_seq)

lemma over_upto: "over A r \<Longrightarrow> over A (rx_upto n r)"
  by (induction n) (simp_all add: over_seq)

lemma resource_rx_chars: "rx_match resource_rx s \<Longrightarrow> \<forall>c\<in>set s. pattern_char c"
proof -
  have c: "over (Collect pattern_char) (RCls word_cls)" "over (Collect pattern_char) (RCls hex_cls)"
    "over (Collect pattern_char) (rx_lit ''/'')" "over (Collect pattern_char) (rx_lit ''-'')"
    "over (Collect pattern_char) (rx_lit ''*'')" "over (Collect pattern_char) (rx_lit ''/*'')"
    by (auto simp: pattern_char_def simp del: rx_lit.simps)
  have "over (Collect pattern_char) resource_rx"
    unfolding resource_rx_def word_rx_def uuid_rx_def by (intro over_seq over_upto over_times c over_simps(4)[THEN iffD2] conjI)
  then show "rx_match resource_rx s \<Longrightarrow> ?thesis" unfolding over_def rx_match_iff by blast
qed

lemma step_patterns:
  assumes ok: "patterns_ok st"
  shows "patterns_ok (snd (grant_answer env call op st))"
proof -
  have keep: "patterns_ok st'" if "shrinks st st'" for st' using ok that by (auto simp: patterns_ok_def shrinks_def)
  show ?thesis
  proof (cases op)
    case (OpCreatePolicy i)
    then show ?thesis using ok create_policy_cases[OF refl, of env call "Some i" st] by (auto simp: patterns_ok_def)
  next
    case (OpUpdatePolicy i)
    have "patterns_ok (replace_policy (ppID i) (updated_policy i (itBody p)) st)"
      if "policy_of (ppID i) st = Some p" "UpdatePolicyInput_Validate i = None" for p
      using ok updated_pattern[OF that(2)] policy_of_Some[OF that(1)] by (auto simp: patterns_ok_def replace_policy_def)
    then show ?thesis using OpUpdatePolicy ok update_policy_cases[OF refl, of env call i st] by auto
  next
    case (OpLinkRoles i)
    then show ?thesis using ok link_policy_cases[OF refl, of call i st] by (auto simp: patterns_ok_def)
  next
    case (OpLinkPolicies i)
    then show ?thesis using ok link_policies_cases[OF refl, of call i st] by (auto simp: patterns_ok_def)
  next
    case (OpLinkUsers i)
    have "snd (Roles_LinkUsers env call (Some i) st) = st \<or> (\<exists>urs. snd (Roles_LinkUsers env call (Some i) st) = set_users_roles urs st)"
      unfolding Roles_LinkUsers_def repo_LinkUsers_def by (simp split: option.split) blast
    then show ?thesis using OpLinkUsers ok by (auto simp: patterns_ok_def)
  next
    case (OpLinkUserRoles i)
    have "snd (Users_LinkRoles env call (Some i) st) = st \<or> (\<exists>urs. snd (Users_LinkRoles env call (Some i) st) = set_users_roles urs st)"
      unfolding Users_LinkRoles_def repo_LinkRoles_user_def by (simp split: option.split) blast
    then show ?thesis using OpLinkUserRoles ok by (auto simp: patterns_ok_def)
  qed (rule keep, simp add: takes_away)+
qed

text \<open>
  C29. Patterns stay well-formed: whatever the operations on grants are asked,
  every stored policy names an action of the validators' list and a pattern of
  their regular expression, so the policy's own expression of a pattern is
  built from letters, digits, underscores, slashes, dashes and stars only.
\<close>

theorem stored_patterns_are_valid:
  assumes "patterns_ok st" "p \<in> set (gsPolicies (grant_run env ops st))"
  shows "List.member valid_actions (plAction (itBody p)) \<and> IsValidResource (plResource (itBody p)) = None
    \<and> (\<forall>c\<in>set (plResource (itBody p)). pattern_char c)"
proof -
  have "patterns_ok (grant_run env ops st)"
    using assms(1) by (induction ops arbitrary: st) (auto simp: step_patterns)
  then have v: "valid_pattern (itBody p)" using assms(2) by (simp add: patterns_ok_def)
  moreover have "plResource (itBody p) \<noteq> []"
  proof
    assume "plResource (itBody p) = []"
    moreover have "\<not> rx_match resource_rx []"
      unfolding rx_match_iff resource_rx_def word_rx_def by (simp del: rx_upto.simps)
    ultimately show False using v by (simp add: valid_pattern_def)
  qed
  ultimately show ?thesis using resource_rx_chars[of "plResource (itBody p)"] unfolding valid_pattern_def IsValidResource_def by auto
qed

section \<open>The seeded administrator\<close>

text \<open>The rows the migrations seed: a system role and a system policy for everything, linked, and the account in the role.\<close>

definition seeded :: "grants_state \<Rightarrow> bool" where
  "seeded st \<longleftrightarrow> user_row_of bootstrap_administrator (gsAccounts st) \<noteq> None
    \<and> (\<exists>r. role_of administrator_role st = Some r \<and> rlSystem r)
    \<and> (\<exists>p. policy_of full_access_policy st = Some p \<and> plSystem (itBody p) \<and> plAction (itBody p) = ''*'' \<and> plResource (itBody p) = ''*'')
    \<and> List.member (users_roles st) (bootstrap_administrator, administrator_role)
    \<and> List.member (gsRolesPolicies st) (administrator_role, full_access_policy)"

lemma policy_of_Cons: "policy_of k (st\<lparr>gsPolicies := p # gsPolicies st\<rparr>) = (if itID p = k then Some p else policy_of k st)"
  by (simp add: policy_of_def)

lemma find_other: "k \<noteq> pid \<Longrightarrow> List.find (\<lambda>p. itID p = k) (map (\<lambda>p. if itID p = pid then p\<lparr>itBody := row\<rparr> else p) ps) = List.find (\<lambda>p. itID p = k) ps"
  by (induction ps) auto

lemma policy_of_replace: "k \<noteq> pid \<Longrightarrow> policy_of k (replace_policy pid row st) = policy_of k st"
  by (simp add: policy_of_def replace_policy_def find_other)

lemma find_filter: "k \<noteq> pid \<Longrightarrow> List.find (\<lambda>p. itID p = k) (filter (\<lambda>q. itID q \<noteq> pid) ps) = List.find (\<lambda>p. itID p = k) ps"
  by (induction ps) auto

lemma policy_of_simps [simp]:
  "policy_of k (set_users_roles urs st) = policy_of k st" "policy_of k (gsRolesPolicies_update f st) = policy_of k st"
  "policy_of k (gsRoles_update g st) = policy_of k st" "user_row_of u (gsAccounts (set_users_roles urs st)) = user_row_of u (gsAccounts st)"
  by (simp_all add: policy_of_def set_users_roles_def user_row_of_def)

lemma seeded_step:
  assumes s: "seeded st"
  shows "seeded (snd (grant_answer env call op st))"
proof -
  obtain q where q: "policy_of full_access_policy st = Some q" "plSystem (itBody q)" using s by (auto simp: seeded_def)
  have shapes: "seeded (set_users_roles (add_links new (users_roles st)) st)" "seeded (st\<lparr>gsRolesPolicies := add_links new (gsRolesPolicies st)\<rparr>)" for new
    using s by (auto simp: seeded_def List.member_iff)
  show ?thesis
  proof (cases op)
    case (OpCreatePolicy i)
    have ne: "itID p \<noteq> full_access_policy" if "itID p \<notin> itID ` set (gsPolicies st)" for p
      using policy_of_Some[OF q(1)] that by (metis image_eqI)
    then have "seeded (st\<lparr>gsPolicies := p # gsPolicies st\<rparr>)" if "itID p \<notin> itID ` set (gsPolicies st)" for p
      using s ne[OF that] by (simp add: seeded_def policy_of_Cons)
    then show ?thesis using OpCreatePolicy s create_policy_cases[OF refl, of env call "Some i" st] by (metis grant_answer.simps(1))
  next
    case (OpUpdatePolicy i)
    have "seeded (replace_policy (ppID i) row st)" if "policy_of (ppID i) st = Some p" "\<not> plSystem (itBody p)" for p row
    proof -
      have "full_access_policy \<noteq> ppID i" using that q by auto
      then show ?thesis using s by (simp add: seeded_def policy_of_replace)
    qed
    then show ?thesis using OpUpdatePolicy s update_policy_cases[OF refl, of env call i st] by (metis grant_answer.simps(2))
  next
    case (OpDeletePolicy k)
    have "seeded (st\<lparr>gsPolicies := filter (\<lambda>q. itID q \<noteq> k) (gsPolicies st), gsRolesPolicies := filter (\<lambda>(_, q). q \<noteq> k) (gsRolesPolicies st)\<rparr>)"
      if "k \<noteq> full_access_policy"
      using s that by (auto simp: seeded_def policy_of_def find_filter List.member_iff role_of_def users_roles_def)
    moreover have "k \<noteq> full_access_policy" if "policy_of k st = Some p" "\<not> plSystem (itBody p)" for p using that q by auto
    ultimately show ?thesis using OpDeletePolicy s by (auto simp: Policies_DeleteByID_def repo_DeletePolicy_def split: option.split)
  next
    case (OpLinkRoles i)
    then show ?thesis using s shapes link_policy_cases[OF refl, of call i st] by auto
  next
    case (OpLinkPolicies i)
    then show ?thesis using s shapes link_policies_cases[OF refl, of call i st] by auto
  next
    case (OpLinkUsers i)
    then show ?thesis using s shapes by (auto simp: Roles_LinkUsers_def repo_LinkUsers_def split: option.split)
  next
    case (OpLinkUserRoles i)
    then show ?thesis using s shapes by (auto simp: Users_LinkRoles_def repo_LinkRoles_user_def split: option.split)
  next
    case (OpUnlinkRoles i)
    then show ?thesis using s
      by (auto simp: Policies_UnlinkRoles_def repo_UnlinkRoles_policy_def seeded_def List.member_iff Let_def split: option.splits)
  next
    case (OpUnlinkPolicies i)
    then show ?thesis using s
      by (auto simp: Roles_UnlinkPolicies_def repo_UnlinkPolicies_def seeded_def List.member_iff Let_def split: option.splits)
  next
    case (OpUnlinkUsers i)
    then show ?thesis using s
      by (auto simp: Roles_UnlinkUsers_def repo_UnlinkUsers_def seeded_def List.member_iff Let_def split: option.splits)
  next
    case (OpUnlinkUserRoles i)
    then show ?thesis using s
      by (auto simp: Users_UnlinkRoles_def repo_UnlinkRoles_user_def seeded_def List.member_iff Let_def split: option.splits sum.splits)
  next
    case (OpCreateRole i)
    then show ?thesis using s
      by (auto simp: Roles_Create_def repo_InsertRole_def seeded_def role_of_def users_roles_def split: sum.splits)
  next
    case (OpUpdateRole i)
    then show ?thesis using s
      by (auto simp: Roles_UpdateByID_def repo_UpdateRole_def seeded_def role_of_def users_roles_def update_conv Let_def split: sum.splits option.splits)
  next
    case (OpDeleteRole i)
    then show ?thesis using s
      by (auto simp: Roles_DeleteByID_def repo_DeleteRole_def seeded_def List.member_iff role_of_gsRoles delete_conv split: option.splits)
        (simp add: role_of_def)
  qed
qed

text \<open>
  C13. The seeded administrator is never locked out: with the rows the
  migrations seed, no run of the operations on grants, by anyone, keeps the
  policy engine from letting that account do anything it is asked about.
\<close>

theorem seeded_administrator_keeps_access:
  assumes "seeded st"
  shows "may_do (grant_run env ops st) bootstrap_administrator action path"
proof -
  have s: "seeded (grant_run env ops st)" using assms by (induction ops arbitrary: st) (auto simp: seeded_step)
  then obtain r p where "role_of administrator_role (grant_run env ops st) = Some r" "policy_of full_access_policy (grant_run env ops st) = Some p"
    "plAction (itBody p) = ''*''" "plResource (itBody p) = ''*''"
    "(bootstrap_administrator, administrator_role) \<in> set (users_roles (grant_run env ops st))"
    "(administrator_role, full_access_policy) \<in> set (gsRolesPolicies (grant_run env ops st))"
    by (auto simp: seeded_def List.member_iff)
  moreover from this(2) have "p \<in> set (gsPolicies (grant_run env ops st))" "itID p = full_access_policy" using policy_of_Some by blast+
  moreover have "bootstrap_administrator \<noteq> uuid_nil" by (simp add: bootstrap_administrator_def)
  ultimately have "(''*'', ''*'') \<in> held (grant_run env ops st) bootstrap_administrator"
    using s unfolding held_iff seeded_def by (metis option.distinct(1))
  moreover have "row_allows action path (''*'', ''*'')" by (simp add: row_allows_def)
  ultimately show ?thesis unfolding may_do_iff by blast
qed

section \<open>Administrator accounts keep their roles\<close>

fun stripper :: "grant_op \<Rightarrow> uuid option" where
  "stripper (OpDeleteRole i) = Some (drCallerID i)"
| "stripper (OpUnlinkUsers i) = Some (luCallerID i)"
| "stripper (OpUnlinkUserRoles i) = Some (lsCallerID i)"
| "stripper _ = None"

lemma stripped_by: "strippedOnlyByAnAdministrator call us c st = None \<Longrightarrow> u \<in> set us \<Longrightarrow> acts_as_administrator c (gsAccounts st)"
  by (auto simp: strippedOnlyByAnAdministrator_def dest!: isAdministratorAccount_Inr split: if_splits sum.splits)

lemma links_kept: "stripper op = None \<Longrightarrow> set (users_roles st) \<subseteq> set (users_roles (snd (grant_answer env call op st)))"
proof (induction env call op st rule: grant_answer.induct)
  case (1 env call i st)
  then show ?case using create_policy_cases[OF refl, of env call "Some i" st] by auto
next
  case (2 env call i st)
  then show ?case using update_policy_cases[OF refl, of env call i st] by auto
next
  case (4 env call i st)
  then show ?case using link_policy_cases[OF refl, of call i st] by auto
next
  case (11 env call i st)
  then show ?case using link_policies_cases[OF refl, of call i st] by auto
qed (auto simp: Policies_DeleteByID_def repo_DeletePolicy_def Policies_UnlinkRoles_def repo_UnlinkRoles_policy_def Roles_Create_def
    repo_InsertRole_def Roles_UpdateByID_def repo_UpdateRole_def Roles_UnlinkPolicies_def repo_UnlinkPolicies_def Roles_LinkUsers_def
    repo_LinkUsers_def Users_LinkRoles_def repo_LinkRoles_user_def Let_def split: option.split sum.split)

text \<open>
  C28. An account with the \<open>admin\<close> flag loses a role to an administrator account
  only: whatever operation on grants takes the link away, from the account's
  side, from the role's or with the role itself, was asked for by an account
  that has the flag and is not disabled.
\<close>

theorem only_administrators_strip_administrators:
  assumes "(k, r) \<in> set (users_roles st)" "(k, r) \<notin> set (users_roles (snd (grant_answer env call op st)))"
    and "user_row_of k (gsAccounts st) = Some row" "rowAdmin row"
  shows "\<exists>c. stripper op = Some c \<and> acts_as_administrator c (gsAccounts st)"
proof (cases "stripper op")
  case None
  with links_kept[OF this, of st env call] assms(1,2) show ?thesis by blast
next
  case (Some c)
  then consider (del) i where "op = OpDeleteRole i" "c = drCallerID i" | (users) i where "op = OpUnlinkUsers i" "c = luCallerID i"
    | (roles) i where "op = OpUnlinkUserRoles i" "c = lsCallerID i" by (cases op) auto
  then have "acts_as_administrator c (gsAccounts st)"
  proof cases
    case del
    then obtain role where d: "administratorsKeepTheRole call i st = None" "role_of (drID i) st = Some role" "\<not> rlSystem role" "r = drID i"
      using assms(1,2) by (auto simp: Roles_DeleteByID_def repo_DeleteRole_def split: option.splits if_splits)
    then obtain us where us: "SelectAdministratorsHolding call (drID i) st = Inr us" "strippedOnlyByAnAdministrator call us c st = None"
      using del by (auto simp: administratorsKeepTheRole_def split: sum.splits)
    moreover have "k \<in> set us" using us(1) d assms by (force simp: SelectAdministratorsHolding_def split: if_splits)
    ultimately show ?thesis using stripped_by by blast
  next
    case users
    then have d: "administratorsAreNotStripped call i st = None" "k \<in> set (luUserIDs i)"
      using assms(1,2) by (auto simp: Roles_UnlinkUsers_def repo_UnlinkUsers_def List.member_iff Let_def split: option.splits if_splits)
    then obtain us where us: "SelectAdministratorsAmong call (luUserIDs i) st = Inr us" "strippedOnlyByAnAdministrator call us c st = None"
      using users by (auto simp: administratorsAreNotStripped_def split: sum.splits)
    moreover have "k \<in> set us"
      using us(1) d(2) assms(3,4) map_of_SomeD by (force simp: SelectAdministratorsAmong_def user_row_of_def List.member_iff split: if_splits)
    ultimately show ?thesis using stripped_by by blast
  next
    case roles
    then have ok: "snd (Users_UnlinkRoles call (Some i) st) \<noteq> st" using assms(1,2) by auto
    have "snd (Users_UnlinkRoles call (Some i) st) \<in> {st, snd (repo_UnlinkRoles_user call i st)}"
      unfolding Users_UnlinkRoles_def by (simp split: option.split sum.split)
    with ok roles assms(2) have "(k, r) \<notin> set (users_roles (snd (repo_UnlinkRoles_user call i st)))" by simp
    then have k: "k = lsUserID i"
      using assms(1) by (auto simp: repo_UnlinkRoles_user_def Let_def split: option.splits if_splits)
    have "guardAdministrator (gcAccounts call) (Some (user_of_row k row)) c ''stripped of a role'' False (gsAccounts st) = None"
      using ok k roles assms(3)
      by (auto simp: Users_UnlinkRoles_def repo_SelectByID_def split: option.splits sum.splits if_splits account_error.splits)
    from guard_asks[OF this] assms(4) show ?thesis by simp
  qed
  with Some show ?thesis by blast
qed

section \<open>A role that is not there\<close>

text \<open>
  A role that is not there is no \<open>RoleNotFoundError\<close> on two of the three
  routes that link one: linking users to it, or it to a user, fails with the
  raw error of the database, an answer of 500, while linking it to a policy is
  answered as the missing role it is.
\<close>

theorem missing_role_answers:
  assumes "\<forall>s. \<not> gcFaults call s" "role_of rid st = None" "grants_wf st" "c \<noteq> uuid_nil" "IsUUIDV7 rid" "IsUUIDV7 u"
  shows "Roles_LinkUsers env call (Some \<lparr>luUserIDs = [u], luCallerID = c, luRoleID = rid\<rparr>) st = (Some GRaw, st)
    \<and> Users_LinkRoles env call (Some \<lparr>lsRoleIDs = [rid], lsCallerID = c, lsUserID = u\<rparr>) st = (Some GRaw, st)
    \<and> (IsUUIDV7 pid \<longrightarrow> CheckPolicies call c [pid] st = None \<longrightarrow>
        Policies_LinkRoles call (Some \<lparr>lrRoleIDs = Some [rid], lrCallerID = c, lrPolicyID = pid\<rparr>) st = (Some GRoleNotFound, st))"
proof -
  have none: "policies_of_role rid st = []"
    using assms(2,3) by (auto simp: policies_of_role_def grants_wf_def List.member_iff filter_empty_conv)
  have d: "distinct (map itSerial (gsPolicies st))" using assms(3) by (simp add: grants_wf_def)
  obtain a where a: "roles_grants env call [rid] st = Some a" "\<forall>gs. a = Inr gs \<longrightarrow> set gs = {}" "\<not> isl a"
    using roles_grants_reads_the_roles[OF d, of env call "[rid]"] assms(1) none by (simp del: roles_grants.simps) blast
  then obtain gs where g: "roles_grants env call [rid] st = Some (Inr gs)" "set gs = {}" by (metis sum.collapse(2))
  then have check: "CheckRoles env call c [rid] st = None"
    using assms(1,4) CheckGrants_iff[of c call gs st] by (simp add: CheckRoles_def)
  have p: "policy_of pid st \<noteq> None" if "CheckPolicies call c [pid] st = None"
    using CheckPolicies_covered[OF that, of pid] by auto
  have n: "ValidateUUID x 7 f = None" if "IsUUIDV7 x" for x f using that by simp
  have v: "check_ids f [x] [] = []" if "IsUUIDV7 x" for f x using that by (simp add: check_ids_def n)
  show ?thesis
    using assms(1,2,5,6) check p
    by (auto simp: v n Roles_LinkUsers_def repo_LinkUsers_def Users_LinkRoles_def repo_LinkRoles_user_def Policies_LinkRoles_def
        repo_LinkRoles_policy_def LinkUsersToRoleInput_Validate_def LinkRolesToUserInput_Validate_def LinkRolesToPolicyInput_Validate_def
        errs_result_def HasErrors_def)
qed

end
