(* ===== verification/GrantsRaces.thy ===== *)
theory GrantsRaces
  imports GrantsGuards AccountsRuns
begin

text \<open>
  A small world of roles and policies for the concrete runs, and the race of
  two updates of one policy that hands out what nobody held.
\<close>

section \<open>A small world\<close>

definition demo_policy :: "nat \<Rightarrow> string \<Rightarrow> string \<Rightarrow> policy_row item" where
  "demo_policy n action resource = \<lparr>itID = uuid7 n, itSerial = of_nat n,
     itBody = \<lparr>plName = replicate n CHR ''p'', plDescription = ''policy'', plAction = action, plResource = resource, plSystem = False, plResourceID = uuid7 n\<rparr>\<rparr>"

definition demo_resource :: "nat \<Rightarrow> string \<Rightarrow> string \<Rightarrow> resource_row item" where
  "demo_resource n action resource = \<lparr>itID = uuid7 n, itSerial = of_nat n, itBody = \<lparr>rsName = ''r'', rsAction = action, rsResource = resource\<rparr>\<rparr>"

text \<open>A filter matches the endpoint it was written for.\<close>

definition demo_env :: grant_env where
  "demo_env = \<lparr>gePolicyLists = any_expression, gePolicySql = \<lparr>filter_sql = (\<lambda>_ _. True), sort_sql = (\<lambda>_ rs. rs)\<rparr>,
     geResourceLists = any_expression,
     geResourceSql = \<lparr>filter_sql = (\<lambda>f r. match_filter (rsAction (itBody r)) (rsResource (itBody r)) = Some f), sort_sql = (\<lambda>_ rs. rs)\<rparr>\<rparr>"

definition plain_row :: user_row where
  "plain_row = \<lparr>rowFirstName = ''Ann'', rowLastName = ''Lee'', rowEmail = ''ann@example.com'', rowPasswordHash = [], rowDisabled = False,
     rowDisabledByAdmin = False, rowVerified = True, rowAdmin = False, rowLocalAccount = True\<rparr>"

text \<open>Two accounts, one of them in the one role, which has three policies.\<close>

definition demo_grants :: grants_state where
  "demo_grants = \<lparr>
     gsAccounts = \<lparr>acUsers = [(uuid7 2, plain_row), (uuid7 3, plain_row\<lparr>rowEmail := ''bob@example.com''\<rparr>)], acIdps = [], acIdentities = [], acAutoRoles = [], acUsersRoles = [(uuid7 2, uuid7 10)]\<rparr>,
     gsRoles = [(uuid7 10, \<lparr>rlName = ''editors'', rlDescription = ''editors'', rlSystem = False\<rparr>)],
     gsPolicies = [demo_policy 20 ''GET'' ''/projects'', demo_policy 21 ''POST'' ''/projects'', demo_policy 22 ''GET'' ''/users''],
     gsRolesPolicies = [(uuid7 10, uuid7 20), (uuid7 10, uuid7 21), (uuid7 10, uuid7 22)],
     gsResources = [demo_resource 30 ''POST'' ''/projects'', demo_resource 31 ''GET'' ''/users'', demo_resource 32 ''POST'' ''/users'']\<rparr>"

lemma demo_resources_valid: "rx_match resource_rx ''/projects''" "rx_match resource_rx ''/users''"
  by code_simp+

declare rx_match.simps [simp del]

lemma demo_keys: "grants_wf demo_grants" "patterns_ok demo_grants"
  by (simp_all add: grants_wf_def patterns_ok_def demo_grants_def demo_policy_def uuid7_def role_of_def users_roles_def
      valid_pattern_def demo_resources_valid valid_actions_def List.member_iff)

lemma demo_user: "user_row_of (uuid7 2) (gsAccounts demo_grants) = Some plain_row" "uuid7 2 \<noteq> uuid_nil"
  by (simp_all add: demo_grants_def user_row_of_def uuid7_def)

lemma demo_held: "held demo_grants (uuid7 2) = {(''/projects'', ''GET''), (''/projects'', ''POST''), (''/users'', ''GET'')}"
  unfolding held_def access_rows_def using demo_user
  by (simp add: demo_grants_def users_roles_def role_of_def demo_policy_def uuid7_def)

lemma demo_filters:
  "match_filter ''POST'' ''/projects'' = Some (''action = '' @ quoted ''POST'' @ '' AND resource ~ '' @ quoted ''^/projects$'')"
  "match_filter ''GET'' ''/users'' = Some (''action = '' @ quoted ''GET'' @ '' AND resource ~ '' @ quoted ''^/users$'')"
  "match_filter ''POST'' ''/users'' = Some (''action = '' @ quoted ''POST'' @ '' AND resource ~ '' @ quoted ''^/users$'')"
  by code_simp+

definition patch :: "string option \<Rightarrow> string option \<Rightarrow> UpdatePolicyInput" where
  "patch action resource = \<lparr>ppName = None, ppDescription = None, ppAllowedAction = action, ppAllowedResource = resource,
     ppCallerID = uuid7 2, ppID = uuid7 20\<rparr>"

lemma demo_v7: "IsUUIDV7 (uuid7 2)" "IsUUIDV7 (uuid7 10)" "IsUUIDV7 (uuid7 20)" "IsUUIDV7 (uuid7 21)" "IsUUIDV7 (uuid7 99)"
  by (simp_all add: IsUUIDV7_def UUIDVersion_def uuid_byte_def uuid7_def)

lemma valid_uuid: "IsUUIDV7 u \<Longrightarrow> ValidateUUID u 7 f = None"
  by simp

lemma patch_valid:
  "UpdatePolicyInput_Validate (patch (Some ''POST'') None) = None" "UpdatePolicyInput_Validate (patch None (Some ''/users'')) = None"
  by (simp_all add: UpdatePolicyInput_Validate_def patch_def check_action_def check_resource_def demo_resources_valid valid_actions_def
      List.member_iff valid_uuid demo_v7 errs_result_def HasErrors_def)

lemma demo_selected: "repo_SelectPolicy quiet_call (uuid7 20) demo_grants = Inr (demo_policy 20 ''GET'' ''/projects'')"
  by (simp add: repo_SelectPolicy_def demo_v7 quiet_call_def policy_of_def demo_grants_def demo_policy_def)

lemma demo_covers:
  "CheckGrants quiet_call (uuid7 2) [\<lparr>grAction = a, grResource = r\<rparr>] demo_grants = None \<longleftrightarrow> covered (held demo_grants (uuid7 2)) (r, a)"
  using CheckGrants_iff[of "uuid7 2" quiet_call "[\<lparr>grAction = a, grResource = r\<rparr>]" demo_grants] demo_user(2)
  by (simp add: quiet_call_def covers_iff held_def)

lemma one_row: "newest_first [x] = [x]"
  by (simp add: newest_first_def oldest_first_def)

lemma one_match:
  assumes "IsValidAction a = None" "IsValidResource r = None" "match_filter a r = Some f"
    and "SelectInput_Validate any_expression \<lparr>slSort = [], slFilter = f, slFields = [], slPaginator = empty_paginator\<lparr>pgLimit := PaginatorMaxLimit\<rparr>\<rparr> = None"
    and "filter (\<lambda>x. match_filter (rsAction (itBody x)) (rsResource (itBody x)) = Some f) (gsResources st) = [x]" "f \<noteq> []"
  shows "\<exists>p. ListMatches demo_env quiet_call a r (empty_paginator\<lparr>pgLimit := PaginatorMaxLimit\<rparr>) st = Inr ([x], p)"
proof -
  let ?i = "\<lparr>slSort = [], slFilter = f, slFields = [], slPaginator = empty_paginator\<lparr>pgLimit := PaginatorMaxLimit\<rparr>\<rparr>"
  have q: "page_query (geResourceSql demo_env) ?i TokenDirectionInvalid uuid_nil 0 (gsResources st) = [x]"
    using assms(5,6) by (simp add: page_query_def buildPaginationCriteria_def directions matching_def demo_env_def one_row
        PaginatorMaxLimit_def empty_paginator_def)
  have "\<exists>p. SelectPage any_expression (geResourceSql demo_env) False (Some ?i) (gsResources st) = Inr ([x], p)"
    using assms(4) q by (simp add: SelectPage_def GetPaginatorDirection_def empty_paginator_def PaginatorMaxLimit_def Let_def split: prod.split)
  then show ?thesis using assms(1-3) by (auto simp: ListMatches_def demo_env_def quiet_call_def)
qed

lemma demo_matches:
  "\<exists>p. ListMatches demo_env quiet_call ''POST'' ''/projects'' (empty_paginator\<lparr>pgLimit := PaginatorMaxLimit\<rparr>) demo_grants
    = Inr ([demo_resource 30 ''POST'' ''/projects''], p)"
  "\<exists>p. ListMatches demo_env quiet_call ''GET'' ''/users'' (empty_paginator\<lparr>pgLimit := PaginatorMaxLimit\<rparr>) demo_grants
    = Inr ([demo_resource 31 ''GET'' ''/users''], p)"
proof -
  note d = IsValidAction_def IsValidResource_def demo_resources_valid valid_actions_def List.member_iff demo_filters
      demo_grants_def demo_resource_def quoted_def SelectInput_Validate_def any_expression_def empty_paginator_def Paginator_Validate_def
      ValidatePagination_def check_token_def PaginatorMinLimit_def PaginatorMaxLimit_def errs_result_def HasErrors_def
      validateListExpressions_def boundedExpression_def parse_step_def ValidateSortExpression_def ValidateFilterExpression_def
      ValidateFieldsExpression_def length_bounds Let_def
  show "\<exists>p. ListMatches demo_env quiet_call ''POST'' ''/projects'' (empty_paginator\<lparr>pgLimit := PaginatorMaxLimit\<rparr>) demo_grants
    = Inr ([demo_resource 30 ''POST'' ''/projects''], p)"
    by (rule one_match[OF _ _ demo_filters(1)]) (simp_all add: d)
  show "\<exists>p. ListMatches demo_env quiet_call ''GET'' ''/users'' (empty_paginator\<lparr>pgLimit := PaginatorMaxLimit\<rparr>) demo_grants
    = Inr ([demo_resource 31 ''GET'' ''/users''], p)"
    by (rule one_match[OF _ _ demo_filters(2)]) (simp_all add: d)
qed

text \<open>
  Two updates of one policy at once hand out what nobody held.  Each is
  checked against the row as it was, and each changes one column: a caller who
  holds POST on one path and GET on another sends both, and the policy ends up
  with the new action on the new path.  One after the other, the second is
  refused.
\<close>

theorem racing_updates_escalate:
  fixes action path :: "string option"
  defines "action \<equiv> Some ''POST''" and "path \<equiv> Some ''/users''"
  shows "Policies_UpdateByID_checked demo_env quiet_call (Some (patch action None)) demo_grants = None
    \<and> Policies_UpdateByID_checked demo_env quiet_call (Some (patch None path)) demo_grants = None
    \<and> \<not> may_do demo_grants (uuid7 2) ''POST'' ''/users''
    \<and> may_do (snd (repo_UpdatePolicy quiet_call (patch None path) (snd (repo_UpdatePolicy quiet_call (patch action None) demo_grants))))
        (uuid7 2) ''POST'' ''/users''"
proof -
  note v = patch_valid
  have p: "ppID (patch a r) = uuid7 20" "ppCallerID (patch a r) = uuid7 2" "ppAllowedAction (patch a r) = a" "ppAllowedResource (patch a r) = r"
    for a r by (simp_all add: patch_def)
  have b: "plAction (itBody (demo_policy n a r)) = a" "plResource (itBody (demo_policy n a r)) = r" for n a r by (simp_all add: demo_policy_def)
  have c: "CheckGrants quiet_call (uuid7 2) [\<lparr>grAction = ''POST'', grResource = ''/projects''\<rparr>] demo_grants = None"
    "CheckGrants quiet_call (uuid7 2) [\<lparr>grAction = ''GET'', grResource = ''/users''\<rparr>] demo_grants = None"
    unfolding demo_covers demo_held by (simp_all add: covered_def row_covers_def)
  have checked: "Policies_UpdateByID_checked demo_env quiet_call (Some (patch action None)) demo_grants = None"
    "Policies_UpdateByID_checked demo_env quiet_call (Some (patch None path)) demo_grants = None"
    using demo_matches by (auto simp: Policies_UpdateByID_checked_def action_def path_def v p b c demo_selected Let_def)
  let ?st = "snd (repo_UpdatePolicy quiet_call (patch None path) (snd (repo_UpdatePolicy quiet_call (patch action None) demo_grants)))"
  have st: "?st = demo_grants\<lparr>gsPolicies := [demo_policy 20 ''POST'' ''/users'', demo_policy 21 ''POST'' ''/projects'', demo_policy 22 ''GET'' ''/users'']\<rparr>"
    unfolding action_def path_def repo_UpdatePolicy_def v
    by (simp add: quiet_call_def demo_grants_def policy_of_def demo_policy_def uuid7_def patch_def updated_policy_def text_arg_def
        replace_policy_def Let_def)
  have "(''/users'', ''POST'') \<in> held ?st (uuid7 2)"
    unfolding held_def access_rows_def st using demo_user
    by (simp add: demo_grants_def users_roles_def role_of_def demo_policy_def uuid7_def)
  then have "may_do ?st (uuid7 2) ''POST'' ''/users''" unfolding may_do_iff row_allows_def by force
  moreover have "\<not> may_do demo_grants (uuid7 2) ''POST'' ''/users''"
    unfolding may_do_iff demo_held by (simp add: row_allows_def Contains_single)
  ultimately show ?thesis using checked by blast
qed

section \<open>The other promises at work\<close>

definition enrol :: LinkUsersToRoleInput where
  "enrol = \<lparr>luUserIDs = [uuid7 3], luCallerID = uuid7 2, luRoleID = uuid7 10\<rparr>"

lemma demo_role: "CheckRoles demo_env quiet_call (uuid7 2) [uuid7 10] demo_grants = None"
proof -
  have "distinct (map itSerial (gsPolicies demo_grants))" using demo_keys by (simp add: grants_wf_def)
  from roles_grants_reads_the_roles[OF this, of demo_env quiet_call "[uuid7 10]"] obtain r
    where r: "roles_grants demo_env quiet_call [uuid7 10] demo_grants = Some r" "\<not> isl r"
      "\<forall>gs. r = Inr gs \<longrightarrow> set gs = grant_of_policy ` set (policies_of_role (uuid7 10) demo_grants)"
    by (auto simp: quiet_call_def simp del: roles_grants.simps)
  then obtain gs where gs: "roles_grants demo_env quiet_call [uuid7 10] demo_grants = Some (Inr gs)"
    "set gs = grant_of_policy ` set (policies_of_role (uuid7 10) demo_grants)" by (metis sum.collapse(2))
  have "covered (held demo_grants (uuid7 2)) (grResource g, grAction g)" if "g \<in> set gs" for g
    using that unfolding gs(2) demo_held
    by (auto simp: demo_grants_def policies_of_role_def List.member_iff grant_of_policy_def demo_policy_def covered_def row_covers_def)
  then have "\<forall>g\<in>set gs. covers (grantsOf (permissions_of (uuid7 2) (access_rows (uuid7 2) demo_grants)) (uuid7 2)) g"
    using demo_user(2) by (simp add: covers_iff held_def)
  then show ?thesis using CheckGrants_iff[of "uuid7 2" quiet_call gs demo_grants] demo_user(2) gs(1)
    by (simp add: CheckRoles_def quiet_call_def del: roles_grants.simps)
qed

lemma demo_enrolled:
  "snd (grant_answer demo_env quiet_call (OpLinkUsers enrol) demo_grants) = set_users_roles [(uuid7 3, uuid7 10), (uuid7 2, uuid7 10)] demo_grants"
proof -
  have "LinkUsersToRoleInput_Validate enrol = None"
    by (simp add: LinkUsersToRoleInput_Validate_def enrol_def check_ids_def valid_uuid demo_v7 uuid7_v7 errs_result_def HasErrors_def)
  then show ?thesis using demo_role
    by (simp add: Roles_LinkUsers_def repo_LinkUsers_def enrol_def quiet_call_def role_of_def user_row_of_def demo_grants_def add_links_def
        users_roles_def uuid7_def List.member_iff)
qed

theorem nobody_escalates_witness:
  "may_do (grant_run demo_env [(quiet_call, OpLinkUsers enrol)] demo_grants) (uuid7 3) ''GET'' ''/users''
   \<and> (\<exists>v\<in>{uuid7 3, uuid7 2}. may_do demo_grants v ''GET'' ''/users'')"
proof -
  have "(''/users'', ''GET'') \<in> held (grant_run demo_env [(quiet_call, OpLinkUsers enrol)] demo_grants) (uuid7 3)"
    unfolding grant_run_simps demo_enrolled held_def access_rows_def
    by (simp add: demo_grants_def users_roles_def set_users_roles_def role_of_def demo_policy_def uuid7_def user_row_of_def)
  then have may: "may_do (grant_run demo_env [(quiet_call, OpLinkUsers enrol)] demo_grants) (uuid7 3) ''GET'' ''/users''"
    unfolding may_do_iff row_allows_def by force
  with nobody_escalates[OF demo_keys(1) may] show ?thesis by (simp add: enrol_def)
qed

theorem role_check_ends_witness: "CheckRoles demo_env quiet_call (uuid7 2) [uuid7 10] demo_grants \<noteq> Some GNeverReturns"
  using role_check_ends[of demo_grants demo_env quiet_call "uuid7 2" "[uuid7 10]"] demo_keys(1) by (simp add: grants_wf_def)

theorem stored_patterns_are_valid_witness: "IsValidResource ''/users'' = None \<and> list_all pattern_char ''/users''"
proof -
  have "demo_policy 22 ''GET'' ''/users'' \<in> set (gsPolicies (grant_run demo_env [(quiet_call, OpLinkUsers enrol)] demo_grants))"
    unfolding grant_run_simps demo_enrolled by (simp add: demo_grants_def)
  from stored_patterns_are_valid[OF demo_keys(2) this] show ?thesis by (simp add: demo_policy_def list_all_iff)
qed

theorem missing_role_answers_witness:
  "Users_LinkRoles demo_env quiet_call (Some \<lparr>lsRoleIDs = [uuid7 99], lsCallerID = uuid7 2, lsUserID = uuid7 2\<rparr>) demo_grants = (Some GRaw, demo_grants)"
proof -
  have "role_of (uuid7 99) demo_grants = None" by (simp add: role_of_def demo_grants_def uuid7_def)
  from missing_role_answers[OF _ this demo_keys(1) demo_user(2) demo_v7(5) demo_v7(1), of quiet_call demo_env] show ?thesis
    by (simp add: quiet_call_def)
qed

definition seeded_grants :: grants_state where
  "seeded_grants = \<lparr>
     gsAccounts = \<lparr>acUsers = [(bootstrap_administrator, plain_row\<lparr>rowAdmin := True\<rparr>), (uuid7 2, plain_row)], acIdps = [], acIdentities = [],
       acAutoRoles = [], acUsersRoles = [(bootstrap_administrator, administrator_role), (bootstrap_administrator, uuid7 10)]\<rparr>,
     gsRoles = [(administrator_role, \<lparr>rlName = ''Administrator'', rlDescription = ''Administrator role.'', rlSystem = True\<rparr>),
       (uuid7 10, \<lparr>rlName = ''editors'', rlDescription = ''editors'', rlSystem = False\<rparr>)],
     gsPolicies = [\<lparr>itID = full_access_policy, itSerial = 1, itBody = \<lparr>plName = ''Full Access'', plDescription = ''Allow all'',
       plAction = ''*'', plResource = ''*'', plSystem = True, plResourceID = uuid7 30\<rparr>\<rparr>],
     gsRolesPolicies = [(administrator_role, full_access_policy)], gsResources = []\<rparr>"

theorem seeded_administrator_keeps_access_witness:
  "may_do (grant_run demo_env [(quiet_call, OpDeletePolicy full_access_policy)] seeded_grants) bootstrap_administrator ''DELETE'' ''/roles''"
  by (rule seeded_administrator_keeps_access)
    (simp add: seeded_def seeded_grants_def user_row_of_def role_of_def policy_of_def users_roles_def administrator_role_def
      bootstrap_administrator_def uuid7_def List.member_iff)

text \<open>The seeded account leaves a role of its own accord.\<close>

theorem only_administrators_strip_administrators_witness:
  "acts_as_administrator bootstrap_administrator (gsAccounts seeded_grants)"
proof -
  let ?i = "\<lparr>drID = uuid7 10, drCallerID = bootstrap_administrator\<rparr>"
  have v: "DeleteRoleInput_Validate ?i = None" by (simp add: DeleteRoleInput_Validate_def valid_uuid demo_v7)
  have b: "IsUUIDV7 bootstrap_administrator" "bootstrap_administrator \<noteq> uuid_nil"
    by (simp_all add: bootstrap_administrator_def IsUUIDV7_def UUIDVersion_def uuid_byte_def)
  have ne: "uuid7 10 \<noteq> administrator_role" "uuid7 10 \<noteq> bootstrap_administrator" "uuid7 2 \<noteq> bootstrap_administrator"
    by (simp_all add: administrator_role_def bootstrap_administrator_def uuid7_def)
  have a: "isAdministratorAccount no_acc_faults bootstrap_administrator (gsAccounts seeded_grants) = Inr True"
    using b by (simp add: isAdministratorAccount_def repo_SelectByID_def no_acc_faults_def user_row_of_def seeded_grants_def
        user_of_row_def hasAdminFlag_def isDisabled_def plain_row_def)
  have "administratorsKeepTheRole quiet_call ?i seeded_grants = None"
    using a by (simp add: administratorsKeepTheRole_def SelectAdministratorsHolding_def strippedOnlyByAnAdministrator_def quiet_call_def)
  then have "(bootstrap_administrator, uuid7 10) \<notin> set (users_roles (snd (grant_answer demo_env quiet_call (OpDeleteRole ?i) seeded_grants)))"
    using v ne by (simp add: Roles_DeleteByID_def repo_DeleteRole_def quiet_call_def role_of_def seeded_grants_def)
  from only_administrators_strip_administrators[OF _ this, of "plain_row\<lparr>rowAdmin := True\<rparr>"] show ?thesis
    by (simp add: users_roles_def user_row_of_def seeded_grants_def)
qed

end
