(* ===== verification/ProjectsDemo.thy ===== *)
theory ProjectsDemo
  imports ProjectsPrivacy GrantsRaces
begin

text \<open>
  Two accounts, two projects and a limit of one: the concrete runs of the
  properties of projects, and three ways round the promises of the limits and
  of tenancy.
\<close>

section \<open>A small world\<close>

definition demo_project :: project_row where
  "demo_project = \<lparr>pjName = ''north'', pjDescription = ''the north'', pjDisabled = False, pjSystem = False\<rparr>"

definition signed_row :: "ResourcesLimitsScope \<Rightarrow> string \<Rightarrow> int \<Rightarrow> ukey \<times> usage_row" where
  "signed_row scope rt n = (ukey_of scope rt, \<lparr>uUsage = n, uSignature = createSignature demo_key scope rt n\<rparr>)"

text \<open>The second project was made by the second account, which let the first one in.\<close>

definition demo_limits :: limits_state where
  "demo_limits = \<lparr>limit_rows = [((''user'', ''projects'', uuid_nil), (1, 1)), ((''project'', ''products'', uuid_nil), (1, 1))],
     usage_rows = [signed_row (user_scope (uuid7 2)) ''projects'' 1, signed_row (user_scope (uuid7 3)) ''projects'' 1],
     tbl_users = 2, tbl_idps = 0, tbl_projects_users = [], tbl_projects = Map.empty, tbl_products = [], tamperCounter = 0, driftCounter = 0\<rparr>"

definition demo_projects :: projects_state where
  "demo_projects = \<lparr>psGrants = demo_grants, psProjects = [(uuid7 40, demo_project), (uuid7 41, demo_project)],
     psMembers = [(uuid7 40, uuid7 2), (uuid7 41, uuid7 3), (uuid7 41, uuid7 2)], psProducts = [], psLimits = demo_limits\<rparr>"

definition calm_call :: project_call where
  "calm_call = \<lparr>pcWrite = Done, pcReadFails = False, pcFresh = uuid7 50, pcReserve = no_faults, pcRelease = no_faults, pcWarn = no_faults\<rparr>"

definition demo_new_project :: "nat \<Rightarrow> nat \<Rightarrow> InsertProjectInput" where
  "demo_new_project p u = \<lparr>ijName = ''north'', ijDescription = ''the north'', ijID = uuid7 p, ijUserID = uuid7 u, ijDisabled = False\<rparr>"

definition demo_new_product :: "nat \<Rightarrow> string \<Rightarrow> InsertProductInput" where
  "demo_new_product q name = \<lparr>npName = name, npDescription = ''the north'', npProjectID = uuid7 40, npUserID = uuid7 2, npID = uuid7 q\<rparr>"

lemma demo_texts:
  "ValidateString ''north'' (text_options ''name'' 70) = Inr ''north''"
  "ValidateString ''the north'' (text_options ''description'' 1024) = Inr ''the north''"
  "ValidateString ''left'' (text_options ''name'' 255) = Inr ''left''" "ValidateString ''right'' (text_options ''name'' 255) = Inr ''right''"
  by code_simp+

lemma demo_uuids: "IsUUIDV7 (uuid7 2)" "IsUUIDV7 (uuid7 3)" "IsUUIDV7 (uuid7 40)" "IsUUIDV7 (uuid7 41)" "IsUUIDV7 (uuid7 42)" "IsUUIDV7 (uuid7 43)"
  by (simp_all add: IsUUIDV7_def UUIDVersion_def uuid_byte_def uuid7_def)

lemma demo_valid:
  "InsertProjectInput_Validate (demo_new_project 42 u) = Inr (demo_new_project 42 u)" if "IsUUIDV7 (uuid7 u)"
  using that by (simp add: InsertProjectInput_Validate_def demo_new_project_def two_ids_def valid_uuid demo_uuids check_field_def demo_texts HasErrors_def)

lemma demo_valid_product:
  "InsertProductInput_Validate (demo_new_product 42 ''left'') = None" "InsertProductInput_Validate (demo_new_product 43 ''right'') = None"
  by (simp_all add: InsertProductInput_Validate_def demo_new_product_def three_ids_def two_ids_def valid_uuid demo_uuids
      demo_texts errs_result_def HasErrors_def)

lemma demo_kept_id: "EnsureUUIDV7 f (uuid7 42) = uuid7 42" "EnsureUUIDV7 f (uuid7 43) = uuid7 43" "EnsureUUIDV7 f (uuid7 41) = uuid7 41"
  using demo_uuids by (simp_all add: EnsureUUIDV7_id)

lemmas tables_run = project_of_def account_of_def user_row_of_def may_touch_def is_member_def admin_flag_def demo_projects_def demo_grants_def
  uuid7_def List.member_iff demo_limits_def signed_row_def counted_def

lemmas slots_run = reserve_for_def ReserveResourceSlot_def ReserveUsage_def use_case_guard_def repo_ReserveUsage_def validateScope_def
  no_faults_def resolved_def ukey_of_def scope_uuid_def ResourcesLimitsUnlimited_def sign_and_commit_def user_scope_def project_scope_def
  verifySignature_def createSignature_def demo_key_def set_usage_def store_signature_def DecrementUsage_def repo_DecrementUsage_def
  mutateUsage_def calm_call_def WarnOnSoftLimit_def CheckUsage_def repo_CheckUsage_def

section \<open>Slots without projects, projects without slots\<close>

definition shared_deleted :: projects_state where
  "shared_deleted = snd (Projects_DeleteByID demo_key calm_call \<lparr>djID = uuid7 41, djUserID = uuid7 2\<rparr> demo_projects)"

lemma demo_create_full:
  "fst (Projects_Create demo_key calm_call (Some (demo_new_project 42 2)) demo_projects) = Some (JLimits (HardLimitReachedError ''projects'' 1 1))"
proof -
  have u: "ijID (demo_new_project 42 2) = uuid7 42" "ijUserID (demo_new_project 42 2) = uuid7 2"
     "demo_new_project 42 2\<lparr>ijID := uuid7 42\<rparr> = demo_new_project 42 2"
    by (simp_all add: demo_new_project_def)
  have r: "fst (reserve_for demo_key calm_call (user_scope (uuid7 2)) ''projects'' demo_projects) = Some (HardLimitReachedError ''projects'' 1 1)"
    by (simp add: slots_run tables_run)
  show ?thesis
    using r by (auto simp: Projects_Create_def u demo_kept_id demo_valid demo_uuids created_def split: prod.split option.split)
qed

lemma demo_create_input: "ijID (demo_new_project 42 u) = uuid7 42" "ijUserID (demo_new_project 42 u) = uuid7 u"
  "demo_new_project 42 u\<lparr>ijID := uuid7 42\<rparr> = demo_new_project 42 u"
  by (simp_all add: demo_new_project_def)

lemma demo_create: "IsUUIDV7 (uuid7 u) \<Longrightarrow> Projects_Create key call (Some (demo_new_project 42 u)) st
    = created key call (user_scope (uuid7 u)) ''projects'' (repo_InsertProject (pcWrite call) (demo_new_project 42 u)) st"
  by (simp add: Projects_Create_def demo_create_input demo_kept_id demo_valid)

lemma created_full:
  "fst (reserve_for key call scope rt st) = Some e \<Longrightarrow> fst (created key call scope rt write st) = Some (JLimits e)"
  by (auto simp: created_def split: prod.split option.split)

lemma created_free:
  "fst (reserve_for key call scope rt st) = None \<Longrightarrow> fst (created key call scope rt write st) = fst (write (snd (reserve_for key call scope rt st)))"
  by (auto simp: created_def split: prod.split option.split)

lemma shared_deleted_run:
  "fst (Projects_DeleteByID demo_key calm_call \<lparr>djID = uuid7 41, djUserID = uuid7 2\<rparr> demo_projects) = None"
  "psProjects shared_deleted = [(uuid7 40, demo_project)]" "psMembers shared_deleted = [(uuid7 40, uuid7 2)]"
  "psGrants shared_deleted = demo_grants"
  "usage_rows (psLimits shared_deleted) = [signed_row (user_scope (uuid7 2)) ''projects'' 0, signed_row (user_scope (uuid7 3)) ''projects'' 1]"
  "limit_rows (psLimits shared_deleted) = limit_rows demo_limits"
proof -
  have v: "DeleteProjectInput_Validate \<lparr>djID = uuid7 41, djUserID = uuid7 2\<rparr> = None"
    by (simp add: DeleteProjectInput_Validate_def two_ids_def valid_uuid demo_uuids errs_result_def HasErrors_def)
  have w: "repo_DeleteProject Done \<lparr>djID = uuid7 41, djUserID = uuid7 2\<rparr> demo_projects = (None, drop_project (uuid7 41) demo_projects)"
    unfolding repo_DeleteProject_def v option.case answered_def by (simp add: tables_run demo_project_def)
  have c: "pcWrite calm_call = Done" "djID \<lparr>djID = uuid7 41, djUserID = uuid7 2\<rparr> \<noteq> uuid_nil" by (simp_all add: calm_call_def uuid7_def)
  let ?q = "DecrementUsage demo_key (pcRelease calm_call) (user_scope (uuid7 2)) ''projects'' (counted (drop_project (uuid7 41) demo_projects))"
  have q: "fst ?q = None" "usage_rows (snd ?q) = [signed_row (user_scope (uuid7 2)) ''projects'' 0, signed_row (user_scope (uuid7 3)) ''projects'' 1]"
    "limit_rows (snd ?q) = limit_rows demo_limits"
    by (simp_all add: slots_run tables_run drop_project_def)
  have d: "Projects_DeleteByID demo_key calm_call \<lparr>djID = uuid7 41, djUserID = uuid7 2\<rparr> demo_projects
      = (None, (drop_project (uuid7 41) demo_projects)\<lparr>psLimits := snd ?q\<rparr>)"
    using c q(1) by (simp add: Projects_DeleteByID_def w split_beta)
  show "fst (Projects_DeleteByID demo_key calm_call \<lparr>djID = uuid7 41, djUserID = uuid7 2\<rparr> demo_projects) = None" by (simp add: d)
  show "usage_rows (psLimits shared_deleted) = [signed_row (user_scope (uuid7 2)) ''projects'' 0, signed_row (user_scope (uuid7 3)) ''projects'' 1]"
    "limit_rows (psLimits shared_deleted) = limit_rows demo_limits"
    unfolding shared_deleted_def d using q(2,3) by simp_all
  show "psProjects shared_deleted = [(uuid7 40, demo_project)]" "psMembers shared_deleted = [(uuid7 40, uuid7 2)]"
    "psGrants shared_deleted = demo_grants"
    unfolding shared_deleted_def d by (simp_all add: drop_project_def tables_run)
qed

lemma shared_deleted_reserve:
  "fst (reserve_for demo_key calm_call (user_scope (uuid7 2)) ''projects'' shared_deleted) = None"
  "fst (reserve_for demo_key calm_call (user_scope (uuid7 3)) ''projects'' shared_deleted) = Some (HardLimitReachedError ''projects'' 1 1)"
  by (simp_all add: reserve_for_def ReserveResourceSlot_def ReserveUsage_def use_case_guard_def repo_ReserveUsage_def validateScope_def
      no_faults_def resolved_def shared_deleted_run demo_limits_def signed_row_def calm_call_def ukey_of_def scope_uuid_def user_scope_def
      uuid7_def ResourcesLimitsUnlimited_def sign_and_commit_def verifySignature_def createSignature_def demo_key_def Let_def)

lemma created_row:
  assumes "fst (reserve_for key call scope rt st) = None" "\<And>db. write (st\<lparr>psLimits := db\<rparr>) = (None, f db)"
  shows "\<exists>db db'. created key call scope rt write st = (None, (f db)\<lparr>psLimits := db'\<rparr>)"
proof -
  obtain db where "reserve_for key call scope rt st = (None, st\<lparr>psLimits := db\<rparr>)"
    using assms(1) by (auto simp: reserve_for_def split_beta)
  with assms(2)[of db] show ?thesis by (auto simp: created_def)
qed

text \<open>
  A member that deletes a project somebody else made gets the slot of that
  project for itself: it may then have one project more than its limit allows,
  while the account that made the deleted one has none left and is refused a
  new one.
\<close>

theorem deleting_a_shared_project_frees_a_slot:
  "fst (Projects_Create demo_key calm_call (Some (demo_new_project 42 2)) demo_projects) = Some (JLimits (HardLimitReachedError ''projects'' 1 1))
   \<and> fst (Projects_DeleteByID demo_key calm_call \<lparr>djID = uuid7 41, djUserID = uuid7 2\<rparr> demo_projects) = None
   \<and> fst (Projects_Create demo_key calm_call (Some (demo_new_project 42 2)) shared_deleted) = None
   \<and> psMembers (snd (Projects_Create demo_key calm_call (Some (demo_new_project 42 2)) shared_deleted)) = [(uuid7 42, uuid7 2), (uuid7 40, uuid7 2)]
   \<and> fst (Projects_Create demo_key calm_call (Some (demo_new_project 42 3)) shared_deleted) = Some (JLimits (HardLimitReachedError ''projects'' 1 1))"
proof -
  have w: "repo_InsertProject (pcWrite calm_call) (demo_new_project 42 2) (shared_deleted\<lparr>psLimits := db\<rparr>) =
      (None, shared_deleted\<lparr>psLimits := db, psProjects := [(uuid7 42, demo_project), (uuid7 40, demo_project)],
        psMembers := [(uuid7 42, uuid7 2), (uuid7 40, uuid7 2)]\<rparr>)" for db
    using demo_valid[of 2] demo_uuids
    by (simp add: repo_InsertProject_def answered_def calm_call_def project_of_def account_of_def shared_deleted_run demo_project_def demo_create_input demo_user)
      (simp add: demo_new_project_def uuid7_def)
  obtain db db' where "created demo_key calm_call (user_scope (uuid7 2)) ''projects'' (repo_InsertProject (pcWrite calm_call) (demo_new_project 42 2)) shared_deleted
      = (None, shared_deleted\<lparr>psLimits := db, psProjects := [(uuid7 42, demo_project), (uuid7 40, demo_project)],
        psMembers := [(uuid7 42, uuid7 2), (uuid7 40, uuid7 2)], psLimits := db'\<rparr>)"
    using created_row[OF shared_deleted_reserve(1), of "repo_InsertProject (pcWrite calm_call) (demo_new_project 42 2)", OF w] by blast
  then show ?thesis
    using demo_create_full shared_deleted_run(1) created_full[OF shared_deleted_reserve(2)] by (simp add: demo_create demo_uuids)
qed

text \<open>
  A recount that runs while a product is being created erases its
  reservation: it counts the rows before the row is there and writes that over
  the counter, so the next create finds the slot free, and the project holds
  two products where its hard limit is one.
\<close>

theorem recount_beside_a_create_oversells:
  "let (e1, st1) = reserve_for demo_key calm_call (project_scope (uuid7 40)) ''products'' demo_projects;
       (r, db) = RecountUsage demo_key no_faults (project_scope (uuid7 40)) ''products'' (counted st1);
       (e2, st2) = repo_InsertProduct Done (demo_new_product 42 ''left'') (st1\<lparr>psLimits := db\<rparr>);
       (e3, st3) = Products_Create demo_key calm_call (Some (demo_new_product 43 ''right'')) st2
     in e1 = None \<and> e2 = None \<and> e3 = None \<and> limit_in (uuid7 40) st3 = Some 1 \<and> rows_in (uuid7 40) st3 = 2"
proof -
  let ?left = "\<lparr>pdProject = uuid7 40, pdName = ''left'', pdDescription = ''the north'', pdSystem = False\<rparr>"
  let ?slot = "signed_row (project_scope (uuid7 40)) ''products''"
  let ?st1 = "demo_projects\<lparr>psLimits := (counted demo_projects)\<lparr>usage_rows := usage_rows demo_limits @ [?slot 1]\<rparr>\<rparr>"
  have 1: "reserve_for demo_key calm_call (project_scope (uuid7 40)) ''products'' demo_projects = (None, ?st1)"
    by (simp add: slots_run tables_run)
  obtain r db where q: "RecountUsage demo_key no_faults (project_scope (uuid7 40)) ''products'' (counted ?st1) = (r, db)" by fastforce
  then have db: "usage_rows db = usage_rows demo_limits @ [?slot 0]" "limit_rows db = limit_rows demo_limits"
    by (auto simp: slots_run tables_run RecountUsage_def repo_RecountUsage_def resourceCountQueries_def split: if_splits)
  let ?st2 = "demo_projects\<lparr>psLimits := db, psProducts := [(uuid7 42, ?left)]\<rparr>"
  have 2: "repo_InsertProduct Done (demo_new_product 42 ''left'') (?st1\<lparr>psLimits := db\<rparr>) = (None, ?st2)"
    unfolding repo_InsertProduct_def demo_valid_product option.case answered_def
    by (simp add: demo_new_product_def product_of_def name_taken_def tables_run)
  have 3: "fst (reserve_for demo_key calm_call (project_scope (uuid7 40)) ''products'' ?st2) = None"
    by (simp add: slots_run db tables_run Let_def)
  have w: "repo_InsertProduct (pcWrite calm_call) (demo_new_product 43 ''right'') (?st2\<lparr>psLimits := db'\<rparr>)
      = (None, ?st2\<lparr>psLimits := db', psProducts := [(uuid7 43, ?left\<lparr>pdName := ''right''\<rparr>), (uuid7 42, ?left)]\<rparr>)" for db'
    unfolding repo_InsertProduct_def demo_valid_product option.case answered_def
    by (simp add: demo_new_product_def product_of_def name_taken_def tables_run calm_call_def)
  have n: "npID (demo_new_product 43 ''right'') = uuid7 43" "npProjectID (demo_new_product 43 ''right'') = uuid7 40"
    "demo_new_product 43 ''right''\<lparr>npID := uuid7 43\<rparr> = demo_new_product 43 ''right''"
    by (simp_all add: demo_new_product_def)
  have "Products_Create demo_key calm_call (Some (demo_new_product 43 ''right'')) ?st2
      = created demo_key calm_call (project_scope (uuid7 40)) ''products'' (repo_InsertProduct (pcWrite calm_call) (demo_new_product 43 ''right'')) ?st2"
    by (simp add: Products_Create_def n demo_kept_id demo_valid_product)
  with created_row[OF 3, of "repo_InsertProduct (pcWrite calm_call) (demo_new_product 43 ''right'')", OF w]
  obtain db1 db2 where c: "Products_Create demo_key calm_call (Some (demo_new_product 43 ''right'')) ?st2
      = (None, ?st2\<lparr>psLimits := db1, psProducts := [(uuid7 43, ?left\<lparr>pdName := ''right''\<rparr>), (uuid7 42, ?left)], psLimits := db2\<rparr>)"
    by auto
  have "limit_in (uuid7 40) (snd (Products_Create demo_key calm_call (Some (demo_new_product 43 ''right'')) ?st2)) = limit_in (uuid7 40) ?st2"
    using Products_Create_charges[of calm_call "uuid7 40" ?st2 demo_key] by (simp add: charges_def)
  moreover have "limit_in (uuid7 40) ?st2 = Some 1"
    by (simp add: limit_in_def hard_limit_def resolved_def db demo_limits_def products_key_def ResourcesLimitsUnlimited_def Let_def)
  ultimately show ?thesis using 1 q 2 c by (simp add: rows_in_def)
qed

section \<open>Requests\<close>

text \<open>The library reads one token, of the first account; everything it may do is to read.\<close>

definition ann_claims :: claims where
  "ann_claims = [''sub'' \<mapsto> CStr (uuid_string (uuid7 2)), ''token_type'' \<mapsto> CStr TokenTypeAccess, ''jti'' \<mapsto> CStr (uuid_string (uuid7 60))]"

definition ann_jwt :: "(bool, bool) jwt_lib" where
  "ann_jwt = demo_jwt\<lparr>Parse := (\<lambda>opts kf now token. if token = ''ann'' then Inr (ann_claims, True) else Inl POther)\<rparr>"

definition reading_projects :: projects_state where
  "reading_projects = demo_projects\<lparr>psGrants := demo_grants\<lparr>gsPolicies := [demo_policy 20 ''GET'' ''*'']\<rparr>\<rparr>"

definition ann_gate :: gate_call where
  "ann_gate = \<lparr>gcNow = 0, gcStandingFaults = no_acc_faults, gcGrantCall = quiet_call, gcEvalFails = False, gcProjectCall = calm_call, gcGone = False\<rparr>"

definition ann_request :: "nat \<Rightarrow> http_request" where
  "ann_request p = \<lparr>rqMethod = ''HEAD'', rqPath = ''/projects/'' @ uuid_string (uuid7 p), rqAuthorization = ''bearer ann'',
     rqProjectID = uuid_string (uuid7 p), rqProductID = []\<rparr>"

definition empty_mirror :: token_mirror where
  "empty_mirror = \<lparr>tmRemote = {uuid7 61}, tmLocal = [], tmLastReload = 0, tmReloadFailures = 0\<rparr>"

lemma ann_text: "claim_text ann_claims ''sub'' = Some (uuid_string (uuid7 2))" "claim_text ann_claims ''token_type'' = Some TokenTypeAccess"
  "claim_text ann_claims ''jti'' = Some (uuid_string (uuid7 60))" "claimString ann_claims ''sub'' = uuid_string (uuid7 2)" "subject_of ann_claims = Some (uuid7 2)"
  by (simp_all add: claim_text_def claimString_def ann_claims_def subject_of_def uuid_parse_string)

lemma ann_token: "bearer_token ''bearer ann'' = Inr ''ann''"
  by code_simp

lemma ann_verified: "VerifyToken ann_jwt new_signer now ''ann'' = Inr ann_claims"
  by (simp add: VerifyToken_def ann_jwt_def)

lemma ann_caller: "caller_of ann_jwt new_signer gcall (ann_request p) = Some (uuid7 2)"
  by (simp add: caller_of_def ann_request_def ann_token ann_verified ann_text)

lemma ann_passes:
  "accessTokenMiddlewares (gate_of ann_jwt new_signer empty_mirror ann_gate reading_projects) (ann_request 40) = Inr (ann_claims, ''ann'')"
proof -
  let ?env = "gate_of ann_jwt new_signer empty_mirror ann_gate reading_projects"
  have ne: "ann_claims \<noteq> Map.empty" by (simp add: ann_claims_def)
  have v: "CheckAccessToken (gaValidators ?env) (gaRevoked ?env) (ann_request 40) = Inr (ann_claims, ''ann'')"
    by (simp add: CheckAccessToken_def checkToken_Inr gate_of_simps ann_request_def ann_token createJWTValidators_def validateToken_def
        ann_verified ne check_claims_None not_revoked_None ann_text uuid_parse_string TokenMirror_Contains_def empty_mirror_def uuid7_def)
  have row: "user_row_of (uuid7 2) (gsAccounts (psGrants reading_projects)) = Some plain_row" "uuid7 2 \<noteq> uuid_nil" "uuid7 40 \<noteq> uuid_nil"
    using demo_user by (simp_all add: reading_projects_def uuid7_def)
  have a: "RequireActiveAccount ?env ann_claims = None"
    using row demo_uuids(1) by (simp add: RequireActiveAccount_None gate_of_simps ann_text Standing_def repo_SelectDisabled_def ann_gate_def no_acc_faults_def plain_row_def)
  have h: "may_do (psGrants reading_projects) (uuid7 2) ''GET'' path" for path
    unfolding may_do_iff held_def access_rows_def using row
    by (simp add: reading_projects_def demo_grants_def users_roles_def role_of_def demo_policy_def uuid7_def row_allows_def)
  have g: "CheckAuthz ?env (ann_request 40) ann_claims = None"
    using h by (simp add: CheckAuthz_None gate_of_simps ann_text may_do_def ann_gate_def authz_action_def ann_request_def)
  have m: "RequireProjectMembership ?env (ann_request 40) ann_claims = None"
    using row by (simp add: RequireProjectMembership_None gate_of_simps ann_text uuid_parse_string ann_request_def Membership_def
        SelectMembership_def ann_gate_def calm_call_def) (simp add: reading_projects_def tables_run plain_row_def)
  from v a g m show ?thesis by (simp add: accessTokenMiddlewares_def guarded_Inr first_refusal_None)
qed

lemma written_uuid: "uuid_string u \<noteq> []"
  using uuid_parse_string[of u] uuid_parse_Nil by (metis option.distinct(1))

theorem gate_admits_only_witness:
  "may_do (psGrants reading_projects) (uuid7 2) ''GET'' (''/projects/'' @ uuid_string (uuid7 40)) \<and> may_touch (uuid7 40) (uuid7 2) reading_projects"
  using gate_admits_only[OF ann_passes]
  by (auto simp: ann_text ann_request_def authz_action_def uuid_parse_string written_uuid)

text \<open>The first account alone in the first project, and the second project without it.\<close>

definition apart_projects :: projects_state where
  "apart_projects = reading_projects\<lparr>psMembers := [(uuid7 40, uuid7 2), (uuid7 41, uuid7 3)]\<rparr>"

definition ann_lists :: list_call where
  "ann_lists = \<lparr>lcProjectExprs = any_expression, lcProductExprs = any_expression,
     lcProjectSql = \<lparr>filter_sql = (\<lambda>f r. pjName (itBody r) = f), sort_sql = (\<lambda>_ rs. rs)\<rparr>,
     lcProductSql = \<lparr>filter_sql = (\<lambda>f r. qiName (itBody r) = f), sort_sql = (\<lambda>_ rs. rs)\<rparr>,
     lcSerial = (\<lambda>u. ucast u), lcFailure = None\<rparr>"

definition ann_api :: api_call where
  "ann_api = \<lparr>apKey = demo_key, apCall = calm_call, apFresh = uuid7 50, apCached = (\<lambda>_. None), apGone = False, apLists = ann_lists\<rparr>"

definition ann_query :: list_query where
  "ann_query = \<lparr>lqSort = [], lqFilter = [], lqFields = [], lqNextToken = [], lqPrevToken = [], lqLimit = ''2'', lqHost = ''localhost''\<rparr>"

definition ann_arrival :: "nat \<Rightarrow> project_route \<Rightarrow> (bool, bool) arrival" where
  "ann_arrival p route = \<lparr>avLib = ann_jwt, avSigner = new_signer, avMirror = empty_mirror, avGate = ann_gate, avCall = ann_api,
     avRequest = ann_request p, avRoute = route\<rparr>"

lemma ann_outside: "outsider (uuid7 41) apart_projects (ann_arrival p route)" "project_of (uuid7 41) apart_projects \<noteq> None" "projects_wf apart_projects"
  by (simp_all add: outsider_def ann_arrival_def ann_caller apart_projects_def reading_projects_def projects_wf_def)
    (simp_all add: tables_run plain_row_def)

theorem tenants_are_isolated_witness:
  "view_of (uuid7 41) (after_requests [ann_arrival 41 RDeleteProject, ann_arrival 40 RDeleteProject] apart_projects) = view_of (uuid7 41) apart_projects"
  by (rule tenants_are_isolated) (simp_all add: ann_outside)

lemma ann_valid_query: "i = \<lparr>slSort = [], slFilter = [], slFields = [], slPaginator = empty_paginator\<lparr>pgLimit := 2\<rparr>\<rparr> \<Longrightarrow>
    SelectProjectsInput_Validate any_expression \<lparr>spPage = i, spUserID = uuid7 2, spCallerID = u\<rparr> = None
  \<and> SelectInput_Validate any_expression i = None"
  by (simp add: SelectProjectsInput_Validate_def SelectInput_Validate_def any_expression_def empty_paginator_def Paginator_Validate_def
      ValidatePagination_def check_token_def PaginatorMinLimit_def PaginatorMaxLimit_def errs_result_def HasErrors_def valid_uuid demo_uuids
      validateListExpressions_def boundedExpression_def parse_step_def ValidateSortExpression_def ValidateFilterExpression_def
      ValidateFieldsExpression_def length_bounds Let_def)

text \<open>The list of the first account is its own project, not the one beside it.\<close>

lemma ann_sees_her_project:
  "\<exists>paginator. Projects_List ann_lists \<lparr>spPage = \<lparr>slSort = [], slFilter = [], slFields = [], slPaginator = empty_paginator\<lparr>pgLimit := 2\<rparr>\<rparr>,
      spUserID = uuid7 2, spCallerID = uuid_nil\<rparr> apart_projects = Inr ([(uuid7 40, demo_project)], paginator)"
proof -
  let ?i = "\<lparr>slSort = [], slFilter = [], slFields = [], slPaginator = empty_paginator\<lparr>pgLimit := 2\<rparr>\<rparr>"
  let ?r = "\<lparr>itID = uuid7 40, itSerial = ucast (uuid7 40), itBody = demo_project\<rparr> :: project_row item"
  have v: "view_projects_users ann_lists (uuid7 2) apart_projects = [?r]"
    unfolding view_projects_users_def visible_project_def apart_projects_def reading_projects_def
    by (simp add: tables_run ann_lists_def plain_row_def)
  have d: "GetPaginatorDirection [] [] = Inr (TokenDirectionInvalid, uuid_nil, 0)" by (simp add: GetPaginatorDirection_def)
  have q: "page_query sql ?i TokenDirectionInvalid uuid_nil 0 [?r] = [?r]" for sql
    by (simp add: page_query_def buildPaginationCriteria_def TokenDirectionInvalid_def TokenDirectionNext_def TokenDirectionPrev_def
        matching_def newest_first_def oldest_first_def empty_paginator_def)
  obtain p where p: "SelectPage any_expression (lcProjectSql ann_lists) False (Some ?i) [?r] = Inr ([?r], p)"
    using ann_valid_query[of ?i] q[of "lcProjectSql ann_lists"] by (simp add: SelectPage_def d empty_paginator_def split_beta Let_def)
  have l: "lcProjectExprs ann_lists = any_expression" "lcFailure ann_lists = None" by (simp_all add: ann_lists_def)
  have "scanned_project [] ?r = (uuid7 40, demo_project)" by (simp add: scanned_project_def wanted_def demo_project_def)
  with p v show ?thesis
    using ann_valid_query[of ?i uuid_nil] by (simp add: Projects_List_def repo_SelectProjects_def page_of_def l)
qed

theorem outsiders_learn_nothing_witness:
  "list_all (\<lambda>route. fst (respond_to (ann_arrival 41 route) (drop_project (uuid7 41) apart_projects)) = fst (respond_to (ann_arrival 41 route) apart_projects))
    [RGetProject, RListProjects ann_query, RListUserProjects (uuid_string (uuid7 3)) ann_query, RListProducts ann_query]"
proof -
  have "fst (respond_to (ann_arrival 41 route) (drop_project (uuid7 41) apart_projects)) = fst (respond_to (ann_arrival 41 route) apart_projects)"
    if "\<not> names_taken_id (uuid7 41) apart_projects ann_api route" for route
    using that by (intro outsiders_learn_nothing) (simp_all add: ann_outside, simp add: ann_arrival_def)
  then show ?thesis by (simp add: names_taken_id_def)
qed

theorem products_within_the_hard_limit_witness:
  "rows_in (uuid7 40) (fold (project_step demo_key) (replicate 3 (calm_call, OpCreateProduct (Some (demo_new_product 42 ''left'')))) demo_projects) \<le> 1"
proof -
  have "limit_in (uuid7 40) demo_projects = Some 1" "rows_in (uuid7 40) demo_projects = 0" "usage_in (uuid7 40) demo_projects = 0"
    by (simp_all add: limit_in_def hard_limit_def resolved_def products_key_def ResourcesLimitsUnlimited_def Let_def rows_in_def
        usage_in_def counter_def slots_run tables_run)
  from products_within_the_hard_limit[OF this(1), where key = demo_key and ops = "replicate 3 (calm_call, OpCreateProduct (Some (demo_new_product 42 ''left'')))"] this(2,3)
  show ?thesis by (simp add: lost_rows_def calm_call_def numeral_3_eq_3)
qed

text \<open>
  The id of a create is the caller's to choose, and one that is taken is
  answered so: an account outside a project learns that the project is there
  by asking to create one under its id, while every other route answers it as
  if the project were not.
\<close>

theorem create_confirms_a_hidden_project:
  "let taken = apart_projects\<lparr>psProjects := [(uuid7 42, demo_project)], psMembers := [], psLimits := demo_limits\<lparr>usage_rows := []\<rparr>\<rparr>;
       req = \<lparr>cjID = uuid7 42, cjName = ''north'', cjDescription = ''the north''\<rparr>
     in \<not> may_touch (uuid7 42) (uuid7 2) taken
      \<and> reply_status (fst (h_create_project ann_api ann_claims (Inr req) taken)) = 409
      \<and> reply_status (fst (h_create_project ann_api ann_claims (Inr req) (drop_project (uuid7 42) taken))) = 201"
proof -
  let ?taken = "apart_projects\<lparr>psProjects := [(uuid7 42, demo_project)], psMembers := [], psLimits := demo_limits\<lparr>usage_rows := []\<rparr>\<rparr>"
  let ?req = "\<lparr>cjID = uuid7 42, cjName = ''north'', cjDescription = ''the north''\<rparr>"
  have m: "\<not> may_touch (uuid7 42) (uuid7 2) ?taken"
    by (simp add: apart_projects_def reading_projects_def) (simp add: tables_run plain_row_def)
  have v: "CreateRequest_Validate 70 ?req = Inr ?req"
    by (simp add: CreateRequest_Validate_def valid_uuid demo_uuids check_field_def demo_texts HasErrors_def)
  have c: "pcWrite calm_call = Done" "apKey ann_api = demo_key" "apCall ann_api = calm_call" "apGone ann_api = False"
    "apFresh ann_api = uuid7 50" by (simp_all add: calm_call_def ann_api_def)
  have h: "reply_status (fst (h_create_project ann_api ann_claims (Inr ?req) st))
      = (case fst (Projects_Create demo_key calm_call (Some (demo_new_project 42 2)) st) of None \<Rightarrow> 201
          | Some e \<Rightarrow> reply_status (arms create_project_arm False e))" for st
    by (simp add: h_create_project_def getUserIDFromContext_def ann_text decoded_def demo_kept_id validated_def v with_input_def
        wrote_reply_def c demo_new_project_def[symmetric] split: option.split)
  have r: "fst (reserve_for demo_key calm_call (user_scope (uuid7 2)) ''projects'' s) = None"
    if "usage_rows (psLimits s) = []" "limit_rows (psLimits s) = limit_rows demo_limits" for s
    using that by (simp add: reserve_for_def ReserveResourceSlot_def ReserveUsage_def use_case_guard_def repo_ReserveUsage_def validateScope_def
      no_faults_def resolved_def demo_limits_def calm_call_def ukey_of_def scope_uuid_def user_scope_def
      uuid7_def ResourcesLimitsUnlimited_def sign_and_commit_def createSignature_def demo_key_def Let_def)
  have s: "snd (reserve_for key call scope rt st) = st\<lparr>psLimits := psLimits (snd (reserve_for key call scope rt st))\<rparr>" for key call scope rt st
    by (simp add: reserve_for_def split_beta)
  have f: "fst (Projects_Create demo_key calm_call (Some (demo_new_project 42 2)) st)
      = fst (repo_InsertProject Done (demo_new_project 42 2) st)"
    if "usage_rows (psLimits st) = []" "limit_rows (psLimits st) = limit_rows demo_limits" for st
    using created_free[OF r[OF that], of "repo_InsertProject Done (demo_new_project 42 2)"]
      insert_reads_tables(1)[of Done "demo_new_project 42 2" "psLimits (snd (reserve_for demo_key calm_call (user_scope (uuid7 2)) ''projects'' st))" st] s[of demo_key calm_call "user_scope (uuid7 2)" "''projects''" st]
    by (simp add: demo_create demo_uuids c)
  have i: "fst (repo_InsertProject Done (demo_new_project 42 2) st)
      = (if project_of (uuid7 42) st \<noteq> None then Some (JProjectExists (uuid7 42)) else None)" if "account_of (uuid7 2) st \<noteq> None" for st
    using that by (auto simp: repo_InsertProject_def demo_valid demo_uuids answered_def demo_create_input)
  have a: "account_of (uuid7 2) ?taken = Some plain_row" using demo_user by (simp add: account_of_def apart_projects_def reading_projects_def)
  have p: "project_of (uuid7 42) ?taken \<noteq> None" "project_of (uuid7 42) (drop_project (uuid7 42) ?taken) = None"
    by (simp_all add: project_of_def drop_project_def)
  have "reply_status (fst (h_create_project ann_api ann_claims (Inr ?req) ?taken)) = 409"
    using f[of ?taken] i[of ?taken] a p(1) by (simp add: h arms_def)
  moreover have "reply_status (fst (h_create_project ann_api ann_claims (Inr ?req) (drop_project (uuid7 42) ?taken))) = 201"
    using f[of "drop_project (uuid7 42) ?taken"] i[of "drop_project (uuid7 42) ?taken"] a p(2) by (simp add: h) (simp add: drop_project_def)
  ultimately show ?thesis using m by (simp add: Let_def)
qed

end
