(* ===== verification/Identities.thy ===== *)
theory Identities
  imports Accounts
begin

text \<open>
  Identity providers and the identities linked to accounts: the entities and
  their validators (\<open>internal/core/domain/idps.go\<close>, \<open>idp_types.go\<close>,
  \<open>users_identities.go\<close>), the statements of \<open>repositorypg/users_identities.go\<close>
  and \<open>repositorypg/idps.go\<close> on the tables of \<open>Accounts\<close>, and the use case of
  the providers (\<open>usecase/idps.go\<close>).  The table \<open>idp_types\<close> is written by the
  migrations only, and is an argument; so are \<open>url.Parse\<close> and the cipher.  A
  statement reads and writes the tables as they are when it runs, which the
  row locks of its transaction give it; a text too long for its column is one
  of the failures that are an argument.
\<close>

section \<open>Data\<close>

text \<open>\<open>domain.IDPTypes\<close>, without the timestamps and the serial.\<close>

record IDPTypes =
  itID :: uuid
  itName :: string
  itDescription :: string
  itUserInfoAPIURL :: string
  itIssuerHint :: string
  itKind :: string
  itScopes :: "string list"

definition IDPTypeKindOIDC :: string where "IDPTypeKindOIDC = ''oidc''"
definition IDPTypeKindGithub :: string where "IDPTypeKindGithub = ''github''"

record IDP =
  ipName :: string
  ipDescription :: string
  ipCallbackURL :: string
  ipIssuerURL :: string
  ipLogo :: string
  ipClientID :: string
  ipClientSecret :: string
  ipType :: IDPTypes
  ipID :: uuid
  ipEnabled :: bool
  ipAutoProvision :: bool

definition IsOIDC :: "IDP \<Rightarrow> bool" where
  "IsOIDC idp = (itKind (ipType idp) = IDPTypeKindOIDC)"

record InsertIDPInput =
  iiName :: string
  iiDescription :: string
  iiCallbackURL :: string
  iiIssuerURL :: string
  iiLogo :: string
  iiClientID :: string
  iiClientSecret :: string
  iiID :: uuid
  iiIDPTypeID :: uuid
  iiEnabled :: bool
  iiAutoProvision :: bool

record UpdateIDPInput =
  iuIDPTypeID :: "uuid option"
  iuName :: "string option"
  iuDescription :: "string option"
  iuCallbackURL :: "string option"
  iuIssuerURL :: "string option"
  iuLogo :: "string option"
  iuClientID :: "string option"
  iuClientSecret :: "string option"
  iuEnabled :: "bool option"
  iuAutoProvision :: "bool option"
  iuID :: uuid
  iuCallerID :: uuid

record UserIdentity =
  uiSubject :: string
  uiEmail :: string
  uiIDPName :: string
  uiIDPTypeName :: string
  uiIDPEnabled :: bool
  uiUserID :: uuid
  uiIDPID :: uuid

record UnlinkUserIdentityInput =
  ulUserID :: uuid
  ulIDPID :: uuid

datatype idp_error =
    IInvalidInput string
  | IInvalidIDPID
  | IValidation verror
  | INotFound string uuid
  | ITypeNotFound uuid
  | ITypeInvalidID
  | IAlreadyExistsID uuid
  | IAlreadyExistsName string
  | IInUse string string uuid
  | IProtected string string uuid
  | IAdministratorOnly string
  | IIdentityNotFound string
  | IIdentityAlreadyLinked string
  | IChangedDuringSignIn
  | IAccount account_error
  | ILimits limits_error
  | ICipher
  | IQueryFailed

definition UnlinkOnlyWayInMessage :: string where
  "UnlinkOnlyWayInMessage = ''this is the only way into the account; set a password or link another provider first''"

definition provider_identity_taken :: string where
  "provider_identity_taken = ''this provider identity is already linked to an account''"

definition account_has_identity :: string where
  "account_has_identity = ''this account already has an identity at that provider''"

text \<open>What is outside: the rows of \<open>idp_types\<close>, the text environment (\<open>url.Parse\<close>), the cipher, and the key of the usage rows.\<close>

record idp_ports =
  ipTypes :: "uuid \<Rightarrow> IDPTypes option"
  ipText :: text_env
  ipEncrypt :: "string \<Rightarrow> string option"
  ipDecrypt :: "string \<Rightarrow> string option"
  ipKey :: ecdsa

datatype idp_stmt =
    ILink | IUnlinkLock | IUnlink | IExists | ISelectBySubject | ISelectByUser
  | IInsert | ILock | IUpdate | IHasIdentities | ILockAccounts | IDelete | ISelectByID | ISelectByName | ISelectType | ICommit

type_synonym idp_faults = "idp_stmt \<Rightarrow> bool"

section \<open>Validators\<close>

definition UnlinkUserIdentityInput_Validate :: "UnlinkUserIdentityInput \<Rightarrow> verror option" where
  "UnlinkUserIdentityInput_Validate i =
     errs_result (Add (Add [] (ValidateUUID (ulUserID i) 7 ''user_id'')) (ValidateUUID (ulIDPID i) 7 ''idp_id''))"

definition validateIDPURL :: "idp_ports \<Rightarrow> string \<Rightarrow> string \<Rightarrow> bool \<Rightarrow> verror option" where
  "validateIDPURL io field url must =
     (if url = [] then (if must then Some (VOne (verr field (field @ '' is required'') ''REQUIRED'')) else None)
      else case parse_url (ipText io) url of
        None \<Rightarrow> Some (VOne (verr field (field @ '' must be an absolute http(s) URL'') ''INVALID_URL''))
      | Some (scheme, host, _) \<Rightarrow>
          if (scheme \<noteq> ''https'' \<and> scheme \<noteq> ''http'') \<or> host = []
          then Some (VOne (verr field (field @ '' must be an absolute http(s) URL'') ''INVALID_URL'')) else None)"

definition required :: "string \<Rightarrow> string \<Rightarrow> ValidationError list \<Rightarrow> ValidationError list" where
  "required field v errs = (if v = [] then Add errs (Some (VOne (verr field (field @ '' is required'') ''REQUIRED''))) else errs)"

text \<open>The source ranges over a map of the required texts: their order is not fixed there.\<close>

definition InsertIDPInput_Validate :: "idp_ports \<Rightarrow> InsertIDPInput \<Rightarrow> verror option" where
  "InsertIDPInput_Validate io i =
    (let errs = Add [] (ValidateUUID (iiID i) 7 ''id'');
         errs = Add errs (ValidateUUID (iiIDPTypeID i) 7 ''idp_type_id'');
         errs = required ''name'' (iiName i) errs;
         errs = required ''description'' (iiDescription i) errs;
         errs = required ''callback_url'' (iiCallbackURL i) errs;
         errs = required ''client_id'' (iiClientID i) errs;
         errs = required ''client_secret'' (iiClientSecret i) errs;
         errs = Add errs (validateIDPURL io ''callback_url'' (iiCallbackURL i) True);
         errs = Add errs (validateIDPURL io ''issuer_url'' (iiIssuerURL i) False)
     in errs_result errs)"

definition required_opt :: "string \<Rightarrow> string option \<Rightarrow> ValidationError list \<Rightarrow> ValidationError list" where
  "required_opt field v errs = (case v of None \<Rightarrow> errs | Some s \<Rightarrow> required field s errs)"

definition UpdateIDPInput_Validate :: "idp_ports \<Rightarrow> UpdateIDPInput \<Rightarrow> verror option" where
  "UpdateIDPInput_Validate io i =
    (let errs = Add [] (ValidateUUID (iuID i) 7 ''id'');
         errs = (case iuIDPTypeID i of None \<Rightarrow> errs | Some t \<Rightarrow> Add errs (ValidateUUID t 7 ''idp_type_id''));
         errs = required_opt ''name'' (iuName i) errs;
         errs = required_opt ''description'' (iuDescription i) errs;
         errs = required_opt ''client_id'' (iuClientID i) errs;
         errs = required_opt ''client_secret'' (iuClientSecret i) errs;
         errs = (case iuCallbackURL i of None \<Rightarrow> errs | Some u \<Rightarrow> Add errs (validateIDPURL io ''callback_url'' u True));
         errs = (case iuIssuerURL i of None \<Rightarrow> errs | Some u \<Rightarrow> Add errs (validateIDPURL io ''issuer_url'' u False))
     in errs_result errs)"

definition DeleteIDPInput_Validate :: "uuid \<Rightarrow> verror option" where
  "DeleteIDPInput_Validate idp = errs_result (Add [] (ValidateUUID idp 7 ''id''))"

section \<open>Identities: the repository\<close>

definition idp_row_of :: "uuid \<Rightarrow> accounts_state \<Rightarrow> idp_row option" where
  "idp_row_of idp st = map_of (acIdps st) idp"

text \<open>The provider is as the sign-in used it: the condition of \<open>queryLinkIdentity\<close> and of \<open>SelectBySubject\<close>.\<close>

definition provider_unchanged :: "uuid \<Rightarrow> uuid \<Rightarrow> string \<Rightarrow> accounts_state \<Rightarrow> bool" where
  "provider_unchanged idp type issuer st =
     (case idp_row_of idp st of None \<Rightarrow> False | Some p \<Rightarrow> idpType p = type \<and> idpIssuerURL p = issuer)"

definition identity_of_input :: "LinkUserIdentityInput \<Rightarrow> identity_row" where
  "identity_of_input i = \<lparr>idnUser = idUserID i, idnIDP = idIDPID i, idnSubject = idSubject i, idnEmail = idEmail i\<rparr>"

text \<open>\<open>Link\<close>: the two unique keys are checked by the insert, the account's foreign key at the end of the statement.\<close>

definition repo_Link :: "idp_faults \<Rightarrow> LinkUserIdentityInput \<Rightarrow> accounts_state \<Rightarrow> idp_error option \<times> accounts_state" where
  "repo_Link faults i st =
    (case LinkUserIdentityInput_Validate i of
       Some e \<Rightarrow> (Some (IValidation e), st)
     | None \<Rightarrow>
       if faults ILink then (Some IQueryFailed, st)
       else if \<not> provider_unchanged (idIDPID i) (idIDPTypeID i) (idIssuerURL i) st then (Some IChangedDuringSignIn, st)
       else if list_ex (\<lambda>n. idnIDP n = idIDPID i \<and> idnSubject n = idSubject i) (acIdentities st)
       then (Some (IIdentityAlreadyLinked provider_identity_taken), st)
       else if list_ex (\<lambda>n. idnUser n = idUserID i \<and> idnIDP n = idIDPID i) (acIdentities st)
       then (Some (IIdentityAlreadyLinked account_has_identity), st)
       else if user_row_of (idUserID i) st = None then (Some (IIdentityNotFound ''the account does not exist''), st)
       else (None, st\<lparr>acIdentities := identity_of_input i # acIdentities st\<rparr>))"

definition provider_enabled :: "accounts_state \<Rightarrow> uuid \<Rightarrow> bool" where
  "provider_enabled st idp = (case idp_row_of idp st of None \<Rightarrow> False | Some p \<Rightarrow> idpEnabled p)"

text \<open>The condition of \<open>queryUnlinkIdentity\<close>.\<close>

definition keeps_way_in :: "uuid \<Rightarrow> uuid \<Rightarrow> accounts_state \<Rightarrow> bool" where
  "keeps_way_in uid idp st =
     (case user_row_of uid st of
        None \<Rightarrow> False
      | Some r \<Rightarrow> rowLocalAccount r
          \<or> list_ex (\<lambda>n. idnUser n = uid \<and> idnIDP n \<noteq> idp \<and> provider_enabled st (idnIDP n)) (acIdentities st))"

definition has_identity_at :: "uuid \<Rightarrow> uuid \<Rightarrow> accounts_state \<Rightarrow> bool" where
  "has_identity_at uid idp st = list_ex (\<lambda>n. idnUser n = uid \<and> idnIDP n = idp) (acIdentities st)"

definition repo_Unlink :: "idp_faults \<Rightarrow> UnlinkUserIdentityInput \<Rightarrow> accounts_state \<Rightarrow> idp_error option \<times> accounts_state" where
  "repo_Unlink faults i st =
    (case UnlinkUserIdentityInput_Validate i of
       Some e \<Rightarrow> (Some (IValidation e), st)
     | None \<Rightarrow>
       if faults IUnlinkLock \<or> faults IUnlink then (Some IQueryFailed, st)
       else if has_identity_at (ulUserID i) (ulIDPID i) st \<and> keeps_way_in (ulUserID i) (ulIDPID i) st
       then (if faults ICommit then (Some IQueryFailed, st)
             else (None, st\<lparr>acIdentities := filter (\<lambda>n. \<not> (idnUser n = ulUserID i \<and> idnIDP n = ulIDPID i)) (acIdentities st)\<rparr>))
       else if faults IExists then (Some IQueryFailed, st)
       else if has_identity_at (ulUserID i) (ulIDPID i) st
       then (Some (IIdentityAlreadyLinked UnlinkOnlyWayInMessage), st)
       else (Some (IIdentityNotFound ''this account has no identity at that provider''), st))"

text \<open>A row of the join of \<open>users_identities\<close>, \<open>idps\<close> and \<open>idp_types\<close>.\<close>

definition joined_identity :: "idp_ports \<Rightarrow> accounts_state \<Rightarrow> identity_row \<Rightarrow> UserIdentity option" where
  "joined_identity io st n =
     (case idp_row_of (idnIDP n) st of
        None \<Rightarrow> None
      | Some p \<Rightarrow> (case ipTypes io (idpType p) of
          None \<Rightarrow> None
        | Some t \<Rightarrow> Some \<lparr>uiSubject = idnSubject n, uiEmail = idnEmail n, uiIDPName = idpName p, uiIDPTypeName = itName t,
              uiIDPEnabled = idpEnabled p, uiUserID = idnUser n, uiIDPID = idnIDP n\<rparr>))"

definition repo_SelectBySubject ::
  "idp_ports \<Rightarrow> idp_faults \<Rightarrow> uuid \<Rightarrow> uuid \<Rightarrow> string \<Rightarrow> string \<Rightarrow> accounts_state \<Rightarrow> idp_error + UserIdentity" where
  "repo_SelectBySubject io faults idp type issuer subject st =
     (if idp = uuid_nil \<or> subject = [] then Inl (IInvalidInput ''idp and subject are required'')
      else if faults ISelectBySubject then Inl IQueryFailed
      else case List.map_filter (joined_identity io st)
          (filter (\<lambda>n. idnIDP n = idp \<and> idnSubject n = subject \<and> provider_unchanged idp type issuer st) (acIdentities st)) of
        [] \<Rightarrow> Inl (IIdentityNotFound [])
      | n # _ \<Rightarrow> Inr n)"

text \<open>The table holds the newest link first; the statement orders by \<open>linked_at\<close>.\<close>

definition repo_SelectByUserID :: "idp_ports \<Rightarrow> idp_faults \<Rightarrow> uuid \<Rightarrow> accounts_state \<Rightarrow> idp_error + UserIdentity list" where
  "repo_SelectByUserID io faults uid st =
     (if uid = uuid_nil then Inl (IInvalidInput ''user id is required'')
      else if faults ISelectByUser then Inl IQueryFailed
      else Inr (List.map_filter (joined_identity io st) (rev (filter (\<lambda>n. idnUser n = uid) (acIdentities st)))))"

end
