(* ===== verification/Providers.thy ===== *)
theory Providers
  imports Identities
begin

text \<open>
  The identity providers: the statements of \<open>repositorypg/idps.go\<close> and the use
  case \<open>usecase/idps.go\<close>, with its two guards: an administrator account keeps a
  way in, and a linked provider's client and callback are the administrator
  account's to change.  A call is given which of its statements fail, what the
  cache holds and the id it draws.
\<close>

section \<open>The repository\<close>

definition provider_row :: "InsertIDPInput \<Rightarrow> idp_row" where
  "provider_row i = \<lparr>idpType = iiIDPTypeID i, idpName = iiName i, idpDescription = iiDescription i,
     idpCallbackURL = iiCallbackURL i, idpIssuerURL = iiIssuerURL i, idpLogo = iiLogo i, idpClientID = iiClientID i,
     idpClientSecret = iiClientSecret i, idpEnabled = iiEnabled i, idpAutoProvision = iiAutoProvision i\<rparr>"

definition repo_InsertIDP :: "idp_ports \<Rightarrow> idp_faults \<Rightarrow> InsertIDPInput \<Rightarrow> accounts_state \<Rightarrow> idp_error option \<times> accounts_state" where
  "repo_InsertIDP io faults i st =
     (case InsertIDPInput_Validate io i of
        Some e \<Rightarrow> (Some (IValidation e), st)
      | None \<Rightarrow>
        if faults IInsert then (Some IQueryFailed, st)
        else if idp_row_of (iiID i) st \<noteq> None then (Some (IAlreadyExistsID (iiID i)), st)
        else if list_ex (\<lambda>(_, p). idpName p = iiName i) (acIdps st) then (Some (IAlreadyExistsName (iiName i)), st)
        else if ipTypes io (iiIDPTypeID i) = None then (Some (ITypeNotFound (iiIDPTypeID i)), st)
        else (None, st\<lparr>acIdps := AList.update (iiID i) (provider_row i) (acIdps st)\<rparr>))"

definition has_identities :: "uuid \<Rightarrow> accounts_state \<Rightarrow> bool" where
  "has_identities idp st = list_ex (\<lambda>n. idnIDP n = idp) (acIdentities st)"

definition HasIdentities :: "idp_faults \<Rightarrow> uuid \<Rightarrow> accounts_state \<Rightarrow> idp_error + bool" where
  "HasIdentities faults idp st =
     (if idp = uuid_nil then Inl (IInvalidInput ''a provider was asked about that was not named'')
      else if faults IHasIdentities then Inl IQueryFailed
      else Inr (has_identities idp st))"

text \<open>The arguments of the update: an empty text or a nil type is NULL, but for the issuer.\<close>

definition uuid_arg :: "uuid option \<Rightarrow> uuid option" where
  "uuid_arg v = (case v of None \<Rightarrow> None | Some u \<Rightarrow> if u \<noteq> uuid_nil then Some u else None)"

definition keep_or :: "'a option \<Rightarrow> 'a \<Rightarrow> 'a" where
  "keep_or v old = (case v of None \<Rightarrow> old | Some x \<Rightarrow> x)"

definition updated_provider :: "UpdateIDPInput \<Rightarrow> idp_row \<Rightarrow> idp_row" where
  "updated_provider i p =
     p\<lparr>idpType := keep_or (uuid_arg (iuIDPTypeID i)) (idpType p),
       idpName := text_arg (iuName i) (idpName p),
       idpDescription := text_arg (iuDescription i) (idpDescription p),
       idpCallbackURL := text_arg (iuCallbackURL i) (idpCallbackURL p),
       idpIssuerURL := keep_or (iuIssuerURL i) (idpIssuerURL p),
       idpLogo := text_arg (iuLogo i) (idpLogo p),
       idpClientID := text_arg (iuClientID i) (idpClientID p),
       idpClientSecret := text_arg (iuClientSecret i) (idpClientSecret p),
       idpEnabled := keep_or (iuEnabled i) (idpEnabled p),
       idpAutoProvision := keep_or (iuAutoProvision i) (idpAutoProvision p)\<rparr>"

text \<open>The first half of the condition of \<open>queryUpdateIDP\<close>: the provider is not pointed elsewhere.\<close>

definition same_provider :: "UpdateIDPInput \<Rightarrow> idp_row \<Rightarrow> bool" where
  "same_provider i p =
     ((case uuid_arg (iuIDPTypeID i) of None \<Rightarrow> True | Some t \<Rightarrow> t = idpType p)
      \<and> (case iuIssuerURL i of None \<Rightarrow> True | Some u \<Rightarrow> u = idpIssuerURL p))"

definition repo_UpdateIDP :: "idp_ports \<Rightarrow> idp_faults \<Rightarrow> UpdateIDPInput \<Rightarrow> accounts_state \<Rightarrow> idp_error option \<times> accounts_state" where
  "repo_UpdateIDP io faults i st =
     (case UpdateIDPInput_Validate io i of
        Some e \<Rightarrow> (Some (IValidation e), st)
      | None \<Rightarrow>
        if faults ILock then (Some IQueryFailed, st)
        else case idp_row_of (iuID i) st of
          None \<Rightarrow> (Some (INotFound ''not found'' (iuID i)), st)
        | Some p \<Rightarrow>
            let p' = updated_provider i p in
            if faults IUpdate then (Some IQueryFailed, st)
            else if \<not> (same_provider i p \<or> \<not> has_identities (iuID i) st)
            then (Some (IInUse ''pointed at another issuer or type'' ''linked account'' (iuID i)), st)
            else if list_ex (\<lambda>(k, q). k \<noteq> iuID i \<and> idpName q = idpName p') (acIdps st)
            then (Some (IAlreadyExistsName (idpName p')), st)
            else if ipTypes io (idpType p') = None then (Some (ITypeNotFound (idpType p')), st)
            else if faults ICommit then (Some IQueryFailed, st)
            else (None, st\<lparr>acIdps := AList.update (iuID i) p' (acIdps st)\<rparr>))"

text \<open>The condition of \<open>queryDeleteIDP\<close>: an identity here of an account that has no password and no other identity.\<close>

definition only_way_in :: "uuid \<Rightarrow> accounts_state \<Rightarrow> identity_row \<Rightarrow> bool" where
  "only_way_in idp st n =
     (idnIDP n = idp
      \<and> (case user_row_of (idnUser n) st of None \<Rightarrow> False | Some r \<Rightarrow> \<not> rowLocalAccount r)
      \<and> \<not> list_ex (\<lambda>m. idnUser m = idnUser n \<and> idnIDP m \<noteq> idp) (acIdentities st))"

text \<open>The delete cascades to the identities at the provider.\<close>

definition repo_DeleteIDP :: "idp_faults \<Rightarrow> uuid \<Rightarrow> accounts_state \<Rightarrow> idp_error option \<times> accounts_state" where
  "repo_DeleteIDP faults idp st =
     (case DeleteIDPInput_Validate idp of
        Some e \<Rightarrow> (Some (IValidation e), st)
      | None \<Rightarrow>
        if faults ILock then (Some IQueryFailed, st)
        else if idp_row_of idp st = None then (Some (INotFound [] idp), st)
        else if faults ILockAccounts \<or> faults IDelete then (Some IQueryFailed, st)
        else if list_ex (only_way_in idp st) (acIdentities st)
        then (Some (IInUse [] ''account that has no other way to sign in'' idp), st)
        else if faults ICommit then (Some IQueryFailed, st)
        else (None, st\<lparr>acIdps := filter (\<lambda>(k, _). k \<noteq> idp) (acIdps st),
               acIdentities := filter (\<lambda>n. idnIDP n \<noteq> idp) (acIdentities st)\<rparr>))"

text \<open>
  A provider joined with its type; a type that is not there reads as empty
  fields, and the description is not read.  The scopes come back through the
  text of an array, which the seeded ones survive.
\<close>

definition no_type :: IDPTypes where
  "no_type = \<lparr>itID = uuid_nil, itName = [], itDescription = [], itUserInfoAPIURL = [], itIssuerHint = [], itKind = [], itScopes = []\<rparr>"

definition joined_type :: "IDPTypes option \<Rightarrow> IDPTypes" where
  "joined_type o_type = (case o_type of None \<Rightarrow> no_type | Some t \<Rightarrow> t\<lparr>itDescription := []\<rparr>)"

definition idp_of_row :: "idp_ports \<Rightarrow> uuid \<Rightarrow> idp_row \<Rightarrow> IDP" where
  "idp_of_row io idp p = \<lparr>ipName = idpName p, ipDescription = idpDescription p, ipCallbackURL = idpCallbackURL p,
     ipIssuerURL = idpIssuerURL p, ipLogo = idpLogo p, ipClientID = idpClientID p, ipClientSecret = idpClientSecret p,
     ipType = joined_type (ipTypes io (idpType p)), ipID = idp, ipEnabled = idpEnabled p, ipAutoProvision = idpAutoProvision p\<rparr>"

definition repo_SelectIDPByID :: "idp_ports \<Rightarrow> idp_faults \<Rightarrow> uuid \<Rightarrow> accounts_state \<Rightarrow> idp_error + IDP" where
  "repo_SelectIDPByID io faults idp st =
     (if \<not> IsUUIDV7 idp then Inl IInvalidIDPID
      else if faults ISelectByID then Inl IQueryFailed
      else case idp_row_of idp st of None \<Rightarrow> Inl (INotFound [] idp) | Some p \<Rightarrow> Inr (idp_of_row io idp p))"

definition repo_SelectIDPByName :: "idp_ports \<Rightarrow> idp_faults \<Rightarrow> string \<Rightarrow> accounts_state \<Rightarrow> idp_error + IDP" where
  "repo_SelectIDPByName io faults name st =
     (if name = [] then Inl (IInvalidInput ''name is empty'')
      else if faults ISelectByName then Inl IQueryFailed
      else case filter (\<lambda>(_, p). idpName p = name) (acIdps st) of
        [] \<Rightarrow> Inl (INotFound [] uuid_nil)
      | (idp, p) # _ \<Rightarrow> Inr (idp_of_row io idp p))"

definition repo_SelectTypeByID :: "idp_ports \<Rightarrow> idp_faults \<Rightarrow> uuid \<Rightarrow> idp_error + IDPTypes" where
  "repo_SelectTypeByID io faults type =
     (if \<not> IsUUIDV7 type then Inl ITypeInvalidID
      else if faults ISelectType then Inl IQueryFailed
      else case ipTypes io type of None \<Rightarrow> Inl (ITypeNotFound type) | Some t \<Rightarrow> Inr t)"

section \<open>The use case\<close>

record idp_request =
  iqFaults :: idp_faults
  iqAccFaults :: acc_faults
  iqReserve :: pg_faults
  iqRelease :: pg_faults
  iqFresh :: uuid
  iqCache :: "(string \<Rightarrow> IDP option) option"

text \<open>The secret is kept encrypted, in the row and in the cache.\<close>

definition decrypted :: "idp_ports \<Rightarrow> IDP \<Rightarrow> idp_error + IDP" where
  "decrypted io idp = (case ipDecrypt io (ipClientSecret idp) of None \<Rightarrow> Inl ICipher | Some s \<Rightarrow> Inr (idp\<lparr>ipClientSecret := s\<rparr>))"

definition cached :: "(string \<Rightarrow> IDP option) option \<Rightarrow> string \<Rightarrow> idp_error + IDP \<Rightarrow> idp_error + IDP" where
  "cached cache key fetch = (case cache of None \<Rightarrow> fetch | Some held \<Rightarrow> (case held key of Some idp \<Rightarrow> Inr idp | None \<Rightarrow> fetch))"

definition IDPs_GetByID :: "idp_ports \<Rightarrow> idp_request \<Rightarrow> uuid \<Rightarrow> accounts_state \<Rightarrow> idp_error + IDP" where
  "IDPs_GetByID io rq idp st =
     (if \<not> IsUUIDV7 idp then Inl (IInvalidInput ''IDP ID cannot be empty'')
      else and_then (cached (iqCache rq) (uuid_string idp) (repo_SelectIDPByID io (iqFaults rq) idp st)) (decrypted io))"

definition IDPs_GetByName :: "idp_ports \<Rightarrow> idp_request \<Rightarrow> string \<Rightarrow> accounts_state \<Rightarrow> idp_error + IDP" where
  "IDPs_GetByName io rq name st =
     (if name = [] then Inl (IInvalidInput ''name is empty'')
      else and_then (cached (iqCache rq) name (repo_SelectIDPByName io (iqFaults rq) name st)) (decrypted io))"

definition requireIssuerForKind :: "idp_ports \<Rightarrow> idp_faults \<Rightarrow> uuid \<Rightarrow> string \<Rightarrow> idp_error option" where
  "requireIssuerForKind io faults type issuer =
     (case repo_SelectTypeByID io faults type of
        Inl e \<Rightarrow> Some e
      | Inr t \<Rightarrow>
        map_option IValidation (errs_result
          (if itKind t = IDPTypeKindOIDC then
             (if issuer = [] then AddError [] ''issuer_url'' (''an '' @ itKind t @ '' provider needs its issuer URL; '' @ itName t
                @ '' expects '' @ itIssuerHint t) ''REQUIRED'' else [])
           else if itKind t = IDPTypeKindGithub then
             (if issuer \<noteq> [] then AddError [] ''issuer_url'' (''a '' @ itKind t @ '' provider has no issuer; leave it empty'') ''NOT_APPLICABLE'' else [])
           else AddError [] ''idp_type_id'' (''the provider type has an unknown kind '' @ itKind t) ''INVALID'')))"

text \<open>\<open>tbl_idps\<close> of the limits is the number of rows of \<open>idps\<close>.\<close>

definition with_idps :: "accounts_state \<Rightarrow> limits_state \<Rightarrow> limits_state" where
  "with_idps st db = db\<lparr>tbl_idps := length (acIdps st)\<rparr>"

definition IDPs_Create :: "idp_ports \<Rightarrow> idp_request \<Rightarrow> InsertIDPInput option \<Rightarrow> service_state \<Rightarrow> idp_error option \<times> service_state" where
  "IDPs_Create io rq input s =
     (case input of
        None \<Rightarrow> (Some (IInvalidInput ''input is nil''), s)
      | Some i0 \<Rightarrow>
        let i = i0\<lparr>iiID := EnsureUUIDV7 (iqFresh rq) (iiID i0)\<rparr> in
        (case InsertIDPInput_Validate io i of
           Some e \<Rightarrow> (Some (IValidation e), s)
         | None \<Rightarrow>
           (case requireIssuerForKind io (iqFaults rq) (iiIDPTypeID i) (iiIssuerURL i) of
              Some e \<Rightarrow> (Some e, s)
            | None \<Rightarrow>
              (case ReserveResourceSlot (ipKey io) (iqReserve rq) system_scope ''idps'' (snd s) of
                 (Some e, db) \<Rightarrow> (Some (ILimits e), fst s, db)
               | (None, db) \<Rightarrow>
                 (case ipEncrypt io (iiClientSecret i) of
                    None \<Rightarrow> (Some ICipher, fst s, ReleaseResourceSlot (ipKey io) (iqRelease rq) system_scope ''idps'' db)
                  | Some sealed \<Rightarrow>
                    (case repo_InsertIDP io (iqFaults rq) (i\<lparr>iiClientSecret := sealed\<rparr>) (fst s) of
                       (Some e, st) \<Rightarrow> (Some e, st, ReleaseResourceSlot (ipKey io) (iqRelease rq) system_scope ''idps'' db)
                     | (None, st) \<Rightarrow> (None, st, with_idps st db)))))))"

definition keepsAnAdministrator :: "acc_faults \<Rightarrow> uuid \<Rightarrow> string \<Rightarrow> accounts_state \<Rightarrow> idp_error option" where
  "keepsAnAdministrator faults idp action st =
     (case CountEnabledAdministratorsWithout faults idp st of
        Inl e \<Rightarrow> Some (IAccount e)
      | Inr left \<Rightarrow>
          if left > 0 then None
          else case CountEnabledAdministrators faults st of
            Inl e \<Rightarrow> Some (IAccount e)
          | Inr now \<Rightarrow> if now = 0 then None
              else Some (IProtected action ''the last enabled administrator account signs in through it'' idp))"

text \<open>The field whose change sends the sign-in elsewhere.\<close>

definition sign_in_field :: "UpdateIDPInput \<Rightarrow> IDP \<Rightarrow> string option" where
  "sign_in_field i current =
     (if iuClientID i \<noteq> None \<and> the (iuClientID i) \<noteq> [] \<and> the (iuClientID i) \<noteq> ipClientID current then Some ''client_id''
      else if iuCallbackURL i \<noteq> None \<and> the (iuCallbackURL i) \<noteq> [] \<and> the (iuCallbackURL i) \<noteq> ipCallbackURL current
      then Some ''callback_url'' else None)"

definition signInMayChange :: "idp_request \<Rightarrow> UpdateIDPInput \<Rightarrow> IDP \<Rightarrow> accounts_state \<Rightarrow> idp_error option" where
  "signInMayChange rq i current st =
     (case sign_in_field i current of
        None \<Rightarrow> None
      | Some field \<Rightarrow>
        (case HasIdentities (iqFaults rq) (iuID i) st of
           Inl e \<Rightarrow> Some e
         | Inr linked \<Rightarrow>
             if \<not> linked then None
             else (case isAdministratorAccount (iqAccFaults rq) (iuCallerID i) st of
                 Inl e \<Rightarrow> Some (IAccount e)
               | Inr asked \<Rightarrow> if asked then None else Some (IAdministratorOnly field))))"

text \<open>
  \<open>UpdateByID\<close> up to its write: what it reads, what it refuses, and the input
  it hands to the statement, with the secret sealed.
\<close>

definition reads_current :: "UpdateIDPInput \<Rightarrow> bool" where
  "reads_current i = (iuIDPTypeID i \<noteq> None \<or> iuIssuerURL i \<noteq> None \<or> iuEnabled i = Some False \<or> iuClientID i \<noteq> None
     \<or> iuCallbackURL i \<noteq> None)"

definition kind_check :: "idp_ports \<Rightarrow> idp_request \<Rightarrow> UpdateIDPInput \<Rightarrow> IDP \<Rightarrow> idp_error option" where
  "kind_check io rq i current =
     (if iuIDPTypeID i \<noteq> None \<or> iuIssuerURL i \<noteq> None
      then requireIssuerForKind io (iqFaults rq) (keep_or (iuIDPTypeID i) (itID (ipType current))) (keep_or (iuIssuerURL i) (ipIssuerURL current))
      else None)"

definition disable_check :: "idp_request \<Rightarrow> UpdateIDPInput \<Rightarrow> IDP \<Rightarrow> accounts_state \<Rightarrow> idp_error option" where
  "disable_check rq i current st =
     (if iuEnabled i = Some False \<and> ipEnabled current then keepsAnAdministrator (iqAccFaults rq) (iuID i) ''disabled'' st else None)"

definition seal_secret :: "idp_ports \<Rightarrow> UpdateIDPInput \<Rightarrow> idp_error + UpdateIDPInput" where
  "seal_secret io i =
     (case iuClientSecret i of
        None \<Rightarrow> Inr i
      | Some s \<Rightarrow> if s = [] then Inr i
          else (case ipEncrypt io s of None \<Rightarrow> Inl ICipher | Some c \<Rightarrow> Inr (i\<lparr>iuClientSecret := Some c\<rparr>)))"

definition update_checks :: "idp_ports \<Rightarrow> idp_request \<Rightarrow> UpdateIDPInput \<Rightarrow> accounts_state \<Rightarrow> idp_error + unit" where
  "update_checks io rq i st =
     (if \<not> reads_current i then Inr ()
      else and_then (repo_SelectIDPByID io (iqFaults rq) (iuID i) st) (\<lambda>current.
        and_then (fail_if (kind_check io rq i current)) (\<lambda>_.
        and_then (fail_if (disable_check rq i current st)) (\<lambda>_.
        fail_if (signInMayChange rq i current st)))))"

definition IDPs_UpdateByID_checked ::
  "idp_ports \<Rightarrow> idp_request \<Rightarrow> UpdateIDPInput option \<Rightarrow> accounts_state \<Rightarrow> idp_error + UpdateIDPInput" where
  "IDPs_UpdateByID_checked io rq input st =
     (case input of
        None \<Rightarrow> Inl (IInvalidInput ''input is nil'')
      | Some i \<Rightarrow>
        (case UpdateIDPInput_Validate io i of
           Some e \<Rightarrow> Inl (IValidation e)
         | None \<Rightarrow> and_then (update_checks io rq i st) (\<lambda>_. seal_secret io i)))"

definition IDPs_UpdateByID ::
  "idp_ports \<Rightarrow> idp_request \<Rightarrow> UpdateIDPInput option \<Rightarrow> accounts_state \<Rightarrow> idp_error option \<times> accounts_state" where
  "IDPs_UpdateByID io rq input st =
     (case IDPs_UpdateByID_checked io rq input st of
        Inl e \<Rightarrow> (Some e, st)
      | Inr i \<Rightarrow> repo_UpdateIDP io (iqFaults rq) i st)"

definition IDPs_DeleteByID :: "idp_ports \<Rightarrow> idp_request \<Rightarrow> uuid \<Rightarrow> service_state \<Rightarrow> idp_error option \<times> service_state" where
  "IDPs_DeleteByID io rq idp s =
     (if idp = uuid_nil then (Some (IInvalidInput ''input is nil''), s)
      else case keepsAnAdministrator (iqAccFaults rq) idp ''deleted'' (fst s) of
        Some e \<Rightarrow> (Some e, s)
      | None \<Rightarrow>
        (case repo_DeleteIDP (iqFaults rq) idp (fst s) of
           (Some e, st) \<Rightarrow> (Some e, st, snd s)
         | (None, st) \<Rightarrow>
           (case DecrementUsage (ipKey io) (iqRelease rq) system_scope ''idps'' (with_idps st (snd s)) of
              (Some e, db) \<Rightarrow> (Some (ILimits e), st, db)
            | (None, db) \<Rightarrow> (None, st, db))))"

text \<open>
  \<open>GetAvailableIDPs\<close>: the first hundred providers by name, as the table or the
  cache lists them, without the disabled ones.
\<close>

record IDPAvailable =
  avName :: string
  avDescription :: string
  avLogo :: string
  avTypeID :: uuid
  avTypeName :: string
  avID :: uuid
  avAutoProvision :: bool

definition available_of :: "IDP \<Rightarrow> IDPAvailable" where
  "available_of idp = \<lparr>avName = ipName idp, avDescription = ipDescription idp, avLogo = ipLogo idp,
     avTypeID = itID (ipType idp), avTypeName = itName (ipType idp), avID = ipID idp, avAutoProvision = ipAutoProvision idp\<rparr>"

definition first_by_name :: "(string \<Rightarrow> string \<Rightarrow> bool) \<Rightarrow> idp_ports \<Rightarrow> accounts_state \<Rightarrow> IDP list" where
  "first_by_name before io st =
     take 100 (foldr (\<lambda>x xs. takeWhile (\<lambda>y. before (ipName y) (ipName x)) xs @ x # dropWhile (\<lambda>y. before (ipName y) (ipName x)) xs)
       (map (\<lambda>(idp, p). idp_of_row io idp p) (acIdps st)) [])"

definition GetAvailableIDPs ::
  "(string \<Rightarrow> string \<Rightarrow> bool) \<Rightarrow> idp_ports \<Rightarrow> bool \<Rightarrow> IDP list option \<Rightarrow> accounts_state \<Rightarrow> idp_error + IDPAvailable list" where
  "GetAvailableIDPs before io fails cache st =
     and_then (case cache of Some held \<Rightarrow> Inr held | None \<Rightarrow> if fails then Inl IQueryFailed else Inr (first_by_name before io st))
       (\<lambda>items. Inr (map available_of (filter ipEnabled items)))"

end
