(* ===== verification/ExternalSignIn.thy ===== *)
theory ExternalSignIn
  imports Authn Providers
begin

text \<open>
  Sign-in through an identity provider (\<open>internal/core/usecase/authn_idp.go\<close>):
  the three events, the signed state a flow carries and its one use, the
  resolution of an identity to an account, the provisioning of a new account,
  the link of an identity to the account that started it, and the unlink.  The
  session is issued by \<open>LoginUserByID\<close> and the account is created by
  \<open>RegisterUser\<close> of \<open>Authn\<close>.  The provider is a pair of functions, which
  \<open>OAuthClient\<close> provides; JSON and the cipher are functions too.
\<close>

section \<open>Data\<close>

definition IDPEventTypeLogin :: string where "IDPEventTypeLogin = ''login''"
definition IDPEventTypeRegister :: string where "IDPEventTypeRegister = ''register''"
definition IDPEventTypeLink :: string where "IDPEventTypeLink = ''link''"
definition LoginMethodOAuth :: string where "LoginMethodOAuth = ''oauth''"
definition RegisterMethodOAuth :: string where "RegisterMethodOAuth = ''oauth''"

definition idpLoginDuration :: duration where "idpLoginDuration = 15 * minute"
definition idpRegistrationDuration :: duration where "idpRegistrationDuration = 25 * minute"
definition idpLinkDuration :: duration where "idpLinkDuration = 15 * minute"

lemmas event_defs = IDPEventTypeLogin_def IDPEventTypeRegister_def IDPEventTypeLink_def

record UserInfo =
  uinSubject :: string
  uinEmail :: string
  uinFirstName :: string
  uinLastName :: string
  uinEmailVerified :: bool

record AuthRequest =
  arState :: string
  arNonce :: string
  arCodeVerifier :: string

record stateData =
  sdVerifier :: string
  sdNonce :: string
  sdUserID :: uuid

record IDPCallbackOutput =
  cbLogin :: "LoginUserOutput option"
  cbEventType :: string
  cbLinked :: uuid

text \<open>The provider's failures are the adapter's: refused (401), unreachable or unusable (503), or the caller went away.\<close>

datatype signin_error =
    GInvalidIdentityProviders string
  | GInvalidJWT string
  | GInvalidIssuer
  | GNotEnabled
  | GNotLinked string
  | GValidation ValidationError
  | GRefused string string
  | GUnreachable string
  | GUnusable string string
  | GCancelled
  | GIdp idp_error
  | GAccount account_error
  | GAuthn authn_error
  | GSigner signer_error
  | GStore store_error
  | GCipher

record 'l signin_ports =
  sgAuthn :: "'l authn_ports"
  sgIdp :: idp_ports
  sgMarshal :: "stateData \<Rightarrow> string"
  sgUnmarshal :: "string \<Rightarrow> stateData option"
  sgCodeURL :: "IDP \<Rightarrow> AuthRequest \<Rightarrow> signin_error + string"
  sgExchange :: "IDP \<Rightarrow> string \<Rightarrow> AuthRequest \<Rightarrow> signin_error + UserInfo"

text \<open>A call: what the calls of \<open>Authn\<close> and \<open>Providers\<close> in it are given, the random bytes and the ids it draws.\<close>

record signin_request =
  sqAuthn :: authn_request
  sqIdp :: idp_request
  sqNonce :: string
  sqVerifier :: string
  sqJTI :: uuid
  sqUserID :: uuid
  sqPassword :: uuid

record AuthnIDPsServiceConf =
  scAuthn :: AuthnServiceConf
  scIssuer :: string

definition NewAuthnIDPsService :: "AuthnIDPsServiceConf \<Rightarrow> signin_error + AuthnIDPsServiceConf" where
  "NewAuthnIDPsService conf = (if length (scIssuer conf) \<le> 2 \<or> length (scIssuer conf) > 100 then Inl GInvalidIssuer else Inr conf)"

section \<open>The state of a flow\<close>

text \<open>\<open>seal\<close>, \<open>unseal\<close> and \<open>randomToken\<close>.\<close>

definition seal_state :: "'l signin_ports \<Rightarrow> stateData \<Rightarrow> signin_error + string" where
  "seal_state px d = (case ipEncrypt (sgIdp px) (sgMarshal px d) of None \<Rightarrow> Inl GCipher | Some s \<Rightarrow> Inr s)"

definition unseal_state :: "'l signin_ports \<Rightarrow> string \<Rightarrow> stateData option" where
  "unseal_state px sealed = (if sealed = [] then None else Option.bind (ipDecrypt (sgIdp px) sealed) (sgUnmarshal px))"

definition randomToken :: "string \<Rightarrow> string" where
  "randomToken bytes = b64_raw_url bytes"

definition event_token :: "string \<Rightarrow> uuid \<Rightarrow> signin_error + (TokenType \<times> duration)" where
  "event_token event uid =
     (if event = IDPEventTypeLogin then Inr (TokenTypeIDPSignin, idpLoginDuration)
      else if event = IDPEventTypeRegister then Inr (TokenTypeIDPRegister, idpRegistrationDuration)
      else if event = IDPEventTypeLink then
        (if uid = uuid_nil then Inl (GInvalidIdentityProviders ''a link needs the signed-in account'')
         else Inr (TokenTypeIDPLink, idpLinkDuration))
      else Inl (GInvalidIdentityProviders (''invalid event type: '' @ event)))"

definition state_claims :: "AuthnIDPsServiceConf \<Rightarrow> uuid \<Rightarrow> string \<Rightarrow> TokenType \<Rightarrow> duration \<Rightarrow> string \<Rightarrow> JWTClaims" where
  "state_claims cf idp event tt d sealed = \<lparr>jcIDP = uuid_string idp, jcEmail = [], jcData = sealed, jcSubject = event,
     jcTokenType = tt, jcIssuer = scIssuer cf, jcTokenDuration = d, jcTokenID = uuid_nil\<rparr>"

text \<open>The provider a flow may use.\<close>

definition usable_provider :: "'l signin_ports \<Rightarrow> signin_request \<Rightarrow> uuid \<Rightarrow> accounts_state \<Rightarrow> signin_error + IDP" where
  "usable_provider px rq idp st =
     and_then (lift_err GIdp (IDPs_GetByID (sgIdp px) (sqIdp rq) idp st)) (\<lambda>p. if ipEnabled p then Inr p else Inl GNotEnabled)"

definition GetLoginURL ::
  "'l signin_ports \<Rightarrow> AuthnIDPsServiceConf \<Rightarrow> signin_request \<Rightarrow> uuid \<Rightarrow> string \<Rightarrow> uuid \<Rightarrow> 'l authn_state \<Rightarrow> signin_error + string" where
  "GetLoginURL px cf rq idpID event uid st =
     (if idpID = uuid_nil then Inl (GInvalidIdentityProviders ''idpID is empty'')
      else and_then (event_token event uid) (\<lambda>(tt, d).
        and_then (usable_provider px rq idpID (anAccounts st)) (\<lambda>idp.
        and_then (seal_state px \<lparr>sdVerifier = randomToken (sqVerifier rq), sdNonce = randomToken (sqNonce rq), sdUserID = uid\<rparr>) (\<lambda>sealed.
        and_then (lift_err GSigner (apSign (sgAuthn px) (rqNow (sqAuthn rq)) (sqJTI rq) (state_claims cf idpID event tt d sealed))) (\<lambda>state.
        sgCodeURL px idp \<lparr>arState = state, arNonce = randomToken (sqNonce rq), arCodeVerifier = randomToken (sqVerifier rq)\<rparr>)))))"

definition event_of_token :: "TokenType \<Rightarrow> string option" where
  "event_of_token tt =
     (if tt = TokenTypeIDPSignin then Some IDPEventTypeLogin
      else if tt = TokenTypeIDPRegister then Some IDPEventTypeRegister
      else if tt = TokenTypeIDPLink then Some IDPEventTypeLink else None)"

abbreviation bad_state :: "signin_error" where "bad_state \<equiv> GInvalidJWT ''the state is not valid''"

text \<open>What the state says: its event, its jti, its expiry and its sealed data, for the provider the callback arrived at.\<close>

definition read_state :: "signin_request \<Rightarrow> claims \<Rightarrow> uuid \<Rightarrow> signin_error + (TokenType \<times> string \<times> uuid \<times> instant)" where
  "read_state rq c idpID =
     (case event_of_token (claimString c ''token_type'') of
        None \<Rightarrow> Inl bad_state
      | Some event \<Rightarrow>
          if claimString c ''sub'' \<noteq> event \<or> claimString c ''idp'' \<noteq> uuid_string idpID then Inl bad_state
          else (case uuid_parse (claimString c ''jti'') of
              None \<Rightarrow> Inl bad_state
            | Some jti \<Rightarrow> Inr (claimString c ''token_type'', event, jti,
                (case claimExpiry c of Some e \<Rightarrow> e | None \<Rightarrow> rqNow (sqAuthn rq) + idpRegistrationDuration))))"

definition open_state :: "'l signin_ports \<Rightarrow> claims \<Rightarrow> signin_error + stateData" where
  "open_state px c =
     (case unseal_state px (claimString c ''data'') of
        None \<Rightarrow> Inl bad_state
      | Some d \<Rightarrow> if sdVerifier d = [] \<or> sdNonce d = [] then Inl bad_state else Inr d)"

definition spendState ::
  "'l signin_ports \<Rightarrow> signin_request \<Rightarrow> string \<Rightarrow> uuid \<Rightarrow> 'l authn_state \<Rightarrow> (signin_error + (stateData \<times> string)) \<times> 'l authn_state" where
  "spendState px rq state idpID st =
     (case apVerify (sgAuthn px) (rqNow (sqAuthn rq)) state of
        Inl e \<Rightarrow> fail_with (GSigner e) st
      | Inr c \<Rightarrow>
        (case read_state rq c idpID of
           Inl e \<Rightarrow> fail_with e st
         | Inr (tt, event, jti, expiresAt) \<Rightarrow>
           (case dl_Consume (rqStore (sqAuthn rq) CConsume) (rqDBNow (sqAuthn rq)) jti uuid_nil tt expiresAt (anDenylist st) of
              (Inl e, d) \<Rightarrow> fail_with (GStore e) (st\<lparr>anDenylist := d\<rparr>)
            | (Inr firstUse, d) \<Rightarrow>
                if \<not> firstUse then fail_with bad_state (st\<lparr>anDenylist := d\<rparr>)
                else (map_sum (\<lambda>e. e) (\<lambda>x. (x, event)) (open_state px c), st\<lparr>anDenylist := d\<rparr>))))"

section \<open>Resolving an identity\<close>

definition lift_step :: "('d \<Rightarrow> 'e) \<Rightarrow> ('d + 'a) \<times> 's \<Rightarrow> ('e + 'a) \<times> 's" where
  "lift_step f r = (lift_err f (fst r), snd r)"

text \<open>The session of a resolved account.\<close>

definition sign_in_as ::
  "'l signin_ports \<Rightarrow> AuthnIDPsServiceConf \<Rightarrow> signin_request \<Rightarrow> string \<Rightarrow> uuid \<Rightarrow> 'l authn_state
    \<Rightarrow> (signin_error + IDPCallbackOutput) \<times> 'l authn_state" where
  "sign_in_as px cf rq event uid st =
     then_do (lift_step GAuthn (LoginUserByID (sgAuthn px) (scAuthn cf) (sqAuthn rq) uid LoginMethodOAuth st))
       (\<lambda>login st. done_with \<lparr>cbLogin = Some login, cbEventType = event, cbLinked = uuid_nil\<rparr> st)"

text \<open>Whether an unknown identity may have an account made for it, and the address it gets.\<close>

definition may_provision :: "'l signin_ports \<Rightarrow> signin_request \<Rightarrow> IDP \<Rightarrow> UserInfo \<Rightarrow> accounts_state \<Rightarrow> signin_error + string" where
  "may_provision px rq idp info st =
     (if \<not> ipAutoProvision idp then Inl (GNotLinked ''auto-provisioning is off'')
      else if \<not> uinEmailVerified info then Inl (GNotLinked ''the provider does not vouch for the email'')
      else case ValidateEmail (apText (sgAuthn px)) (uinEmail info) ''email'' of
        Inl e \<Rightarrow> Inl (GValidation e)
      | Inr email \<Rightarrow>
        (case GetByEmail (apText (sgAuthn px)) (rqCache (sqAuthn rq)) (rqFaults (sqAuthn rq)) email st of
           Inr existing \<Rightarrow> Inl (GNotLinked (''an account with the provider's email exists and is not linked to this identity: user_id ''
             @ uuid_string (usrID existing)))
         | Inl (UNotFound _) \<Rightarrow> Inr email
         | Inl e \<Rightarrow> Inl (GAccount e)))"

definition provisioned :: "signin_request \<Rightarrow> IDP \<Rightarrow> UserInfo \<Rightarrow> string \<Rightarrow> RegisterUserInput" where
  "provisioned rq idp info email = \<lparr>rgDisabled = Some False,
     rgIdentity = Some \<lparr>idSubject = uinSubject info, idEmail = email, idIssuerURL = ipIssuerURL idp, idUserID = sqUserID rq,
       idIDPID = ipID idp, idIDPTypeID = itID (ipType idp)\<rparr>,
     rgFirstName = uinFirstName info, rgLastName = uinLastName info, rgEmail = email,
     rgPassword = uuid_string (sqPassword rq), rgMethod = RegisterMethodOAuth, rgID = sqUserID rq\<rparr>"

text \<open>An address that was free at the check and is taken at the create is refused in the same words.\<close>

definition taken_meanwhile :: "authn_error \<Rightarrow> signin_error" where
  "taken_meanwhile e =
     (case e of
        AAccount (UAlreadyExistsEmail email) \<Rightarrow>
          if email \<noteq> [] then GNotLinked ''an account with the provider's email was created while this one was being provisioned''
          else GAuthn e
      | _ \<Rightarrow> GAuthn e)"

definition provision ::
  "'l signin_ports \<Rightarrow> AuthnIDPsServiceConf \<Rightarrow> signin_request \<Rightarrow> IDP \<Rightarrow> UserInfo \<Rightarrow> string \<Rightarrow> 'l authn_state
    \<Rightarrow> (signin_error + IDPCallbackOutput) \<times> 'l authn_state" where
  "provision px cf rq idp info event st =
     (case may_provision px rq idp info (anAccounts st) of
        Inl e \<Rightarrow> fail_with e st
      | Inr email \<Rightarrow>
          then_do (lift_step taken_meanwhile (RegisterUser (sgAuthn px) (scAuthn cf) (sqAuthn rq) (Some (provisioned rq idp info email)) st))
            (\<lambda>_ st. sign_in_as px cf rq event (sqUserID rq) st))"

definition signIn ::
  "'l signin_ports \<Rightarrow> AuthnIDPsServiceConf \<Rightarrow> signin_request \<Rightarrow> IDP \<Rightarrow> UserInfo \<Rightarrow> string \<Rightarrow> 'l authn_state
    \<Rightarrow> (signin_error + IDPCallbackOutput) \<times> 'l authn_state" where
  "signIn px cf rq idp info event st =
     (case repo_SelectBySubject (sgIdp px) (iqFaults (sqIdp rq)) (ipID idp) (itID (ipType idp)) (ipIssuerURL idp) (uinSubject info)
         (anAccounts st) of
        Inr identity \<Rightarrow> sign_in_as px cf rq event (uiUserID identity) st
      | Inl (IIdentityNotFound _) \<Rightarrow> provision px cf rq idp info event st
      | Inl e \<Rightarrow> fail_with (GIdp e) st)"

definition with_accounts :: "accounts_state \<Rightarrow> 'l authn_state \<Rightarrow> 'l authn_state" where
  "with_accounts a st = st\<lparr>anService := (a, snd (anService st))\<rparr>"

definition link_input :: "IDP \<Rightarrow> UserInfo \<Rightarrow> uuid \<Rightarrow> LinkUserIdentityInput" where
  "link_input idp info uid = \<lparr>idSubject = uinSubject info, idEmail = uinEmail info, idIssuerURL = ipIssuerURL idp, idUserID = uid,
     idIDPID = ipID idp, idIDPTypeID = itID (ipType idp)\<rparr>"

definition link_identity ::
  "signin_request \<Rightarrow> IDP \<Rightarrow> UserInfo \<Rightarrow> uuid \<Rightarrow> 'l authn_state \<Rightarrow> (signin_error + IDPCallbackOutput) \<times> 'l authn_state" where
  "link_identity rq idp info uid st =
     (if uid = uuid_nil then fail_with (GInvalidJWT ''the link state names no account'') st
      else case GetByID (rqCache (sqAuthn rq)) (rqFaults (sqAuthn rq)) uid (anAccounts st) of
        Inl e \<Rightarrow> fail_with (GAccount e) st
      | Inr u \<Rightarrow>
          if usrDisabled u = Some True then fail_with (GNotLinked ''the account the link was started for is disabled'') st
          else (case repo_Link (iqFaults (sqIdp rq)) (link_input idp info uid) (anAccounts st) of
              (Some e, a) \<Rightarrow> fail_with (GIdp e) (with_accounts a st)
            | (None, a) \<Rightarrow> done_with \<lparr>cbLogin = None, cbEventType = IDPEventTypeLink, cbLinked = uid\<rparr> (with_accounts a st)))"

section \<open>The callback\<close>

definition finish_event ::
  "'l signin_ports \<Rightarrow> AuthnIDPsServiceConf \<Rightarrow> signin_request \<Rightarrow> IDP \<Rightarrow> UserInfo \<Rightarrow> stateData \<Rightarrow> string \<Rightarrow> 'l authn_state
    \<Rightarrow> (signin_error + IDPCallbackOutput) \<times> 'l authn_state" where
  "finish_event px cf rq idp info d event st =
     (if event = IDPEventTypeLink then link_identity rq idp info (sdUserID d) st else signIn px cf rq idp info event st)"

definition Callback ::
  "'l signin_ports \<Rightarrow> AuthnIDPsServiceConf \<Rightarrow> signin_request \<Rightarrow> uuid \<Rightarrow> string \<Rightarrow> string \<Rightarrow> 'l authn_state
    \<Rightarrow> (signin_error + IDPCallbackOutput) \<times> 'l authn_state" where
  "Callback px cf rq idpID state code st =
     (if idpID = uuid_nil \<or> state = [] \<or> code = [] then fail_with (GInvalidIdentityProviders ''idp, state and code are required'') st
      else then_do (spendState px rq state idpID st) (\<lambda>(d, event) st.
        case usable_provider px rq idpID (anAccounts st) of
          Inl e \<Rightarrow> fail_with e st
        | Inr idp \<Rightarrow>
          (case sgExchange px idp code \<lparr>arState = state, arNonce = sdNonce d, arCodeVerifier = sdVerifier d\<rparr> of
             Inl e \<Rightarrow> fail_with e st
           | Inr info \<Rightarrow> finish_event px cf rq idp info d event st)))"

definition AbandonCallback ::
  "'l signin_ports \<Rightarrow> signin_request \<Rightarrow> uuid \<Rightarrow> string \<Rightarrow> 'l authn_state \<Rightarrow> (signin_error + unit) \<times> 'l authn_state" where
  "AbandonCallback px rq idpID state st =
     (if idpID = uuid_nil \<or> state = [] then fail_with (GInvalidIdentityProviders ''idp and state are required'') st
      else then_do (spendState px rq state idpID st) (\<lambda>_ st. done_with () st))"

section \<open>The identities of an account\<close>

definition ListIdentities :: "'l signin_ports \<Rightarrow> signin_request \<Rightarrow> uuid \<Rightarrow> 'l authn_state \<Rightarrow> signin_error + UserIdentity list" where
  "ListIdentities px rq uid st = lift_err GIdp (repo_SelectByUserID (sgIdp px) (iqFaults (sqIdp rq)) uid (anAccounts st))"

definition keepsAWayIn :: "UserIdentity list \<Rightarrow> uuid \<Rightarrow> bool" where
  "keepsAWayIn identities unlinked = list_ex (\<lambda>i. uiIDPID i \<noteq> unlinked \<and> uiIDPEnabled i) identities"

definition unlink_check :: "'l signin_ports \<Rightarrow> signin_request \<Rightarrow> uuid \<Rightarrow> uuid \<Rightarrow> accounts_state \<Rightarrow> signin_error option" where
  "unlink_check px rq uid idp st =
     (case GetByID (rqCache (sqAuthn rq)) (rqFaults (sqAuthn rq)) uid st of
        Inl e \<Rightarrow> Some (GAccount e)
      | Inr u \<Rightarrow>
          if usrLocalAccount u = Some True then None
          else (case repo_SelectByUserID (sgIdp px) (iqFaults (sqIdp rq)) uid st of
              Inl e \<Rightarrow> Some (GIdp e)
            | Inr items \<Rightarrow> if keepsAWayIn items idp then None else Some (GIdp (IIdentityAlreadyLinked UnlinkOnlyWayInMessage))))"

definition UnlinkIdentity ::
  "'l signin_ports \<Rightarrow> signin_request \<Rightarrow> uuid \<Rightarrow> uuid \<Rightarrow> 'l authn_state \<Rightarrow> (signin_error + unit) \<times> 'l authn_state" where
  "UnlinkIdentity px rq uid idp st =
     (case unlink_check px rq uid idp (anAccounts st) of
        Some e \<Rightarrow> fail_with e st
      | None \<Rightarrow>
        (case repo_Unlink (iqFaults (sqIdp rq)) \<lparr>ulUserID = uid, ulIDPID = idp\<rparr> (anAccounts st) of
           (Some e, a) \<Rightarrow> fail_with (GIdp e) (with_accounts a st)
         | (None, a) \<Rightarrow> done_with () (with_accounts a st)))"

end
