(* ===== verification/ExternalRuns.thy ===== *)
theory ExternalRuns
  imports ExternalSignIn AccountsRuns
begin

text \<open>
  What the accounts, the identities and the providers go through: an abstract
  relation of single changes of the three tables, which every operation of
  accounts, providers and sign-ins refines, and the invariants of its runs.
\<close>

section \<open>The changes\<close>

definition can_link :: "accounts_state \<Rightarrow> LinkUserIdentityInput \<Rightarrow> bool" where
  "can_link a i \<longleftrightarrow> provider_unchanged (idIDPID i) (idIDPTypeID i) (idIssuerURL i) a
     \<and> (\<forall>n \<in> set (acIdentities a). idnIDP n = idIDPID i \<longrightarrow> idnSubject n \<noteq> idSubject i \<and> idnUser n \<noteq> idUserID i)"

text \<open>The type and the issuer are what an identity was proven under.\<close>

definition same_source :: "idp_row \<Rightarrow> idp_row \<Rightarrow> bool" where
  "same_source p q \<longleftrightarrow> idpType p = idpType q \<and> idpIssuerURL p = idpIssuerURL q"

inductive table_step :: "accounts_state \<Rightarrow> accounts_state \<Rightarrow> bool" where
  unchanged: "table_step a a"
| write_user: "user_row_of k a \<noteq> None \<Longrightarrow> table_step a (set_row k r a)"
| add_user: "user_row_of k a = None \<Longrightarrow> table_step a ((set_row k r a)\<lparr>acUsersRoles := rs\<rparr>)"
| add_linked_user: "user_row_of (idUserID i) a = None \<Longrightarrow> can_link a i
    \<Longrightarrow> table_step a ((set_row (idUserID i) r a)\<lparr>acUsersRoles := rs, acIdentities := identity_of_input i # acIdentities a\<rparr>)"
| remove_user: "table_step a (a\<lparr>acUsers := filter (\<lambda>(k, _). k \<noteq> u) (acUsers a),
      acIdentities := filter (\<lambda>n. idnUser n \<noteq> u) (acIdentities a), acUsersRoles := filter (\<lambda>(k, _). k \<noteq> u) (acUsersRoles a)\<rparr>)"
| link: "user_row_of (idUserID i) a \<noteq> None \<Longrightarrow> can_link a i
    \<Longrightarrow> table_step a (a\<lparr>acIdentities := identity_of_input i # acIdentities a\<rparr>)"
| unlink: "keeps_way_in u p a
    \<Longrightarrow> table_step a (a\<lparr>acIdentities := filter (\<lambda>n. \<not> (idnUser n = u \<and> idnIDP n = p)) (acIdentities a)\<rparr>)"
| add_provider: "idp_row_of k a = None \<Longrightarrow> table_step a (a\<lparr>acIdps := AList.update k p (acIdps a)\<rparr>)"
| change_provider: "idp_row_of k a = Some p \<Longrightarrow> same_source p p' \<or> \<not> has_identities k a
    \<Longrightarrow> table_step a (a\<lparr>acIdps := AList.update k p' (acIdps a)\<rparr>)"
| remove_provider: "\<not> list_ex (only_way_in k a) (acIdentities a)
    \<Longrightarrow> table_step a (a\<lparr>acIdps := filter (\<lambda>(j, _). j \<noteq> k) (acIdps a), acIdentities := filter (\<lambda>n. idnIDP n \<noteq> k) (acIdentities a)\<rparr>)"

text \<open>Those of a sign-in: an account is added, or an identity, and nothing else is written.\<close>

inductive signing_step :: "accounts_state \<Rightarrow> accounts_state \<Rightarrow> bool" where
  stays: "signing_step a a"
| adds_user: "user_row_of k a = None \<Longrightarrow> rowDisabledByAdmin r \<longrightarrow> rowDisabled r
    \<Longrightarrow> signing_step a ((set_row k r a)\<lparr>acUsersRoles := rs\<rparr>)"
| adds_linked_user: "user_row_of (idUserID i) a = None \<Longrightarrow> can_link a i \<Longrightarrow> rowDisabledByAdmin r \<longrightarrow> rowDisabled r
    \<Longrightarrow> signing_step a ((set_row (idUserID i) r a)\<lparr>acUsersRoles := rs, acIdentities := identity_of_input i # acIdentities a\<rparr>)"
| links: "user_row_of (idUserID i) a \<noteq> None \<Longrightarrow> can_link a i
    \<Longrightarrow> signing_step a (a\<lparr>acIdentities := identity_of_input i # acIdentities a\<rparr>)"

lemma signing_step_table: "signing_step a a' \<Longrightarrow> table_step a a'"
  by (induction rule: signing_step.induct) (auto intro: unchanged add_user add_linked_user link)

section \<open>Every statement is one of the changes\<close>

lemma identity_fresh:
  "can_link a i \<longleftrightarrow> provider_unchanged (idIDPID i) (idIDPTypeID i) (idIssuerURL i) a
     \<and> \<not> list_ex (\<lambda>n. idnIDP n = idIDPID i \<and> idnSubject n = idSubject i) (acIdentities a)
     \<and> \<not> list_ex (\<lambda>n. idnUser n = idUserID i \<and> idnIDP n = idIDPID i) (acIdentities a)"
  by (auto simp: can_link_def list_ex_iff)

lemma repo_Link_cases:
  "repo_Link faults i a = (err, a') \<Longrightarrow>
     (err \<noteq> None \<and> a' = a) \<or>
     (err = None \<and> LinkUserIdentityInput_Validate i = None \<and> can_link a i \<and> user_row_of (idUserID i) a \<noteq> None
        \<and> a' = a\<lparr>acIdentities := identity_of_input i # acIdentities a\<rparr>)"
  by (auto simp: repo_Link_def identity_fresh split: option.splits if_splits)

lemma repo_Unlink_cases:
  "repo_Unlink faults i a = (err, a') \<Longrightarrow>
     (err \<noteq> None \<and> a' = a) \<or>
     (err = None \<and> has_identity_at (ulUserID i) (ulIDPID i) a \<and> keeps_way_in (ulUserID i) (ulIDPID i) a
        \<and> a' = a\<lparr>acIdentities := filter (\<lambda>n. \<not> (idnUser n = ulUserID i \<and> idnIDP n = ulIDPID i)) (acIdentities a)\<rparr>)"
  by (auto simp: repo_Unlink_def split: option.splits if_splits)

lemma repo_InsertIDP_cases:
  "repo_InsertIDP io faults i a = (err, a') \<Longrightarrow>
     (err \<noteq> None \<and> a' = a) \<or>
     (err = None \<and> idp_row_of (iiID i) a = None \<and> a' = a\<lparr>acIdps := AList.update (iiID i) (provider_row i) (acIdps a)\<rparr>)"
  by (auto simp: repo_InsertIDP_def split: option.splits if_splits)

lemma repo_UpdateIDP_cases:
  assumes "repo_UpdateIDP io faults i a = (err, a')"
  shows "(err \<noteq> None \<and> a' = a) \<or>
     (\<exists>p. err = None \<and> idp_row_of (iuID i) a = Some p \<and> (same_provider i p \<or> \<not> has_identities (iuID i) a)
        \<and> a' = a\<lparr>acIdps := AList.update (iuID i) (updated_provider i p) (acIdps a)\<rparr>)"
proof (cases "UpdateIDPInput_Validate io i = None \<and> \<not> faults ILock")
  case True
  then show ?thesis using assms by (cases "idp_row_of (iuID i) a") (auto simp: repo_UpdateIDP_def Let_def split: if_splits)
qed (use assms in \<open>auto simp: repo_UpdateIDP_def split: option.splits\<close>)

lemma repo_DeleteIDP_cases:
  "repo_DeleteIDP faults k a = (err, a') \<Longrightarrow>
     (err \<noteq> None \<and> a' = a) \<or>
     (err = None \<and> idp_row_of k a \<noteq> None \<and> \<not> list_ex (only_way_in k a) (acIdentities a)
        \<and> a' = a\<lparr>acIdps := filter (\<lambda>(j, _). j \<noteq> k) (acIdps a), acIdentities := filter (\<lambda>n. idnIDP n \<noteq> k) (acIdentities a)\<rparr>)"
  by (auto simp: repo_DeleteIDP_def split: option.splits if_splits)

lemma same_provider_source: "same_provider i p \<Longrightarrow> same_source p (updated_provider i p)"
  by (auto simp: same_provider_def same_source_def updated_provider_def keep_or_def split: option.splits)

lemma refused_link_adds: "LinkUserIdentityInput_Validate n = Some e \<Longrightarrow> Add errs (Some e) \<noteq> []"
  by (auto simp: LinkUserIdentityInput_Validate_def Let_def errs_result_def HasErrors_def split: if_splits)

lemma InsertUserInput_Validate_identity:
  assumes "InsertUserInput_Validate env i = Inr j"
  shows "insID j = insID i \<and> insIdentity j = insIdentity i
    \<and> (\<forall>n. insIdentity i = Some n \<longrightarrow> LinkUserIdentityInput_Validate n = None \<and> idUserID n = insID i)"
  using assms
  by (auto simp: InsertUserInput_Validate_def Let_def HasErrors_def refused_link_adds split: prod.splits if_splits option.splits)

text \<open>
  The insert of an account: a row under a new id, and with a provisioned
  account its identity.
\<close>

lemma repo_Insert_step:
  assumes "repo_Insert env faults i a = (err, a')"
  shows "signing_step a a'"
proof (cases err)
  case (Some e)
  with repo_Insert_cases[OF assms] have "a' = a" by auto
  then show ?thesis by (simp add: stays)
next
  case None
  then obtain j where j: "InsertUserInput_Validate env i = Inr j" "user_row_of (insID j) a = None"
    using repo_Insert_cases[OF assms] by blast
  let ?ok = "\<lambda>r. rowDisabledByAdmin r \<longrightarrow> rowDisabled r"
  show ?thesis
  proof (cases "insIdentity j")
    case w: None
    have "\<exists>r rs. ?ok r \<and> a' = (set_row (insID j) r a)\<lparr>acUsersRoles := rs\<rparr>"
      using assms[unfolded repo_Insert_def j(1) sum.case Let_def w option.case] None
      by (intro exI[of _ "inserted_row j"]) (auto simp: inserted_row_def split: if_splits)
    with j(2) show ?thesis by (auto intro: adds_user)
  next
    case (Some n)
    then have n: "idUserID n = insID j" using InsertUserInput_Validate_identity[OF j(1)] by auto
    note u = assms[unfolded repo_Insert_def j(1) sum.case Let_def Some option.case None]
    obtain p where p: "map_of (acIdps a) (idIDPID n) = Some p" using u by (auto simp: set_row_def split: if_splits option.splits)
    have "can_link a n" "\<exists>r rs. ?ok r \<and> a' = (set_row (idUserID n) r a)\<lparr>acUsersRoles := rs, acIdentities := identity_of_input n # acIdentities a\<rparr>"
      using u p n by (auto simp: identity_fresh provider_unchanged_def idp_row_of_def identity_of_input_def set_row_def list_ex_iff
          inserted_row_def split: if_splits intro!: exI[of _ "inserted_row j"])
    with j(2) n show ?thesis using adds_linked_user[of n a] by auto
  qed
qed

section \<open>Every call is one of the changes\<close>

lemma Create_step:
  assumes "Create env bcrypt key fresh faults rf lf input s = (err, s')"
  shows "signing_step (fst s) (fst s')"
proof (cases input)
  case (Some i)
  with assms obtain st' db' where "Create env bcrypt key fresh faults rf lf (Some i) (fst s, snd s) = (err, st', db')" "s' = (st', db')"
    by (metis prod.collapse)
  from Create_accounts[OF this(1)] this(2) repo_Insert_step show ?thesis by (auto intro: stays)
qed (use assms in \<open>simp add: Create_def stays\<close>)

lemma LoginUserByID_state [simp]: "snd (LoginUserByID ap cf rq uid m st) = st"
  by (auto simp: LoginUserByID_def split: sum.splits)

lemma RegisterUser_step: "signing_step (anAccounts st) (anAccounts (snd (RegisterUser ap cf rq input st)))"
proof (cases input)
  case None then show ?thesis by (simp add: RegisterUser_def stays)
next
  case (Some i0)
  show ?thesis
  proof (cases "RegisterUserInput_Validate (apText ap) (i0\<lparr>rgID := EnsureUUIDV7 (rqFresh rq 0) (rgID i0)\<rparr>)")
    case (Inl e) with Some show ?thesis by (simp add: RegisterUser_def stays)
  next
    case (Inr i)
    obtain err sv where c: "Create (apText ap) (apBcrypt ap) (apKey ap) (rqFresh rq 1) (rqFaults rq) (rqReserve rq) (rqRelease rq)
        (Some (new_user i)) (anService st) = (err, sv)" by (rule prod.exhaust)
    have "anService (snd (RegisterUser ap cf rq input st)) = sv"
      using Some Inr c
      by (auto simp: RegisterUser_def Let_def registrationTaken_def send_mail_def split: option.splits account_error.splits sum.splits)
    with Create_step[OF c] show ?thesis by simp
  qed
qed

lemma sign_in_as_state [simp]: "snd (sign_in_as px cf rq event uid st) = st"
  by (simp add: sign_in_as_def lift_step_def then_do_cases split: sum.split)

lemma provision_step: "signing_step (anAccounts st) (anAccounts (snd (provision px cf rq idp info event st)))"
proof (cases "may_provision px rq idp info (anAccounts st)")
  case (Inr email)
  have "snd (provision px cf rq idp info event st)
      = snd (RegisterUser (sgAuthn px) (scAuthn cf) (sqAuthn rq) (Some (provisioned rq idp info email)) st)"
    by (simp add: provision_def Inr then_do_cases lift_step_def split: sum.split)
  then show ?thesis using RegisterUser_step by simp
qed (simp add: provision_def stays)

lemma signIn_step: "signing_step (anAccounts st) (anAccounts (snd (signIn px cf rq idp info event st)))"
  by (auto simp: signIn_def stays provision_step split: sum.split idp_error.split)

lemma with_accounts_simps [simp]: "anAccounts (with_accounts a st) = a" "anDenylist (with_accounts a st) = anDenylist st"
  "snd (anService (with_accounts a st)) = snd (anService st)"
  by (simp_all add: with_accounts_def)

lemma repo_Link_step: "repo_Link faults i a = (err, a') \<Longrightarrow> signing_step a a'"
  using repo_Link_cases by (fastforce intro: stays links)

lemma link_identity_step: "signing_step (anAccounts st) (anAccounts (snd (link_identity rq idp info uid st)))"
  by (auto simp: link_identity_def intro: stays repo_Link_step split: sum.split prod.split option.split)

lemma spendState_service [simp]: "anService (snd (spendState px rq state idpID st)) = anService st"
  by (auto simp: spendState_def split: sum.split prod.split)

lemma Callback_step: "signing_step (anAccounts st) (anAccounts (snd (Callback px cf rq idpID state code st)))"
proof -
  have f: "signing_step (anAccounts s) (anAccounts (snd (finish_event px cf rq idp info d event s)))" for idp info d event s
    by (simp add: finish_event_def link_identity_step signIn_step)
  have "signing_step (anAccounts st) (anAccounts (snd (then_do r (\<lambda>(d, event) st.
        case usable_provider px rq idpID (anAccounts st) of
          Inl e \<Rightarrow> fail_with e st
        | Inr idp \<Rightarrow>
          (case sgExchange px idp code \<lparr>arState = state, arNonce = sdNonce d, arCodeVerifier = sdVerifier d\<rparr> of
             Inl e \<Rightarrow> fail_with e st
           | Inr info \<Rightarrow> finish_event px cf rq idp info d event st)))))"
    if "anService (snd r) = anService st" for r
    using that f[of "snd r"] by (auto simp: then_do_cases stays split: sum.split prod.split)
  then show ?thesis by (simp add: Callback_def stays)
qed

lemma then_done_state [simp]: "snd (then_do r (\<lambda>_. done_with x)) = snd r"
  by (simp add: then_do_cases split: sum.split)

lemma AbandonCallback_service [simp]: "anService (snd (AbandonCallback px rq idpID state st)) = anService st"
  by (simp add: AbandonCallback_def)

lemma UnlinkIdentity_step: "table_step (anAccounts st) (anAccounts (snd (UnlinkIdentity px rq uid idp st)))"
proof (cases "unlink_check px rq uid idp (anAccounts st)")
  case None
  obtain err a where u: "repo_Unlink (iqFaults (sqIdp rq)) \<lparr>ulUserID = uid, ulIDPID = idp\<rparr> (anAccounts st) = (err, a)" by (rule prod.exhaust)
  from repo_Unlink_cases[OF u] have "table_step (anAccounts st) a"
    using unlink[of uid idp "anAccounts st"] by (auto intro: unchanged)
  with None u show ?thesis by (simp add: UnlinkIdentity_def split: option.split)
qed (simp add: UnlinkIdentity_def unchanged)

text \<open>The account operations.\<close>

lemma write_row: "user_row_of k a = Some q \<Longrightarrow> table_step a (set_row k r a)"
  by (rule write_user) simp

lemma UpdateByID_step: "table_step a (snd (UpdateByID env bcrypt faults (Some i) a))"
proof (cases "UpdateByID_checked env bcrypt faults (Some i) a")
  case (Inr j)
  obtain err a' where u: "repo_UpdateByID env faults j a = (err, a')" by (rule prod.exhaust)
  with repo_UpdateByID_cases[OF u] Inr show ?thesis by (auto simp: UpdateByID_def intro: unchanged write_row)
qed (simp add: UpdateByID_def unchanged)

lemma svc_step_step: "table_step (fst s) (fst (svc_step env bcrypt key op s))"
proof (cases op)
  case (ACreate fresh faults rf lf i)
  then show ?thesis using signing_step_table[OF Create_step[OF prod.collapse[symmetric]]] by simp
next
  case (AUpdate faults i) then show ?thesis by (simp add: UpdateByID_step)
next
  case (AVerify faults uid address)
  then show ?thesis using repo_Verify_cases[of faults uid address "fst s"] by (auto simp: Verify_accounts intro: unchanged write_row)
next
  case (AReset faults uid address hash)
  then show ?thesis using repo_ResetPassword_cases[of faults uid address hash "fst s"]
    by (auto simp: ResetPassword_account_def intro: unchanged write_row)
next
  case (ADelete faults lf i)
  obtain u c where i: "i = \<lparr>delID = u, delCallerID = c\<rparr>" by (cases i) auto
  obtain err st' db' where d: "DeleteByID key faults lf i (fst s, snd s) = (err, st', db')" by (metis prod_cases3)
  from delete_account_cases[OF d[symmetric, unfolded i]] remove_user[of "fst s" u] d ADelete show ?thesis by (auto intro: unchanged)
qed

text \<open>The provider operations.\<close>

lemma IDPs_Create_accounts:
  assumes "IDPs_Create io rq input s = (err, s')"
  shows "fst s' = fst s \<or> (\<exists>i. repo_InsertIDP io (iqFaults rq) i (fst s) = (None, fst s'))"
  using assms repo_InsertIDP_cases
  by (fastforce simp: IDPs_Create_def Let_def split: option.splits prod.splits)

lemma IDPs_Create_step: "table_step (fst s) (fst (snd (IDPs_Create io rq input s)))"
  using IDPs_Create_accounts[OF prod.collapse[symmetric], of io rq input s] repo_InsertIDP_cases
  by (fastforce intro: unchanged add_provider)

lemma repo_UpdateIDP_step: "repo_UpdateIDP io faults i a = (err, a') \<Longrightarrow> table_step a a'"
  using repo_UpdateIDP_cases same_provider_source by (fastforce intro: unchanged change_provider)

lemma IDPs_UpdateByID_step: "table_step a (snd (IDPs_UpdateByID io rq input a))"
  using repo_UpdateIDP_step[OF prod.collapse[symmetric]] by (auto simp: IDPs_UpdateByID_def unchanged split: sum.split)

lemma IDPs_DeleteByID_accounts:
  "fst (snd (IDPs_DeleteByID io rq k s)) =
     (if k = uuid_nil \<or> keepsAnAdministrator (iqAccFaults rq) k ''deleted'' (fst s) \<noteq> None then fst s
      else snd (repo_DeleteIDP (iqFaults rq) k (fst s)))"
  by (auto simp: IDPs_DeleteByID_def split: option.split prod.split)

lemma repo_DeleteIDP_step: "table_step a (snd (repo_DeleteIDP faults k a))"
  using repo_DeleteIDP_cases[OF prod.collapse[symmetric], of faults k a] by (auto intro: unchanged remove_provider)

lemma IDPs_DeleteByID_step: "table_step (fst s) (fst (snd (IDPs_DeleteByID io rq k s)))"
  by (simp add: IDPs_DeleteByID_accounts unchanged repo_DeleteIDP_step)

section \<open>The operations together\<close>

datatype ext_op =
    XAccount svc_op
  | XCreateIDP idp_request InsertIDPInput
  | XUpdateIDP idp_request UpdateIDPInput
  | XDeleteIDP idp_request uuid
  | XCallback signin_request uuid string string
  | XAbandon signin_request uuid string
  | XUnlink signin_request uuid uuid

definition with_service :: "service_state \<Rightarrow> 'l authn_state \<Rightarrow> 'l authn_state" where
  "with_service sv st = st\<lparr>anService := sv\<rparr>"

lemma with_service_simps [simp]: "anService (with_service sv st) = sv" "anDenylist (with_service sv st) = anDenylist st"
  by (simp_all add: with_service_def)

fun ext_step :: "'l signin_ports \<Rightarrow> AuthnIDPsServiceConf \<Rightarrow> ext_op \<Rightarrow> 'l authn_state \<Rightarrow> 'l authn_state" where
  "ext_step px cf (XAccount op) st =
     with_service (svc_step (apText (sgAuthn px)) (apBcrypt (sgAuthn px)) (apKey (sgAuthn px)) op (anService st)) st"
| "ext_step px cf (XCreateIDP rq i) st = with_service (snd (IDPs_Create (sgIdp px) rq (Some i) (anService st))) st"
| "ext_step px cf (XUpdateIDP rq i) st = with_accounts (snd (IDPs_UpdateByID (sgIdp px) rq (Some i) (anAccounts st))) st"
| "ext_step px cf (XDeleteIDP rq k) st = with_service (snd (IDPs_DeleteByID (sgIdp px) rq k (anService st))) st"
| "ext_step px cf (XCallback rq k state code) st = snd (Callback px cf rq k state code st)"
| "ext_step px cf (XAbandon rq k state) st = snd (AbandonCallback px rq k state st)"
| "ext_step px cf (XUnlink rq uid k) st = snd (UnlinkIdentity px rq uid k st)"

definition ext_run :: "'l signin_ports \<Rightarrow> AuthnIDPsServiceConf \<Rightarrow> ext_op list \<Rightarrow> 'l authn_state \<Rightarrow> 'l authn_state" where
  "ext_run px cf ops st = fold (ext_step px cf) ops st"

lemma ext_run_simps [simp]: "ext_run px cf [] st = st" "ext_run px cf (op # ops) st = ext_run px cf ops (ext_step px cf op st)"
  by (simp_all add: ext_run_def)

text \<open>The calls refine the changes.\<close>

lemma ext_step_refines: "table_step (anAccounts st) (anAccounts (ext_step px cf op st))"
  by (cases op) (simp_all add: svc_step_step IDPs_Create_step IDPs_UpdateByID_step IDPs_DeleteByID_step
      signing_step_table[OF Callback_step]
      UnlinkIdentity_step unchanged)

lemma ext_run_refines: "table_step\<^sup>*\<^sup>* (anAccounts st) (anAccounts (ext_run px cf ops st))"
  by (induction ops arbitrary: st) (auto intro: converse_rtranclp_into_rtranclp[where r = table_step] ext_step_refines)

lemma ext_run_invariant:
  assumes "P st" "\<And>op st. P st \<Longrightarrow> P (ext_step px cf op st)"
  shows "P (ext_run px cf ops st)"
  using assms(1) by (induction ops arbitrary: st) (auto simp: assms(2))

section \<open>Invariants\<close>

text \<open>The keys and the foreign keys of \<open>users_identities\<close>, and the key of \<open>idps\<close>.\<close>

definition tables_wf :: "accounts_state \<Rightarrow> bool" where
  "tables_wf a \<longleftrightarrow> distinct (map (\<lambda>n. (idnIDP n, idnSubject n)) (acIdentities a))
     \<and> distinct (map (\<lambda>n. (idnUser n, idnIDP n)) (acIdentities a))
     \<and> (\<forall>n \<in> set (acIdentities a). user_row_of (idnUser n) a \<noteq> None \<and> idp_row_of (idnIDP n) a \<noteq> None)
     \<and> distinct (map fst (acIdps a))"

lemma table_simps [simp]:
  "acIdentities (set_row k r a) = acIdentities a" "acIdps (set_row k r a) = acIdps a" "idp_row_of j (set_row k r a) = idp_row_of j a"
  "user_row_of k (a\<lparr>acUsersRoles := rs\<rparr>) = user_row_of k a" "user_row_of k (a\<lparr>acIdentities := ns\<rparr>) = user_row_of k a"
  "user_row_of k (a\<lparr>acIdps := ps\<rparr>) = user_row_of k a" "idp_row_of k (a\<lparr>acUsersRoles := rs\<rparr>) = idp_row_of k a"
  "idp_row_of k (a\<lparr>acIdentities := ns\<rparr>) = idp_row_of k a" "idp_row_of k (a\<lparr>acUsers := us\<rparr>) = idp_row_of k a"
  by (simp_all add: set_row_def idp_row_of_def user_row_of_def)

lemma idp_row_of_update [simp]: "idp_row_of j (a\<lparr>acIdps := AList.update k p (acIdps a)\<rparr>) = (if j = k then Some p else idp_row_of j a)"
  by (simp add: idp_row_of_def update_conv)

lemma idp_row_of_remove [simp]: "idp_row_of j (a\<lparr>acIdps := filter (\<lambda>(j, _). j \<noteq> k) (acIdps a)\<rparr>) = (if j = k then None else idp_row_of j a)"
  by (simp add: idp_row_of_def map_of_filter_key)

lemma user_row_of_remove [simp]:
  "user_row_of j (a\<lparr>acUsers := filter (\<lambda>(j, _). j \<noteq> k) (acUsers a)\<rparr>) = (if j = k then None else user_row_of j a)"
  by (simp add: user_row_of_def map_of_filter_key)

lemma can_link_keys:
  assumes "can_link a i" "tables_wf a"
  shows "distinct (map (\<lambda>n. (idnIDP n, idnSubject n)) (identity_of_input i # acIdentities a))
    \<and> distinct (map (\<lambda>n. (idnUser n, idnIDP n)) (identity_of_input i # acIdentities a)) \<and> idp_row_of (idIDPID i) a \<noteq> None"
  using assms by (auto simp: can_link_def tables_wf_def identity_of_input_def provider_unchanged_def image_iff split: option.splits)

lemma tables_wfD:
  assumes "tables_wf a"
  shows "n \<in> set (acIdentities a) \<Longrightarrow> \<exists>r. user_row_of (idnUser n) a = Some r" "n \<in> set (acIdentities a) \<Longrightarrow> \<exists>p. idp_row_of (idnIDP n) a = Some p"
  using assms by (auto simp: tables_wf_def)

lemma identity_of_input_simps [simp]: "idnUser (identity_of_input i) = idUserID i" "idnIDP (identity_of_input i) = idIDPID i"
  "idnSubject (identity_of_input i) = idSubject i" "idnEmail (identity_of_input i) = idEmail i"
  by (simp_all add: identity_of_input_def)

lemma table_step_wf: "table_step a a' \<Longrightarrow> tables_wf a \<Longrightarrow> tables_wf a'"
proof (induction rule: table_step.induct)
  case (add_linked_user i a r rs)
  then show ?case using can_link_keys[OF add_linked_user(2,3)] by (auto simp: tables_wf_def)
next
  case (remove_user a u)
  then show ?case by (auto simp: tables_wf_def intro: distinct_map_filter)
next
  case (link i a)
  then show ?case using can_link_keys[OF link(2,3)] by (auto simp: tables_wf_def)
next
  case (unlink u p a)
  then show ?case by (auto simp: tables_wf_def intro: distinct_map_filter)
next
  case (add_provider k a p)
  then show ?case by (auto simp: tables_wf_def distinct_update)
next
  case (change_provider k a p p')
  then show ?case by (auto simp: tables_wf_def distinct_update)
next
  case (remove_provider k a)
  then show ?case by (auto simp: tables_wf_def intro: distinct_map_filter)
qed (auto simp: tables_wf_def)

lemma table_step_source:
  "table_step a a' \<Longrightarrow> tables_wf a \<Longrightarrow> n \<in> set (acIdentities a) \<Longrightarrow> n \<in> set (acIdentities a') \<Longrightarrow> idp_row_of (idnIDP n) a = Some p \<Longrightarrow>
     \<exists>q. idp_row_of (idnIDP n) a' = Some q \<and> same_source p q"
  by (induction rule: table_step.induct) (auto simp: same_source_def has_identities_def list_ex_iff)

text \<open>The states a run goes through, the first and the last included.\<close>

fun ext_states :: "'l signin_ports \<Rightarrow> AuthnIDPsServiceConf \<Rightarrow> ext_op list \<Rightarrow> 'l authn_state \<Rightarrow> 'l authn_state list" where
  "ext_states px cf [] st = [st]"
| "ext_states px cf (op # ops) st = st # ext_states px cf ops (ext_step px cf op st)"

lemma ext_states_first: "st \<in> set (ext_states px cf ops st)"
  by (cases ops) auto

lemma same_source_trans: "same_source p q \<Longrightarrow> same_source q r \<Longrightarrow> same_source p r"
  by (simp add: same_source_def)

lemma ext_step_wf: "tables_wf (anAccounts st) \<Longrightarrow> tables_wf (anAccounts (ext_step px cf op st))"
  using table_step_wf[OF ext_step_refines] .

lemma run_keeps_source:
  assumes "tables_wf (anAccounts st)" "\<forall>s \<in> set (ext_states px cf ops st). n \<in> set (acIdentities (anAccounts s))"
    and "idp_row_of (idnIDP n) (anAccounts st) = Some p"
  shows "\<exists>q. idp_row_of (idnIDP n) (anAccounts (ext_run px cf ops st)) = Some q \<and> same_source p q"
  using assms
proof (induction ops arbitrary: st p)
  case Nil
  then show ?case by (auto simp: same_source_def)
next
  case (Cons op ops)
  let ?st = "ext_step px cf op st"
  have n: "n \<in> set (acIdentities (anAccounts st))" "n \<in> set (acIdentities (anAccounts ?st))"
    using Cons.prems(2) ext_states_first[of ?st px cf ops] by auto
  obtain q where q: "idp_row_of (idnIDP n) (anAccounts ?st) = Some q" "same_source p q"
    using table_step_source[OF ext_step_refines Cons.prems(1) n Cons.prems(3)] by blast
  with Cons.IH[OF ext_step_wf[OF Cons.prems(1)] _ q(1)] Cons.prems(2) show ?case by (auto intro: same_source_trans)
qed

section \<open>Ways in\<close>

text \<open>An account can sign in: it has a password, or an identity at an enabled provider.\<close>

definition can_sign_in :: "accounts_state \<Rightarrow> uuid \<Rightarrow> bool" where
  "can_sign_in a u \<longleftrightarrow> (\<exists>r. user_row_of u a = Some r
     \<and> (rowLocalAccount r \<or> (\<exists>n \<in> set (acIdentities a). idnUser n = u \<and> provider_enabled a (idnIDP n))))"

lemma can_sign_in_row:
  "user_row_of u a = Some r \<Longrightarrow> can_sign_in a u
     \<longleftrightarrow> rowLocalAccount r \<or> (\<exists>n \<in> set (acIdentities a). idnUser n = u \<and> provider_enabled a (idnIDP n))"
  by (simp add: can_sign_in_def)

lemma enabledAdministrator_alt:
  "enabledAdministrator w a u r \<longleftrightarrow> rowAdmin r \<and> \<not> rowDisabled r
     \<and> (rowLocalAccount r \<or> (\<exists>n \<in> set (acIdentities a). idnUser n = u \<and> w \<noteq> Some (idnIDP n) \<and> provider_enabled a (idnIDP n)))"
  by (simp add: enabledAdministrator_def list_ex_iff provider_enabled_def idp_row_of_def)

lemma has_administrator_alt:
  "has_administrator a \<longleftrightarrow> (\<exists>u r. user_row_of u a = Some r \<and> rowAdmin r \<and> \<not> rowDisabled r \<and> can_sign_in a u)"
  by (simp add: has_administrator_def enabledAdministrator_alt can_sign_in_row cong: conj_cong)

lemma administrator_moves:
  assumes "has_administrator a" "acUsers a' = acUsers a"
    and "\<And>u r. user_row_of u a = Some r \<Longrightarrow> rowAdmin r \<Longrightarrow> can_sign_in a u \<Longrightarrow> can_sign_in a' u"
  shows "has_administrator a'"
proof -
  have "user_row_of u a' = user_row_of u a" for u using assms(2) by (simp add: user_row_of_def)
  with assms(1,3) show ?thesis unfolding has_administrator_alt by metis
qed

lemma keepsAnAdministrator_None:
  assumes "keepsAnAdministrator faults k action a = None" "accounts_wf a" "has_administrator a"
  shows "\<exists>u r. user_row_of u a = Some r \<and> enabledAdministrator (Some k) a u r"
proof -
  obtain u r where "user_row_of u a = Some r" "enabledAdministrator None a u r" using assms(3) by (auto simp: has_administrator_def)
  then have "u \<in> set (enabled_administrators None a)" using enabled_administrators_mem[of a u None] assms(2) by (auto simp: accounts_wf_def)
  then have n: "enabled_administrators None a \<noteq> []" by auto
  have "enabled_administrators (Some k) a \<noteq> []"
    using assms(1) n by (auto simp: keepsAnAdministrator_def CountEnabledAdministratorsWithout_def CountEnabledAdministrators_def
        split: if_splits)
  then obtain v where v: "v \<in> set (enabled_administrators (Some k) a)" using list.set_sel(1) by blast
  then show ?thesis using enabled_administrators_mem[of a v "Some k"] assms(2) by (auto simp: accounts_wf_def)
qed

text \<open>An administrator that signs in without a provider does so once it is disabled or gone.\<close>

lemma administrator_without:
  assumes "user_row_of u a = Some r" "enabledAdministrator (Some k) a u r" "acUsers a' = acUsers a"
    and "\<And>n. n \<in> set (acIdentities a) \<Longrightarrow> idnIDP n \<noteq> k \<Longrightarrow> n \<in> set (acIdentities a') \<and> provider_enabled a' (idnIDP n) = provider_enabled a (idnIDP n)"
  shows "has_administrator a'"
proof -
  have "user_row_of u a' = Some r" using assms(1,3) by (simp add: user_row_of_def)
  with assms(2,4) show ?thesis unfolding has_administrator_alt can_sign_in_def enabledAdministrator_alt by (metis option.inject)
qed

lemma IDPs_DeleteByID_keeps_administrator:
  assumes "accounts_wf (fst s)" "has_administrator (fst s)"
  shows "has_administrator (fst (snd (IDPs_DeleteByID io rq k s)))"
proof (cases "k = uuid_nil \<or> keepsAnAdministrator (iqAccFaults rq) k ''deleted'' (fst s) \<noteq> None")
  case True with assms show ?thesis by (simp add: IDPs_DeleteByID_accounts)
next
  case False
  then obtain u r where u: "user_row_of u (fst s) = Some r" "enabledAdministrator (Some k) (fst s) u r"
    using keepsAnAdministrator_None assms by blast
  obtain err a' where d: "repo_DeleteIDP (iqFaults rq) k (fst s) = (err, a')" by (rule prod.exhaust)
  from repo_DeleteIDP_cases[OF d] administrator_without[OF u, of a'] assms(2) d False
  show ?thesis by (auto simp: IDPs_DeleteByID_accounts provider_enabled_def)
qed

lemma IDPs_UpdateByID_keeps_administrator:
  assumes "accounts_wf a" "has_administrator a"
  shows "has_administrator (snd (IDPs_UpdateByID io rq (Some i0) a))"
proof (cases "IDPs_UpdateByID_checked io rq (Some i0) a")
  case (Inl e) with assms show ?thesis by (simp add: IDPs_UpdateByID_def)
next
  case (Inr i)
  have i: "iuID i = iuID i0" "iuEnabled i = iuEnabled i0" and c: "update_checks io rq i0 a = Inr ()"
    using Inr by (auto simp: IDPs_UpdateByID_checked_def and_then_Inr seal_secret_def split: option.splits if_splits)
  obtain err a' where w: "repo_UpdateIDP io (iqFaults rq) i a = (err, a')" by (rule prod.exhaust)
  have "has_administrator a'"
  proof (cases "a' = a")
    case False
    then obtain p where p: "idp_row_of (iuID i) a = Some p" "a' = a\<lparr>acIdps := AList.update (iuID i) (updated_provider i p) (acIdps a)\<rparr>"
      using repo_UpdateIDP_cases[OF w] by auto
    show ?thesis
    proof (cases "idpEnabled p \<longrightarrow> idpEnabled (updated_provider i p)")
      case True
      show ?thesis by (rule administrator_moves[OF assms(2)]) (use True p in \<open>auto simp: can_sign_in_def provider_enabled_def\<close>)
    next
      case False
      then have e: "iuEnabled i0 = Some False" "idpEnabled p" using i by (auto simp: updated_provider_def keep_or_def split: option.splits)
      then have "keepsAnAdministrator (iqAccFaults rq) (iuID i0) ''disabled'' a = None"
        using c p(1) i by (auto simp: update_checks_def reads_current_def and_then_Inr repo_SelectIDPByID_def idp_of_row_def disable_check_def
            split: if_splits)
      then obtain u r where u: "user_row_of u a = Some r" "enabledAdministrator (Some (iuID i)) a u r"
        using keepsAnAdministrator_None assms i by metis
      show ?thesis by (rule administrator_without[OF u]) (use p in \<open>auto simp: provider_enabled_def\<close>)
    qed
  qed (use assms in simp)
  with Inr w show ?thesis by (simp add: IDPs_UpdateByID_def)
qed

lemma signing_step_accounts: "signing_step a a' \<Longrightarrow> accounts_wf a \<Longrightarrow> accounts_wf a'"
proof (induction rule: signing_step.induct)
  case (adds_user k a r rs)
  then show ?case using set_row_wf[of a r k] by (simp add: accounts_wf_def)
next
  case (adds_linked_user i a r rs)
  then show ?case using set_row_wf[of a r "idUserID i"] by (simp add: accounts_wf_def user_row_of_def)
qed (simp_all add: accounts_wf_def)

text \<open>A sign-in never writes the row of an account that was there, and never takes an identity away or moves one.\<close>

lemma signing_step_keeps:
  "signing_step a a' \<Longrightarrow> (\<forall>u r. user_row_of u a = Some r \<longrightarrow> user_row_of u a' = Some r) \<and> acIdps a' = acIdps a
     \<and> set (acIdentities a) \<subseteq> set (acIdentities a')"
  by (induction rule: signing_step.induct) (auto simp: user_row_of_def set_row_def update_conv)

lemma signing_step_can_sign_in: "signing_step a a' \<Longrightarrow> can_sign_in a u \<Longrightarrow> can_sign_in a' u"
  using signing_step_keeps[of a a'] by (fastforce simp: can_sign_in_def provider_enabled_def idp_row_of_def)

lemma signing_step_administrator: "signing_step a a' \<Longrightarrow> has_administrator a \<Longrightarrow> has_administrator a'"
  using signing_step_keeps[of a a'] signing_step_can_sign_in[of a a'] unfolding has_administrator_alt by blast

lemma unlinked_can_sign_in:
  assumes "keeps_way_in u p a" "can_sign_in a v"
  shows "can_sign_in (a\<lparr>acIdentities := filter (\<lambda>n. \<not> (idnUser n = u \<and> idnIDP n = p)) (acIdentities a)\<rparr>) v"
proof -
  let ?a = "a\<lparr>acIdentities := filter (\<lambda>n. \<not> (idnUser n = u \<and> idnIDP n = p)) (acIdentities a)\<rparr>"
  obtain r where r: "user_row_of v a = Some r" using assms(2) by (auto simp: can_sign_in_def)
  have e: "provider_enabled ?a k = provider_enabled a k" "user_row_of k ?a = user_row_of k a" for k
    by (simp_all add: provider_enabled_def)
  show ?thesis
  proof (cases "v = u")
    case True
    then have "rowLocalAccount r \<or> (\<exists>n \<in> set (acIdentities a). idnUser n = u \<and> idnIDP n \<noteq> p \<and> provider_enabled a (idnIDP n))"
      using assms(1) r by (simp add: keeps_way_in_def list_ex_iff)
    with r e True show ?thesis by (auto simp: can_sign_in_def)
  next
    case False
    with assms(2) r e show ?thesis by (auto simp: can_sign_in_def)
  qed
qed

text \<open>An unlink changes the tables as \<open>repo_Unlink\<close> does, or not at all.\<close>

lemma UnlinkIdentity_accounts:
  "anAccounts (snd (UnlinkIdentity px rq uid idp st)) = anAccounts st
   \<or> keeps_way_in uid idp (anAccounts st) \<and> fst (UnlinkIdentity px rq uid idp st) = Inr ()
     \<and> anAccounts (snd (UnlinkIdentity px rq uid idp st)) = (anAccounts st)\<lparr>acIdentities :=
         filter (\<lambda>n. \<not> (idnUser n = uid \<and> idnIDP n = idp)) (acIdentities (anAccounts st))\<rparr>"
proof (cases "unlink_check px rq uid idp (anAccounts st)")
  case None
  obtain err a where u: "repo_Unlink (iqFaults (sqIdp rq)) \<lparr>ulUserID = uid, ulIDPID = idp\<rparr> (anAccounts st) = (err, a)" by (rule prod.exhaust)
  from repo_Unlink_cases[OF u] None u show ?thesis by (auto simp: UnlinkIdentity_def split: option.split)
qed (simp add: UnlinkIdentity_def)

lemma UnlinkIdentity_administrator:
  assumes "accounts_wf (anAccounts st)" "has_administrator (anAccounts st)"
  shows "accounts_wf (anAccounts (snd (UnlinkIdentity px rq uid idp st))) \<and> has_administrator (anAccounts (snd (UnlinkIdentity px rq uid idp st)))"
  using UnlinkIdentity_accounts[of px rq uid idp st]
proof
  assume u: "keeps_way_in uid idp (anAccounts st) \<and> fst (UnlinkIdentity px rq uid idp st) = Inr ()
     \<and> anAccounts (snd (UnlinkIdentity px rq uid idp st)) = (anAccounts st)\<lparr>acIdentities :=
         filter (\<lambda>n. \<not> (idnUser n = uid \<and> idnIDP n = idp)) (acIdentities (anAccounts st))\<rparr>"
  then have "has_administrator (anAccounts (snd (UnlinkIdentity px rq uid idp st)))"
    using administrator_moves[OF assms(2)] unlinked_can_sign_in[of uid idp "anAccounts st"] by simp
  with u assms(1) show ?thesis by (simp add: accounts_wf_def)
qed (use assms in simp)

lemma repo_UpdateIDP_wf: "accounts_wf a \<Longrightarrow> accounts_wf (snd (repo_UpdateIDP io faults i a))"
  using repo_UpdateIDP_cases[OF prod.collapse[symmetric], of io faults i a] by (auto simp: accounts_wf_def)

lemma ext_step_keeps_administrator:
  assumes "accounts_wf (anAccounts st) \<and> has_administrator (anAccounts st)"
  shows "accounts_wf (anAccounts (ext_step px cf op st)) \<and> has_administrator (anAccounts (ext_step px cf op st))"
proof (cases op)
  case (XAccount aop) with svc_step_keeps[of "anService st"] assms show ?thesis by simp
next
  case (XCreateIDP rq i)
  obtain s' where s: "s' = snd (IDPs_Create (sgIdp px) rq (Some i) (anService st))" by simp
  have "fst s' = anAccounts st \<or> (\<exists>k p. idp_row_of k (anAccounts st) = None \<and> fst s' = (anAccounts st)\<lparr>acIdps := AList.update k p (acIdps (anAccounts st))\<rparr>)"
    using IDPs_Create_accounts[OF prod.collapse[symmetric], of "sgIdp px" rq "Some i" "anService st"] repo_InsertIDP_cases s by fastforce
  then have "accounts_wf (fst s') \<and> has_administrator (fst s')"
  proof (elim disjE exE conjE)
    fix k p assume k: "idp_row_of k (anAccounts st) = None" "fst s' = (anAccounts st)\<lparr>acIdps := AList.update k p (acIdps (anAccounts st))\<rparr>"
    have "has_administrator (fst s')"
      by (rule administrator_moves[of "anAccounts st"]) (use assms k in \<open>auto simp: can_sign_in_def provider_enabled_def split: if_splits\<close>)
    with assms k show ?thesis by (simp add: accounts_wf_def)
  qed (use assms in simp)
  with XCreateIDP s show ?thesis by simp
next
  case (XUpdateIDP rq i)
  have "accounts_wf (snd (IDPs_UpdateByID (sgIdp px) rq (Some i) (anAccounts st)))"
    using assms repo_UpdateIDP_wf by (simp add: IDPs_UpdateByID_def split: sum.split)
  with XUpdateIDP IDPs_UpdateByID_keeps_administrator assms show ?thesis by auto
next
  case (XDeleteIDP rq k)
  have "accounts_wf (fst (snd (IDPs_DeleteByID (sgIdp px) rq k (anService st))))"
    using assms repo_DeleteIDP_cases[OF prod.collapse[symmetric], of "iqFaults rq" k "anAccounts st"]
    by (auto simp: IDPs_DeleteByID_accounts accounts_wf_def)
  with XDeleteIDP IDPs_DeleteByID_keeps_administrator assms show ?thesis by auto
next
  case (XCallback rq k state code)
  with signing_step_accounts[OF Callback_step] signing_step_administrator[OF Callback_step] assms show ?thesis by auto
next
  case (XUnlink rq uid k) with UnlinkIdentity_administrator[of st px rq uid k] assms show ?thesis by simp
qed (use assms in auto)

section \<open>The runs\<close>

text \<open>
  C15. What an identity was proven under never changes beneath it: while an
  account stays linked to a subject of a provider, no run of operations points
  the provider at another issuer or another type, or takes it away.
\<close>

theorem linked_provider_is_not_repointed:
  assumes "tables_wf (anAccounts st)"
    and "\<forall>s \<in> set (ext_states px cf ops st). n \<in> set (acIdentities (anAccounts s))"
    and "idp_row_of (idnIDP n) (anAccounts st) = Some p"
  shows "\<exists>q. idp_row_of (idnIDP n) (anAccounts (ext_run px cf ops st)) = Some q
    \<and> idpType q = idpType p \<and> idpIssuerURL q = idpIssuerURL p"
  using run_keeps_source[OF assms] by (auto simp: same_source_def)

text \<open>
  C5. An administrator account that can sign in is left by every sequential
  run of account operations, provider operations (the disable and the delete
  of a provider too), callbacks and unlinks.
\<close>

theorem an_administrator_can_always_sign_in:
  assumes "accounts_wf (anAccounts st)" "has_administrator (anAccounts st)"
  shows "\<exists>u r. user_row_of u (anAccounts (ext_run px cf ops st)) = Some r \<and> rowAdmin r \<and> \<not> rowDisabled r
    \<and> can_sign_in (anAccounts (ext_run px cf ops st)) u"
proof -
  have "accounts_wf (anAccounts (ext_run px cf ops st)) \<and> has_administrator (anAccounts (ext_run px cf ops st))"
    by (rule ext_run_invariant[where P = "\<lambda>st. accounts_wf (anAccounts st) \<and> has_administrator (anAccounts st)"])
      (simp_all only: assms ext_step_keeps_administrator simp_thms)
  then show ?thesis by (simp add: has_administrator_alt)
qed

text \<open>
  C23. An unlink takes one identity and leaves a way in: once it succeeded the
  identity of that account at that provider, which was there, is gone, the
  account has a password or an identity at another provider that is enabled,
  and no other identity, account, provider, session or mail has changed.
\<close>

theorem unlink_leaves_a_way_in:
  assumes "UnlinkIdentity px rq uid idp st = (Inr (), st')"
  shows "has_identity_at uid idp (anAccounts st) \<and> can_sign_in (anAccounts st') uid
    \<and> st' = with_accounts ((anAccounts st)\<lparr>acIdentities :=
        filter (\<lambda>n. \<not> (idnUser n = uid \<and> idnIDP n = idp)) (acIdentities (anAccounts st))\<rparr>) st"
proof -
  obtain a where r: "repo_Unlink (iqFaults (sqIdp rq)) \<lparr>ulUserID = uid, ulIDPID = idp\<rparr> (anAccounts st) = (None, a)"
      "st' = with_accounts a st"
    using assms by (auto simp: UnlinkIdentity_def split: option.splits prod.splits)
  from repo_Unlink_cases[OF r(1)] have k: "has_identity_at uid idp (anAccounts st)" "keeps_way_in uid idp (anAccounts st)"
    and a: "a = (anAccounts st)\<lparr>acIdentities := filter (\<lambda>n. \<not> (idnUser n = uid \<and> idnIDP n = idp)) (acIdentities (anAccounts st))\<rparr>"
    by auto
  have e: "provider_enabled a p = provider_enabled (anAccounts st) p" "user_row_of p a = user_row_of p (anAccounts st)" for p
    by (simp_all add: a provider_enabled_def)
  have "can_sign_in a uid"
    using k e by (auto simp: keeps_way_in_def can_sign_in_def a list_ex_iff split: option.splits)
  with r(2) k a show ?thesis by (simp add: with_accounts_def)
qed

end
