(* ===== verification/OAuthClient.thy ===== *)
theory OAuthClient
  imports ExternalSignIn
begin

text \<open>
  The adapter of the identity providers (\<open>internal/adapter/driven/oauthidp\<close>):
  the configuration of a provider's client, discovery and its cache, the
  exchange of a code for an identity, what of an ID token, a user-info document
  or GitHub's answers becomes a \<open>UserInfo\<close>, and whose failure a failed call is.
  The OAuth and OpenID Connect libraries and the HTTP calls are a record of
  functions.
\<close>

section \<open>What is outside\<close>

text \<open>
  A failed call: the caller went away, the token endpoint refused (with a
  status, an OAuth code, possibly empty, and a description), the request did
  not reach the provider, or anything else; with the error's own text.
\<close>

datatype call_failure =
    CallCanceled
  | CallRefused int string string
  | CallUnreachable string
  | CallFailed string

record oidcClaims =
  ocEmail :: string
  ocPreferredUsername :: string
  ocName :: string
  ocGivenName :: string
  ocFamilyName :: string
  ocEmailVerified :: bool

text \<open>A verified ID token: its subject, its nonce, and its claims when they can be read.\<close>

record id_token =
  idtSubject :: string
  idtNonce :: string
  idtClaims :: "string + oidcClaims"

record github_user =
  ghID :: int
  ghLogin :: string
  ghName :: string
  ghEmail :: string

record github_email =
  geEmail :: string
  gePrimary :: bool
  geVerified :: bool

datatype auth_style = AuthStyleInHeader | AuthStyleInParams

record 'p oauth_config =
  cgEndpoint :: "'p option"
  cgAuthStyle :: auth_style
  cgClientID :: string
  cgClientSecret :: string
  cgRedirectURL :: string
  cgScopes :: "string list"

text \<open>
  \<open>olNewProvider\<close> is \<open>oidc.NewProvider\<close>, \<open>olMethods\<close> what the discovery document
  lists, \<open>olVerify\<close> the library's check of an ID token against the issuer and
  the client, \<open>olAuthCodeURL\<close> the URL with the challenge and, for OpenID
  Connect, the nonce.  GitHub's endpoint is the \<open>None\<close> of \<open>cgEndpoint\<close>.
\<close>

record ('p, 't) oauth_lib =
  olText :: text_env
  olNewProvider :: "string \<Rightarrow> string + 'p"
  olMethods :: "'p \<Rightarrow> string list option"
  olAuthCodeURL :: "'p oauth_config \<Rightarrow> string \<Rightarrow> string \<Rightarrow> string option \<Rightarrow> string"
  olExchange :: "'p oauth_config \<Rightarrow> string \<Rightarrow> string \<Rightarrow> call_failure + 't"
  olIDToken :: "'t \<Rightarrow> string option"
  olVerify :: "'p \<Rightarrow> string \<Rightarrow> string \<Rightarrow> string + id_token"
  olUserInfo :: "'p \<Rightarrow> 't \<Rightarrow> call_failure + oidcClaims option"
  olGithubUser :: "string \<Rightarrow> 't \<Rightarrow> call_failure + github_user"
  olGithubEmails :: "string \<Rightarrow> 't \<Rightarrow> call_failure + github_email list"
  olGithubStyle :: "auth_style option"

section \<open>Failures\<close>

definition maxProviderText :: nat where "maxProviderText = 200"

definition is_rune_start :: "char \<Rightarrow> bool" where
  "is_rune_start c = ((of_char c :: nat) div 64 \<noteq> 2)"

text \<open>The cut goes back to the start of a rune.\<close>

fun rune_cut :: "string \<Rightarrow> nat \<Rightarrow> nat" where
  "rune_cut s 0 = 0"
| "rune_cut s (Suc n) = (if Suc n < length s \<and> \<not> is_rune_start (s ! Suc n) then rune_cut s n else Suc n)"

definition ellipsis :: string where "ellipsis = [CHR 0xE2, CHR 0x80, CHR 0xA6]"

definition providerText :: "string \<Rightarrow> string" where
  "providerText text =
     (let line = takeWhile (\<lambda>c. c \<noteq> CHR 0x0A) text
      in if length line \<le> maxProviderText then line else take (rune_cut line maxProviderText) line @ ellipsis)"

definition providerDetail :: "call_failure \<Rightarrow> string" where
  "providerDetail f =
     (case f of
        CallCanceled \<Rightarrow> ''context canceled''
      | CallRefused status code description \<Rightarrow>
          if code = [] then ''the token endpoint answered '' @ itoa status @ '' with no OAuth error''
          else ''the token endpoint answered '' @ itoa status @ '': '' @ code @ '': '' @ description
      | CallUnreachable text \<Rightarrow> providerText text
      | CallFailed text \<Rightarrow> providerText text)"

definition refusal_codes :: "string list" where
  "refusal_codes = [''invalid_grant'', ''bad_verification_code'', ''unverified_user_email'', ''access_denied'']"

definition exchangeFailure :: "call_failure \<Rightarrow> signin_error" where
  "exchangeFailure f =
     (case f of
        CallCanceled \<Rightarrow> GCancelled
      | CallRefused _ code _ \<Rightarrow>
          if code \<in> set refusal_codes then GRefused ''the identity provider did not accept this sign-in'' (providerDetail f)
          else GUnusable ''the identity provider did not accept this service's request'' (providerDetail f)
      | CallUnreachable _ \<Rightarrow> GUnreachable (providerDetail f)
      | CallFailed _ \<Rightarrow> GUnusable ''the identity provider did not return a token'' (providerDetail f))"

definition lookupFailure :: "call_failure \<Rightarrow> signin_error" where
  "lookupFailure f =
     (case f of
        CallCanceled \<Rightarrow> GCancelled
      | CallUnreachable _ \<Rightarrow> GUnreachable (providerDetail f)
      | _ \<Rightarrow> GUnusable ''the identity provider did not return the account details'' (providerDetail f))"

definition notConfigured :: "string \<Rightarrow> signin_error" where
  "notConfigured reason = GUnusable ''the identity provider is not configured for sign-in'' reason"

definition invalid_identity :: "string \<Rightarrow> signin_error" where
  "invalid_identity detail = GUnusable ''the identity provider did not return a valid identity'' detail"

definition no_address :: signin_error where
  "no_address = GRefused ''the identity provider did not return an email address for this account'' []"

section \<open>The client of a provider\<close>

type_synonym 'p providers = "string \<Rightarrow> 'p option"

definition discover :: "('p, 't) oauth_lib \<Rightarrow> IDP \<Rightarrow> 'p providers \<Rightarrow> (signin_error + 'p) \<times> 'p providers" where
  "discover ol idp cache =
     (case cache (ipIssuerURL idp) of
        Some p \<Rightarrow> (Inr p, cache)
      | None \<Rightarrow>
        (case olNewProvider ol (ipIssuerURL idp) of
           Inl text \<Rightarrow> (Inl (GUnreachable (''discovery: '' @ providerText text)), cache)
         | Inr p \<Rightarrow> (Inr p, cache(ipIssuerURL idp \<mapsto> p))))"

definition tokenEndpointAuthStyle :: "string list option \<Rightarrow> auth_style" where
  "tokenEndpointAuthStyle methods =
     (case methods of
        None \<Rightarrow> AuthStyleInHeader
      | Some ms \<Rightarrow> if ''client_secret_basic'' \<notin> set ms \<and> ''client_secret_post'' \<in> set ms then AuthStyleInParams else AuthStyleInHeader)"

definition withOpenID :: "string list \<Rightarrow> string list" where
  "withOpenID scopes = (if ''openid'' \<in> set scopes then scopes else ''openid'' # scopes)"

definition configFor :: "('p, 't) oauth_lib \<Rightarrow> IDP \<Rightarrow> 'p providers \<Rightarrow> (signin_error + 'p oauth_config) \<times> 'p providers" where
  "configFor ol idp cache =
     (if ipClientID idp = [] \<or> ipClientSecret idp = [] \<or> ipCallbackURL idp = []
      then (Inl (notConfigured ''the client id, the client secret or the callback URL is empty''), cache)
      else if itKind (ipType idp) = IDPTypeKindOIDC then
        (if ipIssuerURL idp = [] then (Inl (notConfigured ''an OpenID Connect provider has no issuer URL''), cache)
         else then_do (discover ol idp cache) (\<lambda>p cache.
           done_with \<lparr>cgEndpoint = Some p, cgAuthStyle = tokenEndpointAuthStyle (olMethods ol p), cgClientID = ipClientID idp,
             cgClientSecret = ipClientSecret idp, cgRedirectURL = ipCallbackURL idp, cgScopes = withOpenID (itScopes (ipType idp))\<rparr> cache))
      else if itKind (ipType idp) = IDPTypeKindGithub then
        (Inr \<lparr>cgEndpoint = None, cgAuthStyle = (case olGithubStyle ol of None \<Rightarrow> AuthStyleInParams | Some s \<Rightarrow> s),
           cgClientID = ipClientID idp, cgClientSecret = ipClientSecret idp, cgRedirectURL = ipCallbackURL idp,
           cgScopes = (if itScopes (ipType idp) = [] then [''read:user'', ''user:email''] else itScopes (ipType idp))\<rparr>, cache)
      else (Inl (notConfigured ''the provider's kind is not one this service can sign in with''), cache))"

definition AuthCodeURL :: "('p, 't) oauth_lib \<Rightarrow> IDP \<Rightarrow> AuthRequest \<Rightarrow> 'p providers \<Rightarrow> (signin_error + string) \<times> 'p providers" where
  "AuthCodeURL ol idp req cache =
     (if arState req = [] \<or> arCodeVerifier req = []
      then (Inl (GInvalidIdentityProviders ''a sign-in needs a state and a PKCE verifier''), cache)
      else then_do (configFor ol idp cache) (\<lambda>cfg cache.
        if IsOIDC idp \<and> arNonce req = [] then fail_with (GInvalidIdentityProviders ''an OpenID Connect sign-in needs a nonce'') cache
        else done_with (olAuthCodeURL ol cfg (arState req) (arCodeVerifier req) (if IsOIDC idp then Some (arNonce req) else None)) cache))"

section \<open>From claims to an identity\<close>

text \<open>\<open>strings.Cut\<close> at the first space.\<close>

definition cut_at_space :: "string \<Rightarrow> string \<times> string \<times> bool" where
  "cut_at_space s = (takeWhile (\<lambda>c. c \<noteq> CHR '' '') s, drop 1 (dropWhile (\<lambda>c. c \<noteq> CHR '' '') s), CHR '' '' \<in> set s)"

definition local_part :: "string \<Rightarrow> string" where
  "local_part s = (let l = takeWhile (\<lambda>c. c \<noteq> CHR ''@'') s in if CHR ''@'' \<in> set s \<and> l \<noteq> [] then l else s)"

definition splitName :: "string \<Rightarrow> string \<Rightarrow> string \<times> string" where
  "splitName name0 fallback =
     (let name = TrimSpace name0;
          name = (if name = [] then local_part fallback else name);
          (first, last, found) = cut_at_space name
      in if \<not> found \<or> TrimSpace last = [] then (first, first) else (first, TrimSpace last))"

definition isEmail :: "text_env \<Rightarrow> string \<Rightarrow> bool" where
  "isEmail env s = (s \<noteq> [] \<and> parse_address env s \<noteq> None)"

definition merge_claims :: "oidcClaims \<Rightarrow> oidcClaims \<Rightarrow> oidcClaims" where
  "merge_claims c ext =
     (let c = (if ocEmail c = [] then c\<lparr>ocEmail := ocEmail ext, ocEmailVerified := ocEmailVerified ext\<rparr> else c);
          c = (if ocPreferredUsername c = [] then c\<lparr>ocPreferredUsername := ocPreferredUsername ext\<rparr> else c);
          c = (if ocName c = [] then c\<lparr>ocName := ocName ext\<rparr> else c);
          c = (if ocGivenName c = [] then c\<lparr>ocGivenName := ocGivenName ext\<rparr> else c)
      in if ocFamilyName c = [] then c\<lparr>ocFamilyName := ocFamilyName ext\<rparr> else c)"

definition IDPTypeNameEntraID :: string where "IDPTypeNameEntraID = ''EntraID''"

text \<open>The address and whether the provider vouches for it.\<close>

definition claimed_address :: "text_env \<Rightarrow> IDP \<Rightarrow> oidcClaims \<Rightarrow> string \<times> bool" where
  "claimed_address env idp c =
     (if itName (ipType idp) = IDPTypeNameEntraID then
        (let email = (if ocEmail c = [] \<and> isEmail env (ocPreferredUsername c) then ocPreferredUsername c else ocEmail c)
         in (email, email \<noteq> []))
      else (ocEmail c, ocEmailVerified c))"

definition mapOIDCClaims :: "text_env \<Rightarrow> IDP \<Rightarrow> string \<Rightarrow> oidcClaims \<Rightarrow> signin_error + UserInfo" where
  "mapOIDCClaims env idp subject c =
     (if subject = [] then Inl (invalid_identity ''the ID token has no subject'')
      else let (email, verified) = claimed_address env idp c in
        if email = [] then Inl no_address
        else let (first, last) = (if ocGivenName c = [] \<and> ocFamilyName c = [] then splitName (ocName c) email
                 else (ocGivenName c, ocFamilyName c))
          in Inr \<lparr>uinSubject = subject, uinEmail = to_lower env email, uinFirstName = first, uinLastName = last,
               uinEmailVerified = verified\<rparr>)"

text \<open>\<open>no address\<close> is the person's side only when the provider was asked and said so.\<close>

definition address_or_lookup :: "call_failure option \<Rightarrow> signin_error + UserInfo \<Rightarrow> signin_error + UserInfo" where
  "address_or_lookup failed r =
     (case (r, failed) of (Inl (GRefused m d), Some f) \<Rightarrow> Inl (lookupFailure f) | _ \<Rightarrow> r)"

definition identity_from_claims ::
  "('p, 't) oauth_lib \<Rightarrow> IDP \<Rightarrow> 'p \<Rightarrow> 't \<Rightarrow> string \<Rightarrow> oidcClaims \<Rightarrow> signin_error + UserInfo" where
  "identity_from_claims ol idp p token subject c =
     (if ocEmail c \<noteq> [] then mapOIDCClaims (olText ol) idp subject c
      else case olUserInfo ol p token of
        Inl f \<Rightarrow> address_or_lookup (Some f) (mapOIDCClaims (olText ol) idp subject c)
      | Inr None \<Rightarrow> mapOIDCClaims (olText ol) idp subject c
      | Inr (Some ext) \<Rightarrow> mapOIDCClaims (olText ol) idp subject (merge_claims c ext))"

definition identity_from_token ::
  "('p, 't) oauth_lib \<Rightarrow> IDP \<Rightarrow> 'p \<Rightarrow> 't \<Rightarrow> string \<Rightarrow> id_token \<Rightarrow> signin_error + UserInfo" where
  "identity_from_token ol idp p token nonce idt =
     (if idtNonce idt = [] then Inl (invalid_identity ''the ID token carries no nonce'')
      else if idtNonce idt \<noteq> nonce
      then Inl (GRefused ''the identity provider's answer is not for this sign-in'' ''the ID token's nonce does not match this sign-in'')
      else case idtClaims idt of
        Inl text \<Rightarrow> Inl (invalid_identity (''the ID token's claims could not be read: '' @ providerText text))
      | Inr c \<Rightarrow> identity_from_claims ol idp p token (idtSubject idt) c)"

definition identityFromIDToken ::
  "('p, 't) oauth_lib \<Rightarrow> IDP \<Rightarrow> 'p oauth_config \<Rightarrow> 't \<Rightarrow> string \<Rightarrow> 'p providers \<Rightarrow> (signin_error + UserInfo) \<times> 'p providers" where
  "identityFromIDToken ol idp cfg token nonce cache =
     (case olIDToken ol token of
        None \<Rightarrow> fail_with (GUnusable ''the identity provider did not return an identity'' ''the token response carried no id_token'') cache
      | Some raw \<Rightarrow>
          if raw = [] then fail_with (GUnusable ''the identity provider did not return an identity'' ''the token response carried no id_token'') cache
          else then_do (discover ol idp cache) (\<lambda>p cache.
            case olVerify ol p (cgClientID cfg) raw of
              Inl text \<Rightarrow> fail_with (invalid_identity (''the ID token did not verify: '' @ providerText text)) cache
            | Inr idt \<Rightarrow> (identity_from_token ol idp p token nonce idt, cache)))"

text \<open>The primary address, whatever GitHub says of it; else the public one, unverified.\<close>

definition github_address :: "github_user \<Rightarrow> call_failure + github_email list \<Rightarrow> string \<times> bool" where
  "github_address u r =
     (let (email, verified) = (case r of
          Inl _ \<Rightarrow> ([], False)
        | Inr emails \<Rightarrow> (case filter gePrimary emails of [] \<Rightarrow> ([], False) | e # _ \<Rightarrow> (geEmail e, geVerified e)))
      in if email = [] \<and> ghEmail u \<noteq> [] then (ghEmail u, False) else (email, verified))"

definition TrimSuffix_slash :: "string \<Rightarrow> string" where
  "TrimSuffix_slash s = (if HasSuffix s ''/'' then butlast s else s)"

definition identityFromGithub :: "('p, 't) oauth_lib \<Rightarrow> IDP \<Rightarrow> 't \<Rightarrow> signin_error + UserInfo" where
  "identityFromGithub ol idp token =
     (let userURL = (if itUserInfoAPIURL (ipType idp) = [] then ''https://api.github.com/user'' else itUserInfoAPIURL (ipType idp)) in
      case olGithubUser ol userURL token of
        Inl f \<Rightarrow> Inl (lookupFailure f)
      | Inr u \<Rightarrow>
          if ghID u = 0 then Inl (invalid_identity ''the account details carry no id'')
          else let emails = olGithubEmails ol (TrimSuffix_slash userURL @ ''/emails'') token;
                   (email, verified) = github_address u emails in
            if email = [] then (case emails of Inl f \<Rightarrow> Inl (lookupFailure f) | Inr _ \<Rightarrow> Inl no_address)
            else let (first, last) = splitName (ghName u) (ghLogin u)
              in Inr \<lparr>uinSubject = itoa (ghID u), uinEmail = to_lower (olText ol) email, uinFirstName = first, uinLastName = last,
                   uinEmailVerified = verified\<rparr>)"

definition Exchange ::
  "('p, 't) oauth_lib \<Rightarrow> IDP \<Rightarrow> string \<Rightarrow> AuthRequest \<Rightarrow> 'p providers \<Rightarrow> (signin_error + UserInfo) \<times> 'p providers" where
  "Exchange ol idp code req cache =
     (if code = [] \<or> arCodeVerifier req = []
      then fail_with (GInvalidIdentityProviders ''the exchange needs the code and the PKCE verifier'') cache
      else then_do (configFor ol idp cache) (\<lambda>cfg cache.
        case olExchange ol cfg code (arCodeVerifier req) of
          Inl f \<Rightarrow> fail_with (exchangeFailure f) cache
        | Inr token \<Rightarrow>
            if IsOIDC idp then identityFromIDToken ol idp cfg token (arNonce req) cache
            else (identityFromGithub ol idp token, cache)))"

end
