(* ===== verification/CipherAES.thy ===== *)
theory CipherAES
  imports Cursor
begin

text \<open>
  The cipher that keeps secrets at rest and seals the state of a sign-in
  (\<open>internal/adapter/driven/cipheraes/adapter.go\<close>).  AES, its GCM mode and the
  source of randomness are parameters, with what they promise in \<open>aes_laws\<close>;
  the nonce in front of the text, the base64 framing and the lengths are the
  adapter's.
\<close>

record ('b, 'g) aes_lib =
  NewCipher :: "string \<Rightarrow> 'b option"
  NewGCM :: "'b \<Rightarrow> 'g option"
  NonceSize :: "'g \<Rightarrow> nat"
  Seal :: "'g \<Rightarrow> string \<Rightarrow> string \<Rightarrow> string"
  Open :: "'g \<Rightarrow> string \<Rightarrow> string \<Rightarrow> string option"

definition AESKeySize128 :: nat where "AESKeySize128 = 16"
definition AESKeySize192 :: nat where "AESKeySize192 = 24"
definition AESKeySize256 :: nat where "AESKeySize256 = 32"

definition ValidAESKeySize :: "nat \<Rightarrow> bool" where
  "ValidAESKeySize n = (n = AESKeySize128 \<or> n = AESKeySize192 \<or> n = AESKeySize256)"

record CipherAdapter =
  acKey :: string

text \<open>\<open>New\<close>; the error names the length.\<close>

definition NewCipherAdapter :: "string \<Rightarrow> nat + CipherAdapter" where
  "NewCipherAdapter key = (if \<not> ValidAESKeySize (length key) then Inl (length key) else Inr \<lparr>acKey = key\<rparr>)"

definition key_gcm :: "('b, 'g) aes_lib \<Rightarrow> CipherAdapter \<Rightarrow> 'g option" where
  "key_gcm lib a = (case NewCipher lib (acKey a) of None \<Rightarrow> None | Some block \<Rightarrow> NewGCM lib block)"

text \<open>
  \<open>random n\<close> is what \<open>io.ReadFull\<close> reads for \<open>n\<close> bytes.  \<open>Seal\<close> appends to the
  nonce.
\<close>

definition EncryptString :: "('b, 'g) aes_lib \<Rightarrow> CipherAdapter \<Rightarrow> (nat \<Rightarrow> string option) \<Rightarrow> string \<Rightarrow> string option" where
  "EncryptString lib a random plaintext =
     (case key_gcm lib a of
        None \<Rightarrow> None
      | Some gcm \<Rightarrow> (case random (NonceSize lib gcm) of
          None \<Rightarrow> None
        | Some nonce \<Rightarrow> Some (b64_encode (nonce @ Seal lib gcm nonce plaintext))))"

definition DecryptString :: "('b, 'g) aes_lib \<Rightarrow> CipherAdapter \<Rightarrow> string \<Rightarrow> string option" where
  "DecryptString lib a encoded =
     (case b64_decode encoded of
        None \<Rightarrow> None
      | Some ct \<Rightarrow> (case key_gcm lib a of
          None \<Rightarrow> None
        | Some gcm \<Rightarrow>
            let nonceSize = NonceSize lib gcm in
            if length ct < nonceSize then None
            else Open lib gcm (take nonceSize ct) (drop nonceSize ct)))"

text \<open>
  The documented behaviour of \<open>crypto/aes\<close> and \<open>crypto/cipher\<close>: a key of a
  valid size makes a cipher and its GCM mode; \<open>Seal\<close> adds a tag, so it is
  never empty; \<open>Open\<close> gives back what was sealed under its key and nonce, and
  refuses everything else; \<open>io.ReadFull\<close> reads exactly the bytes asked for.
\<close>

definition aes_laws :: "('b, 'g) aes_lib \<Rightarrow> bool" where
  "aes_laws lib \<longleftrightarrow>
     (\<forall>key. ValidAESKeySize (length key) \<longrightarrow> (\<exists>block gcm. NewCipher lib key = Some block \<and> NewGCM lib block = Some gcm))
   \<and> (\<forall>g nonce p. length nonce = NonceSize lib g \<longrightarrow> Seal lib g nonce p \<noteq> [] \<and> Open lib g nonce (Seal lib g nonce p) = Some p)
   \<and> (\<forall>g nonce c p. length nonce = NonceSize lib g \<longrightarrow> Open lib g nonce c = Some p \<longrightarrow> c = Seal lib g nonce p)"

definition reads_full :: "(nat \<Rightarrow> string option) \<Rightarrow> bool" where
  "reads_full random \<longleftrightarrow> (\<forall>n bytes. random n = Some bytes \<longrightarrow> length bytes = n)"

lemma adapter_gcm:
  assumes "aes_laws lib" "NewCipherAdapter key = Inr a"
  obtains gcm where "key_gcm lib a = Some gcm"
proof -
  have "ValidAESKeySize (length (acKey a))" using assms(2) by (auto simp: NewCipherAdapter_def split: if_splits)
  then obtain block gcm where "NewCipher lib (acKey a) = Some block" "NewGCM lib block = Some gcm"
    using assms(1) unfolding aes_laws_def by blast
  with that show ?thesis by (simp add: key_gcm_def)
qed

text \<open>Base64 writes no line ends, so what it wrote decodes.\<close>

lemma b64_char_line: "d < 64 \<Longrightarrow> b64_char d \<noteq> CHR 0x0A \<and> b64_char d \<noteq> CHR 0x0D"
  using b64_val_char[of d] by (auto simp: b64_val_def)

lemma b64_encode_lines: "list_all (\<lambda>c. c \<noteq> CHR 0x0A \<and> c \<noteq> CHR 0x0D) (b64_encode s)"
proof (induction s rule: b64_encode.induct)
  case (2 a)
  then show ?case using b64_sextets[OF byte_less[of a] byte_less[of a] byte_less[of a]] by (simp add: b64_char_line)
next
  case (3 a b)
  then show ?case using b64_sextets[OF byte_less[of a] byte_less[of b] byte_less[of b]] by (simp add: b64_char_line)
next
  case (4 a b c r)
  then show ?case using b64_sextets[OF byte_less[of a] byte_less[of b] byte_less[of c]] by (simp add: b64_char_line)
qed simp

lemma b64_decodes: "b64_decode (b64_encode s) = Some s"
proof -
  have "filter (\<lambda>c. c \<noteq> CHR 0x0A \<and> c \<noteq> CHR 0x0D) (b64_encode s) = b64_encode s"
    using b64_encode_lines[of s] by (simp add: filter_id_conv list_all_iff)
  then show ?thesis by (simp add: b64_decode_def b64_quads_encode)
qed

lemma b64_encode_nonempty: "s \<noteq> [] \<Longrightarrow> b64_encode s \<noteq> []"
  by (cases s rule: b64_encode.cases) auto

lemma Encrypt_Decrypt:
  assumes laws: "aes_laws lib" and r: "reads_full random" and s: "EncryptString lib a random p = Some s"
  shows "s \<noteq> []" "DecryptString lib a s = Some p"
proof -
  obtain gcm nonce where g: "key_gcm lib a = Some gcm" and n: "random (NonceSize lib gcm) = Some nonce"
    and e: "s = b64_encode (nonce @ Seal lib gcm nonce p)"
    using s by (auto simp: EncryptString_def split: option.splits)
  have l: "length nonce = NonceSize lib gcm" using r n by (simp add: reads_full_def)
  then have o: "Seal lib gcm nonce p \<noteq> []" "Open lib gcm nonce (Seal lib gcm nonce p) = Some p"
    using laws unfolding aes_laws_def by blast+
  show "s \<noteq> []" using o(1) by (simp add: e b64_encode_nonempty)
  show "DecryptString lib a s = Some p" using g l o(2) by (simp add: DecryptString_def e b64_decodes Let_def)
qed

text \<open>
  C34. The cipher is bound to a key of a length AES has.  With such a key it
  encrypts whenever it gets its random bytes, gives back what it encrypted,
  and decrypts nothing else: what it decrypts is, behind its nonce, the text
  sealed under this key.
\<close>

theorem cipher_opens_what_it_sealed:
  assumes laws: "aes_laws lib" and new: "NewCipherAdapter key = Inr a" and r: "reads_full random"
  shows "(length key = 16 \<or> length key = 24 \<or> length key = 32) \<and> acKey a = key
    \<and> (EncryptString lib a random p = None \<longleftrightarrow> (\<exists>g. key_gcm lib a = Some g \<and> random (NonceSize lib g) = None))
    \<and> (\<forall>s. EncryptString lib a random p = Some s \<longrightarrow> DecryptString lib a s = Some p)
    \<and> (\<forall>s. DecryptString lib a s = Some q \<longrightarrow> (\<exists>g nonce. key_gcm lib a = Some g \<and> length nonce = NonceSize lib g
          \<and> b64_decode s = Some (nonce @ Seal lib g nonce q)))"
proof -
  obtain gcm where g: "key_gcm lib a = Some gcm" by (rule adapter_gcm[OF laws new])
  have k: "(length key = 16 \<or> length key = 24 \<or> length key = 32) \<and> acKey a = key"
    using new by (auto simp: NewCipherAdapter_def ValidAESKeySize_def AESKeySize128_def AESKeySize192_def AESKeySize256_def split: if_splits)
  have e: "EncryptString lib a random p = None \<longleftrightarrow> (\<exists>g. key_gcm lib a = Some g \<and> random (NonceSize lib g) = None)"
    using g by (auto simp: EncryptString_def split: option.split)
  have d: "\<exists>nonce. length nonce = NonceSize lib gcm \<and> b64_decode s = Some (nonce @ Seal lib gcm nonce q)"
    if opened: "DecryptString lib a s = Some q" for s
  proof -
    obtain ct where b: "b64_decode s = Some ct" using opened by (auto simp: DecryptString_def split: option.splits)
    have ct: "b64_decode s = Some ct" "NonceSize lib gcm \<le> length ct"
      "Open lib gcm (take (NonceSize lib gcm) ct) (drop (NonceSize lib gcm) ct) = Some q"
      using opened g b by (simp_all add: DecryptString_def Let_def split: if_splits)
    then have l: "length (take (NonceSize lib gcm) ct) = NonceSize lib gcm" by simp
    have "drop (NonceSize lib gcm) ct = Seal lib gcm (take (NonceSize lib gcm) ct) q"
      using laws l ct(3) unfolding aes_laws_def by blast
    then have "ct = take (NonceSize lib gcm) ct @ Seal lib gcm (take (NonceSize lib gcm) ct) q" by (metis append_take_drop_id)
    with l ct(1) show ?thesis by metis
  qed
  show ?thesis using k e d g Encrypt_Decrypt(2)[OF laws r] by blast
qed

section \<open>A cipher the laws hold of\<close>

definition toy_aes :: "(string, string) aes_lib" where
  "toy_aes = \<lparr>NewCipher = (\<lambda>key. if ValidAESKeySize (length key) then Some key else None), NewGCM = Some, NonceSize = (\<lambda>_. 12),
     Seal = (\<lambda>g nonce p. g @ nonce @ rev p),
     Open = (\<lambda>g nonce c. if take (length g + length nonce) c = g @ nonce then Some (rev (drop (length g + length nonce) c)) else None)\<rparr>"

lemma toy_aes_laws: "aes_laws toy_aes"
  by (auto simp: aes_laws_def toy_aes_def split: if_splits) (metis append.assoc append_take_drop_id rev_rev_ident)

definition toy_random :: "nat \<Rightarrow> string option" where
  "toy_random n = Some (replicate n (CHR ''r''))"

lemma toy_random_full: "reads_full toy_random"
  by (simp add: reads_full_def toy_random_def)

definition toy_key :: string where "toy_key = replicate 32 (CHR ''k'')"

lemma toy_adapter: "NewCipherAdapter toy_key = Inr \<lparr>acKey = toy_key\<rparr>"
  by (simp add: NewCipherAdapter_def toy_key_def ValidAESKeySize_def AESKeySize256_def)

theorem cipher_opens_what_it_sealed_witness:
  "\<exists>s. EncryptString toy_aes \<lparr>acKey = toy_key\<rparr> toy_random ''a secret'' = Some s
     \<and> DecryptString toy_aes \<lparr>acKey = toy_key\<rparr> s = Some ''a secret''"
proof -
  note c = cipher_opens_what_it_sealed[OF toy_aes_laws toy_adapter toy_random_full, of "''a secret''"]
  have "EncryptString toy_aes \<lparr>acKey = toy_key\<rparr> toy_random ''a secret'' \<noteq> None"
    using c by (auto simp: toy_random_def)
  with c show ?thesis by blast
qed

end
