(* ===== verification/ExternalRules.thy ===== *)
theory ExternalRules
  imports ExternalRuns OAuthClient AuthnLinks CipherAES
begin

text \<open>
  What a callback guarantees: which account a sign-in reaches, that a state
  works once and only for the flow it was signed for, what a link attaches to
  whom, and what an identity has to prove before the adapter reports it.
\<close>

section \<open>The parts of a callback\<close>

lemma lift_step_Inr: "lift_step f r = (Inr a, s) \<longleftrightarrow> r = (Inr a, s)"
  by (cases r) (auto simp: lift_step_def)

lemma Callback_success:
  assumes "Callback px cf rq idpID state code st = (Inr out, st')"
  obtains d event st1 idp info where "spendState px rq state idpID st = (Inr (d, event), st1)"
    "usable_provider px rq idpID (anAccounts st) = Inr idp"
    "sgExchange px idp code \<lparr>arState = state, arNonce = sdNonce d, arCodeVerifier = sdVerifier d\<rparr> = Inr info"
    "finish_event px cf rq idp info d event st1 = (Inr out, st')" "anService st1 = anService st"
proof -
  obtain d event st1 where s: "spendState px rq state idpID st = (Inr (d, event), st1)"
    and r: "(case usable_provider px rq idpID (anAccounts st1) of
          Inl e \<Rightarrow> fail_with e st1
        | Inr idp \<Rightarrow>
          (case sgExchange px idp code \<lparr>arState = state, arNonce = sdNonce d, arCodeVerifier = sdVerifier d\<rparr> of
             Inl e \<Rightarrow> fail_with e st1
           | Inr info \<Rightarrow> finish_event px cf rq idp info d event st1)) = (Inr out, st')"
    using assms by (auto simp: Callback_def then_do_Inr split: if_splits)
  have a: "anService st1 = anService st" using spendState_service[of px rq state idpID st] s by simp
  from that[OF s] r a show ?thesis by (auto split: sum.splits)
qed

lemma issueSession_user: "issueSession ap cf rq u st = Inr login \<Longrightarrow> loUserID login = usrID u"
  by (auto simp: issueSession_def and_then_Inr split: option.splits)

lemma LoginUserByID_success:
  assumes "LoginUserByID ap cf rq uid m st = (Inr login, st')" "cache_keyed (rqCache rq)"
  shows "loUserID login = uid \<and> IsUUIDV7 uid \<and> st' = st \<and> (\<exists>r. user_row_of uid (anAccounts st) = Some r \<and> \<not> rowDisabled r)"
proof -
  obtain u where u: "GetByID (rqCache rq) (rqFaults rq) uid (anAccounts st) = Inr u"
    "Standing (rqFaults rq) uid (anAccounts st) = Inr AccountActive" "issueSession ap cf rq u st = Inr login" "st' = st"
  proof -
    note l = assms(1)[unfolded LoginUserByID_def]
    have m: "m \<noteq> LoginMethodPassword" using l by auto
    note l = l[unfolded if_not_P[OF m]]
    obtain u where u: "GetByID (rqCache rq) (rqFaults rq) uid (anAccounts st) = Inr u"
      using l by (cases "GetByID (rqCache rq) (rqFaults rq) uid (anAccounts st)") auto
    obtain standing where s: "Standing (rqFaults rq) uid (anAccounts st) = Inr standing"
      using l u by (cases "Standing (rqFaults rq) uid (anAccounts st)") auto
    have "standing = AccountActive \<and> issueSession ap cf rq u st = Inr login \<and> st' = st"
      using l u s by (cases "standing \<noteq> AccountActive \<or> usrDisabled u = Some True") auto
    with that u s show thesis by blast
  qed
  have "IsUUIDV7 uid" using u(1) by (auto simp: GetByID_def split: if_splits)
  moreover have "\<exists>r. user_row_of uid (anAccounts st) = Some r \<and> \<not> rowDisabled r"
    using u(2) by (auto simp: Standing_def repo_SelectDisabled_def split: sum.splits account_error.splits if_splits option.splits)
  ultimately show ?thesis using GetByID_id[OF u(1) assms(2)] issueSession_user[OF u(3)] u(4) by simp
qed

lemma sign_in_as_success:
  assumes "sign_in_as px cf rq event uid st = (Inr out, st')" "cache_keyed (rqCache (sqAuthn rq))"
  shows "IsUUIDV7 uid \<and> st' = st \<and> cbEventType out = event \<and> (\<exists>login. cbLogin out = Some login \<and> loUserID login = uid)
    \<and> (\<exists>r. user_row_of uid (anAccounts st) = Some r \<and> \<not> rowDisabled r)"
proof -
  obtain login s where l: "LoginUserByID (sgAuthn px) (scAuthn cf) (sqAuthn rq) uid LoginMethodOAuth st = (Inr login, s)"
    and o: "out = \<lparr>cbLogin = Some login, cbEventType = event, cbLinked = uuid_nil\<rparr>" "st' = s"
    using assms(1) by (auto simp: sign_in_as_def then_do_Inr lift_step_Inr)
  from LoginUserByID_success[OF l assms(2)] o show ?thesis by simp
qed

section \<open>The account made for an identity\<close>

lemma repo_Insert_linked:
  assumes "repo_Insert env faults i a = (None, a')" "insIdentity i = Some n"
  shows "idUserID n = insID i \<and> user_row_of (insID i) a = None \<and> can_link a n \<and> acIdentities a' = identity_of_input n # acIdentities a
    \<and> acIdps a' = acIdps a
    \<and> (\<exists>r. user_row_of (insID i) a' = Some r \<and> \<not> rowAdmin r \<and> (\<forall>(k, q) \<in> set (acUsers a). rowEmail q \<noteq> rowEmail r)
          \<and> (\<forall>k. k \<noteq> insID i \<longrightarrow> user_row_of k a' = user_row_of k a))"
proof -
  obtain j where j: "InsertUserInput_Validate env i = Inr j"
    using repo_Insert_cases[OF assms(1)] by blast
  from InsertUserInput_Validate_identity[OF j] assms(2)
  have n: "insIdentity j = Some n" "insID j = insID i" "idUserID n = insID i" by auto
  note u = assms(1)[unfolded repo_Insert_def j sum.case Let_def n option.case]
  have f: "user_row_of (insID i) a = None" "\<not> list_ex (\<lambda>(_, r). rowEmail r = insEmail j) (acUsers a)" using u by (auto split: if_splits)
  obtain p where p: "map_of (acIdps a) (idIDPID n) = Some p" using u by (auto simp: set_row_def split: if_splits option.splits)
  have c: "can_link a n" using u p n by (auto simp: identity_fresh provider_unchanged_def idp_row_of_def set_row_def list_ex_iff split: if_splits)
  have a': "\<exists>rs. a' = (set_row (insID i) (inserted_row j) a)\<lparr>acUsersRoles := rs, acIdentities := identity_of_input n # acIdentities a\<rparr>"
    using u p n by (auto simp: identity_of_input_def set_row_def inserted_row_def split: if_splits)
  have "rowEmail (inserted_row j) = insEmail j" "\<not> rowAdmin (inserted_row j)" by (simp_all add: inserted_row_def)
  with f a' c n show ?thesis by (auto simp: list_ex_iff)
qed

lemma Create_linked:
  assumes "Create env bcrypt key fresh faults rf lf (Some i) s = (None, s')"
  shows "\<exists>h. repo_Insert env faults h (fst s) = (None, fst s') \<and> insID h = EnsureUUIDV7 fresh (insID i) \<and> insIdentity h = insIdentity i"
proof -
  obtain j h where j: "InsertUserInput_Validate env (i\<lparr>insID := EnsureUUIDV7 fresh (insID i)\<rparr>) = Inr j"
    "repo_Insert env faults (j\<lparr>insPasswordHash := h\<rparr>) (fst s) = (None, fst s')"
    using assms by (auto simp: Create_def split: sum.splits prod.splits option.splits)
  from InsertUserInput_Validate_identity[OF j(1)] j(2) show ?thesis by (intro exI[of _ "j\<lparr>insPasswordHash := h\<rparr>"]) simp
qed

lemma RegisterUserInput_Validate_keeps:
  "RegisterUserInput_Validate env i = Inr j \<Longrightarrow> rgID j = rgID i \<and> rgIdentity j = rgIdentity i \<and> rgMethod j = rgMethod i"
  by (auto simp: RegisterUserInput_Validate_def Let_def split: prod.splits if_splits)

lemma RegisterUser_linked:
  assumes "RegisterUser ap cf rq (Some i) st = (Inr u, st')" "IsUUIDV7 (rgID i)" "rgMethod i = RegisterMethodOAuth" "rgIdentity i = Some n"
  shows "\<exists>h. repo_Insert (apText ap) (rqFaults rq) h (anAccounts st) = (None, anAccounts st') \<and> insID h = rgID i
    \<and> insIdentity h = Some (n\<lparr>idUserID := rgID i\<rparr>) \<and> st' = st\<lparr>anService := anService st'\<rparr>"
proof -
  have v7: "EnsureUUIDV7 f (rgID i) = rgID i" for f using assms(2) by (auto simp: EnsureUUIDV7_def IsUUIDV7_def)
  obtain j where j: "RegisterUserInput_Validate (apText ap) i = Inr j"
    using assms(1) by (auto simp: RegisterUser_def v7 split: sum.splits)
  note k = RegisterUserInput_Validate_keeps[OF j]
  have m: "rgMethod j \<noteq> RegisterMethodPassword" using k assms(3) by (simp add: RegisterMethodOAuth_def RegisterMethodPassword_def)
  obtain sv where c: "Create (apText ap) (apBcrypt ap) (apKey ap) (rqFresh rq 1) (rqFaults rq) (rqReserve rq) (rqRelease rq)
      (Some (new_user j)) (anService st) = (None, sv)" "st' = st\<lparr>anService := sv\<rparr>"
    using assms(1) m by (auto simp: RegisterUser_def v7 j Let_def split: prod.splits option.splits account_error.splits if_splits)
  have "insID (new_user j) = rgID i" "insIdentity (new_user j) = Some (n\<lparr>idUserID := rgID i\<rparr>)"
    using k assms(4) by (simp_all add: new_user_def)
  with Create_linked[OF c(1)] c(2) v7 show ?thesis by auto
qed

section \<open>Which account a sign-in reaches\<close>

definition linked_as :: "accounts_state \<Rightarrow> uuid \<Rightarrow> uuid \<Rightarrow> string \<Rightarrow> bool" where
  "linked_as a uid idp subject \<longleftrightarrow> (\<exists>n \<in> set (acIdentities a). idnUser n = uid \<and> idnIDP n = idp \<and> idnSubject n = subject)"

lemma SelectBySubject_Inr:
  assumes "repo_SelectBySubject io faults idp type issuer subject a = Inr identity"
  shows "linked_as a (uiUserID identity) idp subject \<and> provider_unchanged idp type issuer a"
proof -
  obtain ns where m: "List.map_filter (joined_identity io a)
      (filter (\<lambda>n. idnIDP n = idp \<and> idnSubject n = subject \<and> provider_unchanged idp type issuer a) (acIdentities a)) = identity # ns"
    using assms by (auto simp: repo_SelectBySubject_def split: if_splits list.splits)
  have "identity \<in> set (identity # ns)" by simp
  then obtain n where n: "n \<in> set (acIdentities a)" "idnIDP n = idp" "idnSubject n = subject" "provider_unchanged idp type issuer a"
    "joined_identity io a n = Some identity"
    unfolding m[symmetric] by (auto simp: List.map_filter_def)
  then have "uiUserID identity = idnUser n" by (auto simp: joined_identity_def split: option.splits)
  with n show ?thesis by (auto simp: linked_as_def)
qed

text \<open>What reaching an account through an identity means, from the tables before to the tables after.\<close>

definition reached :: "IDP \<Rightarrow> UserInfo \<Rightarrow> uuid \<Rightarrow> accounts_state \<Rightarrow> accounts_state \<Rightarrow> bool" where
  "reached idp info uid a a' \<longleftrightarrow> provider_unchanged (ipID idp) (itID (ipType idp)) (ipIssuerURL idp) a
     \<and> linked_as a' uid (ipID idp) (uinSubject info)
     \<and> (\<exists>r. user_row_of uid a' = Some r \<and> \<not> rowDisabled r
         \<and> (a' = a \<or> (user_row_of uid a = None \<and> ipAutoProvision idp \<and> uinEmailVerified info \<and> \<not> rowAdmin r
               \<and> (\<forall>(k, q) \<in> set (acUsers a). rowEmail q \<noteq> rowEmail r)
               \<and> (\<forall>k. k \<noteq> uid \<longrightarrow> user_row_of k a' = user_row_of k a))))"

lemma provision_success:
  assumes "provision px cf rq idp info event st = (Inr out, st')" "cache_keyed (rqCache (sqAuthn rq))"
  shows "\<exists>login. cbLogin out = Some login \<and> reached idp info (loUserID login) (anAccounts st) (anAccounts st')"
proof -
  obtain email st1 where e: "may_provision px rq idp info (anAccounts st) = Inr email"
    and r: "RegisterUser (sgAuthn px) (scAuthn cf) (sqAuthn rq) (Some (provisioned rq idp info email)) st = (Inr (), st1)"
    and l: "sign_in_as px cf rq event (sqUserID rq) st1 = (Inr out, st')"
    using assms(1) by (auto simp: provision_def then_do_Inr lift_step_Inr split: sum.splits)
  from sign_in_as_success[OF l assms(2)] obtain login q where s: "IsUUIDV7 (sqUserID rq)" "st' = st1" "cbLogin out = Some login"
    "loUserID login = sqUserID rq" "user_row_of (sqUserID rq) (anAccounts st1) = Some q" "\<not> rowDisabled q" by auto
  have ok: "ipAutoProvision idp" "uinEmailVerified info" using e by (auto simp: may_provision_def split: if_splits)
  obtain n where n: "rgIdentity (provisioned rq idp info email) = Some n" "idIDPID n = ipID idp" "idSubject n = uinSubject info"
    "idIDPTypeID n = itID (ipType idp)" "idIssuerURL n = ipIssuerURL idp" by (simp add: provisioned_def)
  have p: "rgID (provisioned rq idp info email) = sqUserID rq" "rgMethod (provisioned rq idp info email) = RegisterMethodOAuth"
    by (simp_all add: provisioned_def)
  obtain h where h: "repo_Insert (apText (sgAuthn px)) (rqFaults (sqAuthn rq)) h (anAccounts st) = (None, anAccounts st1)"
    "insID h = sqUserID rq" "insIdentity h = Some (n\<lparr>idUserID := sqUserID rq\<rparr>)"
    using RegisterUser_linked[OF r] p n(1) s(1) by auto
  from repo_Insert_linked[OF h(1,3)] h(2) s n ok show ?thesis
    by (auto simp: reached_def linked_as_def can_link_def)
qed

lemma signIn_success:
  assumes "signIn px cf rq idp info event st = (Inr out, st')" "cache_keyed (rqCache (sqAuthn rq))"
  shows "\<exists>login. cbLogin out = Some login \<and> reached idp info (loUserID login) (anAccounts st) (anAccounts st')"
proof (cases "repo_SelectBySubject (sgIdp px) (iqFaults (sqIdp rq)) (ipID idp) (itID (ipType idp)) (ipIssuerURL idp) (uinSubject info) (anAccounts st)")
  case (Inr identity)
  with assms(1) have "sign_in_as px cf rq event (uiUserID identity) st = (Inr out, st')" by (simp add: signIn_def)
  from sign_in_as_success[OF this assms(2)] SelectBySubject_Inr[OF Inr] show ?thesis by (auto simp: reached_def)
next
  case (Inl e)
  with assms(1) have "provision px cf rq idp info event st = (Inr out, st')" by (auto simp: signIn_def split: idp_error.splits)
  from provision_success[OF this assms(2)] show ?thesis .
qed

text \<open>
  C3. No sign-in takes an account over: a callback that issues a session
  exchanged the code at the enabled provider it arrived at, whose type and
  issuer are still those stored, and the session is of the enabled account
  linked to that provider's subject.  Either nothing was written, or the
  account is new, made because the provider may provision and vouches for the
  address, under an address no account had, without the admin flag, and with
  every other account as it was.  The address the provider names never selects
  an account.
\<close>

theorem sign_in_reaches_only_the_linked_account:
  assumes "Callback px cf rq idpID state code st = (Inr out, st')" "cbLogin out = Some login" "cache_keyed (rqCache (sqAuthn rq))"
  shows "\<exists>idp info d event. fst (spendState px rq state idpID st) = Inr (d, event) \<and> event \<noteq> IDPEventTypeLink
    \<and> usable_provider px rq idpID (anAccounts st) = Inr idp
    \<and> sgExchange px idp code \<lparr>arState = state, arNonce = sdNonce d, arCodeVerifier = sdVerifier d\<rparr> = Inr info
    \<and> reached idp info (loUserID login) (anAccounts st) (anAccounts st')"
  using assms(1)
proof (rule Callback_success)
  fix d event st1 idp info
  assume k: "spendState px rq state idpID st = (Inr (d, event), st1)"
    and p: "usable_provider px rq idpID (anAccounts st) = Inr idp"
    "sgExchange px idp code \<lparr>arState = state, arNonce = sdNonce d, arCodeVerifier = sdVerifier d\<rparr> = Inr info"
    and f: "finish_event px cf rq idp info d event st1 = (Inr out, st')" and a: "anService st1 = anService st"
  have e: "event \<noteq> IDPEventTypeLink"
    using f assms(2) by (auto simp: finish_event_def link_identity_def split: if_splits sum.splits prod.splits option.splits)
  with f have "signIn px cf rq idp info event st1 = (Inr out, st')" by (simp add: finish_event_def)
  from signIn_success[OF this assms(3)] a assms(2) have "reached idp info (loUserID login) (anAccounts st) (anAccounts st')" by auto
  with p k e show ?thesis by (intro exI[of _ idp] exI[of _ info] exI[of _ d] exI[of _ event]) simp
qed

section \<open>A state works once\<close>

lemma spendState_accepted:
  assumes "spendState px rq state idpID st = (Inr x, st')"
  obtains c tt jti e where "apVerify (sgAuthn px) (rqNow (sqAuthn rq)) state = Inr c" "read_state rq c idpID = Inr (tt, snd x, jti, e)"
    "open_state px c = Inr (fst x)"
    "dl_spend (rqStore (sqAuthn rq) CConsume, rqDBNow (sqAuthn rq), uuid_nil, tt) jti e (anDenylist st) = (Inr True, anDenylist st')"
proof -
  obtain c where c: "apVerify (sgAuthn px) (rqNow (sqAuthn rq)) state = Inr c" using assms by (auto simp: spendState_def split: sum.splits)
  obtain tt event jti e where r: "read_state rq c idpID = Inr (tt, event, jti, e)"
    using assms c by (auto simp: spendState_def split: sum.splits)
  note s = assms[unfolded spendState_def c r sum.case prod.case]
  obtain first_use d where k: "dl_Consume (rqStore (sqAuthn rq) CConsume) (rqDBNow (sqAuthn rq)) jti uuid_nil tt e (anDenylist st) = (Inr first_use, d)"
    using s by (auto split: prod.splits sum.splits)
  with s have f: "first_use" "anDenylist st' = d" "map_sum (\<lambda>e. e) (\<lambda>x. (x, event)) (open_state px c) = Inr x" by (auto split: if_splits)
  then obtain y where "open_state px c = Inr y" "x = (y, event)" by (cases "open_state px c") auto
  with that[OF c] r k f show ?thesis by (simp add: dl_spend_def)
qed

lemma read_state_claims:
  assumes "read_state rq c idpID = Inr (tt, event, jti, e)"
  shows "uuid_parse (claimString c ''jti'') = Some jti \<and> (\<forall>e'. claimExpiry c = Some e' \<longrightarrow> e = e')
    \<and> tt = claimString c ''token_type'' \<and> event_of_token tt = Some event \<and> claimString c ''sub'' = event \<and> claimString c ''idp'' = uuid_string idpID"
  using assms by (auto simp: read_state_def split: option.splits if_splits)

lemma Callback_needs_state:
  "(\<And>y. fst (spendState px rq state idpID st) \<noteq> Inr y) \<Longrightarrow>
     (\<forall>out. fst (Callback px cf rq idpID state code st) \<noteq> Inr out) \<and> anService (snd (Callback px cf rq idpID state code st)) = anService st
     \<and> (\<forall>u. fst (AbandonCallback px rq idpID state st) \<noteq> Inr u)"
  using spendState_service[of px rq state idpID st]
  by (auto simp: Callback_def AbandonCallback_def then_do_cases split: sum.splits)

text \<open>
  C9. The state of a flow works once.  Once a callback, finished or
  abandoned, was let through with it, whatever came of the exchange, no
  callback at any provider is let through with it again until the state
  expires: it fails, and no account, identity or provider changes.  That
  holds whatever happens to the denylist in between and whichever of its
  statements fail.
\<close>

theorem oauth_state_works_once:
  assumes "spendState px rq state idpID st = (Inr x, st')"
    and "\<forall>now r. apVerify (sgAuthn px) now state = Inr r \<longrightarrow> r = c" "claimExpiry c = Some e"
    and "list_all (\<lambda>(at, _). at < e) ops" "anDenylist later = dl_run ops (anDenylist st')"
  shows "(\<forall>out. fst (Callback px cf rq' idpID' state code later) \<noteq> Inr out)
    \<and> anService (snd (Callback px cf rq' idpID' state code later)) = anService later
    \<and> (\<forall>u. fst (AbandonCallback px rq' idpID' state later) \<noteq> Inr u)"
proof -
  have "fst (spendState px rq' state idpID' later) \<noteq> Inr y" for y
  proof
    assume "fst (spendState px rq' state idpID' later) = Inr y"
    then obtain later' where l: "spendState px rq' state idpID' later = (Inr y, later')" by (metis prod.collapse)
    from assms(1) obtain tt jti where s: "read_state rq c idpID = Inr (tt, snd x, jti, e)"
      "dl_spend (rqStore (sqAuthn rq) CConsume, rqDBNow (sqAuthn rq), uuid_nil, tt) jti e (anDenylist st) = (Inr True, anDenylist st')"
      by (rule spendState_accepted) (use assms(2,3) read_state_claims in blast)
    from l obtain tt' jti' e' where t: "read_state rq' c idpID' = Inr (tt', snd y, jti', e')"
      "dl_spend (rqStore (sqAuthn rq') CConsume, rqDBNow (sqAuthn rq'), uuid_nil, tt') jti' e' (anDenylist later) = (Inr True, anDenylist later')"
      by (rule spendState_accepted) (use assms(2) in blast)
    have "jti' = jti" using read_state_claims[OF s(1)] read_state_claims[OF t(1)] by simp
    with t(2) denylist.never_again[OF s(2) assms(4)] assms(5) show False by (metis denylist_run fst_conv)
  qed
  then show ?thesis using Callback_needs_state[of px rq' state idpID' later] by blast
qed

section \<open>A state belongs to its flow\<close>

text \<open>
  What the flow relies on: the cipher opens what it sealed, which is never
  empty, JSON reads back what it wrote, and the signer reads back the states
  it signed for this service, until they expire and as nothing else.
\<close>

definition flow_laws :: "AuthnIDPsServiceConf \<Rightarrow> 'l signin_ports \<Rightarrow> bool" where
  "flow_laws cf px \<longleftrightarrow>
     (\<forall>d s. ipEncrypt (sgIdp px) (sgMarshal px d) = Some s \<longrightarrow> s \<noteq> [] \<and> ipDecrypt (sgIdp px) s = Some (sgMarshal px d))
   \<and> (\<forall>d. sgUnmarshal px (sgMarshal px d) = Some d)
   \<and> (\<forall>now u c token later. apSign (sgAuthn px) now u c = Inr token \<longrightarrow> jcIssuer c = AuthnIDPsServiceConf.scIssuer cf \<longrightarrow>
        (later < token_expiry now c \<longrightarrow> apVerify (sgAuthn px) later token = Inr (tokenCustomClaims now (token_id u c) c))
        \<and> (\<forall>r. apVerify (sgAuthn px) later token = Inr r \<longrightarrow> r = tokenCustomClaims now (token_id u c) c))"

text \<open>
  The service as it is wired: the signer of \<open>tokenjwt\<close>, of the same issuer as
  the sign-ins, and the cipher of \<open>cipheraes\<close>, each draw of random bytes its
  own; outside them are the libraries of both and JSON.
\<close>

definition wired :: "('k, 'p) jwt_lib \<Rightarrow> SignerConfig \<Rightarrow> ('b, 'g) aes_lib \<Rightarrow> string \<Rightarrow> AuthnIDPsServiceConf \<Rightarrow> 'l signin_ports \<Rightarrow> bool" where
  "wired jlib conf alib key cf px \<longleftrightarrow>
     (\<exists>s. NewSigner jlib conf = Inr s \<and> SignerConfig.scIssuer conf = AuthnIDPsServiceConf.scIssuer cf
        \<and> apSign (sgAuthn px) = Sign jlib s \<and> apVerify (sgAuthn px) = VerifyToken jlib s)
   \<and> (\<exists>a. NewCipherAdapter key = Inr a \<and> ipDecrypt (sgIdp px) = DecryptString alib a
        \<and> (\<forall>p. \<exists>random. reads_full random \<and> ipEncrypt (sgIdp px) p = EncryptString alib a random p))
   \<and> (\<forall>d. sgUnmarshal px (sgMarshal px d) = Some d)"

lemma wired_flow_laws:
  assumes "jwt_laws jlib" "thumbprints_differ jlib" "aes_laws alib" and w: "wired jlib conf alib key cf px"
  shows "flow_laws cf px"
proof -
  obtain s where s: "NewSigner jlib conf = Inr s" "SignerConfig.scIssuer conf = AuthnIDPsServiceConf.scIssuer cf"
    "apSign (sgAuthn px) = Sign jlib s" "apVerify (sgAuthn px) = VerifyToken jlib s" using w unfolding wired_def by blast
  obtain a where a: "ipDecrypt (sgIdp px) = DecryptString alib a"
    "\<And>p. \<exists>random. reads_full random \<and> ipEncrypt (sgIdp px) p = EncryptString alib a random p" using w unfolding wired_def by blast
  have c: "x \<noteq> [] \<and> ipDecrypt (sgIdp px) x = Some p" if sealed: "ipEncrypt (sgIdp px) p = Some x" for p x
  proof -
    obtain random where "reads_full random" "EncryptString alib a random p = Some x" using a(2)[of p] sealed by metis
    from Encrypt_Decrypt[OF assms(3) this] show ?thesis by (simp add: a(1))
  qed
  have v: "apVerify (sgAuthn px) later token = Inr (tokenCustomClaims now (token_id u c) c)"
    if "apSign (sgAuthn px) now u c = Inr token" "jcIssuer c = AuthnIDPsServiceConf.scIssuer cf" "later < token_expiry now c" for now u c token later
    using that s signed_verifies[OF assms(1,2) s(1,1) _ _ _ that(3), of u token] by auto
  have n: "r = tokenCustomClaims now (token_id u c) c"
    if "apSign (sgAuthn px) now u c = Inr token" "apVerify (sgAuthn px) later token = Inr r" for now u c token later r
    using that s verified_was_signed[OF assms(1)] by metis
  show ?thesis unfolding flow_laws_def using c v n w[unfolded wired_def] by blast
qed

lemma flow_signed:
  assumes "flow_laws cf px" "apSign (sgAuthn px) now u (state_claims cf idpID event tt d sealed) = Inr token"
  shows "later < token_expiry now (state_claims cf idpID event tt d sealed) \<Longrightarrow> apVerify (sgAuthn px) later token
      = Inr (tokenCustomClaims now (token_id u (state_claims cf idpID event tt d sealed)) (state_claims cf idpID event tt d sealed))"
    "apVerify (sgAuthn px) later token = Inr r \<Longrightarrow>
      r = tokenCustomClaims now (token_id u (state_claims cf idpID event tt d sealed)) (state_claims cf idpID event tt d sealed)"
proof -
  have i: "jcIssuer (state_claims cf idpID event tt d sealed) = AuthnIDPsServiceConf.scIssuer cf" by (simp add: state_claims_def)
  note l = assms(1)[unfolded flow_laws_def, THEN conjunct2, THEN conjunct2, rule_format, OF assms(2) i, of later]
  show "later < token_expiry now (state_claims cf idpID event tt d sealed) \<Longrightarrow> apVerify (sgAuthn px) later token
      = Inr (tokenCustomClaims now (token_id u (state_claims cf idpID event tt d sealed)) (state_claims cf idpID event tt d sealed))"
    using l by blast
  show "apVerify (sgAuthn px) later token = Inr r \<Longrightarrow>
      r = tokenCustomClaims now (token_id u (state_claims cf idpID event tt d sealed)) (state_claims cf idpID event tt d sealed)"
    using l by blast
qed

lemma event_token_inverse: "event_token event uid = Inr (tt, d) \<Longrightarrow> event_of_token tt = Some event \<and> storable_type tt \<and> event \<noteq> []"
  by (auto simp: event_token_def event_of_token_def event_defs token_types TokenType_IsValid_def storable_type_def split: if_splits)

lemma uuid_string_inj: "uuid_string u = uuid_string v \<longleftrightarrow> u = v"
  using uuid_parse_string by (metis option.inject)

lemma b64_raw_url_nonempty: "s \<noteq> [] \<Longrightarrow> b64_raw_url s \<noteq> []"
proof -
  have "byte_of x div 4 < 64" for x using byte_less[of x] by (simp add: less_mult_imp_div_less)
  then have "\<exists>c cs. b64_encode (x # xs) = c # cs \<and> c \<noteq> CHR ''=''" for x xs
    by (cases "x # xs" rule: b64_encode.cases) (auto simp: b64_char_not)
  moreover assume "s \<noteq> []"
  then obtain x xs where "s = x # xs" by (cases s) auto
  ultimately obtain c cs where "b64_encode s = c # cs" "c \<noteq> CHR ''=''" by blast
  then show ?thesis by (simp add: b64_raw_url_def)
qed

definition flow_claims :: "AuthnIDPsServiceConf \<Rightarrow> signin_request \<Rightarrow> uuid \<Rightarrow> string \<Rightarrow> TokenType \<Rightarrow> duration \<Rightarrow> string \<Rightarrow> claims" where
  "flow_claims cf rq idpID event tt d sealed = tokenCustomClaims (rqNow (sqAuthn rq)) (sqJTI rq) (state_claims cf idpID event tt d sealed)"

lemma flow_claims_read:
  assumes "event_token event uid = Inr (tt, d)" "sealed \<noteq> []"
  shows "\<exists>e. read_state rq' (flow_claims cf rq idpID event tt d sealed) k =
      (if k = idpID then Inr (tt, event, sqJTI rq, e) else Inl bad_state)"
    "claimString (flow_claims cf rq idpID event tt d sealed) ''data'' = sealed"
proof -
  have c: "claimString (flow_claims cf rq idpID event tt d sealed) ''token_type'' = tt"
    "claimString (flow_claims cf rq idpID event tt d sealed) ''sub'' = event"
    "claimString (flow_claims cf rq idpID event tt d sealed) ''idp'' = uuid_string idpID"
    "claimString (flow_claims cf rq idpID event tt d sealed) ''jti'' = uuid_string (sqJTI rq)"
    using uuid_string_nonempty by (simp_all add: flow_claims_def state_claims_def claimString_def claim_text_def omit_empty_def)
  show "\<exists>e. read_state rq' (flow_claims cf rq idpID event tt d sealed) k =
      (if k = idpID then Inr (tt, event, sqJTI rq, e) else Inl bad_state)"
    using event_token_inverse[OF assms(1)] by (cases "k = idpID") (simp_all add: read_state_def c uuid_string_inj uuid_parse_string)
  show "claimString (flow_claims cf rq idpID event tt d sealed) ''data'' = sealed"
    using assms(2) by (simp add: flow_claims_def state_claims_def claimString_def claim_text_def omit_empty_def)
qed

lemma GetLoginURL_success:
  assumes "GetLoginURL px cf rq idpID event uid st = Inr url"
  obtains tt d idp sealed token where "event_token event uid = Inr (tt, d)" "usable_provider px rq idpID (anAccounts st) = Inr idp"
    "ipEncrypt (sgIdp px) (sgMarshal px \<lparr>sdVerifier = randomToken (sqVerifier rq), sdNonce = randomToken (sqNonce rq), sdUserID = uid\<rparr>) = Some sealed"
    "apSign (sgAuthn px) (rqNow (sqAuthn rq)) (sqJTI rq) (state_claims cf idpID event tt d sealed) = Inr token"
    "sgCodeURL px idp \<lparr>arState = token, arNonce = randomToken (sqNonce rq), arCodeVerifier = randomToken (sqVerifier rq)\<rparr> = Inr url"
  using assms that by (auto simp: GetLoginURL_def and_then_Inr seal_state_def split: if_splits option.splits)

text \<open>The state of a flow as the provider was sent it, and what it was started with.\<close>

definition carried :: "signin_request \<Rightarrow> uuid \<Rightarrow> stateData" where
  "carried rq uid = \<lparr>sdVerifier = randomToken (sqVerifier rq), sdNonce = randomToken (sqNonce rq), sdUserID = uid\<rparr>"

definition sent_request :: "signin_request \<Rightarrow> string \<Rightarrow> AuthRequest" where
  "sent_request rq token = \<lparr>arState = token, arNonce = randomToken (sqNonce rq), arCodeVerifier = randomToken (sqVerifier rq)\<rparr>"

text \<open>A state signed for a flow: what it carries, that only its provider accepts it, and that its provider does.\<close>

definition minted_state ::
  "'l signin_ports \<Rightarrow> AuthnIDPsServiceConf \<Rightarrow> signin_request \<Rightarrow> uuid \<Rightarrow> string \<Rightarrow> uuid \<Rightarrow> TokenType \<Rightarrow> duration \<Rightarrow> string \<Rightarrow> string \<Rightarrow> bool" where
  "minted_state px cf rq idpID event uid tt d sealed token \<longleftrightarrow>
     flow_laws cf px \<and> event_token event uid = Inr (tt, d) \<and> sqVerifier rq \<noteq> [] \<and> sqNonce rq \<noteq> []
     \<and> ipEncrypt (sgIdp px) (sgMarshal px (carried rq uid)) = Some sealed
     \<and> apSign (sgAuthn px) (rqNow (sqAuthn rq)) (sqJTI rq) (state_claims cf idpID event tt d sealed) = Inr token"

lemma minted_opens:
  assumes "minted_state px cf rq idpID event uid tt d sealed token"
  shows "sealed \<noteq> []" "open_state px (flow_claims cf rq idpID event tt d sealed) = Inr (carried rq uid)"
    "\<exists>e. read_state rq' (flow_claims cf rq idpID event tt d sealed) k = (if k = idpID then Inr (tt, event, sqJTI rq, e) else Inl bad_state)"
proof -
  note m = assms[unfolded minted_state_def]
  have o: "sealed \<noteq> []" "ipDecrypt (sgIdp px) sealed = Some (sgMarshal px (carried rq uid))" "sgUnmarshal px (sgMarshal px y) = Some y" for y
    using m by (auto simp: flow_laws_def)
  show "sealed \<noteq> []" by (rule o)
  have r: "event_token event uid = Inr (tt, d)" using m by simp
  show "\<exists>e. read_state rq' (flow_claims cf rq idpID event tt d sealed) k = (if k = idpID then Inr (tt, event, sqJTI rq, e) else Inl bad_state)"
    by (rule flow_claims_read(1)[OF r o(1)])
  show "open_state px (flow_claims cf rq idpID event tt d sealed) = Inr (carried rq uid)"
    using flow_claims_read(2)[OF r o(1)] o m b64_raw_url_nonempty
    by (simp add: open_state_def unseal_state_def carried_def randomToken_def)
qed

lemma minted_verifies:
  assumes "minted_state px cf rq idpID event uid tt d sealed token"
  shows "later < (rqNow (sqAuthn rq) + d) div second * second \<Longrightarrow> apVerify (sgAuthn px) later token = Inr (flow_claims cf rq idpID event tt d sealed)"
    "apVerify (sgAuthn px) later token = Inr r \<Longrightarrow> r = flow_claims cf rq idpID event tt d sealed"
proof -
  have laws: "flow_laws cf px" and signed: "apSign (sgAuthn px) (rqNow (sqAuthn rq)) (sqJTI rq) (state_claims cf idpID event tt d sealed) = Inr token"
    using assms by (simp_all add: minted_state_def)
  have t: "token_id (sqJTI rq) (state_claims cf idpID event tt d sealed) = sqJTI rq" by (simp add: token_id_def state_claims_def)
  note law = flow_signed[OF laws signed, unfolded t, folded flow_claims_def]
  show "apVerify (sgAuthn px) later token = Inr (flow_claims cf rq idpID event tt d sealed)"
    if "later < (rqNow (sqAuthn rq) + d) div second * second"
    using law(1)[of later] that by (simp add: token_expiry_def unix_seconds_def state_claims_def)
  show "r = flow_claims cf rq idpID event tt d sealed" if "apVerify (sgAuthn px) later token = Inr r" using law(2)[OF that] .
qed

lemma minted_only_its_flow:
  assumes "minted_state px cf rq idpID event uid tt d sealed token" "spendState px rq' token k s = (Inr x, s')"
  shows "k = idpID \<and> x = (carried rq uid, event)"
  using assms(2)
proof (rule spendState_accepted)
  fix c' tt' jti e' assume a: "apVerify (sgAuthn px) (rqNow (sqAuthn rq')) token = Inr c'"
    "read_state rq' c' k = Inr (tt', snd x, jti, e')" "open_state px c' = Inr (fst x)"
  with minted_verifies(2)[OF assms(1)] have "c' = flow_claims cf rq idpID event tt d sealed" by blast
  with a minted_opens(2)[OF assms(1)] minted_opens(3)[OF assms(1), of rq' k] show ?thesis by (auto split: if_splits simp: prod_eq_iff)
qed

lemma minted_accepted:
  assumes "minted_state px cf rq idpID event uid tt d sealed token"
    and "rqNow (sqAuthn rq') < (rqNow (sqAuthn rq) + d) div second * second" "rqStore (sqAuthn rq') CConsume = Done"
    and "sqJTI rq \<noteq> uuid_nil" "map_of (anDenylist s) (sqJTI rq) = None"
  shows "fst (spendState px rq' token idpID s) = Inr (carried rq uid, event)"
proof -
  have event: "event_token event uid = Inr (tt, d)" using assms(1) by (simp add: minted_state_def)
  obtain e' where r: "read_state rq' (flow_claims cf rq idpID event tt d sealed) idpID = Inr (tt, event, sqJTI rq, e')"
    using minted_opens(3)[OF assms(1), of rq' idpID] by auto
  have "\<exists>dl. dl_Consume Done (rqDBNow (sqAuthn rq')) (sqJTI rq) uuid_nil tt e' (anDenylist s) = (Inr True, dl)"
    using assms(4,5) event_token_inverse[OF event] by (simp add: dl_Consume_def exec_insert_def insert_row_def storable_type_def)
  then show ?thesis
    using minted_verifies(1)[OF assms(1,2)] minted_opens(2)[OF assms(1)] r assms(3) by (auto simp: spendState_def)
qed

lemma GetLoginURL_mints:
  assumes "flow_laws cf px" "GetLoginURL px cf rq idpID event uid st = Inr url" "sqVerifier rq \<noteq> []" "sqNonce rq \<noteq> []"
  obtains tt d idp sealed token where "event_token event uid = Inr (tt, d)" "usable_provider px rq idpID (anAccounts st) = Inr idp"
    "minted_state px cf rq idpID event uid tt d sealed token" "sgCodeURL px idp (sent_request rq token) = Inr url"
  using assms(2)
proof (rule GetLoginURL_success)
  fix tt d idp sealed token
  assume a: "event_token event uid = Inr (tt, d)" "usable_provider px rq idpID (anAccounts st) = Inr idp"
    "ipEncrypt (sgIdp px) (sgMarshal px \<lparr>sdVerifier = randomToken (sqVerifier rq), sdNonce = randomToken (sqNonce rq), sdUserID = uid\<rparr>) = Some sealed"
    "apSign (sgAuthn px) (rqNow (sqAuthn rq)) (sqJTI rq) (state_claims cf idpID event tt d sealed) = Inr token"
    "sgCodeURL px idp \<lparr>arState = token, arNonce = randomToken (sqNonce rq), arCodeVerifier = randomToken (sqVerifier rq)\<rparr> = Inr url"
  then have "minted_state px cf rq idpID event uid tt d sealed token"
    using assms(1,3,4) by (simp add: minted_state_def carried_def)
  with that a show ?thesis by (simp add: sent_request_def)
qed

text \<open>
  C18. A state belongs to the flow it was signed for.  With the service wired
  to its signer and its cipher, what \<open>GetLoginURL\<close> sends to the provider comes
  back as it was: a callback at that provider, in time, finds it unspent and
  reads the event, the verifier, the nonce and the account the flow was
  started with; and no callback ever reads anything else from it, or is let
  through with it at another provider.
\<close>

theorem state_belongs_to_its_flow:
  assumes "jwt_laws jlib" "thumbprints_differ jlib" "aes_laws alib" and "wired jlib conf alib key cf px"
    and "GetLoginURL px cf rq idpID event uid st = Inr url" "sqVerifier rq \<noteq> []" "sqNonce rq \<noteq> []"
  shows "\<exists>token idp d tt. sgCodeURL px idp (sent_request rq token) = Inr url \<and> usable_provider px rq idpID (anAccounts st) = Inr idp
    \<and> event_token event uid = Inr (tt, d)
    \<and> (\<forall>rq' s k x s'. spendState px rq' token k s = (Inr x, s') \<longrightarrow> k = idpID \<and> x = (carried rq uid, event))
    \<and> (\<forall>rq' s. rqNow (sqAuthn rq') < (rqNow (sqAuthn rq) + d) div second * second \<longrightarrow> rqStore (sqAuthn rq') CConsume = Done \<longrightarrow>
         sqJTI rq \<noteq> uuid_nil \<longrightarrow> map_of (anDenylist s) (sqJTI rq) = None \<longrightarrow>
         fst (spendState px rq' token idpID s) = Inr (carried rq uid, event))"
  using wired_flow_laws[OF assms(1-4)] assms(5-7)
proof (rule GetLoginURL_mints)
  fix tt d idp sealed token
  assume e: "event_token event uid = Inr (tt, d)" "usable_provider px rq idpID (anAccounts st) = Inr idp"
    "sgCodeURL px idp (sent_request rq token) = Inr url" and m: "minted_state px cf rq idpID event uid tt d sealed token"
  from e minted_only_its_flow[OF m] minted_accepted[OF m] show ?thesis
    by (intro exI[of _ token] exI[of _ idp] exI[of _ d] exI[of _ tt]) blast
qed

section \<open>What a link attaches\<close>

text \<open>
  C24. A link attaches one identity to the account its state names, and does
  nothing else: the subject the provider answered with was nobody's, the
  account had no identity there, the provider is as it was when the code was
  exchanged, and no other table, row or identity changes.
\<close>

theorem link_attaches_one_free_identity:
  assumes "Callback px cf rq idpID state code st = (Inr out, st')" "cbLogin out = None"
  shows "\<exists>d idp info. fst (spendState px rq state idpID st) = Inr (d, IDPEventTypeLink)
    \<and> usable_provider px rq idpID (anAccounts st) = Inr idp
    \<and> sgExchange px idp code \<lparr>arState = state, arNonce = sdNonce d, arCodeVerifier = sdVerifier d\<rparr> = Inr info
    \<and> cbLinked out = sdUserID d \<and> user_row_of (sdUserID d) (anAccounts st) \<noteq> None
    \<and> can_link (anAccounts st) (link_input idp info (sdUserID d))
    \<and> anAccounts st' = (anAccounts st)\<lparr>acIdentities := identity_of_input (link_input idp info (sdUserID d)) # acIdentities (anAccounts st)\<rparr>"
  using assms(1)
proof (rule Callback_success)
  fix d event st1 idp info
  assume k: "spendState px rq state idpID st = (Inr (d, event), st1)"
    and p: "usable_provider px rq idpID (anAccounts st) = Inr idp"
    "sgExchange px idp code \<lparr>arState = state, arNonce = sdNonce d, arCodeVerifier = sdVerifier d\<rparr> = Inr info"
    and f: "finish_event px cf rq idp info d event st1 = (Inr out, st')" and a: "anService st1 = anService st"
  have e: "event = IDPEventTypeLink"
  proof (rule ccontr)
    assume "event \<noteq> IDPEventTypeLink"
    with f have f: "signIn px cf rq idp info event st1 = (Inr out, st')" by (simp add: finish_event_def)
    have "cbLogin out \<noteq> None" if "sign_in_as px cf rq event uid s = (Inr out, s')" for uid s s'
      using that by (auto simp: sign_in_as_def then_do_Inr)
    with f assms(2) show False
      by (auto simp: signIn_def provision_def then_do_Inr split: sum.splits idp_error.splits)
  qed
  with f have l: "link_identity rq idp info (sdUserID d) st1 = (Inr out, st')" by (simp add: finish_event_def)
  obtain a' where r: "repo_Link (iqFaults (sqIdp rq)) (link_input idp info (sdUserID d)) (anAccounts st1) = (None, a')"
    "anAccounts st' = a'" "cbLinked out = sdUserID d"
    using l by (auto simp: link_identity_def split: if_splits sum.splits prod.splits option.splits)
  from repo_Link_cases[OF r(1)] have "can_link (anAccounts st) (link_input idp info (sdUserID d))"
    "user_row_of (sdUserID d) (anAccounts st) \<noteq> None"
    "anAccounts st' = (anAccounts st)\<lparr>acIdentities := identity_of_input (link_input idp info (sdUserID d)) # acIdentities (anAccounts st)\<rparr>"
    using r(2) a by (auto simp: link_input_def)
  with k p e r(3) show ?thesis by (intro exI[of _ d] exI[of _ idp] exI[of _ info]) simp
qed

section \<open>What the adapter asks of a provider\<close>

lemma case_fail_Inr:
  "(case r of Inl e \<Rightarrow> fail_with (f e) s | Inr a \<Rightarrow> g a) = (Inr b, s') \<longleftrightarrow> (\<exists>a. r = Inr a \<and> g a = (Inr b, s'))"
  by (cases r) auto

lemma discover_Inr: "discover ol idp cache = (Inr p, cache') \<Longrightarrow>
   cache (ipIssuerURL idp) = Some p \<or> olNewProvider ol (ipIssuerURL idp) = Inr p"
  by (auto simp: discover_def split: option.splits sum.splits)

text \<open>A cache of discovered providers holds under an issuer what discovery answered for that issuer.\<close>

definition discovered :: "('p, 't) oauth_lib \<Rightarrow> 'p providers \<Rightarrow> bool" where
  "discovered ol cache \<longleftrightarrow> (\<forall>issuer p. cache issuer = Some p \<longrightarrow> olNewProvider ol issuer = Inr p)"

lemma discover_keeps: "discover ol idp cache = (r, cache') \<Longrightarrow> discovered ol cache \<Longrightarrow> discovered ol cache'"
  by (auto simp: discover_def discovered_def split: option.splits sum.splits if_splits)

lemma configFor_keeps:
  assumes "configFor ol idp cache = (Inr cfg, cache')" "discovered ol cache"
  shows "discovered ol cache' \<and> cgClientID cfg = ipClientID idp \<and> cgClientSecret cfg = ipClientSecret idp \<and> cgRedirectURL cfg = ipCallbackURL idp"
  using assms discover_keeps by (fastforce simp: configFor_def then_do_Inr split: if_splits)

lemma address_or_lookup_Inr [simp]: "address_or_lookup f r = Inr info \<longleftrightarrow> r = Inr info"
  by (auto simp: address_or_lookup_def split: sum.splits signin_error.splits option.splits)

lemma mapOIDCClaims_Inr:
  "mapOIDCClaims env idp subject c = Inr info \<Longrightarrow> uinSubject info = subject \<and> subject \<noteq> []
     \<and> uinEmail info = to_lower env (fst (claimed_address env idp c)) \<and> uinEmailVerified info = snd (claimed_address env idp c)
     \<and> fst (claimed_address env idp c) \<noteq> []"
  by (auto simp: mapOIDCClaims_def Let_def split: if_splits prod.splits)

text \<open>
  C14. An OpenID Connect identity is proven: the adapter reports one only for
  an ID token of the token endpoint's answer that verified against the
  provider discovered at the row's issuer for the row's client, that carries
  the nonce of this very sign-in, which is not empty, and whose subject is the
  identity.  The address and whether it is vouched for are read together, from
  the token or, when it names no address, from the user-info document; only
  for Entra ID is an address vouched for by being there.
\<close>

theorem oidc_identity_is_proven:
  assumes "Exchange ol idp code req cache = (Inr info, cache')" "IsOIDC idp" "discovered ol cache"
  shows "\<exists>p cfg token raw idt c. olNewProvider ol (ipIssuerURL idp) = Inr p \<and> cgClientID cfg = ipClientID idp
    \<and> olExchange ol cfg code (arCodeVerifier req) = Inr token \<and> arCodeVerifier req \<noteq> []
    \<and> olIDToken ol token = Some raw \<and> olVerify ol p (ipClientID idp) raw = Inr idt
    \<and> idtNonce idt = arNonce req \<and> arNonce req \<noteq> [] \<and> uinSubject info = idtSubject idt \<and> idtSubject idt \<noteq> []
    \<and> (idtClaims idt = Inr c \<and> ocEmail c \<noteq> []
        \<or> (\<exists>c0. idtClaims idt = Inr c0 \<and> ocEmail c0 = [] \<and> (c = c0 \<or> (\<exists>ext. olUserInfo ol p token = Inr (Some ext) \<and> c = merge_claims c0 ext))))
    \<and> uinEmailVerified info = (if itName (ipType idp) = IDPTypeNameEntraID then True else ocEmailVerified c)"
proof -
  obtain cfg cache1 token where c: "configFor ol idp cache = (Inr cfg, cache1)" "olExchange ol cfg code (arCodeVerifier req) = Inr token"
    "arCodeVerifier req \<noteq> []" "identityFromIDToken ol idp cfg token (arNonce req) cache1 = (Inr info, cache')"
    using assms(1,2) by (auto simp: Exchange_def then_do_Inr case_fail_Inr split: if_splits)
  note k = configFor_keeps[OF c(1) assms(3)]
  obtain raw p cache2 idt where d: "olIDToken ol token = Some raw" "discover ol idp cache1 = (Inr p, cache2)"
    "olVerify ol p (cgClientID cfg) raw = Inr idt" "identity_from_token ol idp p token (arNonce req) idt = Inr info"
    using c(4) by (auto simp: identityFromIDToken_def then_do_Inr case_fail_Inr split: option.splits if_splits)
  have p: "olNewProvider ol (ipIssuerURL idp) = Inr p" using discover_Inr[OF d(2)] k by (auto simp: discovered_def)
  obtain c0 where n: "idtNonce idt = arNonce req" "arNonce req \<noteq> []" "idtClaims idt = Inr c0"
    "identity_from_claims ol idp p token (idtSubject idt) c0 = Inr info"
    using d(4) by (auto simp: identity_from_token_def split: if_splits sum.splits)
  obtain cl where m: "mapOIDCClaims (olText ol) idp (idtSubject idt) cl = Inr info"
    and w: "ocEmail c0 \<noteq> [] \<and> cl = c0 \<or> ocEmail c0 = [] \<and> (cl = c0 \<or> (\<exists>ext. olUserInfo ol p token = Inr (Some ext) \<and> cl = merge_claims c0 ext))"
    using n(4) by (auto simp: identity_from_claims_def split: if_splits sum.splits option.splits)
  have v: "uinEmailVerified info = (if itName (ipType idp) = IDPTypeNameEntraID then True else ocEmailVerified cl)"
    using mapOIDCClaims_Inr[OF m] by (auto simp: claimed_address_def Let_def split: if_splits)
  from w n(3) have "idtClaims idt = Inr cl \<and> ocEmail cl \<noteq> []
        \<or> (\<exists>c0. idtClaims idt = Inr c0 \<and> ocEmail c0 = [] \<and> (cl = c0 \<or> (\<exists>ext. olUserInfo ol p token = Inr (Some ext) \<and> cl = merge_claims c0 ext)))"
    by blast
  with p c k d n v mapOIDCClaims_Inr[OF m] show ?thesis
    by (intro exI[of _ p] exI[of _ cfg] exI[of _ token] exI[of _ raw] exI[of _ idt] exI[of _ cl]) auto
qed

text \<open>A user-info document vouches for its own address only.\<close>

lemma merged_address: "ocEmail c = [] \<Longrightarrow> ocEmail (merge_claims c ext) = ocEmail ext \<and> ocEmailVerified (merge_claims c ext) = ocEmailVerified ext"
  by (simp add: merge_claims_def Let_def)

section \<open>What of a linked provider may change\<close>

lemma signInMayChange_None:
  assumes "signInMayChange rq i current a = None" "has_identities (iuID i) a"
  shows "(text_arg (iuClientID i) (ipClientID current) = ipClientID current
      \<and> text_arg (iuCallbackURL i) (ipCallbackURL current) = ipCallbackURL current) \<or> acts_as_administrator (iuCallerID i) a"
proof (cases "sign_in_field i current")
  case None
  then show ?thesis by (auto simp: sign_in_field_def text_arg_def split: if_splits option.split)
next
  case (Some field)
  with assms show ?thesis
    by (auto simp: signInMayChange_def HasIdentities_def dest!: isAdministratorAccount_Inr split: if_splits sum.splits)
qed

lemma IDPs_UpdateByID_success:
  assumes "IDPs_UpdateByID io rq (Some i) a = (None, a')" "idp_row_of (iuID i) a = Some p"
  obtains j where "update_checks io rq i a = Inr ()" "j = i \<or> (\<exists>c. j = i\<lparr>iuClientSecret := Some c\<rparr>)"
    "same_provider i p \<or> \<not> has_identities (iuID i) a" "a' = a\<lparr>acIdps := AList.update (iuID i) (updated_provider j p) (acIdps a)\<rparr>"
proof -
  obtain j where j: "IDPs_UpdateByID_checked io rq (Some i) a = Inr j" and w: "repo_UpdateIDP io (iqFaults rq) j a = (None, a')"
    using assms(1) by (auto simp: IDPs_UpdateByID_def split: sum.splits)
  have c: "update_checks io rq i a = Inr ()" and s: "seal_secret io i = Inr j"
    using j by (auto simp: IDPs_UpdateByID_checked_def and_then_Inr split: option.splits)
  have k: "j = i \<or> (\<exists>c. j = i\<lparr>iuClientSecret := Some c\<rparr>)" using s by (auto simp: seal_secret_def split: option.splits if_splits)
  then have e: "iuID j = iuID i" "same_provider j p = same_provider i p" by (auto simp: same_provider_def)
  from repo_UpdateIDP_cases[OF w] assms(2) e that[OF c k] show ?thesis by auto
qed

text \<open>
  C25. A linked provider is the administrator's to redirect: an update that
  succeeds on a provider accounts are linked to leaves its issuer and its type
  as they were, and leaves its client and its callback as they were unless the
  caller is an enabled account with the admin flag.
\<close>

theorem only_an_administrator_redirects_a_linked_provider:
  assumes "IDPs_UpdateByID io rq (Some i) a = (None, a')" "idp_row_of (iuID i) a = Some p" "has_identities (iuID i) a"
  shows "\<exists>q. idp_row_of (iuID i) a' = Some q \<and> idpType q = idpType p \<and> idpIssuerURL q = idpIssuerURL p
    \<and> (acts_as_administrator (iuCallerID i) a \<or> (idpClientID q = idpClientID p \<and> idpCallbackURL q = idpCallbackURL p))"
proof -
  obtain j where c: "update_checks io rq i a = Inr ()" and j: "j = i \<or> (\<exists>c. j = i\<lparr>iuClientSecret := Some c\<rparr>)"
    and s: "same_provider i p" and a': "a' = a\<lparr>acIdps := AList.update (iuID i) (updated_provider j p) (acIdps a)\<rparr>"
    using IDPs_UpdateByID_success[OF assms(1,2)] assms(3) by blast
  let ?q = "updated_provider j p"
  have q: "idp_row_of (iuID i) a' = Some ?q" by (simp add: a' idp_row_of_def update_conv)
  have src: "idpType ?q = idpType p" "idpIssuerURL ?q = idpIssuerURL p"
    using same_provider_source[of j p] s j by (auto simp: same_source_def same_provider_def)
  have f: "idpClientID ?q = text_arg (iuClientID i) (idpClientID p)" "idpCallbackURL ?q = text_arg (iuCallbackURL i) (idpCallbackURL p)"
    using j by (auto simp: updated_provider_def)
  have "acts_as_administrator (iuCallerID i) a \<or> (idpClientID ?q = idpClientID p \<and> idpCallbackURL ?q = idpCallbackURL p)"
  proof (cases "reads_current i")
    case False
    then have "iuClientID i = None" "iuCallbackURL i = None" by (simp_all add: reads_current_def)
    with f show ?thesis by (simp add: text_arg_def)
  next
    case True
    then obtain current where "repo_SelectIDPByID io (iqFaults rq) (iuID i) a = Inr current" "signInMayChange rq i current a = None"
      using c by (auto simp: update_checks_def and_then_Inr fail_if_def split: option.splits)
    moreover from this have "ipClientID current = idpClientID p" "ipCallbackURL current = idpCallbackURL p"
      using assms(2) by (auto simp: repo_SelectIDPByID_def idp_of_row_def split: if_splits)
    ultimately show ?thesis using signInMayChange_None[OF _ assms(3), of rq current] f by auto
  qed
  with q src show ?thesis by blast
qed

section \<open>A single name\<close>

lemma Add_nonempty: "errs \<noteq> [] \<Longrightarrow> Add errs x \<noteq> []"
  using Add_eq_append[of errs x] by auto

lemma AddError_nonempty [simp]: "AddError errs f m c \<noteq> []"
  by (simp add: AddError_def)

lemma no_last_name: "ValidateString [] (name_options f) = Inl (verr f ''cannot be empty'' ''REQUIRED'')"
  by code_simp

lemma RegisterUserInput_no_last_name:
  assumes "rgLastName i = []"
  shows "\<exists>e. RegisterUserInput_Validate env i = Inl e"
proof -
  obtain errs1 first where a: "check_field (\<lambda>s. ValidateString s (name_options ''first_name'')) (rgFirstName i) (Add [] (ValidateUUID (rgID i) 7 ''id'')) = (errs1, first)"
    by (rule prod.exhaust)
  obtain errs2 last where b: "check_field (\<lambda>s. ValidateString s (name_options ''last_name'')) (rgLastName i) errs1 = (errs2, last)" "errs2 \<noteq> []"
    using assms no_last_name by (simp add: check_field_def)
  obtain errs3 email where c: "check_field (\<lambda>s. ValidateEmail env s ''email'') (rgEmail i) errs2 = (errs3, email)" "errs3 \<noteq> []"
    using b(2) by (cases "ValidateEmail env (rgEmail i) ''email''") (auto simp: check_field_def)
  show ?thesis
    using c(2) Add_nonempty[OF c(2)] Add_nonempty[OF AddError_nonempty]
    by (simp add: RegisterUserInput_Validate_def a b(1) c(1) HasErrors_def)
qed

lemma takeWhile_no_space: "CHR '' '' \<notin> set s \<Longrightarrow> cut_at_space s = (s, [], False)"
proof -
  assume n: "CHR '' '' \<notin> set s"
  then have "\<forall>x \<in> set s. x \<noteq> CHR '' ''" by blast
  then have e: "dropWhile (\<lambda>c. c \<noteq> CHR '' '') s = []" "takeWhile (\<lambda>c. c \<noteq> CHR '' '') s = s"
    unfolding dropWhile_eq_Nil_conv takeWhile_eq_all_conv by blast+
  show ?thesis unfolding cut_at_space_def e using n by simp
qed

lemma RegisterUser_refused:
  "RegisterUserInput_Validate (apText ap) (i\<lparr>rgID := EnsureUUIDV7 (rqFresh rq 0) (rgID i)\<rparr>) = Inl e \<Longrightarrow>
     RegisterUser ap cf rq (Some i) st = fail_with (AValidation e) st"
  by (simp add: RegisterUser_def)

text \<open>
  A person with one name cannot register when the provider reports it as
  the given name: the claims give a profile with no last name, the account's
  input refuses it, and nothing is written.  Reported as the full name, the
  same name is repeated as the last name.
\<close>

theorem one_given_name_cannot_register:
  assumes "mapOIDCClaims env idp subject c = Inr info" "ocGivenName c \<noteq> []" "ocFamilyName c = []"
  shows "(\<forall>out. fst (provision px cf rq idp info event st) \<noteq> Inr out) \<and> snd (provision px cf rq idp info event st) = st
    \<and> (CHR '' '' \<in> set (ocGivenName c) \<or> TrimSpace (ocGivenName c) \<noteq> ocGivenName c
       \<or> splitName (ocGivenName c) (uinEmail info) = (ocGivenName c, ocGivenName c))"
proof -
  have l: "uinLastName info = []" using assms by (auto simp: mapOIDCClaims_def Let_def split: if_splits prod.splits)
  have "\<exists>e. RegisterUserInput_Validate (apText (sgAuthn px)) ((provisioned rq idp info email)\<lparr>rgID := u\<rparr>) = Inl e" for email u
    by (rule RegisterUserInput_no_last_name) (simp add: provisioned_def l)
  then have r: "\<exists>e. RegisterUser (sgAuthn px) (scAuthn cf) (sqAuthn rq) (Some (provisioned rq idp info email)) st = fail_with e st" for email
    using RegisterUser_refused by blast
  have "\<exists>e. provision px cf rq idp info event st = fail_with e st"
  proof (cases "may_provision px rq idp info (anAccounts st)")
    case (Inr email)
    then show ?thesis using r[of email] by (auto simp: provision_def lift_step_def lift_err_def then_do_cases)
  qed (simp add: provision_def)
  moreover have "CHR '' '' \<notin> set (ocGivenName c) \<Longrightarrow> TrimSpace (ocGivenName c) = ocGivenName c \<Longrightarrow>
      splitName (ocGivenName c) (uinEmail info) = (ocGivenName c, ocGivenName c)"
    using assms(2) by (simp add: splitName_def takeWhile_no_space Let_def)
  ultimately show ?thesis by auto
qed

end
