(* ===== verification/ExternalDemo.thy ===== *)
theory ExternalDemo
  imports ExternalRules AuthnDemo
begin

text \<open>
  A small world for sign-in through a provider: an administrator with a
  password, a member who signs in through one enabled provider and is linked to
  a second, disabled one.  The signer signs what is in a table and reads it
  back until it expires, so the laws of a flow hold on it.  The concrete run of
  every theorem of \<open>ExternalRuns\<close> and \<open>ExternalRules\<close> is here, and a delete that
  locks a member out.
\<close>

section \<open>Ports\<close>

text \<open>The state of a flow as text: the lengths of its two random texts in strokes, the texts, and the account.\<close>

definition demo_marshal :: "stateData \<Rightarrow> string" where
  "demo_marshal d = replicate (length (sdVerifier d)) CHR ''x'' @ ''-'' @ replicate (length (sdNonce d)) CHR ''x'' @ ''-''
     @ sdVerifier d @ sdNonce d @ uuid_string (sdUserID d)"

definition strokes :: "string \<Rightarrow> nat \<times> string" where
  "strokes s = (let k = length (takeWhile (\<lambda>c. c = CHR ''x'') s) in (k, drop (Suc k) s))"

definition demo_unmarshal :: "string \<Rightarrow> stateData option" where
  "demo_unmarshal s =
     (let (v, s) = strokes s; (n, s) = strokes s
      in map_option (\<lambda>u. \<lparr>sdVerifier = take v s, sdNonce = take n (drop v s), sdUserID = u\<rparr>) (uuid_parse (drop (v + n) s)))"

lemma strokes_replicate: "strokes (replicate k CHR ''x'' @ CHR ''-'' # s) = (k, s)"
proof -
  have "takeWhile (\<lambda>c. c = CHR ''x'') (replicate k CHR ''x'' @ CHR ''-'' # s) = replicate k CHR ''x''"
    by (induction k) simp_all
  then show ?thesis by (simp add: strokes_def)
qed

lemma demo_marshal_inverse: "demo_unmarshal (demo_marshal d) = Some d"
  by (simp add: demo_unmarshal_def demo_marshal_def strokes_replicate uuid_parse_string)

definition demo_type :: IDPTypes where
  "demo_type = \<lparr>itID = uuid7 30, itName = ''Keycloak'', itDescription = [], itUserInfoAPIURL = [], itIssuerHint = ''https://id.example.com'',
     itKind = ''oidc'', itScopes = [''email'']\<rparr>"

definition demo_idp_ports :: idp_ports where
  "demo_idp_ports = \<lparr>ipTypes = (\<lambda>u. if u = uuid7 30 then Some demo_type else None), ipText = ascii_env,
     ipEncrypt = (\<lambda>s. Some (CHR ''e'' # s)), ipDecrypt = (\<lambda>s. case s of [] \<Rightarrow> None | c # cs \<Rightarrow> if c = CHR ''e'' then Some cs else None),
     ipKey = demo_key\<rparr>"

text \<open>What was signed: by whom, when and under which id is the key, the token the value.\<close>

type_synonym signed_table = "((instant \<times> uuid \<times> JWTClaims) \<times> string) list"

definition table_sign :: "signed_table \<Rightarrow> instant \<Rightarrow> uuid \<Rightarrow> JWTClaims \<Rightarrow> signer_error + string" where
  "table_sign tbl now u c = (case map_of tbl (now, u, c) of None \<Rightarrow> Inl (SignFailed ''not in the table'') | Some t \<Rightarrow> Inr t)"

definition table_verify :: "signed_table \<Rightarrow> instant \<Rightarrow> string \<Rightarrow> signer_error + claims" where
  "table_verify tbl later token =
     (case map_of (map (\<lambda>(k, t). (t, k)) tbl) token of
        None \<Rightarrow> Inl (jwt_error ''not a token'')
      | Some (now, u, c) \<Rightarrow>
          if later < token_expiry now c then Inr (tokenCustomClaims now (token_id u c) c) else Inl (jwt_error ''expired''))"

lemma table_reads_back:
  assumes "distinct (map snd tbl)" "table_sign tbl now u c = Inr token"
  shows "table_verify tbl later token = (if later < token_expiry now c then Inr (tokenCustomClaims now (token_id u c) c) else Inl (jwt_error ''expired''))"
proof -
  have "((now, u, c), token) \<in> set tbl" using assms(2) by (auto simp: table_sign_def split: option.splits dest: map_of_SomeD)
  then have "(token, now, u, c) \<in> set (map (\<lambda>(k, t). (t, k)) tbl)" by force
  moreover have "distinct (map fst (map (\<lambda>(k, t). (t, k)) tbl))" using assms(1) by (simp add: case_prod_unfold comp_def)
  ultimately have "map_of (map (\<lambda>(k, t). (t, k)) tbl) token = Some (now, u, c)" by simp
  then show ?thesis by (simp add: table_verify_def)
qed

text \<open>The two sign-ins of the member and the administrator that are under way: a login, and a link for the administrator.\<close>

definition demo_sc :: AuthnIDPsServiceConf where
  "demo_sc = \<lparr>scAuthn = demo_conf, scIssuer = ''service''\<rparr>"

definition demo_idp_request :: idp_request where
  "demo_idp_request = \<lparr>iqFaults = (\<lambda>_. False), iqAccFaults = no_acc_faults, iqReserve = no_faults, iqRelease = no_faults,
     iqFresh = uuid7 45, iqCache = None\<rparr>"

definition demo_signin :: "int \<Rightarrow> uuid \<Rightarrow> signin_request" where
  "demo_signin s jti = \<lparr>sqAuthn = demo_call s (\<lambda>n. if n = 0 then uuid7 21 else uuid7 22), sqIdp = demo_idp_request,
     sqNonce = ''nonce'', sqVerifier = ''verifier'', sqJTI = jti, sqUserID = uuid7 23, sqPassword = uuid7 24\<rparr>"

definition demo_sealed :: "uuid \<Rightarrow> string" where
  "demo_sealed uid = CHR ''e'' # demo_marshal (carried (demo_signin 0 (uuid7 20)) uid)"

definition demo_member :: User where
  "demo_member = withoutCredentials (user_of_row (uuid7 3) ((demo_account ''bob@example.com'' False)\<lparr>rowLocalAccount := False\<rparr>))"

definition demo_table :: signed_table where
  "demo_table =
     [((0, uuid7 20, state_claims demo_sc (uuid7 40) IDPEventTypeLogin TokenTypeIDPSignin idpLoginDuration (demo_sealed uuid_nil)), ''login''),
      ((0, uuid7 25, state_claims demo_sc (uuid7 40) IDPEventTypeLink TokenTypeIDPLink idpLinkDuration (demo_sealed (uuid7 2))), ''link''),
      ((60 * second, uuid7 21, session_claims demo_conf demo_member TokenTypeAccess (AccessTokenDuration (scanTokenLifetimes seed_row))), ''access''),
      ((60 * second, uuid7 22, session_claims demo_conf demo_member TokenTypeRefresh (RefreshTokenDuration (scanTokenLifetimes seed_row))), ''refresh'')]"

definition demo_exchange :: "IDP \<Rightarrow> string \<Rightarrow> AuthRequest \<Rightarrow> signin_error + UserInfo" where
  "demo_exchange idp code req =
     (if code = ''bob'' then Inr \<lparr>uinSubject = ''subject of bob'', uinEmail = ''bob@example.com'', uinFirstName = ''Bob'', uinLastName = ''Byron'', uinEmailVerified = True\<rparr>
      else if code = ''ada'' then Inr \<lparr>uinSubject = ''subject of ada'', uinEmail = ''other@example.com'', uinFirstName = ''Ada'', uinLastName = ''Byron'', uinEmailVerified = False\<rparr>
      else Inl GCancelled)"

definition ext_ports :: "demo_bucket signin_ports" where
  "ext_ports = \<lparr>sgAuthn = demo_ports\<lparr>apSign := table_sign demo_table, apVerify := table_verify demo_table\<rparr>, sgIdp = demo_idp_ports,
     sgMarshal = demo_marshal, sgUnmarshal = demo_unmarshal, sgCodeURL = (\<lambda>_ req. Inr (arState req)), sgExchange = demo_exchange\<rparr>"

lemma ext_ports_laws: "flow_laws demo_sc ext_ports"
proof -
  have "distinct (map snd demo_table)" by (simp add: demo_table_def)
  from table_reads_back[OF this] show ?thesis
    by (auto simp: flow_laws_def ext_ports_def demo_idp_ports_def demo_marshal_inverse split: if_splits)
qed

section \<open>Tables\<close>

definition demo_provider :: "string \<Rightarrow> bool \<Rightarrow> idp_row" where
  "demo_provider name on = \<lparr>idpType = uuid7 30, idpName = name, idpDescription = ''a provider'', idpCallbackURL = ''https://app.example.com/callback'',
     idpIssuerURL = ''https://id.example.com'', idpLogo = [], idpClientID = ''client'', idpClientSecret = ''esecret'', idpEnabled = on,
     idpAutoProvision = False\<rparr>"

definition demo_identity :: "uuid \<Rightarrow> identity_row" where
  "demo_identity idp = \<lparr>idnUser = uuid7 3, idnIDP = idp, idnSubject = ''subject of bob'', idnEmail = ''bob@example.com''\<rparr>"

definition linked_member :: accounts_state where
  "linked_member = \<lparr>acUsers = [(uuid7 2, demo_account ''ada@example.com'' True),
       (uuid7 3, (demo_account ''bob@example.com'' False)\<lparr>rowLocalAccount := False\<rparr>)],
     acIdps = [(uuid7 40, demo_provider ''current'' True), (uuid7 41, demo_provider ''retired'' False)],
     acIdentities = [demo_identity (uuid7 40), demo_identity (uuid7 41)], acAutoRoles = [], acUsersRoles = []\<rparr>"

definition ext_world :: "demo_bucket authn_state" where
  "ext_world = (demo_state [])\<lparr>anService := (linked_member, demo_db 0 0)\<rparr>"

lemma demo_ids: "IsUUIDV7 (uuid7 40)" "IsUUIDV7 (uuid7 41)" "uuid7 40 \<noteq> uuid_nil" "uuid7 41 \<noteq> uuid_nil" "uuid7 40 \<noteq> uuid7 41" "uuid7 20 \<noteq> uuid_nil"
  "uuid7 25 \<noteq> uuid_nil" "uuid7 20 \<noteq> uuid7 25" "uuid7 21 \<noteq> uuid7 22" "IsUUIDV7 (uuid7 30)"
  by (simp_all add: IsUUIDV7_def UUIDVersion_def uuid_byte_def uuid7_def)

lemma linked_member_rows:
  "user_row_of k linked_member = (if k = uuid7 2 then Some (demo_account ''ada@example.com'' True)
     else if k = uuid7 3 then Some ((demo_account ''bob@example.com'' False)\<lparr>rowLocalAccount := False\<rparr>) else None)"
  "idp_row_of k linked_member = (if k = uuid7 40 then Some (demo_provider ''current'' True)
     else if k = uuid7 41 then Some (demo_provider ''retired'' False) else None)"
  "acIdentities linked_member = [demo_identity (uuid7 40), demo_identity (uuid7 41)]"
  by (simp_all add: linked_member_def user_row_of_def idp_row_of_def)

lemma ext_world_simps [simp]: "anAccounts ext_world = linked_member" "anDenylist ext_world = []" "anLifetimes ext_world = seeded_mirror"
  "anService ext_world = (linked_member, demo_db 0 0)"
  by (simp_all add: ext_world_def demo_state_def)

lemma linked_member_wf: "tables_wf linked_member" "accounts_wf linked_member" "has_administrator linked_member"
proof -
  show "tables_wf linked_member"
    using demo_ids(5) by (simp add: tables_wf_def linked_member_rows demo_identity_def) (simp add: linked_member_def)
  show "accounts_wf linked_member"
    using uuid7_v7(3) by (simp add: accounts_wf_def linked_member_rows demo_account_def) (simp add: linked_member_def)
  show "has_administrator linked_member"
    unfolding has_administrator_def
    by (intro exI[of _ "uuid7 2"] exI[of _ "demo_account ''ada@example.com'' True"])
      (simp add: linked_member_rows enabledAdministrator_def demo_account_def)
qed

section \<open>The two flows\<close>

lemma demo_signin_simps [simp]: "sqAuthn (demo_signin s j) = demo_call s (\<lambda>n. if n = 0 then uuid7 21 else uuid7 22)" "sqIdp (demo_signin s j) = demo_idp_request"
  "sqNonce (demo_signin s j) = ''nonce''" "sqVerifier (demo_signin s j) = ''verifier''" "sqJTI (demo_signin s j) = j"
  "sqUserID (demo_signin s j) = uuid7 23"
  by (simp_all add: demo_signin_def)

lemma demo_request_simps [simp]: "iqFaults demo_idp_request st = False" "iqAccFaults demo_idp_request = no_acc_faults" "iqCache demo_idp_request = None"
  by (simp_all add: demo_idp_request_def)

lemma ext_ports_simps [simp]:
  "apSign (sgAuthn ext_ports) = table_sign demo_table" "apVerify (sgAuthn ext_ports) = table_verify demo_table" "sgIdp ext_ports = demo_idp_ports"
  "sgMarshal ext_ports = demo_marshal" "sgUnmarshal ext_ports = demo_unmarshal" "sgExchange ext_ports = demo_exchange"
  "sgCodeURL ext_ports idp req = Inr (arState req)" "apAuthz (sgAuthn ext_ports) u = Inr AuthzMissing" "scAuthn demo_sc = demo_conf"
  "apText (sgAuthn ext_ports) = ascii_env"
  by (simp_all add: ext_ports_def demo_ports_def demo_sc_def)

lemma carried_demo: "carried (demo_signin s j) uid = carried (demo_signin 0 (uuid7 20)) uid"
  by (simp add: carried_def)

lemma demo_flows:
  "minted_state ext_ports demo_sc (demo_signin 0 (uuid7 20)) (uuid7 40) IDPEventTypeLogin uuid_nil TokenTypeIDPSignin idpLoginDuration (demo_sealed uuid_nil) ''login''"
  "minted_state ext_ports demo_sc (demo_signin 0 (uuid7 25)) (uuid7 40) IDPEventTypeLink (uuid7 2) TokenTypeIDPLink idpLinkDuration (demo_sealed (uuid7 2)) ''link''"
proof -
  have e: "ipEncrypt demo_idp_ports (demo_marshal (carried (demo_signin s j) uid)) = Some (demo_sealed uid)" for s j uid
    by (simp add: demo_idp_ports_def demo_sealed_def carried_demo[of s j])
  show "minted_state ext_ports demo_sc (demo_signin 0 (uuid7 20)) (uuid7 40) IDPEventTypeLogin uuid_nil TokenTypeIDPSignin idpLoginDuration (demo_sealed uuid_nil) ''login''"
    using ext_ports_laws e by (simp add: minted_state_def event_token_def table_sign_def demo_table_def)
  show "minted_state ext_ports demo_sc (demo_signin 0 (uuid7 25)) (uuid7 40) IDPEventTypeLink (uuid7 2) TokenTypeIDPLink idpLinkDuration (demo_sealed (uuid7 2)) ''link''"
    using ext_ports_laws e demo_ids(8) uuid7_v7(4) by (simp add: minted_state_def event_token_def table_sign_def demo_table_def event_defs)
qed

lemma demo_spends:
  "fst (spendState ext_ports (demo_signin 60 j) ''login'' (uuid7 40) ext_world) = Inr (carried (demo_signin 0 (uuid7 20)) uuid_nil, IDPEventTypeLogin)"
  "fst (spendState ext_ports (demo_signin 60 j) ''link'' (uuid7 40) ext_world) = Inr (carried (demo_signin 0 (uuid7 25)) (uuid7 2), IDPEventTypeLink)"
  using demo_ids
  by (auto intro!: minted_accepted[OF demo_flows(1)] minted_accepted[OF demo_flows(2)]
      simp: idpLoginDuration_def idpLinkDuration_def)

definition demo_idp :: IDP where
  "demo_idp = (idp_of_row demo_idp_ports (uuid7 40) (demo_provider ''current'' True))\<lparr>ipClientSecret := ''secret''\<rparr>"

lemma demo_idp_usable: "usable_provider ext_ports (demo_signin s j) (uuid7 40) linked_member = Inr demo_idp"
  using demo_ids
  by (simp add: usable_provider_def IDPs_GetByID_def cached_def repo_SelectIDPByID_def linked_member_rows decrypted_def demo_idp_def
      idp_of_row_def demo_provider_def demo_idp_ports_def lift_err_def)

text \<open>
  The same flow over the modelled signer and cipher: the library signs the one
  state of the flow, the cipher is that of \<open>toy_key\<close>, and the provider's
  secret is stored under it.
\<close>

definition wired_seal :: "string \<Rightarrow> string" where
  "wired_seal p = b64_encode (replicate 12 (CHR ''r'') @ toy_key @ replicate 12 (CHR ''r'') @ rev p)"

definition wired_state :: JWTClaims where
  "wired_state = state_claims demo_sc (uuid7 40) IDPEventTypeLogin TokenTypeIDPSignin idpLoginDuration
     (wired_seal (demo_marshal (carried (demo_signin 0 (uuid7 20)) uuid_nil)))"

definition wired_jwt :: "(bool, bool) jwt_lib" where
  "wired_jwt = jwt_of (tokenCustomClaims 0 (uuid7 20) wired_state)"

definition wired_config :: SignerConfig where
  "wired_config = \<lparr>SignerConfig.scIssuer = ''service'', scPrivateKey = ''old'', scPublicKey = ''old'', scAdditionalPublicKeys = []\<rparr>"

definition wired_signer :: "(bool, bool) Signer" where
  "wired_signer = old_signer\<lparr>sgIssuer := ''service''\<rparr>"

definition wired_ports :: "demo_bucket signin_ports" where
  "wired_ports = ext_ports\<lparr>sgAuthn := demo_ports\<lparr>apSign := Sign wired_jwt wired_signer, apVerify := VerifyToken wired_jwt wired_signer\<rparr>,
     sgIdp := demo_idp_ports\<lparr>ipEncrypt := EncryptString toy_aes \<lparr>acKey = toy_key\<rparr> toy_random, ipDecrypt := DecryptString toy_aes \<lparr>acKey = toy_key\<rparr>\<rparr>\<rparr>"

definition wired_world :: "demo_bucket authn_state" where
  "wired_world = (demo_state [])\<lparr>anService := (linked_member\<lparr>acIdps :=
     [(uuid7 40, (demo_provider ''current'' True)\<lparr>idpClientSecret := wired_seal ''secret''\<rparr>)]\<rparr>, demo_db 0 0)\<rparr>"

lemma toy_key_gcm: "key_gcm toy_aes \<lparr>acKey = toy_key\<rparr> = Some toy_key"
  by (simp add: key_gcm_def toy_aes_def toy_key_def ValidAESKeySize_def AESKeySize256_def)

lemma wired_encrypts: "EncryptString toy_aes \<lparr>acKey = toy_key\<rparr> toy_random p = Some (wired_seal p)"
  by (simp add: EncryptString_def toy_key_gcm wired_seal_def) (simp add: toy_random_def toy_aes_def)

lemma wired_decrypts: "DecryptString toy_aes \<lparr>acKey = toy_key\<rparr> (wired_seal p) = Some p"
  by (rule Encrypt_Decrypt(2)[OF toy_aes_laws toy_random_full wired_encrypts])

lemma demo_wired: "wired wired_jwt wired_config toy_aes toy_key demo_sc wired_ports"
proof -
  have "NewSigner wired_jwt wired_config = Inr wired_signer"
    unfolding NewSigner_def wired_jwt_def demo_keyID(1)
    by (simp add: wired_config_def wired_signer_def old_signer_def jwt_of_def[THEN arg_cong, of ParsePrivate]
        jwt_of_def[THEN arg_cong, of ParsePublic] jwt_of_def[THEN arg_cong, of PublicHalf] demo_keyID(1))
  moreover have "\<exists>random. reads_full random \<and> ipEncrypt (sgIdp wired_ports) p = EncryptString toy_aes \<lparr>acKey = toy_key\<rparr> random p" for p
    using toy_random_full by (auto simp: wired_ports_def)
  ultimately show ?thesis
    unfolding wired_def
    by (intro conjI exI[of _ wired_signer] exI[of _ "\<lparr>acKey = toy_key\<rparr>"])
      (simp_all add: toy_adapter wired_ports_def ext_ports_def demo_marshal_inverse wired_config_def demo_sc_def)
qed

lemma wired_signs: "Sign wired_jwt wired_signer 0 (uuid7 20) wired_state = Inr (demo_key_id False)"
  by (simp add: Sign_def wired_state_def state_claims_def wired_signer_def old_signer_def TokenType_IsValid_def token_types event_defs demo_sc_def)
    (simp add: wired_jwt_def jwt_of_def wired_state_def state_claims_def demo_sc_def event_defs token_types)

lemma wired_usable: "usable_provider wired_ports (demo_signin 0 (uuid7 20)) (uuid7 40) (anAccounts wired_world) = Inr demo_idp"
  using demo_ids wired_decrypts
  by (simp add: wired_world_def usable_provider_def IDPs_GetByID_def cached_def repo_SelectIDPByID_def linked_member_def idp_row_of_def decrypted_def
      demo_idp_def idp_of_row_def demo_provider_def wired_ports_def demo_idp_ports_def lift_err_def)

lemma wired_login_url:
  "GetLoginURL wired_ports demo_sc (demo_signin 0 (uuid7 20)) (uuid7 40) IDPEventTypeLogin uuid_nil wired_world = Inr (demo_key_id False)"
proof -
  have "seal_state wired_ports (carried (demo_signin 0 (uuid7 20)) uuid_nil) = Inr (wired_seal (demo_marshal (carried (demo_signin 0 (uuid7 20)) uuid_nil)))"
    by (simp add: seal_state_def wired_ports_def wired_encrypts)
  moreover have "apSign (sgAuthn wired_ports) 0 (uuid7 20) wired_state = Inr (demo_key_id False)"
    using wired_signs by (simp add: wired_ports_def)
  moreover have "sgCodeURL wired_ports idp req = Inr (arState req)" for idp req by (simp add: wired_ports_def ext_ports_def)
  ultimately show ?thesis
    using wired_usable demo_ids
    by (simp add: GetLoginURL_def event_token_def carried_def wired_state_def lift_err_def)
qed

theorem state_belongs_to_its_flow_witness:
  "fst (spendState wired_ports (demo_signin 60 (uuid7 10)) (demo_key_id False) (uuid7 40) wired_world)
     = Inr (carried (demo_signin 0 (uuid7 20)) uuid_nil, IDPEventTypeLogin)"
proof -
  obtain token idp d tt where f: "sgCodeURL wired_ports idp (sent_request (demo_signin 0 (uuid7 20)) token) = Inr (demo_key_id False)"
    "event_token IDPEventTypeLogin uuid_nil = Inr (tt, d)"
    "\<forall>rq' s. rqNow (sqAuthn rq') < (rqNow (sqAuthn (demo_signin 0 (uuid7 20))) + d) div second * second \<longrightarrow> rqStore (sqAuthn rq') CConsume = Done \<longrightarrow>
         sqJTI (demo_signin 0 (uuid7 20)) \<noteq> uuid_nil \<longrightarrow> map_of (anDenylist s) (sqJTI (demo_signin 0 (uuid7 20))) = None \<longrightarrow>
         fst (spendState wired_ports rq' token (uuid7 40) s) = Inr (carried (demo_signin 0 (uuid7 20)) uuid_nil, IDPEventTypeLogin)"
    using state_belongs_to_its_flow[OF jwt_of_laws demo_thumbprints toy_aes_laws demo_wired[unfolded wired_jwt_def] wired_login_url] by auto
  from f(1) have t: "token = demo_key_id False" by (simp add: sent_request_def wired_ports_def ext_ports_def)
  have d: "d = idpLoginDuration" using f(2) by (simp add: event_token_def)
  show ?thesis
    using f(3)[rule_format, of "demo_signin 60 (uuid7 10)" wired_world] demo_ids(6)
    by (simp add: t d idpLoginDuration_def wired_world_def)
qed

section \<open>The callbacks\<close>

lemma demo_spend_state:
  obtains st1 where "spendState ext_ports (demo_signin 60 j) ''login'' (uuid7 40) ext_world = (Inr (carried (demo_signin 0 (uuid7 20)) uuid_nil, IDPEventTypeLogin), st1)"
    "anAccounts st1 = linked_member" "anLifetimes st1 = seeded_mirror"
proof -
  obtain r st1 where s: "spendState ext_ports (demo_signin 60 j) ''login'' (uuid7 40) ext_world = (r, st1)" by (rule prod.exhaust)
  moreover from s have "anService st1 = anService ext_world" "anLifetimes st1 = anLifetimes ext_world"
    using spendState_service[of ext_ports "demo_signin 60 j" "''login''" "uuid7 40" ext_world]
    by (auto simp: spendState_def split: sum.splits prod.splits if_splits)
  ultimately show thesis using that[of st1] demo_spends(1)[of j] by simp
qed

lemma demo_member_answers:
  assumes "anAccounts st = linked_member" "anLifetimes st = seeded_mirror"
  shows "\<exists>login. LoginUserByID (sgAuthn ext_ports) demo_conf (demo_call 60 (\<lambda>n. if n = 0 then uuid7 21 else uuid7 22)) (uuid7 3) LoginMethodOAuth st = (Inr login, st)"
proof -
  let ?rq = "demo_call 60 (\<lambda>n. if n = 0 then uuid7 21 else uuid7 22)"
  have g: "GetByID None no_acc_faults (uuid7 3) linked_member = Inr demo_member"
    using uuid7_v7 by (simp add: GetByID_def repo_SelectByID_def no_acc_faults_def linked_member_rows demo_member_def)
  have s: "Standing no_acc_faults (uuid7 3) linked_member = Inr AccountActive"
    using uuid7_v7 by (simp add: Standing_def repo_SelectDisabled_def no_acc_faults_def linked_member_rows demo_account_def)
  have t: "table_sign demo_table (60 * second) (uuid7 21) (session_claims demo_conf demo_member TokenTypeAccess (AccessTokenDuration (scanTokenLifetimes seed_row))) = Inr ''access''"
    "table_sign demo_table (60 * second) (uuid7 22) (session_claims demo_conf demo_member TokenTypeRefresh (RefreshTokenDuration (scanTokenLifetimes seed_row))) = Inr ''refresh''"
    using demo_ids by (simp_all add: table_sign_def demo_table_def)
  have u: "usrDisabled demo_member = Some False" by (simp add: demo_member_def withoutCredentials_def user_of_row_def demo_account_def)
  have m: "LoginMethodOAuth \<noteq> LoginMethodPassword" by (simp add: LoginMethodOAuth_def LoginMethodPassword_def)
  show ?thesis using assms g s t u m by (simp add: LoginUserByID_def issueSession_def and_then_def lift_err_def)
qed

lemma demo_callback:
  "\<exists>out login st'. Callback ext_ports demo_sc (demo_signin 60 (uuid7 10)) (uuid7 40) ''login'' ''bob'' ext_world = (Inr out, st') \<and> cbLogin out = Some login"
proof (rule demo_spend_state[of "uuid7 10"])
  fix st1 assume s: "spendState ext_ports (demo_signin 60 (uuid7 10)) ''login'' (uuid7 40) ext_world = (Inr (carried (demo_signin 0 (uuid7 20)) uuid_nil, IDPEventTypeLogin), st1)"
    and a: "anAccounts st1 = linked_member" "anLifetimes st1 = seeded_mirror"
  obtain login where l: "LoginUserByID (sgAuthn ext_ports) demo_conf (demo_call 60 (\<lambda>n. if n = 0 then uuid7 21 else uuid7 22)) (uuid7 3) LoginMethodOAuth st1 = (Inr login, st1)"
    using demo_member_answers[OF a] by blast
  have i: "\<exists>i. repo_SelectBySubject demo_idp_ports (\<lambda>_. False) (ipID demo_idp) (itID (ipType demo_idp)) (ipIssuerURL demo_idp) ''subject of bob'' linked_member = Inr i
      \<and> uiUserID i = uuid7 3"
    using demo_ids
    by (simp add: repo_SelectBySubject_def linked_member_rows demo_identity_def provider_unchanged_def demo_idp_def idp_of_row_def
        demo_provider_def demo_idp_ports_def joined_type_def demo_type_def joined_identity_def List.map_filter_def)
  have f: "iqFaults demo_idp_request = (\<lambda>_. False)" by (simp add: demo_idp_request_def)
  from i f l a have "fst (signIn ext_ports demo_sc (demo_signin 60 (uuid7 10)) demo_idp \<lparr>uinSubject = ''subject of bob'', uinEmail = ''bob@example.com'',
      uinFirstName = ''Bob'', uinLastName = ''Byron'', uinEmailVerified = True\<rparr> IDPEventTypeLogin st1)
    = Inr \<lparr>cbLogin = Some login, cbEventType = IDPEventTypeLogin, cbLinked = uuid_nil\<rparr>"
    by (auto simp: signIn_def sign_in_as_def lift_step_def lift_err_def)
  then have "fst (Callback ext_ports demo_sc (demo_signin 60 (uuid7 10)) (uuid7 40) ''login'' ''bob'' ext_world)
      = Inr \<lparr>cbLogin = Some login, cbEventType = IDPEventTypeLogin, cbLinked = uuid_nil\<rparr>"
    using s a demo_idp_usable demo_ids(3) by (simp add: Callback_def demo_exchange_def finish_event_def event_defs)
  then show ?thesis by (metis IDPCallbackOutput.select_convs(1) prod.collapse)
qed

text \<open>The member's login reaches the member and writes nothing.\<close>

theorem sign_in_reaches_only_the_linked_account_witness:
  "\<exists>out login st'. Callback ext_ports demo_sc (demo_signin 60 (uuid7 10)) (uuid7 40) ''login'' ''bob'' ext_world = (Inr out, st')
     \<and> cbLogin out = Some login \<and> linked_as (anAccounts st') (loUserID login) (uuid7 40) ''subject of bob''"
proof -
  obtain out login st' where c: "Callback ext_ports demo_sc (demo_signin 60 (uuid7 10)) (uuid7 40) ''login'' ''bob'' ext_world = (Inr out, st')" "cbLogin out = Some login"
    using demo_callback by blast
  have k: "cache_keyed (rqCache (sqAuthn (demo_signin 60 (uuid7 10))))" by (simp add: cache_keyed_def)
  obtain idp info d where "usable_provider ext_ports (demo_signin 60 (uuid7 10)) (uuid7 40) (anAccounts ext_world) = Inr idp"
    "sgExchange ext_ports idp ''bob'' d = Inr info" "reached idp info (loUserID login) (anAccounts ext_world) (anAccounts st')"
    using sign_in_reaches_only_the_linked_account[OF c k] by blast
  moreover from this have "ipID idp = uuid7 40" "uinSubject info = ''subject of bob''"
    using demo_idp_usable by (auto simp: demo_exchange_def demo_idp_def idp_of_row_def)
  ultimately have "linked_as (anAccounts st') (loUserID login) (uuid7 40) ''subject of bob''" unfolding reached_def by simp
  with c show ?thesis by blast
qed

definition demo_state_claims :: claims where
  "demo_state_claims = flow_claims demo_sc (demo_signin 0 (uuid7 20)) (uuid7 40) IDPEventTypeLogin TokenTypeIDPSignin idpLoginDuration (demo_sealed uuid_nil)"

lemma demo_state_expiry: "claimExpiry demo_state_claims = Some (900 * second)"
  by (simp add: demo_state_claims_def flow_claims_def claimExpiry_def state_claims_def unix_seconds_def idpLoginDuration_def)

text \<open>The state that was let through a minute after it was signed is refused a minute later, and the world is as it was.\<close>

theorem oauth_state_works_once_witness:
  "\<exists>x st'. spendState ext_ports (demo_signin 60 (uuid7 10)) ''login'' (uuid7 40) ext_world = (Inr x, st')
     \<and> (\<exists>e. fst (Callback ext_ports demo_sc (demo_signin 120 (uuid7 10)) (uuid7 40) ''login'' ''bob'' st') = Inl e)
     \<and> anService (snd (Callback ext_ports demo_sc (demo_signin 120 (uuid7 10)) (uuid7 40) ''login'' ''bob'' st')) = anService st'"
proof -
  obtain st1 where s: "spendState ext_ports (demo_signin 60 (uuid7 10)) ''login'' (uuid7 40) ext_world
      = (Inr (carried (demo_signin 0 (uuid7 20)) uuid_nil, IDPEventTypeLogin), st1)"
    by (rule demo_spend_state)
  have v: "\<forall>now r. apVerify (sgAuthn ext_ports) now ''login'' = Inr r \<longrightarrow> r = demo_state_claims"
    using minted_verifies(2)[OF demo_flows(1)] unfolding demo_state_claims_def by blast
  have "list_all (\<lambda>(at, _). at < 900 * second) []" "anDenylist st1 = dl_run [] (anDenylist st1)" by simp_all
  from oauth_state_works_once[OF s v demo_state_expiry this, of demo_sc "demo_signin 120 (uuid7 10)" "uuid7 40" "''bob''"] s
  show ?thesis by (metis old.sum.exhaust)
qed

lemma demo_link_callback:
  "\<exists>out st'. Callback ext_ports demo_sc (demo_signin 60 (uuid7 10)) (uuid7 40) ''link'' ''ada'' ext_world = (Inr out, st') \<and> cbLogin out = None"
proof -
  obtain r st1 where s: "spendState ext_ports (demo_signin 60 (uuid7 10)) ''link'' (uuid7 40) ext_world = (r, st1)" by (rule prod.exhaust)
  moreover from this have "anService st1 = anService ext_world"
    using spendState_service[of ext_ports "demo_signin 60 (uuid7 10)" "''link''" "uuid7 40" ext_world] by simp
  ultimately have s: "spendState ext_ports (demo_signin 60 (uuid7 10)) ''link'' (uuid7 40) ext_world = (Inr (carried (demo_signin 0 (uuid7 25)) (uuid7 2), IDPEventTypeLink), st1)"
    and a: "anAccounts st1 = linked_member" using demo_spends(2)[of "uuid7 10"] by simp_all
  let ?info = "\<lparr>uinSubject = ''subject of ada'', uinEmail = ''other@example.com'', uinFirstName = ''Ada'', uinLastName = ''Byron'', uinEmailVerified = False\<rparr>"
  have g: "GetByID None no_acc_faults (uuid7 2) linked_member = Inr (withoutCredentials (user_of_row (uuid7 2) (demo_account ''ada@example.com'' True)))"
    using uuid7_v7 by (simp add: GetByID_def repo_SelectByID_def no_acc_faults_def linked_member_rows)
  have u: "usrDisabled (withoutCredentials (user_of_row (uuid7 2) (demo_account ''ada@example.com'' True))) = Some False"
    by (simp add: withoutCredentials_def user_of_row_def demo_account_def)
  have i: "idpType (demo_provider n b) = uuid7 30" "idpIssuerURL (demo_provider n b) = ''https://id.example.com''" for n b
    by (simp_all add: demo_provider_def)
  have l: "link_input demo_idp ?info (uuid7 2) = \<lparr>idSubject = ''subject of ada'', idEmail = ''other@example.com'',
      idIssuerURL = ''https://id.example.com'', idUserID = uuid7 2, idIDPID = uuid7 40, idIDPTypeID = uuid7 30\<rparr>" (is "_ = ?l")
    by (simp add: link_input_def demo_idp_def idp_of_row_def i demo_idp_ports_def joined_type_def demo_type_def)
  have "LinkUserIdentityInput_Validate ?l = None" by code_simp
  then have r: "fst (repo_Link (\<lambda>_. False) ?l linked_member) = None"
    using uuid7_v7(3) by (simp add: repo_Link_def provider_unchanged_def linked_member_rows i demo_identity_def)
  have f: "iqFaults demo_idp_request = (\<lambda>_. False)" by (simp add: demo_idp_request_def)
  obtain a' where "repo_Link (\<lambda>_. False) ?l linked_member = (None, a')" using r by (metis prod.collapse)
  then have "link_identity (demo_signin 60 (uuid7 10)) demo_idp ?info (uuid7 2) st1
      = (Inr \<lparr>cbLogin = None, cbEventType = IDPEventTypeLink, cbLinked = uuid7 2\<rparr>, with_accounts a' st1)"
    using g u a f uuid7_v7(4) by (simp add: link_identity_def l)
  then have "Callback ext_ports demo_sc (demo_signin 60 (uuid7 10)) (uuid7 40) ''link'' ''ada'' ext_world
      = (Inr \<lparr>cbLogin = None, cbEventType = IDPEventTypeLink, cbLinked = uuid7 2\<rparr>, with_accounts a' st1)"
    using s a demo_idp_usable demo_ids(3) by (simp add: Callback_def demo_exchange_def finish_event_def carried_def)
  then show ?thesis by simp
qed

text \<open>The administrator's link adds one identity, the administrator's.\<close>

theorem link_attaches_one_free_identity_witness:
  "\<exists>out st' n. Callback ext_ports demo_sc (demo_signin 60 (uuid7 10)) (uuid7 40) ''link'' ''ada'' ext_world = (Inr out, st')
     \<and> idnUser n = cbLinked out \<and> idnSubject n = ''subject of ada'' \<and> acIdentities (anAccounts st') = n # acIdentities linked_member"
proof -
  obtain out st' where c: "Callback ext_ports demo_sc (demo_signin 60 (uuid7 10)) (uuid7 40) ''link'' ''ada'' ext_world = (Inr out, st')" "cbLogin out = None"
    using demo_link_callback by blast
  obtain d :: stateData and idp :: IDP and info r where "sgExchange ext_ports idp ''ada'' r = Inr info" "cbLinked out = sdUserID d"
    "anAccounts st' = (anAccounts ext_world)\<lparr>acIdentities := identity_of_input (link_input idp info (sdUserID d)) # acIdentities (anAccounts ext_world)\<rparr>"
    using link_attaches_one_free_identity[OF c] by blast
  then have "idnUser (identity_of_input (link_input idp info (sdUserID d))) = cbLinked out"
    "idnSubject (identity_of_input (link_input idp info (sdUserID d))) = ''subject of ada''"
    "acIdentities (anAccounts st') = identity_of_input (link_input idp info (sdUserID d)) # acIdentities linked_member"
    by (auto simp: demo_exchange_def link_input_def)
  with c show ?thesis by blast
qed

section \<open>The unlink, the runs and the update\<close>

definition demo_unlink :: ext_op where
  "demo_unlink = XUnlink (demo_signin 60 (uuid7 10)) (uuid7 3) (uuid7 41)"

lemma demo_member_user: "GetByID None no_acc_faults (uuid7 3) linked_member = Inr demo_member" "usrLocalAccount demo_member = Some False"
  using uuid7_v7
  by (simp_all add: GetByID_def repo_SelectByID_def no_acc_faults_def linked_member_rows demo_member_def withoutCredentials_def user_of_row_def)

lemma demo_provider_simps [simp]: "idpEnabled (demo_provider n b) = b" "idpType (demo_provider n b) = uuid7 30" "idpClientID (demo_provider n b) = ''client''"
  "idpIssuerURL (demo_provider n b) = ''https://id.example.com''" "idpCallbackURL (demo_provider n b) = ''https://app.example.com/callback''"
  "idpName (demo_provider n b) = n"
  by (simp_all add: demo_provider_def)

lemma demo_identity_simps [simp]: "idnUser (demo_identity p) = uuid7 3" "idnIDP (demo_identity p) = p" "idnSubject (demo_identity p) = ''subject of bob''"
  by (simp_all add: demo_identity_def)

lemma unlink_valid: "UnlinkUserIdentityInput_Validate \<lparr>ulUserID = uuid7 3, ulIDPID = uuid7 41\<rparr> = None"
  "UnlinkUserIdentityInput_Validate \<lparr>ulUserID = uuid7 3, ulIDPID = uuid7 40\<rparr> = None"
  by code_simp+

lemma demo_unlinks:
  "\<exists>st'. UnlinkIdentity ext_ports (demo_signin 60 (uuid7 10)) (uuid7 3) (uuid7 41) ext_world = (Inr (), st')
     \<and> anAccounts st' = linked_member\<lparr>acIdentities := [demo_identity (uuid7 40)]\<rparr>"
proof -
  have k: "keepsAWayIn items (uuid7 41)" if "repo_SelectByUserID demo_idp_ports f (uuid7 3) linked_member = Inr items" for f items
    using that demo_ids
    by (auto simp: repo_SelectByUserID_def linked_member_rows joined_identity_def demo_idp_ports_def keepsAWayIn_def List.map_filter_def split: if_splits)
  have i: "\<exists>items. repo_SelectByUserID demo_idp_ports (iqFaults demo_idp_request) (uuid7 3) linked_member = Inr items"
    using uuid7_v7 by (simp add: repo_SelectByUserID_def)
  then have c: "unlink_check ext_ports (demo_signin 60 (uuid7 10)) (uuid7 3) (uuid7 41) linked_member = None"
    using demo_member_user k by (auto simp: unlink_check_def)
  have "repo_Unlink (iqFaults demo_idp_request) \<lparr>ulUserID = uuid7 3, ulIDPID = uuid7 41\<rparr> linked_member
      = (None, linked_member\<lparr>acIdentities := [demo_identity (uuid7 40)]\<rparr>)"
    using demo_ids(5) uuid7_v7(3)
    by (simp add: repo_Unlink_def unlink_valid has_identity_at_def keeps_way_in_def provider_enabled_def linked_member_rows)
  with c show ?thesis by (simp add: UnlinkIdentity_def with_accounts_def)
qed

theorem unlink_leaves_a_way_in_witness:
  "has_identity_at (uuid7 3) (uuid7 41) (anAccounts ext_world)
    \<and> (\<exists>st'. UnlinkIdentity ext_ports (demo_signin 60 (uuid7 10)) (uuid7 3) (uuid7 41) ext_world = (Inr (), st')
     \<and> can_sign_in (anAccounts st') (uuid7 3) \<and> acIdentities (anAccounts st')
         = filter (\<lambda>n. \<not> (idnUser n = uuid7 3 \<and> idnIDP n = uuid7 41)) (acIdentities (anAccounts ext_world)))"
proof -
  obtain st' where u: "UnlinkIdentity ext_ports (demo_signin 60 (uuid7 10)) (uuid7 3) (uuid7 41) ext_world = (Inr (), st')"
    using demo_unlinks by blast
  from unlink_leaves_a_way_in[OF u] u show ?thesis by (auto simp: with_accounts_def)
qed

lemma demo_unlink_run: "anAccounts (ext_step ext_ports demo_sc demo_unlink ext_world) = linked_member\<lparr>acIdentities := [demo_identity (uuid7 40)]\<rparr>"
  using demo_unlinks by (auto simp: demo_unlink_def)

theorem an_administrator_can_always_sign_in_witness:
  "\<exists>u r. user_row_of u (anAccounts (ext_run ext_ports demo_sc [demo_unlink, XDeleteIDP demo_idp_request (uuid7 40)] ext_world)) = Some r
     \<and> rowAdmin r \<and> can_sign_in (anAccounts (ext_run ext_ports demo_sc [demo_unlink, XDeleteIDP demo_idp_request (uuid7 40)] ext_world)) u"
  using an_administrator_can_always_sign_in[of ext_world ext_ports demo_sc "[demo_unlink, XDeleteIDP demo_idp_request (uuid7 40)]"]
    linked_member_wf by auto

theorem linked_provider_is_not_repointed_witness:
  "\<exists>q. idp_row_of (uuid7 40) (anAccounts (ext_run ext_ports demo_sc [demo_unlink] ext_world)) = Some q \<and> idpIssuerURL q = ''https://id.example.com''"
proof -
  have "\<forall>s \<in> set (ext_states ext_ports demo_sc [demo_unlink] ext_world). demo_identity (uuid7 40) \<in> set (acIdentities (anAccounts s))"
    using demo_unlink_run by (simp add: linked_member_rows)
  moreover have "idp_row_of (idnIDP (demo_identity (uuid7 40))) (anAccounts ext_world) = Some (demo_provider ''current'' True)"
    by (simp add: linked_member_rows)
  ultimately show ?thesis
    using linked_provider_is_not_repointed[of ext_world ext_ports demo_sc "[demo_unlink]" "demo_identity (uuid7 40)"] linked_member_wf(1) by auto
qed

text \<open>An administrator gives a linked provider another client.\<close>

definition demo_update :: UpdateIDPInput where
  "demo_update = \<lparr>iuIDPTypeID = None, iuName = None, iuDescription = None, iuCallbackURL = None, iuIssuerURL = None, iuLogo = None,
     iuClientID = Some ''another client'', iuClientSecret = None, iuEnabled = None, iuAutoProvision = None, iuID = uuid7 40, iuCallerID = uuid7 2\<rparr>"

lemma demo_update_simps [simp]: "iuID demo_update = uuid7 40" "iuCallerID demo_update = uuid7 2"
  by (simp_all add: demo_update_def)

lemma demo_updates: "fst (IDPs_UpdateByID demo_idp_ports demo_idp_request (Some demo_update) linked_member) = None"
  by code_simp

theorem only_an_administrator_redirects_a_linked_provider_witness:
  "\<exists>a' q. IDPs_UpdateByID demo_idp_ports demo_idp_request (Some demo_update) linked_member = (None, a')
     \<and> idp_row_of (uuid7 40) a' = Some q \<and> idpIssuerURL q = ''https://id.example.com''"
proof -
  obtain a' where u: "IDPs_UpdateByID demo_idp_ports demo_idp_request (Some demo_update) linked_member = (None, a')"
    using demo_updates by (metis prod.collapse)
  have p: "idp_row_of (iuID demo_update) linked_member = Some (demo_provider ''current'' True)" "has_identities (iuID demo_update) linked_member"
    by (simp_all add: linked_member_rows has_identities_def)
  from only_an_administrator_redirects_a_linked_provider[OF u p] u show ?thesis by auto
qed

section \<open>A delete that locks a member out\<close>

lemma demo_deletes: "\<exists>s'. IDPs_DeleteByID demo_idp_ports demo_idp_request (uuid7 40) (linked_member, demo_db 0 0) = (None, s')
     \<and> acIdentities (fst s') = [demo_identity (uuid7 41)] \<and> acIdps (fst s') = [(uuid7 41, demo_provider ''retired'' False)]
     \<and> user_row_of (uuid7 3) (fst s') = user_row_of (uuid7 3) linked_member"
proof -
  have v: "fst (IDPs_DeleteByID demo_idp_ports demo_idp_request (uuid7 40) (linked_member, demo_db 0 0)) = None" by code_simp
  then obtain s' where d: "IDPs_DeleteByID demo_idp_ports demo_idp_request (uuid7 40) (linked_member, demo_db 0 0) = (None, s')"
    by (metis prod.collapse)
  obtain a' where r: "repo_DeleteIDP (iqFaults demo_idp_request) (uuid7 40) linked_member = (None, a')" "fst s' = a'"
    using d by (auto simp: IDPs_DeleteByID_def split: if_splits option.splits prod.splits)
  from repo_DeleteIDP_cases[OF r(1)]
  have a': "a' = linked_member\<lparr>acIdps := filter (\<lambda>(j, _). j \<noteq> uuid7 40) (acIdps linked_member),
      acIdentities := filter (\<lambda>n. idnIDP n \<noteq> uuid7 40) (acIdentities linked_member)\<rparr>" by simp
  have "acIdps a' = [(uuid7 41, demo_provider ''retired'' False)]" "acIdentities a' = [demo_identity (uuid7 41)]"
    "user_row_of (uuid7 3) a' = user_row_of (uuid7 3) linked_member"
    using demo_ids(5) by (simp_all add: a' linked_member_def user_row_of_def)
  with d r(2) show ?thesis by auto
qed

text \<open>
  Deleting a provider locks out an account that unlinking keeps in.  A
  member without a password is linked to an enabled and to a disabled provider;
  the unlink from the enabled one is refused, as the only way in, but the
  delete of that provider counts the identity at the disabled one, succeeds,
  and leaves the member no way in.
\<close>

theorem deleting_a_provider_locks_a_member_out:
  "can_sign_in linked_member (uuid7 3)
   \<and> fst (UnlinkIdentity ext_ports (demo_signin 60 (uuid7 10)) (uuid7 3) (uuid7 40) ext_world) = Inl (GIdp (IIdentityAlreadyLinked UnlinkOnlyWayInMessage))
   \<and> (\<exists>s'. IDPs_DeleteByID demo_idp_ports demo_idp_request (uuid7 40) (linked_member, demo_db 0 0) = (None, s') \<and> \<not> can_sign_in (fst s') (uuid7 3))"
proof (intro conjI)
  let ?bob = "(demo_account ''bob@example.com'' False)\<lparr>rowLocalAccount := False\<rparr>"
  have bob: "user_row_of (uuid7 3) linked_member = Some ?bob" using uuid7_v7(3) by (simp add: linked_member_rows)
  then show "can_sign_in linked_member (uuid7 3)"
    by (auto simp: can_sign_in_def linked_member_rows provider_enabled_def)
  have k: "\<not> keepsAWayIn items (uuid7 40)" if "repo_SelectByUserID demo_idp_ports f (uuid7 3) linked_member = Inr items" for f items
    using that demo_ids
    by (auto simp: repo_SelectByUserID_def linked_member_rows joined_identity_def demo_idp_ports_def keepsAWayIn_def List.map_filter_def split: if_splits)
  have i: "\<exists>items. repo_SelectByUserID demo_idp_ports (iqFaults demo_idp_request) (uuid7 3) linked_member = Inr items"
    using uuid7_v7 by (simp add: repo_SelectByUserID_def)
  then have "unlink_check ext_ports (demo_signin 60 (uuid7 10)) (uuid7 3) (uuid7 40) linked_member = Some (GIdp (IIdentityAlreadyLinked UnlinkOnlyWayInMessage))"
    using demo_member_user k by (auto simp: unlink_check_def)
  then show "fst (UnlinkIdentity ext_ports (demo_signin 60 (uuid7 10)) (uuid7 3) (uuid7 40) ext_world) = Inl (GIdp (IIdentityAlreadyLinked UnlinkOnlyWayInMessage))"
    by (simp add: UnlinkIdentity_def)
  obtain s' where d: "IDPs_DeleteByID demo_idp_ports demo_idp_request (uuid7 40) (linked_member, demo_db 0 0) = (None, s')"
    "acIdentities (fst s') = [demo_identity (uuid7 41)]" "acIdps (fst s') = [(uuid7 41, demo_provider ''retired'' False)]"
    "user_row_of (uuid7 3) (fst s') = Some ?bob"
    using demo_deletes bob by auto
  have "\<not> can_sign_in (fst s') (uuid7 3)"
    using d by (simp add: can_sign_in_def provider_enabled_def idp_row_of_def)
  with d(1) show "\<exists>s'. IDPs_DeleteByID demo_idp_ports demo_idp_request (uuid7 40) (linked_member, demo_db 0 0) = (None, s') \<and> \<not> can_sign_in (fst s') (uuid7 3)"
    by blast
qed

section \<open>The adapter\<close>

definition demo_claims :: oidcClaims where
  "demo_claims = \<lparr>ocEmail = ''ada@example.com'', ocPreferredUsername = [], ocName = [], ocGivenName = ''Sukarno'', ocFamilyName = [], ocEmailVerified = True\<rparr>"

definition demo_oauth :: "(string, string) oauth_lib" where
  "demo_oauth = \<lparr>olText = ascii_env, olNewProvider = Inr, olMethods = (\<lambda>_. None), olAuthCodeURL = (\<lambda>_ state _ _. state),
     olExchange = (\<lambda>_ code _. Inr code), olIDToken = Some,
     olVerify = (\<lambda>_ _ _. Inr \<lparr>idtSubject = ''subject'', idtNonce = ''nonce'', idtClaims = Inr demo_claims\<rparr>),
     olUserInfo = (\<lambda>_ _. Inr None), olGithubUser = (\<lambda>_ _. Inl CallCanceled), olGithubEmails = (\<lambda>_ _. Inl CallCanceled), olGithubStyle = None\<rparr>"

definition demo_auth_request :: AuthRequest where
  "demo_auth_request = \<lparr>arState = ''state'', arNonce = ''nonce'', arCodeVerifier = ''verifier''\<rparr>"

lemma demo_info: "mapOIDCClaims ascii_env demo_idp ''subject'' demo_claims
   = Inr \<lparr>uinSubject = ''subject'', uinEmail = ''ada@example.com'', uinFirstName = ''Sukarno'', uinLastName = [], uinEmailVerified = True\<rparr>"
  by code_simp

lemma demo_exchanges: "\<exists>cache. Exchange demo_oauth demo_idp ''code'' demo_auth_request Map.empty = (Inr \<lparr>uinSubject = ''subject'', uinEmail = ''ada@example.com'',
    uinFirstName = ''Sukarno'', uinLastName = [], uinEmailVerified = True\<rparr>, cache)"
proof -
  have i: "ipClientID demo_idp = ''client''" "ipClientSecret demo_idp = ''secret''" "ipCallbackURL demo_idp = ''https://app.example.com/callback''"
    "ipIssuerURL demo_idp = ''https://id.example.com''" "itKind (ipType demo_idp) = IDPTypeKindOIDC" "IsOIDC demo_idp"
    by (simp_all add: demo_idp_def idp_of_row_def demo_idp_ports_def joined_type_def demo_type_def IDPTypeKindOIDC_def IsOIDC_def)
  have e: "ocEmail demo_claims \<noteq> []" by (simp add: demo_claims_def)
  show ?thesis
    using demo_info e i
    by (simp add: Exchange_def configFor_def discover_def demo_oauth_def demo_auth_request_def identityFromIDToken_def identity_from_token_def identity_from_claims_def)
qed

theorem oidc_identity_is_proven_witness:
  "\<exists>info cache (idt :: id_token). Exchange demo_oauth demo_idp ''code'' demo_auth_request Map.empty = (Inr info, cache)
     \<and> idtNonce idt = arNonce demo_auth_request \<and> uinSubject info = idtSubject idt \<and> uinEmailVerified info"
proof -
  obtain cache where e: "Exchange demo_oauth demo_idp ''code'' demo_auth_request Map.empty = (Inr \<lparr>uinSubject = ''subject'', uinEmail = ''ada@example.com'',
    uinFirstName = ''Sukarno'', uinLastName = [], uinEmailVerified = True\<rparr>, cache)"
    using demo_exchanges by blast
  have o: "IsOIDC demo_idp" "discovered demo_oauth Map.empty"
    by (simp_all add: demo_idp_def idp_of_row_def demo_idp_ports_def joined_type_def demo_type_def IDPTypeKindOIDC_def IsOIDC_def discovered_def)
  obtain idt :: id_token where "idtNonce idt = arNonce demo_auth_request" "''subject'' = idtSubject idt"
    using oidc_identity_is_proven[OF e o] by auto
  then have "idtNonce idt = arNonce demo_auth_request" "uinSubject \<lparr>uinSubject = ''subject'', uinEmail = ''ada@example.com'',
    uinFirstName = ''Sukarno'', uinLastName = [], uinEmailVerified = True\<rparr> = idtSubject idt"
    "uinEmailVerified \<lparr>uinSubject = ''subject'', uinEmail = ''ada@example.com'', uinFirstName = ''Sukarno'', uinLastName = [], uinEmailVerified = True\<rparr>"
    by simp_all
  with e show ?thesis by blast
qed

theorem one_given_name_cannot_register_witness:
  "\<exists>info. mapOIDCClaims ascii_env demo_idp ''subject'' demo_claims = Inr info
     \<and> snd (provision ext_ports demo_sc (demo_signin 60 (uuid7 10)) demo_idp info IDPEventTypeRegister ext_world) = ext_world
     \<and> (\<exists>e. fst (provision ext_ports demo_sc (demo_signin 60 (uuid7 10)) demo_idp info IDPEventTypeRegister ext_world) = Inl e)"
proof -
  have c: "ocGivenName demo_claims \<noteq> []" "ocFamilyName demo_claims = []" by (simp_all add: demo_claims_def)
  from one_given_name_cannot_register[OF demo_info c, of ext_ports demo_sc "demo_signin 60 (uuid7 10)" IDPEventTypeRegister ext_world] demo_info
  show ?thesis by (metis old.sum.exhaust)
qed

end
