(* ===== verification/RateLimitAdmin.thy ===== *)
theory RateLimitAdmin
  imports RateLimitMirror
begin

text \<open>
  The administration of the rate-limit rules: the tables \<open>rate_limits\<close> and
  \<open>rate_limit_windows\<close> with their constraints and triggers (migration 00015),
  the statements of \<open>repositorypg/rate_limits.go\<close>, and the use case
  \<open>usecase/rate_limits.go\<close>, which checks a target against the endpoints, writes
  the rule and reloads the mirror of the replica it runs on.
\<close>

section \<open>Tables\<close>

record rate_limit_row =
  rlCreatedAt :: instant
  rlUpdatedAt :: instant
  rlName :: string
  rlDescription :: string
  rlKind :: string
  rlTarget :: string
  rlMethods :: "string list"
  rlScope :: string
  rlAudience :: string
  rlStrategy :: string
  rlEnabled :: bool
  rlSystem :: bool
  rlSerial :: int

record window_row =
  rwRule :: uuid
  rwRequests :: int
  rwPeriod :: int
  rwBurst :: int
  rwSystem :: bool
  rwCreatedAt :: instant
  rwUpdatedAt :: instant
  rwSerial :: int

record rules_db =
  rdRules :: "(uuid \<times> rate_limit_row) list"
  rdWindows :: "(uuid \<times> window_row) list"

datatype rl_error =
    RlInvalidInput string
  | RlValidation verror
  | RlNotFound uuid
  | RlExistsName string
  | RlExistsID uuid
  | RlTarget string string string
  | RlSystem uuid
  | RlQueryFailed

datatype rl_stmt =
    RBegin | RInsertRule | RInsertWindow nat | RUpdate | RDeleteWindows | RDelete | RCommit | RSelect | RSelectWindows
  | RResources | RNotify

text \<open>
  A call: which of its statements fail, the instant of the transaction, the
  ids and serials it draws, and the rows of \<open>resources\<close> it reads (resource and
  action, the thousand it asks for).
\<close>

record rl_call =
  rcFaults :: "rl_stmt \<Rightarrow> bool"
  rcNow :: instant
  rcFresh :: uuid
  rcWindowIDs :: "nat \<Rightarrow> uuid"
  rcSerial :: int
  rcWindowSerials :: "nat \<Rightarrow> int"
  rcResources :: "(string \<times> string) list"

text \<open>
  A \<open>varchar(n)\<close> counts runes, cuts off excess spaces and refuses any other
  excess; an \<open>integer\<close> is 32 bits.
\<close>

definition rune_start :: "char \<Rightarrow> bool" where
  "rune_start c = ((of_char c :: nat) div 64 \<noteq> 2)"

function rune_texts :: "string \<Rightarrow> string list" where
  "rune_texts [] = []"
| "rune_texts (c # cs) = (c # takeWhile (\<lambda>d. \<not> rune_start d) cs) # rune_texts (dropWhile (\<lambda>d. \<not> rune_start d) cs)"
  by pat_completeness auto
termination
  by (relation "measure length") (auto simp: length_dropWhile_le less_Suc_eq_le)

definition varchar :: "nat \<Rightarrow> string \<Rightarrow> string option" where
  "varchar n s = (if length (rune_texts s) \<le> n then Some s
     else if list_all (\<lambda>r. r = '' '') (drop n (rune_texts s)) then Some (concat (take n (rune_texts s))) else None)"

definition int4 :: "int \<Rightarrow> bool" where
  "int4 x = (- (2 ^ 31) \<le> x \<and> x < 2 ^ 31)"

section \<open>Statements\<close>

definition window_row_of :: "rl_call \<Rightarrow> uuid \<Rightarrow> nat \<Rightarrow> RateLimitWindow \<Rightarrow> window_row" where
  "window_row_of call rule i w = \<lparr>rwRule = rule, rwRequests = wRequests w, rwPeriod = wPeriod w div second, rwBurst = wBurst w,
     rwSystem = False, rwCreatedAt = rcNow call, rwUpdatedAt = rcNow call, rwSerial = rcWindowSerials call i\<rparr>"

definition windows_race :: string where
  "windows_race = ''two windows on the same period; the rule was changed concurrently, retry the update''"

fun insertWindows :: "rl_call \<Rightarrow> uuid \<Rightarrow> nat \<Rightarrow> RateLimitWindow list \<Rightarrow> rules_db \<Rightarrow> rl_error option \<times> rules_db" where
  "insertWindows call rule i [] db = (None, db)"
| "insertWindows call rule i (w # ws) db =
     (let wid = (if wID w = uuid_nil then rcWindowIDs call i else wID w); row = window_row_of call rule i w in
      if rcFaults call (RInsertWindow i) then (Some RlQueryFailed, db)
      else if \<not> int4 (rwRequests row) \<or> \<not> int4 (rwBurst row) then (Some RlQueryFailed, db)
      else if \<not> (0 < rwRequests row \<and> 0 < rwPeriod row \<and> rwPeriod row \<le> 86400 \<and> 0 \<le> rwBurst row) then (Some RlQueryFailed, db)
      else if map_of (rdWindows db) wid \<noteq> None then (Some (RlExistsID rule), db)
      else if list_ex (\<lambda>(_, q). rwRule q = rule \<and> rwPeriod q = rwPeriod row) (rdWindows db)
      then (Some (RlTarget [] [] windows_race), db)
      else insertWindows call rule (Suc i) ws (db\<lparr>rdWindows := (wid, row) # rdWindows db\<rparr>))"

definition rule_row_of :: "rl_call \<Rightarrow> CreateRateLimitInput \<Rightarrow> string \<Rightarrow> string \<Rightarrow> rate_limit_row" where
  "rule_row_of call i name target = \<lparr>rlCreatedAt = rcNow call, rlUpdatedAt = rcNow call, rlName = name, rlDescription = iDescription i,
     rlKind = iTargetKind i, rlTarget = target, rlMethods = iMethods i, rlScope = iScope i, rlAudience = iAudience i,
     rlStrategy = iStrategy i, rlEnabled = (case iEnabled i of None \<Rightarrow> True | Some b \<Rightarrow> b), rlSystem = False, rlSerial = rcSerial call\<rparr>"

text \<open>The two texts of a rule that have a column width.\<close>

definition stored_texts :: "CreateRateLimitInput \<Rightarrow> (string \<times> string) option" where
  "stored_texts i = (case varchar 100 (iName i) of None \<Rightarrow> None
     | Some name \<Rightarrow> (case varchar 255 (iTarget i) of None \<Rightarrow> None | Some target \<Rightarrow> Some (name, target)))"

text \<open>A transaction: what failed in it changes nothing.\<close>

definition committed :: "rl_call \<Rightarrow> rules_db \<Rightarrow> rl_error option \<times> rules_db \<Rightarrow> rl_error option \<times> rules_db" where
  "committed call db r = (case fst r of Some e \<Rightarrow> (Some e, db)
     | None \<Rightarrow> if rcFaults call RCommit then (Some RlQueryFailed, db) else r)"

definition repo_InsertRule :: "rl_call \<Rightarrow> CreateRateLimitInput \<Rightarrow> rules_db \<Rightarrow> rl_error option \<times> rules_db" where
  "repo_InsertRule call i db =
     (case CreateRateLimitInput_Validate i of
        Some e \<Rightarrow> (Some (RlValidation e), db)
      | None \<Rightarrow>
        if rcFaults call RBegin \<or> rcFaults call RInsertRule then (Some RlQueryFailed, db)
        else case stored_texts i of
          None \<Rightarrow> (Some RlQueryFailed, db)
        | Some (name, target) \<Rightarrow>
            if map_of (rdRules db) (iID i) \<noteq> None then (Some (RlExistsID (iID i)), db)
            else if list_ex (\<lambda>(_, q). rlName q = name) (rdRules db) then (Some (RlExistsName (iName i)), db)
            else committed call db (insertWindows call (iID i) 0 (iWindows i)
              (db\<lparr>rdRules := (iID i, rule_row_of call i name target) # rdRules db\<rparr>)))"

definition updated_rule :: "rl_call \<Rightarrow> UpdateRateLimitInput \<Rightarrow> string \<Rightarrow> string \<Rightarrow> rate_limit_row \<Rightarrow> rate_limit_row" where
  "updated_rule call i name target r = r\<lparr>rlName := name, rlDescription := iDescription i, rlKind := iTargetKind i, rlTarget := target,
     rlMethods := iMethods i, rlScope := iScope i, rlAudience := iAudience i, rlStrategy := iStrategy i,
     rlEnabled := (case iEnabled i of None \<Rightarrow> rlEnabled r | Some b \<Rightarrow> b), rlUpdatedAt := rcNow call\<rparr>"

definition windows_of :: "uuid \<Rightarrow> rules_db \<Rightarrow> (uuid \<times> window_row) list" where
  "windows_of rule db = filter (\<lambda>(_, w). rwRule w = rule) (rdWindows db)"

definition without_windows :: "uuid \<Rightarrow> rules_db \<Rightarrow> rules_db" where
  "without_windows rule db = db\<lparr>rdWindows := filter (\<lambda>(_, w). rwRule w \<noteq> rule) (rdWindows db)\<rparr>"

text \<open>The trigger on both tables keeps the rows of the system.\<close>

definition system_windows :: "uuid \<Rightarrow> rules_db \<Rightarrow> bool" where
  "system_windows rule db = list_ex (\<lambda>(_, w). rwSystem w) (windows_of rule db)"

definition repo_UpdateRule :: "rl_call \<Rightarrow> UpdateRateLimitInput \<Rightarrow> rules_db \<Rightarrow> rl_error option \<times> rules_db" where
  "repo_UpdateRule call i db =
     (case UpdateRateLimitInput_Validate i of
        Some e \<Rightarrow> (Some (RlValidation e), db)
      | None \<Rightarrow>
        if rcFaults call RBegin \<or> rcFaults call RUpdate then (Some RlQueryFailed, db)
        else case map_of (rdRules db) (iID i) of
          None \<Rightarrow> (Some (RlNotFound (iID i)), db)
        | Some r \<Rightarrow>
          (case stored_texts i of
             None \<Rightarrow> (Some RlQueryFailed, db)
           | Some (name, target) \<Rightarrow>
             if rlSystem r then (Some (RlSystem (iID i)), db)
             else if list_ex (\<lambda>(k, q). k \<noteq> iID i \<and> rlName q = name) (rdRules db) then (Some (RlExistsName (iName i)), db)
             else if rcFaults call RDeleteWindows then (Some RlQueryFailed, db)
             else if system_windows (iID i) db then (Some (RlSystem (iID i)), db)
             else committed call db (insertWindows call (iID i) 0 (iWindows i)
               (without_windows (iID i) (db\<lparr>rdRules := AList.update (iID i) (updated_rule call i name target r) (rdRules db)\<rparr>)))))"

definition repo_DeleteRule :: "rl_call \<Rightarrow> uuid \<Rightarrow> rules_db \<Rightarrow> rl_error option \<times> rules_db" where
  "repo_DeleteRule call k db =
     (case DeleteRateLimitInput_Validate k of
        Some e \<Rightarrow> (Some (RlValidation e), db)
      | None \<Rightarrow>
        if rcFaults call RDelete then (Some RlQueryFailed, db)
        else case map_of (rdRules db) k of
          None \<Rightarrow> (Some (RlNotFound k), db)
        | Some r \<Rightarrow>
            if rlSystem r \<or> system_windows k db then (Some (RlSystem k), db)
            else (None, without_windows k (db\<lparr>rdRules := filter (\<lambda>(j, _). j \<noteq> k) (rdRules db)\<rparr>)))"

definition window_of_row :: "uuid \<times> window_row \<Rightarrow> RateLimitWindow" where
  "window_of_row p = \<lparr>wCreatedAt = rwCreatedAt (snd p), wUpdatedAt = rwUpdatedAt (snd p), wSystem = Some (rwSystem (snd p)),
     wPeriod = rwPeriod (snd p) * second, wRequests = rwRequests (snd p), wBurst = rwBurst (snd p), wSerialID = rwSerial (snd p),
     wID = fst p, wRateLimit = rwRule (snd p)\<rparr>"

text \<open>\<open>selectWindows\<close> orders by the period.\<close>

definition selectWindows :: "uuid \<Rightarrow> rules_db \<Rightarrow> RateLimitWindow list" where
  "selectWindows rule db = map window_of_row (sort_key (\<lambda>p. rwPeriod (snd p)) (windows_of rule db))"

definition rule_of_row :: "rules_db \<Rightarrow> uuid \<times> rate_limit_row \<Rightarrow> RateLimit" where
  "rule_of_row db p = \<lparr>rCreatedAt = rlCreatedAt (snd p), rUpdatedAt = rlUpdatedAt (snd p), rSystem = Some (rlSystem (snd p)),
     rEnabled = Some (rlEnabled (snd p)), rName = rlName (snd p), rDescription = rlDescription (snd p), rTarget = rlTarget (snd p),
     rTargetKind = rlKind (snd p), rScope = rlScope (snd p), rAudience = rlAudience (snd p), rStrategy = rlStrategy (snd p),
     rMethods = rlMethods (snd p), rWindows = selectWindows (fst p) db, rSerialID = rlSerial (snd p), rID = fst p\<rparr>"

definition repo_SelectRule :: "rl_call \<Rightarrow> uuid \<Rightarrow> rules_db \<Rightarrow> rl_error + RateLimit" where
  "repo_SelectRule call k db =
     (if rcFaults call RSelect then Inl RlQueryFailed
      else case map_of (rdRules db) k of
        None \<Rightarrow> Inl (RlNotFound k)
      | Some r \<Rightarrow> if rcFaults call RSelectWindows then Inl RlQueryFailed else Inr (rule_of_row db (k, r)))"

text \<open>Every enabled rule, by its serial; no page.\<close>

definition stored_rules :: "rules_db \<Rightarrow> RateLimit list" where
  "stored_rules db = map (rule_of_row db) (sort_key (\<lambda>p. rlSerial (snd p)) (filter (\<lambda>p. rlEnabled (snd p)) (rdRules db)))"

definition repo_SelectAll :: "rl_call \<Rightarrow> rules_db \<Rightarrow> rl_error + RateLimit list" where
  "repo_SelectAll call db =
     (if rcFaults call RSelect \<or> (stored_rules db \<noteq> [] \<and> rcFaults call RSelectWindows) then Inl RlQueryFailed
      else Inr (stored_rules db))"

section \<open>The use case\<close>

text \<open>The endpoints, without the wildcards of the authorization.\<close>

definition endpointCatalogue :: "rl_call \<Rightarrow> rl_error + (string \<times> string) list" where
  "endpointCatalogue call =
     (if rcFaults call RResources then Inl RlQueryFailed
      else let catalogue = filter (\<lambda>(path, verb). path \<noteq> [] \<and> path \<noteq> ''*'' \<and> verb \<noteq> ''*'') (rcResources call) in
        if catalogue = []
        then Inl (RlTarget [] [] ''the endpoint catalogue is empty, so no target can be validated; this is a server-side problem, not a problem with the rule'')
        else Inr catalogue)"

definition verb_served :: "string list \<Rightarrow> string \<Rightarrow> bool" where
  "verb_served verbs m = (List.member verbs m \<or> (m = ''HEAD'' \<and> List.member verbs ''GET''))"

definition validateTarget :: "rl_call \<Rightarrow> string \<Rightarrow> string \<Rightarrow> string list \<Rightarrow> rl_error option" where
  "validateTarget call kind target methods =
     (if kind = ''global'' then None
      else case endpointCatalogue call of
        Inl e \<Rightarrow> Some e
      | Inr catalogue \<Rightarrow>
          if kind = ''prefix'' then
            (if list_ex (\<lambda>(path, _). HasPrefix path target) catalogue then None
             else Some (RlTarget target [] ''no route starts with this prefix''))
          else let verbs = [verb. (path, verb) \<leftarrow> catalogue, path = target] in
            if verbs = [] then Some (RlTarget target []
              ''no route matches this path. It must be the route template as registered, for example /projects/{project_id}/products'')
            else if List.member methods ''*'' then None
            else case find (\<lambda>m. \<not> verb_served verbs m) methods of
              None \<Rightarrow> None
            | Some m \<Rightarrow> Some (RlTarget target m (''this path is registered for '' @ join_with '', '' verbs @ '' but not '' @ m)))"

text \<open>The tables and the replica: its mirror, unless rules are not enforced, whether it has a notifier, and how often it told the others.\<close>

record rl_state =
  rsTables :: rules_db
  rsMirror :: "RateLimitRules option"
  rsNotifier :: bool
  rsNotified :: nat

definition reload_answer :: "rl_call \<Rightarrow> rules_db \<Rightarrow> string + RateLimit list" where
  "reload_answer call db = (case repo_SelectAll call db of Inl _ \<Rightarrow> Inl ''the rules could not be read'' | Inr rules \<Rightarrow> Inr rules)"

definition rl_applyLocally :: "rl_call \<Rightarrow> rl_state \<Rightarrow> rl_state" where
  "rl_applyLocally call st =
     (case rsMirror st of
        None \<Rightarrow> st
      | Some m \<Rightarrow>
          let st1 = st\<lparr>rsMirror := Some (snd (Reload (rcNow call) (reload_answer call (rsTables st)) m))\<rparr> in
          if rsNotifier st \<and> \<not> rcFaults call RNotify then st1\<lparr>rsNotified := Suc (rsNotified st)\<rparr> else st1)"

definition after_write :: "rl_call \<Rightarrow> rl_error option \<times> rules_db \<Rightarrow> rl_state \<Rightarrow> rl_error option \<times> rl_state" where
  "after_write call r st =
     (case fst r of Some e \<Rightarrow> (Some e, st\<lparr>rsTables := snd r\<rparr>) | None \<Rightarrow> (None, rl_applyLocally call (st\<lparr>rsTables := snd r\<rparr>)))"

definition RateLimits_Create :: "rl_call \<Rightarrow> CreateRateLimitInput option \<Rightarrow> rl_state \<Rightarrow> rl_error option \<times> rl_state" where
  "RateLimits_Create call input st =
     (case input of
        None \<Rightarrow> (Some (RlInvalidInput ''input is nil''), st)
      | Some i0 \<Rightarrow>
        let i = i0\<lparr>iID := EnsureUUIDV7 (rcFresh call) (iID i0)\<rparr> in
        (case CreateRateLimitInput_Validate i of
           Some e \<Rightarrow> (Some (RlValidation e), st)
         | None \<Rightarrow>
           (case validateTarget call (iTargetKind i) (iTarget i) (iMethods i) of
              Some e \<Rightarrow> (Some e, st)
            | None \<Rightarrow> after_write call (repo_InsertRule call i (rsTables st)) st)))"

definition RateLimits_UpdateByID :: "rl_call \<Rightarrow> UpdateRateLimitInput option \<Rightarrow> rl_state \<Rightarrow> rl_error option \<times> rl_state" where
  "RateLimits_UpdateByID call input st =
     (case input of
        None \<Rightarrow> (Some (RlInvalidInput ''input is nil''), st)
      | Some i \<Rightarrow>
        (case UpdateRateLimitInput_Validate i of
           Some e \<Rightarrow> (Some (RlValidation e), st)
         | None \<Rightarrow>
           (case validateTarget call (iTargetKind i) (iTarget i) (iMethods i) of
              Some e \<Rightarrow> (Some e, st)
            | None \<Rightarrow> after_write call (repo_UpdateRule call i (rsTables st)) st)))"

definition RateLimits_DeleteByID :: "rl_call \<Rightarrow> uuid option \<Rightarrow> rl_state \<Rightarrow> rl_error option \<times> rl_state" where
  "RateLimits_DeleteByID call input st =
     (case input of
        None \<Rightarrow> (Some (RlInvalidInput ''input is nil''), st)
      | Some k \<Rightarrow> after_write call (repo_DeleteRule call k (rsTables st)) st)"

definition RateLimits_GetByID :: "rl_call \<Rightarrow> uuid \<Rightarrow> rl_state \<Rightarrow> rl_error + RateLimit" where
  "RateLimits_GetByID call k st = repo_SelectRule call k (rsTables st)"

definition Enforcing :: "rl_state \<Rightarrow> bool" where
  "Enforcing st = (rsMirror st \<noteq> None)"

definition Effective :: "rl_call \<Rightarrow> RateLimitRequest \<Rightarrow> rl_state \<Rightarrow> rl_error + RateLimitMatch list" where
  "Effective call req st =
     (case rsMirror st of
        None \<Rightarrow> Inr []
      | Some m \<Rightarrow>
        (case Resolve m req of
           (matches, True) \<Rightarrow> Inr matches
         | (_, False) \<Rightarrow>
           (case repo_SelectAll call (rsTables st) of
              Inl e \<Rightarrow> Inl e
            | Inr rules \<Rightarrow> Inr (ResolveRateLimits (EnforceableRateLimits rules) req))))"

end
