(* ===== verification/RateLimitAdminRules.thy ===== *)
theory RateLimitAdminRules
  imports RateLimitAdmin
begin

text \<open>
  What the administration of the rules keeps: the tables stay sound, so that no
  stored rule is one the loader would drop; the rules of the system stay as
  they are; a rule reads back as it was written, with its periods in whole
  seconds; a rule with an exact target names a route that is served; and after a write the
  replica it was made on enforces, and reports, the stored rules.
\<close>

section \<open>Windows\<close>

fun window_rows :: "rl_call \<Rightarrow> uuid \<Rightarrow> nat \<Rightarrow> RateLimitWindow list \<Rightarrow> (uuid \<times> window_row) list" where
  "window_rows call rule i [] = []"
| "window_rows call rule i (w # ws) =
     (if wID w = uuid_nil then rcWindowIDs call i else wID w, window_row_of call rule i w) # window_rows call rule (Suc i) ws"

definition window_sound :: "window_row \<Rightarrow> bool" where
  "window_sound w \<longleftrightarrow> 0 < rwRequests w \<and> 0 < rwPeriod w \<and> rwPeriod w \<le> 86400 \<and> 0 \<le> rwBurst w"

definition fresh_windows :: "uuid \<Rightarrow> (uuid \<times> window_row) list \<Rightarrow> (uuid \<times> window_row) list \<Rightarrow> bool" where
  "fresh_windows rule new old \<longleftrightarrow> distinct (map fst new) \<and> distinct (map (rwPeriod \<circ> snd) new)
     \<and> set (map fst new) \<inter> set (map fst old) = {}
     \<and> (\<forall>p \<in> set new. rwRule (snd p) = rule \<and> window_sound (snd p)
          \<and> (\<forall>q \<in> set old. rwRule (snd q) = rule \<longrightarrow> rwPeriod (snd q) \<noteq> rwPeriod (snd p)))"

lemma window_row_of_simps [simp]: "rwRule (window_row_of call rule i w) = rule" "rwPeriod (window_row_of call rule i w) = wPeriod w div second"
  "rwRequests (window_row_of call rule i w) = wRequests w" "rwBurst (window_row_of call rule i w) = wBurst w" "\<not> rwSystem (window_row_of call rule i w)"
  by (simp_all add: window_row_of_def)

lemma insertWindows_success:
  "insertWindows call rule i ws db = (None, db') \<Longrightarrow>
     db' = db\<lparr>rdWindows := rev (window_rows call rule i ws) @ rdWindows db\<rparr> \<and> fresh_windows rule (window_rows call rule i ws) (rdWindows db)"
proof (induction call rule i ws db rule: insertWindows.induct)
  case (1 call rule i db)
  then show ?case by (simp add: fresh_windows_def)
next
  case (2 call rule i w ws db)
  define wid where "wid = (if wID w = uuid_nil then rcWindowIDs call i else wID w)"
  define row where "row = window_row_of call rule i w"
  note s = 2(2)[unfolded insertWindows.simps Let_def, folded wid_def row_def]
  have c: "window_sound row" "map_of (rdWindows db) wid = None" "\<not> list_ex (\<lambda>(_, q). rwRule q = rule \<and> rwPeriod q = rwPeriod row) (rdWindows db)"
    and r: "insertWindows call rule (Suc i) ws (db\<lparr>rdWindows := (wid, row) # rdWindows db\<rparr>) = (None, db')"
    using s by (auto simp: window_sound_def split: if_splits)
  have f: "\<not> rcFaults call (RInsertWindow i)" "\<not> (\<not> int4 (rwRequests row) \<or> \<not> int4 (rwBurst row))"
    "\<not> \<not> (0 < rwRequests row \<and> 0 < rwPeriod row \<and> rwPeriod row \<le> 86400 \<and> 0 \<le> rwBurst row)"
    using s by (auto split: if_splits)
  have IH: "db' = db\<lparr>rdWindows := rev (window_rows call rule (Suc i) ws) @ (wid, row) # rdWindows db\<rparr>"
    "fresh_windows rule (window_rows call rule (Suc i) ws) ((wid, row) # rdWindows db)"
    using 2(1)[folded wid_def row_def, OF refl refl f, simplified] c r by auto
  have w: "window_rows call rule i (w # ws) = (wid, row) # window_rows call rule (Suc i) ws" by (simp add: wid_def row_def)
  have "fresh_windows rule (window_rows call rule i (w # ws)) (rdWindows db)"
    using IH(2) c unfolding w by (auto simp: fresh_windows_def list_ex_iff map_of_eq_None_iff row_def image_iff)
  with IH(1) w show ?case by simp
qed

section \<open>The tables stay sound\<close>

text \<open>What a column holds it holds again.\<close>

lemma split_once:
  "x = [] \<or> \<not> P (hd x) \<Longrightarrow> takeWhile P (takeWhile P cs @ x) = takeWhile P cs \<and> dropWhile P (takeWhile P cs @ x) = x"
  by (cases x; induction cs) auto

lemma rune_texts_take: "rune_texts (concat (take n (rune_texts s))) = take n (rune_texts s)"
proof (induction s arbitrary: n rule: rune_texts.induct)
  case (2 c cs)
  let ?P = "\<lambda>d. \<not> rune_start d"
  show ?case
  proof (cases n)
    case (Suc m)
    let ?X = "concat (take m (rune_texts (dropWhile ?P cs)))"
    have x: "?X = [] \<or> rune_start (hd ?X)"
    proof (cases "dropWhile ?P cs")
      case Nil
      show ?thesis unfolding Nil by simp
    next
      case (Cons d ds)
      then have "rune_start d" using hd_dropWhile[of ?P cs] by simp
      then show ?thesis unfolding Cons by (cases m) simp_all
    qed
    have t: "takeWhile ?P (takeWhile ?P cs @ ?X) = takeWhile ?P cs" "dropWhile ?P (takeWhile ?P cs @ ?X) = ?X"
      using split_once[of ?X ?P cs] x by simp_all
    show ?thesis using 2[of m] t by (simp add: Suc)
  qed simp
qed simp

lemma varchar_idem: "varchar n s = Some t \<Longrightarrow> varchar n t = Some t"
  using rune_texts_take[of n s] by (auto simp: varchar_def split: if_splits)

lemma stored_texts_idem: "stored_texts i = Some (name, target) \<Longrightarrow> varchar 100 name = Some name \<and> varchar 255 target = Some target"
  using varchar_idem by (auto simp: stored_texts_def split: option.splits)

definition rule_sound :: "rate_limit_row \<Rightarrow> bool" where
  "rule_sound r \<longleftrightarrow> rlKind r \<in> set validRateLimitTargetKinds \<and> rlScope r \<in> set validRateLimitScopes
     \<and> rlAudience r \<in> set validRateLimitAudiences \<and> rlStrategy r \<in> set validRateLimitStrategies
     \<and> rlMethods r \<noteq> [] \<and> set (rlMethods r) \<subseteq> set valid_actions
     \<and> \<not> (rlAudience r = ''guest'' \<and> (rlScope r = ''user'' \<or> rlScope r = ''token''))
     \<and> varchar 100 (rlName r) = Some (rlName r) \<and> varchar 255 (rlTarget r) = Some (rlTarget r)"

definition budget_sound :: "(uuid \<times> window_row) list \<Rightarrow> bool" where
  "budget_sound ws \<longleftrightarrow> ws \<noteq> [] \<and> length ws \<le> 5 \<and> distinct (map (rwPeriod \<circ> snd) ws) \<and> (\<forall>p \<in> set ws. window_sound (snd p))"

definition rules_wf :: "rules_db \<Rightarrow> bool" where
  "rules_wf db \<longleftrightarrow> distinct (map fst (rdRules db)) \<and> distinct (map (rlName \<circ> snd) (rdRules db)) \<and> distinct (map fst (rdWindows db))
     \<and> (\<forall>p \<in> set (rdWindows db). \<exists>r. map_of (rdRules db) (rwRule (snd p)) = Some r)
     \<and> (\<forall>p \<in> set (rdRules db). rule_sound (snd p) \<and> budget_sound (windows_of (fst p) db))"

lemma windows_of_rev: "windows_of rule (db\<lparr>rdWindows := rev ws @ old\<rparr>) =
   rev (filter (\<lambda>(_, w). rwRule w = rule) ws) @ filter (\<lambda>(_, w). rwRule w = rule) old"
  by (simp add: windows_of_def rev_filter)

lemma window_rows_rule: "p \<in> set (window_rows call rule i ws) \<Longrightarrow> rwRule (snd p) = rule"
  by (induction call rule i ws rule: window_rows.induct) auto

lemma filter_window_rows: "filter (\<lambda>(_, w). rwRule w = k) (window_rows call rule i ws) = (if k = rule then window_rows call rule i ws else [])"
  by (induction call rule i ws rule: window_rows.induct) auto

lemma length_window_rows [simp]: "length (window_rows call rule i ws) = length ws"
  by (induction call rule i ws rule: window_rows.induct) auto

lemma window_rows_Nil [simp]: "window_rows call rule i ws = [] \<longleftrightarrow> ws = []"
  by (cases ws) auto

lemma fresh_windows_rev: "fresh_windows rule new old \<Longrightarrow> distinct (map fst (rev new)) \<and> distinct (map (rwPeriod \<circ> snd) (rev new))"
  by (simp add: fresh_windows_def rev_map[symmetric])

lemma rule_validated: "CreateRateLimitInput_Validate i = None \<longleftrightarrow> IsUUIDV7 (iID i) \<and> rule_ok i"
  "UpdateRateLimitInput_Validate i = CreateRateLimitInput_Validate i"
  by (simp_all add: CreateRateLimitInput_Validate_def UpdateRateLimitInput_Validate_def errs_result_None validateRateLimitCommon_Nil Add_Nil_None)

text \<open>The rule's windows replaced by new ones.\<close>

lemma rules_wf_write:
  assumes wf: "rules_wf db" and rules: "distinct (map fst rs)" "distinct (map (rlName \<circ> snd) rs)" "map_of rs k = Some r"
    "\<And>j. j \<noteq> k \<Longrightarrow> map_of rs j = map_of (rdRules db) j" and r: "rule_sound r"
    and old: "\<And>p. p \<in> set old \<Longrightarrow> p \<in> set (rdWindows db) \<and> rwRule (snd p) \<noteq> k" "distinct (map fst old)"
    "\<And>j. j \<noteq> k \<Longrightarrow> filter (\<lambda>(_, w). rwRule w = j) old = windows_of j db"
    and new: "fresh_windows k (window_rows call k i ws) old" "ws \<noteq> []" "length ws \<le> 5"
  shows "rules_wf \<lparr>rdRules = rs, rdWindows = rev (window_rows call k i ws) @ old\<rparr>"
proof -
  let ?db = "\<lparr>rdRules = rs, rdWindows = rev (window_rows call k i ws) @ old\<rparr>"
  have none: "filter (\<lambda>(_, w). rwRule w = k) old = []" using old(1) by (fastforce simp: filter_empty_conv)
  have w: "windows_of j ?db = (if j = k then rev (window_rows call k i ws) else windows_of j db)" for j
    using none old(3)[of j] by (simp add: windows_of_def rev_filter[symmetric] filter_window_rows)
  have k: "budget_sound (rev (window_rows call k i ws))"
    using new fresh_windows_rev[OF new(1)] by (simp add: budget_sound_def fresh_windows_def)
  have d: "distinct (map fst (rdWindows ?db))"
    using fresh_windows_rev[OF new(1)] new(1) old(2) by (simp add: fresh_windows_def)
  have o: "\<exists>r. map_of rs (rwRule (snd p)) = Some r" if "p \<in> set (rdWindows ?db)" for p
  proof (cases "p \<in> set old")
    case True
    with old(1)[OF this] wf rules(4)[of "rwRule (snd p)"] show ?thesis by (auto simp: rules_wf_def)
  next
    case False
    with that rules(3) window_rows_rule show ?thesis by auto
  qed
  have s: "rule_sound (snd p) \<and> budget_sound (windows_of (fst p) ?db)" if "p \<in> set rs" for p
  proof (cases "fst p = k")
    case True
    with that rules(1,3) have "snd p = r" by (metis map_of_is_SomeI option.inject prod.collapse)
    with True r k w show ?thesis by simp
  next
    case False
    with that rules(1,4) have "map_of (rdRules db) (fst p) = Some (snd p)" by (metis map_of_is_SomeI prod.collapse)
    then have "(fst p, snd p) \<in> set (rdRules db)" by (rule map_of_SomeD)
    with wf False w show ?thesis by (fastforce simp: rules_wf_def)
  qed
  from rules d o s show ?thesis by (simp add: rules_wf_def)
qed

lemma rule_ok_row:
  assumes "rule_ok i" "stored_texts i = Some (name, target)"
  shows "rule_sound (rule_row_of call i name target)" "rule_sound (updated_rule call i name target q)" "iWindows i \<noteq> []" "length (iWindows i) \<le> 5"
  using assms(1) stored_texts_idem[OF assms(2)] by (auto simp: rule_ok_def rule_sound_def rule_row_of_def updated_rule_def)

lemma committed_None: "committed call db r = (None, db') \<longleftrightarrow> r = (None, db') \<and> \<not> rcFaults call RCommit"
  by (cases r) (auto simp: committed_def split: option.splits)

lemma committed_Some: "committed call db r = (Some e, db') \<Longrightarrow> db' = db"
  by (cases r) (auto simp: committed_def split: option.splits if_splits)

lemma repo_InsertRule_cases:
  assumes "repo_InsertRule call i db = (err, db')"
  shows "(err \<noteq> None \<and> db' = db) \<or>
    (\<exists>name target. err = None \<and> CreateRateLimitInput_Validate i = None \<and> stored_texts i = Some (name, target)
       \<and> map_of (rdRules db) (iID i) = None \<and> \<not> list_ex (\<lambda>(_, q). rlName q = name) (rdRules db)
       \<and> db' = \<lparr>rdRules = (iID i, rule_row_of call i name target) # rdRules db,
            rdWindows = rev (window_rows call (iID i) 0 (iWindows i)) @ rdWindows db\<rparr>
       \<and> fresh_windows (iID i) (window_rows call (iID i) 0 (iWindows i)) (rdWindows db))"
proof (cases err)
  case (Some e)
  with assms show ?thesis
    by (auto simp: repo_InsertRule_def split: option.splits if_splits prod.splits dest: committed_Some)
next
  case None
  obtain name target where t: "stored_texts i = Some (name, target)"
    using assms None by (auto simp: repo_InsertRule_def split: option.splits if_splits prod.splits)
  have c: "CreateRateLimitInput_Validate i = None" "map_of (rdRules db) (iID i) = None" "\<not> list_ex (\<lambda>(_, q). rlName q = name) (rdRules db)"
    "insertWindows call (iID i) 0 (iWindows i) (db\<lparr>rdRules := (iID i, rule_row_of call i name target) # rdRules db\<rparr>) = (None, db')"
    using assms None t by (auto simp: repo_InsertRule_def committed_None split: option.splits if_splits)
  from insertWindows_success[OF c(4)] c t None show ?thesis
    by (intro disjI2 exI[of _ name] exI[of _ target]) simp
qed

lemma repo_UpdateRule_cases:
  assumes "repo_UpdateRule call i db = (err, db')"
  shows "(err \<noteq> None \<and> db' = db) \<or>
    (\<exists>name target r. err = None \<and> UpdateRateLimitInput_Validate i = None \<and> stored_texts i = Some (name, target)
       \<and> map_of (rdRules db) (iID i) = Some r \<and> \<not> rlSystem r \<and> \<not> system_windows (iID i) db
       \<and> \<not> list_ex (\<lambda>(k, q). k \<noteq> iID i \<and> rlName q = name) (rdRules db)
       \<and> db' = \<lparr>rdRules = AList.update (iID i) (updated_rule call i name target r) (rdRules db),
            rdWindows = rev (window_rows call (iID i) 0 (iWindows i)) @ filter (\<lambda>(_, w). rwRule w \<noteq> iID i) (rdWindows db)\<rparr>
       \<and> fresh_windows (iID i) (window_rows call (iID i) 0 (iWindows i)) (filter (\<lambda>(_, w). rwRule w \<noteq> iID i) (rdWindows db)))"
proof (cases err)
  case (Some e)
  with assms show ?thesis
    by (auto simp: repo_UpdateRule_def split: option.splits if_splits prod.splits dest: committed_Some)
next
  case None
  obtain name target r where t: "stored_texts i = Some (name, target)" "map_of (rdRules db) (iID i) = Some r"
    using assms None by (auto simp: repo_UpdateRule_def split: option.splits if_splits prod.splits)
  have c: "UpdateRateLimitInput_Validate i = None" "\<not> rlSystem r" "\<not> system_windows (iID i) db" "\<not> list_ex (\<lambda>(k, q). k \<noteq> iID i \<and> rlName q = name) (rdRules db)"
    "insertWindows call (iID i) 0 (iWindows i) (without_windows (iID i)
       (db\<lparr>rdRules := AList.update (iID i) (updated_rule call i name target r) (rdRules db)\<rparr>)) = (None, db')"
    using assms None t by (auto simp: repo_UpdateRule_def committed_None split: option.splits if_splits)
  from insertWindows_success[OF c(5)] c t None show ?thesis
    by (intro disjI2 exI[of _ name] exI[of _ target] exI[of _ r]) (simp add: without_windows_def)
qed

lemma repo_DeleteRule_cases:
  "repo_DeleteRule call k db = (err, db') \<Longrightarrow> (err \<noteq> None \<and> db' = db) \<or>
     (\<exists>r. err = None \<and> map_of (rdRules db) k = Some r \<and> \<not> rlSystem r \<and> \<not> system_windows k db
       \<and> db' = \<lparr>rdRules = filter (\<lambda>(j, _). j \<noteq> k) (rdRules db), rdWindows = filter (\<lambda>(_, w). rwRule w \<noteq> k) (rdWindows db)\<rparr>)"
  by (auto simp: repo_DeleteRule_def without_windows_def split: option.splits if_splits)

lemma update_distinct_names:
  "distinct (map fst al) \<Longrightarrow> distinct (map (g \<circ> snd) al) \<Longrightarrow> \<forall>(j, q) \<in> set al. j \<noteq> k \<longrightarrow> g q \<noteq> g v \<Longrightarrow>
     distinct (map (g \<circ> snd) (AList.update k v al))"
proof (induction al)
  case (Cons p al)
  obtain j q where p: "p = (j, q)" by (cases p)
  show ?case
  proof (cases "j = k")
    case True
    with Cons.prems p show ?thesis by fastforce
  next
    case False
    have "g q \<noteq> g v'" if "(j', v') \<in> set (AList.update k v al)" for j' v'
      using set_update[OF that] Cons.prems False p by force
    with False Cons p show ?thesis by force
  qed
qed simp

lemma rules_wf_window:
  assumes "rules_wf db" "p \<in> set (rdWindows db)"
  shows "map_of (rdRules db) (rwRule (snd p)) \<noteq> None"
  using assms by (fastforce simp: rules_wf_def)

lemma repo_InsertRule_wf:
  assumes "rules_wf db"
  shows "rules_wf (snd (repo_InsertRule call i db))"
proof -
  obtain err db' where r: "repo_InsertRule call i db = (err, db')" by (rule prod.exhaust)
  from repo_InsertRule_cases[OF r] show ?thesis
  proof (elim disjE exE conjE)
    assume "db' = db" with r assms show ?thesis by simp
  next
    fix name target
    assume v: "CreateRateLimitInput_Validate i = None" and tx: "stored_texts i = Some (name, target)" and n: "map_of (rdRules db) (iID i) = None" "\<not> list_ex (\<lambda>(_, q). rlName q = name) (rdRules db)"
      and d: "db' = \<lparr>rdRules = (iID i, rule_row_of call i name target) # rdRules db, rdWindows = rev (window_rows call (iID i) 0 (iWindows i)) @ rdWindows db\<rparr>"
      and f: "fresh_windows (iID i) (window_rows call (iID i) 0 (iWindows i)) (rdWindows db)"
    have k: "rule_ok i" using v by (simp add: rule_validated)
    have w: "rwRule (snd p) \<noteq> iID i" if "p \<in> set (rdWindows db)" for p
      using rules_wf_window[OF assms that] n(1) by auto
    have "rlName (rule_row_of call i name target) = name" by (simp add: rule_row_of_def)
    with n(2) have nm: "distinct (map (rlName \<circ> snd) ((iID i, rule_row_of call i name target) # rdRules db))"
      using assms by (auto simp: rules_wf_def list_ex_iff)
    have "distinct (map fst ((iID i, rule_row_of call i name target) # rdRules db))"
      using assms n(1) by (simp add: rules_wf_def map_of_eq_None_iff)
    from rules_wf_write[OF assms this nm, of "iID i" "rule_row_of call i name target" "rdWindows db" call 0 "iWindows i"]
    have "rules_wf db'"
      using rule_ok_row[OF k tx] f w assms d by (auto simp: rules_wf_def windows_of_def)
    with r show ?thesis by simp
  qed
qed

lemma repo_UpdateRule_wf:
  assumes "rules_wf db"
  shows "rules_wf (snd (repo_UpdateRule call i db))"
proof -
  obtain err db' where r: "repo_UpdateRule call i db = (err, db')" by (rule prod.exhaust)
  from repo_UpdateRule_cases[OF r] show ?thesis
  proof (elim disjE exE conjE)
    assume "db' = db" with r assms show ?thesis by simp
  next
    fix name target q
    assume v: "UpdateRateLimitInput_Validate i = None" and tx: "stored_texts i = Some (name, target)" and n: "\<not> list_ex (\<lambda>(k, q). k \<noteq> iID i \<and> rlName q = name) (rdRules db)"
      and d: "db' = \<lparr>rdRules = AList.update (iID i) (updated_rule call i name target q) (rdRules db),
            rdWindows = rev (window_rows call (iID i) 0 (iWindows i)) @ filter (\<lambda>(_, w). rwRule w \<noteq> iID i) (rdWindows db)\<rparr>"
      and f: "fresh_windows (iID i) (window_rows call (iID i) 0 (iWindows i)) (filter (\<lambda>(_, w). rwRule w \<noteq> iID i) (rdWindows db))"
    have k: "rule_ok i" using v by (simp add: rule_validated)
    have m: "rlName (updated_rule call i name target q) = name" by (simp add: updated_rule_def)
    have nm: "distinct (map (rlName \<circ> snd) (AList.update (iID i) (updated_rule call i name target q) (rdRules db)))"
      using assms n m by (intro update_distinct_names) (auto simp: rules_wf_def list_ex_iff)
    have ks: "distinct (map fst (AList.update (iID i) (updated_rule call i name target q) (rdRules db)))"
      using assms by (simp add: rules_wf_def distinct_update)
    have old: "filter (\<lambda>(_, w). rwRule w = j) (filter (\<lambda>(_, w). rwRule w \<noteq> iID i) (rdWindows db)) = windows_of j db" if "j \<noteq> iID i" for j
      using that by (auto simp: windows_of_def intro: filter_cong)
    have dw: "distinct (map fst (filter (\<lambda>(_, w). rwRule w \<noteq> iID i) (rdWindows db)))"
      using assms by (auto simp: rules_wf_def intro: distinct_map_filter)
    have "rules_wf db'"
      unfolding d
      by (rule rules_wf_write[OF assms ks nm, where r = "updated_rule call i name target q"])
        (use rule_ok_row[OF k tx] f old dw in \<open>auto simp: update_conv'\<close>)
    with r show ?thesis by simp
  qed
qed

lemma repo_DeleteRule_wf:
  assumes "rules_wf db"
  shows "rules_wf (snd (repo_DeleteRule call k db))"
proof -
  obtain err db' where r: "repo_DeleteRule call k db = (err, db')" by (rule prod.exhaust)
  from repo_DeleteRule_cases[OF r] show ?thesis
  proof (elim disjE exE conjE)
    assume "db' = db" with r assms show ?thesis by simp
  next
    fix q assume d: "db' = \<lparr>rdRules = filter (\<lambda>(j, _). j \<noteq> k) (rdRules db), rdWindows = filter (\<lambda>(_, w). rwRule w \<noteq> k) (rdWindows db)\<rparr>"
    have w: "windows_of j db' = windows_of j db" if "j \<noteq> k" for j
      using that by (auto simp: d windows_of_def intro: filter_cong)
    have "map_of (filter (\<lambda>(j, _). j \<noteq> k) al) j = map_of al j" if "j \<noteq> k" for j and al :: "(uuid \<times> rate_limit_row) list"
      using that by (induction al) auto
    with w assms have "rules_wf db'" by (auto simp: rules_wf_def d intro: distinct_map_filter) fastforce
    with r show ?thesis by simp
  qed
qed

section \<open>Runs\<close>

datatype rl_op = RlCreate rl_call CreateRateLimitInput | RlUpdate rl_call UpdateRateLimitInput | RlDelete rl_call uuid | RlTick rl_call

text \<open>The ticker reloads the mirror of the replica.\<close>

fun rl_step :: "rl_op \<Rightarrow> rl_state \<Rightarrow> rl_error option \<times> rl_state" where
  "rl_step (RlCreate call i) st = RateLimits_Create call (Some i) st"
| "rl_step (RlUpdate call i) st = RateLimits_UpdateByID call (Some i) st"
| "rl_step (RlDelete call k) st = RateLimits_DeleteByID call (Some k) st"
| "rl_step (RlTick call) st =
     (None, st\<lparr>rsMirror := map_option (\<lambda>m. snd (Reload (rcNow call) (reload_answer call (rsTables st)) m)) (rsMirror st)\<rparr>)"

definition rl_run :: "rl_op list \<Rightarrow> rl_state \<Rightarrow> rl_state" where
  "rl_run ops st = fold (\<lambda>op st. snd (rl_step op st)) ops st"

lemma rl_run_simps [simp]: "rl_run [] st = st" "rl_run (op # ops) st = rl_run ops (snd (rl_step op st))"
  by (simp_all add: rl_run_def)

lemma rl_applyLocally_tables [simp]: "rsTables (rl_applyLocally call st) = rsTables st"
  by (simp add: rl_applyLocally_def Let_def split: option.split)

lemma after_write_tables [simp]: "rsTables (snd (after_write call r st)) = snd r" "fst (after_write call r st) = fst r"
  by (simp_all add: after_write_def split: option.split)

text \<open>A step leaves the tables, or is one statement of the repository on them.\<close>

lemma rl_step_tables:
  "rsTables (snd (rl_step op st)) = rsTables st
   \<or> (\<exists>call i. rl_step op st = after_write call (repo_InsertRule call i (rsTables st)) st)
   \<or> (\<exists>call i. rl_step op st = after_write call (repo_UpdateRule call i (rsTables st)) st)
   \<or> (\<exists>call k. rl_step op st = after_write call (repo_DeleteRule call k (rsTables st)) st)"
proof (cases op)
  case (RlCreate call i)
  then show ?thesis by (auto simp: RateLimits_Create_def Let_def split: option.splits)
next
  case (RlUpdate call i)
  then show ?thesis by (auto simp: RateLimits_UpdateByID_def split: option.splits)
next
  case (RlDelete call k)
  then show ?thesis by (auto simp: RateLimits_DeleteByID_def)
qed simp

lemma rl_step_wf: "rules_wf (rsTables st) \<Longrightarrow> rules_wf (rsTables (snd (rl_step op st)))"
  using rl_step_tables[of op st] repo_InsertRule_wf repo_UpdateRule_wf repo_DeleteRule_wf by auto

lemma rl_run_wf: "rules_wf (rsTables st) \<Longrightarrow> rules_wf (rsTables (rl_run ops st))"
  by (induction ops arbitrary: st) (auto simp: rl_step_wf)

section \<open>What is enforced\<close>

lemma stored_rules_enforceable:
  assumes "rules_wf db"
  shows "EnforceableRateLimits (stored_rules db) = stored_rules db"
proof -
  have "IsEnabled (rule_of_row db p) \<and> EnforceabilityProblem (rule_of_row db p) = []"
    if p: "p \<in> set (rdRules db)" "rlEnabled (snd p)" for p
  proof -
    from assms p have s: "rlStrategy (snd p) \<in> set validRateLimitStrategies" "windows_of (fst p) db \<noteq> []"
      by (auto simp: rules_wf_def rule_sound_def budget_sound_def)
    have v: "IsValidRateLimitStrategy (rlStrategy (snd p)) = None" by (simp add: IsValidRateLimitStrategy_None s(1))
    have w: "selectWindows (fst p) db \<noteq> []"
      using s(2) unfolding selectWindows_def by (metis length_0_conv length_map length_sort)
    show ?thesis using p(2) v w by (simp add: IsEnabled_def EnforceabilityProblem_def rule_of_row_def)
  qed
  then show ?thesis by (auto simp: EnforceableRateLimits_filter stored_rules_def intro!: filter_True)
qed

lemma reload_stored:
  "\<not> rcFaults call RSelect \<Longrightarrow> \<not> rcFaults call RSelectWindows \<Longrightarrow> reload_answer call db = Inr (stored_rules db)"
  by (simp add: reload_answer_def repo_SelectAll_def)

text \<open>
  C19. What is stored is what is enforced.  From sound tables, whatever was
  created, changed, deleted and reloaded before and whatever failed then, once
  a write succeeds and its reload reads the tables, the replica it was made on
  resolves every request by exactly the enabled rules as they are stored (the
  loader drops none of them), and the effective rules it reports are the same.
\<close>

theorem written_rules_are_enforced:
  assumes "rules_wf (rsTables st)" "rl_step op (rl_run ops st) = (None, st')" "rsMirror (rl_run ops st) \<noteq> None"
    and "op = RlCreate call i \<or> op = RlUpdate call i \<or> op = RlDelete call k \<or> op = RlTick call"
    and "\<not> rcFaults call RSelect" "\<not> rcFaults call RSelectWindows"
  shows "\<exists>m. rsMirror st' = Some m \<and> Resolve m req = (ResolveRateLimits (stored_rules (rsTables st')) req, True)
    \<and> Effective call' req st' = Inr (ResolveRateLimits (stored_rules (rsTables st')) req)"
proof -
  let ?st = "rl_run ops st"
  obtain m where m: "rsMirror ?st = Some m" using assms(3) by blast
  have w: "\<exists>m'. rsMirror st' = Some m' \<and> mirrorRules m' = Some (EnforceableRateLimits (stored_rules (rsTables st')))"
  proof -
    have a: "\<exists>m'. rsMirror (snd (after_write call r ?st)) = Some m' \<and> mirrorRules m' = Some (EnforceableRateLimits (stored_rules (snd r)))"
      if "fst r = None" for r
      using that m reload_stored[OF assms(5,6)] by (auto simp: after_write_def rl_applyLocally_def Reload_def Let_def)
    from assms(4) show ?thesis
    proof (elim disjE)
      assume "op = RlCreate call i"
      define j where "j = i\<lparr>iID := EnsureUUIDV7 (rcFresh call) (iID i)\<rparr>"
      have "rl_step op ?st = after_write call (repo_InsertRule call j (rsTables ?st)) ?st"
        using assms(2) \<open>op = RlCreate call i\<close> by (simp add: RateLimits_Create_def Let_def j_def[symmetric] split: option.splits)
      with a[of "repo_InsertRule call j (rsTables ?st)"] assms(2) show ?thesis by (metis after_write_tables fst_conv snd_conv)
    next
      assume "op = RlUpdate call i"
      then have "rl_step op ?st = after_write call (repo_UpdateRule call i (rsTables ?st)) ?st"
        using assms(2) by (auto simp: RateLimits_UpdateByID_def split: option.splits)
      with a[of "repo_UpdateRule call i (rsTables ?st)"] assms(2) show ?thesis by (metis after_write_tables fst_conv snd_conv)
    next
      assume "op = RlDelete call k"
      then have "rl_step op ?st = after_write call (repo_DeleteRule call k (rsTables ?st)) ?st"
        by (simp add: RateLimits_DeleteByID_def)
      with a[of "repo_DeleteRule call k (rsTables ?st)"] assms(2) show ?thesis by (metis after_write_tables fst_conv snd_conv)
    next
      assume "op = RlTick call"
      with assms(2) m reload_stored[OF assms(5,6)] show ?thesis by (auto simp: Reload_def)
    qed
  qed
  have "rules_wf (rsTables st')" using rl_step_wf[OF rl_run_wf[OF assms(1), of ops], of op] assms(2) by simp
  from w stored_rules_enforceable[OF this] show ?thesis by (auto simp: Resolve_def Rules_def Effective_def)
qed

section \<open>The rules of the system\<close>

lemma selectWindows_cong: "windows_of k db' = windows_of k db \<Longrightarrow> rule_of_row db' (k, r) = rule_of_row db (k, r)"
  by (simp add: rule_of_row_def selectWindows_def)

definition kept :: "uuid \<Rightarrow> rules_db \<Rightarrow> rules_db \<Rightarrow> bool" where
  "kept k db db' \<longleftrightarrow> map_of (rdRules db') k = map_of (rdRules db) k \<and> windows_of k db' = windows_of k db"

lemma other_windows_kept: "k \<noteq> j \<Longrightarrow> filter (\<lambda>(_, w). rwRule w = k) (rev (window_rows call j i ws)) = []"
  using filter_window_rows[of k call j i ws] by (simp add: rev_filter[symmetric])

lemma filter_other: "k \<noteq> j \<Longrightarrow> filter (\<lambda>(_, w). rwRule w = k) (filter (\<lambda>(_, w). rwRule w \<noteq> j) ws) = filter (\<lambda>(_, w). rwRule w = k) ws"
  by (auto intro: filter_cong)

lemma without_windows_other: "k \<noteq> j \<Longrightarrow> windows_of k \<lparr>rdRules = rs, rdWindows = filter (\<lambda>(_, w). rwRule w \<noteq> j) (rdWindows db)\<rparr> = windows_of k db"
  by (simp only: windows_of_def rules_db.select_convs filter_other not_False_eq_True)

lemma windows_of_append: "windows_of k \<lparr>rdRules = rs, rdWindows = a @ b\<rparr> =
   filter (\<lambda>(_, w). rwRule w = k) a @ windows_of k \<lparr>rdRules = rs, rdWindows = b\<rparr>"
  by (simp add: windows_of_def)

lemma map_of_filter_other: "k \<noteq> j \<Longrightarrow> map_of (filter (\<lambda>(l, _). l \<noteq> j) al) k = map_of al k"
  by (induction al) auto

lemma repo_InsertRule_kept:
  assumes "map_of (rdRules db) k = Some r"
  shows "kept k db (snd (repo_InsertRule call i db))"
proof -
  obtain err db' where e: "repo_InsertRule call i db = (err, db')" by (rule prod.exhaust)
  from repo_InsertRule_cases[OF e] show ?thesis
  proof (elim disjE exE conjE)
    fix name target
    assume n: "map_of (rdRules db) (iID i) = None"
      and d: "db' = \<lparr>rdRules = (iID i, rule_row_of call i name target) # rdRules db,
            rdWindows = rev (window_rows call (iID i) 0 (iWindows i)) @ rdWindows db\<rparr>"
    have k: "k \<noteq> iID i" using assms n by auto
    show ?thesis unfolding e snd_conv d kept_def windows_of_def using k other_windows_kept[OF k] by simp
  qed (simp add: e kept_def)
qed

lemma repo_UpdateRule_kept:
  assumes "map_of (rdRules db) k = Some r" "rlSystem r"
  shows "kept k db (snd (repo_UpdateRule call i db))"
proof -
  obtain err db' where e: "repo_UpdateRule call i db = (err, db')" by (rule prod.exhaust)
  from repo_UpdateRule_cases[OF e] show ?thesis
  proof (elim disjE exE conjE)
    fix name target q
    assume n: "map_of (rdRules db) (iID i) = Some q" "\<not> rlSystem q"
      and d: "db' = \<lparr>rdRules = AList.update (iID i) (updated_rule call i name target q) (rdRules db),
            rdWindows = rev (window_rows call (iID i) 0 (iWindows i)) @ filter (\<lambda>(_, w). rwRule w \<noteq> iID i) (rdWindows db)\<rparr>"
    have k: "k \<noteq> iID i" using assms n by auto
    show ?thesis unfolding e snd_conv d kept_def windows_of_append other_windows_kept[OF k] without_windows_other[OF k] append_Nil
      using k by (simp add: update_conv')
  qed (simp add: e kept_def)
qed

lemma repo_DeleteRule_kept:
  assumes "map_of (rdRules db) k = Some r" "rlSystem r"
  shows "kept k db (snd (repo_DeleteRule call j db))"
proof -
  obtain err db' where e: "repo_DeleteRule call j db = (err, db')" by (rule prod.exhaust)
  from repo_DeleteRule_cases[OF e] show ?thesis
  proof (elim disjE exE conjE)
    fix q
    assume n: "map_of (rdRules db) j = Some q" "\<not> rlSystem q"
      and d: "db' = \<lparr>rdRules = filter (\<lambda>(l, _). l \<noteq> j) (rdRules db), rdWindows = filter (\<lambda>(_, w). rwRule w \<noteq> j) (rdWindows db)\<rparr>"
    have k: "k \<noteq> j" using assms n by auto
    show ?thesis unfolding e snd_conv d kept_def without_windows_other[OF k] using map_of_filter_other[OF k] by simp
  qed (simp add: e kept_def)
qed

lemma rl_step_system_kept:
  assumes "map_of (rdRules (rsTables st)) k = Some r" "rlSystem r"
  shows "kept k (rsTables st) (rsTables (snd (rl_step op st)))"
  using rl_step_tables[of op st] repo_InsertRule_kept[OF assms(1)] repo_UpdateRule_kept[OF assms] repo_DeleteRule_kept[OF assms] by (auto simp: kept_def)

text \<open>
  C26. A rule of the system is as it was after every run: no create, update or
  delete changes its row or its windows, and reading it answers the same rule.
\<close>

theorem system_rules_are_kept:
  assumes "map_of (rdRules (rsTables st)) k = Some r" "rlSystem r"
  shows "RateLimits_GetByID call k (rl_run ops st) = RateLimits_GetByID call k st"
proof -
  have "map_of (rdRules (rsTables (rl_run ops st))) k = Some r \<and> windows_of k (rsTables (rl_run ops st)) = windows_of k (rsTables st)"
    using assms(1)
  proof (induction ops arbitrary: st)
    case (Cons op ops)
    with rl_step_system_kept[OF Cons.prems assms(2), of op] show ?case by (auto simp: kept_def)
  qed simp
  then have "map_of (rdRules (rsTables (rl_run ops st))) k = Some r" "rule_of_row (rsTables (rl_run ops st)) (k, r) = rule_of_row (rsTables st) (k, r)"
    using selectWindows_cong by blast+
  with assms(1) show ?thesis by (simp add: RateLimits_GetByID_def repo_SelectRule_def)
qed

section \<open>What a write stores\<close>

text \<open>A rule just written reads back with its texts, its flags and its windows, shortest first, each period in whole seconds.\<close>

definition window_seconds :: "RateLimitWindow \<Rightarrow> int \<times> int \<times> int" where
  "window_seconds w = (wPeriod w div second * second, wRequests w, wBurst w)"

lemma window_rows_window_seconds:
  "map (\<lambda>p. window_seconds (window_of_row p)) (window_rows call rule i ws) = map window_seconds ws"
  by (induction call rule i ws rule: window_rows.induct) (simp_all add: window_seconds_def window_of_row_def window_row_of_def)

lemma selectWindows_written:
  assumes "windows_of k db = rev (window_rows call rule i ws)"
  shows "mset (map window_seconds (selectWindows k db)) = mset (map window_seconds ws)"
proof -
  have "mset (map window_seconds (selectWindows k db)) = mset (map (\<lambda>p. window_seconds (window_of_row p)) (window_rows call rule i ws))"
    by (simp add: selectWindows_def assms mset_map[symmetric] image_mset.compositionality comp_def del: mset_map) (simp add: image_mset.compositionality comp_def)
  then show ?thesis by (simp only: window_rows_window_seconds)
qed

lemma selectWindows_sorted: "distinct (map (rwPeriod \<circ> snd) (windows_of k db)) \<Longrightarrow> sorted_wrt (<) (map wPeriod (selectWindows k db))"
proof -
  assume d: "distinct (map (rwPeriod \<circ> snd) (windows_of k db))"
  let ?l = "sort_key (\<lambda>p. rwPeriod (snd p)) (windows_of k db)"
  have "mset (map (rwPeriod \<circ> snd) ?l) = mset (map (rwPeriod \<circ> snd) (windows_of k db))" by simp
  with d have "distinct (map (rwPeriod \<circ> snd) ?l)" by (metis mset_eq_imp_distinct_iff)
  then have "sorted_wrt (<) (map (rwPeriod \<circ> snd) ?l)"
    by (simp add: strict_sorted_iff comp_def)
  then show ?thesis by (simp add: selectWindows_def window_of_row_def sorted_wrt_map comp_def)
qed

text \<open>A successful create or update is a successful statement of the repository on a validated input.\<close>

lemma rl_create_success:
  assumes "rl_step (RlCreate call i) st = (None, st')" and "j = i\<lparr>iID := EnsureUUIDV7 (rcFresh call) (iID i)\<rparr>"
  shows "validateTarget call (iTargetKind i) (iTarget i) (iMethods i) = None"
    "repo_InsertRule call j (rsTables st) = (None, rsTables st')"
proof -
  have s: "validateTarget call (iTargetKind i) (iTarget i) (iMethods i) = None \<and> after_write call (repo_InsertRule call j (rsTables st)) st = (None, st')"
    using assms(1) by (auto simp: RateLimits_Create_def Let_def assms(2) split: option.splits)
  then show "validateTarget call (iTargetKind i) (iTarget i) (iMethods i) = None" by simp
  show "repo_InsertRule call j (rsTables st) = (None, rsTables st')"
    using s after_write_tables[of call "repo_InsertRule call j (rsTables st)" st] by (simp add: prod_eq_iff)
qed

lemma rl_update_success:
  assumes "rl_step (RlUpdate call i) st = (None, st')"
  shows "validateTarget call (iTargetKind i) (iTarget i) (iMethods i) = None"
    "repo_UpdateRule call i (rsTables st) = (None, rsTables st')"
proof -
  have s: "validateTarget call (iTargetKind i) (iTarget i) (iMethods i) = None \<and> after_write call (repo_UpdateRule call i (rsTables st)) st = (None, st')"
    using assms(1) by (auto simp: RateLimits_UpdateByID_def split: option.splits)
  then show "validateTarget call (iTargetKind i) (iTarget i) (iMethods i) = None" by simp
  show "repo_UpdateRule call i (rsTables st) = (None, rsTables st')"
    using s after_write_tables[of call "repo_UpdateRule call i (rsTables st)" st] by (simp add: prod_eq_iff)
qed

lemma windows_of_written: "windows_of k \<lparr>rdRules = rs, rdWindows = rev (window_rows call k i ws) @ old\<rparr> = rev (window_rows call k i ws)"
  if "\<And>p. p \<in> set old \<Longrightarrow> rwRule (snd p) \<noteq> k"
proof -
  have "filter (\<lambda>(_, w). rwRule w = k) old = []" using that by (fastforce simp: filter_empty_conv)
  then show ?thesis by (simp add: windows_of_def rev_filter[symmetric] filter_window_rows)
qed

text \<open>The row of the rule a successful write leaves, with its windows.\<close>

definition written :: "CreateRateLimitInput \<Rightarrow> uuid \<Rightarrow> rules_db \<Rightarrow> bool" where
  "written i k db \<longleftrightarrow> (\<exists>r. map_of (rdRules db) k = Some r \<and> stored_texts i = Some (rlName r, rlTarget r)
     \<and> rlDescription r = iDescription i \<and> rlKind r = iTargetKind i \<and> rlMethods r = iMethods i \<and> rlScope r = iScope i
     \<and> rlAudience r = iAudience i \<and> rlStrategy r = iStrategy i \<and> \<not> rlSystem r \<and> iEnabled i \<in> {None, Some (rlEnabled r)})
     \<and> (\<exists>call. windows_of k db = rev (window_rows call k 0 (iWindows i)))"

lemma repo_InsertRule_written:
  assumes "rules_wf db" "repo_InsertRule call i db = (None, db')"
  shows "written i (iID i) db'"
  using repo_InsertRule_cases[OF assms(2)]
proof (elim disjE exE conjE)
  fix name target
  assume t: "stored_texts i = Some (name, target)" and n: "map_of (rdRules db) (iID i) = None"
    and d: "db' = \<lparr>rdRules = (iID i, rule_row_of call i name target) # rdRules db, rdWindows = rev (window_rows call (iID i) 0 (iWindows i)) @ rdWindows db\<rparr>"
  have "windows_of (iID i) db' = rev (window_rows call (iID i) 0 (iWindows i))"
    unfolding d by (rule windows_of_written) (use rules_wf_window[OF assms(1)] n in fastforce)
  then show ?thesis using t by (auto simp: written_def d rule_row_of_def split: option.split)
qed simp

lemma repo_UpdateRule_written:
  assumes "repo_UpdateRule call i db = (None, db')"
  shows "written i (iID i) db'"
  using repo_UpdateRule_cases[OF assms]
proof (elim disjE exE conjE)
  fix name target q
  assume t: "stored_texts i = Some (name, target)" "\<not> rlSystem q"
    and d: "db' = \<lparr>rdRules = AList.update (iID i) (updated_rule call i name target q) (rdRules db),
            rdWindows = rev (window_rows call (iID i) 0 (iWindows i)) @ filter (\<lambda>(_, w). rwRule w \<noteq> iID i) (rdWindows db)\<rparr>"
  have "windows_of (iID i) db' = rev (window_rows call (iID i) 0 (iWindows i))"
    unfolding d by (rule windows_of_written) auto
  then show ?thesis using t by (auto simp: written_def d updated_rule_def update_conv' split: option.split)
qed simp

text \<open>The id a create or an update writes.\<close>

fun rl_target_id :: "rl_op \<Rightarrow> uuid" where
  "rl_target_id (RlCreate call i) = EnsureUUIDV7 (rcFresh call) (iID i)"
| "rl_target_id (RlUpdate call i) = iID i"
| "rl_target_id (RlDelete call k) = k"
| "rl_target_id (RlTick call) = uuid_nil"

lemma stored_texts_id [simp]: "stored_texts (i\<lparr>iID := k\<rparr>) = stored_texts i"
  by (simp add: stored_texts_def cong: option.case_cong)

lemma rl_step_written:
  assumes "rules_wf (rsTables st)" "rl_step op st = (None, st')" "op = RlCreate call i \<or> op = RlUpdate call i"
  shows "written i (rl_target_id op) (rsTables st')"
  using assms(3)
proof
  assume o: "op = RlCreate call i"
  show ?thesis
    using repo_InsertRule_written[OF assms(1) rl_create_success(2)[OF assms(2)[unfolded o] refl]] o by (simp add: written_def)
next
  assume o: "op = RlUpdate call i"
  show ?thesis using repo_UpdateRule_written[OF rl_update_success(2)[OF assms(2)[unfolded o]]] o by simp
qed

lemma written_reads_back:
  assumes "rules_wf (rsTables st)" "rl_step op st = (None, st')" "op = RlCreate call i \<or> op = RlUpdate call i"
    and "\<not> rcFaults call' RSelect" "\<not> rcFaults call' RSelectWindows"
  shows "\<exists>r. RateLimits_GetByID call' (rl_target_id op) st' = Inr r \<and> stored_texts i = Some (rName r, rTarget r)
    \<and> (rDescription r, rTargetKind r, rMethods r, rScope r, rAudience r, rStrategy r)
        = (iDescription i, iTargetKind i, iMethods i, iScope i, iAudience i, iStrategy i)
    \<and> rSystem r = Some False \<and> iEnabled i \<in> {None, rEnabled r}
    \<and> mset (map window_seconds (rWindows r)) = mset (map window_seconds (iWindows i)) \<and> sorted_wrt (<) (map wPeriod (rWindows r))"
proof -
  let ?db = "rsTables st'" and ?k = "rl_target_id op"
  have w: "written i ?k ?db" by (rule rl_step_written[OF assms(1-3)])
  then obtain r where r: "map_of (rdRules ?db) ?k = Some r" "stored_texts i = Some (rlName r, rlTarget r)"
    "rlDescription r = iDescription i" "rlKind r = iTargetKind i" "rlMethods r = iMethods i" "rlScope r = iScope i"
    "rlAudience r = iAudience i" "rlStrategy r = iStrategy i" "\<not> rlSystem r" "iEnabled i \<in> {None, Some (rlEnabled r)}"
    by (auto simp: written_def)
  have "rules_wf ?db" using rl_step_wf[OF assms(1), of op] assms(2) by simp
  with map_of_SomeD[OF r(1)] have "budget_sound (windows_of ?k ?db)" by (fastforce simp: rules_wf_def)
  then have s: "sorted_wrt (<) (map wPeriod (selectWindows ?k ?db))" by (intro selectWindows_sorted) (simp add: budget_sound_def)
  have m: "mset (map window_seconds (selectWindows ?k ?db)) = mset (map window_seconds (iWindows i))"
    using w selectWindows_written by (auto simp: written_def)
  show ?thesis
    using r s m assms(4,5) by (intro exI[of _ "rule_of_row ?db (?k, r)"]) (auto simp: RateLimits_GetByID_def repo_SelectRule_def rule_of_row_def)
qed

text \<open>
  Round trip: a rule just created or changed reads back with the texts as
  their columns hold them, its kind, methods, scope, audience and strategy, and
  exactly its windows, shortest first, each period floored to whole seconds; it
  is no rule of the system.
\<close>

theorem written_rule_reads_back:
  assumes "rules_wf (rsTables st)" "rl_step op (rl_run ops st) = (None, st')" "op = RlCreate call i \<or> op = RlUpdate call i"
    and "\<not> rcFaults call' RSelect" "\<not> rcFaults call' RSelectWindows"
  shows "\<exists>r. RateLimits_GetByID call' (rl_target_id op) st' = Inr r \<and> stored_texts i = Some (rName r, rTarget r)
    \<and> (rDescription r, rTargetKind r, rMethods r, rScope r, rAudience r, rStrategy r)
        = (iDescription i, iTargetKind i, iMethods i, iScope i, iAudience i, iStrategy i)
    \<and> rSystem r = Some False \<and> iEnabled i \<in> {None, rEnabled r}
    \<and> mset (map window_seconds (rWindows r)) = mset (map window_seconds (iWindows i)) \<and> sorted_wrt (<) (map wPeriod (rWindows r))"
  by (rule written_reads_back[OF rl_run_wf[OF assms(1)] assms(2-5)])

section \<open>What is refused\<close>

text \<open>A create or an update that fails changes nothing: not the tables, and not the mirror.\<close>

lemma repo_InsertRule_failed: "fst (repo_InsertRule call i db) \<noteq> None \<Longrightarrow> snd (repo_InsertRule call i db) = db"
  using repo_InsertRule_cases[OF prod.collapse[symmetric], of call i db] by (elim disjE exE conjE) simp_all

lemma repo_UpdateRule_failed: "fst (repo_UpdateRule call i db) \<noteq> None \<Longrightarrow> snd (repo_UpdateRule call i db) = db"
  using repo_UpdateRule_cases[OF prod.collapse[symmetric], of call i db] by (elim disjE exE conjE) simp_all

lemma repo_DeleteRule_failed: "fst (repo_DeleteRule call k db) \<noteq> None \<Longrightarrow> snd (repo_DeleteRule call k db) = db"
  using repo_DeleteRule_cases[OF prod.collapse[symmetric], of call k db] by (elim disjE exE conjE) simp_all

lemmas repo_failed = repo_InsertRule_failed repo_UpdateRule_failed repo_DeleteRule_failed

lemma after_write_failed: "fst r \<noteq> None \<Longrightarrow> snd r = rsTables st \<Longrightarrow> after_write call r st = (fst r, st)"
  by (auto simp: after_write_def)

lemma rl_step_failed:
  assumes "fst (rl_step op st) \<noteq> None"
  shows "snd (rl_step op st) = st"
proof (cases op)
  case (RlCreate call i)
  with assms show ?thesis by (auto simp: RateLimits_Create_def Let_def after_write_failed repo_failed split: option.splits)
next
  case (RlUpdate call i)
  with assms show ?thesis by (auto simp: RateLimits_UpdateByID_def after_write_failed repo_failed split: option.splits)
next
  case (RlDelete call k)
  with assms show ?thesis by (auto simp: RateLimits_DeleteByID_def after_write_failed repo_failed)
qed (use assms in simp)

lemma window_rows_periods: "map (rwPeriod \<circ> snd) (window_rows call rule i ws) = map (\<lambda>w. wPeriod w div second) ws"
  by (induction call rule i ws rule: window_rows.induct) simp_all

lemma insertWindows_int4:
  "insertWindows call rule i ws db = (None, db') \<Longrightarrow> list_all (\<lambda>w. int4 (wRequests w) \<and> int4 (wBurst w)) ws"
  by (induction call rule i ws db rule: insertWindows.induct) (auto simp: Let_def split: if_splits)

definition storable_windows :: "RateLimitWindow list \<Rightarrow> bool" where
  "storable_windows ws \<longleftrightarrow> distinct (map (\<lambda>w. wPeriod w div second) ws) \<and> list_all (\<lambda>w. int4 (wRequests w) \<and> int4 (wBurst w)) ws"

lemma insertWindows_storable:
  assumes "insertWindows call rule i ws db = (None, db')"
  shows "storable_windows ws"
  using conjunct2[OF insertWindows_success[OF assms]] insertWindows_int4[OF assms]
  by (simp add: storable_windows_def fresh_windows_def window_rows_periods)

lemma repo_writes_storable:
  "repo_InsertRule call i db = (None, db') \<Longrightarrow> storable_windows (iWindows i)"
  "repo_UpdateRule call i db = (None, db') \<Longrightarrow> storable_windows (iWindows i)"
  by (auto simp: repo_InsertRule_def repo_UpdateRule_def committed_None dest!: insertWindows_storable
      split: option.splits if_splits prod.splits)

text \<open>
  C33. A rule whose windows the columns cannot hold, two of them within the same
  whole second or a budget over 32 bits, is refused by every create and update,
  whatever the validator says of it, and nothing changes.
\<close>

theorem unstorable_windows_are_refused:
  assumes "\<not> distinct (map (\<lambda>w. wPeriod w div second) (iWindows i))
      \<or> list_ex (\<lambda>w. 2 ^ 31 \<le> wRequests w \<or> 2 ^ 31 \<le> wBurst w) (iWindows i)"
    and "op = RlCreate call i \<or> op = RlUpdate call i"
  shows "\<exists>e. rl_step op st = (Some e, st)"
proof -
  have "fst (rl_step op st) \<noteq> None"
  proof
    assume "fst (rl_step op st) = None"
    then obtain st' where s: "rl_step op st = (None, st')" by (metis prod.collapse)
    have "storable_windows (iWindows i)" using assms(2)
    proof
      assume "op = RlCreate call i"
      from repo_writes_storable(1)[OF rl_create_success(2)[OF s[unfolded this] refl]] show ?thesis by simp
    next
      assume "op = RlUpdate call i"
      from repo_writes_storable(2)[OF rl_update_success(2)[OF s[unfolded this]]] show ?thesis by simp
    qed
    with assms(1) show False by (auto simp: storable_windows_def list_ex_iff list_all_iff int4_def)
  qed
  with rl_step_failed[OF this] show ?thesis by (metis option.exhaust prod.collapse)
qed

lemma find_None_all: "find P xs = None \<Longrightarrow> list_all (\<lambda>x. \<not> P x) xs"
  by (auto simp: find_None_iff list_all_iff)

lemma validateTarget_endpoint:
  assumes "validateTarget call ''endpoint'' target methods = None"
  shows "target \<in> fst ` set (rcResources call) \<and> (''*'' \<in> set methods
    \<or> list_all (\<lambda>m. (target, m) \<in> set (rcResources call) \<or> m = ''HEAD'' \<and> (target, ''GET'') \<in> set (rcResources call)) methods)"
proof -
  obtain catalogue where c: "endpointCatalogue call = Inr catalogue" and sub: "set catalogue \<subseteq> set (rcResources call)"
    using assms by (cases "endpointCatalogue call") (auto simp: validateTarget_def endpointCatalogue_def Let_def split: if_splits)
  define verbs where "verbs = [verb. (path, verb) \<leftarrow> catalogue, path = target]"
  have v: "(target, m) \<in> set (rcResources call)" if "m \<in> set verbs" for m
    using that sub by (auto simp: verbs_def)
  have n: "verbs \<noteq> []" and m: "''*'' \<in> set methods \<or> find (\<lambda>m. \<not> verb_served verbs m) methods = None"
    using assms c by (auto simp: validateTarget_def verbs_def[symmetric] Let_def List.member_iff split: if_splits option.splits)
  from n obtain x where "x \<in> set verbs" by (cases verbs) auto
  with v have "target \<in> fst ` set (rcResources call)" by force
  moreover have "list_all (\<lambda>m. (target, m) \<in> set (rcResources call) \<or> m = ''HEAD'' \<and> (target, ''GET'') \<in> set (rcResources call)) methods"
    if "find (\<lambda>m. \<not> verb_served verbs m) methods = None"
    using find_None_all[OF that] v by (auto simp: list_all_iff verb_served_def List.member_iff)
  ultimately show ?thesis using m by (elim disjE) simp_all
qed

text \<open>
  A rule for one route names a route that is served: a create or an update
  with that kind of target succeeds only if the target is the path of an
  endpoint row and every method it names is registered for it (HEAD where GET
  is), unless it covers them all.
\<close>

theorem accepted_target_is_served:
  assumes "rl_step op st = (None, st')" "op = RlCreate call i \<or> op = RlUpdate call i" "iTargetKind i = ''endpoint''"
  shows "iTarget i \<in> fst ` set (rcResources call) \<and> (''*'' \<in> set (iMethods i)
    \<or> list_all (\<lambda>m. (iTarget i, m) \<in> set (rcResources call) \<or> m = ''HEAD'' \<and> (iTarget i, ''GET'') \<in> set (rcResources call)) (iMethods i))"
proof -
  have "validateTarget call (iTargetKind i) (iTarget i) (iMethods i) = None"
    using assms(2) rl_create_success(1)[OF _ refl] rl_update_success(1) assms(1) by blast
  with assms(3) show ?thesis using validateTarget_endpoint by simp
qed

section \<open>A reload that lands late\<close>

text \<open>
  \<open>Reload\<close> reads, then stores, and no lock covers the two: a reading taken from
  earlier tables can be stored after the write's own reload.
\<close>

definition landed :: "instant \<Rightarrow> rl_call \<Rightarrow> rules_db \<Rightarrow> rl_state \<Rightarrow> rl_state" where
  "landed now call db st = st\<lparr>rsMirror := map_option (\<lambda>m. snd (Reload now (reload_answer call db) m)) (rsMirror st)\<rparr>"

text \<open>
  Whatever was written in between, after a late landing the replica enforces
  the rules of the earlier tables, and reports them as the effective ones.
\<close>

theorem late_reload_enforces_the_earlier_rules:
  assumes "rules_wf (rsTables st)" "rsMirror (rl_run ops st) \<noteq> None" "\<not> rcFaults call RSelect" "\<not> rcFaults call RSelectWindows"
  shows "Effective call' req (landed now call (rsTables st) (rl_run ops st)) = Inr (ResolveRateLimits (stored_rules (rsTables st)) req)"
proof -
  obtain m where m: "rsMirror (rl_run ops st) = Some m" using assms(2) by blast
  show ?thesis
    by (simp add: landed_def m reload_stored[OF assms(3,4)] Reload_def stored_rules_enforceable[OF assms(1)] Effective_def Resolve_def Rules_def)
qed

end
