(* ===== verification/GoDuration.thy ===== *)
theory GoDuration
  imports Go_Prelude
begin

text \<open>
  \<open>time.ParseDuration\<close> of the standard library, which reads the periods of a
  rate-limit rule: signed sums of numbers with units in 64 bits.  What the
  fraction of a number is worth is a product of \<open>float64\<close>s, taken as an
  argument.  A duration of whole seconds written by \<open>Duration.String\<close> reads
  back as itself.
\<close>

definition unitMap :: "string \<Rightarrow> nat option" where
  "unitMap u =
     (if u = ''ns'' then Some 1
      else if u = ''us'' \<or> u = [CHR 0xC2, CHR 0xB5, CHR ''s''] \<or> u = [CHR 0xCE, CHR 0xBC, CHR ''s''] then Some 1000
      else if u = ''ms'' then Some 1000000
      else if u = ''s'' then Some 1000000000
      else if u = ''m'' then Some 60000000000
      else if u = ''h'' then Some 3600000000000
      else None)"

fun leadingInt :: "nat \<Rightarrow> string \<Rightarrow> (nat \<times> string) option" where
  "leadingInt x [] = Some (x, [])"
| "leadingInt x (c # cs) =
     (if \<not> is_digit_char c then Some (x, c # cs)
      else if x > 2 ^ 63 div 10 then None
      else let y = x * 10 + digit_val c in if y > 2 ^ 63 then None else leadingInt y cs)"

text \<open>The digits that do not fit are read over.\<close>

fun leadingFraction :: "nat \<Rightarrow> nat \<Rightarrow> bool \<Rightarrow> string \<Rightarrow> nat \<times> nat \<times> string" where
  "leadingFraction x scale overflow [] = (x, scale, [])"
| "leadingFraction x scale overflow (c # cs) =
     (if \<not> is_digit_char c then (x, scale, c # cs)
      else if overflow \<or> x > (2 ^ 63 - 1) div 10 \<or> x * 10 + digit_val c > 2 ^ 63 then leadingFraction x scale True cs
      else leadingFraction (x * 10 + digit_val c) (scale * 10) False cs)"

definition unit_char :: "char \<Rightarrow> bool" where
  "unit_char c = (c \<noteq> CHR ''.'' \<and> \<not> is_digit_char c)"

text \<open>The fraction after a dot, if there is one: its digits, their scale, the rest, and whether there were any.\<close>

definition fraction_part :: "string \<Rightarrow> nat \<times> nat \<times> string \<times> bool" where
  "fraction_part s =
     (if s \<noteq> [] \<and> hd s = CHR ''.''
      then (case leadingFraction 0 1 False (tl s) of (f, scale, r) \<Rightarrow> (f, scale, r, length r \<noteq> length (tl s)))
      else (0, 1, s, False))"

text \<open>One term: what it adds, and what is left to read.\<close>

definition duration_term :: "(nat \<Rightarrow> nat \<Rightarrow> nat \<Rightarrow> nat) \<Rightarrow> string \<Rightarrow> (nat \<times> string) option" where
  "duration_term frac s =
     (if s = [] \<or> \<not> (hd s = CHR ''.'' \<or> is_digit_char (hd s)) then None
      else case leadingInt 0 s of
        None \<Rightarrow> None
      | Some (v, s1) \<Rightarrow>
        (case fraction_part s1 of (f, scale, s2, post) \<Rightarrow>
          if length s1 = length s \<and> \<not> post then None
          else let u = takeWhile unit_char s2; s3 = dropWhile unit_char s2 in
            if u = [] then None
            else (case unitMap u of
              None \<Rightarrow> None
            | Some unit \<Rightarrow>
                if v > 2 ^ 63 div unit then None
                else let w = (if f > 0 then (v * unit + frac f unit scale) mod 2 ^ 64 else v * unit) in
                  if w > 2 ^ 63 then None else Some (w, s3))))"

lemma leadingInt_shorter: "leadingInt x s = Some (v, r) \<Longrightarrow> length r \<le> length s"
proof (induction x s rule: leadingInt.induct)
  case (2 x c cs)
  then show ?case by (auto simp: Let_def split: if_splits)
qed simp

lemma leadingFraction_shorter: "leadingFraction x scale ov s = (f, sc, r) \<Longrightarrow> length r \<le> length s"
proof (induction x scale ov s rule: leadingFraction.induct)
  case (2 x scale ov c cs)
  then show ?case by (auto split: if_splits)
qed simp

lemma fraction_part_shorter: "fraction_part s = (f, sc, r, post) \<Longrightarrow> length r \<le> length s"
  using leadingFraction_shorter[of 0 1 False "tl s"] by (cases s) (auto simp: fraction_part_def split: if_splits prod.splits dest: le_SucI)

lemma duration_term_shorter:
  assumes "duration_term frac s = Some (w, r)"
  shows "length r < length s"
proof -
  from assms obtain v s1 f sc s2 post where s: "leadingInt 0 s = Some (v, s1)" "fraction_part s1 = (f, sc, s2, post)"
    "takeWhile unit_char s2 \<noteq> []" "r = dropWhile unit_char s2"
    by (auto simp: duration_term_def Let_def split: if_splits option.splits prod.splits)
  have "length r < length s2" using s(3,4) by (cases s2) (auto simp: length_dropWhile_le less_Suc_eq_le split: if_splits)
  with leadingInt_shorter[OF s(1)] fraction_part_shorter[OF s(2)] show ?thesis by simp
qed

function duration_terms :: "(nat \<Rightarrow> nat \<Rightarrow> nat \<Rightarrow> nat) \<Rightarrow> nat \<Rightarrow> string \<Rightarrow> nat option" where
  "duration_terms frac d s =
     (if s = [] then Some d
      else case duration_term frac s of
        None \<Rightarrow> None
      | Some (w, r) \<Rightarrow> let d' = (d + w) mod 2 ^ 64 in if d' > 2 ^ 63 then None else duration_terms frac d' r)"
  by pat_completeness auto
termination
  by (relation "measure (length \<circ> snd \<circ> snd)") (auto dest: duration_term_shorter)

declare duration_terms.simps [simp del]

definition ParseDuration :: "(nat \<Rightarrow> nat \<Rightarrow> nat \<Rightarrow> nat) \<Rightarrow> string \<Rightarrow> duration option" where
  "ParseDuration frac s0 =
     (let neg = (s0 \<noteq> [] \<and> hd s0 = CHR ''-''); s = (if s0 \<noteq> [] \<and> (hd s0 = CHR ''-'' \<or> hd s0 = CHR ''+'') then tl s0 else s0) in
      if s = ''0'' then Some 0
      else if s = [] then None
      else case duration_terms frac 0 s of
        None \<Rightarrow> None
      | Some d \<Rightarrow> if neg then Some (- int d) else if d > 2 ^ 63 - 1 then None else Some (int d))"

section \<open>Reading back what was written\<close>

lemma foldl_digits_mono: "x \<le> foldl (\<lambda>n c. 10 * n + digit_val c) x ds"
proof (induction ds arbitrary: x)
  case (Cons c ds)
  from Cons[of "10 * x + digit_val c"] show ?case by simp
qed simp

lemma leadingInt_digits:
  "list_all is_digit_char ds \<Longrightarrow> foldl (\<lambda>n c. 10 * n + digit_val c) x ds \<le> 2 ^ 63 \<Longrightarrow> r = [] \<or> \<not> is_digit_char (hd r) \<Longrightarrow>
     leadingInt x (ds @ r) = Some (foldl (\<lambda>n c. 10 * n + digit_val c) x ds, r)"
proof (induction ds arbitrary: x)
  case Nil
  then show ?case by (cases r) auto
next
  case (Cons c ds)
  have "10 * x + digit_val c \<le> 2 ^ 63" using Cons.prems(2) foldl_digits_mono[of "10 * x + digit_val c" ds] by simp
  moreover from this have "x \<le> 2 ^ 63 div 10" by simp
  ultimately show ?case using Cons by (simp add: Let_def mult.commute)
qed

lemma leadingInt_nat_digits:
  "n \<le> 2 ^ 63 \<Longrightarrow> r = [] \<or> \<not> is_digit_char (hd r) \<Longrightarrow> leadingInt 0 (nat_digits n @ r) = Some (n, r)"
  using leadingInt_digits[OF nat_digits_digits[of n], of 0 r] nat_digits_val[of n] by (simp add: digits_val_def)

lemma duration_term_written:
  assumes "unitMap [u] = Some unit" "unit_char u" "rest = [] \<or> is_digit_char (hd rest)" "n \<le> 2 ^ 63 div unit" "n * unit \<le> 2 ^ 63"
  shows "duration_term frac (nat_digits n @ u # rest) = Some (n * unit, rest)"
proof -
  have "0 < unit" using assms(1) by (auto simp: unitMap_def split: if_splits)
  with assms(4) have n: "n \<le> 2 ^ 63" using div_le_dividend le_trans by blast
  have h: "is_digit_char (hd (nat_digits n @ u # rest))"
    using nat_digits_nonempty[of n] nat_digits_digits[of n] by (cases "nat_digits n") auto
  have l: "leadingInt 0 (nat_digits n @ u # rest) = Some (n, u # rest)"
    using leadingInt_nat_digits[OF n, of "u # rest"] assms(2) by (simp add: unit_char_def)
  have f: "fraction_part (u # rest) = (0, 1, u # rest, False)" using assms(2) by (simp add: fraction_part_def unit_char_def)
  have t: "unit_char u" "takeWhile unit_char rest = []" "dropWhile unit_char rest = rest"
    using assms(2,3) by (cases rest; simp add: unit_char_def)+
  show ?thesis
    using h assms(1,4,5) nat_digits_nonempty[of n] by (simp add: duration_term_def l f t Let_def)
qed

lemma duration_terms_step:
  assumes "unitMap [u] = Some unit" "unit_char u" "rest = [] \<or> is_digit_char (hd rest)" "n \<le> 2 ^ 63 div unit" "d + n * unit \<le> 2 ^ 63"
  shows "duration_terms frac d (nat_digits n @ u # rest) = duration_terms frac (d + n * unit) rest"
  using duration_term_written[OF assms(1-4), of frac] assms(5)
  by (subst duration_terms.simps) (simp add: Let_def)

lemma digit_zero: "digit_char 0 = CHR ''0''"
  by code_simp

lemma duration_frac_whole: "10 ^ 9 dvd u \<Longrightarrow> duration_frac u 9 = []"
  by (simp add: duration_frac_def pad_digits_def nat_digits.simps[of 0] digit_zero dvd_eq_mod_eq_0 Let_def)

lemma hd_nat_digits: "is_digit_char (hd (nat_digits n @ r))"
  using nat_digits_nonempty[of n] nat_digits_digits[of n] by (cases "nat_digits n") auto

lemma hours_minutes_seconds: "k = (h * 60 + m) * 60 + s \<Longrightarrow> k = h * 3600 + m * 60 + (s :: nat)"
  by simp

theorem ParseDuration_string:
  assumes "1 \<le> k" "k \<le> 10 ^ 9"
  shows "ParseDuration frac (duration_string (int k * second)) = Some (int k * second)"
proof -
  let ?u = "k * 1000000000"
  let ?sec = "nat_digits (k mod 60) @ ''s''"
  have u: "nat \<bar>int k * second\<bar> = ?u" by (simp add: nat_mult_distrib)
  have b: "k div 60 div 60 \<le> 10 ^ 9" "k div 60 mod 60 < 60" "k mod 60 < 60" using assms(2) by simp_all
  have units: "unitMap ''h'' = Some 3600000000000" "unitMap ''m'' = Some 60000000000" "unitMap ''s'' = Some 1000000000"
    "unit_char CHR ''h''" "unit_char CHR ''m''" "unit_char CHR ''s''"
    by (simp_all add: unitMap_def unit_char_def is_digit_char_def)
  have k: "k = k div 60 div 60 * 3600 + k div 60 mod 60 * 60 + k mod 60"
    by (rule hours_minutes_seconds) (simp only: div_mult_mod_eq)
  have s: "duration_terms frac d ?sec = Some (d + k mod 60 * 1000000000)" if "d \<le> 2 ^ 62" for d
    using duration_terms_step[OF units(3,6), of "[]" "k mod 60" d frac] that b(3) duration_terms.simps[of frac _ "[]"] by simp
  have m: "duration_terms frac d (nat_digits (k div 60 mod 60) @ CHR ''m'' # ?sec) = Some (d + k div 60 mod 60 * 60000000000 + k mod 60 * 1000000000)"
    if "d \<le> 2 ^ 61" for d
    using duration_terms_step[OF units(2,5), of ?sec "k div 60 mod 60" d frac] that b(2) s hd_nat_digits[of "k mod 60" "''s''"] by simp
  have h: "duration_terms frac 0 (nat_digits (k div 60 div 60) @ CHR ''h'' # nat_digits (k div 60 mod 60) @ CHR ''m'' # ?sec) = Some ?u"
  proof -
    have z: "k div 60 div 60 * 3600 \<le> 10 ^ 9" using assms(2) k by linarith
    have "k div 60 div 60 \<le> 2 ^ 63 div 3600000000000" "0 + k div 60 div 60 * 3600000000000 \<le> 2 ^ 61" using z by simp_all
    then have "duration_terms frac 0 (nat_digits (k div 60 div 60) @ CHR ''h'' # nat_digits (k div 60 mod 60) @ CHR ''m'' # ?sec)
      = Some (0 + k div 60 div 60 * 3600000000000 + k div 60 mod 60 * 60000000000 + k mod 60 * 1000000000)"
      using duration_terms_step[OF units(1,4), of "nat_digits (k div 60 mod 60) @ CHR ''m'' # ?sec" "k div 60 div 60" 0 frac]
        m[of "0 + k div 60 div 60 * 3600000000000"] hd_nat_digits[of "k div 60 mod 60" "CHR ''m'' # ?sec"] by simp
    also have "0 + k div 60 div 60 * 3600000000000 + k div 60 mod 60 * 60000000000 + k mod 60 * 1000000000 = ?u" using k by linarith
    finally show ?thesis .
  qed
  have t: "k div 60 div 60 * 3600000000000 + k div 60 mod 60 * 60000000000 + k mod 60 * 1000000000 = ?u" using k by linarith
  have d: "duration_string (int k * second) =
     (if k div 60 div 60 > 0 then nat_digits (k div 60 div 60) @ ''h'' else [])
     @ (if k div 60 > 0 then nat_digits (k div 60 mod 60) @ ''m'' else []) @ ?sec"
    using assms(1) by (simp only: duration_string_def u) (simp add: Let_def duration_frac_whole)
  let ?s = "duration_string (int k * second)"
  have p: "duration_terms frac 0 ?s = Some ?u"
  proof (cases "k div 60 = 0")
    case True
    then show ?thesis using d s[of 0] k by simp
  next
    case False
    then show ?thesis
    proof (cases "k div 60 div 60 = 0")
      case True
      then have "?s = nat_digits (k div 60 mod 60) @ CHR ''m'' # ?sec" using d False by simp
      moreover have "k div 60 mod 60 * 60000000000 + k mod 60 * 1000000000 = ?u" using t True by (simp only: mult_0 add_0)
      ultimately show ?thesis using m[of 0] by (simp only: add_0)
    next
      case False
      then have "k div 60 > 0" by (cases "k div 60 = 0") auto
      then have "?s = nat_digits (k div 60 div 60) @ CHR ''h'' # nat_digits (k div 60 mod 60) @ CHR ''m'' # ?sec" using d False by simp
      then show ?thesis using h by simp
    qed
  qed
  have hd: "is_digit_char (hd ?s)" using d hd_nat_digits by (auto simp: hd_append simp del: append_assoc)
  have l: "2 \<le> length ?s" using d nat_digits_nonempty[of "k mod 60"] by (cases "nat_digits (k mod 60)") auto
  have "hd ?s \<noteq> CHR ''-''" "hd ?s \<noteq> CHR ''+''" using hd by (auto simp: is_digit_char_def)
  moreover have "?s \<noteq> []" "?s \<noteq> ''0''" using l by auto
  moreover have "?u \<le> 2 ^ 63 - 1" using assms(2) by simp
  ultimately show ?thesis using p unfolding ParseDuration_def Let_def by simp
qed

end
