(* ===== verification/RateLimitsApi.thy ===== *)
theory RateLimitsApi
  imports ProjectsApi RateLimitAdminRules GoDuration
begin

text \<open>
  The routes of the rate-limit rules: \<open>handler/rate_limits.go\<close> and
  \<open>payload/rate_limits.go\<close>, but for the list.  Periods travel as Go durations.
  Upper-casing a method and the fraction of a duration are arguments.
\<close>

section \<open>Payloads\<close>

record RateLimitWindowResponse =
  pwPeriod :: string
  pwRequests :: int
  pwBurst :: int
  pwID :: uuid

record RateLimitResponse =
  qrCreatedAt :: instant
  qrUpdatedAt :: instant
  qrSystem :: "bool option"
  qrEnabled :: "bool option"
  qrName :: string
  qrDescription :: string
  qrTargetKind :: string
  qrTarget :: string
  qrScope :: string
  qrAudience :: string
  qrStrategy :: string
  qrMethods :: "string list"
  qrWindows :: "RateLimitWindowResponse list"
  qrID :: uuid

record RateLimitWindowRequest =
  bwPeriod :: string
  bwRequests :: int
  bwBurst :: int

record UpdateRateLimitRequest =
  bEnabled :: "bool option"
  bName :: string
  bDescription :: string
  bTargetKind :: string
  bTarget :: string
  bScope :: string
  bAudience :: string
  bStrategy :: string
  bMethods :: "string list"
  bWindows :: "RateLimitWindowRequest list"

record CreateRateLimitRequest = UpdateRateLimitRequest +
  bID :: uuid

record EffectiveRateLimitEntry =
  efWhy :: string
  efScope :: string
  efName :: string
  efStrategy :: string
  efWindows :: "RateLimitWindowResponse list"
  efRuleID :: uuid

record EffectiveRateLimitsResponse =
  esMethod :: string
  esEndpoint :: string
  esBucketKey :: string
  esEffective :: "EffectiveRateLimitEntry list"
  esEnforcing :: bool

definition toRateLimitWindowResponses :: "RateLimitWindow list \<Rightarrow> RateLimitWindowResponse list" where
  "toRateLimitWindowResponses ws =
     map (\<lambda>w. \<lparr>pwPeriod = duration_string (wPeriod w), pwRequests = wRequests w, pwBurst = wBurst w, pwID = wID w\<rparr>) ws"

definition ToRateLimitResponse :: "RateLimit \<Rightarrow> RateLimitResponse" where
  "ToRateLimitResponse r = \<lparr>qrCreatedAt = rCreatedAt r, qrUpdatedAt = rUpdatedAt r, qrSystem = rSystem r, qrEnabled = rEnabled r,
     qrName = rName r, qrDescription = rDescription r, qrTargetKind = rTargetKind r, qrTarget = rTarget r, qrScope = rScope r,
     qrAudience = rAudience r, qrStrategy = rStrategy r, qrMethods = rMethods r,
     qrWindows = toRateLimitWindowResponses (SortedWindows r), qrID = rID r\<rparr>"

text \<open>A window of a request; what it does not name is zero.\<close>

definition zero_instant :: instant where "zero_instant = - 62135596800 * second"

definition requested_window :: "RateLimitWindowRequest \<Rightarrow> duration \<Rightarrow> RateLimitWindow" where
  "requested_window w period = \<lparr>wCreatedAt = zero_instant, wUpdatedAt = zero_instant, wSystem = None, wPeriod = period,
     wRequests = bwRequests w, wBurst = bwBurst w, wSerialID = 0, wID = uuid_nil, wRateLimit = uuid_nil\<rparr>"

fun windows_read :: "(nat \<Rightarrow> nat \<Rightarrow> nat \<Rightarrow> nat) \<Rightarrow> nat \<Rightarrow> RateLimitWindowRequest list \<Rightarrow> ValidationError list
    \<Rightarrow> ValidationError list \<times> RateLimitWindow list" where
  "windows_read frac i [] errs = (errs, [])"
| "windows_read frac i (w # ws) errs =
     (case ParseDuration frac (bwPeriod w) of
        None \<Rightarrow> windows_read frac (Suc i) ws
          (AddError errs (''windows['' @ itoa (int i) @ '']'')
            (''period must be a duration such as 1s, 1m0s or 1h0m0s: '' @ bwPeriod w @ '' is not one'') ''INVALID_FORMAT'')
      | Some period \<Rightarrow> (case windows_read frac (Suc i) ws errs of (errs', out) \<Rightarrow> (errs', requested_window w period # out)))"

definition ToRateLimitWindows :: "(nat \<Rightarrow> nat \<Rightarrow> nat \<Rightarrow> nat) \<Rightarrow> RateLimitWindowRequest list \<Rightarrow> verror + RateLimitWindow list" where
  "ToRateLimitWindows frac ws =
     (case windows_read frac 0 ws [] of (errs, out) \<Rightarrow> if HasErrors errs then Inl (VMany errs) else Inr out)"

definition audienceOrDefault :: "string \<Rightarrow> string" where "audienceOrDefault s = (if s = [] then ''any'' else s)"
definition strategyOrDefault :: "string \<Rightarrow> string" where "strategyOrDefault s = (if s = [] then ''token_bucket'' else s)"

text \<open>The input both writes build from a body.\<close>

definition rule_input :: "uuid \<Rightarrow> RateLimitWindow list \<Rightarrow> 'a UpdateRateLimitRequest_scheme \<Rightarrow> CreateRateLimitInput" where
  "rule_input k ws req = \<lparr>iEnabled = bEnabled req, iName = bName req, iDescription = bDescription req, iTarget = bTarget req,
     iTargetKind = bTargetKind req, iScope = bScope req, iAudience = audienceOrDefault (bAudience req),
     iStrategy = strategyOrDefault (bStrategy req), iMethods = bMethods req, iWindows = ws, iID = k\<rparr>"

section \<open>Answers\<close>

datatype rl_reply =
    RlReply reply
  | RlErrorReply int rl_error
  | RlCreated uuid
  | RlRule RateLimitResponse
  | RlEffective EffectiveRateLimitsResponse

fun rl_status :: "rl_reply \<Rightarrow> int" where
  "rl_status (RlReply r) = reply_status r"
| "rl_status (RlErrorReply status _) = status"
| "rl_status (RlCreated _) = 201"
| "rl_status (RlRule _) = 200"
| "rl_status (RlEffective _) = 200"

fun isBadRequest :: "rl_error \<Rightarrow> bool" where
  "isBadRequest (RlTarget _ _ _) = True"
| "isBadRequest (RlValidation (VMany _)) = True"
| "isBadRequest (RlInvalidInput _) = True"
| "isBadRequest _ = False"

definition rl_answer :: "(rl_error \<Rightarrow> int option) \<Rightarrow> bool \<Rightarrow> rl_error \<Rightarrow> rl_reply" where
  "rl_answer arm callerGone e =
     (case arm e of
        Some status \<Rightarrow> RlErrorReply status e
      | None \<Rightarrow> if isBadRequest e then RlErrorReply 400 e else RlReply (WriteInternalError callerGone))"

definition writeQueryError :: "bool \<Rightarrow> rl_error \<Rightarrow> rl_reply" where
  "writeQueryError callerGone e = rl_answer (\<lambda>_. None) callerGone e"

definition writeGetError :: "bool \<Rightarrow> rl_error \<Rightarrow> rl_reply" where
  "writeGetError callerGone e = rl_answer (\<lambda>e. case e of RlNotFound _ \<Rightarrow> Some 404 | _ \<Rightarrow> None) callerGone e"

definition writeCreateError :: "bool \<Rightarrow> rl_error \<Rightarrow> rl_reply" where
  "writeCreateError callerGone e =
     rl_answer (\<lambda>e. case e of RlExistsName _ \<Rightarrow> Some 409 | RlExistsID _ \<Rightarrow> Some 409 | _ \<Rightarrow> None) callerGone e"

definition writeUpdateError :: "bool \<Rightarrow> rl_error \<Rightarrow> rl_reply" where
  "writeUpdateError callerGone e =
     rl_answer (\<lambda>e. case e of RlNotFound _ \<Rightarrow> Some 404 | RlExistsName _ \<Rightarrow> Some 409 | RlExistsID _ \<Rightarrow> Some 409 | RlSystem _ \<Rightarrow> Some 403 | _ \<Rightarrow> None)
       callerGone e"

definition writeDeleteError :: "bool \<Rightarrow> rl_error \<Rightarrow> rl_reply" where
  "writeDeleteError callerGone e =
     rl_answer (\<lambda>e. case e of RlNotFound _ \<Rightarrow> Some 404 | RlSystem _ \<Rightarrow> Some 403 | _ \<Rightarrow> None) callerGone e"

section \<open>The handlers\<close>

text \<open>A request: what the statements of the use case meet, the id it may draw, whether the caller is gone, and the two arguments.\<close>

record rl_api =
  raCall :: rl_call
  raFresh :: uuid
  raGone :: bool
  raUpper :: "string \<Rightarrow> string"
  raFraction :: "nat \<Rightarrow> nat \<Rightarrow> nat \<Rightarrow> nat"

definition rl_refuse :: "reply + 'i \<Rightarrow> ('i \<Rightarrow> rl_reply \<times> rl_state) \<Rightarrow> rl_state \<Rightarrow> rl_reply \<times> rl_state" where
  "rl_refuse r f st = (case r of Inl refusal \<Rightarrow> (RlReply refusal, st) | Inr i \<Rightarrow> f i)"

definition rule_getByID :: "rl_api \<Rightarrow> string \<Rightarrow> rl_state \<Rightarrow> rl_reply \<times> rl_state" where
  "rule_getByID api path st = rl_refuse (parseUUIDQueryParams path)
     (\<lambda>k. (case RateLimits_GetByID (raCall api) k st of
         Inl e \<Rightarrow> writeGetError (raGone api) e
       | Inr r \<Rightarrow> RlRule (ToRateLimitResponse r), st)) st"

definition rule_create :: "rl_api \<Rightarrow> decode_error + CreateRateLimitRequest \<Rightarrow> rl_state \<Rightarrow> rl_reply \<times> rl_state" where
  "rule_create api body st = rl_refuse
     (and_then (decoded body) (\<lambda>req.
      and_then (ProjectsApi.validated (ToRateLimitWindows (raFraction api) (bWindows req))) (\<lambda>ws.
      Inr (rule_input (EnsureUUIDV7 (raFresh api) (bID req)) ws req))))
     (\<lambda>i. case RateLimits_Create (raCall api) (Some i) st of
         (Some e, st') \<Rightarrow> (writeCreateError (raGone api) e, st')
       | (None, st') \<Rightarrow> (RlCreated (iID i), st')) st"

definition rule_updateByID :: "rl_api \<Rightarrow> string \<Rightarrow> decode_error + UpdateRateLimitRequest \<Rightarrow> rl_state \<Rightarrow> rl_reply \<times> rl_state" where
  "rule_updateByID api path body st = rl_refuse
     (and_then (parseUUIDQueryParams path) (\<lambda>k.
      and_then (decoded body) (\<lambda>req.
      and_then (ProjectsApi.validated (ToRateLimitWindows (raFraction api) (bWindows req))) (\<lambda>ws.
      Inr (rule_input k ws req)))))
     (\<lambda>i. case RateLimits_UpdateByID (raCall api) (Some i) st of
         (Some e, st') \<Rightarrow> (writeUpdateError (raGone api) e, st')
       | (None, st') \<Rightarrow> (RlReply (Reply 200 (Text ''Rate limit updated successfully'')), st')) st"

definition rule_deleteByID :: "rl_api \<Rightarrow> string \<Rightarrow> rl_state \<Rightarrow> rl_reply \<times> rl_state" where
  "rule_deleteByID api path st = rl_refuse (parseUUIDQueryParams path)
     (\<lambda>k. case RateLimits_DeleteByID (raCall api) (Some k) st of
         (Some e, st') \<Rightarrow> (writeDeleteError (raGone api) e, st')
       | (None, st') \<Rightarrow> (RlReply (Reply 200 (Text ''Rate limit deleted successfully'')), st')) st"

definition bucketKeyDescription :: string where
  "bucketKeyDescription = ''(rule_id, window parameters, scope_key)'' @ em_dash
     @ ''one budget per window, shared across the rule'' @ [CHR 0x27] @ ''s verbs, and kept across an edit that does not change the numbers''"

definition effective_entry :: "RateLimitMatch \<Rightarrow> EffectiveRateLimitEntry" where
  "effective_entry m = \<lparr>efWhy = mWhy m, efScope = rScope (mRule m), efName = rName (mRule m), efStrategy = rStrategy (mRule m),
     efWindows = qrWindows (ToRateLimitResponse (mRule m)), efRuleID = rID (mRule m)\<rparr>"

text \<open>The query of the effective rules: method, endpoint, and whether the caller is signed in.\<close>

definition rule_effective :: "rl_api \<Rightarrow> string \<Rightarrow> string \<Rightarrow> string \<Rightarrow> rl_state \<Rightarrow> rl_reply \<times> rl_state" where
  "rule_effective api method0 endpoint0 authenticated st =
     (let method = raUpper api (TrimSpace method0); endpoint = TrimSpace endpoint0 in
      rl_refuse
        (if method = [] then Inl (Reply 400 (Text (''method is required, and must be one of '' @ GetValidActions)))
         else case IsValidAction method of
           Some t \<Rightarrow> Inl (Reply 400 (Text t))
         | None \<Rightarrow>
           if endpoint = []
           then Inl (Reply 400 (Text ''endpoint is required, and must be a route template such as /projects/{project_id}/generate''))
           else Inr \<lparr>reqMethod = method, reqPattern = endpoint, reqAuthenticated = (authenticated \<noteq> ''false'')\<rparr>)
        (\<lambda>req. (case Effective (raCall api) req st of
            Inl e \<Rightarrow> writeQueryError (raGone api) e
          | Inr matches \<Rightarrow> RlEffective \<lparr>esMethod = method, esEndpoint = endpoint, esBucketKey = bucketKeyDescription,
              esEffective = map effective_entry matches, esEnforcing = Enforcing st\<rparr>, st)) st)"

text \<open>\<open>RegisterRoutes\<close>, but for the list.\<close>

datatype rl_route =
    GetRule string
  | PostRule "decode_error + CreateRateLimitRequest"
  | PutRule string "decode_error + UpdateRateLimitRequest"
  | DeleteRule string
  | GetEffective string string string

fun rl_serve :: "rl_api \<Rightarrow> rl_route \<Rightarrow> rl_state \<Rightarrow> rl_reply \<times> rl_state" where
  "rl_serve api (GetRule path) st = rule_getByID api path st"
| "rl_serve api (PostRule body) st = rule_create api body st"
| "rl_serve api (PutRule path body) st = rule_updateByID api path body st"
| "rl_serve api (DeleteRule path) st = rule_deleteByID api path st"
| "rl_serve api (GetEffective method endpoint authenticated) st = rule_effective api method endpoint authenticated st"

end
