(* ===== verification/RateLimitsApiRules.thy ===== *)
theory RateLimitsApiRules
  imports RateLimitsApi
begin

text \<open>
  What the routes of the rules keep: a refused request changes nothing, and a
  rule sent back in an accepted update with the fields it was answered with is
  the rule it was, but for the time of the change and the ids of its windows.
\<close>

section \<open>Refusals\<close>

lemma parse_refusal: "parseUUIDQueryParams path = Inl refusal \<Longrightarrow> reply_status refusal = 400"
  by (auto simp: parseUUIDQueryParams_def split: if_splits option.splits)

lemma decoded_refusal: "decoded body = Inl refusal \<Longrightarrow> reply_status refusal \<in> {400, 413}"
  by (cases "case body of Inl e \<Rightarrow> e | Inr _ \<Rightarrow> Undecodable") (auto simp: decoded_def split: sum.splits)

lemma validated_refusal: "ProjectsApi.validated r = Inl refusal \<Longrightarrow> reply_status refusal = 400"
  by (auto simp: ProjectsApi.validated_def split: sum.splits)

lemma rl_error_answers:
  "rl_status (writeGetError g e) \<notin> {200, 201}" "rl_status (writeCreateError g e) \<notin> {200, 201}" "rl_status (writeUpdateError g e) \<notin> {200, 201}"
  "rl_status (writeDeleteError g e) \<notin> {200, 201}" "rl_status (writeQueryError g e) \<notin> {200, 201}"
  by (auto simp: writeGetError_def writeCreateError_def writeUpdateError_def writeDeleteError_def writeQueryError_def rl_answer_def
      WriteInternalError_def split: rl_error.split option.split)

text \<open>A write that failed left the state as it was.\<close>

lemma use_case_failed:
  "RateLimits_Create call (Some i) st = (Some e, st') \<Longrightarrow> st' = st"
  "RateLimits_UpdateByID call (Some i) st = (Some e, st') \<Longrightarrow> st' = st"
  "RateLimits_DeleteByID call (Some k) st = (Some e, st') \<Longrightarrow> st' = st"
  using rl_step_failed[of "RlCreate call i" st] rl_step_failed[of "RlUpdate call i" st] rl_step_failed[of "RlDelete call k" st] by simp_all

text \<open>
  A request that is answered anything but 200 or 201 changes neither the
  tables nor the mirror, whether the path, the body, the target, a constraint
  or the store refused it; and a read changes nothing whatever it answers.
\<close>

theorem refused_rule_requests_change_nothing:
  "rl_status (fst (rl_serve api route st)) \<notin> {200, 201} \<or> (\<exists>path. route = GetRule path) \<or> (\<exists>m e a. route = GetEffective m e a)
     \<Longrightarrow> snd (rl_serve api route st) = st"
proof (cases route)
  case (PostRule body)
  assume "rl_status (fst (rl_serve api route st)) \<notin> {200, 201} \<or> (\<exists>path. route = GetRule path) \<or> (\<exists>m e a. route = GetEffective m e a)"
  then show ?thesis using PostRule
    by (auto simp: rule_create_def rl_refuse_def dest: use_case_failed split: sum.splits prod.splits option.splits)
next
  case (PutRule path body)
  assume "rl_status (fst (rl_serve api route st)) \<notin> {200, 201} \<or> (\<exists>path. route = GetRule path) \<or> (\<exists>m e a. route = GetEffective m e a)"
  then show ?thesis using PutRule
    by (auto simp: rule_updateByID_def rl_refuse_def dest: use_case_failed split: sum.splits prod.splits option.splits)
next
  case (DeleteRule path)
  assume "rl_status (fst (rl_serve api route st)) \<notin> {200, 201} \<or> (\<exists>path. route = GetRule path) \<or> (\<exists>m e a. route = GetEffective m e a)"
  then show ?thesis using DeleteRule
    by (auto simp: rule_deleteByID_def rl_refuse_def dest: use_case_failed split: sum.splits prod.splits option.splits)
qed (simp_all add: rule_getByID_def rule_effective_def rl_refuse_def Let_def split: sum.split)

section \<open>A rule sent back\<close>

text \<open>
  The body of an update made of the answer's fields that an update has.  The
  rest of an answer (the ids, the times, the system flag) must be left out:
  the decoder refuses a body with a field it does not know.
\<close>

definition resubmission :: "RateLimitResponse \<Rightarrow> UpdateRateLimitRequest" where
  "resubmission resp = \<lparr>bEnabled = qrEnabled resp, bName = qrName resp, bDescription = qrDescription resp, bTargetKind = qrTargetKind resp,
     bTarget = qrTarget resp, bScope = qrScope resp, bAudience = qrAudience resp, bStrategy = qrStrategy resp, bMethods = qrMethods resp,
     bWindows = map (\<lambda>w. \<lparr>bwPeriod = pwPeriod w, bwRequests = pwRequests w, bwBurst = pwBurst w\<rparr>) (qrWindows resp)\<rparr>"

text \<open>What a rule says, without the time of its last change and the ids of its windows.\<close>

definition content :: "RateLimitResponse \<Rightarrow> RateLimitResponse" where
  "content resp = resp\<lparr>qrUpdatedAt := zero_instant, qrWindows := map (\<lambda>w. w\<lparr>pwID := uuid_nil\<rparr>) (qrWindows resp)\<rparr>"

definition whole_period :: "RateLimitWindow \<Rightarrow> bool" where
  "whole_period w \<longleftrightarrow> (\<exists>k. 1 \<le> k \<and> k \<le> 10 ^ 9 \<and> wPeriod w = int k * second)"

lemma rules_wf_row:
  assumes "rules_wf db" "map_of (rdRules db) k = Some q"
  shows "rule_sound q" "budget_sound (windows_of k db)"
  using map_of_SomeD[OF assms(2)] assms(1) by (fastforce simp: rules_wf_def)+

lemma windows_read_written:
  "\<forall>w \<in> set ws. whole_period w \<Longrightarrow>
     windows_read frac i (map (\<lambda>w. \<lparr>bwPeriod = pwPeriod w, bwRequests = pwRequests w, bwBurst = pwBurst w\<rparr>) (toRateLimitWindowResponses ws)) errs
       = (errs, map (\<lambda>w. requested_window \<lparr>bwPeriod = duration_string (wPeriod w), bwRequests = wRequests w, bwBurst = wBurst w\<rparr> (wPeriod w)) ws)"
proof (induction ws arbitrary: i)
  case (Cons w ws)
  then obtain k where "1 \<le> k" "k \<le> 10 ^ 9" "wPeriod w = int k * second" by (auto simp: whole_period_def)
  then have "ParseDuration frac (duration_string (wPeriod w)) = Some (wPeriod w)" by (simp only: ParseDuration_string)
  with Cons show ?case by (simp add: toRateLimitWindowResponses_def)
qed (simp add: toRateLimitWindowResponses_def)

lemma stored_windows_whole:
  assumes "budget_sound (windows_of k db)" "w \<in> set (selectWindows k db)"
  shows "whole_period w" "window_seconds w = (wPeriod w, wRequests w, wBurst w)"
proof -
  obtain p where p: "p \<in> set (windows_of k db)" "w = window_of_row p" using assms(2) by (auto simp: selectWindows_def)
  with assms(1) have "0 < rwPeriod (snd p)" "rwPeriod (snd p) \<le> 86400" by (auto simp: budget_sound_def window_sound_def)
  then show "whole_period w" unfolding whole_period_def
    by (intro exI[of _ "nat (rwPeriod (snd p))"]) (simp add: p(2) window_of_row_def Suc_le_eq nat_le_iff)
  show "window_seconds w = (wPeriod w, wRequests w, wBurst w)" by (simp add: p(2) window_of_row_def window_seconds_def)
qed

lemma same_sorted:
  fixes f :: "'a \<Rightarrow> int"
  assumes "mset xs = mset ys" "sorted_wrt (<) (map f xs)" "sorted_wrt (<) (map f ys)"
  shows "xs = ys"
proof (rule map_sorted_distinct_set_unique[of f])
  have s: "set xs = set ys" using assms(1) by (metis set_mset_mset)
  show "inj_on f (set xs \<union> set ys)" using assms(3) s by (simp add: strict_sorted_iff distinct_map)
  show "sorted (map f xs)" "distinct (map f xs)" "sorted (map f ys)" "distinct (map f ys)" "set xs = set ys"
    using assms s by (simp_all add: strict_sorted_iff)
qed

lemma SortedWindows_selected:
  "sorted_wrt (<) (map wPeriod (rWindows r)) \<Longrightarrow> SortedWindows r = rWindows r"
  by (simp add: SortedWindows_def strict_sorted_iff sorted_map sort_key_id_if_sorted)

text \<open>Stored windows that agree in whole seconds are written alike, but for their ids.\<close>

lemma same_responses:
  assumes m: "mset (map window_seconds ws) = mset (map window_seconds vs)"
    and s: "sorted_wrt (<) (map wPeriod ws)" "sorted_wrt (<) (map wPeriod vs)"
    and e: "\<forall>w \<in> set ws \<union> set vs. window_seconds w = (wPeriod w, wRequests w, wBurst w)"
  shows "map (\<lambda>w. w\<lparr>pwID := uuid_nil\<rparr>) (toRateLimitWindowResponses ws) = map (\<lambda>w. w\<lparr>pwID := uuid_nil\<rparr>) (toRateLimitWindowResponses vs)"
proof -
  have r: "map (\<lambda>w. w\<lparr>pwID := uuid_nil\<rparr>) (toRateLimitWindowResponses us)
    = map (\<lambda>(p, q, b). \<lparr>pwPeriod = duration_string p, pwRequests = q, pwBurst = b, pwID = uuid_nil\<rparr>) (map window_seconds us)"
    and f: "map (fst \<circ> window_seconds) us = map wPeriod us"
    if "\<forall>w \<in> set us. window_seconds w = (wPeriod w, wRequests w, wBurst w)" for us
    using that by (simp_all add: toRateLimitWindowResponses_def)
  have ew: "\<forall>w \<in> set ws. window_seconds w = (wPeriod w, wRequests w, wBurst w)"
    and ev: "\<forall>w \<in> set vs. window_seconds w = (wPeriod w, wRequests w, wBurst w)" using e by blast+
  have "map window_seconds ws = map window_seconds vs"
    by (rule same_sorted[where f = fst, OF m]) (use f[OF ew] f[OF ev] s in \<open>simp_all only: map_map\<close>)
  with r[OF ew] r[OF ev] show ?thesis by simp
qed

text \<open>A stored rule as it is answered.\<close>

lemma stored_response:
  assumes "rules_wf db" "map_of (rdRules db) k = Some q"
  shows "sorted_wrt (<) (map wPeriod (selectWindows k db))"
    "qrWindows (ToRateLimitResponse (rule_of_row db (k, q))) = toRateLimitWindowResponses (selectWindows k db)"
    "\<forall>w \<in> set (selectWindows k db). whole_period w" "\<forall>w \<in> set (selectWindows k db). window_seconds w = (wPeriod w, wRequests w, wBurst w)"
proof -
  note b = rules_wf_row(2)[OF assms]
  show s: "sorted_wrt (<) (map wPeriod (selectWindows k db))" using b by (intro selectWindows_sorted) (simp add: budget_sound_def)
  then show "qrWindows (ToRateLimitResponse (rule_of_row db (k, q))) = toRateLimitWindowResponses (selectWindows k db)"
    using SortedWindows_selected[of "rule_of_row db (k, q)"] by (simp add: ToRateLimitResponse_def rule_of_row_def)
  show "\<forall>w \<in> set (selectWindows k db). whole_period w" "\<forall>w \<in> set (selectWindows k db). window_seconds w = (wPeriod w, wRequests w, wBurst w)"
    using stored_windows_whole[OF b] by blast+
qed

lemma repo_UpdateRule_created:
  assumes "repo_UpdateRule call i db = (None, db')" "map_of (rdRules db) (iID i) = Some q"
  shows "\<exists>r. map_of (rdRules db') (iID i) = Some r \<and> rlCreatedAt r = rlCreatedAt q"
  using repo_UpdateRule_cases[OF assms(1)]
proof (elim disjE exE conjE)
  fix name target q'
  assume m: "map_of (rdRules db) (iID i) = Some q'"
    and d: "db' = \<lparr>rdRules = AList.update (iID i) (updated_rule call i name target q') (rdRules db),
            rdWindows = rev (window_rows call (iID i) 0 (iWindows i)) @ filter (\<lambda>(_, w). rwRule w \<noteq> iID i) (rdWindows db)\<rparr>"
  show ?thesis using m assms(2) by (simp add: d update_conv' updated_rule_def)
qed simp

lemma GetByID_read:
  "rl_serve api (GetRule path) st = (RlRule resp, st2) \<longleftrightarrow>
     (\<exists>k r. parseUUIDQueryParams path = Inr k \<and> RateLimits_GetByID (raCall api) k st = Inr r \<and> resp = ToRateLimitResponse r \<and> st2 = st)"
  by (auto simp: rule_getByID_def rl_refuse_def writeGetError_def rl_answer_def split: sum.splits option.splits)

lemma GetByID_found:
  "RateLimits_GetByID call k st = Inr r \<longleftrightarrow> \<not> rcFaults call RSelect \<and> \<not> rcFaults call RSelectWindows
     \<and> (\<exists>q. map_of (rdRules (rsTables st)) k = Some q \<and> r = rule_of_row (rsTables st) (k, q))"
  by (auto simp: RateLimits_GetByID_def repo_SelectRule_def split: option.splits)

lemma put_accepted:
  assumes "rl_serve api (PutRule path (Inr req)) st = (a, st')" "rl_status a = 200"
  shows "\<exists>k ws. parseUUIDQueryParams path = Inr k \<and> ToRateLimitWindows (raFraction api) (bWindows req) = Inr ws
    \<and> RateLimits_UpdateByID (raCall api) (Some (rule_input k ws req)) st = (None, st')"
  using assms parse_refusal validated_refusal rl_error_answers
  by (fastforce simp: rule_updateByID_def rl_refuse_def decoded_def ProjectsApi.validated_def and_then_def split: sum.splits prod.splits option.splits)

text \<open>An update that was accepted leaves the rule as it was answered.\<close>

lemma accepted_resubmission:
  assumes "rules_wf (rsTables st)" and "rl_serve api1 (GetRule path) st = (RlRule resp, st)"
    and "rl_serve api2 (PutRule path (Inr (resubmission resp))) st = (a, st')" "rl_status a = 200"
    and "\<not> rcFaults (raCall api3) RSelect" "\<not> rcFaults (raCall api3) RSelectWindows"
  shows "\<exists>resp'. rl_serve api3 (GetRule path) st' = (RlRule resp', st') \<and> content resp' = content resp"
proof -
  obtain k q where k: "parseUUIDQueryParams path = Inr k" and q: "map_of (rdRules (rsTables st)) k = Some q"
    and resp: "resp = ToRateLimitResponse (rule_of_row (rsTables st) (k, q))"
    using assms(2) unfolding GetByID_read GetByID_found by blast
  let ?old = "selectWindows k (rsTables st)"
  note sound = rules_wf_row[OF assms(1) q] and old = stored_response[OF assms(1) q, folded resp]
  obtain ws where w: "ToRateLimitWindows (raFraction api2) (bWindows (resubmission resp)) = Inr ws"
    and up: "RateLimits_UpdateByID (raCall api2) (Some (rule_input k ws (resubmission resp))) st = (None, st')"
    using put_accepted[OF assms(3,4)] k by auto
  let ?i = "rule_input k ws (resubmission resp)"
  have ws: "map window_seconds ws = map window_seconds ?old"
    using w by (auto simp: ToRateLimitWindows_def resubmission_def old(2) windows_read_written[OF old(3)] HasErrors_def
        requested_window_def window_seconds_def)
  have step: "rl_step (RlUpdate (raCall api2) ?i) st = (None, st')" using up by simp
  obtain r where r: "RateLimits_GetByID (raCall api3) k st' = Inr r" "stored_texts ?i = Some (rName r, rTarget r)"
    "(rDescription r, rTargetKind r, rMethods r, rScope r, rAudience r, rStrategy r)
        = (iDescription ?i, iTargetKind ?i, iMethods ?i, iScope ?i, iAudience ?i, iStrategy ?i)"
    "rSystem r = Some False" "iEnabled ?i \<in> {None, rEnabled r}"
    "mset (map window_seconds (rWindows r)) = mset (map window_seconds (iWindows ?i))" "sorted_wrt (<) (map wPeriod (rWindows r))"
    using written_reads_back[OF assms(1) step disjI2[OF refl] assms(5,6)] by (auto simp: rule_input_def)
  have wf': "rules_wf (rsTables st')" using rl_step_wf[OF assms(1), of "RlUpdate (raCall api2) ?i"] step by simp
  obtain q' where q': "map_of (rdRules (rsTables st')) k = Some q'" and rr: "r = rule_of_row (rsTables st') (k, q')"
    using r(1) unfolding GetByID_found by blast
  have repo: "repo_UpdateRule (raCall api2) ?i (rsTables st) = (None, rsTables st')" by (rule rl_update_success(2)[OF step])
  have created: "rlCreatedAt q' = rlCreatedAt q"
    using repo_UpdateRule_created[OF repo, of q] q q' by (simp add: rule_input_def)
  have notsystem: "\<not> rlSystem q" using repo_UpdateRule_cases[OF repo] q by (auto simp: rule_input_def)
  note new = stored_response[OF wf' q']
  have rw: "rWindows r = selectWindows k (rsTables st')" by (simp add: rr rule_of_row_def)
  have windows: "map (\<lambda>w. w\<lparr>pwID := uuid_nil\<rparr>) (toRateLimitWindowResponses (rWindows r))
      = map (\<lambda>w. w\<lparr>pwID := uuid_nil\<rparr>) (toRateLimitWindowResponses ?old)"
    by (rule same_responses) (use r(6,7) ws old(1,4) new(4) rw in \<open>simp_all add: rule_input_def ball_Un\<close>)
  have names: "rName r = rlName q" "rTarget r = rlTarget q"
    using r(2) sound(1) by (auto simp: stored_texts_def rule_input_def resubmission_def resp ToRateLimitResponse_def rule_of_row_def rule_sound_def)
  have defaults: "audienceOrDefault (rlAudience q) = rlAudience q" "strategyOrDefault (rlStrategy q) = rlStrategy q"
    by (simp_all add: audienceOrDefault_def strategyOrDefault_def) (use sound(1) in \<open>auto simp: rule_sound_def validRateLimitStrategies_def validRateLimitAudiences_def\<close>)
  have "content (ToRateLimitResponse r) = content resp"
    using r(3,4,5) names windows defaults created notsystem SortedWindows_selected[OF r(7)] old(2)
    by (auto simp: content_def ToRateLimitResponse_def resp rule_input_def resubmission_def rule_of_row_def rr)
  moreover have "rl_serve api3 (GetRule path) st' = (RlRule (ToRateLimitResponse r), st')"
    unfolding GetByID_read using k r(1) by blast
  ultimately show ?thesis by blast
qed

end
