(* ===== verification/RateLimitsResubmit.thy ===== *)
theory RateLimitsResubmit
  imports RateLimitsApiRules
begin

text \<open>
  What the routes write they take again.  Every stored rule passes the
  validation of an update (a name is stored without the spaces its column cut
  off, the periods of its windows in whole seconds), so a rule that is read
  and sent back is accepted, and reads the same again.
\<close>

section \<open>Texts\<close>

lemma concat_rune_texts: "concat (rune_texts s) = s"
  by (induction s rule: rune_texts.induct) simp_all

text \<open>A column cuts off spaces only.\<close>

lemma varchar_cut:
  assumes "varchar n s = Some t" shows "\<exists>m. s = t @ replicate m (CHR '' '')"
proof (cases "length (rune_texts s) \<le> n")
  case True
  with assms show ?thesis by (intro exI[of _ 0]) (simp add: varchar_def)
next
  case False
  with assms have t: "t = concat (take n (rune_texts s))" and r: "list_all (\<lambda>r. r = '' '') (drop n (rune_texts s))"
    by (auto simp: varchar_def split: if_splits)
  have spaces: "list_all (\<lambda>r. r = '' '') rs \<Longrightarrow> concat rs = replicate (length rs) (CHR '' '')" for rs by (induction rs) auto
  have "s = concat (take n (rune_texts s)) @ concat (drop n (rune_texts s))"
    using concat_rune_texts[of s] by (metis append_take_drop_id concat_append)
  with t spaces[OF r] show ?thesis by metis
qed

lemma lead_space_end: "s \<noteq> [] \<Longrightarrow> lead_space (s @ [CHR '' '']) = lead_space s"
  by (induction s rule: lead_space.induct) (auto simp: space2_def space3_def)

lemma lead_space_le: "lead_space s \<le> length s"
  by (induction s rule: lead_space.induct) auto

lemma trim_left_end: "trim_left (s @ [CHR '' '']) = (if trim_left s = [] then [] else trim_left s @ [CHR '' ''])"
proof (induction s rule: trim_left.induct)
  case (1 s)
  have sp: "trim_left '' '' = []" "trim_left [] = []" by (simp_all add: trim_left.simps ascii_space_def)
  show ?case
  proof (cases "s = [] \<or> lead_space s = 0")
    case True
    then show ?thesis
    proof (cases "s = []")
      case False
      with True have z: "lead_space s = 0" by simp
      have "trim_left s = s" "trim_left (s @ [CHR '' '']) = s @ [CHR '' '']"
        using lead_space_end[OF False] z by (simp_all add: trim_left.simps[of s] trim_left.simps[of "s @ [CHR '' '']"])
      with False show ?thesis by simp
    qed (simp add: sp)
  next
    case False
    then have "trim_left (s @ [CHR '' '']) = trim_left (drop (lead_space s) s @ [CHR '' ''])"
      using lead_space_le[of s] by (subst trim_left.simps) (simp add: lead_space_end Let_def)
    also have "\<dots> = (if trim_left (drop (lead_space s) s) = [] then [] else trim_left (drop (lead_space s) s) @ [CHR '' ''])"
      by (rule 1) (use False in simp_all)
    also have "trim_left (drop (lead_space s) s) = trim_left s" using False by (simp add: trim_left.simps[of s] Let_def)
    finally show ?thesis .
  qed
qed

lemma trim_rev_space: "trim_rev (CHR '' '' # s) = trim_rev s"
proof -
  have "trail_space (CHR '' '' # s) = 1" by (cases s rule: trail_space.cases) (auto simp: ascii_space_def)
  then show ?thesis by (subst trim_rev.simps) simp
qed

lemma TrimSpace_end: "TrimSpace (s @ replicate m (CHR '' '')) = TrimSpace s"
proof (induction m)
  case (Suc m)
  have "TrimSpace (x @ [CHR '' '']) = TrimSpace x" for x
    by (simp add: TrimSpace_def trim_left_end trim_rev_space)
  from this[of "s @ replicate m (CHR '' '')"] Suc show ?case by (simp add: replicate_append_same[symmetric])
qed simp

lemma ValidateString_cut:
  assumes "varchar n s = Some t" "TrimWhitespace opts" "\<not> AllowEmpty opts"
  shows "ValidateString t opts = ValidateString s opts"
proof -
  obtain m where m: "s = t @ replicate m (CHR '' '')" using varchar_cut[OF assms(1)] by blast
  show ?thesis using assms(2,3) TrimSpace_end[of t m] by (simp add: ValidateString_def m)
qed

text \<open>A target has no spaces.\<close>

lemma word_no_space: "t \<in> rx_lang word_rx \<Longrightarrow> set t \<subseteq> {c. c \<noteq> CHR '' ''}"
proof -
  have w: "t \<in> rx_lang (RCls word_cls) \<Longrightarrow> set t \<subseteq> {c. c \<noteq> CHR '' ''}" for t by (auto simp: word_cls_def)
  assume "t \<in> rx_lang word_rx"
  then show ?thesis using w rx_lang_upto_set[of "RCls word_cls" "{c. c \<noteq> CHR '' ''}"] unfolding word_rx_def by fastforce
qed

lemma target_no_space: "rx_match rateLimitTargetRe t \<Longrightarrow> CHR '' '' \<notin> set t"
proof -
  have seg: "t \<in> rx_lang target_seg \<Longrightarrow> set t \<subseteq> {c. c \<noteq> CHR '' ''}" for t
    using word_no_space by (fastforce simp: target_seg_def)
  have one: "t \<in> rx_lang (RSeq (rx_lit ''/'') target_seg) \<Longrightarrow> set t \<subseteq> {c. c \<noteq> CHR '' ''}" for t
    using seg by fastforce
  have up: "t \<in> rx_lang (rx_upto 7 (RSeq (rx_lit ''/'') target_seg)) \<Longrightarrow> set t \<subseteq> {c. c \<noteq> CHR '' ''}" for t
    using rx_lang_upto_set[where r = "RSeq (rx_lit ''/'') target_seg" and A = "{c. c \<noteq> CHR '' ''}"] one by blast
  assume "rx_match rateLimitTargetRe t"
  then have "t \<in> rx_lang rateLimitTargetRe" by (simp add: rx_match_iff)
  then consider "t = ''*''" | u v w where "t = ''/'' @ u @ v @ w" "u \<in> rx_lang target_seg"
      "v \<in> rx_lang (rx_upto 7 (RSeq (rx_lit ''/'') target_seg))" "w = [] \<or> w = ''/''"
    unfolding rateLimitTargetRe_def by (auto simp del: rx_upto.simps)
  then show ?thesis
  proof cases
    case (2 u v w)
    with seg[OF 2(2)] up[OF 2(3)] show ?thesis by auto
  qed simp
qed

lemma target_stored: "rx_match rateLimitTargetRe t \<Longrightarrow> varchar n t = Some t' \<Longrightarrow> t' = t"
proof -
  assume t: "rx_match rateLimitTargetRe t" "varchar n t = Some t'"
  obtain m where "t = t' @ replicate m (CHR '' '')" using varchar_cut[OF t(2)] by blast
  with target_no_space[OF t(1)] show "t' = t" by (cases m) auto
qed

section \<open>Every stored rule can be written again\<close>

text \<open>A stored rule as the input of a write; the rules of the system are written elsewhere.\<close>

definition stored_input :: "uuid \<Rightarrow> rate_limit_row \<Rightarrow> RateLimitWindow list \<Rightarrow> CreateRateLimitInput" where
  "stored_input k q ws = \<lparr>iEnabled = Some (rlEnabled q), iName = rlName q, iDescription = rlDescription q, iTarget = rlTarget q,
     iTargetKind = rlKind q, iScope = rlScope q, iAudience = rlAudience q, iStrategy = rlStrategy q, iMethods = rlMethods q,
     iWindows = ws, iID = k\<rparr>"

definition rule_valid :: "rules_db \<Rightarrow> uuid \<Rightarrow> rate_limit_row \<Rightarrow> bool" where
  "rule_valid db k q \<longleftrightarrow> IsUUIDV7 k \<and> rule_ok (stored_input k q (selectWindows k db))
     \<and> (\<forall>p \<in> set (windows_of k db). int4 (rwRequests (snd p)) \<and> int4 (rwBurst (snd p)))
     \<and> \<not> system_windows k db"

definition rules_valid :: "rules_db \<Rightarrow> bool" where
  "rules_valid db \<longleftrightarrow> (\<forall>k q. map_of (rdRules db) k = Some q \<longrightarrow> \<not> rlSystem q \<longrightarrow> rule_valid db k q)"

lemma kept_valid: "kept k db db' \<Longrightarrow> rule_valid db k q \<Longrightarrow> rule_valid db' k q"
  by (simp add: rule_valid_def kept_def system_windows_def selectWindows_def)

lemma window_rows_rows: "p \<in> set (window_rows call k i ws) \<Longrightarrow> \<exists>j w. w \<in> set ws \<and> snd p = window_row_of call k j w"
  by (induction call k i ws rule: window_rows.induct) (auto split: if_splits, blast+)

lemma window_seconds_ok:
  "window_seconds w = window_seconds v \<Longrightarrow> window_seconds w = (wPeriod w, wRequests w, wBurst w) \<Longrightarrow> window_ok v \<Longrightarrow> window_ok w"
  using zdiv_mono1[of second "wPeriod v" second] by (auto simp: window_ok_def window_seconds_def)

lemma written_windows_ok:
  assumes "windows_of k db = rev (window_rows call k 0 (iWindows i))" "budget_sound (windows_of k db)" "rule_ok i"
  shows "list_all window_ok (selectWindows k db)"
  unfolding list_all_iff
proof
  fix w assume w: "w \<in> set (selectWindows k db)"
  have "set (map window_seconds (selectWindows k db)) = set (map window_seconds (iWindows i))"
    using selectWindows_written[OF assms(1)] by (metis set_mset_mset)
  with w obtain v where v: "v \<in> set (iWindows i)" "window_seconds w = window_seconds v" by auto
  have "window_ok v" using assms(3) v(1) by (simp add: rule_ok_def list_all_iff)
  with window_seconds_ok[OF v(2) stored_windows_whole(2)[OF assms(2) w]] show "window_ok w" by simp
qed

lemma written_valid:
  assumes w: "written i k db" and wf: "rules_wf db" and v: "rule_ok i" "IsUUIDV7 k" and st: "storable_windows (iWindows i)"
    and q: "map_of (rdRules db) k = Some q"
  shows "rule_valid db k q"
proof -
  obtain call where c: "windows_of k db = rev (window_rows call k 0 (iWindows i))" using w by (auto simp: written_def)
  have t: "varchar 100 (iName i) = Some (rlName q)" "varchar 255 (iTarget i) = Some (rlTarget q)"
    using w q by (auto simp: written_def stored_texts_def split: option.splits)
  have name: "ValidateString (rlName q) (rl_string_opts ''name'' 2 100) = ValidateString (iName i) (rl_string_opts ''name'' 2 100)"
    by (rule ValidateString_cut[OF t(1)]) (simp_all add: rl_string_opts_def)
  have target: "rlTarget q = iTarget i" using v(1) t(2) by (auto simp: rule_ok_def intro: target_stored)
  note b = rules_wf_row(2)[OF wf q]
  have d: "distinct (map wPeriod (selectWindows k db))"
    using selectWindows_sorted[of k db] b by (simp add: budget_sound_def strict_sorted_iff)
  have "length (selectWindows k db) = length (iWindows i)" by (simp add: selectWindows_def c)
  with v d name target w q written_windows_ok[OF c b v(1)] have "rule_ok (stored_input k q (selectWindows k db))"
    by (simp add: rule_ok_def stored_input_def written_def)
  moreover have "int4 (rwRequests (snd p)) \<and> int4 (rwBurst (snd p)) \<and> \<not> rwSystem (snd p)" if "p \<in> set (windows_of k db)" for p
    using window_rows_rows[of p call k 0 "iWindows i"] that st by (auto simp: c storable_windows_def list_all_iff)
  ultimately show ?thesis using v(2) by (auto simp: rule_valid_def system_windows_def list_ex_iff)
qed

text \<open>A write leaves the other rules and their windows alone.\<close>

lemma repo_write_kept:
  "k \<noteq> iID i \<Longrightarrow> kept k db (snd (repo_InsertRule call i db))"
  "k \<noteq> iID i \<Longrightarrow> kept k db (snd (repo_UpdateRule call i db))"
  "k \<noteq> j \<Longrightarrow> kept k db (snd (repo_DeleteRule call j db))"
proof -
  assume k: "k \<noteq> iID i"
  obtain err db' where e: "repo_InsertRule call i db = (err, db')" by (rule prod.exhaust)
  from repo_InsertRule_cases[OF e] show "kept k db (snd (repo_InsertRule call i db))"
    using other_windows_kept[OF k] k by (auto simp: e kept_def windows_of_def)
next
  assume k: "k \<noteq> iID i"
  obtain err db' where e: "repo_UpdateRule call i db = (err, db')" by (rule prod.exhaust)
  from repo_UpdateRule_cases[OF e] show "kept k db (snd (repo_UpdateRule call i db))"
  proof (elim disjE exE conjE)
    fix name target q
    assume d: "db' = \<lparr>rdRules = AList.update (iID i) (updated_rule call i name target q) (rdRules db),
            rdWindows = rev (window_rows call (iID i) 0 (iWindows i)) @ filter (\<lambda>(_, w). rwRule w \<noteq> iID i) (rdWindows db)\<rparr>"
    show ?thesis unfolding e snd_conv d kept_def windows_of_append other_windows_kept[OF k] without_windows_other[OF k] append_Nil
      using k by (simp add: update_conv')
  qed (simp add: e kept_def)
next
  assume k: "k \<noteq> j"
  obtain err db' where e: "repo_DeleteRule call j db = (err, db')" by (rule prod.exhaust)
  from repo_DeleteRule_cases[OF e] show "kept k db (snd (repo_DeleteRule call j db))"
  proof (elim disjE exE conjE)
    fix q
    assume d: "db' = \<lparr>rdRules = filter (\<lambda>(l, _). l \<noteq> j) (rdRules db), rdWindows = filter (\<lambda>(_, w). rwRule w \<noteq> j) (rdWindows db)\<rparr>"
    show ?thesis unfolding e snd_conv d kept_def without_windows_other[OF k] using map_of_filter_other[OF k] by simp
  qed (simp add: e kept_def)
qed

lemma repo_write_valid:
  assumes "rules_wf db" "rules_valid db"
  shows "repo_InsertRule call i db = (None, db') \<Longrightarrow> rules_valid db'"
    "repo_UpdateRule call i db = (None, db') \<Longrightarrow> rules_valid db'"
    "repo_DeleteRule call j db = (None, db') \<Longrightarrow> rules_valid db'"
proof -
  have old: "rule_valid db' k q" if "kept k db db'" "map_of (rdRules db') k = Some q" "\<not> rlSystem q" for k q
    using that assms(2) kept_valid[OF that(1)] by (simp add: rules_valid_def kept_def)
  note keep = repo_write_kept(1)[of _ i db call] repo_write_kept(2)[of _ i db call] repo_write_kept(3)[of _ j db call]
  have new: "rules_valid db'"
    if w: "written i (iID i) db'" and wf: "rules_wf db'" and v: "CreateRateLimitInput_Validate i = None" "storable_windows (iWindows i)"
      and k: "\<And>k. k \<noteq> iID i \<Longrightarrow> kept k db db'"
    unfolding rules_valid_def
  proof (intro allI impI)
    fix k q assume q: "map_of (rdRules db') k = Some q" "\<not> rlSystem q"
    show "rule_valid db' k q"
    proof (cases "k = iID i")
      case True
      then show ?thesis using written_valid[OF w wf] v q by (simp add: rule_validated)
    qed (use old k q in blast)
  qed
  show "repo_InsertRule call i db = (None, db') \<Longrightarrow> rules_valid db'"
    using new repo_InsertRule_written[OF assms(1)] repo_InsertRule_wf[OF assms(1), of call i] repo_writes_storable(1) repo_InsertRule_cases keep(1)
    by (metis option.distinct(1) snd_conv)
  show "repo_UpdateRule call i db = (None, db') \<Longrightarrow> rules_valid db'"
    using new repo_UpdateRule_written repo_UpdateRule_wf[OF assms(1), of call i] repo_writes_storable(2) repo_UpdateRule_cases keep(2) rule_validated(2)
    by (metis option.distinct(1) snd_conv)
  show "rules_valid db'" if d: "repo_DeleteRule call j db = (None, db')"
    unfolding rules_valid_def
  proof (intro allI impI)
    fix k q assume q: "map_of (rdRules db') k = Some q" "\<not> rlSystem q"
    have "k \<noteq> j" using repo_DeleteRule_cases[OF d] q(1) by (auto dest: map_of_SomeD)
    then show "rule_valid db' k q" using old[OF _ q] keep(3) d by (metis snd_conv)
  qed
qed

lemma rl_step_valid:
  assumes "rules_wf (rsTables st)" "rules_valid (rsTables st)"
  shows "rules_valid (rsTables (snd (rl_step op st)))"
proof (cases "fst (rl_step op st)")
  case None
  have w: "fst (repo_InsertRule call i (rsTables st)) = None \<Longrightarrow> rules_valid (snd (repo_InsertRule call i (rsTables st)))"
    "fst (repo_UpdateRule call i (rsTables st)) = None \<Longrightarrow> rules_valid (snd (repo_UpdateRule call i (rsTables st)))"
    "fst (repo_DeleteRule call k (rsTables st)) = None \<Longrightarrow> rules_valid (snd (repo_DeleteRule call k (rsTables st)))" for call i k
    using repo_write_valid[OF assms] by (metis prod.collapse)+
  from rl_step_tables[of op st] show ?thesis
  proof (elim disjE exE)
    assume "rsTables (snd (rl_step op st)) = rsTables st" with assms(2) show ?thesis by simp
  next
    fix call i assume "rl_step op st = after_write call (repo_InsertRule call i (rsTables st)) st"
    then show ?thesis using None w(1) by simp
  next
    fix call i assume "rl_step op st = after_write call (repo_UpdateRule call i (rsTables st)) st"
    then show ?thesis using None w(2) by simp
  next
    fix call k assume "rl_step op st = after_write call (repo_DeleteRule call k (rsTables st)) st"
    then show ?thesis using None w(3) by simp
  qed
qed (use rl_step_failed[of op st] assms in simp)

lemma rl_run_valid: "rules_wf (rsTables st) \<Longrightarrow> rules_valid (rsTables st) \<Longrightarrow> rules_valid (rsTables (rl_run ops st))"
  by (induction ops arbitrary: st) (auto simp: rl_step_wf rl_step_valid)

section \<open>A rule sent back is accepted\<close>

text \<open>The ids the update draws for the windows are new.\<close>

definition fresh_ids :: "rl_call \<Rightarrow> nat \<Rightarrow> rules_db \<Rightarrow> bool" where
  "fresh_ids call n db \<longleftrightarrow> distinct (map (rcWindowIDs call) [0..<n]) \<and> (\<forall>j < n. map_of (rdWindows db) (rcWindowIDs call j) = None)"

lemma insertWindows_accepts:
  assumes "\<And>s. \<not> rcFaults call s"
    and "\<forall>w \<in> set ws. wID w = uuid_nil \<and> int4 (wRequests w) \<and> int4 (wBurst w) \<and> window_ok w"
    and "distinct (map (\<lambda>w. wPeriod w div second) ws)" "distinct (map (rcWindowIDs call) [i..<i + length ws])"
    and "\<forall>j \<in> {i..<i + length ws}. rcWindowIDs call j \<notin> fst ` set (rdWindows db)"
    and "\<forall>p \<in> set (rdWindows db). rwRule (snd p) = rule \<longrightarrow> (\<forall>w \<in> set ws. rwPeriod (snd p) \<noteq> wPeriod w div second)"
  shows "fst (insertWindows call rule i ws db) = None"
  using assms(2-)
proof (induction ws arbitrary: i db)
  case (Cons w ws)
  let ?db = "db\<lparr>rdWindows := (rcWindowIDs call i, window_row_of call rule i w) # rdWindows db\<rparr>"
  have l: "[i..<i + length (w # ws)] = i # [Suc i..<Suc i + length ws]" using upt_conv_Cons[of i "i + length (w # ws)"] by (simp del: upt_Suc)
  have IH: "fst (insertWindows call rule (Suc i) ws ?db) = None"
  proof (rule Cons.IH)
    show "distinct (map (rcWindowIDs call) [Suc i..<Suc i + length ws])" using Cons.prems(3) unfolding l by simp
    show "\<forall>j\<in>{Suc i..<Suc i + length ws}. rcWindowIDs call j \<notin> fst ` set (rdWindows ?db)"
      using Cons.prems(3,4) unfolding l by (auto simp: image_iff)
  qed (use Cons.prems in \<open>auto simp: image_iff\<close>)
  have k: "1 \<le> wPeriod w div second" "wPeriod w div second \<le> 86400"
    using Cons.prems(1) zdiv_mono1[of second "wPeriod w" second] zdiv_mono1[of "wPeriod w" "24 * hour" second] by (auto simp: window_ok_def)
  have n: "map_of (rdWindows db) (rcWindowIDs call i) = None" using Cons.prems(4) by (simp add: map_of_eq_None_iff)
  have "\<not> list_ex (\<lambda>(_, q). rwRule q = rule \<and> rwPeriod q = wPeriod w div second) (rdWindows db)"
    using Cons.prems(5) by (auto simp: list_ex_iff)
  then show ?case using IH k n Cons.prems(1) assms(1) by (simp add: Let_def window_ok_def)
qed simp

lemma repo_UpdateRule_accepts:
  assumes "\<And>s. \<not> rcFaults call s" "UpdateRateLimitInput_Validate i = None" "map_of (rdRules db) (iID i) = Some q" "\<not> rlSystem q"
    and "stored_texts i = Some (rlName q, rlTarget q)" "distinct (map (rlName \<circ> snd) (rdRules db))" "\<not> system_windows (iID i) db"
    and "\<forall>w \<in> set (iWindows i). wID w = uuid_nil \<and> int4 (wRequests w) \<and> int4 (wBurst w) \<and> window_ok w"
    and "distinct (map (\<lambda>w. wPeriod w div second) (iWindows i))" "fresh_ids call (length (iWindows i)) db"
  shows "fst (repo_UpdateRule call i db) = None"
proof -
  have n: "\<not> list_ex (\<lambda>(k, p). k \<noteq> iID i \<and> rlName p = rlName q) (rdRules db)"
  proof
    assume "list_ex (\<lambda>(k, p). k \<noteq> iID i \<and> rlName p = rlName q) (rdRules db)"
    then obtain k p where p: "(k, p) \<in> set (rdRules db)" "k \<noteq> iID i" "rlName p = rlName q" by (auto simp: list_ex_iff)
    have "inj_on (rlName \<circ> snd) (set (rdRules db))" using assms(6) by (simp add: distinct_map)
    from inj_onD[OF this, of "(k, p)" "(iID i, q)"] p map_of_SomeD[OF assms(3)] show False by auto
  qed
  have w: "fst (insertWindows call (iID i) 0 (iWindows i) (without_windows (iID i)
      (db\<lparr>rdRules := AList.update (iID i) (updated_rule call i (rlName q) (rlTarget q) q) (rdRules db)\<rparr>))) = None"
    by (rule insertWindows_accepts)
      (use assms(1,8,9,10) in \<open>auto simp: fresh_ids_def without_windows_def map_of_eq_None_iff image_iff\<close>)
  then show ?thesis using assms n by (simp add: repo_UpdateRule_def committed_def)
qed

text \<open>The body made of a stored rule's answer reads as the stored rule.\<close>

lemma resubmission_input:
  assumes "rules_wf db" "map_of (rdRules db) k = Some q"
  shows "ToRateLimitWindows frac (bWindows (resubmission (ToRateLimitResponse (rule_of_row db (k, q)))))
     = Inr (map (\<lambda>w. requested_window \<lparr>bwPeriod = duration_string (wPeriod w), bwRequests = wRequests w, bwBurst = wBurst w\<rparr> (wPeriod w)) (selectWindows k db))"
    "rule_input k ws (resubmission (ToRateLimitResponse (rule_of_row db (k, q)))) = stored_input k q ws"
proof -
  note s = stored_response[OF assms]
  show "ToRateLimitWindows frac (bWindows (resubmission (ToRateLimitResponse (rule_of_row db (k, q)))))
     = Inr (map (\<lambda>w. requested_window \<lparr>bwPeriod = duration_string (wPeriod w), bwRequests = wRequests w, bwBurst = wBurst w\<rparr> (wPeriod w)) (selectWindows k db))"
    using windows_read_written[OF s(3), of frac 0 "[]"] by (simp add: ToRateLimitWindows_def resubmission_def s(2) HasErrors_def)
  have "audienceOrDefault (rlAudience q) = rlAudience q" "strategyOrDefault (rlStrategy q) = rlStrategy q"
    using rules_wf_row(1)[OF assms]
    by (auto simp: audienceOrDefault_def strategyOrDefault_def rule_sound_def validRateLimitStrategies_def validRateLimitAudiences_def)
  then show "rule_input k ws (resubmission (ToRateLimitResponse (rule_of_row db (k, q)))) = stored_input k q ws"
    by (simp add: rule_input_def resubmission_def ToRateLimitResponse_def rule_of_row_def stored_input_def)
qed

abbreviation requested_windows :: "uuid \<Rightarrow> rules_db \<Rightarrow> RateLimitWindow list" where
  "requested_windows k db \<equiv>
     map (\<lambda>w. requested_window \<lparr>bwPeriod = duration_string (wPeriod w), bwRequests = wRequests w, bwBurst = wBurst w\<rparr> (wPeriod w)) (selectWindows k db)"

lemma resubmission_valid:
  assumes "rules_wf db" "rule_valid db k q" "map_of (rdRules db) k = Some q"
  shows "UpdateRateLimitInput_Validate (stored_input k q (requested_windows k db)) = None"
    "stored_texts (stored_input k q (requested_windows k db)) = Some (rlName q, rlTarget q)"
    "\<forall>w \<in> set (requested_windows k db). wID w = uuid_nil \<and> int4 (wRequests w) \<and> int4 (wBurst w) \<and> window_ok w"
    "distinct (map (\<lambda>w. wPeriod w div second) (requested_windows k db))"
proof -
  note v = assms(2)[unfolded rule_valid_def] and s = rules_wf_row[OF assms(1,3)]
  have ok: "list_all window_ok (selectWindows k db)" using v by (simp add: rule_ok_def stored_input_def)
  have n: "int4 (wRequests w) \<and> int4 (wBurst w)" if "w \<in> set (selectWindows k db)" for w
    using v that by (auto simp: selectWindows_def window_of_row_def)
  have p: "map wPeriod (requested_windows k db) = map wPeriod (selectWindows k db)" by (simp add: requested_window_def)
  have r: "list_all window_ok (requested_windows k db)" using ok by (auto simp: list_all_iff window_ok_def requested_window_def)
  have "distinct (map wPeriod (requested_windows k db))" unfolding p using v by (simp add: rule_ok_def stored_input_def)
  then have "rule_ok (stored_input k q (requested_windows k db))" using v r by (simp add: rule_ok_def stored_input_def)
  then show "UpdateRateLimitInput_Validate (stored_input k q (requested_windows k db)) = None"
    using v by (simp add: rule_validated stored_input_def)
  show "stored_texts (stored_input k q (requested_windows k db)) = Some (rlName q, rlTarget q)"
    using s(1) by (simp add: stored_texts_def stored_input_def rule_sound_def)
  show "\<forall>w \<in> set (requested_windows k db). wID w = uuid_nil \<and> int4 (wRequests w) \<and> int4 (wBurst w) \<and> window_ok w"
    using r n by (auto simp: list_all_iff requested_window_def)
  have "mset (map (rwPeriod \<circ> snd) (sort_key (\<lambda>p. rwPeriod (snd p)) (windows_of k db))) = mset (map (rwPeriod \<circ> snd) (windows_of k db))" by simp
  then have "distinct (map (rwPeriod \<circ> snd) (sort_key (\<lambda>p. rwPeriod (snd p)) (windows_of k db)))"
    using s(2) by (metis budget_sound_def mset_eq_imp_distinct_iff)
  moreover have "map (\<lambda>w. wPeriod w div second) (requested_windows k db)
      = map (rwPeriod \<circ> snd) (sort_key (\<lambda>p. rwPeriod (snd p)) (windows_of k db))"
    by (simp add: selectWindows_def requested_window_def window_of_row_def)
  ultimately show "distinct (map (\<lambda>w. wPeriod w div second) (requested_windows k db))" by simp
qed

text \<open>
  C22. Round trip over the routes: after any run of creates, updates and
  deletes, a rule that is not the system's is read, and an update made of the
  fields of the answer that an update has is sent back.  While the database
  answers and the rule's route is still served, the update is accepted, and
  the rule then reads the same in everything but the time of the change and
  the ids of its windows: its texts, its windows with their periods as
  durations, its flags, its id and the time it was made.
\<close>

theorem resubmitted_rule_reads_the_same:
  assumes wf: "rules_wf (rsTables st0)" "rules_valid (rsTables st0)" and st: "st = rl_run ops st0"
    and get: "rl_serve api1 (GetRule path) st = (RlRule resp, st)" "qrSystem resp = Some False"
    and put: "\<And>s. \<not> rcFaults (raCall api2) s" "fresh_ids (raCall api2) (length (qrWindows resp)) (rsTables st)"
      "validateTarget (raCall api2) (qrTargetKind resp) (qrTarget resp) (qrMethods resp) = None"
    and "\<not> rcFaults (raCall api3) RSelect" "\<not> rcFaults (raCall api3) RSelectWindows"
  shows "\<exists>a st' resp'. rl_serve api2 (PutRule path (Inr (resubmission resp))) st = (a, st') \<and> rl_status a = 200
    \<and> rl_serve api3 (GetRule path) st' = (RlRule resp', st') \<and> content resp' = content resp"
proof -
  let ?db = "rsTables st"
  have wf': "rules_wf ?db" and valid: "rules_valid ?db" using wf rl_run_wf rl_run_valid by (auto simp: st)
  obtain k q where k: "parseUUIDQueryParams path = Inr k" and q: "map_of (rdRules ?db) k = Some q"
    and resp: "resp = ToRateLimitResponse (rule_of_row ?db (k, q))"
    using get(1) unfolding GetByID_read GetByID_found by blast
  have ns: "\<not> rlSystem q" using get(2) by (simp add: resp ToRateLimitResponse_def rule_of_row_def)
  have v: "rule_valid ?db k q" using valid q ns by (simp add: rules_valid_def)
  let ?i = "stored_input k q (requested_windows k ?db)"
  note r = resubmission_valid[OF wf' v q] and input = resubmission_input[OF wf' q, folded resp]
  have sys: "\<not> rlSystem q" "\<not> system_windows k ?db" using ns v by (simp_all add: rule_valid_def)
  have n: "length (qrWindows resp) = length (requested_windows k ?db)"
    using stored_response(2)[OF wf' q] by (simp add: resp toRateLimitWindowResponses_def)
  have "fst (repo_UpdateRule (raCall api2) ?i ?db) = None"
    using repo_UpdateRule_accepts[OF put(1) r(1), where db = ?db and q = q] r(2-4) q sys wf' put(2) n
    by (simp add: stored_input_def rules_wf_def)
  moreover have "validateTarget (raCall api2) (iTargetKind ?i) (iTarget ?i) (iMethods ?i) = None"
    using put(3) by (simp add: resp ToRateLimitResponse_def rule_of_row_def stored_input_def)
  ultimately obtain st' where u: "RateLimits_UpdateByID (raCall api2) (Some ?i) st = (None, st')"
    using r(1) by (auto simp: RateLimits_UpdateByID_def after_write_def)
  have a: "rl_serve api2 (PutRule path (Inr (resubmission resp))) st = (RlReply (Reply 200 (Text ''Rate limit updated successfully'')), st')"
    using u k input by (simp add: rule_updateByID_def rl_refuse_def decoded_def ProjectsApi.validated_def)
  from accepted_resubmission[OF wf' get(1) a _ assms(9,10)] a show ?thesis by auto
qed

end
