(* ===== verification/RateLimitsDemo.thy ===== *)
theory RateLimitsDemo
  imports RateLimitsResubmit
begin

text \<open>
  A small world for the administration of the rules: one rule of the system,
  four endpoints and a replica that enforces.  The concrete run of every
  theorem of \<open>RateLimitAdminRules\<close>, \<open>RateLimitsApiRules\<close> and
  \<open>RateLimitsResubmit\<close> is here.
\<close>

section \<open>The world\<close>

definition demo_rl_call :: rl_call where
  "demo_rl_call = \<lparr>rcFaults = (\<lambda>_. False), rcNow = 100 * second, rcFresh = uuid7 50, rcWindowIDs = (\<lambda>n. if n = 0 then uuid7 60 else uuid7 61),
     rcSerial = 2, rcWindowSerials = (\<lambda>n. 2 + int n),
     rcResources = [(''*'', ''*''), (''/users'', ''GET''), (''/users/{user_id}'', ''GET''), (''/users/{user_id}'', ''PUT''), (''/projects'', ''POST'')]\<rparr>"

definition system_rule :: rate_limit_row where
  "system_rule = \<lparr>rlCreatedAt = 0, rlUpdatedAt = 0, rlName = ''global'', rlDescription = ''every route'', rlKind = ''global'', rlTarget = ''*'',
     rlMethods = [''*''], rlScope = ''ip'', rlAudience = ''any'', rlStrategy = ''token_bucket'', rlEnabled = True, rlSystem = True, rlSerial = 1\<rparr>"

definition demo_admin :: rl_state where
  "demo_admin = \<lparr>rsTables = \<lparr>rdRules = [(uuid7 40, system_rule)],
       rdWindows = [(uuid7 41, \<lparr>rwRule = uuid7 40, rwRequests = 300, rwPeriod = 60, rwBurst = 0, rwSystem = True, rwCreatedAt = 0, rwUpdatedAt = 0, rwSerial = 1\<rparr>)]\<rparr>,
     rsMirror = Some NewRateLimitRules, rsNotifier = True, rsNotified = 0\<rparr>"

definition demo_window :: "int \<Rightarrow> duration \<Rightarrow> RateLimitWindow" where
  "demo_window n p = requested_window \<lparr>bwPeriod = [], bwRequests = n, bwBurst = 0\<rparr> p"

definition demo_new_rule :: CreateRateLimitInput where
  "demo_new_rule = demo_input\<lparr>iWindows := [demo_window 100 (90 * second), demo_window 5 second]\<rparr>"

lemma system_rule_sound: "rule_sound system_rule"
  by code_simp

lemma demo_admin_wf: "rules_wf (rsTables demo_admin)"
  by (simp add: rules_wf_def demo_admin_def system_rule_sound budget_sound_def window_sound_def windows_of_def)

section \<open>Evaluating writes\<close>

text \<open>The writes on an input that is known to be valid, without the validation.\<close>

definition insert_checked :: "rl_call \<Rightarrow> CreateRateLimitInput \<Rightarrow> rules_db \<Rightarrow> rl_error option \<times> rules_db" where
  "insert_checked call i db =
     (if rcFaults call RBegin \<or> rcFaults call RInsertRule then (Some RlQueryFailed, db)
      else case stored_texts i of
        None \<Rightarrow> (Some RlQueryFailed, db)
      | Some (name, target) \<Rightarrow>
          if map_of (rdRules db) (iID i) \<noteq> None then (Some (RlExistsID (iID i)), db)
          else if list_ex (\<lambda>(_, q). rlName q = name) (rdRules db) then (Some (RlExistsName (iName i)), db)
          else committed call db (insertWindows call (iID i) 0 (iWindows i)
            (db\<lparr>rdRules := (iID i, rule_row_of call i name target) # rdRules db\<rparr>)))"

definition create_checked :: "rl_call \<Rightarrow> CreateRateLimitInput \<Rightarrow> rl_state \<Rightarrow> rl_error option \<times> rl_state" where
  "create_checked call i st =
     (case validateTarget call (iTargetKind i) (iTarget i) (iMethods i) of
        Some e \<Rightarrow> (Some e, st)
      | None \<Rightarrow> after_write call (insert_checked call i (rsTables st)) st)"

lemma create_evaluated:
  assumes "rule_ok i" "iID i = uuid7 5"
  shows "RateLimits_Create call (Some i) st = create_checked call i st"
proof -
  have k: "IsUUIDV7 (uuid7 5)" "uuid7 5 \<noteq> uuid_nil" by code_simp+
  then have "EnsureUUIDV7 (rcFresh call) (iID i) = iID i" by (simp add: assms(2) EnsureUUIDV7_def)
  moreover have "i\<lparr>iID := iID i\<rparr> = i" by simp
  moreover have v: "CreateRateLimitInput_Validate i = None" using assms k by (simp add: rule_validated)
  moreover have "repo_InsertRule call i (rsTables st) = insert_checked call i (rsTables st)"
    unfolding repo_InsertRule_def insert_checked_def v option.case by (rule refl)
  ultimately show ?thesis
    by (simp add: RateLimits_Create_def Let_def create_checked_def split: option.split)
qed

lemma demo_input_ok: "rule_ok demo_input" and demo_input_id: "iID demo_input = uuid7 5"
  using demo_input_accepted by (simp_all add: rule_validated demo_input_def)

lemma demo_windows_ok:
  assumes "ws \<noteq> []" "length ws \<le> 5" "distinct (map wPeriod ws)" "list_all window_ok ws"
  shows "rule_ok (demo_input\<lparr>iWindows := ws\<rparr>)"
  using demo_input_ok assms by (simp add: rule_ok_def)

lemma demo_new_rule_ok: "rule_ok demo_new_rule" "iID demo_new_rule = uuid7 5"
  unfolding demo_new_rule_def
  by (rule demo_windows_ok) (simp_all add: window_ok_def demo_window_def requested_window_def demo_input_id)

definition demo_create :: rl_op where
  "demo_create = RlCreate demo_rl_call demo_new_rule"

definition demo_written :: rl_state where
  "demo_written = snd (create_checked demo_rl_call demo_new_rule demo_admin)"

lemma demo_created: "rl_step demo_create demo_admin = (None, demo_written)"
proof -
  have "fst (create_checked demo_rl_call demo_new_rule demo_admin) = None" by code_simp
  then show ?thesis by (simp add: demo_create_def create_evaluated[OF demo_new_rule_ok] demo_written_def prod_eq_iff)
qed

lemma demo_no_faults: "\<not> rcFaults demo_rl_call s"
  by (simp add: demo_rl_call_def)

definition demo_get :: RateLimitRequest where
  "demo_get = \<lparr>reqMethod = ''GET'', reqPattern = ''/users/{user_id}'', reqAuthenticated = True\<rparr>"

section \<open>Writes\<close>

lemma demo_create_is: "demo_create = RlCreate demo_rl_call demo_new_rule"
  by (simp add: demo_create_def)

lemma demo_step: "rl_step demo_create (rl_run [] demo_admin) = (None, demo_written)"
  by (simp add: demo_created)

lemma demo_mirrors: "rsMirror (rl_run [] demo_admin) \<noteq> None"
  by (simp add: demo_admin_def)

theorem written_rules_are_enforced_witness:
  "\<exists>m. rsMirror demo_written = Some m \<and> Resolve m demo_get = (ResolveRateLimits (stored_rules (rsTables demo_written)) demo_get, True)
    \<and> Effective demo_rl_call demo_get demo_written = Inr (ResolveRateLimits (stored_rules (rsTables demo_written)) demo_get)"
  by (rule written_rules_are_enforced[OF demo_admin_wf demo_step demo_mirrors disjI1[OF demo_create_is] demo_no_faults demo_no_faults])

theorem written_rule_reads_back_witness:
  "\<exists>r. RateLimits_GetByID demo_rl_call (rl_target_id demo_create) demo_written = Inr r \<and> stored_texts demo_new_rule = Some (rName r, rTarget r)
    \<and> (rDescription r, rTargetKind r, rMethods r, rScope r, rAudience r, rStrategy r)
        = (iDescription demo_new_rule, iTargetKind demo_new_rule, iMethods demo_new_rule, iScope demo_new_rule, iAudience demo_new_rule, iStrategy demo_new_rule)
    \<and> rSystem r = Some False \<and> iEnabled demo_new_rule \<in> {None, rEnabled r}
    \<and> mset (map window_seconds (rWindows r)) = mset (map window_seconds (iWindows demo_new_rule)) \<and> sorted_wrt (<) (map wPeriod (rWindows r))"
  by (rule written_rule_reads_back[OF demo_admin_wf demo_step disjI1[OF demo_create_is] demo_no_faults demo_no_faults])

theorem accepted_target_is_served_witness:
  "iTarget demo_new_rule \<in> fst ` set (rcResources demo_rl_call) \<and> (''*'' \<in> set (iMethods demo_new_rule)
    \<or> list_all (\<lambda>m. (iTarget demo_new_rule, m) \<in> set (rcResources demo_rl_call)
        \<or> m = ''HEAD'' \<and> (iTarget demo_new_rule, ''GET'') \<in> set (rcResources demo_rl_call)) (iMethods demo_new_rule))"
  by (rule accepted_target_is_served[OF demo_created disjI1[OF demo_create_is]]) (simp add: demo_new_rule_def demo_input_def)

text \<open>The operations of the system rule's own run: a change and a delete of it, both refused, and the create.\<close>

definition demo_ops :: "rl_op list" where
  "demo_ops = [RlDelete demo_rl_call (uuid7 40), demo_create, RlUpdate demo_rl_call (demo_new_rule\<lparr>iID := uuid7 40, iName := ''mine''\<rparr>)]"

theorem system_rules_are_kept_witness:
  "RateLimits_GetByID demo_rl_call (uuid7 40) (rl_run demo_ops demo_admin) = RateLimits_GetByID demo_rl_call (uuid7 40) demo_admin"
  by (rule system_rules_are_kept[of demo_admin "uuid7 40" system_rule]) (simp_all add: demo_admin_def system_rule_def)

text \<open>Two windows of one and of one and a half seconds pass the validator and are refused as if two writers had raced.\<close>

definition half_second_rule :: CreateRateLimitInput where
  "half_second_rule = demo_input\<lparr>iWindows := [demo_window 10 second, demo_window 20 (second + second div 2)]\<rparr>"

lemma half_second_ok: "rule_ok half_second_rule" "iID half_second_rule = uuid7 5"
  unfolding half_second_rule_def
  by (rule demo_windows_ok) (simp_all add: window_ok_def demo_window_def requested_window_def demo_input_id)

lemma half_second_answer:
  "CreateRateLimitInput_Validate half_second_rule = None"
  "fst (rl_step (RlCreate demo_rl_call half_second_rule) demo_admin) = Some (RlTarget [] [] windows_race)"
proof -
  have "IsUUIDV7 (uuid7 5)" by code_simp
  then show "CreateRateLimitInput_Validate half_second_rule = None" by (simp add: rule_validated half_second_ok)
  show "fst (rl_step (RlCreate demo_rl_call half_second_rule) demo_admin) = Some (RlTarget [] [] windows_race)"
    unfolding rl_step.simps create_evaluated[OF half_second_ok] by code_simp
qed

theorem unstorable_windows_are_refused_witness:
  "CreateRateLimitInput_Validate half_second_rule = None
   \<and> rl_step (RlCreate demo_rl_call half_second_rule) demo_admin = (Some (RlTarget [] [] windows_race), demo_admin)"
proof -
  have "\<not> distinct (map (\<lambda>w. wPeriod w div second) (iWindows half_second_rule))"
    by (simp add: half_second_rule_def demo_window_def requested_window_def)
  then have "\<exists>e. rl_step (RlCreate demo_rl_call half_second_rule) demo_admin = (Some e, demo_admin)"
    by (intro unstorable_windows_are_refused[where i = half_second_rule and call = demo_rl_call]) simp_all
  with half_second_answer show ?thesis by auto
qed

text \<open>A budget over 32 bits passes the validator and fails in the store.\<close>

definition wide_rule :: CreateRateLimitInput where
  "wide_rule = demo_input\<lparr>iWindows := [demo_window (2 ^ 31) second]\<rparr>"

lemma wide_rule_ok: "rule_ok wide_rule" "iID wide_rule = uuid7 5"
  unfolding wide_rule_def
  by (rule demo_windows_ok) (simp_all add: window_ok_def demo_window_def requested_window_def demo_input_id)

lemma wide_budget_is_an_internal_error:
  "CreateRateLimitInput_Validate wide_rule = None \<and> fst (rl_step (RlCreate demo_rl_call wide_rule) demo_admin) = Some RlQueryFailed"
proof -
  have "IsUUIDV7 (uuid7 5)" by code_simp
  moreover have "fst (create_checked demo_rl_call wide_rule demo_admin) = Some RlQueryFailed" by code_simp
  ultimately show ?thesis by (simp add: rule_validated wide_rule_ok create_evaluated[OF wide_rule_ok])
qed

text \<open>A prefix rule may name a method nothing under it is registered for; one for the same route may not.\<close>

definition prefix_rule :: CreateRateLimitInput where
  "prefix_rule = demo_input\<lparr>iTargetKind := ''prefix'', iTarget := ''/users/'', iMethods := [''DELETE'']\<rparr>"

definition route_rule :: CreateRateLimitInput where
  "route_rule = demo_input\<lparr>iMethods := [''DELETE'']\<rparr>"

lemma method_rules_ok: "rule_ok prefix_rule" "rule_ok route_rule" "iID prefix_rule = uuid7 5" "iID route_rule = uuid7 5"
proof -
  have "rx_match rateLimitTargetRe ''/users/''" "HasSuffix ''/users/'' ''/''" by code_simp+
  then show "rule_ok prefix_rule" "rule_ok route_rule" "iID prefix_rule = uuid7 5" "iID route_rule = uuid7 5"
    using demo_input_ok demo_input_id
    by (auto simp: prefix_rule_def route_rule_def rule_ok_def validRateLimitTargetKinds_def valid_actions_def)
qed

lemma prefix_methods_are_unchecked:
  "fst (rl_step (RlCreate demo_rl_call prefix_rule) demo_admin) = None
   \<and> fst (rl_step (RlCreate demo_rl_call route_rule) demo_admin)
       = Some (RlTarget ''/users/{user_id}'' ''DELETE'' ''this path is registered for GET, PUT but not DELETE'')"
proof -
  have "fst (create_checked demo_rl_call prefix_rule demo_admin) = None"
    "fst (create_checked demo_rl_call route_rule demo_admin)
       = Some (RlTarget ''/users/{user_id}'' ''DELETE'' ''this path is registered for GET, PUT but not DELETE'')"
    by code_simp+
  then show ?thesis by (simp add: create_evaluated method_rules_ok)
qed

text \<open>A reading from before the create, stored after it: the new rule is not enforced, though the create applied it.\<close>

theorem late_reload_enforces_the_earlier_rules_witness:
  "Effective demo_rl_call demo_get (landed (101 * second) demo_rl_call (rsTables demo_admin) (rl_run [demo_create] demo_admin))
     = Inr (ResolveRateLimits (stored_rules (rsTables demo_admin)) demo_get)"
proof -
  have "rsMirror demo_written \<noteq> None" by code_simp
  then show ?thesis
    by (intro late_reload_enforces_the_earlier_rules[OF demo_admin_wf _ demo_no_faults demo_no_faults]) (simp add: demo_created)
qed

section \<open>Over the routes\<close>

definition demo_rl_api :: rl_api where
  "demo_rl_api = \<lparr>raCall = demo_rl_call, raFresh = uuid7 51, raGone = False, raUpper = id, raFraction = (\<lambda>f unit scale. f * unit div scale)\<rparr>"

lemma demo_paths: "parseUUIDQueryParams (uuid_string (uuid7 40)) = Inr (uuid7 40)" "parseUUIDQueryParams (uuid_string (uuid7 5)) = Inr (uuid7 5)"
proof -
  have v: "IsUUIDV7 (uuid7 40)" "IsUUIDV7 (uuid7 5)" by code_simp+
  have n: "uuid_string u \<noteq> []" for u by (simp add: uuid_string_def)
  show "parseUUIDQueryParams (uuid_string (uuid7 40)) = Inr (uuid7 40)" "parseUUIDQueryParams (uuid_string (uuid7 5)) = Inr (uuid7 5)"
    using v n by (simp_all add: parseUUIDQueryParams_def uuid_parse_string)
qed

theorem refused_rule_requests_change_nothing_witness:
  "rl_status (fst (rl_serve demo_rl_api (DeleteRule (uuid_string (uuid7 40))) demo_admin)) = 403
   \<and> snd (rl_serve demo_rl_api (DeleteRule (uuid_string (uuid7 40))) demo_admin) = demo_admin"
proof -
  have "fst (RateLimits_DeleteByID demo_rl_call (Some (uuid7 40)) demo_admin) = Some (RlSystem (uuid7 40))" by code_simp
  then have s: "rl_status (fst (rl_serve demo_rl_api (DeleteRule (uuid_string (uuid7 40))) demo_admin)) = 403"
    by (auto simp: rule_deleteByID_def rl_refuse_def demo_paths demo_rl_api_def writeDeleteError_def rl_answer_def split: prod.splits)
  then show ?thesis using refused_rule_requests_change_nothing[of demo_rl_api "DeleteRule (uuid_string (uuid7 40))" demo_admin] by simp
qed

definition demo_row :: RateLimit where
  "demo_row = (case RateLimits_GetByID demo_rl_call (uuid7 5) demo_written of Inr r \<Rightarrow> r | Inl _ \<Rightarrow> demo_rule [] [] [] [] [])"

definition demo_read :: RateLimitResponse where
  "demo_read = ToRateLimitResponse demo_row"

lemma demo_found: "RateLimits_GetByID demo_rl_call (uuid7 5) demo_written = Inr demo_row"
proof -
  have "isl (RateLimits_GetByID demo_rl_call (uuid7 5) demo_written) = False" by code_simp
  then show ?thesis by (cases "RateLimits_GetByID demo_rl_call (uuid7 5) demo_written") (simp_all add: demo_row_def)
qed

lemma demo_read_answer: "rl_serve demo_rl_api (GetRule (uuid_string (uuid7 5))) demo_written = (RlRule demo_read, demo_written)"
  unfolding GetByID_read using demo_found demo_paths by (auto simp: demo_rl_api_def demo_read_def)

lemma demo_row_windows:
  "map (\<lambda>w. (wPeriod w, wRequests w, wBurst w)) (SortedWindows demo_row) = [(second, 5, 0), (90 * second, 100, 0)]"
  by code_simp

lemma demo_rule_texts: "stored_texts demo_new_rule = Some (''users'', ''/users/{user_id}'')"
  by code_simp

lemma demo_row_fields:
  "rEnabled demo_row = Some True \<and> rName demo_row = ''users'' \<and> rTarget demo_row = ''/users/{user_id}''
   \<and> (rDescription demo_row, rTargetKind demo_row, rMethods demo_row, rScope demo_row, rAudience demo_row, rStrategy demo_row)
        = (iDescription demo_new_rule, iTargetKind demo_new_rule, iMethods demo_new_rule, iScope demo_new_rule, iAudience demo_new_rule, iStrategy demo_new_rule)"
proof -
  have "EnsureUUIDV7 (uuid7 50) (uuid7 5) = uuid7 5" by code_simp
  then have "rl_target_id demo_create = uuid7 5" by (simp add: demo_create_def demo_new_rule_def demo_input_def demo_rl_call_def)
  with written_reads_back[OF demo_admin_wf demo_created disjI1[OF demo_create_is] demo_no_faults demo_no_faults] demo_found demo_rule_texts
  show ?thesis by (auto simp: demo_new_rule_def demo_input_def)
qed

text \<open>The update that sends it back draws other ids for the windows.\<close>

definition demo_put_api :: rl_api where
  "demo_put_api = demo_rl_api\<lparr>raCall := demo_rl_call\<lparr>rcNow := 200 * second, rcWindowIDs := (\<lambda>n. if n = 0 then uuid7 62 else uuid7 63)\<rparr>\<rparr>"

lemma demo_read_facts:
  "qrSystem demo_read = Some False" "length (qrWindows demo_read) = 2"
  "validateTarget demo_rl_call (qrTargetKind demo_read) (qrTarget demo_read) (qrMethods demo_read) = None"
proof -
  have "rSystem demo_row = Some False" by code_simp
  then show "qrSystem demo_read = Some False" by (simp add: demo_read_def ToRateLimitResponse_def)
  have "length (SortedWindows demo_row) = 2" using arg_cong[where f = length, OF demo_row_windows] by simp
  then show "length (qrWindows demo_read) = 2" by (simp add: demo_read_def ToRateLimitResponse_def toRateLimitWindowResponses_def)
  have "validateTarget demo_rl_call (iTargetKind demo_new_rule) ''/users/{user_id}'' (iMethods demo_new_rule) = None" by code_simp
  then show "validateTarget demo_rl_call (qrTargetKind demo_read) (qrTarget demo_read) (qrMethods demo_read) = None"
    using demo_row_fields by (simp add: demo_read_def ToRateLimitResponse_def)
qed

lemma demo_put_ids: "fresh_ids (raCall demo_put_api) 2 (rsTables demo_written)"
proof -
  have w: "map fst (rdWindows (rsTables demo_written)) = [uuid7 61, uuid7 60, uuid7 41]" by code_simp
  have d: "distinct [uuid7 61, uuid7 60, uuid7 41, uuid7 62, uuid7 63]" by code_simp
  have "x \<notin> fst ` set (rdWindows (rsTables demo_written))" if "x \<in> {uuid7 62, uuid7 63}" for x
    using that d arg_cong[where f = set, OF w] by auto
  then show ?thesis
    using d by (auto simp: fresh_ids_def demo_put_api_def map_of_eq_None_iff upt_rec less_Suc_eq numeral_2_eq_2)
qed

lemma demo_put_target: "validateTarget (raCall demo_put_api) = validateTarget demo_rl_call"
  by (intro ext) (simp add: validateTarget_def endpointCatalogue_def demo_put_api_def)

theorem resubmitted_rule_reads_the_same_witness:
  "\<exists>a st' resp'. rl_serve demo_put_api (PutRule (uuid_string (uuid7 5)) (Inr (resubmission demo_read))) demo_written = (a, st') \<and> rl_status a = 200
    \<and> rl_serve demo_rl_api (GetRule (uuid_string (uuid7 5))) st' = (RlRule resp', st') \<and> content resp' = content demo_read"
proof -
  have st: "demo_written = rl_run [demo_create] demo_admin" by (simp add: demo_created)
  have v: "rules_valid (rsTables demo_admin)" by (simp add: rules_valid_def demo_admin_def system_rule_def)
  show ?thesis
    by (rule resubmitted_rule_reads_the_same[OF demo_admin_wf v st demo_read_answer demo_read_facts(1)])
      (simp_all only: demo_read_facts demo_put_ids demo_put_target, simp_all add: demo_put_api_def demo_rl_api_def demo_no_faults)
qed

end
