(* ===== verification/Spec2Isabelle.thy ===== *)
theory Spec2Isabelle
  imports RateLimitMiddleware ResourceLimits RevokedMirror TokenLifetimes AccountsRuns Paging AuthnRaces AuthnLinks AuthnAnswers ProjectsDemo ExternalDemo RateLimitsDemo
begin

text \<open>
  Verification of the core of the service: a REST API in a hexagonal layout,
  whose rules live in \<open>src/internal/core\<close> (domain types and use cases) and
  whose state lives behind ports that \<open>src/internal/adapter\<close> implements: a
  PostgreSQL database (\<open>repositorypg\<close>), in-process mirrors and limiters, a
  Valkey counter, a JWT signer and the HTTP middleware.

  Conventions.  A Go struct is a record, a nil pointer is None, a string is the
  list of its bytes, a uuid a word of 128 bits, an \<open>int64\<close> serial a word of 64
  bits, an instant and a duration an integer of nanoseconds.  A call that may
  fail returns a sum whose left side is the error, or an option of an error
  beside the new state.  A table is an association list keyed by its primary
  key; a statement of SQL, or a transaction that holds its locks to the end, is
  one step on the tables as they are when it runs, with the constraints and
  triggers of \<open>src/database/migrations\<close>.  Which statements fail, what instants
  are read, which ids are drawn and what a cache answers are arguments, so
  every theorem is about every such choice.  Operations that interleave are
  modelled by running their statements one after the other in the order in
  question.  Spans, metrics and log lines are left out except where the code
  decides by them.

  The theories, in the order the service is built up.

  \<^item> \<open>Go_Prelude\<close>, \<open>Go_Regex\<close>: the parts of Go's standard library the code
    uses (strings, decimal numbers, uuids, UTF-8, anchored regular expressions),
    and the lemma collections every theory shares.
  \<^item> \<open>Validation\<close>: \<open>core/domain/validation.go\<close>, \<open>list_expressions.go\<close>; the
    validators and what they accept (\<open>accepted_password\<close>).
  \<^item> \<open>Cursor\<close>, \<open>Paging\<close>: \<open>core/domain/paginator.go\<close> and the list statement of
    every repository (\<open>repositorypg/pg_common.go\<close> and \<open>Select\<close> of
    \<open>users.go\<close>).  Cursor tokens read back; following the next tokens lists every
    row once; two places where a row is lost.
  \<^item> \<open>RateLimitRules\<close>, \<open>RateLimitMirror\<close>, \<open>RateLimitBreaker\<close>, \<open>RateLimitStores\<close>,
    \<open>ClientIP\<close>, \<open>RateLimitMiddleware\<close>: \<open>core/domain/rate_limits.go\<close> and
    \<open>rate_limits_resolution.go\<close>, \<open>usecase/rate_limits_mirror.go\<close>, the adapters
    \<open>ratelimitbreaker\<close>, \<open>ratelimitvalkey\<close>, \<open>ratelimitmemory\<close>, \<open>throttlememory\<close>,
    and the middleware \<open>clientip.go\<close>, \<open>ratelimit_exempt.go\<close>, \<open>ratelimit.go\<close>.
    The port of the limiters is a locale, \<open>limiter_port\<close>, interpreted on every
    store and on the breaker around each.
  \<^item> \<open>RateLimitAdmin\<close>, \<open>RateLimitAdminRules\<close>: the tables of the rules
    (migration 00015), \<open>repositorypg/rate_limits.go\<close> and \<open>usecase/rate_limits.go\<close>.
    No run of writes leaves a row the loader would drop, so what is stored is
    what the replica enforces and reports; the rules of the system stay; what
    the columns cannot hold is refused, and a reload can land late.
  \<^item> \<open>GoDuration\<close>, \<open>RateLimitsApi\<close>, \<open>RateLimitsApiRules\<close>, \<open>RateLimitsDemo\<close>:
    \<open>time.ParseDuration\<close>, the routes and payloads of the rules
    (\<open>handler/rate_limits.go\<close>, \<open>payload/rate_limits.go\<close>), that a rule put back as
    it was read stays as it was, and the concrete runs.
  \<^item> \<open>ResourceLimits\<close>: the signed usage counters, their reservation and their
    reconciliation (\<open>usecase/resources_limits.go\<close>, \<open>repositorypg/resources_limits.go\<close>).
  \<^item> \<open>RevokedTokens\<close>, \<open>RevokedMirror\<close>, \<open>TokenLifetimes\<close>, \<open>TokenJWT\<close>: the
    denylist of spent tokens and its chains, its mirror, how long tokens live,
    and the signer with its keyset.
  \<^item> \<open>Accounts\<close>, \<open>AccountsRules\<close>, \<open>AccountsRuns\<close>: \<open>usecase/users.go\<close>,
    \<open>administrator_account.go\<close> and their statements in \<open>repositorypg/users.go\<close>.
    Runs of the operations keep an administrator who can sign in; two concurrent
    updates do not.
  \<^item> \<open>Authn\<close>, \<open>AuthnDemo\<close>, \<open>AuthnSessions\<close>, \<open>AuthnRaces\<close>, \<open>AuthnLinks\<close>,
    \<open>AuthnAnswers\<close>: \<open>usecase/authn.go\<close> over the accounts, the denylist, the
    lifetimes, the throttle and the signer.  What renews a session and what ends
    it, that a mailed link works once, and what the unauthenticated routes tell.
  \<^item> \<open>Identities\<close>, \<open>Providers\<close>: the identities of accounts and the providers they
    are at (\<open>core/domain/users_identities.go\<close>, \<open>idps.go\<close>, \<open>idp_types.go\<close>;
    \<open>repositorypg/users_identities.go\<close>, \<open>idps.go\<close>; \<open>usecase/idps.go\<close> with its guards).
  \<^item> \<open>ExternalSignIn\<close>, \<open>OAuthClient\<close>: the sign-in through a provider
    (\<open>usecase/authn_idp.go\<close>), over the accounts, the providers, the denylist and
    the sessions, and the adapter that speaks to one
    (\<open>adapter/driven/oauthidp\<close>).
  \<^item> \<open>ExternalRuns\<close>: every call on accounts, providers and identities refines a
    change of the tables (\<open>ext_step_refines\<close>), so that no run of them breaks the
    identities, points a linked provider elsewhere or leaves no administrator
    with a way in.
  \<^item> \<open>ExternalRules\<close>, \<open>ExternalDemo\<close>: what a callback guarantees (the account it
    reaches, the one use of its state, what a link attaches, what an identity
    has to prove), who may redirect a linked provider, and the concrete runs;
    and the delete of a provider that locks a member out.
  \<^item> \<open>Grants\<close>, \<open>GrantsService\<close>: roles, policies and their links
    (\<open>core/domain/policies.go\<close>, \<open>roles.go\<close>, \<open>grants.go\<close>; the statements of
    \<open>repositorypg/policies.go\<close>, \<open>roles.go\<close> and \<open>users.go\<close> with the triggers of
    migration 00007; \<open>usecase/policies.go\<close>, \<open>roles.go\<close>, \<open>grant_guard.go\<close>, the
    links of \<open>users.go\<close>, \<open>ListMatches\<close> of \<open>resources.go\<close>), and the decision:
    \<open>SelectAuthz\<close>, \<open>usecase/authz.go\<close> and the rules of \<open>policyopa\<close>'s
    \<open>policy.rego\<close>.  A pattern is read as the expression the policy builds from
    it: the alphabet of valid patterns has no character a regular expression
    gives a meaning but the star.
  \<^item> \<open>GrantsRules\<close>, \<open>GrantsRuns\<close>, \<open>GrantsGuards\<close>, \<open>GrantsRaces\<close>: the guard and the
    policy agree on what is covered; no run of one caller's operations leaves
    anybody with a grant that neither held before (\<open>nobody_escalates\<close>); the
    seeded administrator keeps everything; only administrators strip
    administrators; the guard's loop over the pages of a role, a partial
    function, returns; and two concurrent edits of one policy do escalate.
  \<^item> \<open>Projects\<close>, \<open>ProjectsRuns\<close>: the tenants and what they hold
    (\<open>core/domain/projects.go\<close>, \<open>products.go\<close>, their use cases and statements), over
    the counters of \<open>ResourceLimits\<close>.  A service that charges its rows to a
    counter is a locale, \<open>counted_rows\<close>, interpreted on the products of a
    project: no run takes them past the hard limit.
  \<^item> \<open>AccessGate\<close>: the checks in front of every authenticated route
    (\<open>middleware/middlewares.go\<close>, \<open>project_membership.go\<close>, \<open>jwtvalidator\<close>, the
    chains of \<open>app/server.go\<close>) over an environment of answers, which \<open>gate_of\<close>
    fills with the models of the signer, the mirror, the accounts, the grants
    and the memberships.
  \<^item> \<open>ProjectsApi\<close>: the handlers and payloads of projects and products and the
    answers of \<open>respond\<close>; \<open>answer\<close> is a request through the gate to its route.
  \<^item> \<open>ProjectsTenancy\<close>, \<open>ProjectsPrivacy\<close>, \<open>ProjectsDemo\<close>: what the gate admits;
    that accounts outside a project neither change it nor, but for creates under
    a taken id, see it; and three concrete runs against the limits and that
    secrecy.

  Bounds and parameters.  Code outside the repository is an argument: bcrypt,
  ECDSA, SHA-256 and the JWT library, \<open>net/mail\<close> and \<open>net/url\<close>, the query
  parsers of \<open>qfv\<close> and the SQL a caller's filter and sort become, the Valkey
  client and the token buckets of \<open>x/time/rate\<close>.  What the code relies on of
  them is stated as a predicate (\<open>jwt_laws\<close> and the like) that a theorem assumes
  and its witness discharges on a concrete instance.  Fuel occurs in
  \<open>walk_forward\<close>, where the number of rows and one more is enough and is proved
  to be.

  Not modelled: the HTTP handlers, payloads and response writers of the other
  resources, which translate JSON to the inputs and errors to status codes, and
  the lists of projects, products, providers and rules; the cache, the change notifier, mail and the cipher, which are
  ports to outside services; configuration, wiring, health and telemetry
  (\<open>src/internal/app\<close>, \<open>config\<close>, \<open>o11y\<close>); the commands under \<open>src/cmd\<close>; and
  \<open>src/docs/api/docs.go\<close>, which is generated.
\<close>

end
